(* ===== verification/Prelude.thy ===== *)
theory Prelude
  imports
    Complex_Main
    "HOL-Library.Char_ord"
    "HOL-Library.List_Lexorder"
    "HOL-Library.Product_Lexorder"
    "HOL-Library.Multiset"
begin

text \<open>
  What the components of the development share: Python's error-or-value results, its strings and
  integers as the sources use them, stable minimum and maximum, ordered dictionaries, the two
  interfaces that several components implement (an object with an idempotent release, a system
  with an invariant), and the collections of rewrite rules the component proofs draw on.

  Conventions. A Python float is an exact rational: the sources only add, subtract, compare and
  round them, and no theorem below relies on a rounding error. A Python string is a \<^typ>\<open>string\<close>,
  one \<^typ>\<open>char\<close> per code point below 256, which is what an HTTP header can carry. An exception is
  the left injection of a sum.
\<close>

named_theorems gw_defs \<open>definitions of the inference gateway\<close>
named_theorems kv_defs \<open>definitions of the KV transfer runtime\<close>
named_theorems qry_defs \<open>definitions of the governed query layer\<close>
named_theorems app_defs \<open>definitions of the application services\<close>

type_synonym pyfloat = rat

text \<open>The exceptions of the language and its standard library that the sources raise or catch.\<close>

datatype py_exn = ValueError string | TypeError string | KeyError string | RuntimeError string

text \<open>The process environment: \<open>os.getenv(name)\<close> is \<^const>\<open>None\<close> for a variable that is not set.\<close>

type_synonym environ = "string \<Rightarrow> string option"

definition getenv :: "environ \<Rightarrow> string \<Rightarrow> string \<Rightarrow> string" where
  "getenv env name dflt = (case env name of None \<Rightarrow> dflt | Some v \<Rightarrow> v)"

subsection \<open>Results\<close>

definition try_bind :: "'e + 'a \<Rightarrow> ('a \<Rightarrow> 'e + 'b) \<Rightarrow> 'e + 'b" where
  "try_bind m f = (case m of Inl e \<Rightarrow> Inl e | Inr x \<Rightarrow> f x)"

definition guard_or :: "bool \<Rightarrow> 'e \<Rightarrow> 'e + unit" where
  "guard_or b e = (if b then Inr () else Inl e)"

fun try_map :: "('a \<Rightarrow> 'e + 'b) \<Rightarrow> 'a list \<Rightarrow> 'e + 'b list" where
  "try_map f [] = Inr []"
| "try_map f (x # xs) = try_bind (f x) (\<lambda>y. try_bind (try_map f xs) (\<lambda>ys. Inr (y # ys)))"

lemma try_bind_simps [simp]: "try_bind (Inl e) f = Inl e" "try_bind (Inr x) f = f x"
  by (simp_all add: try_bind_def)

lemma try_bind_eq_Inr [simp]: "try_bind m f = Inr y \<longleftrightarrow> (\<exists>x. m = Inr x \<and> f x = Inr y)"
  by (cases m) auto

lemma try_bind_eq_Inl: "try_bind m f = Inl e \<longleftrightarrow> m = Inl e \<or> (\<exists>x. m = Inr x \<and> f x = Inl e)"
  by (cases m) auto

lemma guard_or_eq_Inr [simp]: "guard_or b e = Inr u \<longleftrightarrow> b"
  by (simp add: guard_or_def)

lemma guard_or_simps [simp]: "guard_or True e = Inr ()" "guard_or False e = Inl e"
  by (simp_all add: guard_or_def)

lemma guard_or_eq_Inl: "guard_or b e = Inl e' \<longleftrightarrow> \<not> b \<and> e' = e"
  by (auto simp: guard_or_def)

lemma try_map_length: "try_map f xs = Inr ys \<Longrightarrow> length ys = length xs"
  by (induction xs arbitrary: ys) auto

lemma try_map_nth: "try_map f xs = Inr ys \<Longrightarrow> i < length xs \<Longrightarrow> f (xs ! i) = Inr (ys ! i)"
  by (induction xs arbitrary: ys i) (auto simp: nth_Cons split: nat.splits)

lemma try_map_set: "try_map f xs = Inr ys \<Longrightarrow> y \<in> set ys \<Longrightarrow> \<exists>x \<in> set xs. f x = Inr y"
  by (induction xs arbitrary: ys) auto

subsection \<open>Strings and integers as Python reads them\<close>

definition py_isspace :: "char \<Rightarrow> bool" where
  "py_isspace c \<longleftrightarrow> (let n = of_char c :: nat in
     (9 \<le> n \<and> n \<le> 13) \<or> (28 \<le> n \<and> n \<le> 32) \<or> n = 133 \<or> n = 160)"

definition py_strip :: "string \<Rightarrow> string" where
  "py_strip s = rev (dropWhile py_isspace (rev (dropWhile py_isspace s)))"

definition py_lower_char :: "char \<Rightarrow> char" where
  "py_lower_char c = (let n = of_char c :: nat in
     if (65 \<le> n \<and> n \<le> 90) \<or> (192 \<le> n \<and> n \<le> 222 \<and> n \<noteq> 215) then char_of (n + 32) else c)"

definition py_lower :: "string \<Rightarrow> string" where
  "py_lower = map py_lower_char"

definition startswith :: "string \<Rightarrow> string \<Rightarrow> bool" where
  "startswith p s \<longleftrightarrow> take (length p) s = p"

fun contains_at :: "string \<Rightarrow> string \<Rightarrow> bool" where
  "contains_at p [] = (p = [])"
| "contains_at p (c # s) = (startswith p (c # s) \<or> contains_at p s)"

text \<open>\<open>sep.join(parts)\<close>.\<close>

fun py_join :: "string \<Rightarrow> string list \<Rightarrow> string" where
  "py_join sep [] = []"
| "py_join sep [x] = x"
| "py_join sep (x # y # ys) = x @ sep @ py_join sep (y # ys)"

text \<open>\<open>str(n)\<close> for an integer.\<close>

definition digit_char :: "nat \<Rightarrow> char" where
  "digit_char d = char_of (48 + d)"

fun show_nat :: "nat \<Rightarrow> string" where
  "show_nat n = (if n < 10 then [digit_char n] else show_nat (n div 10) @ [digit_char (n mod 10)])"

declare show_nat.simps [simp del]

definition show_int :: "int \<Rightarrow> string" where
  "show_int i = (if i < 0 then CHR ''-'' # show_nat (nat (- i)) else show_nat (nat i))"

definition py_isdigit :: "char \<Rightarrow> bool" where
  "py_isdigit c \<longleftrightarrow> (let n = of_char c :: nat in 48 \<le> n \<and> n \<le> 57)"

fun read_digits :: "int \<Rightarrow> string \<Rightarrow> int" where
  "read_digits acc [] = acc"
| "read_digits acc (c # s) = read_digits (10 * acc + ((of_char c :: int) - 48)) s"

text \<open>
  \<open>int(text)\<close>: surrounding white space, one sign, decimal digits with single underscores between
  them, and at most 4300 digits; anything else is \<open>ValueError\<close>.
\<close>

fun digits_ok :: "bool \<Rightarrow> string \<Rightarrow> bool" where
  "digits_ok prev [] = prev"
| "digits_ok prev (c # s) =
     (if py_isdigit c then digits_ok True s
      else prev \<and> c = CHR ''_'' \<and> s \<noteq> [] \<and> digits_ok False s)"

definition py_int :: "string \<Rightarrow> int option" where
  "py_int text = (let s = py_strip text;
       neg = (s \<noteq> [] \<and> hd s = CHR ''-'');
       body = (if s \<noteq> [] \<and> (hd s = CHR ''-'' \<or> hd s = CHR ''+'') then tl s else s);
       ds = filter py_isdigit body
     in if digits_ok False body \<and> length ds \<le> 4300
        then Some (if neg then - read_digits 0 ds else read_digits 0 ds) else None)"

definition int_of :: "string \<Rightarrow> py_exn + int" where
  "int_of text = (case py_int text of None \<Rightarrow> Inl (ValueError ''invalid literal for int()'') | Some i \<Rightarrow> Inr i)"

text \<open>\<open>round(x)\<close>: to the nearest integer, ties to the even one; \<open>round(x, 3)\<close> in thousandths.\<close>

definition py_round :: "rat \<Rightarrow> int" where
  "py_round x = (let f = \<lfloor>x\<rfloor>; d = x - of_int f in
     if d < 1 / 2 then f else if d > 1 / 2 then f + 1 else if even f then f else f + 1)"

definition py_round3 :: "rat \<Rightarrow> rat" where
  "py_round3 x = of_int (py_round (x * 1000)) / 1000"

text \<open>\<open>int(x)\<close> for a float: truncation towards zero.\<close>

definition py_trunc :: "rat \<Rightarrow> int" where
  "py_trunc x = (if x \<ge> 0 then \<lfloor>x\<rfloor> else \<lceil>x\<rceil>)"

lemma digit_char_code [simp]: "d < 10 \<Longrightarrow> (of_char (digit_char d) :: nat) = 48 + d"
  by (simp add: digit_char_def)

lemma digit_char_int [simp]: "d < 10 \<Longrightarrow> (of_char (digit_char d) :: int) = 48 + int d"
  by (simp add: of_nat_of_char [symmetric, where 'a = int])

lemma digit_char_isdigit [simp]: "d < 10 \<Longrightarrow> py_isdigit (digit_char d)"
  by (simp add: py_isdigit_def)

lemma show_nat_nonempty [simp]: "show_nat n \<noteq> []"
  by (subst show_nat.simps) simp

lemma show_nat_digits: "c \<in> set (show_nat n) \<Longrightarrow> py_isdigit c"
proof (induction n rule: show_nat.induct)
  case (1 n)
  then show ?case by (subst (asm) (2) show_nat.simps) (auto split: if_splits)
qed

lemma read_digits_append: "read_digits acc (s @ [c]) = 10 * read_digits acc s + ((of_char c :: int) - 48)"
  by (induction s arbitrary: acc) auto

lemma read_show_nat [simp]: "read_digits 0 (show_nat n) = int n"
proof (induction n rule: show_nat.induct)
  case (1 n)
  then show ?case
    by (cases "n < 10") (simp_all add: show_nat.simps [of n] read_digits_append, presburger)
qed

lemma show_nat_inject [simp]: "show_nat m = show_nat n \<longleftrightarrow> m = n"
  by (metis read_show_nat of_nat_eq_iff)

lemma startswith_iff: "startswith p s \<longleftrightarrow> (\<exists>t. s = p @ t)"
  by (auto simp: startswith_def) (metis append_take_drop_id)

lemma contains_at_iff: "contains_at p s \<longleftrightarrow> (\<exists>u v. s = u @ p @ v)"
proof (induction s)
  case Nil
  then show ?case by auto
next
  case (Cons c s)
  show ?case
  proof
    assume "contains_at p (c # s)"
    then consider t where "c # s = p @ t" | u v where "s = u @ p @ v"
      using Cons.IH by (auto simp: startswith_iff)
    then show "\<exists>u v. c # s = u @ p @ v"
    proof cases
      case 1 then show ?thesis by (metis append_Nil)
    next
      case 2 then show ?thesis by (metis append_Cons)
    qed
  next
    assume "\<exists>u v. c # s = u @ p @ v"
    then obtain u v where e: "c # s = u @ p @ v" by blast
    show "contains_at p (c # s)"
    proof (cases u)
      case Nil
      with e have "startswith p (c # s)" by (auto simp: startswith_iff)
      then show ?thesis by simp
    next
      case (Cons d u')
      with e have "s = u' @ p @ v" by simp
      with Cons.IH show ?thesis by auto
    qed
  qed
qed

lemma py_join_Cons: "xs \<noteq> [] \<Longrightarrow> py_join sep (x # xs) = x @ sep @ py_join sep xs"
  by (cases xs) auto

subsection \<open>Stable minimum\<close>

text \<open>
  \<open>min(xs, key=f)\<close> returns the first element with the least key: \<^const>\<open>arg_min_list\<close>. On an empty
  sequence Python raises; every call below is guarded by a test that the sequence is not empty.
\<close>

lemma arg_min_list_least: "xs \<noteq> [] \<Longrightarrow> x \<in> set xs \<Longrightarrow> f (arg_min_list f xs) \<le> f (x :: 'a) "
  for f :: "'a \<Rightarrow> 'b :: linorder"
  by (simp add: f_arg_min_list_f)

lemma arg_min_list_mem: "xs \<noteq> [] \<Longrightarrow> arg_min_list f xs \<in> set xs"
  by (simp add: arg_min_list_in)

lemma arg_min_list_shift:
  fixes f g :: "'a \<Rightarrow> 'b :: linorder"
  assumes "xs \<noteq> []"
    and "\<And>x y. x \<in> set xs \<Longrightarrow> y \<in> set xs \<Longrightarrow> f x \<le> f y \<longleftrightarrow> g x \<le> g y"
  shows "arg_min_list f xs = arg_min_list g xs"
  using assms
proof (induction f xs rule: arg_min_list.induct)
  case (2 f x y zs)
  have IH: "arg_min_list f (y # zs) = arg_min_list g (y # zs)"
    by (rule "2.IH") (use "2.prems" in auto)
  have "arg_min_list g (y # zs) \<in> set (y # zs)" by (rule arg_min_list_mem) simp
  then have "f x \<le> f (arg_min_list g (y # zs)) \<longleftrightarrow> g x \<le> g (arg_min_list g (y # zs))"
    by (intro "2.prems"(2)) auto
  with IH show ?case by (simp add: Let_def)
qed auto

lemma distinct_map_remove1: "distinct (map f xs) \<Longrightarrow> distinct (map f (remove1 b xs))"
  by (auto simp: distinct_map intro: inj_on_diff)

subsection \<open>Ordered dictionaries\<close>

text \<open>
  A Python dictionary keeps the order of first insertion: an association list with distinct keys.
  \<open>od_set\<close> overwrites in place or appends, \<open>od_pop\<close> deletes, \<open>od_end\<close> is \<open>move_to_end\<close>.
\<close>

type_synonym ('k, 'v) odict = "('k \<times> 'v) list"

fun od_set :: "'k \<Rightarrow> 'v \<Rightarrow> ('k, 'v) odict \<Rightarrow> ('k, 'v) odict" where
  "od_set k v [] = [(k, v)]"
| "od_set k v ((k', v') # d) = (if k' = k then (k, v) # d else (k', v') # od_set k v d)"

definition od_pop :: "'k \<Rightarrow> ('k, 'v) odict \<Rightarrow> ('k, 'v) odict" where
  "od_pop k d = filter (\<lambda>(k', _). k' \<noteq> k) d"

definition od_end :: "'k \<Rightarrow> ('k, 'v) odict \<Rightarrow> ('k, 'v) odict" where
  "od_end k d = (case map_of d k of None \<Rightarrow> d | Some v \<Rightarrow> od_pop k d @ [(k, v)])"

abbreviation od_keys :: "('k, 'v) odict \<Rightarrow> 'k list" where
  "od_keys d \<equiv> map fst d"

lemma od_set_get [simp]: "map_of (od_set k v d) k' = (if k' = k then Some v else map_of d k')"
  by (induction k v d rule: od_set.induct) auto

lemma od_set_keys_set [simp]: "fst ` set (od_set k v d) = insert k (fst ` set d)"
  by (induction k v d rule: od_set.induct) auto

lemma od_set_distinct [simp]: "distinct (od_keys d) \<Longrightarrow> distinct (od_keys (od_set k v d))"
  by (induction k v d rule: od_set.induct) auto

lemma od_set_length: "length (od_set k v d) = (if k \<in> fst ` set d then length d else Suc (length d))"
  by (induction k v d rule: od_set.induct) auto

lemma od_set_mem: "p \<in> set (od_set k v d) \<Longrightarrow> p = (k, v) \<or> p \<in> set d"
  by (induction k v d rule: od_set.induct) (auto split: if_splits)

lemma od_pop_get [simp]: "map_of (od_pop k d) k' = (if k' = k then None else map_of d k')"
  by (induction d) (auto simp: od_pop_def)

lemma od_pop_keys_set [simp]: "fst ` set (od_pop k d) = fst ` set d - {k}"
  by (auto simp: od_pop_def image_iff)

lemma od_pop_distinct [simp]: "distinct (od_keys d) \<Longrightarrow> distinct (od_keys (od_pop k d))"
  by (induction d) (auto simp: od_pop_def image_iff)

lemma od_pop_length: "distinct (od_keys d) \<Longrightarrow>
  length (od_pop k d) = (if k \<in> fst ` set d then length d - 1 else length d)"
proof (induction d)
  case (Cons p d)
  have "k \<notin> fst ` set d \<Longrightarrow> filter (\<lambda>(k', _). k' \<noteq> k) d = d"
    by (rule filter_True) force
  with Cons show ?case
    by (cases p; cases d) (auto simp: od_pop_def)
qed (simp add: od_pop_def)

lemma od_pop_length_le: "length (od_pop k d) \<le> length d"
  by (simp add: od_pop_def)

lemma od_pop_mem: "p \<in> set (od_pop k d) \<longleftrightarrow> p \<in> set d \<and> fst p \<noteq> k"
  by (auto simp: od_pop_def)

lemma od_end_get [simp]: "map_of (od_end k d) = map_of d"
proof
  fix k'
  have "k' = k \<Longrightarrow> map_of d k = Some v \<Longrightarrow> map_of (od_pop k d @ [(k, v)]) k' = map_of d k'" for v
    by (simp add: map_add_def)
  moreover have "k' \<noteq> k \<Longrightarrow> map_of (od_pop k d @ [(k, v)]) k' = map_of d k'" for v
    by (simp add: map_add_def split: option.splits)
  ultimately show "map_of (od_end k d) k' = map_of d k'"
    by (cases "k' = k"; cases "map_of d k") (auto simp: od_end_def)
qed

lemma od_end_keys_set [simp]: "fst ` set (od_end k d) = fst ` set d"
  by (auto simp: od_end_def dest: map_of_SomeD intro: rev_image_eqI split: option.splits)

lemma od_end_distinct [simp]: "distinct (od_keys d) \<Longrightarrow> distinct (od_keys (od_end k d))"
  by (auto simp: od_end_def od_pop_mem split: option.splits)

lemma od_end_length [simp]: "distinct (od_keys d) \<Longrightarrow> length (od_end k d) = length d"
proof (cases "map_of d k")
  case (Some v)
  then have k: "k \<in> fst ` set d" by (force dest: map_of_SomeD)
  assume "distinct (od_keys d)"
  moreover have "d \<noteq> []" using k by auto
  ultimately show ?thesis using Some k by (simp add: od_end_def od_pop_length)
qed (simp add: od_end_def)

lemma od_end_mem: "p \<in> set (od_end k d) \<Longrightarrow> p \<in> set d"
  by (auto simp: od_end_def od_pop_mem dest: map_of_SomeD split: option.splits)

lemma od_get_mem: "map_of d k = Some v \<Longrightarrow> (k, v) \<in> set d"
  by (rule map_of_SomeD)

lemma od_mem_get: "distinct (od_keys d) \<Longrightarrow> (k, v) \<in> set d \<Longrightarrow> map_of d k = Some v"
  by simp

subsection \<open>Updating one entry of a store\<close>

definition upd_nth :: "nat \<Rightarrow> ('a \<Rightarrow> 'a) \<Rightarrow> 'a list \<Rightarrow> 'a list" where
  "upd_nth i f xs = (if i < length xs then xs[i := f (xs ! i)] else xs)"

lemma upd_nth_length [simp]: "length (upd_nth i f xs) = length xs"
  by (simp add: upd_nth_def)

lemma upd_nth_nth: "j < length xs \<Longrightarrow> upd_nth i f xs ! j = (if j = i then f (xs ! j) else xs ! j)"
  by (simp add: upd_nth_def)

text \<open>Counting the entries of a store that satisfy a predicate, before and after one update.\<close>

definition count_if :: "('a \<Rightarrow> bool) \<Rightarrow> 'a list \<Rightarrow> int" where
  "count_if p xs = int (length (filter p xs))"

lemma count_if_simps [simp]:
  "count_if p [] = 0" "count_if p (x # xs) = (if p x then 1 else 0) + count_if p xs"
  "count_if p (xs @ ys) = count_if p xs + count_if p ys"
  by (simp_all add: count_if_def)

lemma count_if_nonneg [simp]: "0 \<le> count_if p xs"
  by (simp add: count_if_def)

lemma count_if_list_update:
  "i < length xs \<Longrightarrow> count_if p (xs[i := y]) =
     count_if p xs - (if p (xs ! i) then 1 else 0) + (if p y then 1 else 0)"
  by (induction xs arbitrary: i) (auto split: nat.splits)

lemma count_if_pos: "0 < count_if p xs \<longleftrightarrow> (\<exists>x \<in> set xs. p x)"
  by (induction xs) (auto simp: count_if_def)

lemma count_if_cong: "(\<And>x. x \<in> set xs \<Longrightarrow> p x = q x) \<Longrightarrow> count_if p xs = count_if q xs"
  by (simp add: count_if_def cong: filter_cong)

subsection \<open>Interfaces\<close>

text \<open>
  An object whose \<open>release\<close> may be called from several exit paths (a tenant lease, a dispatch
  ticket): the first call ends its life, every later call is a no-op, and no call touches the
  life of another object.
\<close>

locale once_release =
  fixes release :: "'i \<Rightarrow> 's \<Rightarrow> 's" and live :: "'i \<Rightarrow> 's \<Rightarrow> bool"
  assumes release_dead: "\<not> live i s \<Longrightarrow> release i s = s"
    and release_kills: "\<not> live i (release i s)"
    and release_other: "j \<noteq> i \<Longrightarrow> live j s \<Longrightarrow> live j (release i s)"
begin

lemma release_idem: "release i (release i s) = release i s"
  by (simp add: release_dead release_kills)

lemma release_many: "(release i ^^ Suc n) s = release i s"
  by (induction n) (simp_all add: release_idem)

lemma release_live_mono: "live j s \<Longrightarrow> live j (release i s) \<longleftrightarrow> j \<noteq> i"
  using release_kills release_other by metis

end

text \<open>States that a sequence of steps reaches, and the rule that an inductive invariant holds there.\<close>

inductive reach :: "('s \<Rightarrow> bool) \<Rightarrow> ('s \<Rightarrow> 's \<Rightarrow> bool) \<Rightarrow> 's \<Rightarrow> bool" for init step where
  reach_init: "init s \<Longrightarrow> reach init step s"
| reach_step: "reach init step s \<Longrightarrow> step s t \<Longrightarrow> reach init step t"

locale inv_system =
  fixes init :: "'s \<Rightarrow> bool" and step :: "'s \<Rightarrow> 's \<Rightarrow> bool" and inv :: "'s \<Rightarrow> bool"
  assumes inv_init: "init s \<Longrightarrow> inv s"
    and inv_step: "inv s \<Longrightarrow> step s t \<Longrightarrow> inv t"
begin

lemma inv_reach: "reach init step s \<Longrightarrow> inv s"
  by (induction rule: reach.induct) (auto intro: inv_init inv_step)

end

text \<open>
  A budget that is only ever spent through \<open>reserve\<close>, which refuses what would pass the limit: no
  sequence of reservations, granted or refused, passes it.
\<close>

locale capped_budget =
  fixes reserve :: "'a \<Rightarrow> 's \<Rightarrow> 's option" and spent :: "'s \<Rightarrow> 'n :: linordered_idom"
    and limit :: 'n
  assumes reserve_capped: "reserve a s = Some t \<Longrightarrow> spent t \<le> limit"
begin

lemma fold_reserve_capped:
  "spent s \<le> limit \<Longrightarrow>
   spent (fold (\<lambda>a s. case reserve a s of None \<Rightarrow> s | Some t \<Rightarrow> t) as s) \<le> limit"
  by (induction as arbitrary: s) (auto dest: reserve_capped split: option.splits)

end

end
