(* ===== verification/Gw_Guard.thy ===== *)
theory Gw_Guard
  imports Json
begin

text \<open>
  The request guard (\<open>services/gateway/guard.py\<close>): structural checks on the payload and the two
  token limits, before any quota or worker is touched. The limits come from the environment and
  are read when they are needed, so a malformed variable is a \<open>ValueError\<close> at that point only.
\<close>

definition MALFORMED_PAYLOAD :: string where "MALFORMED_PAYLOAD = ''malformed_payload''"
definition MISSING_MESSAGES :: string where "MISSING_MESSAGES = ''missing_messages''"
definition PROMPT_TOO_LONG :: string where "PROMPT_TOO_LONG = ''prompt_too_long''"
definition CONTEXT_TOO_LONG :: string where "CONTEXT_TOO_LONG = ''context_window_exceeded''"

definition GUARD_REASONS :: "string list" where
  "GUARD_REASONS = [MALFORMED_PAYLOAD, MISSING_MESSAGES, PROMPT_TOO_LONG, CONTEXT_TOO_LONG]"

lemmas guard_reason_defs =
  MALFORMED_PAYLOAD_def MISSING_MESSAGES_def PROMPT_TOO_LONG_def CONTEXT_TOO_LONG_def

record guard_verdict =
  g_ok :: bool
  g_code :: string
  g_reason :: string

definition http_status :: "guard_verdict \<Rightarrow> int" where
  "http_status g = (if g_ok g then 200
     else if g_code g \<in> {PROMPT_TOO_LONG, CONTEXT_TOO_LONG} then 413 else 400)"

definition own_estimate :: "jdict \<Rightarrow> int" where
  "own_estimate payload = int (length (json_dumps (jget_or payload ''messages'' (JArr [])))) div 4"

definition estimate_prompt_tokens :: "jdict \<Rightarrow> string option \<Rightarrow> int" where
  "estimate_prompt_tokens payload header_value =
     (let own = own_estimate payload in
      case header_value of
        None \<Rightarrow> own
      | Some h \<Rightarrow> (case py_int h of
          None \<Rightarrow> own
        | Some n \<Rightarrow> if n \<ge> 0 then max own n else own))"

fun completion_of :: "jdict \<Rightarrow> string list \<Rightarrow> int" where
  "completion_of payload [] = 0"
| "completion_of payload (key # keys) =
     (case jget payload key of
        JInt value \<Rightarrow> if value \<ge> 0 then value else completion_of payload keys
      | _ \<Rightarrow> completion_of payload keys)"

definition requested_completion_tokens :: "jdict \<Rightarrow> int" where
  "requested_completion_tokens payload = completion_of payload [''max_completion_tokens'', ''max_tokens'']"

definition max_model_len :: "environ \<Rightarrow> py_exn + int option" where
  "max_model_len env = try_bind (int_of (getenv env ''MAX_MODEL_LEN'' ''0''))
     (\<lambda>value. Inr (if value = 0 then None else Some value))"

definition max_prompt_tokens :: "environ \<Rightarrow> py_exn + int" where
  "max_prompt_tokens env = int_of (getenv env ''MAX_PROMPT_TOKENS'' ''32768'')"

definition guard_reject :: "string \<Rightarrow> string \<Rightarrow> guard_verdict" where
  "guard_reject code reason = \<lparr>g_ok = False, g_code = code, g_reason = reason\<rparr>"

definition guard_allow :: guard_verdict where
  "guard_allow = \<lparr>g_ok = True, g_code = ''allow'', g_reason = ''''\<rparr>"

text \<open>The two limits, once the payload has the right shape.\<close>

definition inspect_limits ::
  "environ \<Rightarrow> jdict \<Rightarrow> string option \<Rightarrow> int option \<Rightarrow> int option \<Rightarrow> py_exn + guard_verdict" where
  "inspect_limits env payload hdr max_tokens model_len =
     try_bind (case max_tokens of None \<Rightarrow> max_prompt_tokens env | Some m \<Rightarrow> Inr m) (\<lambda>limit.
     let tokens = estimate_prompt_tokens payload hdr in
     if tokens > limit
     then Inr (guard_reject PROMPT_TOO_LONG
            (''estimated '' @ show_int tokens @ '' tokens exceeds limit '' @ show_int limit))
     else try_bind (case model_len of None \<Rightarrow> max_model_len env | Some m \<Rightarrow> Inr (Some m)) (\<lambda>window.
       let completion = requested_completion_tokens payload in
       case window of
         Some w \<Rightarrow> if tokens + completion > w
           then Inr (guard_reject CONTEXT_TOO_LONG
             (''estimated prompt '' @ show_int tokens @ '' + max_tokens '' @ show_int completion
              @ '' exceeds context window '' @ show_int w))
           else Inr guard_allow
       | None \<Rightarrow> Inr guard_allow))"

definition inspect ::
  "environ \<Rightarrow> json \<Rightarrow> string option \<Rightarrow> int option \<Rightarrow> int option \<Rightarrow> py_exn + guard_verdict" where
  "inspect env body hdr max_tokens model_len =
     (case body of
        JObj payload \<Rightarrow>
          (case jget payload ''messages'' of
             JArr messages \<Rightarrow>
               if messages = []
               then Inr (guard_reject MISSING_MESSAGES ''messages must be a non-empty list'')
               else if \<not> list_all is_dict messages
               then Inr (guard_reject MALFORMED_PAYLOAD ''each message must be an object'')
               else inspect_limits env payload hdr max_tokens model_len
           | _ \<Rightarrow> Inr (guard_reject MISSING_MESSAGES ''messages must be a non-empty list''))
      | _ \<Rightarrow> Inr (guard_reject MALFORMED_PAYLOAD ''payload must be a JSON object''))"

lemmas guard_defs [gw_defs] =
  inspect_def inspect_limits_def guard_reject_def guard_allow_def

subsection \<open>The estimate\<close>

lemma own_estimate_nonneg: "0 \<le> own_estimate payload"
  by (simp add: own_estimate_def)

lemma estimate_ge_own: "own_estimate payload \<le> estimate_prompt_tokens payload hdr"
  by (auto simp: estimate_prompt_tokens_def Let_def split: option.splits)

lemma estimate_nonneg: "0 \<le> estimate_prompt_tokens payload hdr"
  using own_estimate_nonneg estimate_ge_own order_trans by blast

lemma completion_of_nonneg: "0 \<le> completion_of payload keys"
  by (induction payload keys rule: completion_of.induct) (auto split: json.splits)

lemma requested_completion_nonneg: "0 \<le> requested_completion_tokens payload"
  by (simp add: requested_completion_tokens_def completion_of_nonneg del: completion_of.simps)

subsection \<open>Verdicts\<close>

lemma http_status_reject: "http_status (guard_reject c r) = (if c \<in> {PROMPT_TOO_LONG, CONTEXT_TOO_LONG} then 413 else 400)"
  by (simp add: http_status_def guard_reject_def)

lemma inspect_limits_ok:
  "inspect_limits env payload hdr (Some maxp) (Some w) = Inr v \<Longrightarrow> g_ok v \<Longrightarrow>
     v = guard_allow \<and> estimate_prompt_tokens payload hdr \<le> maxp
     \<and> estimate_prompt_tokens payload hdr + requested_completion_tokens payload \<le> w"
  by (auto simp: inspect_limits_def Let_def guard_reject_def split: if_splits)

text \<open>
  The guard admits a request exactly when the payload is a JSON object whose messages are a
  non-empty list of objects, the estimated prompt is within the prompt limit, and the estimate plus
  the requested completion fits the context window; every other payload gets a 400 or a 413.
\<close>

theorem inspect_ok_iff:
  assumes "inspect env body hdr (Some maxp) (Some w) = Inr v"
  shows "(g_ok v \<longleftrightarrow>
      (\<exists>payload messages. body = JObj payload \<and> jget payload ''messages'' = JArr messages
         \<and> messages \<noteq> [] \<and> (\<forall>m \<in> set messages. is_dict m)
         \<and> estimate_prompt_tokens payload hdr \<le> maxp
         \<and> estimate_prompt_tokens payload hdr + requested_completion_tokens payload \<le> w))
    \<and> (\<not> g_ok v \<longrightarrow> g_code v \<in> set GUARD_REASONS \<and> http_status v \<in> {400, 413})
    \<and> (g_ok v \<longrightarrow> http_status v = 200)"
proof (cases "\<exists>payload messages. body = JObj payload \<and> jget payload ''messages'' = JArr messages
         \<and> messages \<noteq> [] \<and> (\<forall>m \<in> set messages. is_dict m)")
  case True
  then obtain payload messages where b: "body = JObj payload"
      "jget payload ''messages'' = JArr messages" "messages \<noteq> []" "list_all is_dict messages"
    by (auto simp: list_all_iff)
  with assms have "inspect_limits env payload hdr (Some maxp) (Some w) = Inr v"
    by (simp add: inspect_def)
  then consider
      "\<not> g_ok v" "g_code v = PROMPT_TOO_LONG" "maxp < estimate_prompt_tokens payload hdr"
    | "\<not> g_ok v" "g_code v = CONTEXT_TOO_LONG"
      "w < estimate_prompt_tokens payload hdr + requested_completion_tokens payload"
    | "v = guard_allow" "estimate_prompt_tokens payload hdr \<le> maxp"
      "estimate_prompt_tokens payload hdr + requested_completion_tokens payload \<le> w"
    by (auto simp: inspect_limits_def Let_def guard_reject_def split: if_splits)
  then show ?thesis
    using b by cases (auto simp: guard_allow_def GUARD_REASONS_def http_status_def list_all_iff)
next
  case False
  with assms have "\<not> g_ok v \<and> g_code v \<in> {MALFORMED_PAYLOAD, MISSING_MESSAGES}"
    by (auto simp: inspect_def guard_reject_def list_all_iff split: json.splits if_splits)
  with False show ?thesis
    by (auto simp: GUARD_REASONS_def http_status_def guard_reason_defs)
qed

theorem inspect_ok_iff_witness:
  "inspect (\<lambda>_. None) (JObj [(''messages'', JArr [JObj []])]) None (Some 10) (Some 20) = Inr guard_allow
   \<and> http_status guard_allow = 200 \<and> estimate_prompt_tokens [(''messages'', JArr [JObj []])] None \<le> 10"
proof -
  have i: "inspect (\<lambda>_. None) (JObj [(''messages'', JArr [JObj []])]) None (Some 10) (Some 20) = Inr guard_allow"
    by code_simp
  have "g_ok guard_allow" by (simp add: guard_allow_def)
  with inspect_ok_iff [OF i] i show ?thesis by (auto simp: jget_def)
qed

text \<open>
  The caller-controlled token header can never lower the gateway's own estimate: a payload whose
  own estimate passes the prompt limit is rejected with 413 whatever the header says.
\<close>

theorem header_cannot_bypass_limit:
  assumes "own_estimate payload > maxp"
    and "jget payload ''messages'' = JArr messages" "messages \<noteq> []" "list_all is_dict messages"
  shows "\<exists>v. inspect env (JObj payload) hdr (Some maxp) model_len = Inr v
     \<and> g_code v = PROMPT_TOO_LONG \<and> http_status v = 413"
proof -
  have "maxp < estimate_prompt_tokens payload hdr"
    using assms(1) estimate_ge_own [of payload hdr] by simp
  with assms(2-) show ?thesis
    by (simp add: inspect_def inspect_limits_def http_status_reject) (simp add: guard_reject_def)
qed

theorem header_cannot_bypass_limit_witness:
  "\<exists>v. inspect (\<lambda>_. None) (JObj [(''messages'', JArr [JObj []])]) (Some ''0'') (Some 0) None = Inr v
     \<and> g_code v = PROMPT_TOO_LONG \<and> http_status v = 413"
proof (rule header_cannot_bypass_limit)
  show "own_estimate [(''messages'', JArr [JObj []])] > 0" by code_simp
  show "jget [(''messages'', JArr [JObj []])] ''messages'' = JArr [JObj []]" by (simp add: jget_def)
qed simp_all

end
