(* ===== verification/Gw_Workers.thy ===== *)
theory Gw_Workers
  imports Prelude
begin

text \<open>
  Worker snapshots and the registry (\<open>services/gateway/workers.py\<close>): what the gateway believes of
  each vLLM worker, how a scrape of its metrics page updates that belief, the warm gate with its
  background probe, and the ramp of a worker that returns. The Prometheus parser is a third-party
  package: \<open>parse\<close> below is an argument that gives its metric families (name and sample values),
  or \<^const>\<open>None\<close> where it raises. Clock readings are arguments, in the order the code takes them.
\<close>

record worker =
  wk_id :: string
  wk_url :: string

record prefix_belief =
  pb_observed_at :: pyfloat
  pb_tokens :: int

record snapshot =
  worker :: worker
  observed_at :: "pyfloat option"
  running :: int
  waiting :: int
  kv_free_ratio :: pyfloat
  healthy :: bool
  warm :: bool
  healthy_streak :: int
  health_epoch :: int
  warmed_at :: "pyfloat option"
  warm_count :: int
  requests_since_warm :: int
  ramp_cap :: "int option"
  ramp_stage :: nat
  ramp_next_at :: pyfloat
  inflight :: int
  inflight_tokens :: int
  queued :: int
  pending :: int
  dispatch_grace_s :: pyfloat
  recent_dispatches :: "(int, pyfloat) odict"
  dispatch_id :: int
  prefixes :: "(string, prefix_belief) odict"

definition new_snapshot :: "worker \<Rightarrow> pyfloat \<Rightarrow> snapshot" where
  "new_snapshot w grace = \<lparr>worker = w, observed_at = None, running = 0, waiting = 0,
     kv_free_ratio = 1, healthy = False, warm = False, healthy_streak = 0, health_epoch = 0,
     warmed_at = None, warm_count = 0, requests_since_warm = 0, ramp_cap = None, ramp_stage = 0,
     ramp_next_at = 0, inflight = 0, inflight_tokens = 0, queued = 0, pending = 0,
     dispatch_grace_s = grace, recent_dispatches = [], dispatch_id = 0, prefixes = []\<rparr>"

definition snap_id :: "snapshot \<Rightarrow> string" where
  "snap_id s = wk_id (worker s)"

text \<open>A dispatch counts until a scrape was taken a full grace window after it.\<close>

definition dispatch_counts :: "snapshot \<Rightarrow> pyfloat \<Rightarrow> bool" where
  "dispatch_counts s dispatched_at \<longleftrightarrow>
     (case observed_at s of None \<Rightarrow> True | Some horizon \<Rightarrow> dispatched_at > horizon - dispatch_grace_s s)"

definition occupied :: "snapshot \<Rightarrow> int" where
  "occupied s = running s + count_if (dispatch_counts s) (map snd (recent_dispatches s))"

definition note_dispatch :: "pyfloat \<Rightarrow> snapshot \<Rightarrow> int \<times> snapshot" where
  "note_dispatch now s = (let token = dispatch_id s + 1 in
     (token, s\<lparr>dispatch_id := token,
               recent_dispatches := od_set token now (recent_dispatches s)\<rparr>))"

definition warm_context :: "pyfloat \<Rightarrow> snapshot \<Rightarrow> (int \<times> int) \<times> snapshot" where
  "warm_context now s = (let index = requests_since_warm s in
     ((case warmed_at s of None \<Rightarrow> -1 | Some w \<Rightarrow> py_trunc ((now - w) * 1000), index),
      s\<lparr>requests_since_warm := index + 1\<rparr>))"

definition note_finish :: "int \<Rightarrow> snapshot \<Rightarrow> snapshot" where
  "note_finish token s = s\<lparr>recent_dispatches := od_pop token (recent_dispatches s)\<rparr>"

text \<open>The age of a worker that was never observed is infinite.\<close>

datatype age = Finite pyfloat | Infinite

definition snap_age :: "pyfloat \<Rightarrow> snapshot \<Rightarrow> age" where
  "snap_age now s = (case observed_at s of None \<Rightarrow> Infinite | Some t \<Rightarrow> Finite (now - t))"

definition is_stale :: "pyfloat \<Rightarrow> pyfloat \<Rightarrow> snapshot \<Rightarrow> bool" where
  "is_stale threshold now s = (case snap_age now s of Infinite \<Rightarrow> True | Finite a \<Rightarrow> a > threshold)"

subsection \<open>Metrics\<close>

text \<open>A metric family as the parser yields it: its name and the values of its samples.\<close>

type_synonym family = "string \<times> pyfloat list"

record vllm_vals =
  v_running :: "pyfloat option"
  v_waiting :: "pyfloat option"
  v_kv_used :: "pyfloat option"

fun add_family :: "family \<Rightarrow> vllm_vals \<Rightarrow> vllm_vals" where
  "add_family (name, []) out = out"
| "add_family (name, x # xs) out =
     (if name = ''vllm:num_requests_running'' then out\<lparr>v_running := Some x\<rparr>
      else if name = ''vllm:num_requests_waiting'' then out\<lparr>v_waiting := Some x\<rparr>
      else if name = ''vllm:kv_cache_usage_perc'' then out\<lparr>v_kv_used := Some x\<rparr>
      else out)"

definition parse_vllm_metrics :: "(string \<Rightarrow> family list option) \<Rightarrow> string \<Rightarrow> vllm_vals option" where
  "parse_vllm_metrics parse txt = (case parse txt of
     None \<Rightarrow> None
   | Some fams \<Rightarrow> Some (fold add_family fams \<lparr>v_running = None, v_waiting = None, v_kv_used = None\<rparr>))"

subsection \<open>The registry\<close>

text \<open>A probe task: created, running with the health epoch it read when it started, or done.\<close>

datatype probe_task = ProbeCreated | ProbeRunning int | ProbeDone

record registry =
  snapshots :: "(string, snapshot) odict"
  rr :: int
  require_warm :: bool
  warm_min_scrapes :: int
  ramp_steps :: "int list"
  ramp_step_s :: pyfloat
  ramp_min_kv_free :: pyfloat
  probes :: "(string, probe_task) odict"

definition new_registry ::
  "worker list \<Rightarrow> bool \<Rightarrow> int \<Rightarrow> int list \<Rightarrow> pyfloat \<Rightarrow> pyfloat \<Rightarrow> pyfloat \<Rightarrow> registry" where
  "new_registry workers rw wms steps step_s min_kv grace =
     \<lparr>snapshots = foldl (\<lambda>d w. od_set (wk_id w) (new_snapshot w grace) d) [] workers, rr = 0,
      require_warm = rw, warm_min_scrapes = max 1 wms, ramp_steps = steps, ramp_step_s = step_s,
      ramp_min_kv_free = min_kv, probes = []\<rparr>"

definition set_snap :: "string \<Rightarrow> snapshot \<Rightarrow> registry \<Rightarrow> registry" where
  "set_snap w s r = r\<lparr>snapshots := od_set w s (snapshots r)\<rparr>"

definition mark_cold_snap :: "registry \<Rightarrow> snapshot \<Rightarrow> snapshot" where
  "mark_cold_snap r s =
     (let s1 = s\<lparr>healthy_streak := 0, health_epoch := health_epoch s + 1\<rparr> in
      if require_warm r \<and> warm s1 then s1\<lparr>warm := False, warmed_at := None, ramp_cap := None\<rparr> else s1)"

definition mark_cold :: "string \<Rightarrow> registry \<Rightarrow> py_exn + registry" where
  "mark_cold w r = (case map_of (snapshots r) w of
     None \<Rightarrow> Inl (KeyError w)
   | Some s \<Rightarrow> Inr (set_snap w (mark_cold_snap r s) r))"

definition next_rr :: "registry \<Rightarrow> int \<times> registry" where
  "next_rr r = (rr r, r\<lparr>rr := rr r + 1\<rparr>)"

definition warm_snapshots :: "registry \<Rightarrow> snapshot list" where
  "warm_snapshots r = filter (\<lambda>s. \<not> require_warm r \<or> warm s) (map snd (snapshots r))"

definition ramp_open :: "snapshot \<Rightarrow> bool" where
  "ramp_open s = (case ramp_cap s of None \<Rightarrow> True | Some c \<Rightarrow> inflight s + queued s < c)"

definition serving_snapshots :: "registry \<Rightarrow> snapshot list" where
  "serving_snapshots r =
     (let wm = warm_snapshots r in
      if ramp_steps r = [] then wm
      else let opn = filter ramp_open wm in if opn \<noteq> [] then opn else wm)"

text \<open>\<open>_advance_ramp\<close>: the code reads the clock for the test (\<open>t1\<close>) and for the next step (\<open>t2\<close>).\<close>

definition advance_ramp :: "registry \<Rightarrow> pyfloat \<Rightarrow> pyfloat \<Rightarrow> snapshot \<Rightarrow> snapshot" where
  "advance_ramp r t1 t2 s =
     (if ramp_cap s = None \<or> t1 < ramp_next_at s then s
      else let s1 = s\<lparr>ramp_next_at := t2 + ramp_step_s r\<rparr> in
        if waiting s1 > 0 \<or> kv_free_ratio s1 < ramp_min_kv_free r then s1
        else let s2 = s1\<lparr>ramp_stage := ramp_stage s1 + 1\<rparr> in
          if ramp_stage s2 \<ge> length (ramp_steps r) then s2\<lparr>ramp_cap := None\<rparr>
          else s2\<lparr>ramp_cap := Some (ramp_steps r ! ramp_stage s2)\<rparr>)"

definition start_ramp :: "registry \<Rightarrow> pyfloat \<Rightarrow> snapshot \<Rightarrow> snapshot" where
  "start_ramp r t s =
     (if ramp_steps r \<noteq> [] \<and> warm_count s > 1
      then s\<lparr>ramp_stage := 0, ramp_cap := Some (hd (ramp_steps r)), ramp_next_at := t + ramp_step_s r\<rparr>
      else s)"

definition scrape_failed :: "registry \<Rightarrow> snapshot \<Rightarrow> snapshot" where
  "scrape_failed r s =
     (let s1 = s\<lparr>healthy := False, healthy_streak := 0, health_epoch := health_epoch s + 1\<rparr>;
          s2 = (if require_warm r \<and> warm s1 then s1\<lparr>warm := False, warmed_at := None\<rparr> else s1)
      in s2\<lparr>ramp_cap := None\<rparr>)"

text \<open>
  The part of \<open>_scrape\<close> after the gauges were read; the second component says whether a probe is
  started. \<open>clk\<close> gives the readings: \<open>observed_at\<close>, the two of \<open>_advance_ramp\<close>, \<open>warmed_at\<close>.
\<close>

definition scrape_ok ::
  "registry \<Rightarrow> (nat \<Rightarrow> pyfloat) \<Rightarrow> pyfloat \<Rightarrow> pyfloat \<Rightarrow> pyfloat \<Rightarrow> snapshot \<Rightarrow> snapshot \<times> bool" where
  "scrape_ok r clk rn wt kv s =
     (let s1 = s\<lparr>running := py_trunc rn, waiting := py_trunc wt, kv_free_ratio := max 0 (1 - kv),
                 observed_at := Some (clk 0), healthy := True, healthy_streak := healthy_streak s + 1\<rparr>;
          s2 = advance_ramp r (clk 1) (clk 2) s1
      in if \<not> require_warm r
         then (if \<not> warm s2 then s2\<lparr>warm := True, warmed_at := Some (clk 3), requests_since_warm := 0\<rparr>
               else s2, False)
         else (s2, \<not> warm s2 \<and> healthy_streak s2 \<ge> warm_min_scrapes r))"

definition start_probe :: "string \<Rightarrow> registry \<Rightarrow> registry" where
  "start_probe w r = (case map_of (probes r) w of
     Some ProbeCreated \<Rightarrow> r
   | Some (ProbeRunning _) \<Rightarrow> r
   | _ \<Rightarrow> r\<lparr>probes := od_set w ProbeCreated (probes r)\<rparr>)"

text \<open>The three gauges; a page without one of them is a failed scrape.\<close>

definition gauges :: "vllm_vals option \<Rightarrow> (pyfloat \<times> pyfloat \<times> pyfloat) option" where
  "gauges vals = (case vals of None \<Rightarrow> None | Some v \<Rightarrow>
     (case (v_running v, v_waiting v, v_kv_used v) of
        (Some rn, Some wt, Some kv) \<Rightarrow> Some (rn, wt, kv) | _ \<Rightarrow> None))"

text \<open>\<open>resp\<close> is the page, or \<^const>\<open>None\<close> for a transport error or a bad status.\<close>

definition scrape ::
  "(string \<Rightarrow> family list option) \<Rightarrow> (nat \<Rightarrow> pyfloat) \<Rightarrow> string option \<Rightarrow> string \<Rightarrow> registry \<Rightarrow> registry" where
  "scrape parse clk resp w r = (case map_of (snapshots r) w of
     None \<Rightarrow> r
   | Some s \<Rightarrow>
       (case gauges (Option.bind resp (parse_vllm_metrics parse)) of
          Some (rn, wt, kv) \<Rightarrow>
            (let (s', probe) = scrape_ok r clk rn wt kv s; r' = set_snap w s' r
             in if probe then start_probe w r' else r')
        | None \<Rightarrow> set_snap w (scrape_failed r s) r))"

text \<open>\<open>_probe\<close>: the segment before its request, and the one after it.\<close>

definition probe_begin :: "string \<Rightarrow> registry \<Rightarrow> registry" where
  "probe_begin w r = (case (map_of (probes r) w, map_of (snapshots r) w) of
     (Some ProbeCreated, Some s) \<Rightarrow> r\<lparr>probes := od_set w (ProbeRunning (health_epoch s)) (probes r)\<rparr>
   | _ \<Rightarrow> r)"

datatype probe_result = ProbeOk | ProbeError | ProbeStale

definition probe_result_of :: "registry \<Rightarrow> int \<Rightarrow> bool \<Rightarrow> snapshot \<Rightarrow> probe_result" where
  "probe_result_of r epoch ok s =
     (if \<not> ok then ProbeError
      else if \<not> healthy s \<or> health_epoch s \<noteq> epoch \<or> healthy_streak s < warm_min_scrapes r then ProbeStale
      else ProbeOk)"

definition probe_warms :: "registry \<Rightarrow> pyfloat \<Rightarrow> pyfloat \<Rightarrow> snapshot \<Rightarrow> snapshot" where
  "probe_warms r t1 t2 s = start_ramp r t2
     (s\<lparr>warm := True, warmed_at := Some t1, requests_since_warm := 0, warm_count := warm_count s + 1\<rparr>)"

definition probe_finish :: "string \<Rightarrow> bool \<Rightarrow> pyfloat \<Rightarrow> pyfloat \<Rightarrow> registry \<Rightarrow> registry" where
  "probe_finish w ok t1 t2 r = (case (map_of (probes r) w, map_of (snapshots r) w) of
     (Some (ProbeRunning epoch), Some s) \<Rightarrow>
       (let r1 = r\<lparr>probes := od_set w ProbeDone (probes r)\<rparr> in
        if probe_result_of r epoch ok s = ProbeOk then set_snap w (probe_warms r t1 t2 s) r1 else r1)
   | _ \<Rightarrow> r)"

definition record_prefix :: "string \<Rightarrow> string option \<Rightarrow> int \<Rightarrow> pyfloat \<Rightarrow> registry \<Rightarrow> py_exn + registry" where
  "record_prefix w prefix tokens t r = (case prefix of
     None \<Rightarrow> Inr r
   | Some p \<Rightarrow> if p = [] then Inr r else (case map_of (snapshots r) w of
       None \<Rightarrow> Inl (KeyError w)
     | Some s \<Rightarrow> Inr (set_snap w
         (s\<lparr>prefixes := od_set p \<lparr>pb_observed_at = t, pb_tokens = tokens\<rparr> (prefixes s)\<rparr>) r)))"

lemmas worker_defs [gw_defs] =
  set_snap_def mark_cold_snap_def mark_cold_def advance_ramp_def start_ramp_def scrape_failed_def
  scrape_ok_def start_probe_def scrape_def probe_begin_def probe_result_of_def probe_warms_def
  probe_finish_def record_prefix_def

subsection \<open>Updates of one snapshot\<close>

text \<open>What the request handler does to the snapshot of the worker it uses.\<close>

datatype load_update =
    LQueued int | LPending int | LInflight int int | LDispatch pyfloat | LWarmContext pyfloat | LFinish int

fun apply_load :: "load_update \<Rightarrow> snapshot \<Rightarrow> snapshot" where
  "apply_load (LQueued n) s = s\<lparr>queued := n\<rparr>"
| "apply_load (LPending d) s = s\<lparr>pending := pending s + d\<rparr>"
| "apply_load (LInflight d tk) s = s\<lparr>inflight := inflight s + d, inflight_tokens := inflight_tokens s + tk\<rparr>"
| "apply_load (LDispatch now) s = snd (note_dispatch now s)"
| "apply_load (LWarmContext now) s = snd (warm_context now s)"
| "apply_load (LFinish token) s = note_finish token s"

definition update_snap :: "string \<Rightarrow> (snapshot \<Rightarrow> snapshot) \<Rightarrow> registry \<Rightarrow> registry" where
  "update_snap w f r = (case map_of (snapshots r) w of None \<Rightarrow> r | Some s \<Rightarrow> set_snap w (f s) r)"

inductive reg_step :: "registry \<Rightarrow> registry \<Rightarrow> bool" where
  reg_scrape: "reg_step r (scrape parse clk resp w r)"
| reg_mark_cold: "mark_cold w r = Inr r' \<Longrightarrow> reg_step r r'"
| reg_probe_begin: "reg_step r (probe_begin w r)"
| reg_probe_finish: "reg_step r (probe_finish w ok t1 t2 r)"
| reg_record_prefix: "record_prefix w p tk t r = Inr r' \<Longrightarrow> reg_step r r'"
| reg_next_rr: "reg_step r (snd (next_rr r))"
| reg_load: "reg_step r (update_snap w (apply_load u) r)"

text \<open>A registry as \<open>Registry.__init__\<close> builds it.\<close>

definition reg_init :: "registry \<Rightarrow> bool" where
  "reg_init r \<longleftrightarrow> (\<exists>ws rw wms steps st mk gr. r = new_registry ws rw wms steps st mk gr)"

lemma reg_init_new: "reg_init (new_registry ws rw wms steps st mk gr)"
  unfolding reg_init_def by blast

text \<open>Every operation changes the snapshot of one worker only, by one of a few functions.\<close>

inductive snap_change :: "registry \<Rightarrow> snapshot \<Rightarrow> snapshot \<Rightarrow> bool" for r where
  ch_same: "snap_change r s s"
| ch_cold: "snap_change r s (mark_cold_snap r s)"
| ch_fail: "snap_change r s (scrape_failed r s)"
| ch_scrape: "snap_change r s (fst (scrape_ok r clk rn wt kv s))"
| ch_probe: "probe_result_of r (health_epoch s) True s = ProbeOk \<Longrightarrow> snap_change r s (probe_warms r t1 t2 s)"
| ch_load: "snap_change r s (apply_load u s)"
| ch_prefix: "snap_change r s (s\<lparr>prefixes := pf\<rparr>)"

definition same_config :: "registry \<Rightarrow> registry \<Rightarrow> bool" where
  "same_config r r' \<longleftrightarrow> require_warm r' = require_warm r \<and> warm_min_scrapes r' = warm_min_scrapes r
     \<and> ramp_steps r' = ramp_steps r \<and> od_keys (snapshots r') = od_keys (snapshots r)"

lemma od_set_same_keys: "map_of d k = Some v \<Longrightarrow> od_keys (od_set k v' d) = od_keys d"
  by (induction d) (auto split: if_splits)

lemma set_snap_change:
  assumes "map_of (snapshots r) w = Some s" "snap_change r s s'"
    and "snapshots r' = od_set w s' (snapshots r)"
    and "require_warm r' = require_warm r" "warm_min_scrapes r' = warm_min_scrapes r" "ramp_steps r' = ramp_steps r"
  shows "same_config r r' \<and> (\<forall>v t. map_of (snapshots r) v = Some t \<longrightarrow>
           (\<exists>t'. map_of (snapshots r') v = Some t' \<and> snap_change r t t'))"
  using assms by (auto simp: same_config_def od_set_same_keys intro: ch_same)

lemma no_snap_change:
  assumes "snapshots r' = snapshots r"
    and "require_warm r' = require_warm r" "warm_min_scrapes r' = warm_min_scrapes r" "ramp_steps r' = ramp_steps r"
  shows "same_config r r' \<and> (\<forall>v t. map_of (snapshots r) v = Some t \<longrightarrow>
           (\<exists>t'. map_of (snapshots r') v = Some t' \<and> snap_change r t t'))"
  using assms by (auto simp: same_config_def intro: ch_same)

lemma start_probe_frame [simp]:
  "snapshots (start_probe w r) = snapshots r" "require_warm (start_probe w r) = require_warm r"
  "warm_min_scrapes (start_probe w r) = warm_min_scrapes r" "ramp_steps (start_probe w r) = ramp_steps r"
  by (simp_all add: start_probe_def split: option.splits probe_task.splits)

lemma set_snap_frame [simp]:
  "snapshots (set_snap w s r) = od_set w s (snapshots r)" "require_warm (set_snap w s r) = require_warm r"
  "warm_min_scrapes (set_snap w s r) = warm_min_scrapes r" "ramp_steps (set_snap w s r) = ramp_steps r"
  "probes (set_snap w s r) = probes r"
  by (simp_all add: set_snap_def)

lemma scrape_cases:
  obtains "map_of (snapshots r) w = None" "scrape parse clk resp w r = r"
  | s where "map_of (snapshots r) w = Some s" "scrape parse clk resp w r = set_snap w (scrape_failed r s) r"
  | s rn wt kv where "map_of (snapshots r) w = Some s"
      "snapshots (scrape parse clk resp w r) = od_set w (fst (scrape_ok r clk rn wt kv s)) (snapshots r)"
      "require_warm (scrape parse clk resp w r) = require_warm r"
      "warm_min_scrapes (scrape parse clk resp w r) = warm_min_scrapes r"
      "ramp_steps (scrape parse clk resp w r) = ramp_steps r"
proof (cases "map_of (snapshots r) w")
  case None
  then show thesis using that(1) by (simp add: scrape_def)
next
  case (Some s)
  show thesis
  proof (cases "gauges (Option.bind resp (parse_vllm_metrics parse))")
    case None
    with Some show thesis using that(2) by (simp add: scrape_def)
  next
    case (Some g)
    obtain rn wt kv where g: "g = (rn, wt, kv)" by (cases g) auto
    show thesis
      by (rule that(3) [of s rn wt kv])
        (use \<open>map_of (snapshots r) w = Some s\<close> Some g in
          \<open>auto simp: scrape_def case_prod_beta Let_def\<close>)
  qed
qed

lemma scrape_change:
  "same_config r (scrape parse clk resp w r) \<and> (\<forall>v t. map_of (snapshots r) v = Some t \<longrightarrow>
     (\<exists>t'. map_of (snapshots (scrape parse clk resp w r)) v = Some t' \<and> snap_change r t t'))"
proof (cases rule: scrape_cases [of r w parse clk resp])
  case 1
  then show ?thesis by (intro no_snap_change) auto
next
  case (2 s)
  then show ?thesis by (intro set_snap_change [of _ w s "scrape_failed r s"]) (auto intro: ch_fail)
next
  case (3 s rn wt kv)
  then show ?thesis by (intro set_snap_change [of _ w s]) (auto intro: ch_scrape)
qed

lemma probe_finish_change:
  "same_config r (probe_finish w ok t1 t2 r) \<and> (\<forall>v t. map_of (snapshots r) v = Some t \<longrightarrow>
     (\<exists>t'. map_of (snapshots (probe_finish w ok t1 t2 r)) v = Some t' \<and> snap_change r t t'))"
proof (cases "\<exists>e s. map_of (probes r) w = Some (ProbeRunning e) \<and> map_of (snapshots r) w = Some s
    \<and> probe_result_of r e ok s = ProbeOk")
  case True
  then obtain e s where p: "map_of (probes r) w = Some (ProbeRunning e)"
      "map_of (snapshots r) w = Some s" "probe_result_of r e ok s = ProbeOk" by blast
  then have "probe_result_of r (health_epoch s) True s = ProbeOk"
    by (auto simp: probe_result_of_def split: if_splits)
  then show ?thesis using p
    by (intro set_snap_change [of _ w s "probe_warms r t1 t2 s"]) (auto simp: probe_finish_def Let_def intro: ch_probe)
next
  case False
  then show ?thesis
    by (intro no_snap_change) (auto simp: probe_finish_def Let_def split: option.splits probe_task.splits)
qed

lemma reg_step_change:
  assumes "reg_step r r'"
  shows "same_config r r' \<and> (\<forall>v t. map_of (snapshots r) v = Some t \<longrightarrow>
           (\<exists>t'. map_of (snapshots r') v = Some t' \<and> snap_change r t t'))"
  using assms
proof cases
  case (reg_scrape parse clk resp w)
  then show ?thesis using scrape_change by simp
next
  case (reg_mark_cold w)
  then obtain s where "map_of (snapshots r) w = Some s" "r' = set_snap w (mark_cold_snap r s) r"
    by (auto simp: mark_cold_def split: option.splits)
  then show ?thesis by (intro set_snap_change [of _ w s]) (auto intro: snap_change.ch_cold)
next
  case (reg_probe_begin w)
  then show ?thesis
    by (intro no_snap_change) (auto simp: probe_begin_def split: option.splits probe_task.splits)
next
  case (reg_probe_finish w ok t1 t2)
  then show ?thesis using probe_finish_change by simp
next
  case (reg_record_prefix w p tk t)
  show ?thesis
  proof (cases "r' = r")
    case True
    then show ?thesis by (intro no_snap_change) auto
  next
    case False
    with reg_record_prefix obtain s where s: "map_of (snapshots r) w = Some s"
      by (auto simp: record_prefix_def split: option.splits if_splits)
    with False reg_record_prefix have "r' = set_snap w (s\<lparr>prefixes :=
        od_set (the p) \<lparr>pb_observed_at = t, pb_tokens = tk\<rparr> (prefixes s)\<rparr>) r"
      by (simp add: record_prefix_def split: option.splits if_splits)
    with s show ?thesis by (intro set_snap_change [of _ w s]) (auto intro: snap_change.ch_prefix)
  qed
next
  case reg_next_rr
  then show ?thesis by (intro no_snap_change) (auto simp: next_rr_def)
next
  case (reg_load w u)
  then show ?thesis
    by (auto simp: update_snap_def same_config_def od_set_same_keys intro: ch_load ch_same split: option.splits)
qed

subsection \<open>The warm gate and the ramp\<close>

definition snap_ok :: "registry \<Rightarrow> snapshot \<Rightarrow> bool" where
  "snap_ok r s \<longleftrightarrow>
     (require_warm r \<and> warm s \<longrightarrow> healthy s \<and> healthy_streak s \<ge> warm_min_scrapes r)
     \<and> (\<forall>c. ramp_cap s = Some c \<longrightarrow> ramp_stage s < length (ramp_steps r) \<and> c = ramp_steps r ! ramp_stage s)"

definition reg_ok :: "registry \<Rightarrow> bool" where
  "reg_ok r \<longleftrightarrow> (\<forall>w s. map_of (snapshots r) w = Some s \<longrightarrow> snap_ok r s)"

lemma snap_ok_config: "same_config r r' \<Longrightarrow> snap_ok r' s = snap_ok r s"
  by (simp add: snap_ok_def same_config_def)

lemma advance_ramp_ok: "snap_ok r s \<Longrightarrow> snap_ok r (advance_ramp r t1 t2 s)"
  by (auto simp: snap_ok_def advance_ramp_def Let_def)

lemma scrape_ok_ok:
  assumes "snap_ok r s"
  shows "snap_ok r (fst (scrape_ok r clk rn wt kv s))"
proof -
  let ?s1 = "s\<lparr>running := py_trunc rn, waiting := py_trunc wt, kv_free_ratio := max 0 (1 - kv),
                 observed_at := Some (clk 0), healthy := True, healthy_streak := healthy_streak s + 1\<rparr>"
  have "snap_ok r ?s1" using assms by (auto simp: snap_ok_def)
  then have "snap_ok r (advance_ramp r (clk 1) (clk 2) ?s1)" by (rule advance_ramp_ok)
  then show ?thesis by (auto simp: scrape_ok_def Let_def snap_ok_def)
qed

lemma apply_load_ok: "snap_ok r (apply_load u s) = snap_ok r s"
  by (cases u) (simp_all add: snap_ok_def note_dispatch_def warm_context_def note_finish_def Let_def)

lemma probe_warms_ok: "probe_result_of r (health_epoch s) True s = ProbeOk \<Longrightarrow> snap_ok r s \<Longrightarrow> snap_ok r (probe_warms r t1 t2 s)"
  by (auto simp: snap_ok_def probe_warms_def start_ramp_def probe_result_of_def hd_conv_nth split: if_splits)

lemma snap_change_ok: "snap_change r s s' \<Longrightarrow> snap_ok r s \<Longrightarrow> snap_ok r s'"
proof (induction rule: snap_change.induct)
  case (ch_cold s)
  then show ?case by (auto simp: snap_ok_def mark_cold_snap_def Let_def)
next
  case (ch_fail s)
  then show ?case by (auto simp: snap_ok_def scrape_failed_def Let_def)
next
  case (ch_prefix s pf)
  then show ?case by (auto simp: snap_ok_def)
qed (auto intro: scrape_ok_ok probe_warms_ok simp: apply_load_ok)

lemma map_of_keys_Some: "od_keys d' = od_keys d \<Longrightarrow> map_of d' k = Some v \<Longrightarrow> \<exists>v'. map_of d k = Some v'"
  by (metis domI domIff dom_map_of_conv_image_fst list.set_map not_Some_eq)

lemma new_registry_snaps:
  "map_of (snapshots (new_registry ws rw wms st ss mk gr)) w = Some s \<Longrightarrow> \<exists>wk. s = new_snapshot wk gr"
proof -
  have "map_of (foldl (\<lambda>d w. od_set (wk_id w) (new_snapshot w gr) d) d ws) w = Some s \<Longrightarrow>
      \<forall>v t. map_of d v = Some t \<longrightarrow> (\<exists>wk. t = new_snapshot wk gr) \<Longrightarrow> \<exists>wk. s = new_snapshot wk gr" for d
  proof (induction ws arbitrary: d)
    case (Cons a ws)
    show ?case by (rule Cons.IH [of "od_set (wk_id a) (new_snapshot a gr) d"]) (use Cons.prems in \<open>auto split: if_splits\<close>)
  qed simp
  then show "map_of (snapshots (new_registry ws rw wms st ss mk gr)) w = Some s \<Longrightarrow> ?thesis"
    by (force simp: new_registry_def)
qed

interpretation reg_sys: inv_system reg_init reg_step reg_ok
proof
  fix r
  assume "reg_init r"
  then show "reg_ok r"
    by (auto simp: reg_init_def reg_ok_def snap_ok_def new_snapshot_def dest: new_registry_snaps)
next
  fix r r'
  assume ok: "reg_ok r" and "reg_step r r'"
  then have ch: "same_config r r'" "\<forall>v t. map_of (snapshots r) v = Some t \<longrightarrow>
           (\<exists>t'. map_of (snapshots r') v = Some t' \<and> snap_change r t t')"
    using reg_step_change by blast+
  show "reg_ok r'"
    unfolding reg_ok_def
  proof (intro allI impI)
    fix w s
    assume s: "map_of (snapshots r') w = Some s"
    with ch(1) obtain t where "map_of (snapshots r) w = Some t"
      by (auto simp: same_config_def dest: map_of_keys_Some)
    with ch(2) s have "snap_change r t s" by fastforce
    with \<open>map_of (snapshots r) w = Some t\<close> ok have "snap_ok r s"
      by (auto simp: reg_ok_def intro: snap_change_ok)
    with ch(1) show "snap_ok r' s" by (simp add: snap_ok_config)
  qed
qed


text \<open>
  C34. With the warm gate on, in every state the registry can reach a worker that serves is healthy
  and has passed the required number of consecutive scrapes since its last fault.
\<close>

theorem warm_gate_sound:
  assumes "reach reg_init reg_step r" "require_warm r" "s \<in> set (serving_snapshots r)"
  shows "warm s \<and> healthy s \<and> healthy_streak s \<ge> warm_min_scrapes r"
proof -
  have "s \<in> set (warm_snapshots r)"
    using assms(3) by (auto simp: serving_snapshots_def Let_def split: if_splits)
  then have "warm s" "s \<in> snd ` set (snapshots r)"
    using assms(2) by (auto simp: warm_snapshots_def)
  moreover have "distinct (od_keys (snapshots r))"
    using assms(1)
  proof (induction rule: reach.induct)
    case (reach_init s)
    have "distinct (od_keys d) \<Longrightarrow> distinct (od_keys (foldl (\<lambda>d w. od_set (wk_id w) (new_snapshot w g) d) d ws))" for d ws g
      by (induction ws arbitrary: d) auto
    with reach_init show ?case by (auto simp: reg_init_def new_registry_def)
  next
    case (reach_step s t)
    then show ?case using reg_step_change by (fastforce simp: same_config_def)
  qed
  ultimately obtain w where "map_of (snapshots r) w = Some s" by (auto simp: image_iff)
  moreover have "reg_ok r" using assms(1) by (rule reg_sys.inv_reach)
  ultimately show ?thesis using \<open>warm s\<close> assms(2) by (auto simp: reg_ok_def snap_ok_def)
qed


theorem warm_gate_sound_witness:
  "\<exists>r s. reach reg_init reg_step r \<and> require_warm r \<and> serving_snapshots r = [s]
     \<and> warm s \<and> healthy s \<and> healthy_streak s \<ge> warm_min_scrapes r"
proof -
  define r0 where "r0 = new_registry [\<lparr>wk_id = ''a'', wk_url = ''u''\<rparr>] True 1 [] 30 (1/5) 2"
  define r1 where "r1 = scrape (\<lambda>_. Some [(''vllm:num_requests_running'', [0]),
     (''vllm:num_requests_waiting'', [0]), (''vllm:kv_cache_usage_perc'', [0])]) (\<lambda>_. 0) (Some []) ''a'' r0"
  define r3 where "r3 = probe_finish ''a'' True 0 0 (probe_begin ''a'' r1)"
  have "reach reg_init reg_step r0"
    unfolding r0_def by (rule reach.reach_init, rule reg_init_new)
  then have "reach reg_init reg_step r1"
    unfolding r1_def by (rule reach.reach_step) (rule reg_scrape)
  then have "reach reg_init reg_step (probe_begin ''a'' r1)"
    by (rule reach.reach_step) (rule reg_probe_begin)
  then have r: "reach reg_init reg_step r3"
    unfolding r3_def by (rule reach.reach_step) (rule reg_probe_finish)
  have "require_warm r3" "length (serving_snapshots r3) = 1"
    unfolding r3_def r1_def r0_def by code_simp+
  then obtain s where "serving_snapshots r3 = [s]" by (auto simp: length_Suc_conv)
  with r \<open>require_warm r3\<close> warm_gate_sound [of r3 s] show ?thesis by auto
qed

subsection \<open>Probes and faults\<close>

text \<open>A fault: the worker reported an out-of-memory failure, or a scrape of it failed.\<close>

inductive worker_fault :: "string \<Rightarrow> registry \<Rightarrow> registry \<Rightarrow> bool" for w where
  fault_cold: "mark_cold w r = Inr r' \<Longrightarrow> worker_fault w r r'"
| fault_scrape: "map_of (snapshots r) w = Some s \<Longrightarrow> worker_fault w r (set_snap w (scrape_failed r s) r)"

definition epoch_above :: "string \<Rightarrow> int \<Rightarrow> registry \<Rightarrow> bool" where
  "epoch_above w e r \<longleftrightarrow> (\<exists>s. map_of (snapshots r) w = Some s \<and> e \<le> health_epoch s)"

definition probes_ok :: "registry \<Rightarrow> bool" where
  "probes_ok r \<longleftrightarrow> (\<forall>w e. map_of (probes r) w = Some (ProbeRunning e) \<longrightarrow> epoch_above w e r)"

lemma apply_load_epoch [simp]: "health_epoch (apply_load u s) = health_epoch s"
  by (cases u) (simp_all add: note_dispatch_def warm_context_def note_finish_def Let_def)

lemma advance_ramp_epoch [simp]: "health_epoch (advance_ramp r t1 t2 s) = health_epoch s"
  by (simp add: advance_ramp_def Let_def)

lemma snap_change_epoch: "snap_change r s s' \<Longrightarrow> health_epoch s \<le> health_epoch s'"
  by (induction rule: snap_change.induct)
    (auto simp: mark_cold_snap_def scrape_failed_def scrape_ok_def probe_warms_def start_ramp_def Let_def)

lemma reg_step_epoch: "reg_step r r' \<Longrightarrow> epoch_above w e r \<Longrightarrow> epoch_above w e r'"
  using reg_step_change snap_change_epoch unfolding epoch_above_def by (meson order_trans)

lemma reg_step_probes:
  assumes "reg_step r r'" "map_of (probes r') w = Some (ProbeRunning e)"
  shows "map_of (probes r) w = Some (ProbeRunning e) \<or> epoch_above w e r"
  using assms
proof cases
  case (reg_scrape parse clk resp v)
  with assms(2) show ?thesis
    by (auto simp: scrape_def start_probe_def Let_def case_prod_beta
        split: option.splits probe_task.splits if_splits)
next
  case (reg_mark_cold v)
  with assms(2) show ?thesis by (auto simp: mark_cold_def split: option.splits)
next
  case (reg_probe_begin v)
  with assms(2) show ?thesis
    by (auto simp: probe_begin_def epoch_above_def split: option.splits probe_task.splits if_splits)
next
  case (reg_probe_finish v ok t1 t2)
  with assms(2) show ?thesis
    by (auto simp: probe_finish_def Let_def split: option.splits probe_task.splits if_splits)
next
  case (reg_record_prefix v p tk t)
  with assms(2) show ?thesis by (auto simp: record_prefix_def split: option.splits if_splits)
next
  case reg_next_rr
  with assms(2) show ?thesis by (simp add: next_rr_def)
next
  case (reg_load v u)
  with assms(2) show ?thesis by (auto simp: update_snap_def split: option.splits)
qed

interpretation probe_sys: inv_system reg_init reg_step probes_ok
proof
  fix r assume "reg_init r"
  then show "probes_ok r" by (auto simp: reg_init_def new_registry_def probes_ok_def)
next
  fix r r' assume "probes_ok r" "reg_step r r'"
  then show "probes_ok r'"
    using reg_step_probes reg_step_epoch unfolding probes_ok_def by blast
qed

lemma fault_epoch: "worker_fault w r r' \<Longrightarrow> epoch_above w e r \<Longrightarrow> epoch_above w (e + 1) r'"
  by (induction rule: worker_fault.induct)
    (auto simp: epoch_above_def mark_cold_def mark_cold_snap_def scrape_failed_def Let_def split: option.splits)

lemma reach_epoch: "reach (\<lambda>x. x = r) reg_step r' \<Longrightarrow> epoch_above w e r \<Longrightarrow> epoch_above w e r'"
  by (induction rule: reach.induct) (auto intro: reg_step_epoch)

text \<open>
  A probe that was in flight when its worker had a fault can never warm that worker: whatever
  happens between the fault and the end of the probe, its success leaves every snapshot unchanged.
\<close>

theorem probe_across_fault_never_warms:
  assumes "reach reg_init reg_step r" "map_of (probes r) w = Some (ProbeRunning e)"
    and "worker_fault w r r1"
    and "reach (\<lambda>x. x = r1) reg_step r2" "map_of (probes r2) w = Some (ProbeRunning e)"
  shows "snapshots (probe_finish w ok t1 t2 r2) = snapshots r2"
proof -
  have "epoch_above w e r"
    using probe_sys.inv_reach [OF assms(1)] assms(2) by (simp add: probes_ok_def)
  with assms(3) have "epoch_above w (e + 1) r1" by (rule fault_epoch)
  with assms(4) have "epoch_above w (e + 1) r2" by (rule reach_epoch)
  then obtain s where "map_of (snapshots r2) w = Some s" "health_epoch s \<noteq> e"
    by (auto simp: epoch_above_def)
  with assms(5) show ?thesis by (simp add: probe_finish_def probe_result_of_def Let_def)
qed

theorem probe_across_fault_never_warms_witness:
  "\<exists>r r1. reach reg_init reg_step r \<and> map_of (probes r) ''a'' = Some (ProbeRunning 0) \<and> worker_fault ''a'' r r1
     \<and> snapshots (probe_finish ''a'' True 0 0 r1) = snapshots r1"
proof -
  define r0 where "r0 = new_registry [\<lparr>wk_id = ''a'', wk_url = ''u''\<rparr>] True 1 [] 30 (1/5) 2"
  define r1 where "r1 = scrape (\<lambda>_. Some [(''vllm:num_requests_running'', [0]),
     (''vllm:num_requests_waiting'', [0]), (''vllm:kv_cache_usage_perc'', [0])]) (\<lambda>_. 0) (Some []) ''a'' r0"
  define r2 where "r2 = probe_begin ''a'' r1"
  have "reach reg_init reg_step r0"
    unfolding r0_def by (rule reach.reach_init, rule reg_init_new)
  then have "reach reg_init reg_step r1"
    unfolding r1_def by (rule reach.reach_step) (rule reg_scrape)
  then have r: "reach reg_init reg_step r2"
    unfolding r2_def by (rule reach.reach_step) (rule reg_probe_begin)
  have p: "map_of (probes r2) ''a'' = Some (ProbeRunning 0)" and q: "map_of (snapshots r2) ''a'' \<noteq> None"
    unfolding r2_def r1_def r0_def by code_simp+
  from q obtain s where "map_of (snapshots r2) ''a'' = Some s" by auto
  then have f: "worker_fault ''a'' r2 (set_snap ''a'' (scrape_failed r2 s) r2)" by (rule fault_scrape)
  have "snapshots (probe_finish ''a'' True 0 0 (set_snap ''a'' (scrape_failed r2 s) r2))
      = snapshots (set_snap ''a'' (scrape_failed r2 s) r2)"
    by (rule probe_across_fault_never_warms [OF r p f]) (auto intro: reach.reach_init simp: p)
  with r p f show ?thesis by blast
qed

subsection \<open>Serving and load\<close>

lemma serving_nonempty_iff: "serving_snapshots r \<noteq> [] \<longleftrightarrow> warm_snapshots r \<noteq> []"
  by (auto simp: serving_snapshots_def Let_def)

lemma serving_subset: "set (serving_snapshots r) \<subseteq> set (warm_snapshots r)"
  by (auto simp: serving_snapshots_def Let_def)

lemma serving_in_registry: "s \<in> set (serving_snapshots r) \<Longrightarrow> s \<in> snd ` set (snapshots r)"
  using serving_subset by (force simp: warm_snapshots_def)

lemma occupied_ge_running: "running s \<le> occupied s"
  by (simp add: occupied_def)

end
