(* ===== verification/Gw_Admission.thy ===== *)
theory Gw_Admission
  imports Gw_Workers
begin

text \<open>
  Admission (\<open>services/gateway/admission.py\<close>): whether the fleet should take valid work now, decided
  from the worker snapshots alone, and the shed taxonomy with its status codes. Every decision
  carries the inputs it was made from.
\<close>

record admit_config =
  max_decode_slots :: int
  kv_free_min :: pyfloat
  prefill_tokens_per_s :: pyfloat
  queue_wait_per_waiting_s :: pyfloat
  stale_after_s :: pyfloat
  retry_after_s :: int
  batch_reserve :: pyfloat

definition default_admit_config :: admit_config where
  "default_admit_config = \<lparr>max_decode_slots = 32, kv_free_min = 1/10, prefill_tokens_per_s = 4000,
     queue_wait_per_waiting_s = 1/4, stale_after_s = 5, retry_after_s = 1, batch_reserve = 1/4\<rparr>"

text \<open>Slots that batch work gives up: the clamped fraction of the decode slots, rounded up.\<close>

definition reserved_slots :: "admit_config \<Rightarrow> int" where
  "reserved_slots cfg = \<lceil>of_int (max_decode_slots cfg) * min (max (batch_reserve cfg) 0) 1\<rceil>"

definition slot_limit :: "admit_config \<Rightarrow> string \<Rightarrow> int" where
  "slot_limit cfg workload_class =
     (if workload_class \<noteq> ''batch'' then max_decode_slots cfg
      else max 1 (max_decode_slots cfg - reserved_slots cfg))"

record admit_request =
  ar_est_tokens :: int
  ar_deadline_ms :: "int option"
  ar_class :: string

record worker_input =
  wi_id :: string
  wi_healthy :: bool
  wi_age_s :: "pyfloat option"
  wi_running :: int
  wi_waiting :: int
  wi_kv_free_ratio :: pyfloat
  wi_inflight_tokens :: int

datatype shed_inputs =
    AdmitInputs string int "int option" "worker_input list" "pyfloat option"
  | TenantInputs string int int

record shed =
  sh_code :: int
  sh_reason :: string
  sh_retry_after :: int
  sh_inputs :: shed_inputs
  never_overflow :: bool

datatype admit_result = Admit shed_inputs | Shed shed

definition worker_input :: "pyfloat \<Rightarrow> snapshot \<Rightarrow> worker_input" where
  "worker_input now s = \<lparr>wi_id = snap_id s, wi_healthy = healthy s,
     wi_age_s = (case observed_at s of None \<Rightarrow> None | Some t \<Rightarrow> Some (py_round3 (now - t))),
     wi_running = running s, wi_waiting = waiting s, wi_kv_free_ratio = kv_free_ratio s,
     wi_inflight_tokens = inflight_tokens s\<rparr>"

definition admit_inputs :: "admit_request \<Rightarrow> snapshot list \<Rightarrow> pyfloat \<Rightarrow> pyfloat option \<Rightarrow> shed_inputs" where
  "admit_inputs req snaps now estimated_s =
     AdmitInputs (ar_class req) (ar_est_tokens req) (ar_deadline_ms req) (map (worker_input now) snaps) estimated_s"

definition mk_shed :: "int \<Rightarrow> string \<Rightarrow> int \<Rightarrow> shed_inputs \<Rightarrow> admit_result" where
  "mk_shed code reason retry inputs = Shed \<lparr>sh_code = code, sh_reason = reason, sh_retry_after = retry,
     sh_inputs = inputs, never_overflow = False\<rparr>"

definition admit_eligible :: "admit_config \<Rightarrow> pyfloat \<Rightarrow> snapshot list \<Rightarrow> snapshot list" where
  "admit_eligible cfg now snaps = filter (\<lambda>s. healthy s \<and> \<not> is_stale (stale_after_s cfg) now s) snaps"

definition est_wait :: "admit_config \<Rightarrow> snapshot list \<Rightarrow> pyfloat" where
  "est_wait cfg eligible = of_int (Min (set (map waiting eligible))) * queue_wait_per_waiting_s cfg"

definition est_prefill :: "admit_config \<Rightarrow> int \<Rightarrow> pyfloat" where
  "est_prefill cfg tokens = of_int tokens / max (prefill_tokens_per_s cfg) 1"

definition should_shed :: "admit_request \<Rightarrow> snapshot list \<Rightarrow> pyfloat \<Rightarrow> admit_config \<Rightarrow> admit_result" where
  "should_shed req snaps now cfg =
     (let inputs = admit_inputs req snaps now None; ra = retry_after_s cfg;
          eligible = admit_eligible cfg now snaps in
      if eligible = [] then mk_shed 503 ''no_signal'' ra inputs
      else if Max (set (map kv_free_ratio eligible)) < kv_free_min cfg
      then mk_shed 503 ''kv_pressure'' ra inputs
      else if list_all (\<lambda>s. occupied s \<ge> slot_limit cfg (ar_class req)) eligible
      then mk_shed 503 ''decode_slots'' ra inputs
      else case ar_deadline_ms req of
        None \<Rightarrow> Admit inputs
      | Some ms \<Rightarrow>
          (let wait = est_wait cfg eligible; estimate = wait + est_prefill cfg (ar_est_tokens req) in
           if estimate > of_int ms / 1000
           then mk_shed 504 ''deadline_unachievable'' (max ra \<lceil>wait\<rceil>)
                  (admit_inputs req snaps now (Some (py_round3 estimate)))
           else Admit inputs))"

lemmas admission_defs [gw_defs] =
  slot_limit_def should_shed_def mk_shed_def admit_eligible_def

subsection \<open>Slots\<close>

lemma reserved_bounds: "0 \<le> max_decode_slots cfg \<Longrightarrow> 0 \<le> reserved_slots cfg \<and> reserved_slots cfg \<le> max_decode_slots cfg"
proof -
  assume m: "0 \<le> max_decode_slots cfg"
  let ?c = "min (max (batch_reserve cfg) 0) 1 :: rat"
  have c: "0 \<le> ?c" "?c \<le> 1" by auto
  have "0 \<le> (of_int (max_decode_slots cfg) :: rat) * ?c" using m c(1) by simp
  then have a: "0 \<le> reserved_slots cfg" unfolding reserved_slots_def by (simp add: le_ceiling_iff)
  have "(of_int (max_decode_slots cfg) :: rat) * ?c \<le> of_int (max_decode_slots cfg)"
    using m c(2) by (intro mult_left_le) auto
  with a show ?thesis unfolding reserved_slots_def by (simp add: ceiling_le_iff)
qed

lemma slot_limit_batch_le: "1 \<le> max_decode_slots cfg \<Longrightarrow> slot_limit cfg ''batch'' \<le> slot_limit cfg c"
  using reserved_bounds [of cfg] by (auto simp: slot_limit_def)

lemma slot_limit_batch_pos: "1 \<le> slot_limit cfg ''batch''"
  by (simp add: slot_limit_def)

subsection \<open>The decision\<close>

lemma Max_kv_less: "xs \<noteq> [] \<Longrightarrow> Max (set (map f xs)) < (b :: rat) \<longleftrightarrow> (\<forall>x \<in> set xs. f x < b)"
  by simp

text \<open>When the fleet has room for the request, independently of its deadline.\<close>

definition has_room :: "admit_config \<Rightarrow> pyfloat \<Rightarrow> snapshot list \<Rightarrow> string \<Rightarrow> bool" where
  "has_room cfg now snaps c \<longleftrightarrow>
     (\<exists>s \<in> set (admit_eligible cfg now snaps). kv_free_ratio s \<ge> kv_free_min cfg)
     \<and> (\<exists>s \<in> set (admit_eligible cfg now snaps). occupied s < slot_limit cfg c)"

definition deadline_ok :: "admit_config \<Rightarrow> pyfloat \<Rightarrow> snapshot list \<Rightarrow> admit_request \<Rightarrow> bool" where
  "deadline_ok cfg now snaps req = (case ar_deadline_ms req of None \<Rightarrow> True
     | Some ms \<Rightarrow> est_wait cfg (admit_eligible cfg now snaps) + est_prefill cfg (ar_est_tokens req) \<le> of_int ms / 1000)"

lemma has_room_mono: "has_room cfg now snaps c \<Longrightarrow> slot_limit cfg c \<le> slot_limit cfg c' \<Longrightarrow> has_room cfg now snaps c'"
  by (auto simp: has_room_def intro: less_le_trans)

lemma should_shed_admits:
  "(\<exists>i. should_shed req snaps now cfg = Admit i) \<longleftrightarrow>
     has_room cfg now snaps (ar_class req) \<and> deadline_ok cfg now snaps req"
proof (cases "admit_eligible cfg now snaps = []")
  case True
  then show ?thesis by (simp add: should_shed_def mk_shed_def has_room_def)
next
  case False
  note m = Max_kv_less [OF False, of kv_free_ratio]
  show ?thesis
  proof (cases "has_room cfg now snaps (ar_class req)")
    case True
    then have "\<not> Max (set (map kv_free_ratio (admit_eligible cfg now snaps))) < kv_free_min cfg"
      "\<not> list_all (\<lambda>s. occupied s \<ge> slot_limit cfg (ar_class req)) (admit_eligible cfg now snaps)"
      unfolding m has_room_def list_all_iff by (meson linorder_not_le)+
    with False True show ?thesis
      by (cases "ar_deadline_ms req") (auto simp: should_shed_def mk_shed_def deadline_ok_def Let_def not_less)
  next
    case nr: False
    with False have "Max (set (map kv_free_ratio (admit_eligible cfg now snaps))) < kv_free_min cfg
        \<or> list_all (\<lambda>s. occupied s \<ge> slot_limit cfg (ar_class req)) (admit_eligible cfg now snaps)"
      unfolding m has_room_def list_all_iff by (meson linorder_not_le)
    with False nr show ?thesis by (auto simp: should_shed_def mk_shed_def Let_def)
  qed
qed

text \<open>
  Admission is exactly: some healthy, fresh worker has enough free KV memory, some such worker
  has a decode slot the class may use, and the estimated wait plus prefill fits the deadline. With
  no healthy fresh worker it fails closed with 503, and everything it sheds is a 503 or a 504 that
  may overflow.
\<close>

theorem should_shed_decision:
  "((\<exists>i. should_shed req snaps now cfg = Admit i) \<longleftrightarrow>
      has_room cfg now snaps (ar_class req) \<and> deadline_ok cfg now snaps req)
   \<and> (admit_eligible cfg now snaps = [] \<longrightarrow>
        (\<exists>sh. should_shed req snaps now cfg = Shed sh \<and> sh_code sh = 503 \<and> sh_reason sh = ''no_signal''))
   \<and> (\<forall>sh. should_shed req snaps now cfg = Shed sh \<longrightarrow>
        (sh_code sh, sh_reason sh) \<in> {(503, ''no_signal''), (503, ''kv_pressure''), (503, ''decode_slots''),
          (504, ''deadline_unachievable'')} \<and> \<not> never_overflow sh)"
proof (intro conjI)
  show "(\<exists>i. should_shed req snaps now cfg = Admit i) \<longleftrightarrow>
      has_room cfg now snaps (ar_class req) \<and> deadline_ok cfg now snaps req"
    by (rule should_shed_admits)
  show "admit_eligible cfg now snaps = [] \<longrightarrow>
        (\<exists>sh. should_shed req snaps now cfg = Shed sh \<and> sh_code sh = 503 \<and> sh_reason sh = ''no_signal'')"
    by (simp add: should_shed_def mk_shed_def)
  show "\<forall>sh. should_shed req snaps now cfg = Shed sh \<longrightarrow>
        (sh_code sh, sh_reason sh) \<in> {(503, ''no_signal''), (503, ''kv_pressure''), (503, ''decode_slots''),
          (504, ''deadline_unachievable'')} \<and> \<not> never_overflow sh"
    by (auto simp: should_shed_def mk_shed_def Let_def split: if_splits option.splits)
qed

text \<open>
  Batch work never gets in where interactive work would be shed: with at least one decode slot,
  if a batch request is admitted then the same request as interactive is admitted too.
\<close>

theorem batch_admitted_only_if_interactive:
  assumes "1 \<le> max_decode_slots cfg" "ar_class req = ''batch''"
    and "should_shed req snaps now cfg = Admit i"
  shows "\<exists>i'. should_shed (req\<lparr>ar_class := ''interactive''\<rparr>) snaps now cfg = Admit i'"
proof -
  have "has_room cfg now snaps ''batch''" "deadline_ok cfg now snaps req"
    using assms(2,3) should_shed_admits [of req snaps now cfg] by auto
  moreover have "slot_limit cfg ''batch'' \<le> slot_limit cfg ''interactive''"
    using assms(1) by (rule slot_limit_batch_le)
  ultimately show ?thesis
    by (subst should_shed_admits) (auto simp: deadline_ok_def intro: has_room_mono split: option.splits)
qed

text \<open>A worker with a fresh, empty snapshot, for the witnesses.\<close>

definition idle_snapshot :: snapshot where
  "idle_snapshot = (new_snapshot \<lparr>wk_id = ''a'', wk_url = ''u''\<rparr> 2)\<lparr>observed_at := Some 0, healthy := True\<rparr>"

theorem should_shed_decision_witness:
  "(\<exists>i. should_shed \<lparr>ar_est_tokens = 100, ar_deadline_ms = Some 5000, ar_class = ''interactive''\<rparr>
      [idle_snapshot] 1 default_admit_config = Admit i)"
proof -
  have "has_room default_admit_config 1 [idle_snapshot] ''interactive''"
    by code_simp
  moreover have "deadline_ok default_admit_config 1 [idle_snapshot]
      \<lparr>ar_est_tokens = 100, ar_deadline_ms = Some 5000, ar_class = ''interactive''\<rparr>" by code_simp
  ultimately show ?thesis
    using should_shed_decision [of "\<lparr>ar_est_tokens = 100, ar_deadline_ms = Some 5000, ar_class = ''interactive''\<rparr>"
        "[idle_snapshot]" 1 default_admit_config] by simp
qed

theorem batch_admitted_only_if_interactive_witness:
  "\<exists>i'. should_shed (\<lparr>ar_est_tokens = 1, ar_deadline_ms = None, ar_class = ''batch''\<rparr>\<lparr>ar_class := ''interactive''\<rparr>)
      [idle_snapshot] 1 default_admit_config = Admit i'"
proof (rule batch_admitted_only_if_interactive)
  show "1 \<le> max_decode_slots default_admit_config" by (simp add: default_admit_config_def)
  show "should_shed \<lparr>ar_est_tokens = 1, ar_deadline_ms = None, ar_class = ''batch''\<rparr> [idle_snapshot] 1 default_admit_config
      = Admit (admit_inputs \<lparr>ar_est_tokens = 1, ar_deadline_ms = None, ar_class = ''batch''\<rparr> [idle_snapshot] 1 None)"
    by code_simp
qed simp

end
