(* ===== verification/Gw_Tenants.thy ===== *)
theory Gw_Tenants
  imports Gw_Admission
begin

text \<open>
  Tenant quotas (\<open>services/gateway/tenants.py\<close>): one bucket per allowlisted tenant and one for all
  others, a sliding window of committed tokens, a concurrency cap, and leases whose release is
  idempotent and may refund. A lease is an object the code shares by reference, so leases live in
  a store and are named by their index; \<open>l_bucket = None\<close> is a lease already released.
\<close>

definition OTHER :: string where "OTHER = ''other''"

type_synonym entry = "pyfloat \<times> int"

record bucket =
  window :: "entry list"
  tokens :: int
  active :: int

record lease =
  l_bucket :: "string option"
  l_entry :: entry

record tenant_quota =
  allowlist :: "string list"
  token_budget :: int
  window_s :: pyfloat
  max_concurrency :: int
  buckets :: "string \<Rightarrow> bucket"
  leases :: "lease list"

definition empty_bucket :: bucket where
  "empty_bucket = \<lparr>window = [], tokens = 0, active = 0\<rparr>"

text \<open>\<open>setdefault(name, _Bucket())\<close>: a bucket that was never used is the empty one.\<close>

definition new_quota :: "string list \<Rightarrow> int \<Rightarrow> pyfloat \<Rightarrow> int \<Rightarrow> tenant_quota" where
  "new_quota al tb ws mc = \<lparr>allowlist = al, token_budget = tb, window_s = ws, max_concurrency = mc,
     buckets = (\<lambda>_. empty_bucket), leases = []\<rparr>"

definition bucket_name :: "tenant_quota \<Rightarrow> string option \<Rightarrow> string" where
  "bucket_name q tenant = (case tenant of None \<Rightarrow> OTHER | Some t \<Rightarrow> if t \<in> set (allowlist q) then t else OTHER)"

text \<open>The loop that drops the entries that left the window, oldest first.\<close>

fun expire_loop :: "pyfloat \<Rightarrow> entry list \<Rightarrow> int \<Rightarrow> entry list \<times> int" where
  "expire_loop cutoff [] n = ([], n)"
| "expire_loop cutoff ((t, k) # w) n = (if t \<le> cutoff then expire_loop cutoff w (n - k) else ((t, k) # w, n))"

definition expire :: "pyfloat \<Rightarrow> bucket \<Rightarrow> bucket" where
  "expire cutoff b = (let (w, n) = expire_loop cutoff (window b) (tokens b) in b\<lparr>window := w, tokens := n\<rparr>)"

definition tenant_shed :: "string \<Rightarrow> int \<Rightarrow> string \<Rightarrow> bucket \<Rightarrow> shed" where
  "tenant_shed reason retry name b = \<lparr>sh_code = 429, sh_reason = reason, sh_retry_after = retry,
     sh_inputs = TenantInputs name (tokens b) (active b), never_overflow = True\<rparr>"

definition acquire_lease ::
  "string option \<Rightarrow> int \<Rightarrow> pyfloat \<Rightarrow> tenant_quota \<Rightarrow> (shed + nat) \<times> tenant_quota" where
  "acquire_lease tenant n now q =
     (let name = bucket_name q tenant;
          b = expire (now - window_s q) (buckets q name);
          q1 = q\<lparr>buckets := (buckets q)(name := b)\<rparr> in
      if active b \<ge> max_concurrency q then (Inl (tenant_shed ''tenant_concurrency'' 1 name b), q1)
      else if tokens b + n > token_budget q
      then (let wait = (case window b of [] \<Rightarrow> 1 | (t, _) # _ \<Rightarrow> \<lceil>t + window_s q - now\<rceil>) in
            (Inl (tenant_shed ''tenant_tokens'' (max wait 1) name b), q1))
      else (let b' = b\<lparr>window := window b @ [(now, n)], tokens := tokens b + n, active := active b + 1\<rparr> in
            (Inr (length (leases q)),
             q\<lparr>buckets := (buckets q)(name := b'),
               leases := leases q @ [\<lparr>l_bucket = Some name, l_entry = (now, n)\<rparr>]\<rparr>)))"

definition release_bucket :: "bool \<Rightarrow> entry \<Rightarrow> bucket \<Rightarrow> bucket" where
  "release_bucket refund e b =
     (let b1 = b\<lparr>active := active b - 1\<rparr> in
      if refund \<and> e \<in> set (window b1)
      then b1\<lparr>window := remove1 e (window b1), tokens := tokens b1 - snd e\<rparr> else b1)"

definition release_lease :: "bool \<Rightarrow> nat \<Rightarrow> tenant_quota \<Rightarrow> tenant_quota" where
  "release_lease refund i q =
     (if i < length (leases q) then
        (case l_bucket (leases q ! i) of
           None \<Rightarrow> q
         | Some name \<Rightarrow>
             q\<lparr>leases := (leases q)[i := (leases q ! i)\<lparr>l_bucket := None\<rparr>],
               buckets := (buckets q)(name := release_bucket refund (l_entry (leases q ! i)) (buckets q name))\<rparr>)
      else q)"

definition lease_live :: "nat \<Rightarrow> tenant_quota \<Rightarrow> bool" where
  "lease_live i q \<longleftrightarrow> i < length (leases q) \<and> l_bucket (leases q ! i) \<noteq> None"

lemmas tenant_defs [gw_defs] =
  acquire_lease_def release_lease_def release_bucket_def bucket_name_def tenant_shed_def

interpretation lease_once: once_release "release_lease refund" lease_live for refund
proof
  fix i j q
  show "\<not> lease_live i q \<Longrightarrow> release_lease refund i q = q"
    by (auto simp: lease_live_def release_lease_def)
  show "\<not> lease_live i (release_lease refund i q)"
    by (auto simp: lease_live_def release_lease_def split: option.splits)
  show "j \<noteq> i \<Longrightarrow> lease_live j q \<Longrightarrow> lease_live j (release_lease refund i q)"
    by (auto simp: lease_live_def release_lease_def split: option.splits)
qed

subsection \<open>Expiry\<close>

definition sum_tokens :: "entry list \<Rightarrow> int" where
  "sum_tokens w = sum_list (map snd w)"

lemma sum_tokens_simps [simp]: "sum_tokens [] = 0" "sum_tokens (e # w) = snd e + sum_tokens w"
  "sum_tokens (u @ w) = sum_tokens u + sum_tokens w"
  by (simp_all add: sum_tokens_def)

lemma sum_tokens_remove1: "e \<in> set w \<Longrightarrow> sum_tokens (remove1 e w) = sum_tokens w - snd e"
  by (induction w) auto

lemma sum_tokens_filter_le: "\<forall>e \<in> set w. 0 \<le> snd e \<Longrightarrow> sum_tokens (filter p w) \<le> sum_tokens w"
  by (induction w) auto

lemma sum_tokens_nonneg: "\<forall>e \<in> set w. 0 \<le> snd e \<Longrightarrow> 0 \<le> sum_tokens w"
  by (induction w) auto

lemma expire_loop_split:
  "\<exists>old. w = old @ fst (expire_loop c w n) \<and> (\<forall>e \<in> set old. fst e \<le> c)
     \<and> snd (expire_loop c w n) = n - sum_tokens old"
proof (induction c w n rule: expire_loop.induct)
  case (2 cutoff t k w n)
  show ?case
  proof (cases "t \<le> cutoff")
    case True
    with "2.IH" obtain old where "w = old @ fst (expire_loop cutoff w (n - k))" "\<forall>e \<in> set old. fst e \<le> cutoff"
      "snd (expire_loop cutoff w (n - k)) = n - k - sum_tokens old" by blast
    with True show ?thesis by (intro exI [of _ "(t, k) # old"]) auto
  qed auto
qed simp

lemma expire_split:
  obtains old where "window b = old @ window (expire c b)" "\<forall>e \<in> set old. fst e \<le> c"
    "tokens (expire c b) = tokens b - sum_tokens old" "active (expire c b) = active b"
  using expire_loop_split [of "window b" c "tokens b"] by (auto simp: expire_def case_prod_beta)

subsection \<open>The quota as a transition system\<close>

text \<open>
  The state is the quota, the ledger of what was committed to each bucket and not refunded (oldest
  first), and the time of the last call. Time does not run backwards and token counts are not
  negative, as the callers ensure.
\<close>

type_synonym quota_state = "tenant_quota \<times> (string \<Rightarrow> entry list) \<times> pyfloat"

inductive quota_step :: "quota_state \<Rightarrow> quota_state \<Rightarrow> bool" where
  q_grant: "prev \<le> now \<Longrightarrow> 0 \<le> n \<Longrightarrow> acquire_lease tenant n now q = (Inr i, q') \<Longrightarrow> name = bucket_name q tenant \<Longrightarrow>
     quota_step (q, led, prev) (q', led(name := led name @ [(now, n)]), now)"
| q_refuse: "prev \<le> now \<Longrightarrow> 0 \<le> n \<Longrightarrow> acquire_lease tenant n now q = (Inl sh, q') \<Longrightarrow>
     quota_step (q, led, prev) (q', led, now)"
| q_release: "quota_step (q, led, prev) (release_lease False i q, led, prev)"
| q_refund: "i < length (leases q) \<Longrightarrow> l_bucket (leases q ! i) = Some name \<Longrightarrow> e = l_entry (leases q ! i) \<Longrightarrow>
     led name = old @ window (buckets q name) \<Longrightarrow>
     quota_step (q, led, prev)
       (release_lease True i q, led(name := old @ remove1 e (window (buckets q name))), prev)"

definition quota_init :: "quota_state \<Rightarrow> bool" where
  "quota_init s \<longleftrightarrow> (\<exists>al tb ws mc t. 0 \<le> tb \<and> 0 \<le> mc \<and> s = (new_quota al tb ws mc, \<lambda>_. [], t))"

definition bucket_ok :: "tenant_quota \<Rightarrow> entry list \<Rightarrow> pyfloat \<Rightarrow> string \<Rightarrow> bool" where
  "bucket_ok q led prev name \<longleftrightarrow> (let b = buckets q name in
     tokens b = sum_tokens (window b) \<and> tokens b \<le> token_budget q
     \<and> active b = count_if (\<lambda>l. l_bucket l = Some name) (leases q) \<and> active b \<le> max_concurrency q
     \<and> (\<exists>old. led = old @ window b \<and> (\<forall>e \<in> set old. fst e \<le> prev - window_s q))
     \<and> (\<forall>e \<in> set led. 0 \<le> snd e))"

definition quota_ok :: "quota_state \<Rightarrow> bool" where
  "quota_ok s = (case s of (q, led, prev) \<Rightarrow> \<forall>name. bucket_ok q (led name) prev name)"

lemma expire_ok:
  assumes "bucket_ok q led prev name" "prev \<le> now"
  shows "bucket_ok (q\<lparr>buckets := (buckets q)(name := expire (now - window_s q) (buckets q name))\<rparr>) led now name"
proof -
  let ?b = "buckets q name"
  obtain old where o: "window ?b = old @ window (expire (now - window_s q) ?b)"
      "\<forall>e \<in> set old. fst e \<le> now - window_s q" "tokens (expire (now - window_s q) ?b) = tokens ?b - sum_tokens old"
      "active (expire (now - window_s q) ?b) = active ?b"
    by (rule expire_split)
  obtain older where l: "led = older @ window ?b" "\<forall>e \<in> set older. fst e \<le> prev - window_s q"
    using assms(1) by (auto simp: bucket_ok_def Let_def)
  have pos: "\<forall>e \<in> set led. 0 \<le> snd e" using assms(1) by (simp add: bucket_ok_def Let_def)
  have le: "led = (older @ old) @ window (expire (now - window_s q) ?b)" using l(1) o(1) by simp
  have "\<forall>e \<in> set (older @ old). fst e \<le> now - window_s q"
    using l(2) o(2) assms(2) by fastforce
  moreover have "0 \<le> sum_tokens old" using pos le by (intro sum_tokens_nonneg) auto
  moreover have "tokens ?b = sum_tokens old + sum_tokens (window (expire (now - window_s q) ?b))"
    using assms(1) arg_cong [OF o(1), of sum_tokens] by (simp add: bucket_ok_def Let_def)
  ultimately show ?thesis
    using assms(1) o(3,4) le pos by (auto simp: bucket_ok_def Let_def)
qed

lemma bucket_ok_other:
  assumes "bucket_ok q led prev v" "prev \<le> now" "buckets q' v = buckets q v"
    and "token_budget q' = token_budget q" "max_concurrency q' = max_concurrency q" "window_s q' = window_s q"
    and "count_if (\<lambda>l. l_bucket l = Some v) (leases q') = count_if (\<lambda>l. l_bucket l = Some v) (leases q)"
  shows "bucket_ok q' led now v"
proof -
  obtain old where o: "led = old @ window (buckets q v)" "\<forall>e \<in> set old. fst e \<le> prev - window_s q"
    using assms(1) by (auto simp: bucket_ok_def Let_def)
  have "\<forall>e \<in> set old. fst e \<le> now - window_s q" using o(2) assms(2) by force
  with o(1) assms show ?thesis by (simp add: bucket_ok_def Let_def)
qed

lemma release_count:
  assumes "i < length (leases q)" "l_bucket (leases q ! i) = Some name"
  shows "count_if (\<lambda>l. l_bucket l = Some v) ((leases q)[i := (leases q ! i)\<lparr>l_bucket := None\<rparr>])
     = count_if (\<lambda>l. l_bucket l = Some v) (leases q) - (if v = name then 1 else 0)"
  using assms by (simp add: count_if_list_update)

lemma quota_ok_release:
  assumes "quota_ok (q, led, prev)" "i < length (leases q)" "l_bucket (leases q ! i) = Some name"
    and "e = l_entry (leases q ! i)"
    and "led' name = (if refund \<and> e \<in> set (window (buckets q name))
                      then old @ remove1 e (window (buckets q name)) else led name)"
    and "led name = old @ window (buckets q name)" "\<And>v. v \<noteq> name \<Longrightarrow> led' v = led v"
  shows "quota_ok (release_lease refund i q, led', prev)"
  unfolding quota_ok_def prod.case
proof
  fix v
  have r: "release_lease refund i q = q\<lparr>leases := (leases q)[i := (leases q ! i)\<lparr>l_bucket := None\<rparr>],
               buckets := (buckets q)(name := release_bucket refund e (buckets q name))\<rparr>"
    using assms(2-4) by (simp add: release_lease_def)
  have ok: "bucket_ok q (led v) prev v" for v using assms(1) by (simp add: quota_ok_def)
  show "bucket_ok (release_lease refund i q) (led' v) prev v"
  proof (cases "v = name")
    case False
    then have "led' v = led v" by (rule assms(7))
    with ok [of v] have "bucket_ok q (led' v) prev v" by simp
    then show ?thesis
      by (rule bucket_ok_other) (use False release_count [OF assms(2,3), of v] in \<open>simp_all add: r\<close>)
  next
    case True
    let ?b = "buckets q name"
    obtain old' where "led name = old' @ window ?b" "\<forall>x \<in> set old'. fst x \<le> prev - window_s q"
      using ok [of name] by (auto simp: bucket_ok_def Let_def)
    with assms(6) have old: "\<forall>x \<in> set old. fst x \<le> prev - window_s q" by simp
    have pos: "\<forall>x \<in> set (led name). 0 \<le> snd x" using ok [of name] by (simp add: bucket_ok_def Let_def)
    have e0: "e \<in> set (window ?b) \<Longrightarrow> 0 \<le> snd e" using pos assms(6) by auto
    have "set (led' name) \<subseteq> set (led name)"
      using assms(5,6) set_remove1_subset [of e "window ?b"] by auto
    with pos have pos': "\<forall>x \<in> set (led' name). 0 \<le> snd x" by blast
    have cnt: "active (release_bucket refund e ?b) =
        count_if (\<lambda>l. l_bucket l = Some name) ((leases q)[i := (leases q ! i)\<lparr>l_bucket := None\<rparr>])"
      using ok [of name] release_count [OF assms(2,3), of name]
      by (simp add: bucket_ok_def Let_def release_bucket_def)
    have tok: "tokens (release_bucket refund e ?b) = sum_tokens (window (release_bucket refund e ?b))"
      "tokens (release_bucket refund e ?b) \<le> tokens ?b"
      using ok [of name] e0 by (auto simp: bucket_ok_def Let_def release_bucket_def sum_tokens_remove1)
    have act: "active (release_bucket refund e ?b) \<le> active ?b" by (simp add: release_bucket_def Let_def)
    have "led' name = old @ window (release_bucket refund e ?b)"
      using assms(5,6) by (auto simp: release_bucket_def Let_def)
    with cnt tok act old pos' ok [of name] True show ?thesis
      by (simp add: bucket_ok_def Let_def r)
  qed
qed


lemma acquire_frame:
  "acquire_lease tenant n now q = (res, q') \<Longrightarrow>
     token_budget q' = token_budget q \<and> max_concurrency q' = max_concurrency q \<and> window_s q' = window_s q
     \<and> (v \<noteq> bucket_name q tenant \<longrightarrow> buckets q' v = buckets q v
          \<and> count_if (\<lambda>l. l_bucket l = Some v) (leases q') = count_if (\<lambda>l. l_bucket l = Some v) (leases q))"
  by (auto simp: acquire_lease_def Let_def split: if_splits)

text \<open>What a refusal and a grant do to the bucket they address, after the expiry.\<close>

lemma acquire_refused:
  assumes "acquire_lease tenant n now q = (Inl sh, q')"
  shows "q' = q\<lparr>buckets := (buckets q)(bucket_name q tenant :=
      expire (now - window_s q) (buckets q (bucket_name q tenant)))\<rparr>"
  using assms by (auto simp: acquire_lease_def Let_def split: if_splits)

lemma acquire_granted:
  assumes "acquire_lease tenant n now q = (Inr i, q')"
  defines "name \<equiv> bucket_name q tenant"
  defines "b \<equiv> expire (now - window_s q) (buckets q name)"
  shows "active b < max_concurrency q" "tokens b + n \<le> token_budget q" "i = length (leases q)"
    "q' = q\<lparr>buckets := (buckets q)(name :=
        b\<lparr>window := window b @ [(now, n)], tokens := tokens b + n, active := active b + 1\<rparr>),
      leases := leases q @ [\<lparr>l_bucket = Some name, l_entry = (now, n)\<rparr>]\<rparr>"
  using assms by (auto simp: acquire_lease_def Let_def split: if_splits)

lemma quota_ok_refused:
  assumes "quota_ok (q, led, prev)" "prev \<le> now" "acquire_lease tenant n now q = (Inl sh, q')"
  shows "quota_ok (q', led, now)"
  unfolding quota_ok_def prod.case
proof
  fix v
  have ok: "bucket_ok q (led v) prev v" for v using assms(1) by (simp add: quota_ok_def)
  show "bucket_ok q' (led v) now v"
  proof (cases "v = bucket_name q tenant")
    case True
    then show ?thesis
      using expire_ok [OF ok [of v] assms(2)] acquire_refused [OF assms(3)] by simp
  next
    case False
    then show ?thesis
      using acquire_frame [OF assms(3), of v] by (intro bucket_ok_other [OF ok [of v] assms(2)]) auto
  qed
qed

lemma quota_ok_granted:
  assumes "quota_ok (q, led, prev)" "prev \<le> now" "0 \<le> n" "acquire_lease tenant n now q = (Inr i, q')"
    and "name = bucket_name q tenant"
  shows "quota_ok (q', led(name := led name @ [(now, n)]), now)"
  unfolding quota_ok_def prod.case
proof
  fix v
  have ok: "bucket_ok q (led v) prev v" for v using assms(1) by (simp add: quota_ok_def)
  show "bucket_ok q' ((led(name := led name @ [(now, n)])) v) now v"
  proof (cases "v = name")
    case True
    let ?b = "expire (now - window_s q) (buckets q name)"
    note g = acquire_granted [OF assms(4), folded assms(5)]
    obtain old where "led name = old @ window ?b" "\<forall>e \<in> set old. fst e \<le> now - window_s q"
      using expire_ok [OF ok [of name] assms(2)] by (auto simp: bucket_ok_def Let_def)
    moreover have "bucket_ok (q\<lparr>buckets := (buckets q)(name := ?b)\<rparr>) (led name) now name"
      by (rule expire_ok [OF ok [of name] assms(2)])
    ultimately show ?thesis
      using g(1,2) assms(3) True unfolding g(4) by (auto simp: bucket_ok_def Let_def)
  next
    case False
    then show ?thesis
      using acquire_frame [OF assms(4), of v] assms(5)
      by (intro bucket_ok_other [OF _ assms(2)]) (auto intro: ok)
  qed
qed

lemma quota_ok_release_dead: "\<not> lease_live i q \<Longrightarrow> quota_ok (release_lease r i q, led, prev) = quota_ok (q, led, prev)"
  by (simp add: lease_once.release_dead)

interpretation quota_sys: inv_system quota_init quota_step quota_ok
proof
  fix s
  assume "quota_init s"
  then show "quota_ok s"
    by (auto simp: quota_init_def quota_ok_def bucket_ok_def new_quota_def empty_bucket_def Let_def)
next
  fix s t
  assume ok: "quota_ok s" and "quota_step s t"
  from this(2) show "quota_ok t"
  proof cases
    case (q_grant prev now n tenant q i q' name led)
    with ok show ?thesis by (auto intro: quota_ok_granted)
  next
    case (q_refuse prev now n tenant q sh q' led)
    with ok show ?thesis by (auto intro: quota_ok_refused)
  next
    case (q_release q led prev i)
    show ?thesis
    proof (cases "lease_live i q")
      case False
      with ok q_release show ?thesis by (simp add: quota_ok_release_dead)
    next
      case True
      then obtain name where n: "i < length (leases q)" "l_bucket (leases q ! i) = Some name"
        by (auto simp: lease_live_def)
      have "bucket_ok q (led name) prev name" using ok q_release by (simp add: quota_ok_def)
      then obtain old where "led name = old @ window (buckets q name)"
        by (auto simp: bucket_ok_def Let_def)
      with ok q_release show ?thesis
        by (auto intro: quota_ok_release [OF _ n refl, of led prev led False old])
    qed
  next
    case (q_refund i q name e led old prev)
    show ?thesis
      unfolding q_refund(2)
      by (rule quota_ok_release [of q led prev i name e _ True old])
        (use ok q_refund in \<open>auto simp: remove1_idem\<close>)
  qed
qed

text \<open>
  C11. Tenant quotas hold in every state that any interleaving of acquisitions, releases and refunds
  reaches: in no bucket do the tokens committed in the last window and not refunded pass the token
  budget, the active count is the number of live leases of the bucket, and it never passes the
  concurrency cap.
\<close>

theorem tenant_window_bounded:
  assumes "reach quota_init quota_step (q, led, prev)" "prev \<le> now"
  shows "sum_tokens (filter (\<lambda>(t, _). t > now - window_s q) (led name)) \<le> token_budget q
    \<and> active (buckets q name) = count_if (\<lambda>l. l_bucket l = Some name) (leases q)
    \<and> active (buckets q name) \<le> max_concurrency q"
proof -
  have ok: "bucket_ok q (led name) prev name"
    using quota_sys.inv_reach [OF assms(1)] by (simp add: quota_ok_def)
  then obtain old where o: "led name = old @ window (buckets q name)" "\<forall>e \<in> set old. fst e \<le> prev - window_s q"
    by (auto simp: bucket_ok_def Let_def)
  have "filter (\<lambda>(t, _). t > now - window_s q) old = []"
    using o(2) assms(2) by (force simp: filter_empty_conv)
  then have "sum_tokens (filter (\<lambda>(t, _). t > now - window_s q) (led name))
      \<le> sum_tokens (window (buckets q name))"
    using ok o(1) by (auto simp: bucket_ok_def Let_def intro: sum_tokens_filter_le)
  with ok show ?thesis by (auto simp: bucket_ok_def Let_def)
qed

theorem tenant_window_bounded_witness:
  "\<exists>q led. reach quota_init quota_step (q, led, 0) \<and> led OTHER = [(0, 7)]
     \<and> sum_tokens (filter (\<lambda>(t, _). t > 0 - window_s q) (led OTHER)) \<le> 10"
proof -
  let ?q0 = "new_quota [] 10 60 2"
  have a: "acquire_lease None 7 0 ?q0 = (Inr 0, snd (acquire_lease None 7 0 ?q0))"
    by (simp add: acquire_lease_def new_quota_def bucket_name_def OTHER_def empty_bucket_def expire_def Let_def)
  have "quota_init (?q0, \<lambda>_. [], 0)"
    unfolding quota_init_def by (intro exI conjI) (rule zero_le_numeral zero_le_numeral refl)+
  then have "reach quota_init quota_step (?q0, \<lambda>_. [], 0)" by (rule reach.reach_init)
  then have r: "reach quota_init quota_step (snd (acquire_lease None 7 0 ?q0), (\<lambda>_. [])(OTHER := [] @ [(0, 7)]), 0)"
    by (rule reach.reach_step) (rule q_grant [OF _ _ a], simp_all add: bucket_name_def)
  have "token_budget (snd (acquire_lease None 7 0 ?q0)) = 10"
    using acquire_frame [OF a] by (simp add: new_quota_def)
  with tenant_window_bounded [OF r, of 0 OTHER] r show ?thesis
    by (intro exI [of _ "snd (acquire_lease None 7 0 ?q0)"] exI [of _ "(\<lambda>_. [])(OTHER := [] @ [(0, 7)])"]) simp
qed

text \<open>A refusal for tokens names a time after which the oldest commitment has left the window.\<close>

lemma retry_after_expires_oldest:
  assumes "acquire_lease tenant n now q = (Inl sh, q')" "sh_reason sh = ''tenant_tokens''"
    and "window (buckets q' (bucket_name q tenant)) = (t, k) # w"
  shows "1 \<le> sh_retry_after sh \<and> t \<le> now + of_int (sh_retry_after sh) - window_s q"
proof -
  have "sh_retry_after sh = max \<lceil>t + window_s q - now\<rceil> 1"
    using assms by (auto simp: acquire_lease_def tenant_shed_def Let_def split: if_splits)
  moreover have "t + window_s q - now \<le> of_int \<lceil>t + window_s q - now\<rceil>" by (rule le_of_int_ceiling)
  moreover have "(of_int \<lceil>t + window_s q - now\<rceil> :: rat) \<le> of_int (max \<lceil>t + window_s q - now\<rceil> 1)" by simp
  ultimately have "t + window_s q - now \<le> of_int (sh_retry_after sh)" by (metis order_trans)
  with \<open>sh_retry_after sh = _\<close> show ?thesis by simp
qed

lemma tenant_shed_local: "acquire_lease tenant n now q = (Inl sh, q') \<Longrightarrow> sh_code sh = 429 \<and> never_overflow sh"
  by (auto simp: acquire_lease_def tenant_shed_def Let_def split: if_splits)

lemma acquire_leases_length:
  "acquire_lease tenant n now q = (res, q') \<Longrightarrow> length (leases q') = length (leases q) + (case res of Inl _ \<Rightarrow> 0 | Inr _ \<Rightarrow> 1)"
  by (auto simp: acquire_lease_def Let_def split: if_splits)

lemma acquire_live:
  "acquire_lease tenant n now q = (res, q') \<Longrightarrow>
     lease_live j q' \<longleftrightarrow> lease_live j q \<or> res = Inr j"
  by (auto simp: acquire_lease_def lease_live_def nth_append Let_def split: if_splits)

end
