(* ===== verification/Gw_Placement.thy ===== *)
theory Gw_Placement
  imports Gw_Workers
begin

text \<open>
  Placement (\<open>services/gateway/placement.py\<close>): which worker a request goes to, decided from the
  snapshots. Python's random generator is an argument with the two operations the code uses; what
  its documentation promises of them is \<open>rng_ok\<close>.
\<close>

definition STICKY_MAX_INFLIGHT_TOKENS :: int where "STICKY_MAX_INFLIGHT_TOKENS = 10000"

record placement_request =
  prefix_id :: "string option"
  pr_est_tokens :: int
  pr_class :: string
  forced_worker :: "string option"

datatype intended_action = LocalReuse | DestinationHit | Recompute | Hop

record placement_decision =
  chosen_worker :: string
  prior_worker :: "string option"
  placement_policy :: string
  placement_reason :: string
  estimated_reusable_tokens :: int
  intended_action :: intended_action
  snapshot_age :: age
  fallback :: "string option"
  prior_reusable_tokens :: int

datatype placement_error = NoHealthyWorker | BatchSlotCap | UnknownForcedWorker | UnknownPolicy

text \<open>The reason strings of \<open>PlacementError\<close>.\<close>

fun placement_error_reason :: "placement_error \<Rightarrow> string" where
  "placement_error_reason NoHealthyWorker = ''no_healthy_worker''"
| "placement_error_reason BatchSlotCap = ''batch_slot_cap''"
| "placement_error_reason UnknownForcedWorker = ''unknown_forced_worker''"
| "placement_error_reason UnknownPolicy = ''unknown_policy''"

record rng =
  choice :: "snapshot list \<Rightarrow> snapshot"
  sample :: "snapshot list \<Rightarrow> nat \<Rightarrow> snapshot list"

definition rng_ok :: "rng \<Rightarrow> bool" where
  "rng_ok g \<longleftrightarrow> (\<forall>xs. xs \<noteq> [] \<longrightarrow> choice g xs \<in> set xs)
     \<and> (\<forall>xs k. k \<le> length xs \<longrightarrow> length (sample g xs k) = k \<and> mset (sample g xs k) \<subseteq># mset xs)"

text \<open>The keyword arguments of \<open>pick\<close>.\<close>

record pick_args =
  policy :: string
  stale_after :: pyfloat
  now_at :: pyfloat
  rr_index :: int
  kv_used_max :: pyfloat
  min_kv_free :: pyfloat
  allow_forced :: bool
  spill_queue :: int
  batch_slot_limit :: "int option"

definition load :: "snapshot \<Rightarrow> bool \<times> int" where
  "load s = (observed_at s = None, 2 * waiting s + running s + inflight s + queued s + pending s)"

text \<open>\<open>{w.id: w for w in workers}.get(i)\<close>: of two workers with one id the later wins.\<close>

definition by_id :: "snapshot list \<Rightarrow> string \<Rightarrow> snapshot option" where
  "by_id ws i = map_of (rev (map (\<lambda>w. (snap_id w, w)) ws)) i"

definition truthy_str :: "string option \<Rightarrow> bool" where
  "truthy_str s \<longleftrightarrow> s \<noteq> None \<and> s \<noteq> Some []"

definition belief_at :: "string option \<Rightarrow> snapshot \<Rightarrow> prefix_belief option" where
  "belief_at p s = (if truthy_str p then map_of (prefixes s) (the p) else None)"

definition held_by :: "placement_request \<Rightarrow> snapshot list \<Rightarrow> (pyfloat \<times> string) list" where
  "held_by req workers = map (\<lambda>w. (pb_observed_at (the (belief_at (prefix_id req) w)), snap_id w))
     (filter (\<lambda>w. belief_at (prefix_id req) w \<noteq> None) workers)"

definition prior_worker_of :: "placement_request \<Rightarrow> snapshot list \<Rightarrow> string option" where
  "prior_worker_of req workers =
     (if \<not> truthy_str (prefix_id req) then None
      else let held = held_by req workers in if held = [] then None else Some (snd (Max (set held))))"

definition p2c :: "rng \<Rightarrow> snapshot list \<Rightarrow> snapshot" where
  "p2c g cands = arg_min_list load (sample g cands (min 2 (length cands)))"

definition owner_saturated :: "snapshot \<Rightarrow> pyfloat \<Rightarrow> int \<Rightarrow> string option" where
  "owner_saturated owner kv_max spill =
     (if 1 - kv_free_ratio owner \<ge> kv_max then Some ''prefix_owner_kv_pressure''
      else if inflight_tokens owner \<ge> STICKY_MAX_INFLIGHT_TOKENS then Some ''prefix_owner_busy''
      else if waiting owner + queued owner + pending owner \<ge> spill then Some ''prefix_owner_saturated''
      else None)"

definition decide_place ::
  "placement_request \<Rightarrow> snapshot list \<Rightarrow> pyfloat \<Rightarrow> string option \<Rightarrow> snapshot \<Rightarrow> string \<Rightarrow> string \<Rightarrow> placement_decision" where
  "decide_place req workers now fb snap pol reason =
     (let prior = prior_worker_of req workers;
          belief = belief_at (prefix_id req) snap;
          (action, reusable) = (case belief of None \<Rightarrow> (Recompute, 0)
             | Some b \<Rightarrow> (if Some (snap_id snap) = prior then LocalReuse else DestinationHit, pb_tokens b));
          owner = Option.bind (if truthy_str prior then prior else None) (by_id workers);
          owner_belief = Option.bind owner (belief_at (prefix_id req))
      in \<lparr>chosen_worker = snap_id snap, prior_worker = prior, placement_policy = pol, placement_reason = reason,
          estimated_reusable_tokens = reusable, intended_action = action, snapshot_age = snap_age now snap,
          fallback = fb, prior_reusable_tokens = (case owner_belief of None \<Rightarrow> 0 | Some b \<Rightarrow> pb_tokens b)\<rparr>)"

text \<open>The candidates: healthy and fresh, or all healthy ones with the fallback flag.\<close>

definition fresh_or_healthy :: "pick_args \<Rightarrow> snapshot list \<Rightarrow> snapshot list \<times> string option" where
  "fresh_or_healthy a workers =
     (let hs = filter healthy workers; el = filter (\<lambda>w. \<not> is_stale (stale_after a) (now_at a) w) hs
      in if el = [] then (hs, Some ''stale_snapshot'') else (el, None))"

definition with_kv_free :: "pick_args \<Rightarrow> snapshot list \<Rightarrow> snapshot list" where
  "with_kv_free a el = (let good = filter (\<lambda>w. kv_free_ratio w \<ge> min_kv_free a) el
     in if good \<noteq> [] then good else el)"

definition below_batch_cap :: "pick_args \<Rightarrow> string \<Rightarrow> snapshot list \<Rightarrow> snapshot list" where
  "below_batch_cap a c el = (case batch_slot_limit a of
     Some limit \<Rightarrow> if c = ''batch'' then filter (\<lambda>w. occupied w < limit) el else el
   | None \<Rightarrow> el)"

definition pick_prefix ::
  "rng \<Rightarrow> pick_args \<Rightarrow> placement_request \<Rightarrow> snapshot list \<Rightarrow> snapshot list \<Rightarrow> snapshot \<times> string" where
  "pick_prefix g a req workers eligible =
     (let prior = prior_worker_of req workers;
          owner = Option.bind (if truthy_str prior then prior else None) (by_id workers) in
      case owner of
        None \<Rightarrow> (p2c g eligible, ''no_prefix_known'')
      | Some ow \<Rightarrow>
          if ow \<notin> set eligible then (p2c g eligible, ''prefix_owner_unavailable'')
          else let others = filter (\<lambda>w. w \<noteq> ow) eligible;
                   target = arg_min_list load others in
            case owner_saturated ow (kv_used_max a) (spill_queue a) of
              None \<Rightarrow> (ow, ''prefix_affinity'')
            | Some why \<Rightarrow>
                if others \<noteq> [] \<and> (why \<noteq> ''prefix_owner_saturated'' \<or> load target < load ow)
                then (target, why) else (ow, ''prefix_affinity''))"

definition pick_policy ::
  "rng \<Rightarrow> pick_args \<Rightarrow> placement_request \<Rightarrow> snapshot list \<Rightarrow> snapshot list \<Rightarrow> (snapshot \<times> string) option" where
  "pick_policy g a req workers eligible =
     (if policy a = ''round_robin''
      then Some (eligible ! nat (rr_index a mod int (length eligible)), ''round_robin'')
      else if policy a = ''least_loaded''
      then (let best = Min (set (map load eligible)); ties = filter (\<lambda>w. load w = best) eligible
            in Some (choice g ties, ''least_loaded''))
      else if policy a = ''p2c'' then Some (p2c g eligible, ''p2c'')
      else if policy a = ''prefix_then_load'' then Some (pick_prefix g a req workers eligible)
      else None)"

definition pick ::
  "rng \<Rightarrow> placement_request \<Rightarrow> snapshot list \<Rightarrow> pick_args \<Rightarrow> placement_error + placement_decision" where
  "pick g req workers a =
     (if truthy_str (forced_worker req) \<and> allow_forced a
      then (case by_id workers (the (forced_worker req)) of
              None \<Rightarrow> Inl UnknownForcedWorker
            | Some w \<Rightarrow> Inr (decide_place req workers (now_at a) None w ''forced'' ''forced''))
      else if filter healthy workers = [] then Inl NoHealthyWorker
      else let (el, fb) = fresh_or_healthy a workers;
               eligible = below_batch_cap a (pr_class req) (with_kv_free a el) in
        if eligible = [] then Inl BatchSlotCap
        else case pick_policy g a req workers eligible of
               None \<Rightarrow> Inl UnknownPolicy
             | Some (snap, reason) \<Rightarrow>
                 Inr (decide_place req workers (now_at a) fb snap (policy a) reason))"

lemmas placement_defs [gw_defs] =
  pick_def pick_policy_def pick_prefix_def p2c_def decide_place_def fresh_or_healthy_def
  with_kv_free_def below_batch_cap_def

subsection \<open>Candidates\<close>

definition eligible_for :: "pick_args \<Rightarrow> placement_request \<Rightarrow> snapshot list \<Rightarrow> snapshot list" where
  "eligible_for a req workers = below_batch_cap a (pr_class req) (with_kv_free a (fst (fresh_or_healthy a workers)))"

lemma sample_mem: "rng_ok g \<Longrightarrow> k \<le> length xs \<Longrightarrow> x \<in> set (sample g xs k) \<Longrightarrow> x \<in> set xs"
  by (metis mset_subset_eqD rng_ok_def set_mset_mset)

lemma p2c_mem: "rng_ok g \<Longrightarrow> xs \<noteq> [] \<Longrightarrow> p2c g xs \<in> set xs"
proof -
  assume g: "rng_ok g" and ne: "xs \<noteq> []"
  then have "length (sample g xs (min 2 (length xs))) = min 2 (length xs)" by (simp add: rng_ok_def)
  with ne have "sample g xs (min 2 (length xs)) \<noteq> []" by (cases xs) auto
  then have "p2c g xs \<in> set (sample g xs (min 2 (length xs)))" unfolding p2c_def by (rule arg_min_list_mem)
  then show ?thesis using sample_mem [OF g, of "min 2 (length xs)" xs] by simp
qed

lemma pick_prefix_mem:
  assumes "rng_ok g" "eligible \<noteq> []"
  shows "fst (pick_prefix g a req workers eligible) \<in> set eligible"
proof -
  have t: "filter P eligible \<noteq> [] \<Longrightarrow> arg_min_list load (filter P eligible) \<in> set eligible" for P
    using arg_min_list_mem [of "filter P eligible" load] by auto
  show ?thesis
    using p2c_mem [OF assms] t by (auto simp: pick_prefix_def Let_def split: option.splits)
qed

lemma least_loaded_ties: "eligible \<noteq> [] \<Longrightarrow> filter (\<lambda>w. load w = Min (set (map load eligible))) eligible \<noteq> []"
proof -
  assume "eligible \<noteq> []"
  then have "Min (set (map load eligible)) \<in> set (map load eligible)" by (intro Min_in) auto
  then show ?thesis by (auto simp: filter_empty_conv)
qed

lemma pick_policy_mem:
  assumes "rng_ok g" "eligible \<noteq> []" "pick_policy g a req workers eligible = Some (s, reason)"
  shows "s \<in> set eligible"
proof -
  have "nat (rr_index a mod int (length eligible)) < length eligible"
    using assms(2) by (simp add: nat_less_iff)
  then have rr: "eligible ! nat (rr_index a mod int (length eligible)) \<in> set eligible" by (rule nth_mem)
  have ll: "choice g (filter (\<lambda>w. load w = Min (set (map load eligible))) eligible) \<in> set eligible"
  proof -
    let ?ties = "filter (\<lambda>w. load w = Min (set (map load eligible))) eligible"
    have "choice g ?ties \<in> set ?ties"
      using assms(1) least_loaded_ties [OF assms(2)] unfolding rng_ok_def by blast
    then show ?thesis by simp
  qed
  have pp: "pick_prefix g a req workers eligible = (s, reason) \<Longrightarrow> s \<in> set eligible"
    using pick_prefix_mem [OF assms(1,2), of a req workers] by simp
  show ?thesis
    using assms(3) rr ll pp p2c_mem [OF assms(1,2)] by (auto simp: pick_policy_def Let_def split: if_splits)
qed

lemma decide_place_frame [simp]:
  "chosen_worker (decide_place req workers now fb s pol reason) = snap_id s"
  "fallback (decide_place req workers now fb s pol reason) = fb"
  "placement_reason (decide_place req workers now fb s pol reason) = reason"
  "placement_policy (decide_place req workers now fb s pol reason) = pol"
  "prior_worker (decide_place req workers now fb s pol reason) = prior_worker_of req workers"
  by (simp_all add: decide_place_def case_prod_beta Let_def)

lemma eligible_sub: "set (eligible_for a req workers) \<subseteq> set (fst (fresh_or_healthy a workers))"
  by (auto simp: eligible_for_def below_batch_cap_def with_kv_free_def Let_def split: option.splits if_splits)

lemma fresh_or_healthy_sub: "set (fst (fresh_or_healthy a workers)) \<subseteq> {w \<in> set workers. healthy w}"
  by (auto simp: fresh_or_healthy_def Let_def)

lemma pick_not_forced:
  assumes "\<not> (truthy_str (forced_worker req) \<and> allow_forced a)" "pick g req workers a = Inr d"
  obtains s where "eligible_for a req workers \<noteq> []"
    "pick_policy g a req workers (eligible_for a req workers) = Some (s, placement_reason d)"
    "d = decide_place req workers (now_at a) (snd (fresh_or_healthy a workers)) s (policy a) (placement_reason d)"
  using assms
  by (fastforce simp: pick_def eligible_for_def case_prod_beta Let_def split: if_splits option.splits)

text \<open>
  A request that is not forced goes to a worker that is healthy; to one with a fresh snapshot
  whenever some healthy worker has one, and otherwise the decision carries the stale-snapshot flag;
  and a batch request goes to a worker with fewer occupied slots than the batch cap.
\<close>

theorem pick_respects_eligibility:
  assumes "rng_ok g" "\<not> (truthy_str (forced_worker req) \<and> allow_forced a)" "pick g req workers a = Inr d"
  shows "\<exists>s \<in> set workers. chosen_worker d = snap_id s \<and> healthy s
     \<and> (if \<exists>w \<in> set workers. healthy w \<and> \<not> is_stale (stale_after a) (now_at a) w
        then fallback d = None \<and> \<not> is_stale (stale_after a) (now_at a) s
        else fallback d = Some ''stale_snapshot'')
     \<and> (pr_class req = ''batch'' \<longrightarrow> (\<forall>limit. batch_slot_limit a = Some limit \<longrightarrow> occupied s < limit))"
proof -
  obtain s where e: "eligible_for a req workers \<noteq> []"
    "pick_policy g a req workers (eligible_for a req workers) = Some (s, placement_reason d)"
    "d = decide_place req workers (now_at a) (snd (fresh_or_healthy a workers)) s (policy a) (placement_reason d)"
    using assms(2,3) by (rule pick_not_forced)
  have s: "s \<in> set (eligible_for a req workers)" by (rule pick_policy_mem [OF assms(1) e(1,2)])
  then have h: "s \<in> set (fst (fresh_or_healthy a workers))" using eligible_sub by blast
  then have "s \<in> set workers" "healthy s" using fresh_or_healthy_sub by blast+
  moreover have "chosen_worker d = snap_id s" "fallback d = snd (fresh_or_healthy a workers)"
    by (subst e(3), simp)+
  moreover have "if \<exists>w \<in> set workers. healthy w \<and> \<not> is_stale (stale_after a) (now_at a) w
        then snd (fresh_or_healthy a workers) = None \<and> \<not> is_stale (stale_after a) (now_at a) s
        else snd (fresh_or_healthy a workers) = Some ''stale_snapshot''"
    using h by (auto simp: fresh_or_healthy_def Let_def filter_empty_conv split: if_splits)
  moreover have "pr_class req = ''batch'' \<longrightarrow> (\<forall>limit. batch_slot_limit a = Some limit \<longrightarrow> occupied s < limit)"
    using s by (auto simp: eligible_for_def below_batch_cap_def)
  ultimately show ?thesis by (intro bexI [of _ s]) simp_all
qed

subsection \<open>Sticky owners\<close>

lemma pick_prefix_owner:
  assumes "prior_worker_of req workers = Some p" "p \<noteq> []" "by_id workers p = Some ow" "ow \<in> set eligible"
  shows "pick_prefix g a req workers eligible =
    (case owner_saturated ow (kv_used_max a) (spill_queue a) of
       None \<Rightarrow> (ow, ''prefix_affinity'')
     | Some why \<Rightarrow>
         if filter (\<lambda>w. w \<noteq> ow) eligible \<noteq> []
            \<and> (why \<noteq> ''prefix_owner_saturated'' \<or> load (arg_min_list load (filter (\<lambda>w. w \<noteq> ow) eligible)) < load ow)
         then (arg_min_list load (filter (\<lambda>w. w \<noteq> ow) eligible), why) else (ow, ''prefix_affinity''))"
  unfolding pick_prefix_def Let_def using assms by (simp add: truthy_str_def)

text \<open>
  Under \<open>prefix_then_load\<close> a conversation whose KV owner is eligible leaves it only when the
  owner is saturated, and then for a least loaded other candidate; when only the owner's queue is
  long it leaves only for a strictly less loaded worker.
\<close>

theorem owner_left_only_when_saturated:
  assumes "prior_worker_of req workers = Some p" "p \<noteq> []" "by_id workers p = Some ow" "ow \<in> set eligible"
    and "pick_prefix g a req workers eligible = (s, reason)" "s \<noteq> ow"
  shows "owner_saturated ow (kv_used_max a) (spill_queue a) = Some reason
     \<and> s \<in> set eligible \<and> (\<forall>w \<in> set eligible. w \<noteq> ow \<longrightarrow> load s \<le> load w)
     \<and> (reason = ''prefix_owner_saturated'' \<longrightarrow> load s < load ow)"
proof -
  let ?others = "filter (\<lambda>w. w \<noteq> ow) eligible"
  obtain why where w: "owner_saturated ow (kv_used_max a) (spill_queue a) = Some why"
    using assms(5,6) pick_prefix_owner [OF assms(1-4), of g a] by (cases "owner_saturated ow (kv_used_max a) (spill_queue a)") auto
  have p: "?others \<noteq> [] \<and> (why \<noteq> ''prefix_owner_saturated'' \<or> load (arg_min_list load ?others) < load ow)"
    using assms(5,6) pick_prefix_owner [OF assms(1-4), of g a] unfolding w option.case by (metis prod.inject)
  then have "s = arg_min_list load ?others" "reason = why"
    using assms(5) pick_prefix_owner [OF assms(1-4), of g a] unfolding w option.case by simp_all
  with w p have c: "owner_saturated ow (kv_used_max a) (spill_queue a) = Some reason" "?others \<noteq> []"
    "s = arg_min_list load ?others" "reason = ''prefix_owner_saturated'' \<longrightarrow> load s < load ow"
    by simp_all
  have "s \<in> set ?others" unfolding c(3) using c(2) by (rule arg_min_list_mem)
  moreover have "\<forall>w \<in> set ?others. load s \<le> load w"
    unfolding c(3) using arg_min_list_least [OF c(2)] by blast
  ultimately show ?thesis using c by auto
qed

text \<open>The converse: a saturated owner is left whenever that helps.\<close>

lemma owner_kept_when_not_saturated:
  assumes "prior_worker_of req workers = Some p" "p \<noteq> []" "by_id workers p = Some ow" "ow \<in> set eligible"
    and "owner_saturated ow (kv_used_max a) (spill_queue a) = None"
  shows "pick_prefix g a req workers eligible = (ow, ''prefix_affinity'')"
  using assms by (simp add: pick_prefix_def truthy_str_def)

lemma never_intends_hop: "intended_action (decide_place req workers now fb s pol reason) \<noteq> Hop"
  by (simp add: decide_place_def case_prod_beta Let_def split: option.splits)

lemma prior_worker_holds:
  assumes "prior_worker_of req workers = Some p"
  shows "\<exists>w \<in> set workers. snap_id w = p \<and> belief_at (prefix_id req) w \<noteq> None"
proof -
  have h: "held_by req workers \<noteq> []" "p = snd (Max (set (held_by req workers)))"
    using assms by (auto simp: prior_worker_of_def Let_def split: if_splits)
  from h(1) have "Max (set (held_by req workers)) \<in> set (held_by req workers)" by (intro Max_in) simp_all
  with h(2) have "p \<in> snd ` set (held_by req workers)" by simp
  then show ?thesis by (auto simp: held_by_def)
qed

text \<open>
  Placement is total on the policies it knows: with a known policy and no forced worker it
  fails exactly when no worker is healthy, or when a batch request finds every candidate at its
  slot cap; and its decision never claims a KV hop.
\<close>

theorem pick_total:
  assumes "policy a \<in> {''round_robin'', ''least_loaded'', ''p2c'', ''prefix_then_load''}"
    and "\<not> (truthy_str (forced_worker req) \<and> allow_forced a)"
  shows "(case pick g req workers a of
      Inl e \<Rightarrow> (e = NoHealthyWorker \<and> (\<forall>w \<in> set workers. \<not> healthy w))
        \<or> (e = BatchSlotCap \<and> pr_class req = ''batch'' \<and> batch_slot_limit a \<noteq> None
            \<and> (\<forall>w \<in> set (with_kv_free a (fst (fresh_or_healthy a workers))). the (batch_slot_limit a) \<le> occupied w))
    | Inr d \<Rightarrow> intended_action d \<noteq> Hop \<and> placement_policy d = policy a)"
proof (cases "filter healthy workers = []")
  case True
  then show ?thesis using assms(2) by (auto simp: pick_def filter_empty_conv)
next
  case False
  have ne: "with_kv_free a (fst (fresh_or_healthy a workers)) \<noteq> []"
    using False by (auto simp: with_kv_free_def fresh_or_healthy_def Let_def)
  have pol: "pick_policy g a req workers el \<noteq> None" for el
    using assms(1) by (auto simp: pick_policy_def Let_def)
  have pk: "pick g req workers a =
      (if eligible_for a req workers = [] then Inl BatchSlotCap
       else case pick_policy g a req workers (eligible_for a req workers) of
               None \<Rightarrow> Inl UnknownPolicy
             | Some (snap, reason) \<Rightarrow>
                 Inr (decide_place req workers (now_at a) (snd (fresh_or_healthy a workers)) snap (policy a) reason))"
    using False assms(2) by (auto simp: pick_def eligible_for_def case_prod_beta Let_def)
  show ?thesis
  proof (cases "eligible_for a req workers = []")
    case True
    with ne have "pr_class req = ''batch''" "batch_slot_limit a \<noteq> None"
      "\<forall>w \<in> set (with_kv_free a (fst (fresh_or_healthy a workers))). the (batch_slot_limit a) \<le> occupied w"
      by (auto simp: eligible_for_def below_batch_cap_def filter_empty_conv not_less split: option.splits if_splits)
    with True pk show ?thesis by simp
  next
    case False
    obtain x r where "pick_policy g a req workers (eligible_for a req workers) = Some (x, r)"
      using pol [of "eligible_for a req workers"] by auto
    with False pk show ?thesis by (simp add: never_intends_hop)
  qed
qed


subsection \<open>Witnesses\<close>

definition demo_rng :: rng where
  "demo_rng = \<lparr>choice = hd, sample = (\<lambda>xs k. take k xs)\<rparr>"

lemma demo_rng_ok: "rng_ok demo_rng"
proof -
  have "mset (take k xs) \<subseteq># mset xs" for k and xs :: "snapshot list"
    by (metis append_take_drop_id mset_append mset_subset_eq_add_left)
  then show ?thesis by (auto simp: rng_ok_def demo_rng_def)
qed

definition demo_args :: pick_args where
  "demo_args = \<lparr>policy = ''prefix_then_load'', stale_after = 5, now_at = 1, rr_index = 0, kv_used_max = 7/10,
     min_kv_free = 1/5, allow_forced = False, spill_queue = 4, batch_slot_limit = Some 24\<rparr>"

definition demo_owner :: snapshot where
  "demo_owner = (new_snapshot \<lparr>wk_id = ''a'', wk_url = ''u''\<rparr> 2)\<lparr>observed_at := Some 0, healthy := True,
     waiting := 5, prefixes := [(''p'', \<lparr>pb_observed_at = 0, pb_tokens = 100\<rparr>)]\<rparr>"

definition demo_other :: snapshot where
  "demo_other = (new_snapshot \<lparr>wk_id = ''b'', wk_url = ''v''\<rparr> 2)\<lparr>observed_at := Some 0, healthy := True\<rparr>"

definition demo_request :: placement_request where
  "demo_request = \<lparr>prefix_id = Some ''p'', pr_est_tokens = 200, pr_class = ''batch'', forced_worker = None\<rparr>"

lemmas demo_defs = demo_args_def demo_request_def demo_rng_def

theorem pick_respects_eligibility_witness:
  "\<exists>d. pick demo_rng demo_request [demo_owner, demo_other] demo_args = Inr d \<and> chosen_worker d = ''b''
     \<and> fallback d = None"
proof -
  have c: "(case pick demo_rng demo_request [demo_owner, demo_other] demo_args of
      Inl _ \<Rightarrow> False | Inr d \<Rightarrow> chosen_worker d = ''b'')" by code_simp
  then obtain d where d: "pick demo_rng demo_request [demo_owner, demo_other] demo_args = Inr d" "chosen_worker d = ''b''"
    by (auto split: sum.splits)
  have n: "\<not> (truthy_str (forced_worker demo_request) \<and> allow_forced demo_args)" by (simp add: demo_defs)
  have "\<exists>w \<in> set [demo_owner, demo_other]. healthy w \<and> \<not> is_stale (stale_after demo_args) (now_at demo_args) w"
    by code_simp
  with pick_respects_eligibility [OF demo_rng_ok n d(1)] d show ?thesis by (metis (no_types, lifting))
qed

theorem owner_left_only_when_saturated_witness:
  "pick_prefix demo_rng demo_args demo_request [demo_owner, demo_other] [demo_owner, demo_other]
     = (demo_other, ''prefix_owner_saturated'') \<and> load demo_other < load demo_owner"
proof -
  have p: "pick_prefix demo_rng demo_args demo_request [demo_owner, demo_other] [demo_owner, demo_other]
     = (demo_other, ''prefix_owner_saturated'')" by code_simp
  have h: "prior_worker_of demo_request [demo_owner, demo_other] = Some ''a''"
    "by_id [demo_owner, demo_other] ''a'' = Some demo_owner" "demo_owner \<noteq> demo_other" by code_simp+
  have "load demo_other < load demo_owner"
    using owner_left_only_when_saturated [OF h(1) _ h(2) _ p] h(3) by simp
  with p show ?thesis by simp
qed

theorem pick_total_witness:
  "policy demo_args \<in> {''round_robin'', ''least_loaded'', ''p2c'', ''prefix_then_load''}
   \<and> (case pick demo_rng demo_request [] demo_args of Inl e \<Rightarrow> e = NoHealthyWorker | Inr d \<Rightarrow> False)"
proof -
  have p: "policy demo_args \<in> {''round_robin'', ''least_loaded'', ''p2c'', ''prefix_then_load''}"
    and n: "\<not> (truthy_str (forced_worker demo_request) \<and> allow_forced demo_args)"
    by (simp_all add: demo_defs)
  have "pick demo_rng demo_request [] demo_args = Inl NoHealthyWorker" by code_simp
  with p pick_total [OF p n, where g = demo_rng and workers = "[]"] show ?thesis by simp
qed

end
