(* ===== verification/Gw_Queue.thy ===== *)
theory Gw_Queue
  imports Prelude
begin

text \<open>
  The per-worker queues with dispatch slots (\<open>services/gateway/queueing.py\<close>). Futures and tickets
  are objects shared by reference: they live in two stores and are named by their index. The
  coroutine \<open>acquire\<close> is split at its one \<open>await\<close> into the part before it (\<open>acquire_start\<close>) and
  the three ways it resumes: with the ticket (\<open>acquire_granted\<close>), on \<open>TimeoutError\<close>
  (\<open>acquire_timeout\<close>) and on \<open>CancelledError\<close> (\<open>acquire_cancelled\<close>). Between the segments any
  other coroutine may run, which is what the step relation below allows.
\<close>

record queue_config =
  max_depth :: int
  max_inflight :: int
  timeout_s :: pyfloat
  aging_gain :: pyfloat
  max_overtakes :: int
  long_prompt_tokens :: int

definition default_queue_config :: queue_config where
  "default_queue_config = \<lparr>max_depth = 64, max_inflight = 32, timeout_s = 10, aging_gain = 1/2,
     max_overtakes = 8, long_prompt_tokens = 2000\<rparr>"

record queue_item =
  qi_class :: string
  qi_est_tokens :: int
  qi_deadline_at :: pyfloat
  qi_enqueued_at :: pyfloat
  passed_over :: int
  fut :: nat

datatype fut_state = FutPending | FutGranted nat | FutCancelled

record ticket =
  t_worker :: string
  wait_s :: pyfloat
  t_done :: bool

record worker_queues =
  q_cfg :: queue_config
  q_waiting :: "string \<Rightarrow> queue_item list"
  q_inflight :: "string \<Rightarrow> int"
  futs :: "fut_state list"
  tickets :: "ticket list"

definition new_queues :: "queue_config \<Rightarrow> worker_queues" where
  "new_queues cfg = \<lparr>q_cfg = cfg, q_waiting = (\<lambda>_. []), q_inflight = (\<lambda>_. 0), futs = [], tickets = []\<rparr>"

definition depth :: "worker_queues \<Rightarrow> string \<Rightarrow> string option \<Rightarrow> int" where
  "depth q w klass = count_if (\<lambda>i. klass = None \<or> klass = Some (qi_class i)) (q_waiting q w)"

text \<open>\<open>WorkerQueues.key\<close>: the tuple the dispatcher minimises.\<close>

definition starved :: "queue_config \<Rightarrow> queue_item \<Rightarrow> bool" where
  "starved cfg i \<longleftrightarrow> passed_over i \<ge> max_overtakes cfg"

definition item_slack :: "queue_config \<Rightarrow> queue_item \<Rightarrow> pyfloat \<Rightarrow> pyfloat" where
  "item_slack cfg i now = (qi_deadline_at i - now) - aging_gain cfg * of_int (passed_over i)"

definition item_key :: "queue_config \<Rightarrow> pyfloat \<Rightarrow> queue_item \<Rightarrow> nat \<times> nat \<times> pyfloat \<times> pyfloat" where
  "item_key cfg now i =
     (if starved cfg i \<or> qi_class i \<noteq> ''batch'' then 0 else 1,
      if starved cfg i \<or> qi_est_tokens i < long_prompt_tokens cfg then 0 else 1,
      item_slack cfg i now, qi_enqueued_at i)"

definition fut_done :: "worker_queues \<Rightarrow> nat \<Rightarrow> bool" where
  "fut_done q f \<longleftrightarrow> futs q ! f \<noteq> FutPending"

definition overtake :: "queue_item \<Rightarrow> queue_item \<Rightarrow> queue_item" where
  "overtake best other = (if qi_enqueued_at other < qi_enqueued_at best
     then other\<lparr>passed_over := passed_over other + 1\<rparr> else other)"

text \<open>Handing the free slot of worker \<open>w\<close> to the waiter \<open>best\<close>, already taken off the list.\<close>

definition grant :: "string \<Rightarrow> queue_item \<Rightarrow> queue_item list \<Rightarrow> worker_queues \<Rightarrow> worker_queues" where
  "grant w best others q = q\<lparr>q_waiting := (q_waiting q)(w := map (overtake best) others),
     q_inflight := (q_inflight q)(w := q_inflight q w + 1),
     tickets := tickets q @ [\<lparr>t_worker = w, wait_s = 0, t_done = False\<rparr>],
     futs := (futs q)[fut best := FutGranted (length (tickets q))]\<rparr>"

text \<open>\<open>_pump\<close>; \<open>clk k\<close> is the clock reading of the \<open>k\<close>-th turn of its loop.\<close>

function pump :: "(nat \<Rightarrow> pyfloat) \<Rightarrow> nat \<Rightarrow> string \<Rightarrow> worker_queues \<Rightarrow> worker_queues" where
  "pump clk k w q =
     (if q_waiting q w = [] \<or> q_inflight q w \<ge> max_inflight (q_cfg q) then q
      else let best = arg_min_list (item_key (q_cfg q) (clk k)) (q_waiting q w);
               others = remove1 best (q_waiting q w)
           in if fut_done q (fut best)
              then pump clk (Suc k) w (q\<lparr>q_waiting := (q_waiting q)(w := others)\<rparr>)
              else pump clk (Suc k) w (grant w best others q))"
  by pat_completeness auto

lemma remove_best_length:
  "q_waiting q w \<noteq> [] \<Longrightarrow> length (remove1 (arg_min_list f (q_waiting q w)) (q_waiting q w)) < length (q_waiting q w)"
  by (simp add: length_remove1 arg_min_list_mem)

termination pump
  by (relation "measure (\<lambda>(clk, k, w, q). length (q_waiting q w))") (auto simp: grant_def remove_best_length)

declare pump.simps [simp del]

definition ticket_live :: "nat \<Rightarrow> worker_queues \<Rightarrow> bool" where
  "ticket_live i q \<longleftrightarrow> i < length (tickets q) \<and> \<not> t_done (tickets q ! i)"

definition free_slot :: "(nat \<Rightarrow> pyfloat) \<Rightarrow> string \<Rightarrow> worker_queues \<Rightarrow> worker_queues" where
  "free_slot clk w q = pump clk 0 w (q\<lparr>q_inflight := (q_inflight q)(w := q_inflight q w - 1)\<rparr>)"

definition release_ticket :: "(nat \<Rightarrow> pyfloat) \<Rightarrow> nat \<Rightarrow> worker_queues \<Rightarrow> worker_queues" where
  "release_ticket clk i q =
     (if ticket_live i q
      then free_slot clk (t_worker (tickets q ! i)) (q\<lparr>tickets := (tickets q)[i := (tickets q ! i)\<lparr>t_done := True\<rparr>]\<rparr>)
      else q)"

text \<open>\<open>AcqWait f t\<close>: the coroutine awaits future \<open>f\<close> for at most \<open>t\<close> seconds.\<close>

datatype acquire_outcome = AcqTicket nat | AcqFull | AcqWait nat pyfloat

definition new_item :: "queue_config \<Rightarrow> string \<Rightarrow> int \<Rightarrow> pyfloat option \<Rightarrow> pyfloat \<Rightarrow> nat \<Rightarrow> queue_item" where
  "new_item cfg cls est deadline now f = \<lparr>qi_class = cls, qi_est_tokens = est,
     qi_deadline_at = (case deadline of Some d \<Rightarrow> d | None \<Rightarrow> now + timeout_s cfg),
     qi_enqueued_at = now, passed_over = 0, fut = f\<rparr>"

definition acquire_start ::
  "string \<Rightarrow> string \<Rightarrow> int \<Rightarrow> pyfloat option \<Rightarrow> pyfloat \<Rightarrow> worker_queues \<Rightarrow> acquire_outcome \<times> worker_queues" where
  "acquire_start w cls est deadline now q =
     (if q_waiting q w = [] \<and> q_inflight q w < max_inflight (q_cfg q)
      then (AcqTicket (length (tickets q)),
            q\<lparr>q_inflight := (q_inflight q)(w := q_inflight q w + 1),
              tickets := tickets q @ [\<lparr>t_worker = w, wait_s = 0, t_done = False\<rparr>]\<rparr>)
      else if int (length (q_waiting q w)) \<ge> max_depth (q_cfg q) then (AcqFull, q)
      else let item = new_item (q_cfg q) cls est deadline now (length (futs q));
               timeout = (case deadline of None \<Rightarrow> timeout_s (q_cfg q)
                          | Some d \<Rightarrow> min (timeout_s (q_cfg q)) (d - now))
           in (AcqWait (length (futs q)) (max timeout 0),
               q\<lparr>q_waiting := (q_waiting q)(w := q_waiting q w @ [item]), futs := futs q @ [FutPending]\<rparr>))"

text \<open>\<open>_remove\<close>: the item is identified by its future.\<close>

definition remove_item :: "string \<Rightarrow> nat \<Rightarrow> worker_queues \<Rightarrow> worker_queues" where
  "remove_item w f q = q\<lparr>q_waiting := (q_waiting q)(w := filter (\<lambda>i. fut i \<noteq> f) (q_waiting q w))\<rparr>"

definition acquire_granted :: "nat \<Rightarrow> pyfloat \<Rightarrow> pyfloat \<Rightarrow> worker_queues \<Rightarrow> worker_queues" where
  "acquire_granted i enq now q = (if i < length (tickets q)
     then q\<lparr>tickets := (tickets q)[i := (tickets q ! i)\<lparr>wait_s := now - enq\<rparr>]\<rparr> else q)"

definition acquire_timeout :: "string \<Rightarrow> nat \<Rightarrow> worker_queues \<Rightarrow> worker_queues" where
  "acquire_timeout w f q = remove_item w f q"

definition acquire_cancelled :: "(nat \<Rightarrow> pyfloat) \<Rightarrow> string \<Rightarrow> nat \<Rightarrow> worker_queues \<Rightarrow> worker_queues" where
  "acquire_cancelled clk w f q =
     remove_item w f (case futs q ! f of FutGranted i \<Rightarrow> release_ticket clk i q | _ \<Rightarrow> q)"

text \<open>A timeout or a cancellation first cancels the awaited future, if it is still pending.\<close>

definition cancel_future :: "nat \<Rightarrow> worker_queues \<Rightarrow> worker_queues" where
  "cancel_future f q = (if f < length (futs q) \<and> futs q ! f = FutPending
     then q\<lparr>futs := (futs q)[f := FutCancelled]\<rparr> else q)"

lemmas queue_defs [gw_defs] =
  grant_def free_slot_def release_ticket_def acquire_start_def remove_item_def acquire_granted_def
  acquire_timeout_def acquire_cancelled_def cancel_future_def

subsection \<open>The invariant of one queue\<close>

definition live_tickets :: "worker_queues \<Rightarrow> string \<Rightarrow> int" where
  "live_tickets q w = count_if (\<lambda>t. t_worker t = w \<and> \<not> t_done t) (tickets q)"

text \<open>Structure: futures of waiters exist, are distinct and not granted; granted futures name tickets.\<close>

definition queue_wf :: "worker_queues \<Rightarrow> bool" where
  "queue_wf q \<longleftrightarrow>
     (\<forall>w. distinct (map fut (q_waiting q w))
        \<and> (\<forall>i \<in> set (q_waiting q w). fut i < length (futs q) \<and> (\<forall>t. futs q ! fut i \<noteq> FutGranted t)
             \<and> 0 \<le> passed_over i))
     \<and> (\<forall>v w i j. v \<noteq> w \<longrightarrow> i \<in> set (q_waiting q v) \<longrightarrow> j \<in> set (q_waiting q w) \<longrightarrow> fut i \<noteq> fut j)
     \<and> (\<forall>f t. f < length (futs q) \<longrightarrow> futs q ! f = FutGranted t \<longrightarrow> t < length (tickets q))
     \<and> (\<forall>w. q_inflight q w = live_tickets q w)"

text \<open>Bounds, and no slot idle while somebody waits.\<close>

definition queue_bounded :: "worker_queues \<Rightarrow> string \<Rightarrow> bool" where
  "queue_bounded q w \<longleftrightarrow> q_inflight q w \<le> max 0 (max_inflight (q_cfg q))
     \<and> int (length (q_waiting q w)) \<le> max 0 (max_depth (q_cfg q))"

definition work_conserving :: "worker_queues \<Rightarrow> string \<Rightarrow> bool" where
  "work_conserving q w \<longleftrightarrow> (q_waiting q w \<noteq> [] \<longrightarrow> q_inflight q w \<ge> max_inflight (q_cfg q))"

definition queue_ok :: "worker_queues \<Rightarrow> bool" where
  "queue_ok q \<longleftrightarrow> queue_wf q \<and> (\<forall>w. queue_bounded q w \<and> work_conserving q w)"

lemma overtake_fut [simp]: "fut (overtake b i) = fut i"
  by (simp add: overtake_def)

lemma map_fut_overtake [simp]: "map fut (map (overtake b) xs) = map fut xs"
  by (simp add: comp_def)

lemma wf_drop:
  assumes "queue_wf q"
  shows "queue_wf (q\<lparr>q_waiting := (q_waiting q)(w := remove1 b (q_waiting q w))\<rparr>)"
proof -
  have "set (remove1 b (q_waiting q w)) \<subseteq> set (q_waiting q w)" by (rule set_remove1_subset)
  moreover have "distinct (map fut (remove1 b (q_waiting q w)))"
    using assms by (auto simp: queue_wf_def intro: distinct_map_remove1)
  ultimately show ?thesis
    using assms unfolding queue_wf_def live_tickets_def by (auto 4 4)
qed

lemma wf_grant:
  assumes "queue_wf q" "b \<in> set (q_waiting q w)"
  shows "queue_wf (grant w b (remove1 b (q_waiting q w)) q)"
proof -
  let ?ws = "q_waiting q w" and ?o = "remove1 b (q_waiting q w)" and ?q = "grant w b (remove1 b (q_waiting q w)) q"
  have wf: "distinct (map fut ?ws)" "\<And>v i. i \<in> set (q_waiting q v) \<Longrightarrow> fut i < length (futs q)"
    "\<And>v i t. i \<in> set (q_waiting q v) \<Longrightarrow> futs q ! fut i \<noteq> FutGranted t"
    "\<And>v i. i \<in> set (q_waiting q v) \<Longrightarrow> 0 \<le> passed_over i"
    "\<And>v u i j. v \<noteq> u \<Longrightarrow> i \<in> set (q_waiting q v) \<Longrightarrow> j \<in> set (q_waiting q u) \<Longrightarrow> fut i \<noteq> fut j"
    "\<And>f t. f < length (futs q) \<Longrightarrow> futs q ! f = FutGranted t \<Longrightarrow> t < length (tickets q)"
    "\<And>v. q_inflight q v = live_tickets q v" "\<And>v. distinct (map fut (q_waiting q v))"
    using assms(1) unfolding queue_wf_def by blast+
  have sub: "set ?o \<subseteq> set ?ws" by (rule set_remove1_subset)
  have ne: "i \<in> set ?o \<Longrightarrow> fut i \<noteq> fut b" for i
  proof -
    assume "i \<in> set ?o"
    moreover have "distinct ?ws" using wf(1) by (simp add: distinct_map)
    ultimately have "i \<noteq> b" "i \<in> set ?ws" by auto
    with wf(1) assms(2) show ?thesis by (auto simp: distinct_map dest: inj_onD)
  qed
  have other: "j \<in> set (q_waiting q v) \<Longrightarrow> v \<noteq> w \<Longrightarrow> fut j \<noteq> fut b" for j v
    using wf(5) assms(2) by blast
  have d: "distinct (map fut ?o)"
    using wf(1) by (rule distinct_map_remove1)
  have bf: "fut b < length (futs q)" using wf(2) assms(2) by blast
  have it: "i \<in> set (q_waiting ?q v) \<Longrightarrow>
      \<exists>j \<in> set (q_waiting q v). fut i = fut j \<and> fut j \<noteq> fut b \<and> passed_over j \<le> passed_over i" for i v
    using sub ne other by (fastforce simp: grant_def overtake_def split: if_splits)
  show ?thesis
    unfolding queue_wf_def
  proof (intro conjI allI ballI impI)
    fix v show "distinct (map fut (q_waiting ?q v))" using d wf(8) by (simp add: grant_def comp_def)
  next
    fix v i assume "i \<in> set (q_waiting ?q v)"
    from it [OF this] obtain j where j: "j \<in> set (q_waiting q v)" "fut i = fut j" "fut j \<noteq> fut b" "passed_over j \<le> passed_over i" by blast
    show "fut i < length (futs ?q)" using j wf(2) by (simp add: grant_def)
    show "futs ?q ! fut i \<noteq> FutGranted t" for t using j wf(3) by (simp add: grant_def)
    show "0 \<le> passed_over i" using j wf(4) by force
  next
    fix v u i j assume "v \<noteq> u" "i \<in> set (q_waiting ?q v)" "j \<in> set (q_waiting ?q u)"
    then show "fut i \<noteq> fut j" using it wf(5) by metis
  next
    fix f t assume "f < length (futs ?q)" "futs ?q ! f = FutGranted t"
    then show "t < length (tickets ?q)"
      using wf(6) [of f t] by (cases "f = fut b") (auto simp: grant_def)
  next
    fix v show "q_inflight ?q v = live_tickets ?q v"
      using wf(7) [of v] by (auto simp: grant_def live_tickets_def)
  qed
qed


lemma grant_frame [simp]:
  "q_cfg (grant w b os q) = q_cfg q" "v \<noteq> w \<Longrightarrow> q_waiting (grant w b os q) v = q_waiting q v"
  "v \<noteq> w \<Longrightarrow> q_inflight (grant w b os q) v = q_inflight q v"
  "q_inflight (grant w b os q) w = q_inflight q w + 1" "length (q_waiting (grant w b os q) w) = length os"
  "length (futs (grant w b os q)) = length (futs q)"
  "tickets (grant w b os q) = tickets q @ [\<lparr>t_worker = w, wait_s = 0, t_done = False\<rparr>]"
  by (simp_all add: grant_def)

subsection \<open>The pump\<close>

text \<open>One turn of the loop, with the waiter it picked.\<close>

lemma pump_rec:
  fixes clk :: "nat \<Rightarrow> pyfloat" and k :: nat
  assumes "q_waiting q w \<noteq> []" "q_inflight q w < max_inflight (q_cfg q)"
  defines "b \<equiv> arg_min_list (item_key (q_cfg q) (clk k)) (q_waiting q w)"
  shows "pump clk k w q = pump clk (Suc k) w
     (if fut_done q (fut b) then q\<lparr>q_waiting := (q_waiting q)(w := remove1 b (q_waiting q w))\<rparr>
      else grant w b (remove1 b (q_waiting q w)) q)"
  using assms by (subst pump.simps) (simp add: Let_def)

lemma pump_stop: "q_waiting q w = [] \<or> q_inflight q w \<ge> max_inflight (q_cfg q) \<Longrightarrow> pump clk k w q = q"
  by (subst pump.simps) auto

text \<open>A property of states that every turn keeps is kept by the whole loop.\<close>

lemma pump_invariant:
  assumes "P q"
    and drop: "\<And>q b. P q \<Longrightarrow> b \<in> set (q_waiting q w) \<Longrightarrow> fut_done q (fut b) \<Longrightarrow>
        P (q\<lparr>q_waiting := (q_waiting q)(w := remove1 b (q_waiting q w))\<rparr>)"
    and give: "\<And>q b. P q \<Longrightarrow> b \<in> set (q_waiting q w) \<Longrightarrow> q_inflight q w < max_inflight (q_cfg q) \<Longrightarrow>
        \<not> fut_done q (fut b) \<Longrightarrow> P (grant w b (remove1 b (q_waiting q w)) q)"
  shows "P (pump clk k w q)"
  using assms(1)
proof (induction "length (q_waiting q w)" arbitrary: k q rule: less_induct)
  case less
  show ?case
  proof (cases "q_waiting q w = [] \<or> q_inflight q w \<ge> max_inflight (q_cfg q)")
    case True
    with less.prems show ?thesis by (simp add: pump_stop)
  next
    case False
    let ?b = "arg_min_list (item_key (q_cfg q) (clk k)) (q_waiting q w)"
    let ?q = "if fut_done q (fut ?b) then q\<lparr>q_waiting := (q_waiting q)(w := remove1 ?b (q_waiting q w))\<rparr>
      else grant w ?b (remove1 ?b (q_waiting q w)) q"
    have m: "?b \<in> set (q_waiting q w)" using False by (intro arg_min_list_mem) simp
    have "P ?q" using less.prems m False by (auto intro: drop give)
    moreover have "length (q_waiting ?q w) < length (q_waiting q w)"
      using False by (simp add: remove_best_length)
    ultimately have "P (pump clk (Suc k) w ?q)" by (rule less.hyps [rotated])
    moreover have "pump clk k w q = pump clk (Suc k) w ?q" using False by (intro pump_rec) auto
    ultimately show ?thesis by simp
  qed
qed

lemma pump_wf: "queue_wf q \<Longrightarrow> queue_wf (pump clk k w q)"
  by (rule pump_invariant) (auto intro: wf_drop wf_grant)

lemma pump_cfg [simp]: "q_cfg (pump clk k w q) = q_cfg q"
  by (rule pump_invariant [where P = "\<lambda>x. q_cfg x = q_cfg q"]) auto

lemma pump_other:
  assumes "v \<noteq> w"
  shows "q_waiting (pump clk k w q) v = q_waiting q v \<and> q_inflight (pump clk k w q) v = q_inflight q v"
  by (rule pump_invariant [where P = "\<lambda>x. q_waiting x v = q_waiting q v \<and> q_inflight x v = q_inflight q v"])
    (use assms in auto)

lemma pump_shrinks: "length (q_waiting (pump clk k w q) w) \<le> length (q_waiting q w)"
  by (rule pump_invariant [where P = "\<lambda>x. length (q_waiting x w) \<le> length (q_waiting q w)"])
    (auto simp: length_remove1)

lemma pump_capped:
  "q_inflight q w \<le> max 0 (max_inflight (q_cfg q)) \<Longrightarrow>
     q_inflight (pump clk k w q) w \<le> max 0 (max_inflight (q_cfg q))"
  by (rule pump_invariant [where P = "\<lambda>x. q_cfg x = q_cfg q \<and> q_inflight x w \<le> max 0 (max_inflight (q_cfg q))",
        THEN conjunct2]) auto

lemma pump_futs_length: "length (futs (pump clk k w q)) = length (futs q)"
  by (rule pump_invariant [where P = "\<lambda>x. length (futs x) = length (futs q)"]) auto

lemma pump_tickets: "\<exists>ts. tickets (pump clk k w q) = tickets q @ ts \<and> (\<forall>t \<in> set ts. \<not> t_done t)"
proof (rule pump_invariant [where P = "\<lambda>x. \<exists>ts. tickets x = tickets q @ ts \<and> (\<forall>t \<in> set ts. \<not> t_done t)"])
  fix q' :: worker_queues and b
  assume "\<exists>ts. tickets q' = tickets q @ ts \<and> (\<forall>t \<in> set ts. \<not> t_done t)"
  then obtain ts where "tickets q' = tickets q @ ts" "\<forall>t \<in> set ts. \<not> t_done t" by blast
  then show "\<exists>ts. tickets (grant w b (remove1 b (q_waiting q' w)) q') = tickets q @ ts \<and> (\<forall>t \<in> set ts. \<not> t_done t)"
    by (intro exI [of _ "ts @ [\<lparr>t_worker = w, wait_s = 0, t_done = False\<rparr>]"]) auto
qed auto

text \<open>When the pump stops, nobody waits or no slot is free.\<close>

lemma pump_conserving: "work_conserving (pump clk k w q) w"
proof (induction clk k w q rule: pump.induct)
  case (1 clk k w q)
  show ?case
  proof (cases "q_waiting q w = [] \<or> q_inflight q w \<ge> max_inflight (q_cfg q)")
    case True
    then show ?thesis by (auto simp: pump_stop work_conserving_def)
  next
    case False
    then show ?thesis
      using "1.IH" [OF _ refl refl] by (subst pump_rec) auto
  qed
qed

text \<open>
  The choice of the dispatcher does not depend on the clock reading it takes: the slack of every
  waiter shrinks alike, so the waiter chosen is the same at every instant.
\<close>

theorem dispatch_order_clock_independent:
  assumes "ws \<noteq> []"
  shows "arg_min_list (item_key cfg t1) ws = arg_min_list (item_key cfg t2) ws"
  using assms
proof (rule arg_min_list_shift)
  fix x y
  show "item_key cfg t1 x \<le> item_key cfg t1 y \<longleftrightarrow> item_key cfg t2 x \<le> item_key cfg t2 y"
    by (auto simp: item_key_def item_slack_def less_eq_prod_def)
qed


subsection \<open>Every operation keeps the invariant\<close>

lemma pump_live_mono: "ticket_live i q \<Longrightarrow> ticket_live i (pump clk k w q)"
  using pump_tickets [of clk k w q] by (auto simp: ticket_live_def nth_append)

lemma pump_dead_mono: "i < length (tickets q) \<Longrightarrow> \<not> ticket_live i q \<Longrightarrow> \<not> ticket_live i (pump clk k w q)"
  using pump_tickets [of clk k w q] by (auto simp: ticket_live_def nth_append)

text \<open>A dispatch ticket is an object with an idempotent release.\<close>

interpretation ticket_once: once_release "release_ticket clk" ticket_live for clk
proof
  fix i j and s :: worker_queues
  show "\<not> ticket_live i s \<Longrightarrow> release_ticket clk i s = s"
    by (simp add: release_ticket_def)
  show "\<not> ticket_live i (release_ticket clk i s)"
  proof (cases "ticket_live i s")
    case True
    then show ?thesis
      unfolding release_ticket_def free_slot_def
      by simp (rule pump_dead_mono, auto simp: ticket_live_def)
  qed (simp add: release_ticket_def)
  show "j \<noteq> i \<Longrightarrow> ticket_live j s \<Longrightarrow> ticket_live j (release_ticket clk i s)"
    by (auto simp: release_ticket_def free_slot_def ticket_live_def intro!: pump_live_mono [unfolded ticket_live_def])
qed

lemma free_slot_ok:
  assumes "queue_ok q" "ticket_live i q" "w = t_worker (tickets q ! i)"
  defines "q' \<equiv> q\<lparr>tickets := (tickets q)[i := (tickets q ! i)\<lparr>t_done := True\<rparr>]\<rparr>"
  shows "queue_ok (free_slot clk w q')"
proof -
  let ?p = "q'\<lparr>q_inflight := (q_inflight q')(w := q_inflight q' w - 1)\<rparr>"
  have wf: "queue_wf ?p"
    using assms(1,2) unfolding queue_ok_def queue_wf_def ticket_live_def live_tickets_def q'_def
    by (auto simp: count_if_list_update assms(3))
  have f: "free_slot clk w q' = pump clk 0 w ?p" by (simp add: free_slot_def)
  have b: "queue_bounded q v" "work_conserving q v" for v using assms(1) by (auto simp: queue_ok_def)
  have "queue_bounded (pump clk 0 w ?p) v \<and> work_conserving (pump clk 0 w ?p) v" for v
  proof (cases "v = w")
    case True
    have "q_inflight ?p w \<le> max 0 (max_inflight (q_cfg ?p))"
      using b(1) [of w] by (simp add: queue_bounded_def q'_def)
    from pump_capped [OF this] show ?thesis
      using True b(1) [of w] pump_shrinks [of clk 0 w ?p] pump_conserving [of clk 0 w ?p]
      by (simp add: queue_bounded_def q'_def)
  next
    case False
    then show ?thesis
      using b [of v] pump_other [OF False, of clk 0 ?p] by (simp add: queue_bounded_def work_conserving_def q'_def)
  qed
  then show ?thesis using pump_wf [OF wf] by (simp add: queue_ok_def f)
qed

lemma release_ticket_ok: "queue_ok q \<Longrightarrow> queue_ok (release_ticket clk i q)"
  by (simp add: release_ticket_def free_slot_ok)

lemma remove_item_ok: "queue_ok q \<Longrightarrow> queue_ok (remove_item w f q)"
proof -
  assume q: "queue_ok q"
  let ?xs = "filter (\<lambda>i. fut i \<noteq> f) (q_waiting q w)"
  have "distinct (map fut ?xs)"
    using q by (auto simp: queue_ok_def queue_wf_def distinct_map_filter)
  then have wf: "queue_wf (remove_item w f q)"
    using q unfolding queue_ok_def queue_wf_def live_tickets_def remove_item_def by (auto 4 4)
  have len: "int (length (q_waiting q w)) \<le> n \<Longrightarrow> int (length ?xs) \<le> n" for n
    using length_filter_le [of "\<lambda>i. fut i \<noteq> f" "q_waiting q w"] by linarith
  have "queue_bounded (remove_item w f q) v \<and> work_conserving (remove_item w f q) v" for v
    using q by (cases "v = w") (auto simp: queue_ok_def queue_bounded_def work_conserving_def remove_item_def
      intro: len dest!: spec [of _ v] split: if_splits)
  then show ?thesis using wf by (simp add: queue_ok_def)
qed

lemma cancel_future_ok: "queue_ok q \<Longrightarrow> queue_ok (cancel_future f q)"
  by (simp add: queue_ok_def queue_wf_def queue_bounded_def work_conserving_def live_tickets_def cancel_future_def
      nth_list_update) auto

lemma acquire_granted_ok: "queue_ok q \<Longrightarrow> queue_ok (acquire_granted i enq now q)"
  by (simp add: queue_ok_def queue_wf_def queue_bounded_def work_conserving_def live_tickets_def acquire_granted_def
      count_if_list_update) auto

lemma acquire_start_ok:
  assumes "queue_ok q"
  shows "queue_ok (snd (acquire_start w cls est dl now q))"
proof -
  consider (slot) "q_waiting q w = []" "q_inflight q w < max_inflight (q_cfg q)"
    | (full) "\<not> (q_waiting q w = [] \<and> q_inflight q w < max_inflight (q_cfg q))" "int (length (q_waiting q w)) \<ge> max_depth (q_cfg q)"
    | (wait) "\<not> (q_waiting q w = [] \<and> q_inflight q w < max_inflight (q_cfg q))" "int (length (q_waiting q w)) < max_depth (q_cfg q)"
    by linarith
  then show ?thesis
  proof cases
    case slot
    then show ?thesis
      using assms unfolding queue_ok_def queue_wf_def queue_bounded_def work_conserving_def live_tickets_def acquire_start_def
      by (fastforce simp: less_Suc_eq)
  next
    case full
    then show ?thesis using assms by (auto simp: acquire_start_def)
  next
    case wait
    let ?q = "snd (acquire_start w cls est dl now q)"
    define it where "it = new_item (q_cfg q) cls est dl now (length (futs q))"
    have it: "fut it = length (futs q)" "passed_over it = 0" by (simp_all add: it_def new_item_def)
    have q': "?q = q\<lparr>q_waiting := (q_waiting q)(w := q_waiting q w @ [it]), futs := futs q @ [FutPending]\<rparr>"
      using wait by (auto simp: acquire_start_def Let_def it_def)
    have lt: "i \<in> set (q_waiting q v) \<Longrightarrow> fut i < length (futs q)" for i v
      using assms by (auto simp: queue_ok_def queue_wf_def)
    have wf: "queue_wf q" using assms by (simp add: queue_ok_def)
    have "queue_wf ?q"
      unfolding queue_wf_def
    proof (intro conjI allI ballI impI)
      fix v show "distinct (map fut (q_waiting ?q v))"
        using wf by (auto simp: q' it queue_wf_def dest: lt)
    next
      fix v i assume i: "i \<in> set (q_waiting ?q v)"
      then have o: "i = it \<or> i \<in> set (q_waiting q v)" by (auto simp: q' split: if_splits)
      show "fut i < length (futs ?q)" using o lt [of i v] by (auto simp: q' it)
      show "futs ?q ! fut i \<noteq> FutGranted t" for t
        using o lt [of i v] wf by (auto simp: q' it nth_append queue_wf_def)
      show "0 \<le> passed_over i" using o wf by (auto simp: it queue_wf_def)
    next
      fix v u i j assume "v \<noteq> u" "i \<in> set (q_waiting ?q v)" "j \<in> set (q_waiting ?q u)"
      then show "fut i \<noteq> fut j"
        using wf by (fastforce simp: q' it queue_wf_def dest: lt split: if_splits)
    next
      fix f t assume "f < length (futs ?q)" "futs ?q ! f = FutGranted t"
      then show "t < length (tickets ?q)"
        using wf by (auto simp: q' nth_append queue_wf_def less_Suc_eq split: if_splits)
    next
      fix v show "q_inflight ?q v = live_tickets ?q v" using wf by (simp add: q' queue_wf_def live_tickets_def)
    qed
    moreover have "queue_bounded ?q v \<and> work_conserving ?q v" for v
      using assms wait by (auto simp: q' queue_ok_def queue_bounded_def work_conserving_def)
    ultimately show ?thesis by (simp add: queue_ok_def)
  qed
qed

lemma acquire_cancelled_ok: "queue_ok q \<Longrightarrow> queue_ok (acquire_cancelled clk w f q)"
  by (auto simp: acquire_cancelled_def intro!: remove_item_ok release_ticket_ok split: fut_state.splits)


subsection \<open>All interleavings of the callers\<close>

text \<open>
  The state of the event loop around the queues: the tickets in the hands of callers and the
  futures some \<open>acquire\<close> still awaits, with the worker it waits for.
\<close>

record queue_sys =
  qs_q :: worker_queues
  qs_held :: "nat set"
  qs_await :: "nat \<Rightarrow> string option"

text \<open>
  \<open>strict\<close> leaves out one schedule: a timer that fires in the loop iteration in which the slot was
  granted, before the waiter resumes. Then \<open>wait_for\<close> raises \<open>TimeoutError\<close> although the future
  holds a ticket.
\<close>

inductive qs_step :: "bool \<Rightarrow> queue_sys \<Rightarrow> queue_sys \<Rightarrow> bool" for strict where
  qs_call: "acquire_start w cls est dl now (qs_q s) = (out, q) \<Longrightarrow>
    qs_step strict s \<lparr>qs_q = q,
      qs_held = (case out of AcqTicket i \<Rightarrow> insert i (qs_held s) | _ \<Rightarrow> qs_held s),
      qs_await = (case out of AcqWait f _ \<Rightarrow> (qs_await s)(f \<mapsto> w) | _ \<Rightarrow> qs_await s)\<rparr>"
| qs_release: "i \<in> qs_held s \<Longrightarrow>
    qs_step strict s (s\<lparr>qs_q := release_ticket clk i (qs_q s), qs_held := qs_held s - {i}\<rparr>)"
| qs_timer: "qs_await s f = Some w \<Longrightarrow> qs_step strict s (s\<lparr>qs_q := cancel_future f (qs_q s)\<rparr>)"
| qs_granted: "qs_await s f = Some w \<Longrightarrow> futs (qs_q s) ! f = FutGranted i \<Longrightarrow>
    qs_step strict s (s\<lparr>qs_q := acquire_granted i enq now (qs_q s), qs_held := insert i (qs_held s),
      qs_await := (qs_await s)(f := None)\<rparr>)"
| qs_timeout: "qs_await s f = Some w \<Longrightarrow> futs (qs_q s) ! f \<noteq> FutPending \<Longrightarrow>
    strict \<longrightarrow> futs (qs_q s) ! f = FutCancelled \<Longrightarrow>
    qs_step strict s (s\<lparr>qs_q := acquire_timeout w f (qs_q s), qs_await := (qs_await s)(f := None)\<rparr>)"
| qs_cancelled: "qs_await s f = Some w \<Longrightarrow> futs (qs_q s) ! f \<noteq> FutPending \<Longrightarrow>
    qs_step strict s (s\<lparr>qs_q := acquire_cancelled clk w f (qs_q s), qs_await := (qs_await s)(f := None)\<rparr>)"

definition qs_init :: "queue_config \<Rightarrow> queue_sys \<Rightarrow> bool" where
  "qs_init cfg s \<longleftrightarrow> s = \<lparr>qs_q = new_queues cfg, qs_held = {}, qs_await = (\<lambda>_. None)\<rparr>"

lemma new_queues_ok: "queue_ok (new_queues cfg)"
  by (simp add: queue_ok_def queue_wf_def queue_bounded_def work_conserving_def live_tickets_def new_queues_def)

lemma qs_step_ok:
  assumes "queue_ok (qs_q s)" "qs_step strict s t"
  shows "queue_ok (qs_q t)"
  using assms(2,1)
proof cases
  case (qs_call w cls est dl now out q)
  then show ?thesis using acquire_start_ok [OF assms(1), of w cls est dl now] by simp
qed (simp_all add: release_ticket_ok cancel_future_ok acquire_granted_ok acquire_cancelled_ok acquire_timeout_def remove_item_ok)

lemma release_cfg [simp]: "q_cfg (release_ticket clk i q) = q_cfg q"
  by (simp add: release_ticket_def free_slot_def)

lemma qs_step_cfg: "qs_step strict s t \<Longrightarrow> q_cfg (qs_q t) = q_cfg (qs_q s)"
  by (induction rule: qs_step.induct)
    (auto simp: acquire_start_def Let_def cancel_future_def acquire_granted_def acquire_timeout_def remove_item_def
      acquire_cancelled_def split: if_splits fut_state.splits)

interpretation queue_sys_ok: inv_system "qs_init cfg" "qs_step strict" "\<lambda>s. q_cfg (qs_q s) = cfg \<and> queue_ok (qs_q s)"
  for cfg strict
  by unfold_locales (auto simp: qs_init_def new_queues_ok qs_step_cfg qs_step_ok, simp add: new_queues_def)


subsection \<open>Who holds a slot\<close>

definition promised :: "worker_queues \<Rightarrow> (nat \<Rightarrow> string option) \<Rightarrow> nat \<Rightarrow> nat \<Rightarrow> bool" where
  "promised q aw f t \<longleftrightarrow> aw f \<noteq> None \<and> futs q ! f = FutGranted t"

text \<open>Every ticket a caller holds is live, a ticket promised to a waiter is live and nobody else's.\<close>

definition slots_owned :: "worker_queues \<Rightarrow> nat set \<Rightarrow> (nat \<Rightarrow> string option) \<Rightarrow> bool" where
  "slots_owned q held aw \<longleftrightarrow>
     (\<forall>w. \<forall>i \<in> set (q_waiting q w). aw (fut i) = Some w) \<and> (\<forall>f. aw f \<noteq> None \<longrightarrow> f < length (futs q))
     \<and> (\<forall>i \<in> held. ticket_live i q) \<and> (\<forall>f t. promised q aw f t \<longrightarrow> ticket_live t q \<and> t \<notin> held)
     \<and> (\<forall>f g t. promised q aw f t \<longrightarrow> promised q aw g t \<longrightarrow> f = g)"

definition none_lost :: "worker_queues \<Rightarrow> nat set \<Rightarrow> (nat \<Rightarrow> string option) \<Rightarrow> bool" where
  "none_lost q held aw \<longleftrightarrow> (\<forall>i. ticket_live i q \<longrightarrow> i \<in> held \<or> (\<exists>f. promised q aw f i))"

lemma grant_live [simp]:
  "ticket_live i (grant w b os q) \<longleftrightarrow> ticket_live i q \<or> i = length (tickets q)"
  by (auto simp: grant_def ticket_live_def nth_append)

lemma grant_promised:
  assumes "fut b < length (futs q)"
  shows "promised (grant w b os q) aw f t \<longleftrightarrow>
     (if f = fut b then aw f \<noteq> None \<and> t = length (tickets q) else promised q aw f t)"
  using assms by (auto simp: grant_def promised_def)

lemma live_lt: "ticket_live i q \<Longrightarrow> i < length (tickets q)"
  by (simp add: ticket_live_def)

lemma owned_drop: "slots_owned q held aw \<Longrightarrow>
    slots_owned (q\<lparr>q_waiting := (q_waiting q)(w := remove1 b (q_waiting q w))\<rparr>) held aw"
  using set_remove1_subset [of b "q_waiting q w"]
  by (auto simp: slots_owned_def promised_def ticket_live_def)

lemma owned_grant:
  assumes "slots_owned q held aw" "b \<in> set (q_waiting q w)"
  shows "slots_owned (grant w b (remove1 b (q_waiting q w)) q) held aw"
proof -
  have bf: "fut b < length (futs q)" using assms by (auto simp: slots_owned_def)
  have fresh: "length (tickets q) \<notin> held" "\<And>f. \<not> promised q aw f (length (tickets q))"
    using assms(1) unfolding slots_owned_def by (metis live_lt less_irrefl)+
  have aw: "i \<in> set (q_waiting (grant w b (remove1 b (q_waiting q w)) q) v) \<Longrightarrow> aw (fut i) = Some v" for i v
    using assms(1) set_remove1_subset [of b "q_waiting q w"]
    by (auto simp: slots_owned_def grant_def split: if_splits)
  show ?thesis
    using assms(1) fresh aw by (auto simp: slots_owned_def grant_promised [OF bf] split: if_splits)
qed

lemma pump_owned: "slots_owned q held aw \<Longrightarrow> slots_owned (pump clk k w q) held aw"
  by (rule pump_invariant) (auto intro: owned_drop owned_grant)

lemma pump_none_lost:
  assumes "queue_wf q" "slots_owned q held aw" "none_lost q held aw"
  shows "none_lost (pump clk k w q) held aw"
proof -
  have "queue_wf (pump clk k w q) \<and> slots_owned (pump clk k w q) held aw \<and> none_lost (pump clk k w q) held aw"
  proof (rule pump_invariant)
    fix q b assume P: "queue_wf q \<and> slots_owned q held aw \<and> none_lost q held aw" and b: "b \<in> set (q_waiting q w)"
    let ?d = "q\<lparr>q_waiting := (q_waiting q)(w := remove1 b (q_waiting q w))\<rparr>"
    let ?g = "grant w b (remove1 b (q_waiting q w)) q"
    show "queue_wf ?d \<and> slots_owned ?d held aw \<and> none_lost ?d held aw"
      using P wf_drop owned_drop by (auto simp: none_lost_def promised_def ticket_live_def)
    have bf: "fut b < length (futs q)" "aw (fut b) = Some w" "\<And>t. \<not> promised q aw (fut b) t"
      using P b by (auto simp: slots_owned_def queue_wf_def promised_def)
    have "none_lost ?g held aw"
      unfolding none_lost_def grant_live grant_promised [OF bf(1)]
      using P bf(2,3) unfolding none_lost_def by (metis option.distinct(1))
    then show "queue_wf ?g \<and> slots_owned ?g held aw \<and> none_lost ?g held aw"
      using P b by (auto intro: wf_grant owned_grant)
  qed (use assms in auto)
  then show ?thesis by blast
qed


text \<open>Giving a ticket back: it may only be one that no waiter is still promised.\<close>

lemma release_owned:
  assumes "slots_owned q held aw" "\<And>f. \<not> promised q aw f i"
  shows "slots_owned (release_ticket clk i q) (held - {i}) aw"
proof (cases "ticket_live i q")
  case True
  let ?q = "q\<lparr>tickets := (tickets q)[i := (tickets q ! i)\<lparr>t_done := True\<rparr>],
    q_inflight := (q_inflight q)(t_worker (tickets q ! i) := q_inflight q (t_worker (tickets q ! i)) - 1)\<rparr>"
  have live: "ticket_live j ?q \<longleftrightarrow> ticket_live j q \<and> j \<noteq> i" for j
    using True by (auto simp: ticket_live_def nth_list_update)
  have "promised ?q aw = promised q aw" by (simp add: promised_def fun_eq_iff)
  then have "slots_owned ?q (held - {i}) aw"
    using assms unfolding slots_owned_def live by auto
  from pump_owned [OF this] True show ?thesis by (simp add: release_ticket_def free_slot_def)
next
  case False
  then show ?thesis using assms(1) by (auto simp: release_ticket_def slots_owned_def)
qed

lemma release_none_lost:
  assumes "queue_wf q" "slots_owned q held aw" "\<And>f. \<not> promised q aw f i"
    "\<And>j. ticket_live j q \<Longrightarrow> j \<noteq> i \<Longrightarrow> j \<in> held \<or> (\<exists>f. promised q aw f j)"
  shows "none_lost (release_ticket clk i q) (held - {i}) aw"
proof (cases "ticket_live i q")
  case True
  let ?q = "q\<lparr>tickets := (tickets q)[i := (tickets q ! i)\<lparr>t_done := True\<rparr>],
    q_inflight := (q_inflight q)(t_worker (tickets q ! i) := q_inflight q (t_worker (tickets q ! i)) - 1)\<rparr>"
  have live: "ticket_live j ?q \<longleftrightarrow> ticket_live j q \<and> j \<noteq> i" for j
    using True by (auto simp: ticket_live_def nth_list_update)
  have p: "promised ?q aw = promised q aw" by (simp add: promised_def fun_eq_iff)
  have "queue_wf ?q"
    using assms(1) True unfolding queue_wf_def live_tickets_def ticket_live_def by (auto simp: count_if_list_update)
  moreover have "slots_owned ?q (held - {i}) aw"
    using assms(2,3) p unfolding slots_owned_def live by auto
  moreover have "none_lost ?q (held - {i}) aw"
    using assms(4) unfolding none_lost_def live p by auto
  ultimately show ?thesis using True pump_none_lost by (simp add: release_ticket_def free_slot_def)
next
  case False
  then show ?thesis using assms(4) by (auto simp: release_ticket_def none_lost_def)
qed

text \<open>A waiter that stops waiting: it is no longer on the list, or is taken off it.\<close>

lemma owned_forget:
  assumes "slots_owned q held aw" "\<And>v i. i \<in> set (q_waiting q v) \<Longrightarrow> fut i \<noteq> f"
  shows "slots_owned q held (aw(f := None))"
  using assms unfolding slots_owned_def promised_def by (auto split: if_splits)

lemma owned_remove: "slots_owned q held aw \<Longrightarrow> slots_owned (remove_item w f q) held aw"
  unfolding slots_owned_def promised_def ticket_live_def remove_item_def by auto

lemma remove_item_gone:
  assumes "slots_owned q held aw" "aw f = Some w" "i \<in> set (q_waiting (remove_item w f q) v)"
  shows "fut i \<noteq> f"
proof
  assume "fut i = f"
  moreover have "i \<in> set (q_waiting q v)" using assms(3) by (auto simp: remove_item_def split: if_splits)
  ultimately have "v = w" using assms(1,2) by (auto simp: slots_owned_def)
  with assms(3) \<open>fut i = f\<close> show False by (simp add: remove_item_def)
qed

lemma remove_item_absent: "(\<And>i. i \<in> set (q_waiting q w) \<Longrightarrow> fut i \<noteq> f) \<Longrightarrow> remove_item w f q = q"
  by (cases q) (simp add: remove_item_def)

lemma none_lost_frame: "tickets q' = tickets q \<Longrightarrow> futs q' = futs q \<Longrightarrow> none_lost q' = none_lost q"
  by (simp add: none_lost_def promised_def ticket_live_def fun_eq_iff)


lemma none_lost_forget:
  assumes "none_lost q held aw" "\<And>t. futs q ! f = FutGranted t \<Longrightarrow> t \<in> held'" "held \<subseteq> held'"
  shows "none_lost q held' (aw(f := None))"
  using assms unfolding none_lost_def promised_def by (metis fun_upd_other subset_iff)

lemma none_lost_remove: "none_lost (remove_item w f q) = none_lost q"
  by (rule none_lost_frame) (simp_all add: remove_item_def)

definition qs_inv :: "bool \<Rightarrow> queue_sys \<Rightarrow> bool" where
  "qs_inv strict s \<longleftrightarrow> queue_ok (qs_q s) \<and> slots_owned (qs_q s) (qs_held s) (qs_await s)
     \<and> (strict \<longrightarrow> none_lost (qs_q s) (qs_held s) (qs_await s))"

lemma new_ticket_inv:
  assumes "slots_owned q held aw"
    and q': "q' = q\<lparr>q_inflight := n, tickets := tickets q @ [\<lparr>t_worker = w, wait_s = 0, t_done = False\<rparr>]\<rparr>"
  shows "slots_owned q' (insert (length (tickets q)) held) aw"
    and "none_lost q held aw \<Longrightarrow> none_lost q' (insert (length (tickets q)) held) aw"
proof -
  have live: "ticket_live j q' \<longleftrightarrow> ticket_live j q \<or> j = length (tickets q)" for j
    by (auto simp: q' ticket_live_def nth_append)
  have p: "promised q' aw = promised q aw" by (simp add: q' promised_def fun_eq_iff)
  have w: "q_waiting q' = q_waiting q" "futs q' = futs q" by (simp_all add: q')
  have fresh: "\<not> promised q aw f (length (tickets q))" for f
    using assms(1) unfolding slots_owned_def by (metis live_lt less_irrefl)
  show "slots_owned q' (insert (length (tickets q)) held) aw"
    using assms(1) fresh unfolding slots_owned_def live p w by auto
  show "none_lost q held aw \<Longrightarrow> none_lost q' (insert (length (tickets q)) held) aw"
    unfolding none_lost_def live p by auto
qed

lemma new_waiter_inv:
  assumes "slots_owned q held aw" "fut it = length (futs q)"
    and q': "q' = q\<lparr>q_waiting := (q_waiting q)(w := q_waiting q w @ [it]), futs := futs q @ [FutPending]\<rparr>"
  shows "slots_owned q' held (aw(length (futs q) \<mapsto> w))"
    and "none_lost q held aw \<Longrightarrow> none_lost q' held (aw(length (futs q) \<mapsto> w))"
proof -
  let ?aw = "aw(length (futs q) \<mapsto> w)"
  have lt: "aw f \<noteq> None \<Longrightarrow> f < length (futs q)" for f using assms(1) by (auto simp: slots_owned_def)
  have live: "ticket_live j q' \<longleftrightarrow> ticket_live j q" for j by (simp add: q' ticket_live_def)
  have p: "promised q' ?aw f t \<longleftrightarrow> promised q aw f t" for f t
    using lt [of f] by (auto simp: q' promised_def nth_append)
  have old: "j \<in> set (q_waiting q u) \<Longrightarrow> aw (fut j) = Some u" for j u
    using assms(1) by (auto simp: slots_owned_def)
  have aw: "?aw (fut i) = Some v" if i: "i \<in> set (q_waiting q' v)" for i v
  proof (cases "i \<in> set (q_waiting q v)")
    case True
    with old lt [of "fut i"] show ?thesis by fastforce
  next
    case False
    with i have "i = it" "v = w" by (auto simp: q' split: if_splits)
    then show ?thesis by (simp add: assms(2))
  qed
  have len: "?aw f \<noteq> None \<Longrightarrow> f < length (futs q')" for f
    using lt [of f] by (cases "f = length (futs q)") (auto simp: q')
  show "slots_owned q' held ?aw"
    using assms(1) aw len unfolding slots_owned_def live p by blast
  show "none_lost q held aw \<Longrightarrow> none_lost q' held ?aw"
    unfolding none_lost_def live p .
qed

lemma call_inv:
  assumes "qs_inv strict s" "acquire_start w cls est dl now (qs_q s) = (out, q)"
  shows "qs_inv strict \<lparr>qs_q = q,
      qs_held = (case out of AcqTicket i \<Rightarrow> insert i (qs_held s) | _ \<Rightarrow> qs_held s),
      qs_await = (case out of AcqWait f _ \<Rightarrow> (qs_await s)(f \<mapsto> w) | _ \<Rightarrow> qs_await s)\<rparr>"
proof -
  let ?q = "qs_q s"
  let ?it = "new_item (q_cfg ?q) cls est dl now (length (futs ?q))"
  have ok: "queue_ok q" using acquire_start_ok [of ?q w cls est dl now] assms by (simp add: qs_inv_def)
  have it: "fut ?it = length (futs ?q)" by (simp add: new_item_def)
  have o: "slots_owned ?q (qs_held s) (qs_await s)" "strict \<Longrightarrow> none_lost ?q (qs_held s) (qs_await s)"
    using assms(1) by (auto simp: qs_inv_def)
  consider (slot) "q_waiting ?q w = [] \<and> q_inflight ?q w < max_inflight (q_cfg ?q)"
    | (full) "\<not> (q_waiting ?q w = [] \<and> q_inflight ?q w < max_inflight (q_cfg ?q))" "int (length (q_waiting ?q w)) \<ge> max_depth (q_cfg ?q)"
    | (wait) "\<not> (q_waiting ?q w = [] \<and> q_inflight ?q w < max_inflight (q_cfg ?q))" "\<not> int (length (q_waiting ?q w)) \<ge> max_depth (q_cfg ?q)"
    by blast
  then show ?thesis
  proof cases
    case slot
    then have e: "out = AcqTicket (length (tickets ?q))" "q = ?q\<lparr>q_inflight := (q_inflight ?q)(w := q_inflight ?q w + 1),
        tickets := tickets ?q @ [\<lparr>t_worker = w, wait_s = 0, t_done = False\<rparr>]\<rparr>"
      using assms(2) by (simp_all add: acquire_start_def)
    show ?thesis using new_ticket_inv [OF o(1) e(2)] o(2) ok by (simp add: qs_inv_def e(1))
  next
    case full
    then have "out = AcqFull" "q = ?q" using assms(2) unfolding acquire_start_def by (simp_all only: if_False if_True prod.inject simp_thms)
    then show ?thesis using o ok by (simp add: qs_inv_def)
  next
    case wait
    then obtain t where e: "out = AcqWait (length (futs ?q)) t"
      "q = ?q\<lparr>q_waiting := (q_waiting ?q)(w := q_waiting ?q w @ [?it]), futs := futs ?q @ [FutPending]\<rparr>"
      using assms(2) unfolding acquire_start_def Let_def by (simp only: if_False prod.inject) blast
    show ?thesis using new_waiter_inv [OF o(1) it e(2)] o(2) ok by (simp add: qs_inv_def e(1))
  qed
qed

lemma cancelled_inv:
  assumes "qs_inv strict s" "qs_await s f = Some w"
  shows "qs_inv strict (s\<lparr>qs_q := acquire_cancelled clk w f (qs_q s), qs_await := (qs_await s)(f := None)\<rparr>)"
proof -
  let ?q = "qs_q s" and ?aw = "(qs_await s)(f := None)"
  have o: "queue_ok ?q" "slots_owned ?q (qs_held s) (qs_await s)" "strict \<Longrightarrow> none_lost ?q (qs_held s) (qs_await s)"
    using assms(1) by (auto simp: qs_inv_def)
  have wf: "queue_wf ?q" using o(1) by (simp add: queue_ok_def)
  show ?thesis
  proof (cases "\<exists>i. futs ?q ! f = FutGranted i")
    case True
    then obtain i where i: "futs ?q ! f = FutGranted i" by blast
    have nw: "j \<in> set (q_waiting ?q v) \<Longrightarrow> fut j \<noteq> f" for j v using wf i by (auto simp: queue_wf_def)
    have fi: "promised ?q (qs_await s) f i" using assms(2) i by (simp add: promised_def)
    have np: "\<not> promised ?q ?aw g i" for g
      using o(2) fi unfolding slots_owned_def by (auto simp: promised_def split: if_splits)
    have nh: "qs_held s - {i} = qs_held s" using o(2) fi by (auto simp: slots_owned_def)
    have own: "slots_owned ?q (qs_held s) ?aw" by (rule owned_forget [OF o(2) nw])
    have keep: "strict \<Longrightarrow> none_lost (release_ticket clk i ?q) (qs_held s) ?aw"
    proof -
      assume strict
      have "j \<in> qs_held s \<or> (\<exists>g. promised ?q ?aw g j)" if "ticket_live j ?q" "j \<noteq> i" for j
        using o(3) [OF \<open>strict\<close>] that i unfolding none_lost_def promised_def
        by (metis fun_upd_apply fut_state.inject)
      from release_none_lost [OF wf own np this] show ?thesis by (simp add: nh)
    qed
    have "slots_owned (release_ticket clk i ?q) (qs_held s) ?aw" using release_owned [OF own np, of clk] by (simp add: nh)
    then have "slots_owned (acquire_cancelled clk w f ?q) (qs_held s) ?aw"
      by (simp add: acquire_cancelled_def i owned_remove)
    moreover have "none_lost (acquire_cancelled clk w f ?q) = none_lost (release_ticket clk i ?q)"
      by (rule none_lost_frame) (simp_all add: acquire_cancelled_def i remove_item_def)
    ultimately show ?thesis using o(1) keep by (simp add: qs_inv_def acquire_cancelled_ok)
  next
    case False
    then have e: "acquire_cancelled clk w f ?q = remove_item w f ?q"
      by (auto simp: acquire_cancelled_def split: fut_state.splits)
    have "slots_owned (remove_item w f ?q) (qs_held s) ?aw"
      by (rule owned_forget [OF owned_remove [OF o(2)] remove_item_gone [OF o(2) assms(2)]])
    moreover have "strict \<Longrightarrow> none_lost (remove_item w f ?q) (qs_held s) ?aw"
      using o(3) False by (auto simp: none_lost_remove intro!: none_lost_forget)
    ultimately show ?thesis using o(1) by (simp add: qs_inv_def e remove_item_ok)
  qed
qed


lemma granted_inv:
  assumes "qs_inv strict s" "qs_await s f = Some w" "futs (qs_q s) ! f = FutGranted i"
  shows "qs_inv strict (s\<lparr>qs_q := acquire_granted i enq now (qs_q s), qs_held := insert i (qs_held s),
      qs_await := (qs_await s)(f := None)\<rparr>)"
proof -
  let ?q = "qs_q s" and ?aw = "(qs_await s)(f := None)" and ?r = "acquire_granted i enq now (qs_q s)"
  have o: "queue_ok ?q" "slots_owned ?q (qs_held s) (qs_await s)" "strict \<Longrightarrow> none_lost ?q (qs_held s) (qs_await s)"
    using assms(1) by (auto simp: qs_inv_def)
  have fi: "promised ?q (qs_await s) f i" using assms(2,3) by (simp add: promised_def)
  have live: "ticket_live j ?r \<longleftrightarrow> ticket_live j ?q" for j
    by (auto simp: acquire_granted_def ticket_live_def nth_list_update)
  have fr: "q_waiting ?r = q_waiting ?q" "futs ?r = futs ?q" by (simp_all add: acquire_granted_def)
  have p: "promised ?r ?aw g t \<longleftrightarrow> promised ?q (qs_await s) g t \<and> g \<noteq> f" for g t
    by (auto simp: promised_def fr)
  have nw: "j \<in> set (q_waiting ?q v) \<Longrightarrow> fut j \<noteq> f" for j v
    using o(1) assms(3) by (auto simp: queue_ok_def queue_wf_def)
  have uniq: "promised ?q (qs_await s) g i \<Longrightarrow> g = f" for g
    using o(2) fi unfolding slots_owned_def by metis
  have "ticket_live i ?q" using o(2) fi unfolding slots_owned_def by blast
  then have "slots_owned ?r (insert i (qs_held s)) ?aw"
    using o(2) nw uniq unfolding slots_owned_def p live fr by (auto split: if_splits)
  moreover have "strict \<Longrightarrow> none_lost ?r (insert i (qs_held s)) ?aw"
  proof -
    assume strict
    then have "none_lost ?q (insert i (qs_held s)) ?aw"
      by (rule none_lost_forget [OF o(3)]) (use assms(3) in auto)
    then show ?thesis by (simp add: none_lost_def promised_def live fr)
  qed
  ultimately show ?thesis using o(1) by (simp add: qs_inv_def acquire_granted_ok)
qed

lemma timer_inv:
  assumes "qs_inv strict s"
  shows "qs_inv strict (s\<lparr>qs_q := cancel_future f (qs_q s)\<rparr>)"
proof -
  let ?q = "qs_q s" and ?r = "cancel_future f (qs_q s)"
  have live: "ticket_live j ?r \<longleftrightarrow> ticket_live j ?q" for j by (simp add: cancel_future_def ticket_live_def)
  have p: "promised ?r aw g t \<longleftrightarrow> promised ?q aw g t" for aw g t
    by (auto simp: cancel_future_def promised_def nth_list_update)
  have fr: "q_waiting ?r = q_waiting ?q" "length (futs ?r) = length (futs ?q)" by (simp_all add: cancel_future_def)
  show ?thesis
    using assms by (simp add: qs_inv_def cancel_future_ok slots_owned_def none_lost_def live p fr)
qed

lemma timeout_inv:
  assumes "qs_inv strict s" "qs_await s f = Some w" "strict \<longrightarrow> futs (qs_q s) ! f = FutCancelled"
  shows "qs_inv strict (s\<lparr>qs_q := acquire_timeout w f (qs_q s), qs_await := (qs_await s)(f := None)\<rparr>)"
proof -
  let ?q = "qs_q s" and ?aw = "(qs_await s)(f := None)"
  have o: "queue_ok ?q" "slots_owned ?q (qs_held s) (qs_await s)" "strict \<Longrightarrow> none_lost ?q (qs_held s) (qs_await s)"
    using assms(1) by (auto simp: qs_inv_def)
  have "slots_owned (remove_item w f ?q) (qs_held s) ?aw"
    by (rule owned_forget [OF owned_remove [OF o(2)] remove_item_gone [OF o(2) assms(2)]])
  moreover have "strict \<Longrightarrow> none_lost (remove_item w f ?q) (qs_held s) ?aw"
    using o(3) assms(3) by (auto simp: none_lost_remove intro!: none_lost_forget)
  ultimately show ?thesis using o(1) by (simp add: qs_inv_def acquire_timeout_def remove_item_ok)
qed

lemma release_inv:
  assumes "qs_inv strict s" "i \<in> qs_held s"
  shows "qs_inv strict (s\<lparr>qs_q := release_ticket clk i (qs_q s), qs_held := qs_held s - {i}\<rparr>)"
proof -
  let ?q = "qs_q s"
  have o: "queue_ok ?q" "slots_owned ?q (qs_held s) (qs_await s)" "strict \<Longrightarrow> none_lost ?q (qs_held s) (qs_await s)"
    using assms(1) by (auto simp: qs_inv_def)
  have np: "\<not> promised ?q (qs_await s) f i" for f using o(2) assms(2) by (auto simp: slots_owned_def)
  have "strict \<Longrightarrow> none_lost (release_ticket clk i ?q) (qs_held s - {i}) (qs_await s)"
    using o(1,3) by (intro release_none_lost [OF _ o(2) np]) (auto simp: queue_ok_def none_lost_def)
  then show ?thesis using o(1) release_owned [OF o(2) np] by (simp add: qs_inv_def release_ticket_ok)
qed

lemma qs_inv_step: "qs_step strict s t \<Longrightarrow> qs_inv strict s \<Longrightarrow> qs_inv strict t"
  by (induction rule: qs_step.induct)
    (rule call_inv release_inv timer_inv granted_inv timeout_inv cancelled_inv; assumption)+

interpretation queue_slots: inv_system "qs_init cfg" "qs_step strict" "qs_inv strict" for cfg strict
proof
  fix s t
  show "qs_init cfg s \<Longrightarrow> qs_inv strict s"
    using new_queues_ok [of cfg] by (auto simp: qs_init_def qs_inv_def slots_owned_def none_lost_def promised_def
      ticket_live_def new_queues_def)
qed (rule qs_inv_step; assumption)


subsection \<open>Properties\<close>

text \<open>
  C20. However callers, timers and cancellations interleave, on every worker the slots in use never
  exceed \<open>WORKER_MAX_INFLIGHT\<close>, the waiters never exceed \<open>QUEUE_MAX_DEPTH\<close>, no slot is idle while
  somebody waits, and the slot counter is the number of tickets not yet released.
\<close>

theorem queue_bounds_reachable:
  assumes "reach (qs_init cfg) (qs_step strict) s"
  shows "q_inflight (qs_q s) w \<le> max 0 (max_inflight cfg)
    \<and> int (length (q_waiting (qs_q s) w)) \<le> max 0 (max_depth cfg)
    \<and> (q_waiting (qs_q s) w \<noteq> [] \<longrightarrow> max_inflight cfg \<le> q_inflight (qs_q s) w)
    \<and> q_inflight (qs_q s) w = live_tickets (qs_q s) w"
  using queue_sys_ok.inv_reach [OF assms]
  by (auto simp: queue_ok_def queue_wf_def queue_bounded_def work_conserving_def)

text \<open>
  C2. Slots do not leak: in every run without a timer that fires between a grant and the waiter's
  resumption, the unreleased tickets are exactly those a caller holds or an awaited future carries,
  so when no caller is outstanding every counter is zero.
\<close>

theorem queue_slots_accounted:
  assumes "reach (qs_init cfg) (qs_step True) s"
  shows "{i. ticket_live i (qs_q s)} = qs_held s \<union> {t. \<exists>f. promised (qs_q s) (qs_await s) f t}
    \<and> (qs_held s = {} \<and> qs_await s = (\<lambda>_. None) \<longrightarrow> q_inflight (qs_q s) w = 0)"
proof -
  have inv: "qs_inv True s" using assms by (rule queue_slots.inv_reach)
  then have eq: "{i. ticket_live i (qs_q s)} = qs_held s \<union> {t. \<exists>f. promised (qs_q s) (qs_await s) f t}"
    by (auto simp: qs_inv_def slots_owned_def none_lost_def)
  have "q_inflight (qs_q s) w = 0" if "qs_held s = {} \<and> qs_await s = (\<lambda>_. None)"
  proof -
    have "\<not> ticket_live i (qs_q s)" for i using eq that by (auto simp: promised_def)
    then have "\<not> (0 < live_tickets (qs_q s) w)"
      unfolding live_tickets_def count_if_pos by (auto simp: ticket_live_def in_set_conv_nth)
    moreover have "0 \<le> live_tickets (qs_q s) w" by (simp add: live_tickets_def)
    ultimately show ?thesis using inv by (auto simp: qs_inv_def queue_ok_def queue_wf_def)
  qed
  with eq show ?thesis by blast
qed

text \<open>A waiter whose wait ended by timeout or cancellation.\<close>

lemma grant_keeps_done: "futs q ! f \<noteq> FutPending \<Longrightarrow> \<not> fut_done q (fut b) \<Longrightarrow> futs (grant w b os q) ! f = futs q ! f"
  by (cases "f = fut b") (auto simp: fut_done_def grant_def)

lemma pump_keeps_done: "futs q ! f \<noteq> FutPending \<Longrightarrow> futs (pump clk k w q) ! f = futs q ! f"
  by (rule pump_invariant [where P = "\<lambda>x. futs x ! f = futs q ! f"]) (auto simp: grant_keeps_done)

lemma release_keeps_done: "futs q ! f \<noteq> FutPending \<Longrightarrow> futs (release_ticket clk i q) ! f = futs q ! f"
  by (simp add: release_ticket_def free_slot_def pump_keeps_done)

lemma release_futs_length: "length (futs (release_ticket clk i q)) = length (futs q)"
  by (simp add: release_ticket_def free_slot_def pump_futs_length)

lemma qs_step_done:
  "qs_step strict s t \<Longrightarrow> f < length (futs (qs_q s)) \<Longrightarrow> futs (qs_q s) ! f \<noteq> FutPending \<Longrightarrow>
   f < length (futs (qs_q t)) \<and> futs (qs_q t) ! f = futs (qs_q s) ! f"
  by (induction rule: qs_step.induct)
    (auto simp: acquire_start_def Let_def cancel_future_def acquire_granted_def acquire_timeout_def remove_item_def
      acquire_cancelled_def release_keeps_done release_futs_length nth_append nth_list_update
      split: if_splits fut_state.splits)

text \<open>
  A waiter that timed out or was cancelled while queued is never dispatched: its future stays
  cancelled in every later state, whatever the other callers do.
\<close>

theorem cancelled_never_dispatched:
  assumes "(qs_step strict)\<^sup>*\<^sup>* s t" "f < length (futs (qs_q s))" "futs (qs_q s) ! f = FutCancelled"
  shows "futs (qs_q t) ! f = FutCancelled"
proof -
  have "f < length (futs (qs_q t)) \<and> futs (qs_q t) ! f = FutCancelled"
    using assms by (induction rule: rtranclp_induct) (auto dest!: qs_step_done)
  then show ?thesis ..
qed

text \<open>
  A starved waiter (\<open>MAX_OVERTAKES\<close> or more) ranks as interactive and short: whoever the
  dispatcher prefers to it ranks so too and has no more slack left, so class and length alone
  never hold it back again.
\<close>

theorem starved_beaten_by_slack_only:
  assumes "x \<in> set ws" "starved cfg x" "b = arg_min_list (item_key cfg now) ws"
  shows "b \<in> set ws \<and> item_slack cfg b now \<le> item_slack cfg x now
    \<and> (starved cfg b \<or> (qi_class b \<noteq> ''batch'' \<and> qi_est_tokens b < long_prompt_tokens cfg))"
proof -
  have ne: "ws \<noteq> []" using assms(1) by auto
  have "b \<in> set ws" unfolding assms(3) using ne by (rule arg_min_list_mem)
  moreover have "item_key cfg now b \<le> item_key cfg now x"
    unfolding assms(3) using ne assms(1) by (rule arg_min_list_least)
  ultimately show ?thesis
    using assms(2) by (auto simp: item_key_def less_eq_prod_def split: if_splits)
qed

subsection \<open>A run on one worker with a single slot\<close>

text \<open>
  The first caller takes the slot, the second waits, the first releases: the slot goes to the
  second one's future.
\<close>

definition run_cfg :: queue_config where
  "run_cfg = default_queue_config\<lparr>max_depth := 2, max_inflight := 1\<rparr>"

definition run_q1 :: worker_queues where
  "run_q1 = snd (acquire_start ''w'' ''interactive'' 10 None 0 (new_queues run_cfg))"

definition run_q2 :: worker_queues where
  "run_q2 = snd (acquire_start ''w'' ''batch'' 10 None 1 run_q1)"

definition run_q3 :: worker_queues where
  "run_q3 = release_ticket (\<lambda>_. 2) 0 run_q2"

lemma run_facts:
  "fst (acquire_start ''w'' ''interactive'' 10 None 0 (new_queues run_cfg)) = AcqTicket 0"
  "fst (acquire_start ''w'' ''batch'' 10 None 1 run_q1) = AcqWait 0 10"
  "futs run_q3 = [FutGranted 1]" "q_inflight run_q3 ''w'' = 1" "map t_done (tickets run_q3) = [True, False]"
  by code_simp+

lemma run_reach:
  "reach (qs_init run_cfg) (qs_step strict) \<lparr>qs_q = run_q3, qs_held = {}, qs_await = [0 \<mapsto> ''w'']\<rparr>"
proof -
  let ?R = "reach (qs_init run_cfg) (qs_step strict)"
  let ?s0 = "\<lparr>qs_q = new_queues run_cfg, qs_held = {}, qs_await = (\<lambda>_. None)\<rparr>"
  let ?s1 = "\<lparr>qs_q = run_q1, qs_held = {0}, qs_await = (\<lambda>_. None)\<rparr>"
  let ?s2 = "\<lparr>qs_q = run_q2, qs_held = {0}, qs_await = [0 \<mapsto> ''w'']\<rparr>"
  let ?s3 = "\<lparr>qs_q = run_q3, qs_held = {}, qs_await = [0 \<mapsto> ''w'']\<rparr>"
  have "qs_step strict ?s0 ?s1"
    using qs_call [of "''w''" "''interactive''" 10 None 0 ?s0 "AcqTicket 0" run_q1 strict] run_facts(1)
    by (simp add: run_q1_def prod_eq_iff)
  moreover have "qs_step strict ?s1 ?s2"
    using qs_call [of "''w''" "''batch''" 10 None 1 ?s1 "AcqWait 0 10" run_q2 strict] run_facts(2)
    by (simp add: run_q2_def prod_eq_iff)
  moreover have "qs_step strict ?s2 ?s3"
    using qs_release [of 0 ?s2 strict "\<lambda>_. 2"] by (simp add: run_q3_def)
  moreover have "?R ?s0" by (rule reach.reach_init) (simp add: qs_init_def)
  ultimately show ?thesis by (meson reach.reach_step)
qed

theorem queue_bounds_reachable_witness:
  "q_inflight run_q3 ''w'' \<le> 1 \<and> q_inflight run_q3 ''w'' = live_tickets run_q3 ''w''"
  using queue_bounds_reachable [OF run_reach [of True], of "''w''"] by (simp add: run_cfg_def)

theorem queue_slots_accounted_witness:
  "{i. ticket_live i run_q3} = {t. \<exists>f. promised run_q3 [0 \<mapsto> ''w''] f t} \<and> ticket_live 1 run_q3"
proof -
  have "ticket_live 1 run_q3" by code_simp
  then show ?thesis using queue_slots_accounted [OF run_reach, of "''w''"] by simp
qed

theorem cancelled_never_dispatched_witness:
  "futs (release_ticket (\<lambda>_. 2) 0 (cancel_future 0 run_q2)) ! 0 = FutCancelled"
proof -
  let ?s = "\<lparr>qs_q = cancel_future 0 run_q2, qs_held = {0}, qs_await = [0 \<mapsto> ''w'']\<rparr>"
  have "(qs_step True)\<^sup>*\<^sup>* ?s (?s\<lparr>qs_q := release_ticket (\<lambda>_. 2) 0 (qs_q ?s), qs_held := qs_held ?s - {0}\<rparr>)"
    by (intro r_into_rtranclp qs_release) simp
  moreover have "futs (cancel_future 0 run_q2) = [FutCancelled]" by code_simp
  ultimately show ?thesis using cancelled_never_dispatched [of True ?s _ 0] by fastforce
qed

definition run_ws :: "queue_item list" where
  "run_ws = [new_item default_queue_config ''interactive'' 10 (Some 30) 5 0,
     (new_item default_queue_config ''batch'' 9000 (Some 20) 1 1)\<lparr>passed_over := 8\<rparr>]"

theorem starved_beaten_by_slack_only_witness:
  "starved default_queue_config (run_ws ! 1) \<and> arg_min_list (item_key default_queue_config 7) run_ws = run_ws ! 1
   \<and> item_slack default_queue_config (arg_min_list (item_key default_queue_config 7) run_ws) 7
       \<le> item_slack default_queue_config (run_ws ! 1) 7"
proof -
  have "starved default_queue_config (run_ws ! 1)" "arg_min_list (item_key default_queue_config 7) run_ws = run_ws ! 1"
    by code_simp+
  moreover have "run_ws ! 1 \<in> set run_ws" by (simp add: run_ws_def)
  ultimately show ?thesis using starved_beaten_by_slack_only [OF _ _ refl] by blast
qed

theorem dispatch_order_clock_independent_witness:
  "run_ws \<noteq> [] \<and> arg_min_list (item_key default_queue_config 7) run_ws = arg_min_list (item_key default_queue_config 100) run_ws"
  using dispatch_order_clock_independent [of run_ws default_queue_config 7 100] by (simp add: run_ws_def)

text \<open>
  C40. The schedule that \<open>strict\<close> leaves out loses the slot: after the run above the waiter's
  \<open>TimeoutError\<close> branch does not release the ticket its future already carries, and a worker with
  one slot is left with nobody holding or awaiting it and no slot free, for ever.
\<close>

theorem timeout_after_grant_leaks_slot:
  "\<exists>s. reach (qs_init run_cfg) (qs_step False) s \<and> qs_held s = {} \<and> qs_await s = (\<lambda>_. None)
     \<and> q_waiting (qs_q s) ''w'' = [] \<and> q_inflight (qs_q s) ''w'' = max_inflight run_cfg"
proof -
  let ?s = "\<lparr>qs_q = run_q3, qs_held = {}, qs_await = [0 \<mapsto> ''w'']\<rparr>"
  let ?t = "\<lparr>qs_q = acquire_timeout ''w'' 0 run_q3, qs_held = {}, qs_await = (\<lambda>_. None)\<rparr>"
  have "qs_step False ?s ?t"
    using qs_timeout [of ?s 0 "''w''" False] run_facts(3) by simp
  then have "reach (qs_init run_cfg) (qs_step False) ?t"
    by (rule reach.reach_step [OF run_reach])
  moreover have "q_waiting (qs_q ?t) ''w'' = [] \<and> q_inflight (qs_q ?t) ''w'' = max_inflight run_cfg"
    by code_simp
  ultimately show ?thesis by (intro exI [of _ ?t]) simp
qed

end
