(* ===== verification/Gw_Overflow.thy ===== *)
theory Gw_Overflow
  imports Json
begin

text \<open>
  When a local failure may go to the configured destination (\<open>services/gateway/overflow.py\<close>), how
  the body of a worker's error is classified (\<open>services/gateway/upstream.py\<close>), and the pure helpers
  of the request handler (\<open>services/gateway/main.py\<close>): the test-only controls, the lenient integer
  headers and the classes of a fallback failure.
\<close>

definition ELIGIBLE_CODES :: "int list" where "ELIGIBLE_CODES = [503, 529]"

definition LOCAL_ONLY_REASONS :: "string list" where
  "LOCAL_ONLY_REASONS = [''slice_oom'', ''unknown_forced_worker'', ''unknown_policy'']"

datatype overflow_decision = Local | Overflow string int

definition decide_overflow :: "int \<Rightarrow> string \<Rightarrow> bool \<Rightarrow> overflow_decision" where
  "decide_overflow code reason never =
     (if never \<or> code \<notin> set ELIGIBLE_CODES \<or> reason \<in> set LOCAL_ONLY_REASONS then Local
      else Overflow reason code)"

record overflow_config =
  ov_enabled :: bool
  ov_provider :: string
  ov_model :: string
  ov_url :: string
  ov_api_key :: string
  ov_timeout_s :: pyfloat

definition overflow_active :: "overflow_config \<Rightarrow> bool" where
  "overflow_active c \<longleftrightarrow> ov_enabled c \<and> ov_provider c \<noteq> [] \<and> ov_model c \<noteq> [] \<and> ov_url c \<noteq> []"

definition overflow_destination :: "overflow_config \<Rightarrow> string" where
  "overflow_destination c = ov_provider c @ ''/'' @ ov_model c"

definition overflow_headers :: "overflow_config \<Rightarrow> (string, string) odict" where
  "overflow_headers c = (''content-type'', ''application/json'') #
     (if ov_api_key c \<noteq> [] then [(''authorization'', ''Bearer '' @ ov_api_key c)] else [])"

subsection \<open>Classification of a worker's error\<close>

definition SLICE_OOM :: string where "SLICE_OOM = ''slice_oom''"

text \<open>\<open>gap_search p q\<close> is the search for \<open>p[^.]*q\<close>.\<close>

fun gap_match :: "string \<Rightarrow> string \<Rightarrow> bool" where
  "gap_match q [] = (q = [])"
| "gap_match q (c # s) = (startswith q (c # s) \<or> (c \<noteq> CHR ''.'' \<and> gap_match q s))"

fun gap_search :: "string \<Rightarrow> string \<Rightarrow> string \<Rightarrow> bool" where
  "gap_search p q [] = (p = [] \<and> q = [])"
| "gap_search p q (c # s) =
     ((startswith p (c # s) \<and> gap_match q (drop (length p) (c # s))) \<or> gap_search p q s)"

definition oom_search :: "string \<Rightarrow> bool" where
  "oom_search body = (let s = py_lower body in
     contains_at ''out of memory'' s \<or> contains_at ''outofmemoryerror'' s
     \<or> contains_at ''cudaerrormemoryallocation'' s \<or> gap_search ''failed to allocate'' ''memory'' s)"

definition classify_error :: "int \<Rightarrow> string \<Rightarrow> string option" where
  "classify_error status body = (if status \<ge> 500 \<and> oom_search body then Some SLICE_OOM else None)"

lemma split_first: "(\<exists>a v. c # s = a @ v \<and> P a v) \<longleftrightarrow> P [] (c # s) \<or> (\<exists>a v. s = a @ v \<and> P (c # a) v)"
  by (auto simp: Cons_eq_append_conv)

lemma gap_match_iff: "gap_match q s \<longleftrightarrow> (\<exists>u r. s = u @ r \<and> (\<exists>v. r = q @ v) \<and> CHR ''.'' \<notin> set u)"
proof (induction s)
  case (Cons c s)
  have "gap_match q (c # s) \<longleftrightarrow> (\<exists>v. c # s = q @ v) \<or> (\<exists>u r. s = u @ r \<and> (\<exists>v. r = q @ v) \<and> CHR ''.'' \<notin> set (c # u))"
    using Cons.IH by (auto simp: startswith_iff)
  then show ?case by (simp only: split_first) simp
qed simp

lemma gap_search_iff:
  "gap_search p q s \<longleftrightarrow> (\<exists>a r. s = a @ r \<and> (\<exists>t. r = p @ t \<and> gap_match q t))"
proof (induction s)
  case (Cons c s)
  have "startswith p (c # s) \<and> gap_match q (drop (length p) (c # s)) \<longleftrightarrow> (\<exists>t. c # s = p @ t \<and> gap_match q t)"
    unfolding startswith_iff by (metis append_eq_conv_conj)
  then show ?case by (simp only: split_first gap_search.simps Cons.IH)
qed auto

text \<open>
  A worker's error is classified as \<open>slice_oom\<close> exactly for a server error whose body, read
  without case, contains one of the four alternatives of the out-of-memory pattern; the last one
  allows no full stop between its two halves.
\<close>

theorem classify_error_iff:
  "classify_error status body = (if status \<ge> 500 \<and> (let s = py_lower body in
       (\<exists>p \<in> {''out of memory'', ''outofmemoryerror'', ''cudaerrormemoryallocation''}. \<exists>u v. s = u @ p @ v)
       \<or> (\<exists>a u v. s = a @ ''failed to allocate'' @ u @ ''memory'' @ v \<and> CHR ''.'' \<notin> set u))
     then Some SLICE_OOM else None)"
proof -
  have "gap_search p q s \<longleftrightarrow> (\<exists>a u v. s = a @ p @ u @ q @ v \<and> CHR ''.'' \<notin> set u)" for p q s
    unfolding gap_search_iff gap_match_iff by blast
  then show ?thesis
    by (simp only: classify_error_def oom_search_def Let_def contains_at_iff bex_simps bex_empty disj_assoc simp_thms)
qed

subsection \<open>Helpers of the handler\<close>

definition POLICIES :: "string list" where
  "POLICIES = [''round_robin'', ''least_loaded'', ''p2c'', ''prefix_then_load'']"

text \<open>\<^const>\<open>None\<close> when a control has an unsupported value; otherwise policy, admission off, quota off.\<close>

definition experiment_controls ::
  "environ \<Rightarrow> string option \<Rightarrow> string option \<Rightarrow> string option \<Rightarrow> (string option \<times> bool \<times> bool) option" where
  "experiment_controls env pol admission quota_mode =
     (if env ''ALLOW_EXPERIMENT_CONTROLS'' \<noteq> Some ''1'' then Some (None, False, False)
      else if (case pol of None \<Rightarrow> False | Some p \<Rightarrow> p \<notin> set POLICIES)
           \<or> (case admission of None \<Rightarrow> False | Some a \<Rightarrow> a \<notin> {''on'', ''off''})
           \<or> (case quota_mode of None \<Rightarrow> False | Some m \<Rightarrow> m \<notin> {''on'', ''off''})
      then None
      else Some (pol, admission = Some ''off'', quota_mode = Some ''off''))"

definition int_or_none :: "string option \<Rightarrow> int option" where
  "int_or_none v = (case v of None \<Rightarrow> None | Some s \<Rightarrow>
     (case py_int s of None \<Rightarrow> None | Some i \<Rightarrow> if i \<ge> 0 then Some i else None))"

datatype overflow_exn = TimeoutException | OverflowStatus int | OtherHttpError | BodyNotJson

definition fallback_failure :: "overflow_exn \<Rightarrow> string" where
  "fallback_failure e = (case e of TimeoutException \<Rightarrow> ''fallback_timeout''
     | OverflowStatus s \<Rightarrow> if s \<ge> 500 then ''fallback_5xx'' else ''fallback_error''
     | _ \<Rightarrow> ''fallback_error'')"

definition ms_of :: "pyfloat \<Rightarrow> int" where
  "ms_of seconds = py_round (seconds * 1000)"

lemma int_or_none_nonneg: "int_or_none v = Some i \<Longrightarrow> 0 \<le> i"
  by (auto simp: int_or_none_def split: option.splits if_splits)

lemmas overflow_defs [gw_defs] = decide_overflow_def overflow_active_def experiment_controls_def

end
