(* ===== verification/Gw_Hop.thy ===== *)
theory Gw_Hop
  imports Json Gw_Placement
begin

text \<open>
  The hop policy (\<open>services/gateway/hop.py\<close>): whether the destination worker may load the prefix
  from the worker that holds it, and the connector parameters sent with the request. \<open>repr\<close> is the
  text Python prints for a float, \<open>epoch\<close> the reading of \<open>time.time()\<close>.
\<close>

definition DEFAULT_MIN_TOKENS :: int where "DEFAULT_MIN_TOKENS = 1024"

definition EXPERIMENT_CASES :: "(string, string) odict" where
  "EXPERIMENT_CASES =
     [(''same_worker_local_reuse'', ''local_prefix_present''),
      (''cross_worker_recompute_transfer_disabled'', ''transfer_disabled''),
      (''independently_warmed_destination_local_hit'', ''independently_warmed_destination''),
      (''real_mooncake_transfer_consumed'', ''remote_prefix_candidate'')]"

record hop_fields =
  hop_decision_reason :: string
  hop_result :: string

definition hop_allowed :: "pyfloat option \<Rightarrow> bool" where
  "hop_allowed remaining = (case remaining of None \<Rightarrow> True | Some s \<Rightarrow> s \<ge> 3/2)"

definition hop_worth :: "int \<Rightarrow> placement_decision \<Rightarrow> bool" where
  "hop_worth min_tokens d \<longleftrightarrow> prior_reusable_tokens d \<ge> min_tokens"

definition hop_policy_reason :: "int \<Rightarrow> placement_decision \<Rightarrow> string" where
  "hop_policy_reason min_tokens d =
     (if prior_worker d = Some (chosen_worker d) then ''local_prefix_present''
      else if prior_worker d \<noteq> None
      then (if hop_worth min_tokens d then ''remote_prefix_candidate'' else ''below_min_tokens'')
      else ''no_prior_worker'')"

definition hop_policy_load :: "int \<Rightarrow> placement_decision \<Rightarrow> pyfloat option \<Rightarrow> bool" where
  "hop_policy_load min_tokens d remaining \<longleftrightarrow> hop_allowed remaining \<and> hop_worth min_tokens d
     \<and> prior_worker d \<noteq> None \<and> prior_worker d \<noteq> Some (chosen_worker d)"

text \<open>The decision with the experiment override, when the operator allows it.\<close>

definition hop_choice ::
  "environ \<Rightarrow> int \<Rightarrow> placement_decision \<Rightarrow> pyfloat option \<Rightarrow> string option \<Rightarrow> string option \<Rightarrow> bool \<times> string" where
  "hop_choice env min_tokens d remaining override exp_case =
     (let allowed = hop_allowed remaining;
          (load, reason) =
            (if env ''ALLOW_EXPERIMENT_CONTROLS'' = Some ''1'' \<and> (override = Some ''on'' \<or> override = Some ''off'')
             then (allowed \<and> override = Some ''on'',
                   case Option.bind exp_case (map_of EXPERIMENT_CASES) of
                     Some r \<Rightarrow> r
                   | None \<Rightarrow> if override = Some ''on'' then ''experiment_on'' else ''experiment_off'')
             else (hop_policy_load min_tokens d remaining, hop_policy_reason min_tokens d))
      in (load, if \<not> allowed then ''deadline_recompute'' else reason))"

definition hop_params ::
  "(pyfloat \<Rightarrow> string) \<Rightarrow> pyfloat \<Rightarrow> (string, string) odict \<Rightarrow> pyfloat option \<Rightarrow> bool \<times> string \<Rightarrow> jdict option" where
  "hop_params repr epoch corr remaining lr =
     (case (map_of corr ''x-request-id'', map_of corr ''x-conversation-id'', map_of corr ''x-agent-step'') of
        (Some rid, Some conv, Some step) \<Rightarrow>
          Some ([(''lmcache.hop.load'', JBool (fst lr)), (''lmcache.hop.request_id'', JStr rid),
                 (''lmcache.hop.conversation_id'', JStr conv), (''lmcache.hop.agent_step'', JStr step),
                 (''lmcache.hop.reason'', JStr (snd lr))]
                @ (case remaining of None \<Rightarrow> []
                   | Some s \<Rightarrow> [(''lmcache.hop.deadline_epoch_s'', JFloat (epoch + max 0 s) (repr (epoch + max 0 s)))]))
      | _ \<Rightarrow> None)"

definition hop_prepare ::
  "environ \<Rightarrow> (pyfloat \<Rightarrow> string) \<Rightarrow> pyfloat \<Rightarrow> jdict \<Rightarrow> placement_decision \<Rightarrow> (string, string) odict \<Rightarrow>
   pyfloat option \<Rightarrow> string option \<Rightarrow> string option \<Rightarrow> py_exn + jdict \<times> hop_fields" where
  "hop_prepare env repr epoch body d corr remaining override exp_case =
     (let payload = od_pop ''kv_transfer_params'' body in
      if env ''KV_HOP_ENABLED'' \<noteq> Some ''1''
      then Inr (payload, \<lparr>hop_decision_reason = ''disabled'', hop_result = ''not_attempted''\<rparr>)
      else try_bind (int_of (getenv env ''KV_HOP_MIN_TOKENS'' (show_int DEFAULT_MIN_TOKENS))) (\<lambda>min_tokens.
        let lr = hop_choice env min_tokens d remaining override exp_case in
        case hop_params repr epoch corr remaining lr of
          None \<Rightarrow> Inl (KeyError ''x-request-id'')
        | Some params \<Rightarrow> Inr (od_set ''kv_transfer_params'' (JObj params) payload,
            \<lparr>hop_decision_reason = snd lr, hop_result = if fst lr then ''pending'' else ''recompute''\<rparr>)))"

lemmas hop_defs [gw_defs] =
  hop_allowed_def hop_worth_def hop_policy_reason_def hop_policy_load_def hop_choice_def hop_prepare_def

lemma od_pop_set_same: "od_pop k (od_set k v d) = od_pop k d"
  by (induction d) (auto simp: od_pop_def)

text \<open>
  Connector parameters that the caller put into the body have no influence at all: whatever
  value the key \<open>kv_transfer_params\<close> had, or whether it was there, the request that goes to the
  worker and the recorded decision are the same.
\<close>

theorem hop_ignores_caller_params:
  "hop_prepare env repr epoch (od_set ''kv_transfer_params'' v body) d corr remaining override exp_case
   = hop_prepare env repr epoch (od_pop ''kv_transfer_params'' body) d corr remaining override exp_case"
  by (simp add: hop_prepare_def od_pop_set_same) (simp add: od_pop_def)

text \<open>
  A remote load is ordered only with at least 1.5 s of deadline left and, without the operator's
  experiment switch, only when another worker than the chosen one is believed to hold at least
  \<open>KV_HOP_MIN_TOKENS\<close> reusable tokens.
\<close>

theorem hop_load_justified:
  assumes "hop_prepare env repr epoch body d corr remaining override exp_case = Inr (payload, f)"
    and "hop_result f = ''pending''"
  shows "env ''KV_HOP_ENABLED'' = Some ''1'' \<and> (\<forall>s. remaining = Some s \<longrightarrow> s \<ge> 3/2)
    \<and> (env ''ALLOW_EXPERIMENT_CONTROLS'' = Some ''1'' \<and> override = Some ''on''
       \<or> (\<exists>m p. int_of (getenv env ''KV_HOP_MIN_TOKENS'' ''1024'') = Inr m \<and> prior_worker d = Some p
            \<and> p \<noteq> chosen_worker d \<and> prior_reusable_tokens d \<ge> m))"
proof -
  have s: "show_int DEFAULT_MIN_TOKENS = ''1024''" by code_simp
  have en: "env ''KV_HOP_ENABLED'' = Some ''1''"
    using assms by (auto simp: hop_prepare_def Let_def split: if_splits)
  then obtain m where m: "int_of (getenv env ''KV_HOP_MIN_TOKENS'' ''1024'') = Inr m"
    and load: "fst (hop_choice env m d remaining override exp_case)"
    using assms by (auto simp: hop_prepare_def Let_def s split: option.splits if_splits)
  from load have "hop_allowed remaining" "env ''ALLOW_EXPERIMENT_CONTROLS'' = Some ''1'' \<and> override = Some ''on''
      \<or> hop_policy_load m d remaining"
    by (auto simp: hop_choice_def hop_policy_load_def Let_def split: if_splits)
  then show ?thesis
    using en m by (auto simp: hop_allowed_def hop_policy_load_def hop_worth_def)
qed

definition hop_demo_env :: environ where
  "hop_demo_env k = (if k = ''KV_HOP_ENABLED'' then Some ''1'' else None)"

definition hop_demo_decision :: placement_decision where
  "hop_demo_decision = \<lparr>chosen_worker = ''worker_b'', prior_worker = Some ''worker_a'', placement_policy = ''p2c'',
     placement_reason = ''p2c'', estimated_reusable_tokens = 0, intended_action = Recompute, snapshot_age = Infinite,
     fallback = None, prior_reusable_tokens = 2048\<rparr>"

definition hop_demo_corr :: "(string, string) odict" where
  "hop_demo_corr = [(''x-request-id'', ''r1''), (''x-conversation-id'', ''c1''), (''x-agent-step'', ''0'')]"

theorem hop_load_justified_witness:
  "\<exists>payload f. hop_prepare hop_demo_env (\<lambda>_. ''1.0'') 0 [] hop_demo_decision hop_demo_corr (Some 2) None None = Inr (payload, f)
     \<and> hop_result f = ''pending'' \<and> prior_reusable_tokens hop_demo_decision \<ge> 1024"
proof -
  let ?r = "hop_prepare hop_demo_env (\<lambda>_. ''1.0'') 0 [] hop_demo_decision hop_demo_corr (Some 2) None None"
  have "isl ?r = False" "hop_result (snd (projr ?r)) = ''pending''" by code_simp+
  then obtain payload f where r: "?r = Inr (payload, f)" "hop_result f = ''pending''"
    by (cases ?r) auto
  moreover have "prior_reusable_tokens hop_demo_decision \<ge> 1024" "hop_demo_env ''ALLOW_EXPERIMENT_CONTROLS'' = None"
    by code_simp+
  ultimately show ?thesis using hop_load_justified [OF r] by blast
qed

end
