(* ===== verification/Gw_Serve.thy ===== *)
theory Gw_Serve
  imports Gw_Guard Gw_Admission Gw_Tenants Gw_Placement Gw_Queue Gw_Overflow Gw_Hop
begin

text \<open>
  The request handler \<open>serve_completion\<close> (\<open>services/gateway/main.py\<close>): guard, quota, admission,
  placement, queue, hop, proxy, overflow, with the resources each stage takes and every exit path
  that gives them back. The coroutine is split at its awaits; a request waits in one of the phases
  below and each function runs it to its next phase. Prometheus counters and log lines are left
  out. Clock readings come from \<open>t\<close>, one index per reading of the segment.
\<close>

record gw_config =
  gc_admit :: admit_config
  gc_overflow :: overflow_config
  gc_policy :: string
  gc_spill :: int
  gc_stale_s :: pyfloat
  gc_env :: environ
  gc_rng :: rng
  gc_repr :: "pyfloat \<Rightarrow> string"

record gw_state =
  reg :: registry
  quota :: tenant_quota
  queues :: worker_queues

record serve_request =
  rq_body :: "json option"
  x_request_id :: "string option"
  x_conversation_id :: "string option"
  x_agent_step :: "string option"
  x_prefix_id :: "string option"
  x_tenant_id :: "string option"
  x_request_priority :: "string option"
  x_estimated_prompt_tokens :: "string option"
  x_deadline_ms :: "string option"
  x_force_worker :: "string option"
  x_prefix_tokens :: "string option"
  x_placement_policy_override :: "string option"
  x_admission_mode :: "string option"
  x_tenant_quota_mode :: "string option"
  x_kv_hop_mode :: "string option"
  x_kv_hop_case :: "string option"

type_synonym headers = "(string, string) odict"

datatype resp_body =
    RejectBody string string | DetailBody string | JsonBody json | UpstreamErrorBody string | SseBody

record response =
  rs_status :: int
  rs_headers :: headers
  rs_body :: resp_body

datatype outcome = Responded response | Crashed py_exn | ClientGone

text \<open>\<open>lease\<close>: not yet acquired, switched off (\<open>_NoLease\<close>), or a lease of the quota.\<close>

datatype lease_ref = LeaseUnset | LeaseOff | LeaseHeld nat

text \<open>What the handler does when the overflow attempt gives nothing.\<close>

datatype after =
    AfterReject int string string string headers
  | AfterQueueReject string
  | AfterFinish response
  | AfterCrash int py_exn

datatype phase =
    AtStart | AtQueue nat pyfloat | AtOverflow string after | AtUpstream | AtStream | AtOverflowStream
  | Finished outcome

record serve_ctx =
  cx_req :: serve_request
  cx_klass :: string
  cx_est :: int
  cx_body :: jdict
  cx_started :: pyfloat
  cx_now :: pyfloat
  cx_qenter :: pyfloat
  cx_deadline_ms :: "int option"
  cx_policy :: "string option"
  cx_headers :: headers
  cx_lease :: lease_ref
  cx_decision :: "placement_decision option"
  cx_worker :: string
  cx_ticket :: nat
  cx_token :: int
  cx_freed :: bool
  cx_finished :: bool
  cx_once :: bool
  cx_phase :: phase

definition or_default :: "string option \<Rightarrow> string \<Rightarrow> string" where
  "or_default v d = (if truthy_str v then the v else d)"

definition klass_of :: "serve_request \<Rightarrow> string" where
  "klass_of req = (if x_request_priority req = Some ''batch'' then ''batch'' else ''interactive'')"

definition correlation_headers :: "serve_request \<Rightarrow> headers" where
  "correlation_headers req =
     [(''x-request-id'', or_default (x_request_id req) ''req-untracked''),
      (''x-conversation-id'', or_default (x_conversation_id req) ''conv-untracked''),
      (''x-agent-step'', or_default (x_agent_step req) ''0''),
      (''x-prefix-id'', or_default (x_prefix_id req) ''prefix-none''),
      (''x-orchestration-stage'', ''guard''), (''x-guard-decision'', ''allow''),
      (''x-admit-decision'', ''accept''), (''x-place-decision'', ''none'')]"

definition od_update :: "('k, 'v) odict \<Rightarrow> ('k, 'v) odict \<Rightarrow> ('k, 'v) odict" where
  "od_update d kvs = foldl (\<lambda>d (k, v). od_set k v d) d kvs"

text \<open>A request that has just arrived, before its body is read.\<close>

definition new_ctx :: "serve_request \<Rightarrow> serve_ctx" where
  "new_ctx req = \<lparr>cx_req = req, cx_klass = klass_of req, cx_est = 0, cx_body = [], cx_started = 0, cx_now = 0,
     cx_qenter = 0, cx_deadline_ms = int_or_none (x_deadline_ms req), cx_policy = None,
     cx_headers = correlation_headers req, cx_lease = LeaseUnset, cx_decision = None, cx_worker = [], cx_ticket = 0,
     cx_token = 0, cx_freed = False, cx_finished = False, cx_once = False, cx_phase = AtStart\<rparr>"

definition finish_with :: "outcome \<Rightarrow> serve_ctx \<Rightarrow> serve_ctx" where
  "finish_with res c = c\<lparr>cx_phase := Finished res\<rparr>"

subsection \<open>Giving back\<close>

definition release_ref :: "bool \<Rightarrow> lease_ref \<Rightarrow> gw_state \<Rightarrow> gw_state" where
  "release_ref refund l gw = (case l of LeaseHeld i \<Rightarrow> gw\<lparr>quota := release_lease refund i (quota gw)\<rparr> | _ \<Rightarrow> gw)"

definition reject :: "int \<Rightarrow> string \<Rightarrow> string \<Rightarrow> string \<Rightarrow> headers \<Rightarrow> serve_ctx \<Rightarrow> gw_state \<Rightarrow> serve_ctx \<times> gw_state" where
  "reject status code reason stage hdrs c gw =
     (finish_with (Responded \<lparr>rs_status = status,
        rs_headers = od_update (od_set ''x-orchestration-stage'' stage (cx_headers c)) hdrs,
        rs_body = RejectBody code reason\<rparr>) c,
      release_ref True (cx_lease c) gw)"

definition finish :: "int \<Rightarrow> serve_ctx \<Rightarrow> gw_state \<Rightarrow> serve_ctx \<times> gw_state" where
  "finish status c gw = (if cx_finished c then (c, gw)
     else (c\<lparr>cx_finished := True\<rparr>, release_ref (status \<ge> 500) (cx_lease c) gw))"

definition free_worker :: "(nat \<Rightarrow> pyfloat) \<Rightarrow> serve_ctx \<Rightarrow> gw_state \<Rightarrow> serve_ctx \<times> gw_state" where
  "free_worker clk c gw = (if cx_freed c then (c, gw)
     else (c\<lparr>cx_freed := True\<rparr>,
           gw\<lparr>reg := update_snap (cx_worker c) (note_finish (cx_token c))
                      (update_snap (cx_worker c) (apply_load (LInflight (- 1) (- cx_est c))) (reg gw)),
              queues := release_ticket clk (cx_ticket c) (queues gw)\<rparr>))"

definition release_all :: "(nat \<Rightarrow> pyfloat) \<Rightarrow> int \<Rightarrow> serve_ctx \<Rightarrow> gw_state \<Rightarrow> serve_ctx \<times> gw_state" where
  "release_all clk status c gw = (let (c1, gw1) = free_worker clk c gw in finish status c1 gw1)"

text \<open>\<open>once\<close>, the completion callback of an overflow response.\<close>

definition overflow_done :: "serve_ctx \<Rightarrow> gw_state \<Rightarrow> serve_ctx \<times> gw_state" where
  "overflow_done c gw = (if cx_once c then (c, gw) else (c\<lparr>cx_once := True\<rparr>, release_ref False (cx_lease c) gw))"

definition run_after :: "gw_config \<Rightarrow> pyfloat \<Rightarrow> after \<Rightarrow> serve_ctx \<Rightarrow> gw_state \<Rightarrow> serve_ctx \<times> gw_state" where
  "run_after cfg wall aft c gw = (case aft of
     AfterReject status code reason stage hdrs \<Rightarrow> reject status code reason stage hdrs c gw
   | AfterQueueReject reason \<Rightarrow>
       reject 503 reason ''request could not get a dispatch slot'' ''queue''
         [(''x-queue-decision'', reason), (''x-queue-wait-ms'', show_int (ms_of (wall - cx_qenter c))),
          (''retry-after'', show_int (retry_after_s (gc_admit cfg)))] c gw
   | AfterFinish resp \<Rightarrow> (let (c1, gw1) = finish (rs_status resp) c gw in (finish_with (Responded resp) c1, gw1))
   | AfterCrash status e \<Rightarrow> (let (c1, gw1) = finish status c gw in (finish_with (Crashed e) c1, gw1)))"

text \<open>\<open>try_overflow\<close> up to its request; \<open>t0\<close> is the monotonic clock, \<open>wall\<close> \<open>time.time()\<close>.\<close>

definition remaining_at :: "serve_ctx \<Rightarrow> pyfloat \<Rightarrow> pyfloat option" where
  "remaining_at c t0 = (case cx_deadline_ms c of None \<Rightarrow> None | Some ms \<Rightarrow> Some (cx_started c + of_int ms / 1000 - t0))"

definition try_overflow ::
  "gw_config \<Rightarrow> int \<Rightarrow> string \<Rightarrow> bool \<Rightarrow> pyfloat \<Rightarrow> pyfloat \<Rightarrow> after \<Rightarrow> serve_ctx \<Rightarrow> gw_state \<Rightarrow> serve_ctx \<times> gw_state" where
  "try_overflow cfg code reason never t0 wall aft c gw =
     (if \<not> overflow_active (gc_overflow cfg) \<or> decide_overflow code reason never = Local
         \<or> (case remaining_at c t0 of None \<Rightarrow> False | Some s \<Rightarrow> s \<le> 0)
      then run_after cfg wall aft c gw
      else (c\<lparr>cx_phase := AtOverflow reason aft\<rparr>, gw))"

subsection \<open>From the body to the queue\<close>

definition crash :: "py_exn \<Rightarrow> serve_ctx \<Rightarrow> gw_state \<Rightarrow> serve_ctx \<times> gw_state" where
  "crash e c gw = (finish_with (Crashed e) c, gw)"

fun action_name :: "intended_action \<Rightarrow> string" where
  "action_name LocalReuse = ''local_reuse''"
| "action_name DestinationHit = ''destination_hit''"
| "action_name Recompute = ''recompute''"
| "action_name Hop = ''hop''"

definition deadline_at :: "serve_ctx \<Rightarrow> pyfloat option" where
  "deadline_at c = (case cx_deadline_ms c of None \<Rightarrow> None | Some ms \<Rightarrow> Some (cx_now c + of_int ms / 1000))"

text \<open>With the slot in hand: hop decision, then the dispatch is counted at the worker.\<close>

definition serve_dispatch ::
  "gw_config \<Rightarrow> (nat \<Rightarrow> pyfloat) \<Rightarrow> pyfloat \<Rightarrow> nat \<Rightarrow> placement_decision \<Rightarrow> serve_ctx \<Rightarrow> gw_state \<Rightarrow> serve_ctx \<times> gw_state" where
  "serve_dispatch cfg t wait i d c gw =
     (let hdrs = od_update (cx_headers c) [(''x-queue-decision'', ''dispatched''), (''x-queue-wait-ms'', show_int (ms_of wait))];
          remaining = (case deadline_at c of None \<Rightarrow> None | Some dl \<Rightarrow> Some (dl - t 6)) in
      case hop_prepare (gc_env cfg) (gc_repr cfg) (t 9) (cx_body c) d hdrs remaining (x_kv_hop_mode (cx_req c)) (x_kv_hop_case (cx_req c)) of
        Inl e \<Rightarrow> crash e c gw
      | Inr (payload, hf) \<Rightarrow>
         (case map_of (snapshots (reg gw)) (cx_worker c) of
            None \<Rightarrow> crash (KeyError (cx_worker c)) c gw
          | Some s \<Rightarrow>
             (let s1 = apply_load (LInflight 1 (cx_est c)) s;
                  (token, s2) = note_dispatch (t 7) s1;
                  ((age_ms, index), s3) = warm_context (t 8) s2
              in (c\<lparr>cx_body := payload, cx_ticket := i, cx_token := token, cx_freed := False, cx_finished := False,
                    cx_headers := od_update hdrs [(''x-hop-decision'', hop_decision_reason hf),
                      (''x-worker-warm-age-ms'', show_int age_ms), (''x-worker-requests-since-warm'', show_int index)],
                    cx_phase := AtUpstream\<rparr>,
                  gw\<lparr>reg := set_snap (cx_worker c) s3 (reg gw)\<rparr>))))"

definition queue_rejected ::
  "gw_config \<Rightarrow> (nat \<Rightarrow> pyfloat) \<Rightarrow> string \<Rightarrow> serve_ctx \<Rightarrow> gw_state \<Rightarrow> serve_ctx \<times> gw_state" where
  "queue_rejected cfg t reason c gw = try_overflow cfg 503 reason False (t 5) (t 10) (AfterQueueReject reason) c gw"

definition unpend :: "string \<Rightarrow> gw_state \<Rightarrow> gw_state" where
  "unpend w gw = gw\<lparr>reg := update_snap w (apply_load (LPending (- 1))) (reg gw)\<rparr>"

definition enter_queue ::
  "gw_config \<Rightarrow> (nat \<Rightarrow> pyfloat) \<Rightarrow> placement_decision \<Rightarrow> serve_ctx \<Rightarrow> gw_state \<Rightarrow> serve_ctx \<times> gw_state" where
  "enter_queue cfg t d c gw =
     (let gw1 = gw\<lparr>reg := update_snap (cx_worker c) (apply_load (LPending 1)) (reg gw)\<rparr> in
      case acquire_start (cx_worker c) (cx_klass c) (cx_est c) (deadline_at c) (t 4) (queues gw1) of
        (AcqTicket i, q) \<Rightarrow> serve_dispatch cfg t 0 i d c (unpend (cx_worker c) (gw1\<lparr>queues := q\<rparr>))
      | (AcqFull, q) \<Rightarrow> queue_rejected cfg t ''queue_full'' c (unpend (cx_worker c) (gw1\<lparr>queues := q\<rparr>))
      | (AcqWait f timeout, q) \<Rightarrow> (c\<lparr>cx_phase := AtQueue f (t 4)\<rparr>, gw1\<lparr>queues := q\<rparr>))"

definition serve_placed ::
  "gw_config \<Rightarrow> (nat \<Rightarrow> pyfloat) \<Rightarrow> placement_decision \<Rightarrow> serve_ctx \<Rightarrow> gw_state \<Rightarrow> serve_ctx \<times> gw_state" where
  "serve_placed cfg t d c gw =
     (let w = chosen_worker d;
          ptokens = (case int_or_none (x_prefix_tokens (cx_req c)) of None \<Rightarrow> cx_est c | Some p \<Rightarrow> min p (cx_est c)) in
      if map_of (snapshots (reg gw)) w = None then crash (KeyError w) c gw
      else case record_prefix w (x_prefix_id (cx_req c)) ptokens (t 3) (reg gw) of
        Inl e \<Rightarrow> crash e c gw
      | Inr r \<Rightarrow>
          enter_queue cfg t d
            (c\<lparr>cx_worker := w, cx_decision := Some d, cx_qenter := t 11,
               cx_headers := od_update (cx_headers c)
                 [(''x-orchestration-stage'', ''worker_dispatch''), (''x-place-decision'', w),
                  (''x-placement-policy'', placement_policy d), (''x-placement-reason'', placement_reason d),
                  (''x-intended-action'', action_name (intended_action d))]\<rparr>)
            (gw\<lparr>reg := r\<rparr>))"

text \<open>The gateway's own queue depth is written into every snapshot before the pick.\<close>

definition refresh_queued :: "worker_queues \<Rightarrow> registry \<Rightarrow> registry" where
  "refresh_queued q r = r\<lparr>snapshots := map (\<lambda>(k, s). (k, apply_load (LQueued (depth q (snap_id s) None)) s)) (snapshots r)\<rparr>"

definition serve_pick_args :: "gw_config \<Rightarrow> pyfloat \<Rightarrow> serve_ctx \<Rightarrow> registry \<Rightarrow> pick_args" where
  "serve_pick_args cfg now c r = \<lparr>policy = or_default (cx_policy c) (gc_policy cfg), stale_after = gc_stale_s cfg,
     now_at = now, rr_index = fst (next_rr r), kv_used_max = 7/10, min_kv_free = 1/5,
     allow_forced = (gc_env cfg ''ALLOW_FORCED_PLACEMENT'' = Some ''1''), spill_queue = gc_spill cfg,
     batch_slot_limit = Some (slot_limit (gc_admit cfg) ''batch'')\<rparr>"

definition serve_place :: "gw_config \<Rightarrow> (nat \<Rightarrow> pyfloat) \<Rightarrow> serve_ctx \<Rightarrow> gw_state \<Rightarrow> serve_ctx \<times> gw_state" where
  "serve_place cfg t c gw =
     (let r = refresh_queued (queues gw) (reg gw);
          preq = \<lparr>prefix_id = x_prefix_id (cx_req c), pr_est_tokens = cx_est c, pr_class = cx_klass c,
                  forced_worker = x_force_worker (cx_req c)\<rparr>;
          gw1 = gw\<lparr>reg := snd (next_rr r)\<rparr> in
      case pick (gc_rng cfg) preq (serving_snapshots r) (serve_pick_args cfg (t 2) c r) of
        Inl e \<Rightarrow> try_overflow cfg 503 (placement_error_reason e) False (t 5) (t 10)
                  (AfterReject 503 (placement_error_reason e) ''no worker available for placement'' ''place'' []) c gw1
      | Inr d \<Rightarrow> serve_placed cfg t d c gw1)"

definition shed_response ::
  "gw_config \<Rightarrow> (nat \<Rightarrow> pyfloat) \<Rightarrow> shed \<Rightarrow> serve_ctx \<Rightarrow> gw_state \<Rightarrow> serve_ctx \<times> gw_state" where
  "shed_response cfg t sh c gw =
     try_overflow cfg (sh_code sh) (sh_reason sh) (never_overflow sh) (t 5) (t 10)
       (AfterReject (sh_code sh) (sh_reason sh) ''request shed by admission'' ''admit''
          [(''x-admit-decision'', ''shed:'' @ sh_reason sh), (''retry-after'', show_int (sh_retry_after sh))]) c gw"

definition serve_admit ::
  "gw_config \<Rightarrow> (nat \<Rightarrow> pyfloat) \<Rightarrow> bool \<Rightarrow> bool \<Rightarrow> serve_ctx \<Rightarrow> gw_state \<Rightarrow> serve_ctx \<times> gw_state" where
  "serve_admit cfg t admission_off quota_off c gw =
     (let (res, q) = (if quota_off then (Inr LeaseOff, quota gw)
            else (case acquire_lease (x_tenant_id (cx_req c)) (cx_est c) (cx_now c) (quota gw) of
                    (Inl sh, q) \<Rightarrow> (Inl sh, q) | (Inr i, q) \<Rightarrow> (Inr (LeaseHeld i), q)));
          gw1 = gw\<lparr>quota := q\<rparr> in
      case res of
        Inl sh \<Rightarrow> shed_response cfg t sh c gw1
      | Inr l \<Rightarrow>
         (let c1 = c\<lparr>cx_lease := l\<rparr> in
          if admission_off then serve_place cfg t c1 gw1
          else case should_shed \<lparr>ar_est_tokens = cx_est c, ar_deadline_ms = cx_deadline_ms c, ar_class = cx_klass c\<rparr>
                      (serving_snapshots (reg gw1)) (cx_now c) (gc_admit cfg) of
                 Shed sh \<Rightarrow> shed_response cfg t sh c1 gw1
               | Admit _ \<Rightarrow> serve_place cfg t c1 gw1))"

definition control_headers :: "gw_config \<Rightarrow> serve_request \<Rightarrow> string option \<Rightarrow> headers" where
  "control_headers cfg req pol =
     (if truthy_str pol then [(''x-policy-override-applied'', the pol)] else [])
     @ (if gc_env cfg ''ALLOW_EXPERIMENT_CONTROLS'' = Some ''1'' \<and> x_admission_mode req \<in> {Some ''on'', Some ''off''}
        then [(''x-admission-mode'', the (x_admission_mode req))] else [])"

definition serve_start :: "gw_config \<Rightarrow> (nat \<Rightarrow> pyfloat) \<Rightarrow> serve_ctx \<Rightarrow> gw_state \<Rightarrow> serve_ctx \<times> gw_state" where
  "serve_start cfg t c gw =
     (let req = cx_req c; body = (case rq_body req of None \<Rightarrow> JNull | Some b \<Rightarrow> b);
          controls = experiment_controls (gc_env cfg) (x_placement_policy_override req) (x_admission_mode req) (x_tenant_quota_mode req);
          (pol, admission_off, quota_off) = (case controls of None \<Rightarrow> (None, False, False) | Some x \<Rightarrow> x);
          c1 = c\<lparr>cx_started := t 0, cx_policy := pol, cx_headers := od_update (cx_headers c) (control_headers cfg req pol)\<rparr> in
      if controls = None
      then reject 400 ''invalid_experiment_control'' ''unsupported experiment control header value'' ''guard'' [] c1 gw
      else case inspect (gc_env cfg) body (x_estimated_prompt_tokens req) None None of
        Inl e \<Rightarrow> crash e c1 gw
      | Inr v \<Rightarrow>
         if \<not> g_ok v
         then reject (http_status v) (g_code v) (g_reason v) ''guard''
                [(''x-guard-decision'', ''reject:'' @ g_code v), (''x-admit-decision'', ''not_evaluated'')] c1 gw
         else (case body of
             JObj b \<Rightarrow> serve_admit cfg t admission_off quota_off
                 (c1\<lparr>cx_body := b, cx_est := estimate_prompt_tokens b (x_estimated_prompt_tokens req), cx_now := t 1\<rparr>) gw
           | _ \<Rightarrow> crash (TypeError ''body'') c1 gw))"

subsection \<open>From the queue to the response\<close>

text \<open>The three ways the wait for a slot ends.\<close>

definition queue_granted :: "gw_config \<Rightarrow> (nat \<Rightarrow> pyfloat) \<Rightarrow> nat \<Rightarrow> serve_ctx \<Rightarrow> gw_state \<Rightarrow> serve_ctx \<times> gw_state" where
  "queue_granted cfg t i c gw = (case (cx_phase c, cx_decision c) of
     (AtQueue f enq, Some d) \<Rightarrow>
       serve_dispatch cfg t (t 12 - enq) i d c
         (unpend (cx_worker c) (gw\<lparr>queues := acquire_granted i enq (t 12) (queues gw)\<rparr>))
   | _ \<Rightarrow> (c, gw))"

definition queue_timeout :: "gw_config \<Rightarrow> (nat \<Rightarrow> pyfloat) \<Rightarrow> serve_ctx \<Rightarrow> gw_state \<Rightarrow> serve_ctx \<times> gw_state" where
  "queue_timeout cfg t c gw = (case cx_phase c of
     AtQueue f enq \<Rightarrow>
       queue_rejected cfg t ''timeout_queue'' c
         (unpend (cx_worker c) (gw\<lparr>queues := acquire_timeout (cx_worker c) f (queues gw)\<rparr>))
   | _ \<Rightarrow> (c, gw))"

definition queue_cancelled :: "(nat \<Rightarrow> pyfloat) \<Rightarrow> serve_ctx \<Rightarrow> gw_state \<Rightarrow> serve_ctx \<times> gw_state" where
  "queue_cancelled clk c gw = (case cx_phase c of
     AtQueue f enq \<Rightarrow>
       (finish_with ClientGone c, release_ref True (cx_lease c)
         (unpend (cx_worker c) (gw\<lparr>queues := acquire_cancelled clk (cx_worker c) f (queues gw)\<rparr>)))
   | _ \<Rightarrow> (c, gw))"

text \<open>
  The worker's answer. \<open>Reply\<close> carries the status, the text and the parsed body, if it parses;
  \<open>ReplyUnreadable\<close> is a streamed answer with an error status whose body cannot be read.
\<close>

datatype upstream_reply =
    ConnectError string | RequestError string | Reply int string "json option" | ReplyUnreadable int

definition is_stream :: "serve_ctx \<Rightarrow> bool" where
  "is_stream c = truthy (jget_or (cx_body c) ''stream'' (JBool False))"

definition worker_url :: "serve_ctx \<Rightarrow> gw_state \<Rightarrow> string" where
  "worker_url c gw = (case map_of (snapshots (reg gw)) (cx_worker c) of None \<Rightarrow> [] | Some s \<Rightarrow> wk_url (worker s))"

definition detail_response :: "int \<Rightarrow> string \<Rightarrow> serve_ctx \<Rightarrow> response" where
  "detail_response code text c = \<lparr>rs_status = code, rs_headers = cx_headers c, rs_body = DetailBody text\<rparr>"

definition worker_unavailable ::
  "gw_config \<Rightarrow> (nat \<Rightarrow> pyfloat) \<Rightarrow> int \<Rightarrow> string \<Rightarrow> serve_ctx \<Rightarrow> gw_state \<Rightarrow> serve_ctx \<times> gw_state" where
  "worker_unavailable cfg t code exc c gw =
     (let (c1, gw1) = free_worker t c gw in
      try_overflow cfg code ''worker_unavailable'' False (t 5) (t 10)
        (AfterFinish (detail_response code (''Worker unavailable at '' @ worker_url c gw @ '': '' @ exc) c1)) c1 gw1)"

definition note_slice_oom :: "serve_ctx \<Rightarrow> gw_state \<Rightarrow> py_exn + serve_ctx \<times> gw_state" where
  "note_slice_oom c gw = try_bind (mark_cold (cx_worker c) (reg gw)) (\<lambda>r.
     Inr (c\<lparr>cx_headers := od_set ''x-upstream-reason'' SLICE_OOM (cx_headers c)\<rparr>, gw\<lparr>reg := r\<rparr>))"

text \<open>What the handler answers once the worker's reply with \<open>status\<close> is known.\<close>

definition reply_after :: "int \<Rightarrow> string \<Rightarrow> json option \<Rightarrow> serve_ctx \<Rightarrow> after" where
  "reply_after status text content c =
     (if status \<noteq> 200 then AfterFinish \<lparr>rs_status = status, rs_headers = cx_headers c, rs_body = UpstreamErrorBody text\<rparr>
      else case content of
        Some j \<Rightarrow> AfterFinish \<lparr>rs_status = 200, rs_headers = cx_headers c, rs_body = JsonBody j\<rparr>
      | None \<Rightarrow> AfterCrash 200 (ValueError ''Expecting value''))"

definition reply_received ::
  "gw_config \<Rightarrow> (nat \<Rightarrow> pyfloat) \<Rightarrow> int \<Rightarrow> string \<Rightarrow> json option \<Rightarrow> serve_ctx \<Rightarrow> gw_state \<Rightarrow> serve_ctx \<times> gw_state" where
  "reply_received cfg t status text content c gw =
     (let (c1, gw1) = free_worker t c gw; reason = classify_error status text in
      case (if reason = Some SLICE_OOM then note_slice_oom c1 gw1 else Inr (c1, gw1)) of
        Inl e \<Rightarrow> crash e c1 gw1
      | Inr (c2, gw2) \<Rightarrow>
          if status = 503 \<or> status = 529
          then try_overflow cfg status (case reason of Some r \<Rightarrow> r | None \<Rightarrow> ''worker_overloaded'') False (t 5) (t 10)
                 (reply_after status text content c2) c2 gw2
          else run_after cfg (t 10) (reply_after status text content c2) c2 gw2)"

definition upstream_plain ::
  "gw_config \<Rightarrow> (nat \<Rightarrow> pyfloat) \<Rightarrow> upstream_reply \<Rightarrow> serve_ctx \<Rightarrow> gw_state \<Rightarrow> serve_ctx \<times> gw_state" where
  "upstream_plain cfg t reply c gw = (case reply of
     ConnectError e \<Rightarrow> worker_unavailable cfg t 503 e c gw
   | RequestError e \<Rightarrow>
       (let (c1, gw1) = release_all t 502 c gw in
        (finish_with (Responded (detail_response 502 (''Error proxying to worker: '' @ e) c1)) c1, gw1))
   | Reply status text content \<Rightarrow> reply_received cfg t status text content c gw
   | ReplyUnreadable status \<Rightarrow> (c, gw))"

definition upstream_stream ::
  "gw_config \<Rightarrow> (nat \<Rightarrow> pyfloat) \<Rightarrow> upstream_reply \<Rightarrow> serve_ctx \<Rightarrow> gw_state \<Rightarrow> serve_ctx \<times> gw_state" where
  "upstream_stream cfg t reply c gw = (case reply of
     ConnectError e \<Rightarrow> worker_unavailable cfg t 503 e c gw
   | RequestError e \<Rightarrow> worker_unavailable cfg t 502 e c gw
   | Reply status text content \<Rightarrow>
       if status = 200 then (c\<lparr>cx_phase := AtStream\<rparr>, gw) else reply_received cfg t status text None c gw
   | ReplyUnreadable status \<Rightarrow> crash (RuntimeError ''ReadError'') c gw)"

definition upstream_resume ::
  "gw_config \<Rightarrow> (nat \<Rightarrow> pyfloat) \<Rightarrow> upstream_reply \<Rightarrow> serve_ctx \<Rightarrow> gw_state \<Rightarrow> serve_ctx \<times> gw_state" where
  "upstream_resume cfg t reply c gw =
     (if is_stream c then upstream_stream cfg t reply c gw else upstream_plain cfg t reply c gw)"

text \<open>
  The end of a local stream: the generator releases with its status, if it ever started, and the
  background task releases again.
\<close>

definition stream_end :: "(nat \<Rightarrow> pyfloat) \<Rightarrow> int option \<Rightarrow> serve_ctx \<Rightarrow> gw_state \<Rightarrow> serve_ctx \<times> gw_state" where
  "stream_end clk status c gw =
     (let (c1, gw1) = (case status of Some st \<Rightarrow> release_all clk st c gw | None \<Rightarrow> (c, gw));
          (c2, gw2) = release_all clk 499 c1 gw1
      in (finish_with (Responded \<lparr>rs_status = 200, rs_headers = cx_headers c2, rs_body = SseBody\<rparr>) c2, gw2))"

subsection \<open>The overflow attempt\<close>

datatype overflow_reply = OvFailed overflow_exn | OvOk json

definition overflow_out_headers :: "gw_config \<Rightarrow> string \<Rightarrow> serve_ctx \<Rightarrow> headers" where
  "overflow_out_headers cfg reason c = od_update (cx_headers c)
     [(''x-orchestration-stage'', ''overflow''), (''x-place-decision'', ''overflow''),
      (''x-overflow'', overflow_destination (gc_overflow cfg)), (''x-overflow-reason'', reason)]"

definition overflow_resume ::
  "gw_config \<Rightarrow> pyfloat \<Rightarrow> overflow_reply \<Rightarrow> serve_ctx \<Rightarrow> gw_state \<Rightarrow> serve_ctx \<times> gw_state" where
  "overflow_resume cfg wall reply c gw = (case cx_phase c of
     AtOverflow reason aft \<Rightarrow>
       (case reply of
          OvFailed e \<Rightarrow> run_after cfg wall aft c gw
        | OvOk content \<Rightarrow>
            if truthy (jget (cx_body c) ''stream'')
            then (c\<lparr>cx_phase := AtOverflowStream, cx_headers := overflow_out_headers cfg reason c\<rparr>, gw)
            else (let (c1, gw1) = overflow_done c gw in
              (finish_with (Responded \<lparr>rs_status = 200, rs_headers = overflow_out_headers cfg reason c, rs_body = JsonBody content\<rparr>) c1, gw1)))
   | _ \<Rightarrow> (c, gw))"

definition overflow_stream_end :: "bool \<Rightarrow> serve_ctx \<Rightarrow> gw_state \<Rightarrow> serve_ctx \<times> gw_state" where
  "overflow_stream_end started c gw =
     (let (c1, gw1) = (if started then overflow_done c gw else (c, gw)); (c2, gw2) = overflow_done c1 gw1
      in (finish_with (Responded \<lparr>rs_status = 200, rs_headers = cx_headers c2, rs_body = SseBody\<rparr>) c2, gw2))"

lemmas serve_defs [gw_defs] =
  finish_with_def release_ref_def reject_def finish_def free_worker_def release_all_def overflow_done_def
  run_after_def try_overflow_def crash_def

end
