(* ===== verification/Gw_System.thy ===== *)
theory Gw_System
  imports Gw_Serve
begin

text \<open>
  The gateway with any number of requests in flight. Each step runs one request to its next await,
  or lets the registry refresh. The invariant ties every counter that a request raises (the load of
  a worker, dispatch slots, tenant leases) to the requests that still owe it.
\<close>

subsection \<open>All requests together\<close>

type_synonym gw_sys = "gw_state \<times> serve_ctx list"

text \<open>
  \<open>strict\<close> leaves out the two events after which the code does not give everything back: the timer
  that fires between a grant and the waiter's resumption, and an error body that cannot be read.
\<close>

inductive ctx_step :: "gw_config \<Rightarrow> bool \<Rightarrow> serve_ctx \<times> gw_state \<Rightarrow> serve_ctx \<times> gw_state \<Rightarrow> bool" for cfg strict where
  cs_start: "cx_phase c = AtStart \<Longrightarrow> ctx_step cfg strict (c, gw) (serve_start cfg t c gw)"
| cs_timer: "cx_phase c = AtQueue f enq \<Longrightarrow>
    ctx_step cfg strict (c, gw) (c, gw\<lparr>queues := cancel_future f (queues gw)\<rparr>)"
| cs_granted: "cx_phase c = AtQueue f enq \<Longrightarrow> futs (queues gw) ! f = FutGranted i \<Longrightarrow>
    ctx_step cfg strict (c, gw) (queue_granted cfg t i c gw)"
| cs_timeout: "cx_phase c = AtQueue f enq \<Longrightarrow> futs (queues gw) ! f \<noteq> FutPending \<Longrightarrow>
    strict \<longrightarrow> futs (queues gw) ! f = FutCancelled \<Longrightarrow> ctx_step cfg strict (c, gw) (queue_timeout cfg t c gw)"
| cs_cancelled: "cx_phase c = AtQueue f enq \<Longrightarrow> futs (queues gw) ! f \<noteq> FutPending \<Longrightarrow>
    ctx_step cfg strict (c, gw) (queue_cancelled t c gw)"
| cs_upstream: "cx_phase c = AtUpstream \<Longrightarrow> strict \<longrightarrow> (\<forall>st. reply \<noteq> ReplyUnreadable st) \<Longrightarrow>
    ctx_step cfg strict (c, gw) (upstream_resume cfg t reply c gw)"
| cs_stream: "cx_phase c = AtStream \<Longrightarrow> ctx_step cfg strict (c, gw) (stream_end t st c gw)"
| cs_overflow: "cx_phase c = AtOverflow reason aft \<Longrightarrow> ctx_step cfg strict (c, gw) (overflow_resume cfg wall reply2 c gw)"
| cs_overflow_stream: "cx_phase c = AtOverflowStream \<Longrightarrow> ctx_step cfg strict (c, gw) (overflow_stream_end started c gw)"

text \<open>What the background refresh of the registry does between requests.\<close>

inductive reg_background :: "registry \<Rightarrow> registry \<Rightarrow> bool" where
  rb_scrape: "reg_background r (scrape parse clk resp w r)"
| rb_probe_begin: "reg_background r (probe_begin w r)"
| rb_probe_finish: "reg_background r (probe_finish w ok t1 t2 r)"

inductive gw_step :: "gw_config \<Rightarrow> bool \<Rightarrow> gw_sys \<Rightarrow> gw_sys \<Rightarrow> bool" for cfg strict where
  gs_arrive: "gw_step cfg strict (gw, cs) (gw, cs @ [new_ctx req])"
| gs_run: "i < length cs \<Longrightarrow> ctx_step cfg strict (cs ! i, gw) (c', gw') \<Longrightarrow> gw_step cfg strict (gw, cs) (gw', cs[i := c'])"
| gs_reg: "reg_background (reg gw) r \<Longrightarrow> gw_step cfg strict (gw, cs) (gw\<lparr>reg := r\<rparr>, cs)"

definition gw_init :: "gw_sys \<Rightarrow> bool" where
  "gw_init s \<longleftrightarrow> (\<exists>ws rw wms steps st mk gr al tb win mc qcfg.
     s = (\<lparr>reg = new_registry ws rw wms steps st mk gr, quota = new_quota al tb win mc, queues = new_queues qcfg\<rparr>, []))"

subsection \<open>What a request holds\<close>

definition slot_of :: "serve_ctx \<Rightarrow> (string \<times> int \<times> nat) option" where
  "slot_of c = (if (cx_phase c = AtUpstream \<or> cx_phase c = AtStream) \<and> \<not> cx_freed c
     then Some (cx_worker c, cx_est c, cx_ticket c) else None)"

definition wait_of :: "serve_ctx \<Rightarrow> (nat \<times> string) option" where
  "wait_of c = (case cx_phase c of AtQueue f _ \<Rightarrow> Some (f, cx_worker c) | _ \<Rightarrow> None)"

definition lease_of :: "serve_ctx \<Rightarrow> nat option" where
  "lease_of c = (case cx_phase c of Finished _ \<Rightarrow> None
     | _ \<Rightarrow> if cx_finished c \<or> cx_once c then None else (case cx_lease c of LeaseHeld i \<Rightarrow> Some i | _ \<Rightarrow> None))"

definition slots_on :: "string \<Rightarrow> serve_ctx \<Rightarrow> int" where
  "slots_on w c = (case slot_of c of Some (v, _, _) \<Rightarrow> if v = w then 1 else 0 | None \<Rightarrow> 0)"

definition tokens_on :: "string \<Rightarrow> serve_ctx \<Rightarrow> int" where
  "tokens_on w c = (case slot_of c of Some (v, e, _) \<Rightarrow> if v = w then e else 0 | None \<Rightarrow> 0)"

definition waits_on :: "string \<Rightarrow> serve_ctx \<Rightarrow> int" where
  "waits_on w c = (case wait_of c of Some (_, v) \<Rightarrow> if v = w then 1 else 0 | None \<Rightarrow> 0)"

definition ticket_of :: "serve_ctx \<Rightarrow> nat option" where
  "ticket_of c = map_option (\<lambda>(_, _, i). i) (slot_of c)"

definition total :: "(serve_ctx \<Rightarrow> int) \<Rightarrow> serve_ctx list \<Rightarrow> int" where
  "total g cs = sum_list (map g cs)"

lemma total_update: "i < length cs \<Longrightarrow> total g (cs[i := c]) = total g cs - g (cs ! i) + g c"
  by (induction cs arbitrary: i) (auto simp: total_def split: nat.splits)

lemma total_simps [simp]: "total g [] = 0" "total g (cs @ [c]) = total g cs + g c"
  by (simp_all add: total_def)

text \<open>How an operation changes the load that the registry records for each worker.\<close>

definition reg_eff :: "registry \<Rightarrow> registry \<Rightarrow> (string \<Rightarrow> int) \<Rightarrow> (string \<Rightarrow> int) \<Rightarrow> (string \<Rightarrow> int) \<Rightarrow> bool" where
  "reg_eff r r' fi ft fp \<longleftrightarrow> od_keys (snapshots r') = od_keys (snapshots r)
     \<and> (\<forall>w s. map_of (snapshots r) w = Some s \<longrightarrow> (\<exists>s'. map_of (snapshots r') w = Some s' \<and> worker s' = worker s
          \<and> inflight s' = inflight s + fi w \<and> inflight_tokens s' = inflight_tokens s + ft w \<and> pending s' = pending s + fp w))"

lemma reg_eff_trans:
  assumes "reg_eff r r1 fi ft fp" "reg_eff r1 r2 gi gt gp"
  shows "reg_eff r r2 (\<lambda>w. fi w + gi w) (\<lambda>w. ft w + gt w) (\<lambda>w. fp w + gp w)"
  unfolding reg_eff_def
proof (intro conjI allI impI)
  show "od_keys (snapshots r2) = od_keys (snapshots r)" using assms by (simp add: reg_eff_def)
next
  fix w s assume "map_of (snapshots r) w = Some s"
  then obtain s1 where 1: "map_of (snapshots r1) w = Some s1" "worker s1 = worker s" "inflight s1 = inflight s + fi w"
    "inflight_tokens s1 = inflight_tokens s + ft w" "pending s1 = pending s + fp w"
    using assms(1) unfolding reg_eff_def by blast
  then obtain s2 where "map_of (snapshots r2) w = Some s2" "worker s2 = worker s1" "inflight s2 = inflight s1 + gi w"
    "inflight_tokens s2 = inflight_tokens s1 + gt w" "pending s2 = pending s1 + gp w"
    using assms(2) unfolding reg_eff_def by blast
  with 1 show "\<exists>s'. map_of (snapshots r2) w = Some s' \<and> worker s' = worker s \<and> inflight s' = inflight s + (fi w + gi w)
      \<and> inflight_tokens s' = inflight_tokens s + (ft w + gt w) \<and> pending s' = pending s + (fp w + gp w)"
    by (intro exI [of _ s2]) simp
qed

lemma reg_eff_cong: "reg_eff r r' fi ft fp \<Longrightarrow> fi = gi \<Longrightarrow> ft = gt \<Longrightarrow> fp = gp \<Longrightarrow> reg_eff r r' gi gt gp"
  by simp

definition load_frame :: "registry \<Rightarrow> registry \<Rightarrow> bool" where
  "load_frame r r' \<longleftrightarrow> reg_eff r r' (\<lambda>_. 0) (\<lambda>_. 0) (\<lambda>_. 0)"

lemma load_frame_refl [simp]: "load_frame r r"
  by (simp add: load_frame_def reg_eff_def)

lemma load_frame_trans: "load_frame r r1 \<Longrightarrow> load_frame r1 r2 \<Longrightarrow> load_frame r r2"
  unfolding load_frame_def by (drule (1) reg_eff_trans) simp

lemma load_frame_same: "snapshots r' = snapshots r \<Longrightarrow> load_frame r r'"
  by (simp add: load_frame_def reg_eff_def)

lemma load_frame_set:
  assumes "map_of (snapshots r) w = Some s" "worker s' = worker s" "inflight s' = inflight s"
    "inflight_tokens s' = inflight_tokens s" "pending s' = pending s" "snapshots r' = od_set w s' (snapshots r)"
  shows "load_frame r r'"
  using assms by (auto simp: load_frame_def reg_eff_def od_set_same_keys)

lemma load_frame_snap:
  "map_of (snapshots r) w = Some s \<Longrightarrow> worker s' = worker s \<Longrightarrow> inflight s' = inflight s \<Longrightarrow>
   inflight_tokens s' = inflight_tokens s \<Longrightarrow> pending s' = pending s \<Longrightarrow> load_frame r (set_snap w s' r)"
  by (rule load_frame_set) simp_all

lemma reg_eff_set:
  assumes "map_of (snapshots r) w = Some s" "worker s' = worker s" "snapshots r' = od_set w s' (snapshots r)"
  shows "reg_eff r r' (\<lambda>v. if v = w then inflight s' - inflight s else 0)
     (\<lambda>v. if v = w then inflight_tokens s' - inflight_tokens s else 0) (\<lambda>v. if v = w then pending s' - pending s else 0)"
  using assms by (auto simp: reg_eff_def od_set_same_keys)


lemma update_snap_eff:
  assumes "\<And>s. worker (f s) = worker s" "\<And>s. inflight (f s) = inflight s + a" "\<And>s. inflight_tokens (f s) = inflight_tokens s + b"
    "\<And>s. pending (f s) = pending s + p"
  shows "reg_eff r (update_snap w f r) (\<lambda>v. if v = w then a else 0) (\<lambda>v. if v = w then b else 0) (\<lambda>v. if v = w then p else 0)"
proof (cases "map_of (snapshots r) w")
  case None
  then show ?thesis by (auto simp: update_snap_def reg_eff_def)
next
  case (Some s)
  have "snapshots (update_snap w f r) = od_set w (f s) (snapshots r)" using Some by (simp add: update_snap_def)
  from reg_eff_set [OF Some assms(1) this] show ?thesis
    by (rule reg_eff_cong) (simp_all add: assms(2-4) fun_eq_iff)
qed

lemma pend_eff: "reg_eff r (update_snap w (apply_load (LPending d)) r) (\<lambda>_. 0) (\<lambda>_. 0) (\<lambda>v. if v = w then d else 0)"
  using update_snap_eff [of "apply_load (LPending d)" 0 0 d r w] by simp

lemma inflight_eff: "reg_eff r (update_snap w (apply_load (LInflight a b)) r)
    (\<lambda>v. if v = w then a else 0) (\<lambda>v. if v = w then b else 0) (\<lambda>_. 0)"
  using update_snap_eff [of "apply_load (LInflight a b)" a b 0 r w] by simp

lemma note_finish_frame: "load_frame r (update_snap w (note_finish k) r)"
  using update_snap_eff [of "note_finish k" 0 0 0 r w] by (simp add: load_frame_def note_finish_def)

lemma record_prefix_frame: "record_prefix w p n t r = Inr r' \<Longrightarrow> load_frame r r'"
  by (auto simp: record_prefix_def intro: load_frame_snap split: option.splits if_splits)

lemma mark_cold_frame: "mark_cold w r = Inr r' \<Longrightarrow> load_frame r r'"
  by (auto simp: mark_cold_def mark_cold_snap_def Let_def intro: load_frame_snap split: option.splits)

lemma scrape_snap_frame:
  "worker (scrape_failed r s) = worker s" "inflight (scrape_failed r s) = inflight s"
  "inflight_tokens (scrape_failed r s) = inflight_tokens s" "pending (scrape_failed r s) = pending s"
  "worker (fst (scrape_ok r clk rn wt kv s)) = worker s" "inflight (fst (scrape_ok r clk rn wt kv s)) = inflight s"
  "inflight_tokens (fst (scrape_ok r clk rn wt kv s)) = inflight_tokens s" "pending (fst (scrape_ok r clk rn wt kv s)) = pending s"
  "worker (probe_warms r t1 t2 s) = worker s" "inflight (probe_warms r t1 t2 s) = inflight s"
  "inflight_tokens (probe_warms r t1 t2 s) = inflight_tokens s" "pending (probe_warms r t1 t2 s) = pending s"
  by (simp_all add: scrape_failed_def scrape_ok_def advance_ramp_def probe_warms_def start_ramp_def Let_def)

lemma scrape_frame: "load_frame r (scrape parse clk resp w r)"
proof (cases rule: scrape_cases [of r w parse clk resp])
  case 1
  then show ?thesis by simp
next
  case (2 s)
  then show ?thesis by (intro load_frame_set [of _ w s "scrape_failed r s"]) (simp_all add: scrape_snap_frame)
next
  case (3 s rn wt kv)
  then show ?thesis
    by (intro load_frame_set [of _ w s "fst (scrape_ok r clk rn wt kv s)"]) (simp_all add: scrape_snap_frame)
qed

lemma probe_finish_frame: "load_frame r (probe_finish w ok t1 t2 r)"
proof (cases "\<exists>e s. map_of (probes r) w = Some (ProbeRunning e) \<and> map_of (snapshots r) w = Some s
    \<and> probe_result_of r e ok s = ProbeOk")
  case True
  then obtain e s where "map_of (probes r) w = Some (ProbeRunning e)" "map_of (snapshots r) w = Some s"
    "probe_result_of r e ok s = ProbeOk" by blast
  then show ?thesis
    by (intro load_frame_set [of _ w s "probe_warms r t1 t2 s"]) (simp_all add: scrape_snap_frame probe_finish_def Let_def)
next
  case False
  then show ?thesis
    by (intro load_frame_same) (auto simp: probe_finish_def Let_def split: option.splits probe_task.splits)
qed

lemma background_frame: "reg_background r r' \<Longrightarrow> load_frame r r'"
proof (induction rule: reg_background.induct)
  case (rb_probe_begin r w)
  then show ?case
    by (intro load_frame_same) (simp add: probe_begin_def split: option.splits probe_task.splits)
qed (rule scrape_frame probe_finish_frame)+

lemma map_of_map_snd: "map_of (map (\<lambda>(k, s). (k, f s)) d) w = map_option f (map_of d w)"
  by (induction d) auto

lemma refresh_frame: "load_frame r (refresh_queued q r)"
  unfolding load_frame_def reg_eff_def refresh_queued_def
  by (auto simp: map_of_map_snd comp_def case_prod_beta simp del: apply_load.simps) simp_all

lemma next_rr_frame: "load_frame r (snd (next_rr r))"
  by (rule load_frame_same) (simp add: next_rr_def)

subsection \<open>The effect of one segment\<close>

text \<open>The active count of every tenant bucket is the number of its live leases.\<close>

definition active_counts :: "tenant_quota \<Rightarrow> bool" where
  "active_counts q \<longleftrightarrow> (\<forall>name. active (buckets q name) = count_if (\<lambda>l. l_bucket l = Some name) (leases q))"

definition opt_is :: "'a option \<Rightarrow> 'a \<Rightarrow> int" where
  "opt_is x i = (if x = Some i then 1 else 0)"

definition lease_shift :: "tenant_quota \<Rightarrow> serve_ctx \<Rightarrow> tenant_quota \<Rightarrow> serve_ctx \<Rightarrow> bool" where
  "lease_shift q c q' c' \<longleftrightarrow> (\<forall>i. lease_of c = Some i \<longrightarrow> lease_live i q) \<longrightarrow>
     (\<forall>i. of_bool (lease_live i q') = of_bool (lease_live i q) + opt_is (lease_of c') i - opt_is (lease_of c) i)"

text \<open>
  What a segment does to the queues, seen from outside: whatever tickets and waiters the other
  requests hold, the invariant of the queues is kept, and only this request's own ticket and
  waiter come or go.
\<close>

definition queue_shift :: "worker_queues \<Rightarrow> serve_ctx \<Rightarrow> worker_queues \<Rightarrow> serve_ctx \<Rightarrow> bool" where
  "queue_shift q c q' c' \<longleftrightarrow> (\<forall>held aw.
     qs_inv True \<lparr>qs_q = q, qs_held = held, qs_await = aw\<rparr>
     \<and> (\<forall>i. ticket_of c = Some i \<longrightarrow> i \<in> held) \<and> (\<forall>f w. wait_of c = Some (f, w) \<longrightarrow> aw f = Some w) \<longrightarrow>
     (\<exists>held' aw'. qs_inv True \<lparr>qs_q = q', qs_held = held', qs_await = aw'\<rparr>
        \<and> (\<forall>i. of_bool (i \<in> held') = of_bool (i \<in> held) + opt_is (ticket_of c') i - opt_is (ticket_of c) i)
        \<and> (\<forall>f w. of_bool (aw' f = Some w) = of_bool (aw f = Some w) + opt_is (wait_of c') (f, w) - opt_is (wait_of c) (f, w))))"

definition segment :: "gw_state \<Rightarrow> serve_ctx \<Rightarrow> gw_state \<Rightarrow> serve_ctx \<Rightarrow> bool" where
  "segment gw c gw' c' \<longleftrightarrow>
     reg_eff (reg gw) (reg gw') (\<lambda>w. slots_on w c' - slots_on w c) (\<lambda>w. tokens_on w c' - tokens_on w c)
       (\<lambda>w. waits_on w c' - waits_on w c)
     \<and> lease_shift (quota gw) c (quota gw') c'
     \<and> (active_counts (quota gw) \<longrightarrow> active_counts (quota gw'))
     \<and> queue_shift (queues gw) c (queues gw') c'"


lemma opt_is_bounds [simp]: "0 \<le> opt_is x i" "opt_is x i \<le> 1" "opt_is None i = 0" "opt_is (Some j) i = (if j = i then 1 else 0)"
  by (auto simp: opt_is_def)

lemma shift_keeps:
  assumes "of_bool b' = of_bool b + opt_is y i - opt_is x i" "x = Some i \<Longrightarrow> b" "y = Some i"
  shows b'
  using assms by (cases b'; cases b; auto simp: opt_is_def split: if_splits)

lemma lease_shift_trans: "lease_shift q c q1 c1 \<Longrightarrow> lease_shift q1 c1 q2 c2 \<Longrightarrow> lease_shift q c q2 c2"
  unfolding lease_shift_def using shift_keeps by (smt (verit, ccfv_threshold))

lemma queue_shift_trans:
  assumes "queue_shift q c q1 c1" "queue_shift q1 c1 q2 c2"
  shows "queue_shift q c q2 c2"
  unfolding queue_shift_def
proof (intro allI impI; elim conjE)
  fix held aw
  assume inv: "qs_inv True \<lparr>qs_q = q, qs_held = held, qs_await = aw\<rparr>"
    and t: "\<forall>i. ticket_of c = Some i \<longrightarrow> i \<in> held" and w: "\<forall>f w. wait_of c = Some (f, w) \<longrightarrow> aw f = Some w"
  from assms(1) inv t w obtain h1 a1 where 1: "qs_inv True \<lparr>qs_q = q1, qs_held = h1, qs_await = a1\<rparr>"
    "\<And>i. of_bool (i \<in> h1) = of_bool (i \<in> held) + opt_is (ticket_of c1) i - opt_is (ticket_of c) i"
    "\<And>f w. of_bool (a1 f = Some w) = of_bool (aw f = Some w) + opt_is (wait_of c1) (f, w) - opt_is (wait_of c) (f, w)"
    unfolding queue_shift_def by blast
  have "\<forall>i. ticket_of c1 = Some i \<longrightarrow> i \<in> h1" using shift_keeps [OF 1(2)] t by blast
  moreover have "\<forall>f w. wait_of c1 = Some (f, w) \<longrightarrow> a1 f = Some w" using shift_keeps [OF 1(3)] w by blast
  ultimately obtain h2 a2 where 2: "qs_inv True \<lparr>qs_q = q2, qs_held = h2, qs_await = a2\<rparr>"
    "\<And>i. of_bool (i \<in> h2) = of_bool (i \<in> h1) + opt_is (ticket_of c2) i - opt_is (ticket_of c1) i"
    "\<And>f w. of_bool (a2 f = Some w) = of_bool (a1 f = Some w) + opt_is (wait_of c2) (f, w) - opt_is (wait_of c1) (f, w)"
    using assms(2) 1(1) unfolding queue_shift_def by blast
  show "\<exists>held' aw'. qs_inv True \<lparr>qs_q = q2, qs_held = held', qs_await = aw'\<rparr>
      \<and> (\<forall>i. of_bool (i \<in> held') = of_bool (i \<in> held) + opt_is (ticket_of c2) i - opt_is (ticket_of c) i)
      \<and> (\<forall>f w. of_bool (aw' f = Some w) = of_bool (aw f = Some w) + opt_is (wait_of c2) (f, w) - opt_is (wait_of c) (f, w))"
    using 2 1(2,3) by (intro exI [of _ h2] exI [of _ a2]) simp
qed

lemma segment_trans: "segment gw c gw1 c1 \<Longrightarrow> segment gw1 c1 gw2 c2 \<Longrightarrow> segment gw c gw2 c2"
  unfolding segment_def
  by (intro conjI) (auto intro: lease_shift_trans queue_shift_trans dest: reg_eff_trans)

lemma queue_shift_view: "ticket_of c' = ticket_of c \<Longrightarrow> wait_of c' = wait_of c \<Longrightarrow> queue_shift q c q c'"
  unfolding queue_shift_def by auto

lemma lease_shift_view: "lease_of c' = lease_of c \<Longrightarrow> lease_shift q c q c'"
  by (simp add: lease_shift_def)

text \<open>A segment that only moves the request or refreshes the registry.\<close>

lemma segment_view:
  assumes "slot_of c' = slot_of c" "wait_of c' = wait_of c" "lease_of c' = lease_of c"
    "load_frame (reg gw) (reg gw')" "quota gw' = quota gw" "queues gw' = queues gw"
  shows "segment gw c gw' c'"
  using assms
  by (simp add: segment_def slots_on_def tokens_on_def waits_on_def load_frame_def lease_shift_view queue_shift_view ticket_of_def)

lemma release_active: "active_counts q \<Longrightarrow> active_counts (release_lease refund i q)"
  by (auto simp: active_counts_def release_lease_def release_bucket_def count_if_list_update Let_def split: option.splits)

lemma acquire_active:
  "active_counts q \<Longrightarrow> active_counts (snd (acquire_lease tenant n now q))"
  by (auto simp: active_counts_def acquire_lease_def expire_def Let_def case_prod_beta split: if_splits)

lemma release_live_iff: "lease_live j (release_lease refund i q) \<longleftrightarrow> lease_live j q \<and> j \<noteq> i"
  by (cases "i < length (leases q)") (auto simp: lease_live_def release_lease_def nth_list_update split: option.splits)

text \<open>Giving the lease back.\<close>

lemma segment_release:
  assumes "slot_of c' = slot_of c" "wait_of c' = wait_of c" "lease_of c' = None"
    "lease_of c = (case cx_lease c of LeaseHeld i \<Rightarrow> Some i | _ \<Rightarrow> None)"
  shows "segment gw c (release_ref refund (cx_lease c) gw) c'"
proof (cases "cx_lease c")
  case (LeaseHeld i)
  then have "lease_shift (quota gw) c (release_lease refund i (quota gw)) c'"
    using assms(3,4) by (auto simp: lease_shift_def release_live_iff)
  then show ?thesis
    using assms(1,2) LeaseHeld
    by (simp add: segment_def slots_on_def tokens_on_def waits_on_def release_ref_def queue_shift_view ticket_of_def
        release_active reg_eff_def)
qed (use assms in \<open>auto simp: release_ref_def intro!: segment_view\<close>)


text \<open>The operations on the queues, as the request sees them.\<close>

lemma queue_shift_step:
  assumes "\<And>held aw. (\<And>i. ticket_of c = Some i \<Longrightarrow> i \<in> held) \<Longrightarrow> (\<And>f w. wait_of c = Some (f, w) \<Longrightarrow> aw f = Some w) \<Longrightarrow>
      qs_inv True \<lparr>qs_q = q, qs_held = held, qs_await = aw\<rparr> \<Longrightarrow>
      \<exists>held' aw'. qs_step True \<lparr>qs_q = q, qs_held = held, qs_await = aw\<rparr> \<lparr>qs_q = q', qs_held = held', qs_await = aw'\<rparr>
        \<and> (\<forall>i. of_bool (i \<in> held') = of_bool (i \<in> held) + opt_is (ticket_of c') i - opt_is (ticket_of c) i)
        \<and> (\<forall>f w. of_bool (aw' f = Some w) = of_bool (aw f = Some w) + opt_is (wait_of c') (f, w) - opt_is (wait_of c) (f, w))"
  shows "queue_shift q c q' c'"
  unfolding queue_shift_def
proof (intro allI impI; elim conjE)
  fix held aw
  assume inv: "qs_inv True \<lparr>qs_q = q, qs_held = held, qs_await = aw\<rparr>"
    and "\<forall>i. ticket_of c = Some i \<longrightarrow> i \<in> held" "\<forall>f w. wait_of c = Some (f, w) \<longrightarrow> aw f = Some w"
  then obtain held' aw' where "qs_step True \<lparr>qs_q = q, qs_held = held, qs_await = aw\<rparr> \<lparr>qs_q = q', qs_held = held', qs_await = aw'\<rparr>"
    "\<forall>i. of_bool (i \<in> held') = of_bool (i \<in> held) + opt_is (ticket_of c') i - opt_is (ticket_of c) i"
    "\<forall>f w. of_bool (aw' f = Some w) = of_bool (aw f = Some w) + opt_is (wait_of c') (f, w) - opt_is (wait_of c) (f, w)"
    using assms [of held aw] by blast
  with qs_inv_step [OF this(1) inv] show "\<exists>held' aw'. qs_inv True \<lparr>qs_q = q', qs_held = held', qs_await = aw'\<rparr>
      \<and> (\<forall>i. of_bool (i \<in> held') = of_bool (i \<in> held) + opt_is (ticket_of c') i - opt_is (ticket_of c) i)
      \<and> (\<forall>f w. of_bool (aw' f = Some w) = of_bool (aw f = Some w) + opt_is (wait_of c') (f, w) - opt_is (wait_of c) (f, w))"
    by blast
qed

lemma queue_shift_release:
  assumes "ticket_of c = Some i" "ticket_of c' = None" "wait_of c = None" "wait_of c' = None"
  shows "queue_shift q c (release_ticket clk i q) c'"
proof (rule queue_shift_step)
  fix held :: "nat set" and aw assume "\<And>i. ticket_of c = Some i \<Longrightarrow> i \<in> held"
  with assms(1) have i: "i \<in> held" by blast
  let ?s = "\<lparr>qs_q = q, qs_held = held, qs_await = aw\<rparr>"
  have "qs_step True ?s \<lparr>qs_q = release_ticket clk i q, qs_held = held - {i}, qs_await = aw\<rparr>"
    using qs_release [of i ?s True clk] i by simp
  then show "\<exists>held' aw'. qs_step True ?s \<lparr>qs_q = release_ticket clk i q, qs_held = held', qs_await = aw'\<rparr>
        \<and> (\<forall>i. of_bool (i \<in> held') = of_bool (i \<in> held) + opt_is (ticket_of c') i - opt_is (ticket_of c) i)
        \<and> (\<forall>f w. of_bool (aw' f = Some w) = of_bool (aw f = Some w) + opt_is (wait_of c') (f, w) - opt_is (wait_of c) (f, w))"
    using assms i by (intro exI [of _ "held - {i}"] exI [of _ aw]) auto
qed

lemma queue_shift_timer:
  assumes "wait_of c = Some (f, w)"
  shows "queue_shift q c (cancel_future f q) c"
proof (rule queue_shift_step)
  fix held :: "nat set" and aw assume "\<And>f w. wait_of c = Some (f, w) \<Longrightarrow> aw f = Some w"
  with assms have "aw f = Some w" by blast
  then show "\<exists>held' aw'. qs_step True \<lparr>qs_q = q, qs_held = held, qs_await = aw\<rparr> \<lparr>qs_q = cancel_future f q, qs_held = held', qs_await = aw'\<rparr>
        \<and> (\<forall>i. of_bool (i \<in> held') = of_bool (i \<in> held) + opt_is (ticket_of c) i - opt_is (ticket_of c) i)
        \<and> (\<forall>f w. of_bool (aw' f = Some w) = of_bool (aw f = Some w) + opt_is (wait_of c) (f, w) - opt_is (wait_of c) (f, w))"
    using qs_timer [of "\<lparr>qs_q = q, qs_held = held, qs_await = aw\<rparr>" f w True]
    by (intro exI [of _ held] exI [of _ aw]) simp
qed

lemma await_drop:
  "aw f = Some w \<Longrightarrow> of_bool ((aw(f := None)) g = Some v) = of_bool (aw g = Some v) - opt_is (Some (f, w)) (g, v)"
  by auto

lemma queue_shift_leave:
  assumes w: "wait_of c = Some (f, w)" "wait_of c' = None" "ticket_of c = None" "ticket_of c' = None"
    and step: "\<And>held aw. aw f = Some w \<Longrightarrow> qs_step True \<lparr>qs_q = q, qs_held = held, qs_await = aw\<rparr>
      \<lparr>qs_q = q', qs_held = held, qs_await = aw(f := None)\<rparr>"
  shows "queue_shift q c q' c'"
proof (rule queue_shift_step)
  fix held :: "nat set" and aw assume "\<And>f w. wait_of c = Some (f, w) \<Longrightarrow> aw f = Some w"
  with w have aw: "aw f = Some w" by blast
  then show "\<exists>held' aw'. qs_step True \<lparr>qs_q = q, qs_held = held, qs_await = aw\<rparr> \<lparr>qs_q = q', qs_held = held', qs_await = aw'\<rparr>
        \<and> (\<forall>i. of_bool (i \<in> held') = of_bool (i \<in> held) + opt_is (ticket_of c') i - opt_is (ticket_of c) i)
        \<and> (\<forall>f w. of_bool (aw' f = Some w) = of_bool (aw f = Some w) + opt_is (wait_of c') (f, w) - opt_is (wait_of c) (f, w))"
    using step [of aw held, OF aw] w by (intro exI [of _ held] exI [of _ "aw(f := None)"]) (auto simp: await_drop [of aw f w, OF aw])
qed

lemma queue_shift_timeout:
  assumes "wait_of c = Some (f, w)" "wait_of c' = None" "ticket_of c = None" "ticket_of c' = None" "futs q ! f = FutCancelled"
  shows "queue_shift q c (acquire_timeout w f q) c'"
  using assms(1-4)
proof (rule queue_shift_leave)
  fix held aw assume "aw f = Some w"
  then show "qs_step True \<lparr>qs_q = q, qs_held = held, qs_await = aw\<rparr>
      \<lparr>qs_q = acquire_timeout w f q, qs_held = held, qs_await = aw(f := None)\<rparr>"
    using qs_timeout [of "\<lparr>qs_q = q, qs_held = held, qs_await = aw\<rparr>" f w True] assms(5) by simp
qed

lemma queue_shift_cancelled:
  assumes "wait_of c = Some (f, w)" "wait_of c' = None" "ticket_of c = None" "ticket_of c' = None" "futs q ! f \<noteq> FutPending"
  shows "queue_shift q c (acquire_cancelled clk w f q) c'"
  using assms(1-4)
proof (rule queue_shift_leave)
  fix held aw assume "aw f = Some w"
  then show "qs_step True \<lparr>qs_q = q, qs_held = held, qs_await = aw\<rparr>
      \<lparr>qs_q = acquire_cancelled clk w f q, qs_held = held, qs_await = aw(f := None)\<rparr>"
    using qs_cancelled [of "\<lparr>qs_q = q, qs_held = held, qs_await = aw\<rparr>" f w True clk] assms(5) by simp
qed

lemma queue_shift_granted:
  assumes w: "wait_of c = Some (f, w)" "wait_of c' = None" "ticket_of c = None" "ticket_of c' = Some i"
    and g: "futs q ! f = FutGranted i"
  shows "queue_shift q c (acquire_granted i enq now q) c'"
proof (rule queue_shift_step)
  fix held :: "nat set" and aw assume "\<And>f w. wait_of c = Some (f, w) \<Longrightarrow> aw f = Some w"
    and inv: "qs_inv True \<lparr>qs_q = q, qs_held = held, qs_await = aw\<rparr>"
  with w have aw: "aw f = Some w" by blast
  have "promised q aw f i" using aw g by (simp add: promised_def)
  then have fresh: "i \<notin> held" using inv by (auto simp: qs_inv_def slots_owned_def)
  show "\<exists>held' aw'. qs_step True \<lparr>qs_q = q, qs_held = held, qs_await = aw\<rparr>
          \<lparr>qs_q = acquire_granted i enq now q, qs_held = held', qs_await = aw'\<rparr>
        \<and> (\<forall>i. of_bool (i \<in> held') = of_bool (i \<in> held) + opt_is (ticket_of c') i - opt_is (ticket_of c) i)
        \<and> (\<forall>f w. of_bool (aw' f = Some w) = of_bool (aw f = Some w) + opt_is (wait_of c') (f, w) - opt_is (wait_of c) (f, w))"
    using qs_granted [of "\<lparr>qs_q = q, qs_held = held, qs_await = aw\<rparr>" f w i True enq now] aw g w fresh
    by (intro exI [of _ "insert i held"] exI [of _ "aw(f := None)"]) (auto simp: await_drop [of aw f w, OF aw])
qed

lemma queue_shift_call:
  assumes "acquire_start w cls est dl now q = (out, q')" "wait_of c = None" "ticket_of c = None"
    "ticket_of c' = (case out of AcqTicket i \<Rightarrow> Some i | _ \<Rightarrow> None)"
    "wait_of c' = (case out of AcqWait f _ \<Rightarrow> Some (f, w) | _ \<Rightarrow> None)"
  shows "queue_shift q c q' c'"
proof (rule queue_shift_step)
  fix held :: "nat set" and aw assume inv: "qs_inv True \<lparr>qs_q = q, qs_held = held, qs_await = aw\<rparr>"
  have fresh: "out = AcqTicket i \<Longrightarrow> i \<notin> held" "out = AcqWait f tm \<Longrightarrow> aw f = None" for i f tm
    using inv assms(1) by (auto simp: qs_inv_def slots_owned_def acquire_start_def Let_def dest: live_lt split: if_splits)
  show "\<exists>held' aw'. qs_step True \<lparr>qs_q = q, qs_held = held, qs_await = aw\<rparr> \<lparr>qs_q = q', qs_held = held', qs_await = aw'\<rparr>
        \<and> (\<forall>i. of_bool (i \<in> held') = of_bool (i \<in> held) + opt_is (ticket_of c') i - opt_is (ticket_of c) i)
        \<and> (\<forall>f w. of_bool (aw' f = Some w) = of_bool (aw f = Some w) + opt_is (wait_of c') (f, w) - opt_is (wait_of c) (f, w))"
    using qs_call [of w cls est dl now "\<lparr>qs_q = q, qs_held = held, qs_await = aw\<rparr>" out q' True] assms fresh
    by (intro exI [of _ "case out of AcqTicket i \<Rightarrow> insert i held | _ \<Rightarrow> held"]
        exI [of _ "case out of AcqWait f _ \<Rightarrow> aw(f \<mapsto> w) | _ \<Rightarrow> aw"]) (auto split: acquire_outcome.splits)
qed


subsection \<open>Every segment of the handler\<close>

definition keys_of :: "gw_state \<Rightarrow> string set" where
  "keys_of gw = fst ` set (snapshots (reg gw))"

lemma known_iff: "w \<in> keys_of gw \<longleftrightarrow> (\<exists>s. map_of (snapshots (reg gw)) w = Some s)"
  by (metis keys_of_def map_of_eq_None_iff not_Some_eq)

definition corr_ok :: "headers \<Rightarrow> bool" where
  "corr_ok h \<longleftrightarrow> (\<forall>k \<in> {''x-request-id'', ''x-conversation-id'', ''x-agent-step''}. map_of h k \<noteq> None)"

definition open_ctx :: "serve_ctx \<Rightarrow> bool" where
  "open_ctx c \<longleftrightarrow> \<not> cx_finished c \<and> \<not> cx_once c \<and> corr_ok (cx_headers c) \<and> (\<forall>r. cx_phase c \<noteq> Finished r)"

definition ctx_ok :: "string set \<Rightarrow> serve_ctx \<Rightarrow> bool" where
  "ctx_ok K c \<longleftrightarrow> (\<exists>r. cx_phase c = Finished r) \<or> open_ctx c
     \<and> (cx_phase c = AtUpstream \<or> cx_phase c = AtStream \<longrightarrow> \<not> cx_freed c \<and> cx_worker c \<in> K)
     \<and> (\<forall>f e. cx_phase c = AtQueue f e \<longrightarrow> cx_decision c \<noteq> None \<and> cx_worker c \<in> K)
     \<and> (cx_phase c = AtStart \<longrightarrow> cx_lease c = LeaseUnset)"

definition idle :: "serve_ctx \<Rightarrow> bool" where
  "idle c \<longleftrightarrow> slot_of c = None \<and> wait_of c = None"

definition lref :: "serve_ctx \<Rightarrow> nat option" where
  "lref c = (case cx_lease c of LeaseHeld i \<Rightarrow> Some i | _ \<Rightarrow> None)"

definition seg_ok :: "gw_state \<Rightarrow> serve_ctx \<Rightarrow> serve_ctx \<times> gw_state \<Rightarrow> bool" where
  "seg_ok gw c r \<longleftrightarrow> segment gw c (snd r) (fst r) \<and> ctx_ok (keys_of gw) (fst r)"

lemma lease_of_open: "open_ctx c \<Longrightarrow> lease_of c = lref c"
  by (auto simp: open_ctx_def lease_of_def lref_def split: phase.splits)

lemma finish_with_view [simp]:
  "slot_of (finish_with r c) = None" "wait_of (finish_with r c) = None" "lease_of (finish_with r c) = None"
  "ctx_ok K (finish_with r c)"
  by (simp_all add: finish_with_def slot_of_def wait_of_def lease_of_def ctx_ok_def)

lemma ticket_none: "slot_of c = None \<Longrightarrow> ticket_of c = None"
  by (simp add: ticket_of_def)

lemma segment_keys: "segment gw c gw' c' \<Longrightarrow> keys_of gw' = keys_of gw"
  unfolding segment_def reg_eff_def keys_of_def by (metis list.set_map)

lemma seg_ok_trans: "segment gw c gw1 c1 \<Longrightarrow> seg_ok gw1 c1 r \<Longrightarrow> seg_ok gw c r"
  unfolding seg_ok_def using segment_trans segment_keys by metis

lemma crash_seg: "idle c \<Longrightarrow> lease_of c = None \<Longrightarrow> seg_ok gw c (crash e c gw)"
  by (simp add: seg_ok_def crash_def idle_def segment_view)

lemma reject_seg: "idle c \<Longrightarrow> open_ctx c \<Longrightarrow> seg_ok gw c (reject st code reason stage hdrs c gw)"
  by (simp add: seg_ok_def reject_def idle_def segment_release lease_of_open lref_def)

lemma finish_seg: "idle c \<Longrightarrow> open_ctx c \<Longrightarrow> finish st c gw = (c1, gw1) \<Longrightarrow> seg_ok gw c (finish_with r c1, gw1)"
  unfolding seg_ok_def finish_def open_ctx_def
  by (auto simp: idle_def lease_of_open lref_def open_ctx_def intro!: segment_release)

lemma done_seg: "idle c \<Longrightarrow> open_ctx c \<Longrightarrow> overflow_done c gw = (c1, gw1) \<Longrightarrow> seg_ok gw c (finish_with r c1, gw1)"
  unfolding seg_ok_def overflow_done_def open_ctx_def
  by (auto simp: idle_def lease_of_open lref_def open_ctx_def intro!: segment_release)

lemma run_after_seg: "idle c \<Longrightarrow> open_ctx c \<Longrightarrow> seg_ok gw c (run_after cfg wall aft c gw)"
  by (auto simp: run_after_def case_prod_beta intro!: reject_seg finish_seg split: after.split)

lemma try_overflow_seg:
  assumes "idle c" "open_ctx c"
  shows "seg_ok gw c (try_overflow cfg code reason never t0 wall aft c gw)"
proof -
  let ?c = "c\<lparr>cx_phase := AtOverflow reason aft\<rparr>"
  have o: "open_ctx ?c" using assms(2) by (simp add: open_ctx_def)
  have "seg_ok gw c (?c, gw)"
    using assms o lease_of_open [OF o] lease_of_open [OF assms(2)]
    by (auto simp: seg_ok_def idle_def ctx_ok_def slot_of_def wait_of_def lref_def intro!: segment_view)
  then show ?thesis using run_after_seg [OF assms] by (simp add: try_overflow_def)
qed

text \<open>None of these looks at the phase the request was in.\<close>

lemma run_after_phase: "run_after cfg wall aft (c\<lparr>cx_phase := p\<rparr>) gw = run_after cfg wall aft c gw"
  by (simp add: run_after_def reject_def finish_def finish_with_def split: after.split)

lemma remaining_phase [simp]: "remaining_at (c\<lparr>cx_phase := p\<rparr>) t0 = remaining_at c t0"
  by (simp add: remaining_at_def split: option.split)

lemma try_overflow_phase:
  "try_overflow cfg code reason never t0 wall aft (c\<lparr>cx_phase := p\<rparr>) gw = try_overflow cfg code reason never t0 wall aft c gw"
  by (simp add: try_overflow_def run_after_phase)

text \<open>The worker's side is given back: its load and the dispatch slot.\<close>

lemma free_worker_seg:
  assumes "slot_of c = Some (w, e, i)" "wait_of c = None" "free_worker clk c gw = (c1, gw1)"
  shows "segment gw c gw1 c1" "idle c1" "cx_headers c1 = cx_headers c" "cx_worker c1 = cx_worker c"
    "open_ctx c1 = open_ctx c" "lease_of c1 = lease_of c"
proof -
  have nf: "\<not> cx_freed c" "w = cx_worker c" "e = cx_est c" "i = cx_ticket c"
    using assms(1) by (auto simp: slot_of_def split: if_splits)
  then have e: "c1 = c\<lparr>cx_freed := True\<rparr>"
    "reg gw1 = update_snap w (note_finish (cx_token c)) (update_snap w (apply_load (LInflight (- 1) (- e))) (reg gw))"
    "queues gw1 = release_ticket clk i (queues gw)" "quota gw1 = quota gw"
    using assms(3) by (auto simp: free_worker_def)
  have v: "slot_of c1 = None" "wait_of c1 = None" by (use assms(2) in \<open>simp_all add: e(1) slot_of_def wait_of_def split: phase.splits\<close>)
  then show "idle c1" by (simp add: idle_def)
  show l: "lease_of c1 = lease_of c" by (simp add: e(1) lease_of_def split: phase.splits lease_ref.splits)
  have "reg_eff (reg gw) (reg gw1) (\<lambda>v. slots_on v c1 - slots_on v c) (\<lambda>v. tokens_on v c1 - tokens_on v c) (\<lambda>v. waits_on v c1 - waits_on v c)"
    unfolding e(2) using reg_eff_trans [OF inflight_eff [of "reg gw" w "- 1" "- e"] note_finish_frame [unfolded load_frame_def, of _ w "cx_token c"]]
    by (rule reg_eff_cong) (auto simp: fun_eq_iff slots_on_def tokens_on_def waits_on_def v assms(1,2))
  moreover have "queue_shift (queues gw) c (queues gw1) c1"
    unfolding e(3) by (rule queue_shift_release) (use assms v in \<open>simp_all add: ticket_of_def\<close>)
  ultimately show "segment gw c gw1 c1" by (simp add: segment_def e(4) lease_shift_view l)
  show "cx_headers c1 = cx_headers c" "cx_worker c1 = cx_worker c" "open_ctx c1 = open_ctx c"
    by (simp_all add: e(1) open_ctx_def)
qed


text \<open>The hop stage cannot fail once the operator's threshold is a number.\<close>

definition hop_env_ok :: "environ \<Rightarrow> bool" where
  "hop_env_ok env \<longleftrightarrow> env ''KV_HOP_ENABLED'' = Some ''1'' \<longrightarrow>
     isl (int_of (getenv env ''KV_HOP_MIN_TOKENS'' (show_int DEFAULT_MIN_TOKENS))) = False"

lemma od_update_get: "map_of (od_update d kvs) k \<noteq> None \<longleftrightarrow> map_of d k \<noteq> None \<or> k \<in> fst ` set kvs"
proof (induction kvs arbitrary: d)
  case Nil
  then show ?case by (simp add: od_update_def)
next
  case (Cons p kvs)
  have "od_update d (p # kvs) = od_update (od_set (fst p) (snd p) d) kvs"
    by (simp add: od_update_def case_prod_beta)
  with Cons.IH [of "od_set (fst p) (snd p) d"] show ?case by auto
qed

lemma corr_ok_update: "corr_ok h \<Longrightarrow> corr_ok (od_update h kvs)"
  unfolding corr_ok_def od_update_get by blast

lemma hop_prepare_ok:
  assumes "hop_env_ok env" "corr_ok h"
  obtains payload f where "hop_prepare env rp epoch body d h remaining override exp_case = Inr (payload, f)"
proof -
  have "hop_params rp epoch h remaining lr \<noteq> None" for lr
    using assms(2) by (auto simp: corr_ok_def hop_params_def split: option.splits)
  then have "\<exists>x. hop_prepare env rp epoch body d h remaining override exp_case = Inr x"
    using assms(1) not_None_eq by (cases "int_of (getenv env ''KV_HOP_MIN_TOKENS'' (show_int DEFAULT_MIN_TOKENS))")
      (simp_all add: hop_prepare_def hop_env_ok_def Let_def split: option.splits, metis option.distinct(1))
  then show thesis using that by auto
qed

text \<open>
  Dispatch. \<open>c0\<close> is the request before the queue answered, \<open>gw\<close> the state then; the answer of the
  queue is in \<open>gw1\<close>.
\<close>

lemma dispatch_seg:
  assumes env: "hop_env_ok (gc_env cfg)" "corr_ok (cx_headers c)" and k: "cx_worker c \<in> keys_of gw1"
    and c0: "slot_of c0 = None" "lease_of c0 = lref c" "\<not> cx_once c"
    and r: "reg_eff (reg gw) (reg gw1) (\<lambda>_. 0) (\<lambda>_. 0) (\<lambda>v. - waits_on v c0)" and qt: "quota gw1 = quota gw"
    and qs: "\<And>c'. ticket_of c' = Some i \<Longrightarrow> wait_of c' = None \<Longrightarrow> queue_shift (queues gw) c0 (queues gw1) c'"
  shows "seg_ok gw c0 (serve_dispatch cfg t wait i d c gw1)"
proof -
  define hdrs where "hdrs = od_update (cx_headers c) [(''x-queue-decision'', ''dispatched''), (''x-queue-wait-ms'', show_int (ms_of wait))]"
  define remaining where "remaining = (case deadline_at c of None \<Rightarrow> None | Some dl \<Rightarrow> Some (dl - t 6))"
  have ch: "corr_ok hdrs" using env(2) by (simp add: hdrs_def corr_ok_update)
  obtain payload hf where hp: "hop_prepare (gc_env cfg) (gc_repr cfg) (t 9) (cx_body c) d hdrs remaining
      (x_kv_hop_mode (cx_req c)) (x_kv_hop_case (cx_req c)) = Inr (payload, hf)"
    by (rule hop_prepare_ok [OF env(1) ch])
  obtain s where s: "map_of (snapshots (reg gw1)) (cx_worker c) = Some s"
    using k by (auto simp: known_iff)
  define s1 where "s1 = apply_load (LInflight 1 (cx_est c)) s"
  obtain token s2 where 2: "note_dispatch (t 7) s1 = (token, s2)" by (cases "note_dispatch (t 7) s1")
  obtain am ix s3 where 3: "warm_context (t 8) s2 = ((am, ix), s3)" by (metis surj_pair)
  define c' where "c' = fst (serve_dispatch cfg t wait i d c gw1)"
  define gw' where "gw' = snd (serve_dispatch cfg t wait i d c gw1)"
  have e: "cx_phase c' = AtUpstream" "cx_freed c' = False" "cx_finished c' = False" "cx_once c' = cx_once c" "cx_worker c' = cx_worker c"
    "cx_est c' = cx_est c" "cx_ticket c' = i" "cx_lease c' = cx_lease c"
    "cx_headers c' = od_update hdrs [(''x-hop-decision'', hop_decision_reason hf),
         (''x-worker-warm-age-ms'', show_int am), (''x-worker-requests-since-warm'', show_int ix)]"
    "gw' = gw1\<lparr>reg := set_snap (cx_worker c) s3 (reg gw1)\<rparr>"
    by (simp_all add: c'_def gw'_def serve_dispatch_def Let_def hdrs_def [symmetric] remaining_def [symmetric] hp s
        s1_def [symmetric] 2 3 del: apply_load.simps)
  have v: "slot_of c' = Some (cx_worker c, cx_est c, i)" "wait_of c' = None" by (simp_all add: slot_of_def wait_of_def e)
  have o: "open_ctx c'" using ch c0(3) by (simp add: open_ctx_def e corr_ok_update)
  have l: "lease_of c' = lease_of c0" using lease_of_open [OF o] c0(2) by (simp add: lref_def e)
  have ss: "worker s3 = worker s" "inflight s3 = inflight s + 1" "inflight_tokens s3 = inflight_tokens s + cx_est c" "pending s3 = pending s"
    using 2 3 by (auto simp: s1_def note_dispatch_def warm_context_def Let_def)
  have "reg_eff (reg gw1) (reg gw') (\<lambda>v. slots_on v c') (\<lambda>v. tokens_on v c') (\<lambda>_. 0)"
    by (rule reg_eff_cong [OF reg_eff_set [OF s ss(1)]]) (auto simp: e(10) ss fun_eq_iff slots_on_def tokens_on_def v)
  from reg_eff_trans [OF r this]
  have "reg_eff (reg gw) (reg gw') (\<lambda>w. slots_on w c' - slots_on w c0) (\<lambda>w. tokens_on w c' - tokens_on w c0) (\<lambda>w. waits_on w c' - waits_on w c0)"
    by (rule reg_eff_cong) (auto simp: fun_eq_iff slots_on_def tokens_on_def waits_on_def v c0(1))
  moreover have "queue_shift (queues gw) c0 (queues gw') c'" unfolding e(10) using qs [of c'] v by (simp add: ticket_of_def)
  ultimately have "segment gw c0 gw' c'" by (simp add: segment_def e(10) qt lease_shift_view l)
  moreover have "ctx_ok (keys_of gw) c'"
    using o k r by (simp add: ctx_ok_def e keys_of_def reg_eff_def) (metis list.set_map)
  ultimately show ?thesis by (simp add: seg_ok_def c'_def gw'_def)
qed


lemma pend_unpend_eff:
  "reg_eff r (update_snap w (apply_load (LPending (- 1))) (update_snap w (apply_load (LPending 1)) r)) (\<lambda>_. 0) (\<lambda>_. 0) (\<lambda>_. 0)"
  by (rule reg_eff_cong [OF reg_eff_trans [OF pend_eff pend_eff]]) (auto simp: fun_eq_iff)

lemma reg_eff_keys: "reg_eff (reg gw) (reg gw') a b d \<Longrightarrow> keys_of gw' = keys_of gw"
  unfolding reg_eff_def keys_of_def by (metis list.set_map)

lemma segment_idle_queue:
  assumes "idle c" "load_frame (reg gw) (reg gw')" "quota gw' = quota gw" "queue_shift (queues gw) c (queues gw') c"
  shows "segment gw c gw' c"
  using assms by (simp add: segment_def load_frame_def lease_shift_view)

lemma enter_queue_seg:
  assumes c: "idle c" "open_ctx c" "cx_worker c \<in> keys_of gw" "cx_decision c \<noteq> None" and env: "hop_env_ok (gc_env cfg)"
  shows "seg_ok gw c (enter_queue cfg t d c gw)"
proof -
  let ?w = "cx_worker c"
  let ?gw1 = "gw\<lparr>reg := update_snap ?w (apply_load (LPending 1)) (reg gw)\<rparr>"
  obtain out q where a: "acquire_start ?w (cx_klass c) (cx_est c) (deadline_at c) (t 4) (queues gw) = (out, q)"
    by (cases "acquire_start ?w (cx_klass c) (cx_est c) (deadline_at c) (t 4) (queues gw)")
  let ?gw2 = "unpend ?w (?gw1\<lparr>queues := q\<rparr>)"
  have w0: "wait_of c = None" "ticket_of c = None" "slot_of c = None" using c(1) by (auto simp: idle_def ticket_none)
  have l: "lease_of c = lref c" using c(2) by (rule lease_of_open)
  have g2: "reg_eff (reg gw) (reg ?gw2) (\<lambda>_. 0) (\<lambda>_. 0) (\<lambda>_. 0)" by (simp add: unpend_def pend_unpend_eff)
  have q2: "queues ?gw2 = q" "quota ?gw2 = quota gw" by (simp_all add: unpend_def)
  show ?thesis
  proof (cases out)
    case (AcqTicket i)
    have "seg_ok gw c (serve_dispatch cfg t 0 i d c ?gw2)"
    proof (rule dispatch_seg [OF env])
      show "corr_ok (cx_headers c)" "\<not> cx_once c" using c(2) by (auto simp: open_ctx_def)
      show "cx_worker c \<in> keys_of ?gw2" using c(3) reg_eff_keys [OF g2] by simp
      show "reg_eff (reg gw) (reg ?gw2) (\<lambda>_. 0) (\<lambda>_. 0) (\<lambda>v. - waits_on v c)" using g2 by (simp add: waits_on_def w0)
      show "queue_shift (queues gw) c (queues ?gw2) c'" if "ticket_of c' = Some i" "wait_of c' = None" for c'
        unfolding q2 by (rule queue_shift_call [OF a w0(1,2)]) (simp_all add: AcqTicket that)
    qed (use w0 l q2 in auto)
    then show ?thesis by (simp add: enter_queue_def a AcqTicket)
  next
    case AcqFull
    have "queue_shift (queues gw) c (queues ?gw2) c"
      unfolding q2 by (rule queue_shift_call [OF a w0(1,2)]) (simp_all add: AcqFull w0)
    then have "segment gw c ?gw2 c"
      using c(1) g2 q2 by (intro segment_idle_queue) (simp_all add: load_frame_def)
    from seg_ok_trans [OF this try_overflow_seg [OF c(1,2)]] show ?thesis
      by (simp add: enter_queue_def a AcqFull queue_rejected_def)
  next
    case (AcqWait f tm)
    let ?c = "c\<lparr>cx_phase := AtQueue f (t 4)\<rparr>"
    have v: "slot_of ?c = None" "wait_of ?c = Some (f, ?w)" by (simp_all add: slot_of_def wait_of_def)
    have o: "open_ctx ?c" using c(2) by (simp add: open_ctx_def)
    have lc: "lease_of ?c = lease_of c" using lease_of_open [OF o] l by (simp add: lref_def)
    have "queue_shift (queues gw) c q ?c"
      by (rule queue_shift_call [OF a w0(1,2)]) (simp_all add: AcqWait v ticket_none)
    moreover have "reg_eff (reg gw) (update_snap ?w (apply_load (LPending 1)) (reg gw)) (\<lambda>w. slots_on w ?c - slots_on w c)
        (\<lambda>w. tokens_on w ?c - tokens_on w c) (\<lambda>w. waits_on w ?c - waits_on w c)"
      by (rule reg_eff_cong [OF pend_eff]) (auto simp: fun_eq_iff slots_on_def tokens_on_def waits_on_def v w0)
    ultimately have "seg_ok gw c (?c, ?gw1\<lparr>queues := q\<rparr>)"
      using o c(3,4) lc by (simp add: seg_ok_def segment_def lease_shift_view ctx_ok_def)
    then show ?thesis by (simp add: enter_queue_def a AcqWait)
  qed
qed


text \<open>The registry files every snapshot under the id of its worker, so a placement names a known worker.\<close>

definition keyed :: "registry \<Rightarrow> bool" where
  "keyed r \<longleftrightarrow> distinct (od_keys (snapshots r)) \<and> (\<forall>(k, s) \<in> set (snapshots r). snap_id s = k)"

lemma keyed_eff:
  assumes "keyed r" "reg_eff r r' a b d"
  shows "keyed r'"
proof -
  have d: "distinct (od_keys (snapshots r'))" using assms by (simp add: keyed_def reg_eff_def)
  have "snap_id s' = k" if m: "(k, s') \<in> set (snapshots r')" for k s'
  proof -
    have "k \<in> set (od_keys (snapshots r))" using m assms(2) by (metis reg_eff_def fst_conv image_eqI list.set_map)
    then obtain s where s: "map_of (snapshots r) k = Some s" by (metis map_of_eq_None_iff not_Some_eq list.set_map)
    then obtain s'' where "map_of (snapshots r') k = Some s''" "worker s'' = worker s" using assms(2) by (auto simp: reg_eff_def)
    moreover have "map_of (snapshots r') k = Some s'" using m d by (rule od_mem_get [rotated])
    moreover have "snap_id s = k" using assms(1) map_of_SomeD [OF s] by (auto simp: keyed_def)
    ultimately show ?thesis by (simp add: snap_id_def)
  qed
  then show ?thesis using d by (auto simp: keyed_def)
qed

lemma serving_sub: "set (serving_snapshots r) \<subseteq> snd ` set (snapshots r)"
  by (auto simp: serving_snapshots_def warm_snapshots_def Let_def)

lemma by_id_mem: "by_id ws i = Some s \<Longrightarrow> s \<in> set ws"
  by (auto simp: by_id_def dest: map_of_SomeD)

lemma pick_known:
  assumes "rng_ok g" "pick g req ws a = Inr d"
  shows "\<exists>s \<in> set ws. chosen_worker d = snap_id s"
proof (cases "truthy_str (forced_worker req) \<and> allow_forced a")
  case True
  then show ?thesis using assms(2) by (auto simp: pick_def dest: by_id_mem split: option.splits)
next
  case False
  then obtain s where "eligible_for a req ws \<noteq> []" "pick_policy g a req ws (eligible_for a req ws) = Some (s, placement_reason d)"
    "d = decide_place req ws (now_at a) (snd (fresh_or_healthy a ws)) s (policy a) (placement_reason d)"
    using pick_not_forced assms(2) by metis
  moreover from this have "s \<in> set ws"
    using pick_policy_mem [OF assms(1)] eligible_sub fresh_or_healthy_sub by fastforce
  ultimately show ?thesis by (metis decide_place_frame(1))
qed

lemma placed_seg:
  assumes c: "idle c" "open_ctx c" "lease_of c = lref c" and k: "chosen_worker d \<in> keys_of gw" and env: "hop_env_ok (gc_env cfg)"
  shows "seg_ok gw c (serve_placed cfg t d c gw)"
proof -
  let ?w = "chosen_worker d"
  obtain s where s: "map_of (snapshots (reg gw)) ?w = Some s"
    using k by (auto simp: known_iff)
  define pt where "pt = (case int_or_none (x_prefix_tokens (cx_req c)) of None \<Rightarrow> cx_est c | Some p \<Rightarrow> min p (cx_est c))"
  have "isl (record_prefix ?w (x_prefix_id (cx_req c)) pt (t 3) (reg gw)) = False"
    using s by (simp add: record_prefix_def split: option.split)
  then obtain r where r: "record_prefix ?w (x_prefix_id (cx_req c)) pt (t 3) (reg gw) = Inr r"
    by (metis isl_def obj_sumE)
  define c1 where "c1 = c\<lparr>cx_worker := ?w, cx_decision := Some d, cx_qenter := t 11,
      cx_headers := od_update (cx_headers c)
        [(''x-orchestration-stage'', ''worker_dispatch''), (''x-place-decision'', ?w),
         (''x-placement-policy'', placement_policy d), (''x-placement-reason'', placement_reason d),
         (''x-intended-action'', action_name (intended_action d))]\<rparr>"
  have fr: "load_frame (reg gw) r" using r by (rule record_prefix_frame)
  have o: "open_ctx c1" using c(2) by (simp add: c1_def open_ctx_def corr_ok_update)
  have v: "slot_of c1 = None" "wait_of c1 = None"
    using c(1) by (auto simp: c1_def idle_def slot_of_def wait_of_def split: phase.splits if_splits)
  have "segment gw c (gw\<lparr>reg := r\<rparr>) c1"
    using c v fr lease_of_open [OF o] by (intro segment_view) (simp_all add: idle_def lref_def, simp add: c1_def)
  moreover have "seg_ok (gw\<lparr>reg := r\<rparr>) c1 (enter_queue cfg t d c1 (gw\<lparr>reg := r\<rparr>))"
    using v o k reg_eff_keys [of gw "gw\<lparr>reg := r\<rparr>"] fr
    by (intro enter_queue_seg [OF _ _ _ _ env]) (simp_all add: idle_def load_frame_def, simp_all add: c1_def)
  ultimately have "seg_ok gw c (enter_queue cfg t d c1 (gw\<lparr>reg := r\<rparr>))" by (rule seg_ok_trans)
  then show ?thesis by (simp add: serve_placed_def Let_def s pt_def [symmetric] r c1_def)
qed

lemma place_seg:
  assumes c: "idle c" "open_ctx c" and k: "keyed (reg gw)" and env: "hop_env_ok (gc_env cfg)" "rng_ok (gc_rng cfg)"
  shows "seg_ok gw c (serve_place cfg t c gw)"
proof -
  let ?r = "refresh_queued (queues gw) (reg gw)" and ?gw = "gw\<lparr>reg := snd (next_rr (refresh_queued (queues gw) (reg gw)))\<rparr>"
  let ?p = "pick (gc_rng cfg) \<lparr>prefix_id = x_prefix_id (cx_req c), pr_est_tokens = cx_est c, pr_class = cx_klass c,
                  forced_worker = x_force_worker (cx_req c)\<rparr> (serving_snapshots ?r) (serve_pick_args cfg (t 2) c ?r)"
  have fr: "load_frame (reg gw) (reg ?gw)" using load_frame_trans [OF refresh_frame next_rr_frame] by simp
  then have seg: "segment gw c ?gw c" using c(1) by (intro segment_view) simp_all
  show ?thesis
  proof (cases ?p)
    case (Inl e)
    then show ?thesis unfolding serve_place_def Let_def
      by (simp only: sum.case) (rule seg_ok_trans [OF seg try_overflow_seg [OF c]])
  next
    case (Inr d)
    then obtain s where s: "s \<in> set (serving_snapshots ?r)" "chosen_worker d = snap_id s" using pick_known [OF env(2)] by blast
    have kr: "keyed ?r" using k refresh_frame by (auto simp: load_frame_def intro: keyed_eff)
    have "s \<in> snd ` set (snapshots ?r)" using serving_sub s(1) by (rule subsetD)
    then obtain k where "(k, s) \<in> set (snapshots ?r)" by auto
    then have "snap_id s = k" "k \<in> fst ` set (snapshots ?r)" using kr by (auto simp: keyed_def intro: rev_image_eqI)
    then have "snap_id s \<in> fst ` set (snapshots ?r)" by simp
    then have "chosen_worker d \<in> keys_of ?gw" using s(2) by (simp add: keys_of_def next_rr_def)
    from placed_seg [OF c lease_of_open [OF c(2)] this env(1)] show ?thesis
      unfolding serve_place_def Let_def Inr sum.case by (rule seg_ok_trans [OF seg])
  qed
qed


lemma shed_seg: "idle c \<Longrightarrow> open_ctx c \<Longrightarrow> seg_ok gw c (shed_response cfg t sh c gw)"
  unfolding shed_response_def by (rule try_overflow_seg)

lemma acquire_live_fresh:
  "acquire_lease tn n now q = (Inr i, q') \<Longrightarrow> lease_live j q' \<longleftrightarrow> lease_live j q \<or> j = i"
  "acquire_lease tn n now q = (Inr i, q') \<Longrightarrow> \<not> lease_live i q"
  "acquire_lease tn n now q = (Inl sh, q') \<Longrightarrow> lease_live j q' \<longleftrightarrow> lease_live j q"
  by (auto simp: acquire_lease_def lease_live_def Let_def nth_append split: if_splits)

lemma quota_refused_seg:
  assumes "lease_of c = None" "acquire_lease tn n now (quota gw) = (Inl sh, q)"
  shows "segment gw c (gw\<lparr>quota := q\<rparr>) c"
  using assms acquire_active [of "quota gw" tn n now] acquire_live_fresh(3) [OF assms(2)]
  by (simp add: segment_def reg_eff_def lease_shift_def queue_shift_view)

lemma quota_granted_seg:
  assumes "lease_of c = None" "acquire_lease tn n now (quota gw) = (Inr i, q)" "open_ctx c" "idle c"
  shows "segment gw c (gw\<lparr>quota := q\<rparr>) (c\<lparr>cx_lease := LeaseHeld i\<rparr>)"
proof -
  let ?c = "c\<lparr>cx_lease := LeaseHeld i\<rparr>"
  have o: "open_ctx ?c" using assms(3) by (simp add: open_ctx_def)
  have v: "slot_of ?c = slot_of c" "wait_of ?c = wait_of c" "lease_of ?c = Some i"
    using lease_of_open [OF o] by (auto simp: slot_of_def wait_of_def lref_def split: phase.split)
  show ?thesis
    using assms acquire_active [of "quota gw" tn n now] acquire_live_fresh(1,2) [OF assms(2)] v
    by (auto simp: segment_def reg_eff_def lease_shift_def queue_shift_view slots_on_def tokens_on_def waits_on_def ticket_of_def)
qed

lemma admit_seg:
  assumes c: "idle c" "open_ctx c" "cx_lease c = LeaseUnset" and k: "keyed (reg gw)"
    and env: "hop_env_ok (gc_env cfg)" "rng_ok (gc_rng cfg)"
  shows "seg_ok gw c (serve_admit cfg t aoff qoff c gw)"
proof -
  have l0: "lease_of c = None" using lease_of_open [OF c(2)] c(3) by (simp add: lref_def)
  have after: "seg_ok gw1 c1 (if aoff then serve_place cfg t c1 gw1
      else case should_shed \<lparr>ar_est_tokens = cx_est c, ar_deadline_ms = cx_deadline_ms c, ar_class = cx_klass c\<rparr>
                  (serving_snapshots (reg gw1)) (cx_now c) (gc_admit cfg) of
             Shed sh \<Rightarrow> shed_response cfg t sh c1 gw1 | Admit x \<Rightarrow> serve_place cfg t c1 gw1)"
    if "idle c1" "open_ctx c1" "keyed (reg gw1)" for c1 gw1
    using that by (auto intro: place_seg [OF _ _ _ env] shed_seg split: admit_result.split)
  have view: "idle (c\<lparr>cx_lease := x\<rparr>)" "open_ctx (c\<lparr>cx_lease := x\<rparr>)" for x
    using c(1,2) by (auto simp: idle_def slot_of_def wait_of_def open_ctx_def split: phase.splits if_splits)
  consider (off) qoff
    | (refused) sh q where "\<not> qoff" "acquire_lease (x_tenant_id (cx_req c)) (cx_est c) (cx_now c) (quota gw) = (Inl sh, q)"
    | (granted) i q where "\<not> qoff" "acquire_lease (x_tenant_id (cx_req c)) (cx_est c) (cx_now c) (quota gw) = (Inr i, q)"
    by (metis sum.exhaust surj_pair)
  then show ?thesis
  proof cases
    case off
    have "segment gw c gw (c\<lparr>cx_lease := LeaseOff\<rparr>)"
      using view [of LeaseOff] c(1) l0 by (intro segment_view) (simp_all add: idle_def lease_of_open lref_def)
    from seg_ok_trans [OF this after] view k off show ?thesis
      by (cases aoff) (simp_all add: serve_admit_def Let_def cong: admit_result.case_cong)
  next
    case refused
    from seg_ok_trans [OF quota_refused_seg [OF l0 refused(2)] shed_seg [OF c(1,2)]] refused
    show ?thesis by (simp add: serve_admit_def)
  next
    case granted
    from seg_ok_trans [OF quota_granted_seg [OF l0 granted(2) c(2,1)] after] view k granted
    show ?thesis by (simp add: serve_admit_def Let_def)
  qed
qed

lemma start_seg:
  assumes c: "ctx_ok (keys_of gw) c" "cx_phase c = AtStart" and k: "keyed (reg gw)"
    and env: "hop_env_ok (gc_env cfg)" "rng_ok (gc_rng cfg)"
  shows "seg_ok gw c (serve_start cfg t c gw)"
proof -
  have c0: "open_ctx c" "cx_lease c = LeaseUnset" using c by (auto simp: ctx_ok_def)
  have same: "segment gw c gw c1 \<and> idle c1 \<and> lease_of c1 = None" if "cx_phase c1 = AtStart" "cx_lease c1 = LeaseUnset" for c1
    using that c(2) c0 by (auto intro!: segment_view simp: idle_def slot_of_def wait_of_def lease_of_def)
  obtain pol aoff qoff where x: "(case experiment_controls (gc_env cfg) (x_placement_policy_override (cx_req c)) (x_admission_mode (cx_req c))
      (x_tenant_quota_mode (cx_req c)) of None \<Rightarrow> (None, False, False) | Some x \<Rightarrow> x) = (pol, aoff, qoff)"
    by (metis surj_pair)
  let ?c1 = "c\<lparr>cx_started := t 0, cx_policy := pol, cx_headers := od_update (cx_headers c) (control_headers cfg (cx_req c) pol)\<rparr>"
  let ?c2 = "\<lambda>b. ?c1\<lparr>cx_body := b, cx_est := estimate_prompt_tokens b (x_estimated_prompt_tokens (cx_req c)), cx_now := t 1\<rparr>"
  have 1: "segment gw c gw ?c1" "idle ?c1" "lease_of ?c1 = None" "open_ctx ?c1"
    using same [of ?c1] c(2) c0 by (simp_all add: open_ctx_def corr_ok_update)
  have 2: "segment gw c gw (?c2 b)" "idle (?c2 b)" "open_ctx (?c2 b)" "cx_lease (?c2 b) = LeaseUnset" for b
    using same [of "?c2 b"] c(2) c0 by (simp_all add: open_ctx_def corr_ok_update)
  note r = seg_ok_trans [OF 1(1) reject_seg [OF 1(2,4)]] seg_ok_trans [OF 1(1) crash_seg [OF 1(2,3)]]
  note a = seg_ok_trans [OF 2(1) admit_seg [OF 2(2,3,4) k env]]
  show ?thesis
    unfolding serve_start_def Let_def x case_prod_conv
    by (auto intro: r a simp del: One_nat_def split: sum.split json.split)
qed


subsection \<open>The segments after an await\<close>

text \<open>A request leaves the queue without a slot; its phase is about to be overwritten.\<close>

lemma leave_queue_seg:
  assumes c: "cx_phase c = AtQueue f enq" "open_ctx c"
    and q: "\<And>c'. wait_of c' = None \<Longrightarrow> ticket_of c' = None \<Longrightarrow> queue_shift (queues gw) c q' c'"
  defines "c0 \<equiv> c\<lparr>cx_phase := AtStart\<rparr>"
  shows "segment gw c (unpend (cx_worker c) (gw\<lparr>queues := q'\<rparr>)) c0" "idle c0" "open_ctx c0"
proof -
  have v: "slot_of c = None" "wait_of c = Some (f, cx_worker c)" "slot_of c0 = None" "wait_of c0 = None"
    by (simp_all add: slot_of_def wait_of_def c(1) c0_def)
  show i: "idle c0" "open_ctx c0" using v c(2) by (simp_all add: idle_def, simp add: open_ctx_def c0_def)
  have "lease_of c0 = lease_of c" using lease_of_open [OF i(2)] lease_of_open [OF c(2)] by (simp add: lref_def c0_def)
  moreover have "queue_shift (queues gw) c q' c0" using q v by (simp add: ticket_none)
  moreover have "reg_eff (reg gw) (update_snap (cx_worker c) (apply_load (LPending (- 1))) (reg gw)) (\<lambda>w. slots_on w c0 - slots_on w c)
      (\<lambda>w. tokens_on w c0 - tokens_on w c) (\<lambda>w. waits_on w c0 - waits_on w c)"
    by (rule reg_eff_cong [OF pend_eff]) (auto simp: fun_eq_iff slots_on_def tokens_on_def waits_on_def v)
  ultimately show "segment gw c (unpend (cx_worker c) (gw\<lparr>queues := q'\<rparr>)) c0"
    by (simp add: segment_def unpend_def lease_shift_view)
qed

lemma waiting_view: "cx_phase c = AtQueue f enq \<Longrightarrow> wait_of c = Some (f, cx_worker c) \<and> slot_of c = None \<and> ticket_of c = None"
  by (simp add: wait_of_def slot_of_def ticket_of_def)

lemma queue_timeout_seg:
  assumes "ctx_ok K c" "cx_phase c = AtQueue f enq" "futs (queues gw) ! f = FutCancelled"
  shows "seg_ok gw c (queue_timeout cfg t c gw)"
proof -
  have o: "open_ctx c" using assms(1,2) by (auto simp: ctx_ok_def)
  note l = leave_queue_seg [OF assms(2) o, where gw = gw and q' = "acquire_timeout (cx_worker c) f (queues gw)"]
  have qs: "queue_shift (queues gw) c (acquire_timeout (cx_worker c) f (queues gw)) c'" if "wait_of c' = None" "ticket_of c' = None" for c'
    using waiting_view [OF assms(2)] that assms(3) by (intro queue_shift_timeout) auto
  from seg_ok_trans [OF l(1) try_overflow_seg [OF l(2,3)]] qs show ?thesis
    by (simp add: queue_timeout_def assms(2) queue_rejected_def try_overflow_phase)
qed

lemma queue_cancelled_seg:
  assumes "ctx_ok K c" "cx_phase c = AtQueue f enq" "futs (queues gw) ! f \<noteq> FutPending"
  shows "seg_ok gw c (queue_cancelled clk c gw)"
proof -
  have o: "open_ctx c" using assms(1,2) by (auto simp: ctx_ok_def)
  have qs: "queue_shift (queues gw) c (acquire_cancelled clk (cx_worker c) f (queues gw)) c'" if "wait_of c' = None" "ticket_of c' = None" for c'
    using waiting_view [OF assms(2)] that assms(3) by (intro queue_shift_cancelled) auto
  note l = leave_queue_seg [OF assms(2) o qs]
  let ?c0 = "c\<lparr>cx_phase := AtStart\<rparr>" and ?gw = "unpend (cx_worker c) (gw\<lparr>queues := acquire_cancelled clk (cx_worker c) f (queues gw)\<rparr>)"
  have "segment ?gw ?c0 (release_ref True (cx_lease ?c0) ?gw) (finish_with ClientGone c)"
    using l(2,3) by (intro segment_release) (simp_all add: idle_def lease_of_open, simp add: lref_def)
  from segment_trans [OF l(1) this] show ?thesis by (simp add: queue_cancelled_def assms(2) seg_ok_def)
qed

lemma queue_granted_seg:
  assumes "ctx_ok (keys_of gw) c" "cx_phase c = AtQueue f enq" "futs (queues gw) ! f = FutGranted i" "hop_env_ok (gc_env cfg)"
  shows "seg_ok gw c (queue_granted cfg t i c gw)"
proof -
  have o: "open_ctx c" and k: "cx_worker c \<in> keys_of gw" and "cx_decision c \<noteq> None" using assms(1,2) by (auto simp: ctx_ok_def)
  then obtain d where d: "cx_decision c = Some d" by blast
  have v: "wait_of c = Some (f, cx_worker c)" "slot_of c = None" "ticket_of c = None" using waiting_view [OF assms(2)] by auto
  let ?gw = "unpend (cx_worker c) (gw\<lparr>queues := acquire_granted i enq (t 12) (queues gw)\<rparr>)"
  have r: "reg_eff (reg gw) (reg ?gw) (\<lambda>_. 0) (\<lambda>_. 0) (\<lambda>w. - waits_on w c)"
    unfolding unpend_def by simp (rule reg_eff_cong [OF pend_eff], auto simp: fun_eq_iff waits_on_def v)
  have "seg_ok gw c (serve_dispatch cfg t (t 12 - enq) i d c ?gw)"
  proof (rule dispatch_seg [OF assms(4) _ _ v(2) lease_of_open [OF o] _ r])
    show "corr_ok (cx_headers c)" "\<not> cx_once c" using o by (auto simp: open_ctx_def)
    show "cx_worker c \<in> keys_of ?gw" using k reg_eff_keys [OF r] by simp
    show "quota ?gw = quota gw" by (simp add: unpend_def)
    show "queue_shift (queues gw) c (queues ?gw) c'" if "ticket_of c' = Some i" "wait_of c' = None" for c'
      unfolding unpend_def using v that assms(3) by simp (rule queue_shift_granted)
  qed
  then show ?thesis by (simp add: queue_granted_def assms(2) d)
qed


lemma overflow_resume_seg:
  assumes "ctx_ok K c" "cx_phase c = AtOverflow reason aft"
  shows "seg_ok gw c (overflow_resume cfg wall reply c gw)"
proof -
  have c: "open_ctx c" "idle c" using assms by (auto simp: ctx_ok_def idle_def slot_of_def wait_of_def)
  let ?s = "c\<lparr>cx_phase := AtOverflowStream, cx_headers := overflow_out_headers cfg reason c\<rparr>"
  have o: "open_ctx ?s" using c(1) by (simp add: open_ctx_def overflow_out_headers_def corr_ok_update)
  have "seg_ok gw c (?s, gw)"
    using o c lease_of_open [OF o] lease_of_open [OF c(1)]
    by (auto simp: seg_ok_def ctx_ok_def idle_def slot_of_def wait_of_def lref_def intro!: segment_view)
  then show ?thesis
    using run_after_seg [OF c(2,1)] done_seg [OF c(2,1)]
    by (auto simp: overflow_resume_def assms(2) case_prod_beta split: overflow_reply.split)
qed

lemma overflow_stream_seg:
  assumes "ctx_ok K c" "cx_phase c = AtOverflowStream"
  shows "seg_ok gw c (overflow_stream_end started c gw)"
proof -
  have c: "open_ctx c" "idle c" using assms by (auto simp: ctx_ok_def idle_def slot_of_def wait_of_def)
  have "overflow_done (fst (overflow_done c gw)) (snd (overflow_done c gw)) = overflow_done c gw"
    by (simp add: overflow_done_def)
  then show ?thesis
    using done_seg [OF c(2,1)] by (auto simp: overflow_stream_end_def case_prod_beta)
qed

lemma dispatched_view:
  assumes "ctx_ok K c" "cx_phase c = AtUpstream \<or> cx_phase c = AtStream"
  shows "slot_of c = Some (cx_worker c, cx_est c, cx_ticket c)" "wait_of c = None" "open_ctx c" "cx_worker c \<in> K"
  using assms by (auto simp: ctx_ok_def slot_of_def wait_of_def)

lemma unavailable_seg:
  assumes "ctx_ok K c" "cx_phase c = AtUpstream"
  shows "seg_ok gw c (worker_unavailable cfg t code e c gw)"
proof -
  have d: "slot_of c = Some (cx_worker c, cx_est c, cx_ticket c)" "wait_of c = None" "open_ctx c"
    using dispatched_view [OF assms(1)] assms(2) by auto
  obtain c1 gw1 where f: "free_worker t c gw = (c1, gw1)" by (cases "free_worker t c gw")
  note s = free_worker_seg [OF d(1,2) f]
  from s(5) d(3) have "open_ctx c1" by simp
  from seg_ok_trans [OF s(1) try_overflow_seg [OF s(2) this]] show ?thesis
    by (simp add: worker_unavailable_def f)
qed

lemma slice_oom_seg:
  assumes "idle c" "open_ctx c" "cx_worker c \<in> keys_of gw"
  obtains c2 gw2 where "note_slice_oom c gw = Inr (c2, gw2)" "segment gw c gw2 c2" "idle c2" "open_ctx c2"
proof -
  obtain s where "map_of (snapshots (reg gw)) (cx_worker c) = Some s"
    using assms(3) by (auto simp: known_iff)
  then obtain r where r: "mark_cold (cx_worker c) (reg gw) = Inr r" by (simp add: mark_cold_def)
  let ?c = "c\<lparr>cx_headers := od_set ''x-upstream-reason'' SLICE_OOM (cx_headers c)\<rparr>"
  have o: "open_ctx ?c" using assms(2) by (auto simp: open_ctx_def corr_ok_def)
  have i: "slot_of ?c = slot_of c" "wait_of ?c = wait_of c" by (auto simp: slot_of_def wait_of_def split: phase.split)
  have "segment gw c (gw\<lparr>reg := r\<rparr>) ?c"
    using i mark_cold_frame [OF r] lease_of_open [OF o] lease_of_open [OF assms(2)] by (intro segment_view) (simp_all add: lref_def)
  then show thesis using that [of ?c "gw\<lparr>reg := r\<rparr>"] r i o assms(1) by (simp add: note_slice_oom_def idle_def)
qed

lemma reply_seg:
  assumes "ctx_ok (keys_of gw) c" "cx_phase c = AtUpstream"
  shows "seg_ok gw c (reply_received cfg t status text content c gw)"
proof -
  have d: "slot_of c = Some (cx_worker c, cx_est c, cx_ticket c)" "wait_of c = None" "open_ctx c" "cx_worker c \<in> keys_of gw"
    using dispatched_view [OF assms(1)] assms(2) by auto
  obtain c1 gw1 where f: "free_worker t c gw = (c1, gw1)" by (cases "free_worker t c gw")
  note s = free_worker_seg [OF d(1,2) f]
  have o: "open_ctx c1" "cx_worker c1 \<in> keys_of gw1" using s d segment_keys [OF s(1)] by auto
  have rest: "seg_ok gw2 c2 (if status = 503 \<or> status = 529
      then try_overflow cfg status rsn False (t 5) (t 10) (reply_after status text content c2) c2 gw2
      else run_after cfg (t 10) (reply_after status text content c2) c2 gw2)" if "idle c2" "open_ctx c2" for c2 gw2 rsn
    using that by (simp add: try_overflow_seg run_after_seg)
  show ?thesis
  proof (cases "classify_error status text = Some SLICE_OOM")
    case True
    obtain c2 gw2 where n: "note_slice_oom c1 gw1 = Inr (c2, gw2)" "segment gw1 c1 gw2 c2" "idle c2" "open_ctx c2"
      by (rule slice_oom_seg [OF s(2) o])
    from seg_ok_trans [OF segment_trans [OF s(1) n(2)] rest [OF n(3,4), where rsn = SLICE_OOM]] show ?thesis
      by (auto simp: reply_received_def Let_def True f n(1))
  next
    case False
    with seg_ok_trans [OF s(1) rest [OF s(2) o(1), where rsn = "case classify_error status text of Some r \<Rightarrow> r | None \<Rightarrow> ''worker_overloaded''"]]
    show ?thesis by (auto simp: reply_received_def Let_def f)
  qed
qed

lemma release_all_seg:
  assumes "ctx_ok K c" "cx_phase c = AtUpstream \<or> cx_phase c = AtStream" "release_all clk st c gw = (c1, gw1)"
  shows "seg_ok gw c (finish_with r c1, gw1)" "release_all clk2 st2 c1 gw1 = (c1, gw1)"
proof -
  have d: "slot_of c = Some (cx_worker c, cx_est c, cx_ticket c)" "wait_of c = None" "open_ctx c"
    using dispatched_view [OF assms(1,2)] by auto
  obtain c0 gw0 where f: "free_worker clk c gw = (c0, gw0)" by (cases "free_worker clk c gw")
  note s = free_worker_seg [OF d(1,2) f]
  have e: "finish st c0 gw0 = (c1, gw1)" using assms(3) by (simp add: release_all_def f)
  from s(5) d(3) have "open_ctx c0" by simp
  from seg_ok_trans [OF s(1) finish_seg [OF s(2) this e]] show "seg_ok gw c (finish_with r c1, gw1)" .
  have "cx_freed c1" "cx_finished c1" using f e by (auto simp: free_worker_def finish_def split: if_splits)
  then show "release_all clk2 st2 c1 gw1 = (c1, gw1)" by (simp add: release_all_def free_worker_def finish_def)
qed

lemma stream_end_seg:
  assumes "ctx_ok K c" "cx_phase c = AtStream"
  shows "seg_ok gw c (stream_end clk st c gw)"
proof -
  obtain c1 gw1 where 1: "release_all clk (case st of Some x \<Rightarrow> x | None \<Rightarrow> 499) c gw = (c1, gw1)" by (metis surj_pair)
  note s = release_all_seg [OF assms(1) disjI2 [OF assms(2)] 1]
  show ?thesis using s 1 by (cases st) (auto simp: stream_end_def)
qed

lemma upstream_seg:
  assumes "ctx_ok (keys_of gw) c" "cx_phase c = AtUpstream" "\<forall>st. reply \<noteq> ReplyUnreadable st"
  shows "seg_ok gw c (upstream_resume cfg t reply c gw)"
proof -
  have d: "open_ctx c" "\<not> cx_freed c" "cx_worker c \<in> keys_of gw" using assms(1,2) by (auto simp: ctx_ok_def)
  let ?s = "c\<lparr>cx_phase := AtStream\<rparr>"
  have o: "open_ctx ?s" using d(1) by (simp add: open_ctx_def)
  have st: "seg_ok gw c (?s, gw)"
    using o d lease_of_open [OF o] lease_of_open [OF d(1)] assms(2)
    by (auto simp: seg_ok_def ctx_ok_def slot_of_def wait_of_def lref_def intro!: segment_view)
  show ?thesis
    using assms st unavailable_seg [OF assms(1,2)] reply_seg [OF assms(1,2)] release_all_seg(1) [OF assms(1) disjI1 [OF assms(2)]]
    by (auto simp: upstream_resume_def upstream_stream_def upstream_plain_def case_prod_beta split: upstream_reply.split)
qed


subsection \<open>The invariant\<close>

definition gw_inv :: "gw_sys \<Rightarrow> bool" where
  "gw_inv s = (case s of (gw, cs) \<Rightarrow>
     keyed (reg gw) \<and> (\<forall>c \<in> set cs. ctx_ok (keys_of gw) c)
     \<and> (\<forall>w sn. map_of (snapshots (reg gw)) w = Some sn \<longrightarrow> inflight sn = total (slots_on w) cs
          \<and> inflight_tokens sn = total (tokens_on w) cs \<and> pending sn = total (waits_on w) cs)
     \<and> active_counts (quota gw) \<and> (\<forall>i. of_bool (lease_live i (quota gw)) = total (\<lambda>c. opt_is (lease_of c) i) cs)
     \<and> (\<exists>held aw. qs_inv True \<lparr>qs_q = queues gw, qs_held = held, qs_await = aw\<rparr>
          \<and> (\<forall>i. of_bool (i \<in> held) = total (\<lambda>c. opt_is (ticket_of c) i) cs)
          \<and> (\<forall>f w. of_bool (aw f = Some w) = total (\<lambda>c. opt_is (wait_of c) (f, w)) cs)))"

lemma total_nonneg: "(\<And>c. c \<in> set cs \<Longrightarrow> 0 \<le> g c) \<Longrightarrow> 0 \<le> total g cs"
  by (induction cs) (auto simp: total_def)

lemma total_ge: "(\<And>c. 0 \<le> g c) \<Longrightarrow> i < length cs \<Longrightarrow> g (cs ! i) \<le> total g cs"
proof (induction cs arbitrary: i)
  case (Cons c cs)
  have t: "total g (c # cs) = g c + total g cs" by (simp add: total_def)
  have p: "0 \<le> g c" "0 \<le> total g cs" using Cons.prems(1) by (auto intro: total_nonneg)
  show ?case
  proof (cases i)
    case 0
    then show ?thesis using t p by simp
  next
    case (Suc j)
    then show ?thesis using t p Cons.IH [OF Cons.prems(1), of j] Cons.prems(2) by simp
  qed
qed simp

lemma counted_mem:
  assumes "of_bool b = total (\<lambda>c. opt_is (f c) x) cs" "i < length cs" "f (cs ! i) = Some x"
  shows b
  using total_ge [of "\<lambda>c. opt_is (f c) x" i cs] assms by (cases b) auto

lemma segment_inv:
  assumes inv: "gw_inv (gw, cs)" and i: "i < length cs" and seg: "seg_ok gw (cs ! i) (c', gw')"
  shows "gw_inv (gw', cs[i := c'])"
proof -
  let ?c = "cs ! i"
  have s: "segment gw ?c gw' c'" "ctx_ok (keys_of gw) c'" using seg by (auto simp: seg_ok_def)
  have k: "keys_of gw' = keys_of gw" using s(1) by (rule segment_keys)
  have I: "keyed (reg gw)" "\<And>c. c \<in> set cs \<Longrightarrow> ctx_ok (keys_of gw) c"
    "\<And>w sn. map_of (snapshots (reg gw)) w = Some sn \<Longrightarrow> inflight sn = total (slots_on w) cs
          \<and> inflight_tokens sn = total (tokens_on w) cs \<and> pending sn = total (waits_on w) cs"
    "active_counts (quota gw)" "\<And>j. of_bool (lease_live j (quota gw)) = total (\<lambda>c. opt_is (lease_of c) j) cs"
    using inv by (auto simp: gw_inv_def)
  obtain held aw where Q: "qs_inv True \<lparr>qs_q = queues gw, qs_held = held, qs_await = aw\<rparr>"
    "\<And>j. of_bool (j \<in> held) = total (\<lambda>c. opt_is (ticket_of c) j) cs"
    "\<And>f w. of_bool (aw f = Some w) = total (\<lambda>c. opt_is (wait_of c) (f, w)) cs"
    using inv unfolding gw_inv_def by auto
  have re: "reg_eff (reg gw) (reg gw') (\<lambda>w. slots_on w c' - slots_on w ?c) (\<lambda>w. tokens_on w c' - tokens_on w ?c)
      (\<lambda>w. waits_on w c' - waits_on w ?c)" and ls: "lease_shift (quota gw) ?c (quota gw') c'"
    and qs: "queue_shift (queues gw) ?c (queues gw') c'" and ac: "active_counts (quota gw')"
    using s(1) I(4) by (auto simp: segment_def)
  have "\<forall>w sn. map_of (snapshots (reg gw')) w = Some sn \<longrightarrow> inflight sn = total (slots_on w) (cs[i := c'])
          \<and> inflight_tokens sn = total (tokens_on w) (cs[i := c']) \<and> pending sn = total (waits_on w) (cs[i := c'])"
  proof (intro allI impI)
    fix w sn assume sn: "map_of (snapshots (reg gw')) w = Some sn"
    then have "w \<in> keys_of gw'" by (auto simp: known_iff)
    then have "w \<in> keys_of gw" using k by simp
    then obtain s0 where s0: "map_of (snapshots (reg gw)) w = Some s0"
      by (auto simp: known_iff)
    with re sn have "inflight sn = inflight s0 + (slots_on w c' - slots_on w ?c)"
      "inflight_tokens sn = inflight_tokens s0 + (tokens_on w c' - tokens_on w ?c)"
      "pending sn = pending s0 + (waits_on w c' - waits_on w ?c)"
      unfolding reg_eff_def by force+
    with I(3) [OF s0] show "inflight sn = total (slots_on w) (cs[i := c'])
          \<and> inflight_tokens sn = total (tokens_on w) (cs[i := c']) \<and> pending sn = total (waits_on w) (cs[i := c'])"
      by (simp add: total_update [OF i])
  qed
  moreover have "of_bool (lease_live j (quota gw')) = total (\<lambda>c. opt_is (lease_of c) j) (cs[i := c'])" for j
  proof -
    have "\<forall>j. lease_of ?c = Some j \<longrightarrow> lease_live j (quota gw)"
      using counted_mem [OF I(5) i] by blast
    with ls have "of_bool (lease_live j (quota gw')) = of_bool (lease_live j (quota gw)) + opt_is (lease_of c') j - opt_is (lease_of ?c) j"
      by (simp add: lease_shift_def)
    then show ?thesis by (simp add: total_update [OF i] I(5))
  qed
  moreover have "\<exists>held aw. qs_inv True \<lparr>qs_q = queues gw', qs_held = held, qs_await = aw\<rparr>
          \<and> (\<forall>j. of_bool (j \<in> held) = total (\<lambda>c. opt_is (ticket_of c) j) (cs[i := c']))
          \<and> (\<forall>f w. of_bool (aw f = Some w) = total (\<lambda>c. opt_is (wait_of c) (f, w)) (cs[i := c']))"
  proof -
    have "\<forall>j. ticket_of ?c = Some j \<longrightarrow> j \<in> held" using counted_mem [OF Q(2) i] by blast
    moreover have "\<forall>f w. wait_of ?c = Some (f, w) \<longrightarrow> aw f = Some w" using counted_mem [OF Q(3) i] by blast
    ultimately obtain h' a' where "qs_inv True \<lparr>qs_q = queues gw', qs_held = h', qs_await = a'\<rparr>"
      "\<forall>j. of_bool (j \<in> h') = of_bool (j \<in> held) + opt_is (ticket_of c') j - opt_is (ticket_of ?c) j"
      "\<forall>f w. of_bool (a' f = Some w) = of_bool (aw f = Some w) + opt_is (wait_of c') (f, w) - opt_is (wait_of ?c) (f, w)"
      using qs Q(1) unfolding queue_shift_def by blast
    then show ?thesis by (intro exI [of _ h'] exI [of _ a']) (simp add: total_update [OF i] Q(2,3))
  qed
  moreover have "\<forall>c \<in> set (cs[i := c']). ctx_ok (keys_of gw') c"
    using I(2) s(2) k by (auto dest!: set_update_subset_insert [THEN subsetD])
  ultimately show ?thesis using keyed_eff [OF I(1) re] ac by (simp add: gw_inv_def)
qed


lemma gw_inv_arrive: "gw_inv (gw, cs) \<Longrightarrow> gw_inv (gw, cs @ [new_ctx req])"
proof -
  let ?c = "new_ctx req"
  have v: "slot_of ?c = None" "wait_of ?c = None" "lease_of ?c = None" "ticket_of ?c = None"
    by (simp_all add: new_ctx_def slot_of_def wait_of_def lease_of_def ticket_of_def)
  have "ctx_ok K ?c" for K
    by (auto simp: ctx_ok_def open_ctx_def corr_ok_def new_ctx_def correlation_headers_def)
  then show "gw_inv (gw, cs) \<Longrightarrow> ?thesis"
    by (simp add: gw_inv_def v slots_on_def tokens_on_def waits_on_def ball_Un)
qed

lemma gw_inv_reg:
  assumes "gw_inv (gw, cs)" "load_frame (reg gw) r"
  shows "gw_inv (gw\<lparr>reg := r\<rparr>, cs)"
proof -
  have k: "keys_of (gw\<lparr>reg := r\<rparr>) = keys_of gw" using assms(2) reg_eff_keys [of gw "gw\<lparr>reg := r\<rparr>"] by (simp add: load_frame_def)
  have "keyed r" using assms by (auto simp: gw_inv_def load_frame_def intro: keyed_eff)
  moreover have "\<exists>s0. map_of (snapshots (reg gw)) w = Some s0 \<and> inflight sn = inflight s0 \<and> inflight_tokens sn = inflight_tokens s0
      \<and> pending sn = pending s0" if "map_of (snapshots r) w = Some sn" for w sn
  proof -
    have "w \<in> keys_of gw" using that k known_iff [of w "gw\<lparr>reg := r\<rparr>"] by simp
    then obtain s0 where "map_of (snapshots (reg gw)) w = Some s0" by (auto simp: known_iff)
    with that assms(2) show ?thesis by (force simp: load_frame_def reg_eff_def)
  qed
  ultimately show ?thesis using assms(1) k unfolding gw_inv_def by simp metis
qed

lemma timer_seg:
  assumes "ctx_ok (keys_of gw) c" "cx_phase c = AtQueue f enq"
  shows "seg_ok gw c (c, gw\<lparr>queues := cancel_future f (queues gw)\<rparr>)"
  using assms queue_shift_timer waiting_view [OF assms(2)]
  by (simp add: seg_ok_def segment_def reg_eff_def lease_shift_view)

lemma ctx_step_seg:
  assumes "ctx_step cfg True (c, gw) r" "ctx_ok (keys_of gw) c" "keyed (reg gw)" "hop_env_ok (gc_env cfg)" "rng_ok (gc_rng cfg)"
  shows "seg_ok gw c r"
  using assms(1)
proof cases
  case cs_start
  then show ?thesis using start_seg assms by blast
next
  case cs_timer
  then show ?thesis using timer_seg assms by blast
next
  case cs_granted
  then show ?thesis using queue_granted_seg assms by blast
next
  case cs_timeout
  then show ?thesis using queue_timeout_seg assms by blast
next
  case cs_cancelled
  then show ?thesis using queue_cancelled_seg assms by blast
next
  case cs_upstream
  then show ?thesis using upstream_seg assms by blast
next
  case cs_stream
  then show ?thesis using stream_end_seg assms by blast
next
  case cs_overflow
  then show ?thesis using overflow_resume_seg assms by blast
next
  case cs_overflow_stream
  then show ?thesis using overflow_stream_seg assms by blast
qed

lemma gw_inv_step:
  assumes "gw_inv s" "gw_step cfg True s s'" "hop_env_ok (gc_env cfg)" "rng_ok (gc_rng cfg)"
  shows "gw_inv s'"
  using assms(2)
proof cases
  case (gs_arrive gw cs req)
  then show ?thesis using gw_inv_arrive assms(1) by blast
next
  case (gs_run i cs gw c' gw')
  have "ctx_ok (keys_of gw) (cs ! i)" "keyed (reg gw)" using assms(1) gs_run by (auto simp: gw_inv_def)
  then have "seg_ok gw (cs ! i) (c', gw')" using ctx_step_seg gs_run assms(3,4) by blast
  then show ?thesis using segment_inv assms(1) gs_run by blast
next
  case (gs_reg gw r cs)
  then show ?thesis using gw_inv_reg background_frame assms(1) by blast
qed

lemma new_registry_keyed:
  "keyed (new_registry ws rw wms steps st mk gr)"
  "map_of (snapshots (new_registry ws rw wms steps st mk gr)) w = Some sn \<Longrightarrow> inflight sn = 0 \<and> inflight_tokens sn = 0 \<and> pending sn = 0"
proof -
  have "distinct (od_keys (foldl (\<lambda>d w. od_set (wk_id w) (new_snapshot w gr) d) d ws))
      \<and> (\<forall>(k, s) \<in> set (foldl (\<lambda>d w. od_set (wk_id w) (new_snapshot w gr) d) d ws).
           snap_id s = k \<and> inflight s = 0 \<and> inflight_tokens s = 0 \<and> pending s = 0)"
    if "distinct (od_keys d)" "\<forall>(k, s) \<in> set d. snap_id s = k \<and> inflight s = 0 \<and> inflight_tokens s = 0 \<and> pending s = 0" for d
    using that
  proof (induction ws arbitrary: d)
    case (Cons w ws)
    have "\<forall>(k, s) \<in> set (od_set (wk_id w) (new_snapshot w gr) d). snap_id s = k \<and> inflight s = 0 \<and> inflight_tokens s = 0 \<and> pending s = 0"
      using Cons.prems(2) by (auto dest!: od_set_mem simp: new_snapshot_def snap_id_def)
    from Cons.IH [OF od_set_distinct [OF Cons.prems(1)] this] show ?case unfolding foldl_Cons .
  qed simp
  from this [of "[]"] show "keyed (new_registry ws rw wms steps st mk gr)"
    "map_of (snapshots (new_registry ws rw wms steps st mk gr)) w = Some sn \<Longrightarrow> inflight sn = 0 \<and> inflight_tokens sn = 0 \<and> pending sn = 0"
    by (auto simp: keyed_def new_registry_def dest!: map_of_SomeD)
qed

lemma gw_inv_init: "gw_init s \<Longrightarrow> gw_inv s"
proof -
  assume "gw_init s"
  then obtain ws rw wms steps st mk gr al tb win mc qcfg where
    s: "s = (\<lparr>reg = new_registry ws rw wms steps st mk gr, quota = new_quota al tb win mc, queues = new_queues qcfg\<rparr>, [])"
    unfolding gw_init_def by blast
  have "qs_inv True \<lparr>qs_q = new_queues qcfg, qs_held = {}, qs_await = (\<lambda>_. None)\<rparr>"
    by (rule queue_slots.inv_init [of qcfg]) (simp add: qs_init_def)
  then have "\<exists>held aw. qs_inv True \<lparr>qs_q = new_queues qcfg, qs_held = held, qs_await = aw\<rparr> \<and> held = {} \<and> aw = (\<lambda>_. None)" by blast
  then show ?thesis
    unfolding s gw_inv_def
    using new_registry_keyed [of ws rw wms steps st mk gr]
    by (auto simp: active_counts_def new_quota_def empty_bucket_def lease_live_def)
qed

interpretation gateway: inv_system "\<lambda>s. hop_env_ok (gc_env cfg) \<and> rng_ok (gc_rng cfg) \<and> gw_init s" "gw_step cfg True"
  "\<lambda>s. hop_env_ok (gc_env cfg) \<and> rng_ok (gc_rng cfg) \<and> gw_inv s" for cfg
  by unfold_locales (auto intro: gw_inv_init gw_inv_step)


subsection \<open>Properties\<close>

lemma reach_inv:
  assumes "hop_env_ok (gc_env cfg)" "rng_ok (gc_rng cfg)" "reach gw_init (gw_step cfg True) s"
  shows "gw_inv s"
proof -
  have "reach (\<lambda>s. hop_env_ok (gc_env cfg) \<and> rng_ok (gc_rng cfg) \<and> gw_init s) (gw_step cfg True) s"
    using assms(3) by (induction rule: reach.induct) (auto intro: reach.intros assms(1,2))
  then show ?thesis using gateway.inv_reach by blast
qed


lemma total_zero: "(\<And>c. c \<in> set cs \<Longrightarrow> g c = 0) \<Longrightarrow> total g cs = 0"
  by (induction cs) (auto simp: total_def)



subsection \<open>A run with one worker\<close>

definition sys_cfg :: gw_config where
  "sys_cfg = \<lparr>gc_admit = default_admit_config,
     gc_overflow = \<lparr>ov_enabled = False, ov_provider = [], ov_model = [], ov_url = [], ov_api_key = [], ov_timeout_s = 60\<rparr>,
     gc_policy = ''prefix_then_load'', gc_spill = 4, gc_stale_s = 5, gc_env = (\<lambda>_. None), gc_rng = demo_rng, gc_repr = (\<lambda>_. ''0.0'')\<rparr>"

definition sys_gw0 :: gw_state where
  "sys_gw0 = \<lparr>reg = new_registry [\<lparr>wk_id = ''worker_a'', wk_url = ''http://a''\<rparr>] False 3 [] 30 (1/5) 2,
     quota = new_quota [] 200000 60 4, queues = new_queues default_queue_config\<rparr>"

definition sys_gw1 :: gw_state where
  "sys_gw1 = sys_gw0\<lparr>reg := scrape (\<lambda>_. Some [(''vllm:num_requests_running'', [0]), (''vllm:num_requests_waiting'', [0]),
     (''vllm:kv_cache_usage_perc'', [0])]) (\<lambda>_. 1) (Some ''page'') ''worker_a'' (reg sys_gw0)\<rparr>"

definition sys_req :: serve_request where
  "sys_req = \<lparr>rq_body = Some (JObj [(''messages'', JArr [JObj [(''content'', JStr ''hi'')]]), (''stream'', JBool True)]),
     x_request_id = None, x_conversation_id = None, x_agent_step = None, x_prefix_id = None, x_tenant_id = None,
     x_request_priority = None, x_estimated_prompt_tokens = None, x_deadline_ms = None, x_force_worker = None,
     x_prefix_tokens = None, x_placement_policy_override = None, x_admission_mode = None, x_tenant_quota_mode = None,
     x_kv_hop_mode = None, x_kv_hop_case = None\<rparr>"

definition sys_start :: "serve_ctx \<times> gw_state" where
  "sys_start = serve_start sys_cfg (\<lambda>_. 2) (new_ctx sys_req) sys_gw1"

definition sys_unreadable :: "serve_ctx \<times> gw_state" where
  "sys_unreadable = upstream_resume sys_cfg (\<lambda>_. 3) (ReplyUnreadable 500) (fst sys_start) (snd sys_start)"

definition sys_error :: "serve_ctx \<times> gw_state" where
  "sys_error = upstream_resume sys_cfg (\<lambda>_. 3) (Reply 500 ''boom'' None) (fst sys_start) (snd sys_start)"

lemma sys_start_phase: "cx_phase (fst sys_start) = AtUpstream"
  by code_simp

lemma sys_error_facts:
  "(case cx_phase (fst sys_error) of Finished (Responded r) \<Rightarrow> rs_status r = 500 | _ \<Rightarrow> False)
   \<and> (case map_of (snapshots (reg (snd sys_error))) ''worker_a'' of None \<Rightarrow> False | Some s \<Rightarrow> requests_since_warm s = 1)"
  by code_simp

lemma sys_unreadable_facts:
  "cx_phase (fst sys_unreadable) = Finished (Crashed (RuntimeError ''ReadError''))
   \<and> (case map_of (snapshots (reg (snd sys_unreadable))) ''worker_a'' of None \<Rightarrow> False | Some s \<Rightarrow> inflight s = 1)
   \<and> q_inflight (queues (snd sys_unreadable)) ''worker_a'' = 1 \<and> active (buckets (quota (snd sys_unreadable)) ''other'') = 1"
  by code_simp

lemma sys_cfg_ok: "hop_env_ok (gc_env sys_cfg)" "rng_ok (gc_rng sys_cfg)"
  by (simp_all add: sys_cfg_def hop_env_ok_def demo_rng_ok)

lemma sys_reach_start: "reach gw_init (gw_step sys_cfg strict) (snd sys_start, [fst sys_start])"
proof -
  let ?R = "reach gw_init (gw_step sys_cfg strict)"
  have "gw_init (sys_gw0, [])" unfolding gw_init_def sys_gw0_def by blast
  then have "?R (sys_gw0, [])" by (rule reach.reach_init)
  moreover have "gw_step sys_cfg strict (sys_gw0, []) (sys_gw1, [])"
    unfolding sys_gw1_def by (rule gs_reg) (rule rb_scrape)
  moreover have "gw_step sys_cfg strict (sys_gw1, []) (sys_gw1, [new_ctx sys_req])"
    using gs_arrive [of sys_cfg strict sys_gw1 "[]" sys_req] by simp
  moreover have "gw_step sys_cfg strict (sys_gw1, [new_ctx sys_req]) (snd sys_start, [fst sys_start])"
  proof -
    have "ctx_step sys_cfg strict ([new_ctx sys_req] ! 0, sys_gw1) sys_start"
      unfolding sys_start_def by simp (rule cs_start, simp add: new_ctx_def)
    then show ?thesis using gs_run [of 0 "[new_ctx sys_req]" sys_cfg strict sys_gw1 "fst sys_start" "snd sys_start"] by simp
  qed
  ultimately show ?thesis by (meson reach.reach_step)
qed

lemma sys_reach_reply:
  assumes "strict \<longrightarrow> (\<forall>st. reply \<noteq> ReplyUnreadable st)"
    and "r = upstream_resume sys_cfg (\<lambda>_. 3) reply (fst sys_start) (snd sys_start)"
  shows "reach gw_init (gw_step sys_cfg strict) (snd r, [fst r])"
proof -
  have "ctx_step sys_cfg strict ([fst sys_start] ! 0, snd sys_start) (fst r, snd r)"
    using cs_upstream [OF sys_start_phase assms(1), of sys_cfg "snd sys_start" "\<lambda>_. 3"] assms(2) by simp
  then have "gw_step sys_cfg strict (snd sys_start, [fst sys_start]) (snd r, [fst r])"
    using gs_run [of 0 "[fst sys_start]" sys_cfg strict "snd sys_start" "fst r" "snd r"] by simp
  then show ?thesis by (rule reach.reach_step [OF sys_reach_start])
qed



text \<open>
  The event that \<open>strict\<close> leaves out: a streamed request to which the worker answers an error
  status and whose error body cannot be read ends with an unhandled exception, and the worker's
  load, its dispatch slot and the tenant's lease are never given back.
\<close>

theorem unreadable_error_body_leaks:
  "\<exists>gw c r. reach gw_init (gw_step sys_cfg False) (gw, [c]) \<and> cx_phase c = Finished r
     \<and> (\<exists>sn. map_of (snapshots (reg gw)) ''worker_a'' = Some sn \<and> inflight sn = 1)
     \<and> q_inflight (queues gw) ''worker_a'' = 1 \<and> active (buckets (quota gw) ''other'') = 1"
proof -
  have "reach gw_init (gw_step sys_cfg False) (snd sys_unreadable, [fst sys_unreadable])"
    by (rule sys_reach_reply [where reply = "ReplyUnreadable 500"]) (simp_all add: sys_unreadable_def)
  then show ?thesis
    using sys_unreadable_facts by (intro exI [of _ "snd sys_unreadable"] exI [of _ "fst sys_unreadable"])
      (auto split: option.splits)
qed

end
