(* ===== verification/Kv_Identity.thy ===== *)
theory Kv_Identity
  imports Json "HOL-Library.List_Lexorder" "HOL-Library.Char_ord"
begin

text \<open>
  The identity of a reusable KV prefix (\<open>infra/inference/kv_transfer/identity.py\<close>): the canonical
  JSON of the exact token ids and of the compatibility inputs, hashed. \<open>sha\<close> is the hexadecimal
  digest of \<open>hashlib.sha256\<close>, a parameter. The lemmas show that the canonical encoding is injective,
  so that two requests share an identity only if they share every token and every compatibility
  input, or a collision of the hash is at hand.
\<close>

definition IDENTITY_VERSION :: string where "IDENTITY_VERSION = ''kv-prefix-identity-v1''"
definition COMPATIBILITY_VERSION :: string where "COMPATIBILITY_VERSION = ''kv-compat-v1''"

subsection \<open>Canonical JSON\<close>

text \<open>\<open>json.dumps\<close> with \<open>ensure_ascii=False\<close> escapes quotes, backslashes and control characters only.\<close>

definition canon_escape_char :: "char \<Rightarrow> string" where
  "canon_escape_char c =
     (if c = CHR 0x22 then [CHR 0x5C, CHR 0x22]
      else if c = CHR 0x5C then [CHR 0x5C, CHR 0x5C]
      else if c = CHR 0x0A then [CHR 0x5C, CHR ''n'']
      else if c = CHR 0x0D then [CHR 0x5C, CHR ''r'']
      else if c = CHR 0x09 then [CHR 0x5C, CHR ''t'']
      else if c = CHR 0x0C then [CHR 0x5C, CHR ''f'']
      else if c = CHR 0x08 then [CHR 0x5C, CHR ''b'']
      else if (of_char c :: nat) < 32
        then [CHR 0x5C, CHR ''u'', CHR ''0'', CHR ''0'', hex_digit (of_char c div 16), hex_digit (of_char c mod 16)]
      else [c])"

definition canon_quote :: "string \<Rightarrow> string" where
  "canon_quote s = CHR 0x22 # concat (map canon_escape_char s) @ [CHR 0x22]"

fun sort_keys :: "json \<Rightarrow> json" where
  "sort_keys (JArr xs) = JArr (map sort_keys xs)"
| "sort_keys (JObj kvs) = JObj (sort_key fst (map (\<lambda>(k, v). (k, sort_keys v)) kvs))"
| "sort_keys v = v"

fun compact_dumps :: "json \<Rightarrow> string" where
  "compact_dumps JNull = ''null''"
| "compact_dumps (JBool b) = (if b then ''true'' else ''false'')"
| "compact_dumps (JInt i) = show_int i"
| "compact_dumps (JFloat x repr) = repr"
| "compact_dumps (JStr s) = canon_quote s"
| "compact_dumps (JArr xs) = ''['' @ py_join '','' (map compact_dumps xs) @ '']''"
| "compact_dumps (JObj kvs) =
     CHR 0x7B # py_join '','' (map (\<lambda>(k, v). canon_quote k @ '':'' @ compact_dumps v) kvs) @ [CHR 0x7D]"

text \<open>\<open>str.encode("utf-8")\<close> for the code points below 256; a byte is a character.\<close>

definition utf8_char :: "char \<Rightarrow> string" where
  "utf8_char c = (let n = of_char c :: nat in
     if n < 128 then [c] else [char_of (192 + n div 64), char_of (128 + n mod 64)])"

definition utf8_encode :: "string \<Rightarrow> string" where
  "utf8_encode s = concat (map utf8_char s)"

definition canonical_json :: "json \<Rightarrow> string" where
  "canonical_json v = utf8_encode (compact_dumps (sort_keys v))"

subsection \<open>Compatibility and identity\<close>

record compatibility_spec =
  model_id :: string
  model_revision :: string
  tokenizer_revision :: string
  chat_template_version :: string
  prefix_contract_version :: string
  weight_dtype :: string
  kv_dtype :: string
  adapter_namespace :: string
  cache_namespace :: string
  engine_version :: string
  block_layout_version :: string

definition compat_as_dict :: "compatibility_spec \<Rightarrow> (string \<times> string) list" where
  "compat_as_dict c =
     [(''model_id'', model_id c), (''model_revision'', model_revision c), (''tokenizer_revision'', tokenizer_revision c),
      (''chat_template_version'', chat_template_version c), (''prefix_contract_version'', prefix_contract_version c),
      (''weight_dtype'', weight_dtype c), (''kv_dtype'', kv_dtype c), (''adapter_namespace'', adapter_namespace c),
      (''cache_namespace'', cache_namespace c), (''engine_version'', engine_version c),
      (''block_layout_version'', block_layout_version c)]"

text \<open>\<open>CompatibilitySpec(...)\<close>: \<open>__post_init__\<close> names the first blank field.\<close>

definition make_compat :: "compatibility_spec \<Rightarrow> py_exn + compatibility_spec" where
  "make_compat c = (case find (\<lambda>(f, v). py_strip v = []) (compat_as_dict c) of
     None \<Rightarrow> Inr c | Some (f, _) \<Rightarrow> Inl (ValueError (f @ '' must be an explicit non-empty string'')))"

definition compat_json :: "compatibility_spec \<Rightarrow> json" where
  "compat_json c = JObj (map (\<lambda>(k, v). (k, JStr v)) (compat_as_dict c))"

definition namespace_payload :: "compatibility_spec \<Rightarrow> json" where
  "namespace_payload c = JObj [(''version'', JStr COMPATIBILITY_VERSION), (''compatibility'', compat_json c)]"

definition compat_namespace :: "(string \<Rightarrow> string) \<Rightarrow> compatibility_spec \<Rightarrow> string" where
  "compat_namespace sha c = COMPATIBILITY_VERSION @ '':sha256:'' @ sha (canonical_json (namespace_payload c))"

record prefix_identity =
  pi_value :: string
  pi_namespace :: string
  pi_token_count :: int
  pi_version :: string

definition is_sha256 :: "string \<Rightarrow> string \<Rightarrow> bool" where
  "is_sha256 v pre \<longleftrightarrow> startswith pre v \<and> length (drop (length pre) v) = 64
     \<and> list_all (\<lambda>ch. ch \<in> set ''0123456789abcdef'') (drop (length pre) v)"

definition make_identity :: "prefix_identity \<Rightarrow> py_exn + prefix_identity" where
  "make_identity p =
     (if \<not> is_sha256 (pi_value p) ''sha256:'' then Inl (ValueError ''value must be a canonical SHA-256 identity'')
      else if \<not> is_sha256 (pi_namespace p) (COMPATIBILITY_VERSION @ '':sha256:'')
        then Inl (ValueError ''compatibility_namespace must be a canonical SHA-256 namespace'')
      else if pi_token_count p \<le> 0 then Inl (ValueError ''token_count must be positive'')
      else if pi_version p \<noteq> IDENTITY_VERSION then Inl (ValueError (''version must be '' @ IDENTITY_VERSION))
      else Inr p)"

fun as_int :: "json \<Rightarrow> int option" where
  "as_int (JInt i) = Some i"
| "as_int _ = None"

definition identity_payload :: "json list \<Rightarrow> compatibility_spec \<Rightarrow> json" where
  "identity_payload ts c = JObj [(''version'', JStr IDENTITY_VERSION), (''rendered_token_ids'', JArr ts), (''compatibility'', compat_json c)]"

definition build_identity :: "(string \<Rightarrow> string) \<Rightarrow> json list \<Rightarrow> compatibility_spec \<Rightarrow> py_exn + prefix_identity" where
  "build_identity sha ts c =
     (if ts = [] then Inl (ValueError ''token_ids must contain at least one rendered token'')
      else if list_ex (\<lambda>t. as_int t = None) ts then Inl (TypeError ''token_ids must contain integers'')
      else if list_ex (\<lambda>t. the (as_int t) < 0) ts then Inl (ValueError ''token_ids must be non-negative'')
      else make_identity \<lparr>pi_value = ''sha256:'' @ sha (canonical_json (identity_payload ts c)),
             pi_namespace = compat_namespace sha c, pi_token_count = int (length ts), pi_version = IDENTITY_VERSION\<rparr>)"

lemmas identity_defs [kv_defs] = make_identity_def build_identity_def compat_namespace_def

subsection \<open>The canonical encoding is injective\<close>

lemma utf8_append [simp]: "utf8_encode (a @ b) = utf8_encode a @ utf8_encode b" "utf8_encode (c # s) = utf8_char c @ utf8_encode s"
  "utf8_encode [] = []"
  by (simp_all add: utf8_encode_def)

lemma utf8_char_inj: "utf8_char c @ r = utf8_char d @ r' \<Longrightarrow> c = d \<and> r = r'"
proof -
  have lt: "(of_char x :: nat) < 4 * 64" for x :: char by simp
  have q: "(of_char x :: nat) div 64 < 4" for x :: char using lt by (rule less_mult_imp_div_less)
  assume e: "utf8_char c @ r = utf8_char d @ r'"
  let ?m = "of_char c :: nat" and ?n = "of_char d :: nat"
  show ?thesis
  proof (cases "?m < 128")
    case True
    then have "?n < 128"
    proof (rule contrapos_pp)
      assume "\<not> ?n < 128"
      with e True have "c = char_of (192 + ?n div 64)" by (simp add: utf8_char_def Let_def)
      then have "?m = (192 + ?n div 64) mod 256" by simp
      moreover have "?n div 64 < 4" by (rule q)
      ultimately show "\<not> ?m < 128" by simp
    qed
    with e True show ?thesis by (simp add: utf8_char_def Let_def)
  next
    case False
    then have n: "\<not> ?n < 128"
    proof (rule contrapos_nn)
      assume "?n < 128"
      with e False have "d = char_of (192 + ?m div 64)" by (simp add: utf8_char_def Let_def)
      then have "?n = (192 + ?m div 64) mod 256" by simp
      moreover have "?m div 64 < 4" by (rule q)
      ultimately show "?m < 128" using \<open>?n < 128\<close> by simp
    qed
    have h: "char_of (192 + ?m div 64) = (char_of (192 + ?n div 64) :: char)" "char_of (128 + ?m mod 64) = (char_of (128 + ?n mod 64) :: char)"
      and r: "r = r'" using e False n by (simp_all add: utf8_char_def Let_def)
    have "(192 + ?m div 64) mod 256 = (192 + ?n div 64) mod 256" "(128 + ?m mod 64) mod 256 = (128 + ?n mod 64) mod 256"
      using arg_cong [OF h(1), of "of_char :: char \<Rightarrow> nat"] arg_cong [OF h(2), of "of_char :: char \<Rightarrow> nat"] by simp_all
    moreover have "?m div 64 < 4" "?n div 64 < 4" "?m mod 64 < 64" "?n mod 64 < 64" using q by simp_all
    ultimately have "?m div 64 = ?n div 64" "?m mod 64 = ?n mod 64" by simp_all
    then have "?m = ?n" by (metis div_mult_mod_eq)
    with r show ?thesis by simp
  qed
qed

lemma utf8_char_nonempty: "utf8_char c \<noteq> []" by (simp add: utf8_char_def Let_def)

lemma utf8_encode_inj: "utf8_encode s = utf8_encode t \<longleftrightarrow> s = t"
proof
  show "utf8_encode s = utf8_encode t \<Longrightarrow> s = t"
  proof (induction s arbitrary: t)
    case Nil
    then show ?case by (cases t) (simp_all add: utf8_char_nonempty)
  next
    case (Cons c s)
    then show ?case by (cases t) (auto simp: utf8_char_nonempty dest!: utf8_char_inj)
  qed
qed simp

text \<open>An escape is one of four shapes; none begins with a bare quote and each is read back in one way.\<close>

lemma escape_shape:
  "canon_escape_char c = [c] \<and> c \<noteq> CHR 0x22 \<and> c \<noteq> CHR 0x5C
   \<or> (\<exists>e. canon_escape_char c = [CHR 0x5C, e] \<and> e \<noteq> CHR ''u''
        \<and> map_of [(CHR 0x22, CHR 0x22), (CHR 0x5C, CHR 0x5C), (CHR ''n'', CHR 0x0A), (CHR ''r'', CHR 0x0D), (CHR ''t'', CHR 0x09),
             (CHR ''f'', CHR 0x0C), (CHR ''b'', CHR 0x08)] e = Some c)
   \<or> (\<exists>x y. canon_escape_char c = [CHR 0x5C, CHR ''u'', CHR ''0'', CHR ''0'', x, y]
        \<and> x = hex_digit (of_char c div 16) \<and> y = hex_digit (of_char c mod 16) \<and> (of_char c :: nat) < 32)"
  unfolding canon_escape_char_def by (simp split: if_split)

lemma hex_digit_inj: "m < 16 \<Longrightarrow> n < 16 \<Longrightarrow> hex_digit m = hex_digit n \<Longrightarrow> m = n"
proof -
  assume a: "m < 16" "n < 16" and e: "hex_digit m = hex_digit n"
  have "(of_char (hex_digit k) :: nat) = (if k < 10 then 48 + k else 87 + k)" if "k < 16" for k
    using that by (simp add: hex_digit_def)
  with a arg_cong [OF e, of "of_char :: char \<Rightarrow> nat"] show ?thesis by (auto split: if_splits)
qed

lemma escape_inj: "canon_escape_char c @ r = canon_escape_char d @ r' \<Longrightarrow> c = d \<and> r = r'"
proof -
  assume e: "canon_escape_char c @ r = canon_escape_char d @ r'"
  have h: "c = d" if "(of_char c :: nat) < 32" "(of_char d :: nat) < 32" "hex_digit (of_char c div 16) = hex_digit (of_char d div 16)"
    "hex_digit (of_char c mod 16) = hex_digit (of_char d mod 16)"
  proof -
    have "(of_char c :: nat) div 16 = of_char d div 16" "(of_char c :: nat) mod 16 = of_char d mod 16"
      using that by (auto intro!: hex_digit_inj)
    then have "(of_char c :: nat) = of_char d" by (metis div_mult_mod_eq)
    then show ?thesis by simp
  qed
  from escape_shape [of c] escape_shape [of d] e show ?thesis
    by (elim disjE exE conjE) (auto dest: h)
qed

lemma escape_not_quote: "canon_escape_char c @ r \<noteq> CHR 0x22 # r'"
  using escape_shape [of c] by auto

lemma canon_quote_inj [simp]: "canon_quote s @ r = canon_quote t @ r' \<longleftrightarrow> s = t \<and> r = r'"
proof
  have "concat (map canon_escape_char s) @ CHR 0x22 # r = concat (map canon_escape_char t) @ CHR 0x22 # r' \<Longrightarrow> s = t \<and> r = r'"
  proof (induction s arbitrary: t)
    case Nil
    then show ?case using escape_not_quote [symmetric] by (cases t) auto
  next
    case (Cons c s)
    then show ?case
    proof (cases t)
      case Nil
      then show ?thesis using Cons.prems escape_not_quote [of c] by simp
    next
      case (Cons d u)
      with Cons.prems have "canon_escape_char c @ concat (map canon_escape_char s) @ CHR 0x22 # r
          = canon_escape_char d @ concat (map canon_escape_char u) @ CHR 0x22 # r'" by simp
      from escape_inj [OF this] Cons.IH [of u] Cons show ?thesis by simp
    qed
  qed
  then show "canon_quote s @ r = canon_quote t @ r' \<Longrightarrow> s = t \<and> r = r'" by (simp add: canon_quote_def)
qed simp

lemma digit_run:
  assumes "list_all py_isdigit a" "list_all py_isdigit b" "\<not> py_isdigit c" "\<not> py_isdigit d" "a @ c # r = b @ d # r'"
  shows "a = b \<and> c = d \<and> r = r'"
proof -
  have "takeWhile py_isdigit (x @ y # z) = x" if "list_all py_isdigit x" "\<not> py_isdigit y" for x y z
    using that by (auto simp: takeWhile_append list_all_iff)
  with assms have "a = b" by metis
  with assms(5) show ?thesis by simp
qed

lemma show_nat_all: "list_all py_isdigit (show_nat n)"
  by (auto simp: list_all_iff show_nat_digits)

lemma token_list_inj:
  "ms \<noteq> [] \<Longrightarrow> ns \<noteq> [] \<Longrightarrow>
   py_join '','' (map show_nat ms) @ CHR '']'' # r = py_join '','' (map show_nat ns) @ CHR '']'' # r' \<Longrightarrow> ms = ns \<and> r = r'"
proof (induction ms arbitrary: ns)
  case (Cons m ms)
  have nd: "\<not> py_isdigit CHR '',''" "\<not> py_isdigit CHR '']''" by (simp_all add: py_isdigit_def)
  note run = digit_run [OF show_nat_all show_nat_all]
  from \<open>ns \<noteq> []\<close> obtain n us where ns: "ns = n # us" by (cases ns) auto
  have j: "py_join '','' (map show_nat (k # ks)) @ CHR '']'' # t = show_nat k @
      (if ks = [] then CHR '']'' # t else CHR '','' # py_join '','' (map show_nat ks) @ CHR '']'' # t)" for k ks t
    by (cases ks) simp_all
  from Cons.prems(3) have e: "show_nat m @ (if ms = [] then CHR '']'' # r else CHR '','' # py_join '','' (map show_nat ms) @ CHR '']'' # r)
      = show_nat n @ (if us = [] then CHR '']'' # r' else CHR '','' # py_join '','' (map show_nat us) @ CHR '']'' # r')"
    unfolding ns j .
  show ?case
  proof (cases "ms = []"; cases "us = []")
    assume n: "ms = []" "us = []"
    from e have "show_nat m @ CHR '']'' # r = show_nat n @ CHR '']'' # r'" by (simp only: n refl if_True)
    from run [OF nd(2) nd(2) this] n ns show ?thesis by simp
  next
    assume n: "ms = []" "us \<noteq> []"
    from e have "show_nat m @ CHR '']'' # r = show_nat n @ CHR '','' # py_join '','' (map show_nat us) @ CHR '']'' # r'"
      by (simp only: n refl if_True if_False)
    from run [OF nd(2) nd(1) this] show ?thesis by simp
  next
    assume n: "ms \<noteq> []" "us = []"
    from e have "show_nat m @ CHR '','' # py_join '','' (map show_nat ms) @ CHR '']'' # r = show_nat n @ CHR '']'' # r'"
      by (simp only: n refl if_True if_False)
    from run [OF nd(1) nd(2) this] show ?thesis by simp
  next
    assume n: "ms \<noteq> []" "us \<noteq> []"
    from e have "show_nat m @ CHR '','' # py_join '','' (map show_nat ms) @ CHR '']'' # r
        = show_nat n @ CHR '','' # py_join '','' (map show_nat us) @ CHR '']'' # r'" by (simp only: n refl if_False)
    from run [OF nd(1) nd(1) this] Cons.IH [OF n] ns show ?thesis by simp
  qed
qed simp

subsection \<open>Identities determine their inputs\<close>

lemma sorted_compat: "sort_keys (compat_json c) = JObj (map (\<lambda>(k, v). (k, JStr v))
   [(''adapter_namespace'', adapter_namespace c), (''block_layout_version'', block_layout_version c),
    (''cache_namespace'', cache_namespace c), (''chat_template_version'', chat_template_version c),
    (''engine_version'', engine_version c), (''kv_dtype'', kv_dtype c), (''model_id'', model_id c),
    (''model_revision'', model_revision c), (''prefix_contract_version'', prefix_contract_version c),
    (''tokenizer_revision'', tokenizer_revision c), (''weight_dtype'', weight_dtype c)])"
  by (simp add: compat_json_def compat_as_dict_def sort_key_def less_eq_list_code)

text \<open>Every value of the compatibility object follows its key, quoted, and is read back.\<close>

lemma compat_text_inj:
  "compact_dumps (sort_keys (compat_json c)) @ r = compact_dumps (sort_keys (compat_json d)) @ r' \<longleftrightarrow> c = d \<and> r = r'"
proof
  assume "compact_dumps (sort_keys (compat_json c)) @ r = compact_dumps (sort_keys (compat_json d)) @ r'"
  then show "c = d \<and> r = r'" unfolding sorted_compat by (cases c; cases d) simp
qed simp

lemma token_texts:
  assumes "\<not> list_ex (\<lambda>t. as_int t = None) ts" "\<not> list_ex (\<lambda>t. the (as_int t) < 0) ts"
  shows "map (compact_dumps \<circ> sort_keys) ts = map show_nat (map (\<lambda>t. nat (the (as_int t))) ts)"
    and "map (\<lambda>n. JInt (int n)) (map (\<lambda>t. nat (the (as_int t))) ts) = ts"
proof -
  have "compact_dumps (sort_keys t) = show_nat (nat (the (as_int t))) \<and> JInt (int (nat (the (as_int t)))) = t" if "t \<in> set ts" for t
    using assms that by (cases t) (auto simp: list_ex_iff show_int_def)
  then show "map (compact_dumps \<circ> sort_keys) ts = map show_nat (map (\<lambda>t. nat (the (as_int t))) ts)"
    and "map (\<lambda>n. JInt (int n)) (map (\<lambda>t. nat (the (as_int t))) ts) = ts"
    by (simp_all add: map_idI comp_def)
qed

lemma sorted_identity: "sort_keys (identity_payload ts c) = JObj [(''compatibility'', sort_keys (compat_json c)),
    (''rendered_token_ids'', JArr (map sort_keys ts)), (''version'', JStr IDENTITY_VERSION)]"
  by (simp add: identity_payload_def sort_key_def less_eq_list_code)

lemma sorted_namespace: "sort_keys (namespace_payload c) = JObj [(''compatibility'', sort_keys (compat_json c)),
    (''version'', JStr COMPATIBILITY_VERSION)]"
  by (simp add: namespace_payload_def sort_key_def less_eq_list_code)

definition valid_tokens :: "json list \<Rightarrow> bool" where
  "valid_tokens ts \<longleftrightarrow> ts \<noteq> [] \<and> \<not> list_ex (\<lambda>t. as_int t = None) ts \<and> \<not> list_ex (\<lambda>t. the (as_int t) < 0) ts"

abbreviation token_numbers :: "json list \<Rightarrow> nat list" where
  "token_numbers ts \<equiv> map (\<lambda>t. nat (the (as_int t))) ts"

lemma identity_text:
  "\<exists>pre mid suf. \<forall>ts c. valid_tokens ts \<longrightarrow> compact_dumps (sort_keys (identity_payload ts c)) =
     pre @ compact_dumps (sort_keys (compat_json c)) @ mid @ py_join '','' (map show_nat (token_numbers ts)) @ CHR '']'' # suf"
proof (rule exI [of _ "CHR 0x7B # canon_quote ''compatibility'' @ '':''"], rule exI [of _ "'','' @ canon_quote ''rendered_token_ids'' @ '':[''"],
    rule exI [of _ "'','' @ canon_quote ''version'' @ '':'' @ canon_quote IDENTITY_VERSION @ [CHR 0x7D]"], intro allI impI)
  fix ts c assume "valid_tokens ts"
  then have "map compact_dumps (map sort_keys ts) = map show_nat (token_numbers ts)"
    using token_texts(1) [of ts] by (simp add: valid_tokens_def)
  then show "compact_dumps (sort_keys (identity_payload ts c)) =
     (CHR 0x7B # canon_quote ''compatibility'' @ '':'') @ compact_dumps (sort_keys (compat_json c))
     @ ('','' @ canon_quote ''rendered_token_ids'' @ '':['') @ py_join '','' (map show_nat (token_numbers ts))
     @ CHR '']'' # '','' @ canon_quote ''version'' @ '':'' @ canon_quote IDENTITY_VERSION @ [CHR 0x7D]"
    by (simp add: sorted_identity del: map_map)
qed

lemma identity_payload_inj:
  assumes v: "valid_tokens ts" "valid_tokens us" and "canonical_json (identity_payload ts c) = canonical_json (identity_payload us d)"
  shows "ts = us \<and> c = d"
proof -
  obtain pre mid suf where t: "\<forall>ts c. valid_tokens ts \<longrightarrow> compact_dumps (sort_keys (identity_payload ts c)) =
     pre @ compact_dumps (sort_keys (compat_json c)) @ mid @ py_join '','' (map show_nat (token_numbers ts)) @ CHR '']'' # suf"
    using identity_text by metis
  have "compact_dumps (sort_keys (identity_payload ts c)) = compact_dumps (sort_keys (identity_payload us d))"
    using assms(3) by (simp only: canonical_json_def utf8_encode_inj)
  then have e: "compact_dumps (sort_keys (compat_json c)) @ mid @ py_join '','' (map show_nat (token_numbers ts)) @ CHR '']'' # suf
      = compact_dumps (sort_keys (compat_json d)) @ mid @ py_join '','' (map show_nat (token_numbers us)) @ CHR '']'' # suf"
    using t v by (simp only: same_append_eq simp_thms)
  then have c: "c = d" and "py_join '','' (map show_nat (token_numbers ts)) @ CHR '']'' # suf
      = py_join '','' (map show_nat (token_numbers us)) @ CHR '']'' # suf"
    unfolding compat_text_inj by simp_all
  then have "token_numbers ts = token_numbers us"
    using token_list_inj [of "token_numbers ts" "token_numbers us" suf suf] v by (simp add: valid_tokens_def)
  then have "ts = us" using token_texts(2) v unfolding valid_tokens_def by metis
  with c show ?thesis by simp
qed

lemma namespace_payload_inj:
  assumes "canonical_json (namespace_payload c) = canonical_json (namespace_payload d)"
  shows "c = d"
proof -
  have "compact_dumps (sort_keys (compat_json c)) @ [] = compact_dumps (sort_keys (compat_json d)) @ []"
    using assms by (simp add: canonical_json_def utf8_encode_inj sorted_namespace)
  then show ?thesis unfolding compat_text_inj by simp
qed

lemma build_identity_ok:
  assumes "build_identity sha ts c = Inr i"
  shows "valid_tokens ts" "i = \<lparr>pi_value = ''sha256:'' @ sha (canonical_json (identity_payload ts c)),
    pi_namespace = compat_namespace sha c, pi_token_count = int (length ts), pi_version = IDENTITY_VERSION\<rparr>"
  using assms by (auto simp: build_identity_def make_identity_def valid_tokens_def split: if_splits)

text \<open>
  C32. Two prefixes share an identity only if they have the same tokens in the same order and agree
  in every compatibility input: otherwise the two canonical encodings are a collision of the hash.
\<close>

theorem prefix_identity_exact:
  assumes "build_identity sha ts c = Inr i" "build_identity sha us d = Inr j" "pi_value i = pi_value j"
  shows "ts = us \<and> c = d \<or>
    canonical_json (identity_payload ts c) \<noteq> canonical_json (identity_payload us d)
    \<and> sha (canonical_json (identity_payload ts c)) = sha (canonical_json (identity_payload us d))"
  using identity_payload_inj build_identity_ok [OF assms(1)] build_identity_ok [OF assms(2)] assms(3) by fastforce

lemma namespace_exact:
  assumes "compat_namespace sha c = compat_namespace sha d"
  shows "c = d \<or> (canonical_json (namespace_payload c) \<noteq> canonical_json (namespace_payload d)
    \<and> sha (canonical_json (namespace_payload c)) = sha (canonical_json (namespace_payload d)))"
  using assms namespace_payload_inj by (auto simp: compat_namespace_def)

lemma build_identity_total:
  assumes "valid_tokens ts" "\<And>s. length (sha s) = 64 \<and> set (sha s) \<subseteq> set ''0123456789abcdef''"
  shows "\<exists>i. build_identity sha ts c = Inr i"
proof -
  have h: "is_sha256 (p @ sha s) p" for p s
  proof -
    have "drop (length p) (p @ sha s) = sha s" "take (length p) (p @ sha s) = p" by simp_all
    then show ?thesis using assms(2) [of s] unfolding is_sha256_def startswith_def list_all_iff by (simp only: simp_thms) blast
  qed
  have v: "is_sha256 (''sha256:'' @ sha (canonical_json (identity_payload ts c))) ''sha256:''" by (rule h)
  have n: "is_sha256 (compat_namespace sha c) (COMPATIBILITY_VERSION @ '':sha256:'')"
    using h [of "COMPATIBILITY_VERSION @ '':sha256:''"] unfolding compat_namespace_def append_assoc .
  have t: "(int (length ts) \<le> 0) = False" using assms(1) by (simp add: valid_tokens_def)
  show ?thesis using assms(1) unfolding build_identity_def make_identity_def valid_tokens_def prefix_identity.select_convs
    by (simp only: v n t if_False simp_thms) simp
qed

definition demo_compat :: compatibility_spec where
  "demo_compat = \<lparr>model_id = ''m'', model_revision = ''r1'', tokenizer_revision = ''t1'', chat_template_version = ''c1'',
     prefix_contract_version = ''p1'', weight_dtype = ''bfloat16'', kv_dtype = ''auto'', adapter_namespace = ''none'',
     cache_namespace = ''n'', engine_version = ''0.11.0'', block_layout_version = ''b16''\<rparr>"

definition demo_sha :: "string \<Rightarrow> string" where
  "demo_sha s = replicate 64 CHR ''0''"

theorem prefix_identity_exact_witness:
  "\<exists>i. build_identity demo_sha [JInt 1, JInt 20] demo_compat = Inr i \<and>
    ([JInt 1, JInt 20] = [JInt 1, JInt 20] \<and> demo_compat = demo_compat \<or>
     canonical_json (identity_payload [JInt 1, JInt 20] demo_compat) \<noteq> canonical_json (identity_payload [JInt 1, JInt 20] demo_compat)
     \<and> demo_sha (canonical_json (identity_payload [JInt 1, JInt 20] demo_compat))
       = demo_sha (canonical_json (identity_payload [JInt 1, JInt 20] demo_compat)))"
proof -
  have "valid_tokens [JInt 1, JInt 20]" by (simp add: valid_tokens_def)
  then obtain i where i: "build_identity demo_sha [JInt 1, JInt 20] demo_compat = Inr i"
    using build_identity_total [of "[JInt 1, JInt 20]" demo_sha demo_compat] by (auto simp: demo_sha_def)
  from prefix_identity_exact [OF i i refl] i show ?thesis by blast
qed

end
