(* ===== verification/Kv_Contract.thy ===== *)
theory Kv_Contract
  imports Kv_Identity
begin

text \<open>
  The outcomes and result objects of the KV transfer contract
  (\<open>infra/inference/kv_transfer/contract.py\<close>). A \<open>make_\<close> function is the constructor of the frozen
  dataclass with the checks of its \<open>__post_init__\<close>.
\<close>

datatype lookup_outcome = L_PRESENT | L_REMOTE | L_MISSING | L_PARTIAL | L_STALE | L_INCOMPATIBLE
datatype transfer_outcome =
  T_TRANSFERRED | T_ALREADY_PRESENT | T_MISSING | T_PARTIAL | T_INCOMPATIBLE | T_TIMEOUT | T_CANCELLED | T_FAILED
datatype confirm_outcome = C_AVAILABLE | C_MISSING | C_STALE
datatype invalidate_outcome = I_INVALIDATED | I_MISSING

definition require_nonnegative :: "string \<Rightarrow> int \<Rightarrow> py_exn + unit" where
  "require_nonnegative name v = guard_or (0 \<le> v) (ValueError (name @ '' must be non-negative''))"

record lookup_result =
  lr_outcome :: lookup_outcome
  lr_prefix :: prefix_identity
  lr_destination :: string
  lr_source :: "string option"
  lr_reusable_tokens :: int
  lr_stored_bytes :: int
  lr_detail :: "string option"
  lr_metadata_only :: bool

definition make_lookup_result :: "lookup_result \<Rightarrow> py_exn + lookup_result" where
  "make_lookup_result r =
     try_bind (require_nonnegative ''reusable_tokens'' (lr_reusable_tokens r)) (\<lambda>_.
     try_bind (require_nonnegative ''stored_bytes'' (lr_stored_bytes r)) (\<lambda>_. Inr r))"

record transfer_result =
  tr_outcome :: transfer_outcome
  tr_prefix :: prefix_identity
  tr_source :: string
  tr_destination :: string
  tr_tokens :: int
  tr_bytes :: int
  tr_duration_ms :: "pyfloat option"
  tr_detail :: "string option"

definition make_transfer_result :: "transfer_result \<Rightarrow> py_exn + transfer_result" where
  "make_transfer_result r =
     try_bind (require_nonnegative ''transferred_tokens'' (tr_tokens r)) (\<lambda>_.
     try_bind (require_nonnegative ''transferred_bytes'' (tr_bytes r)) (\<lambda>_.
     if (case tr_duration_ms r of None \<Rightarrow> False | Some d \<Rightarrow> d < 0) then Inl (ValueError ''duration_ms must be non-negative'')
     else if tr_outcome r = T_TRANSFERRED then
       (if tr_tokens r \<le> 0 then Inl (ValueError ''transferred_tokens must be positive for transferred'')
        else if tr_bytes r \<le> 0 then Inl (ValueError ''transferred_bytes must be positive for transferred'')
        else if tr_duration_ms r = None then Inl (ValueError ''duration_ms is required for transferred'')
        else Inr r)
     else Inr r))"

record confirm_result =
  cr_outcome :: confirm_outcome
  cr_prefix :: prefix_identity
  cr_destination :: string
  cr_reusable_tokens :: int
  cr_available_bytes :: int
  cr_detail :: "string option"
  cr_metadata_only :: bool

definition make_confirm_result :: "confirm_result \<Rightarrow> py_exn + confirm_result" where
  "make_confirm_result r =
     try_bind (require_nonnegative ''reusable_tokens'' (cr_reusable_tokens r)) (\<lambda>_.
     try_bind (require_nonnegative ''available_bytes'' (cr_available_bytes r)) (\<lambda>_.
     if cr_outcome r = C_AVAILABLE then
       (if cr_reusable_tokens r \<le> 0 then Inl (ValueError ''reusable_tokens must be positive for available'')
        else if cr_available_bytes r \<le> 0 then Inl (ValueError ''available_bytes must be positive for available'')
        else Inr r)
     else Inr r))"

record invalidate_result =
  ir_outcome :: invalidate_outcome
  ir_prefix :: prefix_identity
  ir_location :: string
  ir_reason :: string

lemmas contract_defs [kv_defs] =
  require_nonnegative_def make_lookup_result_def make_transfer_result_def make_confirm_result_def

lemma lookup_result_ok: "0 \<le> lr_reusable_tokens r \<Longrightarrow> 0 \<le> lr_stored_bytes r \<Longrightarrow> make_lookup_result r = Inr r"
  by (simp add: contract_defs)

lemma confirm_result_ok:
  "0 < cr_reusable_tokens r \<Longrightarrow> 0 < cr_available_bytes r \<Longrightarrow> make_confirm_result r = Inr r"
  "cr_outcome r \<noteq> C_AVAILABLE \<Longrightarrow> 0 \<le> cr_reusable_tokens r \<Longrightarrow> 0 \<le> cr_available_bytes r \<Longrightarrow> make_confirm_result r = Inr r"
  by (simp_all add: contract_defs)

text \<open>A transfer reported as done carries measured tokens, bytes and a duration.\<close>

lemma transferred_is_measured:
  "make_transfer_result r = Inr s \<Longrightarrow> tr_outcome r = T_TRANSFERRED \<Longrightarrow>
   s = r \<and> 0 < tr_tokens r \<and> 0 < tr_bytes r \<and> (\<exists>d. tr_duration_ms r = Some d \<and> 0 \<le> d)"
  by (auto simp: contract_defs split: if_splits option.splits)

end
