(* ===== verification/Kv_Directory.thy ===== *)
theory Kv_Directory
  imports Kv_Contract
begin

text \<open>
  The bounded directory of KV location beliefs (\<open>infra/inference/kv_transfer/directory.py\<close>): an
  ordered dictionary in order of last access, a time to live, and the incarnation of each worker.
  The clock is a sequence of readings: \<open>clk n\<close> is the \<open>n\<close>-th value \<open>self._clock()\<close> returns and
  \<open>d_ticks\<close> counts the readings made.
\<close>

record directory_record =
  r_prefix :: prefix_identity
  r_location :: string
  r_generation :: string
  r_tokens :: int
  r_bytes :: int
  r_complete :: bool
  r_observed_at :: pyfloat
  r_last_accessed :: pyfloat
  r_stale_reason :: "string option"

type_synonym dir_key = "prefix_identity \<times> string"

record metadata_directory =
  d_capacity :: nat
  d_ttl :: pyfloat
  d_records :: "(dir_key, directory_record) odict"
  d_generations :: "string \<rightharpoonup> string"
  d_evicted_capacity :: nat
  d_evicted_ttl :: nat
  d_ticks :: nat

type_synonym clock = "nat \<Rightarrow> pyfloat"

definition make_directory :: "int \<Rightarrow> pyfloat \<Rightarrow> py_exn + metadata_directory" where
  "make_directory capacity ttl =
     (if capacity \<le> 0 then Inl (ValueError ''capacity must be positive'')
      else if ttl \<le> 0 then Inl (ValueError ''ttl_seconds must be positive'')
      else Inr \<lparr>d_capacity = nat capacity, d_ttl = ttl, d_records = [], d_generations = Map.empty,
                d_evicted_capacity = 0, d_evicted_ttl = 0, d_ticks = 0\<rparr>)"

definition require_text :: "string \<Rightarrow> string \<Rightarrow> py_exn + unit" where
  "require_text name v = guard_or (py_strip v \<noteq> []) (ValueError (name @ '' must be a non-empty string''))"

definition mark_stale :: "(directory_record \<Rightarrow> bool) \<Rightarrow> string \<Rightarrow> metadata_directory \<Rightarrow> nat \<times> metadata_directory" where
  "mark_stale p reason d =
     (length (filter (\<lambda>(k, r). p r \<and> r_stale_reason r = None) (d_records d)),
      d\<lparr>d_records := map (\<lambda>(k, r). (k, if p r \<and> r_stale_reason r = None then r\<lparr>r_stale_reason := Some reason\<rparr> else r)) (d_records d)\<rparr>)"

definition observe_worker :: "string \<Rightarrow> string \<Rightarrow> metadata_directory \<Rightarrow> (py_exn + nat) \<times> metadata_directory" where
  "observe_worker location generation d =
     (case try_bind (require_text ''location'' location) (\<lambda>_. require_text ''generation'' generation) of
        Inl e \<Rightarrow> (Inl e, d)
      | Inr _ \<Rightarrow>
          let previous = d_generations d location;
              d1 = d\<lparr>d_generations := (d_generations d)(location \<mapsto> generation)\<rparr>
          in if previous = None \<or> previous = Some generation then (Inr 0, d1)
             else let (n, d2) = mark_stale (\<lambda>r. r_location r = location) ''worker_generation_changed'' d1 in (Inr n, d2))"

text \<open>\<open>while len(records) > capacity: records.popitem(last=False)\<close>, with the number of rounds.\<close>

function evict_oldest :: "nat \<Rightarrow> 'a list \<Rightarrow> 'a list \<times> nat" where
  "evict_oldest capacity xs = (if length xs > capacity then let (ys, n) = evict_oldest capacity (tl xs) in (ys, Suc n) else (xs, 0))"
  by auto
termination by (relation "measure (\<lambda>(c, xs). length xs)") auto

declare evict_oldest.simps [simp del]

definition upsert :: "clock \<Rightarrow> prefix_identity \<Rightarrow> string \<Rightarrow> string \<Rightarrow> int \<Rightarrow> int \<Rightarrow> bool \<Rightarrow> metadata_directory
    \<Rightarrow> (py_exn + directory_record) \<times> metadata_directory" where
  "upsert clk p location generation tokens nbytes whole d =
     (case try_bind (require_text ''location'' location) (\<lambda>_. require_text ''worker_generation'' generation) of
        Inl e \<Rightarrow> (Inl e, d)
      | Inr _ \<Rightarrow>
          if tokens \<le> 0 \<or> tokens > pi_token_count p
            then (Inl (ValueError ''reusable_tokens must be positive and no larger than token_count''), d)
          else if nbytes \<le> 0 then (Inl (ValueError ''stored_bytes must be positive''), d)
          else case d_generations d location of
              None \<Rightarrow> (Inl (ValueError ''worker generation must be observed before recording metadata''), d)
            | Some g \<Rightarrow>
                if g \<noteq> generation then (Inl (ValueError ''worker_generation does not match the observed worker''), d)
                else let now = clk (d_ticks d);
                       r = \<lparr>r_prefix = p, r_location = location, r_generation = generation, r_tokens = tokens, r_bytes = nbytes,
                            r_complete = whole, r_observed_at = now, r_last_accessed = now, r_stale_reason = None\<rparr>;
                       (rs, n) = evict_oldest (d_capacity d) (od_end (p, location) (od_set (p, location) r (d_records d)))
                     in (Inr r, d\<lparr>d_records := rs, d_evicted_capacity := d_evicted_capacity d + n, d_ticks := Suc (d_ticks d)\<rparr>))"

definition record_outcome :: "clock \<Rightarrow> directory_record \<Rightarrow> metadata_directory \<Rightarrow> lookup_outcome \<times> metadata_directory" where
  "record_outcome clk r d =
     (if r_stale_reason r \<noteq> None then (L_STALE, d)
      else let now = clk (d_ticks d); d1 = d\<lparr>d_ticks := Suc (d_ticks d)\<rparr> in
        if now - r_observed_at r \<ge> d_ttl d then (L_STALE, d1\<lparr>d_evicted_ttl := Suc (d_evicted_ttl d)\<rparr>)
        else if d_generations d (r_location r) \<noteq> Some (r_generation r) then (L_STALE, d1)
        else if \<not> r_complete r then (L_PARTIAL, d1)
        else (L_PRESENT, d1))"

definition dir_touch :: "clock \<Rightarrow> directory_record \<Rightarrow> metadata_directory \<Rightarrow> metadata_directory" where
  "dir_touch clk r d = (let key = (r_prefix r, r_location r) in
     case map_of (d_records d) key of
       None \<Rightarrow> d
     | Some cur \<Rightarrow> d\<lparr>d_records := od_end key (od_set key (cur\<lparr>r_last_accessed := clk (d_ticks d)\<rparr>) (d_records d)),
                     d_ticks := Suc (d_ticks d)\<rparr>)"

definition dir_pop :: "dir_key \<Rightarrow> metadata_directory \<Rightarrow> metadata_directory" where
  "dir_pop key d = d\<lparr>d_records := od_pop key (d_records d)\<rparr>"

definition lookup_result_of :: "directory_record \<Rightarrow> string \<Rightarrow> lookup_outcome \<Rightarrow> py_exn + lookup_result" where
  "lookup_result_of r destination outcome =
     make_lookup_result \<lparr>lr_outcome = outcome, lr_prefix = r_prefix r, lr_destination = destination, lr_source = Some (r_location r),
       lr_reusable_tokens = r_tokens r, lr_stored_bytes = r_bytes r,
       lr_detail = (if outcome = L_STALE \<and> r_stale_reason r = None then Some ''ttl_expired'' else r_stale_reason r),
       lr_metadata_only = True\<rparr>"

definition bare_lookup_result :: "lookup_outcome \<Rightarrow> prefix_identity \<Rightarrow> string \<Rightarrow> string option \<Rightarrow> py_exn + lookup_result" where
  "bare_lookup_result outcome p destination detail =
     make_lookup_result \<lparr>lr_outcome = outcome, lr_prefix = p, lr_destination = destination, lr_source = None,
       lr_reusable_tokens = 0, lr_stored_bytes = 0, lr_detail = detail, lr_metadata_only = True\<rparr>"

text \<open>The loop over a snapshot of the other locations, most recently used first.\<close>

fun lookup_remote :: "clock \<Rightarrow> prefix_identity \<Rightarrow> string \<Rightarrow> directory_record option \<Rightarrow> directory_record list \<Rightarrow> metadata_directory
    \<Rightarrow> (py_exn + lookup_result) \<times> metadata_directory" where
  "lookup_remote clk p destination stale [] d =
     (case stale of Some r \<Rightarrow> lookup_result_of r destination L_STALE | None \<Rightarrow> bare_lookup_result L_MISSING p destination None, d)"
| "lookup_remote clk p destination stale (r # rs) d =
     (if r_prefix r \<noteq> p then lookup_remote clk p destination stale rs d
      else let (out, d1) = record_outcome clk r d in
        if out = L_STALE
        then lookup_remote clk p destination (Some r) rs (if r_stale_reason r = None then dir_pop (r_prefix r, r_location r) d1 else d1)
        else (lookup_result_of r destination (if out = L_PRESENT then L_REMOTE else out), dir_touch clk r d1))"

definition dir_lookup :: "clock \<Rightarrow> prefix_identity \<Rightarrow> string \<Rightarrow> string \<Rightarrow> metadata_directory \<Rightarrow> (py_exn + lookup_result) \<times> metadata_directory" where
  "dir_lookup clk p destination namespace d =
     (if namespace \<noteq> pi_namespace p
      then (bare_lookup_result L_INCOMPATIBLE p destination (Some ''compatibility_namespace_mismatch''), d)
      else case map_of (d_records d) (p, destination) of
          Some local \<Rightarrow>
            let (out, d1) = record_outcome clk local d;
                d2 = (if out = L_STALE \<and> r_stale_reason local = None then dir_pop (p, destination) d1 else dir_touch clk local d1)
            in (lookup_result_of local destination out, d2)
        | None \<Rightarrow> lookup_remote clk p destination None (rev (map snd (d_records d))) d)"

definition confirm_result_of :: "confirm_outcome \<Rightarrow> prefix_identity \<Rightarrow> string \<Rightarrow> int \<Rightarrow> int \<Rightarrow> string option \<Rightarrow> py_exn + confirm_result" where
  "confirm_result_of out p destination tokens nbytes detail =
     make_confirm_result \<lparr>cr_outcome = out, cr_prefix = p, cr_destination = destination, cr_reusable_tokens = tokens,
       cr_available_bytes = nbytes, cr_detail = detail, cr_metadata_only = True\<rparr>"

definition dir_confirm :: "clock \<Rightarrow> prefix_identity \<Rightarrow> string \<Rightarrow> metadata_directory \<Rightarrow> (py_exn + confirm_result) \<times> metadata_directory" where
  "dir_confirm clk p destination d =
     (case map_of (d_records d) (p, destination) of
        None \<Rightarrow> (confirm_result_of C_MISSING p destination 0 0 None, d)
      | Some r \<Rightarrow>
          let (out, d1) = record_outcome clk r d in
          if out = L_STALE then
            (confirm_result_of C_STALE p destination 0 0 (Some (case r_stale_reason r of Some s \<Rightarrow> if s = [] then ''ttl_expired'' else s | None \<Rightarrow> ''ttl_expired'')),
             if r_stale_reason r = None then dir_pop (p, destination) d1 else d1)
          else if out = L_PARTIAL then
            (confirm_result_of C_MISSING p destination (r_tokens r) (r_bytes r) (Some ''partial''), dir_touch clk r d1)
          else (confirm_result_of C_AVAILABLE p destination (r_tokens r) (r_bytes r) None, dir_touch clk r d1))"

definition dir_invalidate :: "prefix_identity \<Rightarrow> string \<Rightarrow> string \<Rightarrow> metadata_directory \<Rightarrow> (py_exn + invalidate_result) \<times> metadata_directory" where
  "dir_invalidate p location reason d =
     (case require_text ''reason'' reason of
        Inl e \<Rightarrow> (Inl e, d)
      | Inr _ \<Rightarrow> (Inr \<lparr>ir_outcome = (if map_of (d_records d) (p, location) \<noteq> None then I_INVALIDATED else I_MISSING),
                       ir_prefix = p, ir_location = location, ir_reason = reason\<rparr>, dir_pop (p, location) d))"

definition invalidate_namespace :: "string \<Rightarrow> string \<Rightarrow> metadata_directory \<Rightarrow> (py_exn + nat) \<times> metadata_directory" where
  "invalidate_namespace namespace reason d =
     (case try_bind (require_text ''compatibility_namespace'' namespace) (\<lambda>_. require_text ''reason'' reason) of
        Inl e \<Rightarrow> (Inl e, d)
      | Inr _ \<Rightarrow> let (n, d1) = mark_stale (\<lambda>r. pi_namespace (r_prefix r) = namespace) reason d in (Inr n, d1))"

inductive dir_step :: "clock \<Rightarrow> metadata_directory \<Rightarrow> metadata_directory \<Rightarrow> bool" for clk where
  st_observe: "observe_worker l g d = (v, d') \<Longrightarrow> dir_step clk d d'"
| st_upsert: "upsert clk p l g t b c d = (v, d') \<Longrightarrow> dir_step clk d d'"
| st_lookup: "dir_lookup clk p l n d = (v, d') \<Longrightarrow> dir_step clk d d'"
| st_confirm: "dir_confirm clk p l d = (v, d') \<Longrightarrow> dir_step clk d d'"
| st_invalidate: "dir_invalidate p l s d = (v, d') \<Longrightarrow> dir_step clk d d'"
| st_namespace: "invalidate_namespace n s d = (v, d') \<Longrightarrow> dir_step clk d d'"

lemmas directory_defs [kv_defs] =
  observe_worker_def upsert_def record_outcome_def dir_touch_def dir_pop_def dir_lookup_def dir_confirm_def
  dir_invalidate_def invalidate_namespace_def mark_stale_def

subsection \<open>The invariant\<close>

text \<open>
  A record is filed under its own prefix and location, claims no more tokens than the prefix has,
  and, unless it is marked stale, was reported by the incarnation of the worker seen last.
\<close>

definition rec_ok :: "(string \<rightharpoonup> string) \<Rightarrow> dir_key \<times> directory_record \<Rightarrow> bool" where
  "rec_ok gens e \<longleftrightarrow> fst e = (r_prefix (snd e), r_location (snd e)) \<and> 0 < r_tokens (snd e)
     \<and> r_tokens (snd e) \<le> pi_token_count (r_prefix (snd e)) \<and> 0 < r_bytes (snd e)
     \<and> (r_stale_reason (snd e) = None \<longrightarrow> gens (r_location (snd e)) = Some (r_generation (snd e)))"

definition dir_inv :: "metadata_directory \<Rightarrow> bool" where
  "dir_inv d \<longleftrightarrow> distinct (od_keys (d_records d)) \<and> list_all (rec_ok (d_generations d)) (d_records d)
     \<and> length (d_records d) \<le> d_capacity d"

text \<open>With a clock that never goes back, the dictionary is in order of last access.\<close>

definition dir_lru :: "clock \<Rightarrow> metadata_directory \<Rightarrow> bool" where
  "dir_lru clk d \<longleftrightarrow> mono clk \<and> sorted (map (\<lambda>e. r_last_accessed (snd e)) (d_records d))
     \<and> list_all (\<lambda>e. r_last_accessed (snd e) \<le> clk (d_ticks d)) (d_records d)"

definition dir_ok :: "clock \<Rightarrow> metadata_directory \<Rightarrow> bool" where
  "dir_ok clk d \<longleftrightarrow> dir_inv d \<and> dir_lru clk d"

definition dir_start :: "clock \<Rightarrow> metadata_directory \<Rightarrow> bool" where
  "dir_start clk d \<longleftrightarrow> mono clk \<and> (\<exists>capacity ttl. make_directory capacity ttl = Inr d)"

lemma od_end_set: "od_end k (od_set k v d) = od_pop k d @ [(k, v)]"
proof -
  have "od_pop k (od_set k v d) = od_pop k d" by (induction d) (auto simp: od_pop_def)
  then show ?thesis by (simp add: od_end_def)
qed

lemma evict_oldest_drop: "evict_oldest c xs = (drop (length xs - c) xs, length xs - c)"
proof (induction c xs rule: evict_oldest.induct)
  case (1 c xs)
  show ?case
  proof (cases "length xs > c")
    case True
    then have "length xs - c = Suc (length (tl xs) - c)" by (cases xs) auto
    with 1 [OF True] True show ?thesis by (cases xs) (simp_all add: evict_oldest.simps [of c])
  qed (simp add: evict_oldest.simps)
qed

lemma od_pop_filter: "od_pop k d = filter (\<lambda>e. fst e \<noteq> k) d"
  by (simp add: od_pop_def case_prod_unfold)

lemma list_all_sub: "list_all P xs \<Longrightarrow> set ys \<subseteq> set xs \<Longrightarrow> list_all P ys"
  by (auto simp: list_all_iff)

lemma sorted_map_filter: "sorted (map f xs) \<Longrightarrow> sorted (map f (filter p xs))"
  by (simp add: sorted_filter)

lemma sorted_map_snoc: "sorted (map f (xs @ [x])) \<longleftrightarrow> sorted (map f xs) \<and> list_all (\<lambda>y. f y \<le> f x) xs"
  by (auto simp: sorted_append list_all_iff)

text \<open>The records after each primitive.\<close>

lemma dir_ok_ticks: "dir_ok clk d \<Longrightarrow> d_ticks d \<le> n \<Longrightarrow> dir_ok clk (d\<lparr>d_ticks := n, d_evicted_ttl := m\<rparr>)"
  unfolding dir_ok_def dir_inv_def dir_lru_def by (auto simp: list_all_iff dest: monoD intro: order_trans)

lemma dir_ok_filter: "dir_ok clk d \<Longrightarrow> dir_ok clk (d\<lparr>d_records := filter p (d_records d)\<rparr>)"
  unfolding dir_ok_def dir_inv_def dir_lru_def
  by (auto simp: list_all_iff distinct_map_filter sorted_map_filter intro: le_trans [OF length_filter_le])

lemma dir_ok_pop: "dir_ok clk d \<Longrightarrow> dir_ok clk (dir_pop k d)"
  using dir_ok_filter by (simp add: dir_pop_def od_pop_filter)

lemma sorted_drop_map: "sorted (map f xs) \<Longrightarrow> sorted (map f (drop n xs))"
  by (simp add: drop_map [symmetric] sorted_wrt_drop)

lemma put_entry:
  fixes recs :: "(dir_key, directory_record) odict"
  assumes d: "distinct (od_keys recs)" "list_all (rec_ok g) recs" "sorted (map (\<lambda>e. r_last_accessed (snd e)) recs)"
      "list_all (\<lambda>e. r_last_accessed (snd e) \<le> now) recs"
    and e: "rec_ok g (k, r)" "r_last_accessed r = now"
  defines "es \<equiv> od_pop k recs @ [(k, r)]"
  shows "distinct (od_keys es)" "list_all (rec_ok g) es" "sorted (map (\<lambda>e. r_last_accessed (snd e)) es)"
    "list_all (\<lambda>e. r_last_accessed (snd e) \<le> now) es"
proof -
  show "distinct (od_keys es)" using d(1) unfolding es_def od_pop_filter
    by (auto simp: distinct_map_filter)
  show "list_all (rec_ok g) es" "list_all (\<lambda>e. r_last_accessed (snd e) \<le> now) es"
    using d(2,4) e unfolding es_def od_pop_filter by (auto simp: list_all_iff)
  show "sorted (map (\<lambda>e. r_last_accessed (snd e)) es)"
    using d(3,4) e(2) unfolding es_def od_pop_filter by (auto simp: sorted_append list_all_iff sorted_map_filter)
qed

lemma dir_ok_put:
  assumes ok: "dir_ok clk d" and e: "rec_ok (d_generations d) (k, r)" "r_last_accessed r = clk (d_ticks d)"
    and n: "length (od_pop k (d_records d) @ [(k, r)]) - d_capacity d \<le> n"
  shows "dir_ok clk (d\<lparr>d_records := drop n (od_pop k (d_records d) @ [(k, r)]), d_evicted_capacity := m, d_ticks := Suc (d_ticks d)\<rparr>)"
proof -
  let ?es = "od_pop k (d_records d) @ [(k, r)]"
  have f: "distinct (od_keys ?es)" "list_all (rec_ok (d_generations d)) ?es" "sorted (map (\<lambda>e. r_last_accessed (snd e)) ?es)"
    "list_all (\<lambda>e. r_last_accessed (snd e) \<le> clk (d_ticks d)) ?es"
    using put_entry [OF _ _ _ _ e] ok unfolding dir_ok_def dir_inv_def dir_lru_def by blast+
  have c: "clk (d_ticks d) \<le> clk (Suc (d_ticks d))" using ok by (auto simp: dir_ok_def dir_lru_def intro: monoD)
  have l: "length (drop n ?es) \<le> d_capacity d" using n by simp
  have a: "distinct (od_keys (drop n ?es))" using f(1) by (simp only: drop_map [symmetric] distinct_drop)
  have b: "list_all (rec_ok (d_generations d)) (drop n ?es)" using f(2) by (rule list_all_sub) (rule set_drop_subset)
  have "list_all (\<lambda>e. r_last_accessed (snd e) \<le> clk (d_ticks d)) (drop n ?es)" using f(4) by (rule list_all_sub) (rule set_drop_subset)
  then have t: "list_all (\<lambda>e. r_last_accessed (snd e) \<le> clk (Suc (d_ticks d))) (drop n ?es)"
    by (rule list.pred_mono_strong) (use c in linarith)
  show ?thesis using ok a b l t sorted_drop_map [OF f(3)] unfolding dir_ok_def dir_inv_def dir_lru_def by (simp del: drop_append)
qed

lemma map_of_entry: "map_of (d_records d) k = Some r \<Longrightarrow> dir_inv d \<Longrightarrow> rec_ok (d_generations d) (k, r)"
  by (auto simp: dir_inv_def list_all_iff dest: map_of_SomeD)

lemma dir_ok_touch: "dir_ok clk d \<Longrightarrow> dir_ok clk (dir_touch clk r d)"
proof (cases "map_of (d_records d) (r_prefix r, r_location r)")
  case (Some cur)
  assume ok: "dir_ok clk d"
  let ?k = "(r_prefix r, r_location r)" and ?c = "cur\<lparr>r_last_accessed := clk (d_ticks d)\<rparr>"
  have e: "rec_ok (d_generations d) (?k, cur)" using map_of_entry [OF Some] ok by (simp add: dir_ok_def)
  then have e': "rec_ok (d_generations d) (?k, ?c)" by (simp add: rec_ok_def)
  have "length (od_pop ?k (d_records d)) < length (d_records d)"
    using map_of_SomeD [OF Some] unfolding od_pop_filter by (intro length_filter_less) auto
  then have n: "length (od_pop ?k (d_records d) @ [(?k, ?c)]) - d_capacity d \<le> 0"
    using ok by (simp add: dir_ok_def dir_inv_def)
  from dir_ok_put [OF ok e' _ n, of "d_evicted_capacity d"] Some show ?thesis
    by (simp add: dir_touch_def od_end_set Let_def)
qed (simp add: dir_touch_def Let_def)

lemma dir_ok_mark:
  assumes "dir_ok clk d" "mark_stale p reason d = (n, d')"
  shows "dir_ok clk d'"
proof -
  let ?f = "\<lambda>(k, r). (k, if p r \<and> r_stale_reason r = None then r\<lparr>r_stale_reason := Some reason\<rparr> else r)"
  define es where "es = map ?f (d_records d)"
  have d': "d' = d\<lparr>d_records := es\<rparr>" using assms(2) by (simp add: mark_stale_def es_def)
  have k: "map fst es = map fst (d_records d)" "length es = length (d_records d)"
    "map (\<lambda>e. r_last_accessed (snd e)) es = map (\<lambda>e. r_last_accessed (snd e)) (d_records d)"
    by (auto simp: es_def comp_def case_prod_unfold)
  have "list_all (rec_ok (d_generations d)) es" "list_all (\<lambda>e. r_last_accessed (snd e) \<le> clk (d_ticks d)) es"
    using assms(1) by (auto simp: dir_ok_def dir_inv_def dir_lru_def list_all_iff rec_ok_def es_def)
  with k assms(1) show ?thesis unfolding dir_ok_def dir_inv_def dir_lru_def d' by simp
qed

lemma dir_ok_outcome: "dir_ok clk d \<Longrightarrow> record_outcome clk r d = (out, d') \<Longrightarrow> dir_ok clk d'"
  using dir_ok_ticks [of clk d "Suc (d_ticks d)" "d_evicted_ttl d"] dir_ok_ticks [of clk d "Suc (d_ticks d)" "Suc (d_evicted_ttl d)"]
  by (auto simp: record_outcome_def Let_def split: if_splits)

lemma dir_ok_observe:
  assumes ok: "dir_ok clk d" and o: "observe_worker l g d = (v, d')"
  shows "dir_ok clk d'"
proof -
  let ?d1 = "d\<lparr>d_generations := (d_generations d)(l \<mapsto> g)\<rparr>"
  consider "d' = d" | "d' = ?d1" "d_generations d l = None \<or> d_generations d l = Some g"
    | n where "mark_stale (\<lambda>r. r_location r = l) ''worker_generation_changed'' ?d1 = (n, d')"
    using o by (auto simp: observe_worker_def Let_def split: sum.splits if_splits prod.splits)
  then show ?thesis
  proof cases
    case 2
    have "list_all (rec_ok ((d_generations d)(l \<mapsto> g))) (d_records d)"
      using ok 2(2) by (auto simp: dir_ok_def dir_inv_def list_all_iff rec_ok_def)
    with ok show ?thesis by (simp add: 2 dir_ok_def dir_inv_def dir_lru_def)
  next
    case 3
    let ?f = "\<lambda>(k, r). (k, if r_location r = l \<and> r_stale_reason r = None then r\<lparr>r_stale_reason := Some ''worker_generation_changed''\<rparr> else r)"
    obtain m d0 where m: "mark_stale (\<lambda>r. r_location r = l) ''worker_generation_changed'' d = (m, d0)" by force
    have d': "d' = d0\<lparr>d_generations := (d_generations d)(l \<mapsto> g)\<rparr>" "d_records d0 = map ?f (d_records d)" "d_generations d0 = d_generations d"
      using 3 m by (auto simp: mark_stale_def)
    have ok0: "dir_ok clk d0" by (rule dir_ok_mark [OF ok m])
    have "list_all (rec_ok ((d_generations d)(l \<mapsto> g))) (d_records d0)"
      using ok0 d'(2,3) by (auto simp: dir_ok_def dir_inv_def list_all_iff rec_ok_def split: if_splits)
    with ok0 show ?thesis by (simp add: d'(1) dir_ok_def dir_inv_def dir_lru_def)
  qed (use ok in simp)
qed

lemma dir_ok_upsert:
  assumes ok: "dir_ok clk d" and u: "upsert clk p l g t b c d = (v, d')"
  shows "dir_ok clk d'"
proof (cases "d' = d")
  case False
  let ?r = "\<lparr>r_prefix = p, r_location = l, r_generation = g, r_tokens = t, r_bytes = b,
      r_complete = c, r_observed_at = clk (d_ticks d), r_last_accessed = clk (d_ticks d), r_stale_reason = None\<rparr>"
  let ?es = "od_pop (p, l) (d_records d) @ [((p, l), ?r)]"
  have g: "0 < t" "t \<le> pi_token_count p" "0 < b" "d_generations d l = Some g"
    and d': "d' = d\<lparr>d_records := drop (length ?es - d_capacity d) ?es, d_evicted_capacity := d_evicted_capacity d + (length ?es - d_capacity d), d_ticks := Suc (d_ticks d)\<rparr>"
    using u False by (auto simp: upsert_def Let_def od_end_set evict_oldest_drop split: sum.splits if_splits option.splits)
  have "rec_ok (d_generations d) ((p, l), ?r)" using g by (simp add: rec_ok_def)
  then show ?thesis unfolding d' by (rule dir_ok_put [OF ok _ _ order_refl]) simp
qed (use ok in simp)

lemma dir_ok_remote: "dir_ok clk d \<Longrightarrow> lookup_remote clk p l st rs d = (v, d') \<Longrightarrow> dir_ok clk d'"
proof (induction clk p l st rs d rule: lookup_remote.induct)
  case (2 clk p l st r rs d)
  obtain out d1 where o: "record_outcome clk r d = (out, d1)" by force
  have ok: "dir_ok clk d1" by (rule dir_ok_outcome [OF 2(3) o])
  show ?case using 2 o dir_ok_pop [OF ok] dir_ok_touch [OF ok] ok by (auto split: if_splits)
qed simp

lemma dir_ok_lookup: "dir_ok clk d \<Longrightarrow> dir_lookup clk p l n d = (v, d') \<Longrightarrow> dir_ok clk d'"
  by (auto simp: dir_lookup_def Let_def intro: dir_ok_pop dir_ok_touch dir_ok_outcome dir_ok_remote split: if_splits option.splits prod.splits)

lemma dir_ok_confirm: "dir_ok clk d \<Longrightarrow> dir_confirm clk p l d = (v, d') \<Longrightarrow> dir_ok clk d'"
  by (auto simp: dir_confirm_def Let_def intro: dir_ok_pop dir_ok_touch dir_ok_outcome split: if_splits option.splits prod.splits)

lemma dir_ok_start: "dir_start clk d \<Longrightarrow> dir_ok clk d"
  by (auto simp: dir_start_def make_directory_def dir_ok_def dir_inv_def dir_lru_def split: if_splits)

lemma dir_ok_step: "dir_ok clk d \<Longrightarrow> dir_step clk d d' \<Longrightarrow> dir_ok clk d'"
  by (erule dir_step.cases) (auto simp: dir_invalidate_def invalidate_namespace_def intro: dir_ok_observe dir_ok_upsert dir_ok_lookup
      dir_ok_confirm dir_ok_pop dir_ok_mark split: sum.splits prod.splits)

interpretation directory: inv_system "dir_start clk" "dir_step clk" "dir_ok clk" for clk
  by unfold_locales (rule dir_ok_start, assumption, rule dir_ok_step)

text \<open>
  In every state the directory can reach it holds at most as many beliefs as its capacity, in
  order of last access; each claims between one and all tokens of its prefix and was reported by
  the incarnation of the worker seen last, unless it is marked stale.
\<close>

theorem directory_bounded:
  assumes "reach (dir_start clk) (dir_step clk) d"
  shows "length (d_records d) \<le> d_capacity d \<and> sorted (map (\<lambda>e. r_last_accessed (snd e)) (d_records d))
    \<and> list_all (rec_ok (d_generations d)) (d_records d)"
  using directory.inv_reach [OF assms] by (simp add: dir_ok_def dir_inv_def dir_lru_def)

subsection \<open>What an answer means\<close>

text \<open>A record that justifies a positive answer at one of the readings of the clock still to come.\<close>

definition vouches :: "clock \<Rightarrow> metadata_directory \<Rightarrow> directory_record \<Rightarrow> bool" where
  "vouches clk d r \<longleftrightarrow> r_complete r \<and> r_stale_reason r = None \<and> d_generations d (r_location r) = Some (r_generation r)
     \<and> (\<exists>n \<ge> d_ticks d. clk n - r_observed_at r < d_ttl d)"

lemma outcome_frame:
  "record_outcome clk r d = (out, d') \<Longrightarrow> d_records d' = d_records d \<and> d_generations d' = d_generations d \<and> d_ttl d' = d_ttl d
     \<and> d_ticks d \<le> d_ticks d' \<and> d_capacity d' = d_capacity d"
  by (auto simp: record_outcome_def Let_def split: if_splits)

lemma outcome_present: "record_outcome clk r d = (L_PRESENT, d') \<Longrightarrow> vouches clk d r"
  by (auto simp: record_outcome_def vouches_def Let_def split: if_splits)

lemma outcome_cases: "record_outcome clk r d = (out, d') \<Longrightarrow> out = L_STALE \<or> out = L_PARTIAL \<or> out = L_PRESENT"
  by (auto simp: record_outcome_def Let_def split: if_splits)

lemma lookup_result_fields:
  "lookup_result_of r l out = Inr v \<Longrightarrow> lr_outcome v = out \<and> lr_source v = Some (r_location r) \<and> lr_reusable_tokens v = r_tokens r
     \<and> lr_prefix v = r_prefix r"
  by (auto simp: lookup_result_of_def make_lookup_result_def)

lemma bare_result_fields: "bare_lookup_result out p l x = Inr v \<Longrightarrow> lr_outcome v = out"
  by (auto simp: bare_lookup_result_def make_lookup_result_def)

lemma vouches_later:
  "vouches clk d' r \<Longrightarrow> d_generations d' = d_generations d \<Longrightarrow> d_ttl d' = d_ttl d \<Longrightarrow> d_ticks d \<le> d_ticks d' \<Longrightarrow> vouches clk d r"
  unfolding vouches_def by (metis order_trans)

lemma remote_vouched:
  "lookup_remote clk p l st rs d = (Inr v, d') \<Longrightarrow> lr_outcome v = L_REMOTE \<or> lr_outcome v = L_PRESENT \<Longrightarrow>
   lr_outcome v = L_REMOTE \<and> (\<exists>r \<in> set rs. r_prefix r = p \<and> vouches clk d r \<and> lr_source v = Some (r_location r) \<and> lr_reusable_tokens v = r_tokens r)"
proof (induction clk p l st rs d rule: lookup_remote.induct)
  case (1 clk p l st d)
  then show ?case by (auto dest!: lookup_result_fields bare_result_fields split: option.splits)
next
  case (2 clk p l st r rs d)
  show ?case
  proof (cases "r_prefix r = p")
    case False
    with 2 show ?thesis by auto
  next
    case True
    obtain out d1 where o: "record_outcome clk r d = (out, d1)" by force
    let ?d2 = "if r_stale_reason r = None then dir_pop (r_prefix r, r_location r) d1 else d1"
    show ?thesis
    proof (cases "out = L_STALE")
      case s: True
      have "lookup_remote clk p l (Some r) rs ?d2 = (Inr v, d')" using 2(3) True o s by simp
      from 2(2) [OF _ o [symmetric] _ s this 2(4)] True obtain r' where r': "lr_outcome v = L_REMOTE" "r' \<in> set rs" "r_prefix r' = p"
        "vouches clk ?d2 r'" "lr_source v = Some (r_location r')" "lr_reusable_tokens v = r_tokens r'" by auto
      have "vouches clk d r'" using r'(4) outcome_frame [OF o] by (auto intro: vouches_later simp: dir_pop_def split: if_splits)
      with r' show ?thesis by auto
    next
      case f: False
      have v: "lookup_result_of r l (if out = L_PRESENT then L_REMOTE else out) = Inr v" using 2(3) True o f by simp
      with outcome_cases [OF o] f 2(4) have "out = L_PRESENT" by (auto dest: lookup_result_fields)
      with v o outcome_present show ?thesis using True by (auto dest!: lookup_result_fields)
    qed
  qed
qed

text \<open>
  C13. A positive answer of \<open>lookup\<close> is justified: the namespace asked for is that of the prefix, and
  the directory holds a complete belief for this very prefix, at the destination for \<open>PRESENT\<close> and
  elsewhere for \<open>REMOTE\<close>, that is not stale, is younger than the time to live and comes from the
  current incarnation of its worker; the answer names its location and its tokens.
\<close>

theorem lookup_sound:
  assumes "reach (dir_start clk) (dir_step clk) d" "dir_lookup clk p l n d = (Inr v, d')"
    "lr_outcome v = L_PRESENT \<or> lr_outcome v = L_REMOTE"
  shows "n = pi_namespace p \<and> (\<exists>loc r. map_of (d_records d) (p, loc) = Some r \<and> vouches clk d r \<and> r_prefix r = p \<and> r_location r = loc
    \<and> lr_source v = Some loc \<and> lr_reusable_tokens v = r_tokens r \<and> (lr_outcome v = L_PRESENT \<longleftrightarrow> loc = l))"
proof -
  have inv: "dir_inv d" using directory.inv_reach [OF assms(1)] by (simp add: dir_ok_def)
  have n: "n = pi_namespace p" using assms(2,3) by (auto simp: dir_lookup_def dest: bare_result_fields split: if_splits)
  show ?thesis
  proof (cases "map_of (d_records d) (p, l)")
    case (Some r)
    obtain out d1 where o: "record_outcome clk r d = (out, d1)" by force
    have v: "lookup_result_of r l out = Inr v" using assms(2) n Some o by (simp add: dir_lookup_def Let_def)
    with outcome_cases [OF o] assms(3) have "out = L_PRESENT" by (auto dest: lookup_result_fields)
    then show ?thesis using v o n Some outcome_present map_of_entry [OF Some inv]
      by (auto simp: rec_ok_def dest!: lookup_result_fields)
  next
    case None
    then have "lookup_remote clk p l None (rev (map snd (d_records d))) d = (Inr v, d')" using assms(2) n by (simp add: dir_lookup_def)
    from remote_vouched [OF this] assms(3) obtain k r where r: "lr_outcome v = L_REMOTE" "(k, r) \<in> set (d_records d)" "r_prefix r = p"
      "vouches clk d r" "lr_source v = Some (r_location r)" "lr_reusable_tokens v = r_tokens r" by auto
    then have m: "map_of (d_records d) k = Some r" using inv by (simp add: dir_inv_def od_mem_get)
    moreover have "k = (p, r_location r)" using map_of_entry [OF m inv] r(3) by (simp add: rec_ok_def)
    ultimately show ?thesis using n r None by auto
  qed
qed

subsection \<open>Refinement: a map of current beliefs\<close>

text \<open>
  Abstractly the directory is a map from a prefix and a location to the tokens and bytes believed
  to be reusable there at a moment: everything about order of access, staleness marks and lazy
  expiry is hidden.
\<close>

definition believed :: "pyfloat \<Rightarrow> metadata_directory \<Rightarrow> dir_key \<Rightarrow> (int \<times> int) option" where
  "believed now d k = (case map_of (d_records d) k of None \<Rightarrow> None | Some r \<Rightarrow>
     if r_stale_reason r = None \<and> now - r_observed_at r < d_ttl d \<and> r_complete r then Some (r_tokens r, r_bytes r) else None)"

lemma believed_pop: "believed now (dir_pop k d) = (believed now d)(k := None)"
  by (auto simp: believed_def dir_pop_def fun_eq_iff split: option.split)

lemma believed_touch: "believed now (dir_touch clk r d) = believed now d"
  by (auto simp: believed_def dir_touch_def fun_eq_iff Let_def split: option.splits)

lemma believed_outcome: "record_outcome clk r d = (out, d') \<Longrightarrow> believed now d' = believed now d"
  using outcome_frame [of clk r d out d'] by (auto simp: believed_def fun_eq_iff split: option.split)

lemma stale_unbelieved:
  assumes "record_outcome clk r d = (L_STALE, d')" "rec_ok (d_generations d) (k, r)" "map_of (d_records d) k = Some r"
    "clk (d_ticks d) \<le> now"
  shows "believed now d k = None"
  using assms by (auto simp: record_outcome_def believed_def rec_ok_def Let_def split: if_splits)

lemma ticks_grow:
  "record_outcome clk r d = (out, d') \<Longrightarrow> d_ticks d \<le> d_ticks d'" "d_ticks d \<le> d_ticks (dir_touch clk r d)" "d_ticks (dir_pop k d) = d_ticks d"
  using outcome_frame by (auto simp: dir_touch_def dir_pop_def Let_def split: option.splits)

lemma remote_ticks: "lookup_remote clk p l st rs d = (v, d') \<Longrightarrow> d_ticks d \<le> d_ticks d'"
proof (induction clk p l st rs d rule: lookup_remote.induct)
  case (2 clk p l st r rs d)
  obtain out d1 where o: "record_outcome clk r d = (out, d1)" by force
  show ?case using 2 o ticks_grow(1) [OF o] ticks_grow(2) [of d1 clk r] ticks_grow(3) [of _ d1]
    by (auto split: if_splits intro: order_trans)
qed simp

lemma remote_believed:
  assumes "mono clk" "list_all (\<lambda>r. map_of (d_records d) (r_prefix r, r_location r) = Some r \<and> rec_ok (d_generations d) ((r_prefix r, r_location r), r)) rs"
    "distinct (map (\<lambda>r. (r_prefix r, r_location r)) rs)" "lookup_remote clk p l st rs d = (v, d')" "clk (d_ticks d') \<le> now"
  shows "believed now d' = believed now d"
  using assms
proof (induction clk p l st rs d rule: lookup_remote.induct)
  case (2 clk p l st r rs d)
  obtain out d1 where o: "record_outcome clk r d = (out, d1)" by force
  let ?k = "(r_prefix r, r_location r)"
  let ?d2 = "if r_stale_reason r = None then dir_pop ?k d1 else d1"
  note fr = outcome_frame [OF o]
  have b1: "believed now d1 = believed now d" by (rule believed_outcome [OF o])
  consider "r_prefix r \<noteq> p" | "r_prefix r = p" "out = L_STALE" | "r_prefix r = p" "out \<noteq> L_STALE" by blast
  then show ?case
  proof cases
    case 1
    with 2 show ?thesis by simp
  next
    case s: 2
    have rest: "lookup_remote clk p l (Some r) rs ?d2 = (v, d')" using "2.prems"(4) s o by simp
    have t: "clk (d_ticks d) \<le> now"
    proof -
      have "d_ticks d \<le> d_ticks ?d2" using fr by (simp add: dir_pop_def)
      then have "d_ticks d \<le> d_ticks d'" using remote_ticks [OF rest] by simp
      then show ?thesis using monoD [OF \<open>mono clk\<close>] "2.prems"(5) by (meson order_trans)
    qed
    have "believed now d ?k = None" using stale_unbelieved [of clk r d d1 ?k now] o s t "2.prems"(2) by simp
    then have b2: "believed now ?d2 = believed now d" by (simp add: believed_pop b1 fun_upd_idem)
    have "list_all (\<lambda>r. map_of (d_records ?d2) (r_prefix r, r_location r) = Some r \<and> rec_ok (d_generations ?d2) ((r_prefix r, r_location r), r)) rs"
    proof -
      have "?k \<notin> (\<lambda>r. (r_prefix r, r_location r)) ` set rs" using "2.prems"(3) by simp
      then have ne: "(r_prefix x, r_location x) \<noteq> ?k" if "x \<in> set rs" for x using that by (auto simp: image_iff)
      have m: "map_of (d_records ?d2) k = (if r_stale_reason r = None \<and> k = ?k then None else map_of (d_records d) k)"
        and g: "d_generations ?d2 = d_generations d" for k using fr by (simp_all add: dir_pop_def)
      show ?thesis unfolding list_all_iff m g
      proof (intro ballI)
        fix x assume x: "x \<in> set rs"
        then show "(if r_stale_reason r = None \<and> (r_prefix x, r_location x) = ?k then None
            else map_of (d_records d) (r_prefix x, r_location x)) = Some x \<and> rec_ok (d_generations d) ((r_prefix x, r_location x), x)"
          using "2.prems"(2) ne [OF x] unfolding list_all_iff list.set by (simp only: if_False simp_thms) blast
      qed
    qed
    then show ?thesis using "2.IH"(2) [OF _ o [symmetric] refl _ "2.prems"(1)] s rest "2.prems"(3,5) b2 by simp
  next
    case 3
    with "2.prems"(4) o b1 show ?thesis by (auto simp: believed_touch)
  qed
qed simp

text \<open>An answer from one record expires it, touches it or leaves it alone: none changes later beliefs.\<close>

lemma answered_believed:
  assumes ok: "dir_ok clk d" and Some: "map_of (d_records d) k = Some r" and o: "record_outcome clk r d = (out, e)"
    and d': "d' = dir_pop k e \<and> out = L_STALE \<or> d' = dir_touch clk r e \<or> d' = e" and now: "clk (d_ticks d') \<le> now"
  shows "believed now d' = believed now d"
proof -
  have "d_ticks d \<le> d_ticks d'" using d' ticks_grow(1) [OF o] ticks_grow(2) [of e clk r] by (auto simp: ticks_grow(3))
  then have t: "clk (d_ticks d) \<le> now" using ok now unfolding dir_ok_def dir_lru_def by (meson monoD order_trans)
  have "rec_ok (d_generations d) (k, r)" using map_of_entry [OF Some] ok by (simp add: dir_ok_def)
  then have "out = L_STALE \<Longrightarrow> (believed now d)(k := None) = believed now d"
    using stale_unbelieved [of clk r d e k now] Some t o by (simp add: fun_upd_idem)
  then show ?thesis using d' believed_outcome [OF o, of now] by (auto simp: believed_touch believed_pop)
qed

lemma confirm_believed:
  assumes "dir_ok clk d" "dir_confirm clk p l d = (v, d')" "clk (d_ticks d') \<le> now"
  shows "believed now d' = believed now d"
proof (cases "map_of (d_records d) (p, l)")
  case (Some r)
  obtain out e where o: "record_outcome clk r d = (out, e)" by force
  show ?thesis by (rule answered_believed [OF assms(1) Some o _ assms(3)])
    (use assms(2) Some o in \<open>auto simp: dir_confirm_def Let_def split: if_splits\<close>)
qed (use assms(2) in \<open>simp add: dir_confirm_def\<close>)

lemma lookup_believed:
  assumes ok: "dir_ok clk d" and l: "dir_lookup clk q m n d = (w, d')" and now: "clk (d_ticks d') \<le> now"
  shows "believed now d' = believed now d"
proof (cases "map_of (d_records d) (q, m)")
  case (Some r)
  obtain out e where o: "record_outcome clk r d = (out, e)" by force
  show ?thesis
  proof (cases "n = pi_namespace q")
    case True
    show ?thesis by (rule answered_believed [OF ok Some o _ now])
      (use l Some o True in \<open>auto simp: dir_lookup_def Let_def split: if_splits\<close>)
  qed (use l in \<open>simp add: dir_lookup_def\<close>)
next
  case None
  have inv: "dir_inv d" and mono: "mono clk" using ok by (simp_all add: dir_ok_def dir_lru_def)
  let ?rs = "rev (map snd (d_records d))"
  have r: "list_all (\<lambda>r. map_of (d_records d) (r_prefix r, r_location r) = Some r \<and> rec_ok (d_generations d) ((r_prefix r, r_location r), r)) ?rs"
    using inv by (auto simp: dir_inv_def list_all_iff rec_ok_def intro!: od_mem_get)
  have "map (\<lambda>e. (r_prefix (snd e), r_location (snd e))) (d_records d) = od_keys (d_records d)"
    using inv by (auto simp: dir_inv_def list_all_iff rec_ok_def)
  moreover have "map (\<lambda>r. (r_prefix r, r_location r)) ?rs = rev (map (\<lambda>e. (r_prefix (snd e), r_location (snd e))) (d_records d))"
    by (simp add: rev_map comp_def)
  ultimately have "distinct (map (\<lambda>r. (r_prefix r, r_location r)) ?rs)" using inv by (simp only: dir_inv_def distinct_rev)
  from remote_believed [OF mono r this _ now] l None show ?thesis by (auto simp: dir_lookup_def split: if_splits)
qed

lemma confirm_available:
  assumes "dir_inv d" "dir_confirm clk p l d = (v, d')"
  shows "(\<exists>r. v = Inr r \<and> cr_outcome r = C_AVAILABLE \<and> cr_reusable_tokens r = t \<and> cr_available_bytes r = b)
    \<longleftrightarrow> believed (clk (d_ticks d)) d (p, l) = Some (t, b)"
  using assms(2) map_of_entry [OF _ assms(1), of "(p, l)"]
  by (auto simp: dir_confirm_def believed_def record_outcome_def rec_ok_def confirm_result_of_def contract_defs Let_def
      split: option.splits if_splits)

text \<open>
  C33. Queries refine reading the map: \<open>confirm\<close> answers \<open>AVAILABLE\<close> with some tokens and bytes exactly
  when the map has them for that prefix and destination at the reading of the clock it makes, and
  neither \<open>confirm\<close> nor \<open>lookup\<close> changes what is believed at any later moment.
\<close>

theorem queries_refine_beliefs:
  assumes "reach (dir_start clk) (dir_step clk) d" "dir_confirm clk p l d = (v, d1)" "dir_lookup clk q m n d = (w, d2)"
    "clk (d_ticks d1) \<le> now" "clk (d_ticks d2) \<le> now"
  shows "((\<exists>r. v = Inr r \<and> cr_outcome r = C_AVAILABLE \<and> cr_reusable_tokens r = t \<and> cr_available_bytes r = b)
      \<longleftrightarrow> believed (clk (d_ticks d)) d (p, l) = Some (t, b))
    \<and> believed now d1 = believed now d \<and> believed now d2 = believed now d"
proof -
  have ok: "dir_ok clk d" by (rule directory.inv_reach [OF assms(1)])
  then have inv: "dir_inv d" by (simp add: dir_ok_def)
  show ?thesis
    using confirm_available [OF inv assms(2)] confirm_believed [OF ok assms(2,4)] lookup_believed [OF ok assms(3,5)] by simp
qed

subsection \<open>Refinement of the updates\<close>

lemma upsert_records:
  assumes "upsert clk p l g t b c d = (Inr r, d')"
  shows "d_records d' = drop (length (od_pop (p, l) (d_records d) @ [((p, l), r)]) - d_capacity d) (od_pop (p, l) (d_records d) @ [((p, l), r)])"
    and "r = \<lparr>r_prefix = p, r_location = l, r_generation = g, r_tokens = t, r_bytes = b, r_complete = c,
      r_observed_at = clk (d_ticks d), r_last_accessed = clk (d_ticks d), r_stale_reason = None\<rparr>"
    and "d_ttl d' = d_ttl d"
  using assms by (auto simp: upsert_def Let_def od_end_set evict_oldest_drop split: sum.splits if_splits option.splits)

lemma drop_map_of: "distinct (map fst xs) \<Longrightarrow> k \<in> fst ` set (drop n xs) \<Longrightarrow> map_of (drop n xs) k = map_of xs k"
proof -
  assume d: "distinct (map fst xs)" and k: "k \<in> fst ` set (drop n xs)"
  then have "k \<notin> fst ` set (take n xs)"
    using append_take_drop_id [of n xs] by (metis (no_types) disjoint_iff distinct_append list.set_map map_append)
  moreover have "k \<notin> fst ` set ys \<Longrightarrow> map_of (ys @ zs) k = map_of zs k" for ys zs
    using map_of_eq_None_iff [of ys k] by (simp add: map_add_def)
  ultimately show ?thesis by (metis append_take_drop_id)
qed

text \<open>
  A successful \<open>upsert\<close> refines an update of the map at one key: every belief the directory
  still holds afterwards is the new one or an unchanged old one; and what it evicted to stay within
  its capacity was used least recently, no later than anything it kept.
\<close>

theorem upsert_refines_update:
  assumes "reach (dir_start clk) (dir_step clk) d" "upsert clk p l g t b True d = (Inr r, d')"
    "k \<in> fst ` set (d_records d')" "clk (d_ticks d) \<le> now" "now < clk (d_ticks d) + d_ttl d"
    "(old, x) \<in> set (d_records d)" "old \<notin> fst ` set (d_records d')"
  shows "believed now d' k = ((believed now d)((p, l) \<mapsto> (t, b))) k \<and> r_last_accessed x \<le> r_last_accessed (the (map_of (d_records d') k))"
proof -
  let ?es = "od_pop (p, l) (d_records d) @ [((p, l), r)]"
  define n where "n = length ?es - d_capacity d"
  have ok: "dir_ok clk d" by (rule directory.inv_reach [OF assms(1)])
  note u = upsert_records [OF assms(2), folded n_def]
  have d: "distinct (map fst ?es)" "sorted (map (\<lambda>e. r_last_accessed (snd e)) ?es)"
  proof -
    have "0 < t \<and> t \<le> pi_token_count p \<and> 0 < b \<and> d_generations d l = Some g"
      using assms(2) by (auto simp: upsert_def Let_def split: sum.splits if_splits option.splits)
    then have "rec_ok (d_generations d) ((p, l), r)" "r_last_accessed r = clk (d_ticks d)" by (simp_all add: rec_ok_def u(2))
    with put_entry [OF _ _ _ _ this] ok show "distinct (map fst ?es)" "sorted (map (\<lambda>e. r_last_accessed (snd e)) ?es)"
      unfolding dir_ok_def dir_inv_def dir_lru_def by blast+
  qed
  have "map_of (d_records d') k = map_of ?es k" using drop_map_of [OF d(1)] assms(3) unfolding u(1) by blast
  also have "map_of ?es k = (if k = (p, l) then Some r else map_of (d_records d) k)"
    by (simp add: map_add_def split: option.split)
  finally have m: "map_of (d_records d') k = (if k = (p, l) then Some r else map_of (d_records d) k)" .
  have a: "believed now d' k = ((believed now d)((p, l) \<mapsto> (t, b))) k"
    using assms(5) unfolding believed_def m u(3)
    by (simp add: u(2))
  have k: "(k, the (map_of (d_records d') k)) \<in> set (drop n ?es)"
    using assms(3) unfolding u(1) by (metis (no_types) domIff dom_map_of_conv_image_fst map_of_SomeD option.collapse)
  have "drop n ?es \<noteq> []" using k by force
  moreover from this have "last (drop n ?es) = last ?es" by (intro last_drop) (simp only: drop_eq_Nil not_le)
  ultimately have "((p, l), r) \<in> set (drop n ?es)" using last_in_set [of "drop n ?es"] by (simp only: last_snoc simp_thms)
  then have "old \<noteq> (p, l)" using assms(7) unfolding u(1) by force
  then have "(old, x) \<in> set ?es" using assms(6) by (simp add: od_pop_mem)
  then have "(old, x) \<in> set (take n ?es)" using assms(7) unfolding u(1)
    by (metis (no_types) UnE append_take_drop_id fst_conv imageI set_append)
  moreover have "sorted (map (\<lambda>e. r_last_accessed (snd e)) (take n ?es @ drop n ?es))" using d(2) by (simp only: append_take_drop_id)
  ultimately have "r_last_accessed x \<le> r_last_accessed (the (map_of (d_records d') k))"
    using k unfolding map_append sorted_append by force
  with a show ?thesis by simp
qed

subsection \<open>Witnesses\<close>

definition demo_prefix :: "string \<Rightarrow> prefix_identity" where
  "demo_prefix v = \<lparr>pi_value = v, pi_namespace = ''ns'', pi_token_count = 100, pi_version = IDENTITY_VERSION\<rparr>"

abbreviation demo_clk :: clock where "demo_clk \<equiv> of_nat"

definition demo_dir0 :: metadata_directory where
  "demo_dir0 = \<lparr>d_capacity = 1, d_ttl = 10, d_records = [], d_generations = Map.empty, d_evicted_capacity = 0, d_evicted_ttl = 0, d_ticks = 0\<rparr>"

definition demo_dir1 :: metadata_directory where "demo_dir1 = snd (observe_worker ''w'' ''g'' demo_dir0)"
definition demo_dir2 :: metadata_directory where "demo_dir2 = snd (upsert demo_clk (demo_prefix ''a'') ''w'' ''g'' 64 1 True demo_dir1)"
definition demo_dir3 :: metadata_directory where "demo_dir3 = snd (upsert demo_clk (demo_prefix ''b'') ''w'' ''g'' 32 1 True demo_dir2)"

lemma demo_reach: "reach (dir_start demo_clk) (dir_step demo_clk) demo_dir2"
proof -
  have "make_directory 1 10 = Inr demo_dir0" by (simp add: make_directory_def demo_dir0_def)
  then have "dir_start demo_clk demo_dir0" unfolding dir_start_def by (auto simp: mono_def)
  then have "reach (dir_start demo_clk) (dir_step demo_clk) demo_dir0" by (rule reach_init)
  then have "reach (dir_start demo_clk) (dir_step demo_clk) demo_dir1"
    by (rule reach_step) (unfold demo_dir1_def, rule st_observe, rule prod.collapse [symmetric])
  then show ?thesis by (rule reach_step) (unfold demo_dir2_def, rule st_upsert, rule prod.collapse [symmetric])
qed

definition demo_rec :: "string \<Rightarrow> int \<Rightarrow> pyfloat \<Rightarrow> directory_record" where
  "demo_rec v t now = \<lparr>r_prefix = demo_prefix v, r_location = ''w'', r_generation = ''g'', r_tokens = t, r_bytes = 1, r_complete = True,
     r_observed_at = now, r_last_accessed = now, r_stale_reason = None\<rparr>"

lemma demo_dir2: "demo_dir2 = \<lparr>d_capacity = 1, d_ttl = 10, d_records = [((demo_prefix ''a'', ''w''), demo_rec ''a'' 64 0)],
    d_generations = [''w'' \<mapsto> ''g''], d_evicted_capacity = 0, d_evicted_ttl = 0, d_ticks = 1\<rparr>"
  by (simp add: demo_dir2_def demo_dir1_def demo_dir0_def directory_defs demo_prefix_def demo_rec_def require_text_def py_strip_def py_isspace_def
      evict_oldest_drop od_end_def od_pop_def Let_def)

lemma demo_upsert: "upsert demo_clk (demo_prefix ''b'') ''w'' ''g'' 32 1 True demo_dir2 = (Inr (demo_rec ''b'' 32 1), demo_dir3)"
  "d_records demo_dir3 = [((demo_prefix ''b'', ''w''), demo_rec ''b'' 32 1)]"
  by (simp_all add: demo_dir3_def demo_dir2 upsert_def demo_prefix_def demo_rec_def require_text_def py_strip_def py_isspace_def
      evict_oldest_drop od_end_def od_pop_def Let_def)

theorem directory_bounded_witness:
  "length (d_records demo_dir2) \<le> d_capacity demo_dir2 \<and> sorted (map (\<lambda>e. r_last_accessed (snd e)) (d_records demo_dir2))
    \<and> list_all (rec_ok (d_generations demo_dir2)) (d_records demo_dir2)"
  by (rule directory_bounded [OF demo_reach])

theorem lookup_sound_witness:
  "\<exists>v d'. dir_lookup demo_clk (demo_prefix ''a'') ''x'' ''ns'' demo_dir2 = (Inr v, d') \<and>
    (\<exists>loc r. map_of (d_records demo_dir2) (demo_prefix ''a'', loc) = Some r \<and> lr_source v = Some loc)"
proof -
  obtain v d' where v: "dir_lookup demo_clk (demo_prefix ''a'') ''x'' ''ns'' demo_dir2 = (Inr v, d')" "lr_outcome v = L_REMOTE"
    by (simp add: demo_dir2 dir_lookup_def record_outcome_def lookup_result_of_def contract_defs demo_rec_def demo_prefix_def Let_def)
  then show ?thesis using lookup_sound [OF demo_reach v(1)] by blast
qed

theorem queries_refine_beliefs_witness:
  "\<exists>v d'. dir_confirm demo_clk (demo_prefix ''a'') ''w'' demo_dir2 = (v, d') \<and> believed 5 d' = believed 5 demo_dir2"
proof -
  obtain v d1 where c: "dir_confirm demo_clk (demo_prefix ''a'') ''w'' demo_dir2 = (v, d1)" by force
  obtain w d2 where l: "dir_lookup demo_clk (demo_prefix ''a'') ''w'' ''ns'' demo_dir2 = (w, d2)" by force
  have "d_ticks d1 = 3" "d_ticks d2 = 3" using c l
    by (auto simp: demo_dir2 dir_confirm_def dir_lookup_def record_outcome_def dir_touch_def demo_rec_def demo_prefix_def Let_def)
  then show ?thesis using queries_refine_beliefs [OF demo_reach c l, of 5] c by simp
qed

theorem upsert_refines_update_witness:
  "believed 2 demo_dir3 (demo_prefix ''b'', ''w'') = Some (32, 1)
   \<and> r_last_accessed (demo_rec ''a'' 64 0) \<le> r_last_accessed (the (map_of (d_records demo_dir3) (demo_prefix ''b'', ''w'')))"
  using upsert_refines_update [OF demo_reach demo_upsert(1), of "(demo_prefix ''b'', ''w'')" 2 "(demo_prefix ''a'', ''w'')" "demo_rec ''a'' 64 0"]
  by (simp add: demo_upsert(2) demo_dir2 demo_prefix_def)

end
