(* ===== verification/Kv_Runtime.thy ===== *)
theory Kv_Runtime
  imports Kv_Directory
begin

text \<open>
  The runtime hooks of the KV connector (\<open>infra/inference/kv_transfer/runtime.py\<close>,
  \<open>metrics.py\<close> and the calls of \<open>connector.py\<close>): the trusted identity put on every request, the gate
  in front of LMCache's lookup, the check of what a retrieval really loaded, and the evidence
  events with their confirmation by a completed forward pass. What vLLM and LMCache do (the
  upstream lookup, the retrieval, CUDA synchronisation, the base connector) is an argument; so
  are the readings of the clocks and \<open>float(text)\<close>.
\<close>

datatype kv_exn = KVTransferIntegrityError string | Py py_exn | KvOverflow | Foreign string

abbreviation integrity :: "string \<Rightarrow> kv_exn + 'a" where "integrity m \<equiv> Inl (KVTransferIntegrityError m)"

definition LMCACHE_COMPATIBILITY_TAG :: string where "LMCACHE_COMPATIBILITY_TAG = ''lmcache.tag.compatibility''"
definition HOP_ACTION_KEY :: string where "HOP_ACTION_KEY = ''lmcache.hop.action''"
definition HOP_NAMESPACE_KEY :: string where "HOP_NAMESPACE_KEY = ''lmcache.hop.compatibility_namespace''"
definition HOP_PREFIX_ID_KEY :: string where "HOP_PREFIX_ID_KEY = ''lmcache.hop.prefix_identity''"
definition HOP_PREFIX_VERSION_KEY :: string where "HOP_PREFIX_VERSION_KEY = ''lmcache.hop.prefix_identity_version''"
definition SUPPORTED_VLLM_VERSION :: string where "SUPPORTED_VLLM_VERSION = ''0.11.0''"
definition SUPPORTED_LMCACHE_VERSION :: string where "SUPPORTED_LMCACHE_VERSION = ''0.3.9''"

lemmas hop_keys = LMCACHE_COMPATIBILITY_TAG_def HOP_ACTION_KEY_def HOP_NAMESPACE_KEY_def HOP_PREFIX_ID_KEY_def HOP_PREFIX_VERSION_KEY_def

text \<open>
  An evidence event. The fields every event has are plain; the others are \<^const>\<open>None\<close> in an event
  that does not carry them.
\<close>

record hop_event =
  e_request_id :: json
  e_conversation_id :: json
  e_agent_step :: json
  e_prefix_identity :: string
  e_prefix_version :: string
  e_source :: json
  e_destination :: string
  e_namespace :: string
  e_reason :: json
  e_reusable_tokens :: int
  e_event :: string
  e_hop_result :: string
  e_confirm_result :: string
  e_fallback_action :: string
  e_tokens :: "int option"
  e_bytes :: "int option"
  e_lookup_ms :: "pyfloat option"
  e_transfer_ms :: "pyfloat option"
  e_confirm_ms :: "pyfloat option"
  e_reused_tokens :: "int option"
  e_consumed :: "bool option"
  e_error_type :: "string option"

record hop_runtime =
  rt_enabled :: bool
  rt_compat :: compatibility_spec
  rt_destination :: string
  rt_source :: string
  rt_thread_bytes :: int
  rt_pending :: "(hop_event \<times> pyfloat) list"
  rt_emitted :: "hop_event list"
  rt_ticks :: nat

definition make_runtime :: "bool \<Rightarrow> compatibility_spec \<Rightarrow> string \<Rightarrow> string \<Rightarrow> py_exn + hop_runtime" where
  "make_runtime enabled cspec destination source =
     (if py_strip destination = [] then Inl (ValueError ''destination_worker must be non-empty'')
      else if py_strip source = [] then Inl (ValueError ''source_worker_or_store must be non-empty'')
      else Inr \<lparr>rt_enabled = enabled, rt_compat = cspec, rt_destination = destination, rt_source = source,
                rt_thread_bytes = 0, rt_pending = [], rt_emitted = [], rt_ticks = 0\<rparr>)"

definition emit :: "hop_event \<Rightarrow> hop_runtime \<Rightarrow> hop_runtime" where
  "emit e s = s\<lparr>rt_emitted := rt_emitted s @ [e]\<rparr>"

definition tick :: "hop_runtime \<Rightarrow> hop_runtime" where
  "tick s = s\<lparr>rt_ticks := Suc (rt_ticks s)\<rparr>"

text \<open>\<open>int(value)\<close> and \<open>float(value)\<close> for a value from JSON.\<close>

definition json_int :: "json \<Rightarrow> kv_exn + int" where
  "json_int v = (case v of JInt i \<Rightarrow> Inr i | JBool b \<Rightarrow> Inr (if b then 1 else 0) | JFloat x _ \<Rightarrow> Inr (py_trunc x)
     | JStr s \<Rightarrow> (case int_of s of Inl e \<Rightarrow> Inl (Py e) | Inr i \<Rightarrow> Inr i)
     | _ \<Rightarrow> Inl (Py (TypeError ''int() argument must be a string or a number'')))"

definition FLOAT_LIMIT :: int where "FLOAT_LIMIT = 2 ^ 1024 - 2 ^ 970"

definition json_float :: "(string \<Rightarrow> pyfloat option) \<Rightarrow> json \<Rightarrow> kv_exn + pyfloat" where
  "json_float parse v = (case v of JInt i \<Rightarrow> if \<bar>i\<bar> \<ge> FLOAT_LIMIT then Inl KvOverflow else Inr (of_int i)
     | JBool b \<Rightarrow> Inr (if b then 1 else 0) | JFloat x _ \<Rightarrow> Inr x
     | JStr s \<Rightarrow> (case parse s of None \<Rightarrow> Inl (Py (ValueError ''could not convert string to float'')) | Some x \<Rightarrow> Inr x)
     | _ \<Rightarrow> Inl (Py (TypeError ''float() argument must be a string or a real number'')))"

definition as_float :: "(string \<Rightarrow> pyfloat option) \<Rightarrow> json \<Rightarrow> string \<Rightarrow> kv_exn + pyfloat" where
  "as_float parse v name = (case json_float parse v of
     Inl (Py _) \<Rightarrow> integrity (''lmcache.hop.'' @ name @ '' must be numeric'') | r \<Rightarrow> r)"

text \<open>The request: its token ids, and \<open>sampling_params.extra_args\<close> (\<^const>\<open>None\<close> without sampling parameters).\<close>

record kv_request =
  rq_token_ids :: "json list option"
  rq_extra_args :: "json option"

definition kv_transfer_params :: "kv_request \<Rightarrow> kv_exn + jdict" where
  "kv_transfer_params rq = (case rq_extra_args rq of
     None \<Rightarrow> integrity ''request has no sampling_params''
   | Some JNull \<Rightarrow> Inr []
   | Some (JObj extra) \<Rightarrow> (case jget_or extra ''kv_transfer_params'' (JObj []) of
       JObj ps \<Rightarrow> Inr ps | _ \<Rightarrow> integrity ''kv_transfer_params must be a mapping'')
   | Some _ \<Rightarrow> integrity ''sampling_params.extra_args must be a mapping'')"

definition is_load_requested :: "jdict \<Rightarrow> bool" where
  "is_load_requested ps \<longleftrightarrow> jget ps ''lmcache.hop.load'' = JBool True"

definition setdefault :: "string \<Rightarrow> json \<Rightarrow> jdict \<Rightarrow> jdict" where
  "setdefault k v d = (if map_of d k = None then od_set k v d else d)"

fun own_keys :: "(string \<times> string) list \<Rightarrow> jdict \<Rightarrow> kv_exn + jdict" where
  "own_keys [] ps = Inr ps"
| "own_keys ((k, expected) # ks) ps =
     (if jget ps k \<noteq> JNull \<and> jget ps k \<noteq> JStr expected then integrity (k @ '' disagrees with worker-derived identity'')
      else own_keys ks (od_set k (JStr expected) ps))"

definition worker_owned :: "prefix_identity \<Rightarrow> (string \<times> string) list" where
  "worker_owned i = [(LMCACHE_COMPATIBILITY_TAG, pi_namespace i), (HOP_NAMESPACE_KEY, pi_namespace i),
     (HOP_PREFIX_ID_KEY, pi_value i), (HOP_PREFIX_VERSION_KEY, pi_version i)]"

definition allowed_reasons :: "string list" where
  "allowed_reasons = [''local'', ''local_prefix_present'', ''no_prior_worker'', ''transfer_disabled'', ''independently_warmed_destination'',
     ''remote_prefix_candidate'', ''below_min_tokens'', ''deadline_recompute'', ''experiment_on'', ''experiment_off'']"

text \<open>\<open>value not in {...}\<close> hashes the value: a list or a dict raises \<open>TypeError\<close>.\<close>

definition hashable :: "json \<Rightarrow> bool" where
  "hashable v = (case v of JArr _ \<Rightarrow> False | JObj _ \<Rightarrow> False | _ \<Rightarrow> True)"

definition prepare_request :: "(string \<Rightarrow> string) \<Rightarrow> kv_request \<Rightarrow> hop_runtime \<Rightarrow> kv_exn + (jdict \<times> prefix_identity)" where
  "prepare_request sha rq s = (case rq_token_ids rq of
     None \<Rightarrow> Inl (Py (TypeError ''object is not iterable''))
   | Some ts \<Rightarrow> (case build_identity sha ts (rt_compat s) of
       Inl e \<Rightarrow> Inl (Py e)
     | Inr i \<Rightarrow>
         try_bind (kv_transfer_params rq) (\<lambda>ps0.
         try_bind (own_keys (worker_owned i) ps0) (\<lambda>ps1.
         let ps2 = setdefault ''lmcache.hop.source_worker_or_store'' (JStr (rt_source s))
               (od_set ''lmcache.hop.destination_worker'' (JStr (rt_destination s)) ps1);
             reason = jget ps2 ''lmcache.hop.reason''
         in if \<not> hashable reason then Inl (Py (TypeError ''unhashable type''))
            else Inr (if \<exists>t \<in> set allowed_reasons. reason = JStr t then ps2
                      else od_set ''lmcache.hop.reason'' (JStr ''unspecified'') ps2, i)))))"

definition base_evidence :: "jdict \<Rightarrow> prefix_identity \<Rightarrow> hop_runtime \<Rightarrow> kv_exn + hop_event" where
  "base_evidence ps i s = try_bind (json_int (jget_or ps ''lmcache.hop.reusable_tokens'' (JInt 0))) (\<lambda>n.
     Inr \<lparr>e_request_id = jget ps ''lmcache.hop.request_id'', e_conversation_id = jget ps ''lmcache.hop.conversation_id'',
          e_agent_step = jget ps ''lmcache.hop.agent_step'', e_prefix_identity = pi_value i, e_prefix_version = pi_version i,
          e_source = jget_or ps ''lmcache.hop.source_worker_or_store'' (JStr (rt_source s)), e_destination = rt_destination s,
          e_namespace = pi_namespace i, e_reason = jget ps ''lmcache.hop.reason'', e_reusable_tokens = n,
          e_event = [], e_hop_result = [], e_confirm_result = [], e_fallback_action = [],
          e_tokens = None, e_bytes = None, e_lookup_ms = None, e_transfer_ms = None, e_confirm_ms = None,
          e_reused_tokens = None, e_consumed = None, e_error_type = None\<rparr>)"

definition lookup_event :: "hop_event \<Rightarrow> string \<Rightarrow> string \<Rightarrow> hop_event" where
  "lookup_event e result fallback = e\<lparr>e_event := ''kv_hop_lookup'', e_hop_result := result, e_confirm_result := ''missing'', e_fallback_action := fallback\<rparr>"

text \<open>What the upstream lookup does: it raises, returns something else than a pair, or returns the pair.\<close>

datatype upstream_lookup = Up_Raise string | Up_Malformed | Up_Pair "int option" bool

definition recompute_locally :: "jdict \<Rightarrow> prefix_identity \<Rightarrow> int \<Rightarrow> hop_runtime
    \<Rightarrow> (kv_exn + int option \<times> bool) \<times> jdict \<times> hop_runtime" where
  "recompute_locally ps i computed s =
     (let n = max 0 computed;
          fallback = (if n = 0 then ''recompute'' else ''none'');
          ps1 = setdefault ''lmcache.hop.fallback_action'' (JStr fallback)
            (od_set ''lmcache.hop.reusable_tokens'' (JInt n) (od_set HOP_ACTION_KEY (JStr ''recompute'') ps))
      in case base_evidence ps1 i s of
           Inl e \<Rightarrow> (Inl e, ps1, s)
         | Inr ev \<Rightarrow> (Inr (Some 0, False), ps1, emit (ev\<lparr>e_event := ''kv_hop'', e_hop_result := (if n \<noteq> 0 then ''local_reuse'' else ''recomputed''),
             e_tokens := Some 0, e_bytes := Some 0, e_lookup_ms := Some 0, e_transfer_ms := Some 0, e_confirm_ms := Some 0,
             e_fallback_action := (if n \<noteq> 0 then ''none'' else fallback), e_confirm_result := (if n \<noteq> 0 then ''available'' else ''missing''),
             e_reused_tokens := Some n, e_consumed := Some False\<rparr>) s))"

definition lookup_upstream :: "clock \<Rightarrow> jdict \<Rightarrow> prefix_identity \<Rightarrow> upstream_lookup \<Rightarrow> hop_runtime
    \<Rightarrow> (kv_exn + int option \<times> bool) \<times> jdict \<times> hop_runtime" where
  "lookup_upstream clk ps0 i up s0 =
     (let ps = od_set HOP_ACTION_KEY (JStr ''load'') ps0; started = clk (rt_ticks s0); s = tick s0 in
      case up of
        Up_Raise exc \<Rightarrow> (case base_evidence ps i s of
            Inl e \<Rightarrow> (Inl e, ps, s)
          | Inr ev \<Rightarrow> (Inl (Foreign exc), ps, emit ((lookup_event ev ''failed'' ''fail_request'')\<lparr>e_error_type := Some exc\<rparr>) s))
      | Up_Malformed \<Rightarrow> (integrity ''vLLM 0.11 connector lookup must return (Optional[int], bool)'', ps, tick s)
      | Up_Pair n later \<Rightarrow>
          let lookup_ms = (clk (rt_ticks s) - started) * 1000; s1 = tick s in
          if (case n of Some k \<Rightarrow> k < 0 | None \<Rightarrow> False) then (integrity ''LMCache returned a negative external token count'', ps, s1)
          else let found = (case n of None \<Rightarrow> 0 | Some k \<Rightarrow> k);
                   ps1 = od_set ''lmcache.hop.reusable_tokens'' (JInt found) (od_set ''lmcache.hop.lookup_ms'' (JFloat lookup_ms []) ps)
               in if found \<noteq> 0 then (Inr (n, later), ps1, s1)
                  else let ps2 = od_set ''lmcache.hop.fallback_action'' (JStr ''recompute_missing'') ps1 in
                    case base_evidence ps2 i s1 of
                      Inl e \<Rightarrow> (Inl e, ps2, s1)
                    | Inr ev \<Rightarrow> (Inr (n, later), ps2,
                        emit ((lookup_event ev ''missing'' ''recompute_missing'')\<lparr>e_lookup_ms := Some lookup_ms\<rparr>) s1))"

definition get_num_new_matched_tokens :: "(string \<Rightarrow> string) \<Rightarrow> (string \<Rightarrow> pyfloat option) \<Rightarrow> clock \<Rightarrow> pyfloat \<Rightarrow> kv_request \<Rightarrow> int
    \<Rightarrow> upstream_lookup \<Rightarrow> hop_runtime \<Rightarrow> (kv_exn + int option \<times> bool) \<times> jdict \<times> hop_runtime" where
  "get_num_new_matched_tokens sha parse clk wall rq computed up s =
     (case prepare_request sha rq s of
        Inl e \<Rightarrow> (Inl e, [], s)
      | Inr (ps, i) \<Rightarrow>
          if \<not> rt_enabled s \<or> \<not> is_load_requested ps then recompute_locally ps i computed s
          else let deadline = jget ps ''lmcache.hop.deadline_epoch_s'' in
            case (if deadline = JNull then Inr None else try_bind (as_float parse deadline ''deadline_epoch_s'') (\<lambda>x. Inr (Some x))) of
              Inl e \<Rightarrow> (Inl e, ps, s)
            | Inr dl \<Rightarrow>
                if (case dl of None \<Rightarrow> False | Some x \<Rightarrow> x \<le> wall) then
                  let ps1 = od_set ''lmcache.hop.fallback_action'' (JStr ''recompute_deadline_expired'') (od_set HOP_ACTION_KEY (JStr ''recompute'') ps)
                  in (case base_evidence ps1 i s of
                        Inl e \<Rightarrow> (Inl e, ps1, s)
                      | Inr ev \<Rightarrow> (Inr (Some 0, False), ps1, emit (lookup_event ev ''timeout'' ''recompute_deadline_expired'') s))
                else lookup_upstream clk ps i up s)"

subsection \<open>Instrumented retrieval\<close>

definition validate_runtime_identity :: "(string \<Rightarrow> string) \<Rightarrow> jdict \<Rightarrow> hop_runtime \<Rightarrow> kv_exn + prefix_identity" where
  "validate_runtime_identity sha ps s =
     (let ns = compat_namespace sha (rt_compat s) in
      if jget ps LMCACHE_COMPATIBILITY_TAG \<noteq> JStr ns then integrity ''LMCache retrieval is missing the worker-derived compatibility tag''
      else if jget ps HOP_NAMESPACE_KEY \<noteq> JStr ns then integrity ''retrieval compatibility namespace differs from worker configuration''
      else case jget ps HOP_PREFIX_ID_KEY of
          JStr v \<Rightarrow>
            if \<not> startswith ''sha256:'' v then integrity ''retrieval is missing canonical prefix identity''
            else if jget ps HOP_PREFIX_VERSION_KEY \<noteq> JStr ''kv-prefix-identity-v1'' then integrity ''retrieval prefix identity version is unsupported''
            else try_bind (json_int (jget_or ps ''lmcache.hop.reusable_tokens'' (JInt 0))) (\<lambda>n.
              case make_identity \<lparr>pi_value = v, pi_namespace = ns, pi_token_count = n, pi_version = ''kv-prefix-identity-v1''\<rparr> of
                Inl e \<Rightarrow> Inl (Py e) | Inr i \<Rightarrow> Inr i)
        | _ \<Rightarrow> integrity ''retrieval is missing canonical prefix identity'')"

definition retrieval_evidence :: "(string \<Rightarrow> pyfloat option) \<Rightarrow> jdict \<Rightarrow> prefix_identity \<Rightarrow> hop_runtime \<Rightarrow> int \<Rightarrow> int \<Rightarrow> pyfloat \<Rightarrow> pyfloat
    \<Rightarrow> string \<Rightarrow> string \<Rightarrow> string \<Rightarrow> string option \<Rightarrow> kv_exn + hop_event" where
  "retrieval_evidence parse ps i s tokens nbytes transfer_ms confirm_ms hop_result confirm_res fallback err =
     try_bind (base_evidence ps i s) (\<lambda>ev.
     try_bind (json_float parse (jget_or ps ''lmcache.hop.lookup_ms'' (JFloat 0 []))) (\<lambda>lookup_ms.
     Inr (ev\<lparr>e_event := ''kv_hop'', e_hop_result := hop_result, e_tokens := Some tokens, e_bytes := Some nbytes, e_lookup_ms := Some lookup_ms,
            e_transfer_ms := Some transfer_ms, e_confirm_ms := Some confirm_ms, e_fallback_action := fallback, e_confirm_result := confirm_res,
            e_reused_tokens := Some 0, e_consumed := Some False, e_error_type := err\<rparr>)))"

text \<open>What LMCache's \<open>_process_tokens_internal\<close> and \<open>retrieve\<close> do, and the CUDA synchronisation.\<close>

datatype process_result = Pr_Raise string | Pr_Malformed | Pr_Bytes "int option"
datatype retrieve_result = Ret_Raise string | Ret_Mask "int option"
datatype sync_result = Sync_Ok | Sync_Integrity string | Sync_Raise string

definition mask_count :: "int option \<Rightarrow> int \<Rightarrow> int" where
  "mask_count m dflt = (case m of None \<Rightarrow> dflt | Some n \<Rightarrow> n)"

fun process_tokens :: "process_result list \<Rightarrow> hop_runtime \<Rightarrow> kv_exn option \<times> hop_runtime" where
  "process_tokens [] s = (None, s)"
| "process_tokens (Pr_Raise e # rs) s = (Some (Foreign e), s)"
| "process_tokens (Pr_Malformed # rs) s = (Some (KVTransferIntegrityError ''LMCache _process_tokens_internal returned an unknown result''), s)"
| "process_tokens (Pr_Bytes None # rs) s = (Some (KVTransferIntegrityError ''LMCache reported invalid transferred bytes''), s)"
| "process_tokens (Pr_Bytes (Some b) # rs) s =
     (if b < 0 then (Some (KVTransferIntegrityError ''LMCache reported invalid transferred bytes''), s)
      else process_tokens rs (s\<lparr>rt_thread_bytes := b\<rparr>))"

text \<open>The handlers of the \<open>try\<close>: an integrity error passes, anything else is reported and passes.\<close>

definition retrieve_raised :: "(string \<Rightarrow> pyfloat option) \<Rightarrow> clock \<Rightarrow> pyfloat \<Rightarrow> jdict \<Rightarrow> prefix_identity \<Rightarrow> kv_exn \<Rightarrow> hop_runtime
    \<Rightarrow> (kv_exn + int option) \<times> hop_runtime" where
  "retrieve_raised parse clk started ps i exc s = (case exc of
     KVTransferIntegrityError m \<Rightarrow> (Inl exc, s)
   | _ \<Rightarrow> (case retrieval_evidence parse ps i s 0 (rt_thread_bytes s) ((clk (rt_ticks s) - started) * 1000) 0 ''failed'' ''missing''
              ''fail_request'' (Some (case exc of Foreign n \<Rightarrow> n | KvOverflow \<Rightarrow> ''OverflowError'' | Py (ValueError _) \<Rightarrow> ''ValueError'' | Py (TypeError _) \<Rightarrow> ''TypeError''
                | Py (KeyError _) \<Rightarrow> ''KeyError'' | _ \<Rightarrow> ''RuntimeError'')) of
            Inl e \<Rightarrow> (Inl e, tick s)
          | Inr ev \<Rightarrow> (Inl exc, emit ev (tick s))))"

definition retrieve_failed :: "(string \<Rightarrow> pyfloat option) \<Rightarrow> clock \<Rightarrow> pyfloat \<Rightarrow> pyfloat \<Rightarrow> jdict \<Rightarrow> prefix_identity \<Rightarrow> int \<Rightarrow> string \<Rightarrow> string \<Rightarrow> hop_runtime
    \<Rightarrow> (kv_exn + int option) \<times> hop_runtime" where
  "retrieve_failed parse clk started transfer_ms ps i tokens fallback message s =
     (case retrieval_evidence parse ps i s tokens (rt_thread_bytes s) transfer_ms 0 ''failed'' ''missing'' fallback None of
        Inl e \<Rightarrow> retrieve_raised parse clk started ps i e s
      | Inr ev \<Rightarrow> (integrity message, emit ev s))"

definition retrieve_loaded :: "(string \<Rightarrow> pyfloat option) \<Rightarrow> clock \<Rightarrow> pyfloat \<Rightarrow> pyfloat \<Rightarrow> sync_result \<Rightarrow> jdict \<Rightarrow> prefix_identity \<Rightarrow> int option \<Rightarrow> int \<Rightarrow> hop_runtime
    \<Rightarrow> (kv_exn + int option) \<times> hop_runtime" where
  "retrieve_loaded parse clk started transfer_done sync ps i ret_mask tokens s =
     (case sync of
        Sync_Integrity m \<Rightarrow> (integrity m, s)
      | Sync_Raise e \<Rightarrow> retrieve_raised parse clk started ps i (Foreign e) s
      | Sync_Ok \<Rightarrow>
          let available_at = clk (rt_ticks s); s1 = tick s in
          case retrieval_evidence parse ps i s1 tokens (rt_thread_bytes s1) ((transfer_done - started) * 1000)
              ((available_at - transfer_done) * 1000) ''transferred'' ''available'' ''none'' None of
            Inl e \<Rightarrow> retrieve_raised parse clk started ps i e s1
          | Inr ev \<Rightarrow> let ev' = ev\<lparr>e_event := ''kv_hop_available''\<rparr>; s2 = emit ev' s1 in
              (Inr ret_mask, s2\<lparr>rt_pending := rt_pending s2 @ [(ev', transfer_done)]\<rparr>))"

definition retrieve_body :: "(string \<Rightarrow> pyfloat option) \<Rightarrow> clock \<Rightarrow> int \<Rightarrow> process_result list \<Rightarrow> retrieve_result \<Rightarrow> sync_result
    \<Rightarrow> jdict \<Rightarrow> prefix_identity \<Rightarrow> hop_runtime \<Rightarrow> (kv_exn + int option) \<times> hop_runtime" where
  "retrieve_body parse clk expected procs outcome sync ps i s0 =
     (let started = clk (rt_ticks s0); (raised, s) = process_tokens procs (tick s0) in
      case (raised, outcome) of
        (Some exc, _) \<Rightarrow> retrieve_raised parse clk started ps i exc s
      | (None, Ret_Raise e) \<Rightarrow> retrieve_raised parse clk started ps i (Foreign e) s
      | (None, Ret_Mask ret_mask) \<Rightarrow>
          let transfer_done = clk (rt_ticks s); s1 = tick s; tokens = mask_count ret_mask 0; transfer_ms = (transfer_done - started) * 1000 in
          if tokens \<noteq> expected then
            retrieve_failed parse clk started transfer_ms ps i tokens ''fail_request_partial_retrieval''
              (''partial KV retrieval: expected '' @ show_int expected @ '' tokens, loaded '' @ show_int tokens) s1
          else if tokens \<le> 0 \<or> rt_thread_bytes s1 \<le> 0 then
            retrieve_failed parse clk started transfer_ms ps i tokens ''fail_request_empty_retrieval''
              ''LMCache retrieval returned no provable KV bytes/tokens'' s1
          else retrieve_loaded parse clk started transfer_done sync ps i ret_mask tokens s1)"

definition retrieve :: "(string \<Rightarrow> string) \<Rightarrow> (string \<Rightarrow> pyfloat option) \<Rightarrow> clock \<Rightarrow> nat \<Rightarrow> int option \<Rightarrow> jdict \<Rightarrow> process_result list
    \<Rightarrow> retrieve_result \<Rightarrow> sync_result \<Rightarrow> hop_runtime \<Rightarrow> (kv_exn + int option) \<times> hop_runtime" where
  "retrieve sha parse clk n_tokens msk configs procs outcome sync s =
     (case validate_runtime_identity sha configs s of
        Inl e \<Rightarrow> (Inl e, s)
      | Inr i \<Rightarrow>
          let (res, s1) = retrieve_body parse clk (mask_count msk (int n_tokens)) procs outcome sync configs i (s\<lparr>rt_thread_bytes := 0\<rparr>)
          in (res, s1\<lparr>rt_thread_bytes := 0\<rparr>))"

subsection \<open>The forward pass\<close>

definition confirmed_event :: "pyfloat \<Rightarrow> hop_event \<times> pyfloat \<Rightarrow> hop_event" where
  "confirmed_event confirmed_at p = (fst p)\<lparr>e_event := ''kv_hop'', e_confirm_ms := Some ((confirmed_at - snd p) * 1000),
     e_reused_tokens := e_tokens (fst p), e_consumed := Some True\<rparr>"

definition confirm_forward_consumption :: "clock \<Rightarrow> hop_runtime \<Rightarrow> hop_runtime" where
  "confirm_forward_consumption clk s =
     (if rt_pending s = [] then s
      else fold emit (map (confirmed_event (clk (rt_ticks s))) (rt_pending s)) (tick (s\<lparr>rt_pending := []\<rparr>)))"

definition failed_event :: "string \<Rightarrow> hop_event \<times> pyfloat \<Rightarrow> hop_event" where
  "failed_event reason p = (fst p)\<lparr>e_event := ''kv_hop'', e_hop_result := ''failed'', e_confirm_result := ''stale'', e_fallback_action := reason,
     e_reused_tokens := Some 0, e_consumed := Some False\<rparr>"

definition fail_forward :: "string \<Rightarrow> hop_runtime \<Rightarrow> hop_runtime" where
  "fail_forward reason s = fold emit (map (failed_event reason) (rt_pending s)) (s\<lparr>rt_pending := []\<rparr>)"

definition begin_forward :: "hop_runtime \<Rightarrow> hop_runtime" where
  "begin_forward s = fail_forward ''previous_forward_not_confirmed'' s"

text \<open>
  The connector's calls: \<open>body\<close> is the base class's \<open>start_load_kv\<close>, which retrieves through the
  instrumented engine, and says whether it returned.
\<close>

definition start_load_kv :: "(hop_runtime \<Rightarrow> bool \<times> hop_runtime) \<Rightarrow> hop_runtime \<Rightarrow> bool \<times> hop_runtime" where
  "start_load_kv body s = (let (returned, s1) = body (begin_forward s) in
     (returned, if returned then s1 else fail_forward ''fail_request_load'' s1))"

definition wait_for_save :: "clock \<Rightarrow> bool \<Rightarrow> hop_runtime \<Rightarrow> hop_runtime" where
  "wait_for_save clk returned s = (if returned then confirm_forward_consumption clk s else fail_forward ''fail_request_forward_or_save'' s)"

subsection \<open>Start-up checks\<close>

definition validate_lmcache_runtime :: "int \<Rightarrow> bool \<Rightarrow> bool \<Rightarrow> string option \<Rightarrow> bool \<Rightarrow> py_exn + unit" where
  "validate_lmcache_runtime tp layerwise async_loading remote_url local_cpu =
     (if tp \<noteq> 1 then Inl (RuntimeError ''KV hop evidence currently requires tensor_parallel_size=1'')
      else if layerwise then Inl (RuntimeError ''layerwise LMCache retrieval is not supported'')
      else if async_loading then Inl (RuntimeError ''async LMCache loading is not supported'')
      else if (case remote_url of None \<Rightarrow> True | Some u \<Rightarrow> \<not> startswith ''mooncakestore://'' u)
        then Inl (RuntimeError ''KV hop evidence requires a Mooncake Store remote_url'')
      else if local_cpu then Inl (RuntimeError ''local_cpu must be false so Mooncake provenance is unambiguous'')
      else Inr ())"

definition removeprefix :: "string \<Rightarrow> string \<Rightarrow> string" where
  "removeprefix p s = (if startswith p s then drop (length p) s else s)"

definition dtype_name :: "string option \<Rightarrow> py_exn + string" where
  "dtype_name v = (case v of
     None \<Rightarrow> Inl (RuntimeError ''dtype must be resolved before KV transfer starts'')
   | Some s \<Rightarrow> let r = removeprefix ''torch.'' s in
       if r = [] \<or> r = ''auto'' then Inl (RuntimeError ''dtype must be concrete before KV transfer starts'') else Inr r)"

definition required :: "string option \<Rightarrow> string \<Rightarrow> py_exn + string" where
  "required v name = (case v of Some s \<Rightarrow> if py_strip s = [] then Inl (RuntimeError (name @ '' must be an explicit immutable value'')) else Inr s
     | None \<Rightarrow> Inl (RuntimeError (name @ '' must be an explicit immutable value'')))"

text \<open>The attributes \<open>compatibility_from_vllm\<close> reads, as texts; \<^const>\<open>None\<close> for an attribute that is absent or \<open>None\<close>.\<close>

record vllm_config =
  vc_model :: string
  vc_revision :: "string option"
  vc_tokenizer_revision :: "string option"
  vc_dtype :: "string option"
  vc_cache_dtype :: "string option"
  vc_lora :: bool
  vc_block_size :: string
  vc_tp :: string

definition or_env :: "string option \<Rightarrow> string option \<Rightarrow> string option" where
  "or_env v w = (case v of None \<Rightarrow> w | Some s \<Rightarrow> if s = [] then w else v)"

definition compatibility_from_vllm :: "vllm_config \<Rightarrow> environ \<Rightarrow> (string \<Rightarrow> string) \<Rightarrow> py_exn + compatibility_spec" where
  "compatibility_from_vllm cfg env version =
     (if version ''vllm'' \<noteq> SUPPORTED_VLLM_VERSION then Inl (RuntimeError ''unsupported vLLM version'')
      else if version ''lmcache'' \<noteq> SUPPORTED_LMCACHE_VERSION then Inl (RuntimeError ''unsupported LMCache version'')
      else try_bind (dtype_name (vc_dtype cfg)) (\<lambda>weights.
        try_bind (if vc_cache_dtype cfg = None \<or> vc_cache_dtype cfg = Some ''auto'' then Inr weights else dtype_name (vc_cache_dtype cfg)) (\<lambda>kvt.
        let adapter = (if env ''KV_ADAPTER_NAMESPACE'' = None \<and> \<not> vc_lora cfg then Some ''none'' else env ''KV_ADAPTER_NAMESPACE'') in
        try_bind (required (or_env (vc_revision cfg) (env ''MODEL_REVISION'')) ''MODEL_REVISION'') (\<lambda>rev.
        try_bind (required (or_env (vc_tokenizer_revision cfg) (env ''KV_TOKENIZER_REVISION'')) ''KV_TOKENIZER_REVISION'') (\<lambda>tok.
        try_bind (required (env ''KV_TEMPLATE_VERSION'') ''KV_TEMPLATE_VERSION'') (\<lambda>tmpl.
        try_bind (required (env ''KV_PREFIX_CONTRACT_VERSION'') ''KV_PREFIX_CONTRACT_VERSION'') (\<lambda>contract.
        try_bind (required adapter ''KV_ADAPTER_NAMESPACE'') (\<lambda>ad.
        try_bind (required (env ''KV_CACHE_NAMESPACE'') ''KV_CACHE_NAMESPACE'') (\<lambda>cache.
        make_compat \<lparr>model_id = vc_model cfg, model_revision = rev, tokenizer_revision = tok, chat_template_version = tmpl,
          prefix_contract_version = contract, weight_dtype = weights, kv_dtype = kvt, adapter_namespace = ad, cache_namespace = cache,
          engine_version = version ''vllm'', block_layout_version = ''vllm-v1:block-size='' @ vc_block_size cfg @ '':tp='' @ vc_tp cfg\<rparr>)))))))))"

definition required_env :: "environ \<Rightarrow> string \<Rightarrow> py_exn + string" where
  "required_env env name = (case env name of
     Some v \<Rightarrow> if py_strip v = [] then Inl (RuntimeError (name @ '' must be set for Mooncake KV transfer'')) else Inr v
   | None \<Rightarrow> Inl (RuntimeError (name @ '' must be set for Mooncake KV transfer'')))"

subsection \<open>Worker metrics\<close>

definition METRIC_RESULTS :: "string list" where
  "METRIC_RESULTS = [''transferred'', ''local_reuse'', ''recomputed'', ''missing'', ''timeout'', ''failed'']"

definition METRIC_REASONS :: "string list" where
  "METRIC_REASONS = [''local'', ''local_prefix_present'', ''no_prior_worker'', ''transfer_disabled'', ''independently_warmed_destination'',
     ''remote_prefix_candidate'', ''below_min_tokens'', ''deadline_recompute'', ''experiment_on'', ''experiment_off'', ''unspecified'']"

text \<open>What one event adds to the counters: the labels, the tokens and bytes, the observed duration and whether an error is counted.\<close>

record metric_update =
  mu_result :: string
  mu_reason :: string
  mu_tokens :: int
  mu_bytes :: int
  mu_seconds :: pyfloat
  mu_error :: bool

definition record_metrics :: "hop_event \<Rightarrow> metric_update option" where
  "record_metrics e =
     (if e_event e = ''kv_hop_available'' then None
      else let result = (if e_hop_result e \<in> set METRIC_RESULTS then e_hop_result e else ''failed'');
               reason = (case e_reason e of JStr r \<Rightarrow> if r \<in> set METRIC_REASONS then r else ''unspecified'' | _ \<Rightarrow> ''unspecified'')
           in Some \<lparr>mu_result = result, mu_reason = reason,
                mu_tokens = max 0 (case e_tokens e of None \<Rightarrow> 0 | Some t \<Rightarrow> t), mu_bytes = max 0 (case e_bytes e of None \<Rightarrow> 0 | Some b \<Rightarrow> b),
                mu_seconds = max 0 (case e_transfer_ms e of None \<Rightarrow> 0 | Some x \<Rightarrow> x) / 1000,
                mu_error = (result \<in> set [''failed'', ''timeout'', ''missing''])\<rparr>)"

text \<open>The labels stay within two fixed sets, whatever a request carries.\<close>

lemma metric_labels_bounded:
  "record_metrics e = Some u \<Longrightarrow> mu_result u \<in> set METRIC_RESULTS \<and> mu_reason u \<in> set METRIC_REASONS"
proof -
  have "''failed'' \<in> set METRIC_RESULTS" "''unspecified'' \<in> set METRIC_REASONS" by (simp_all add: METRIC_RESULTS_def METRIC_REASONS_def)
  then show "record_metrics e = Some u \<Longrightarrow> ?thesis"
    unfolding record_metrics_def Let_def by (auto split: if_splits json.splits)
qed

lemmas runtime_defs [kv_defs] =
  base_evidence_def retrieval_evidence_def retrieve_raised_def retrieve_failed_def retrieve_loaded_def retrieve_body_def retrieve_def
  confirm_forward_consumption_def fail_forward_def begin_forward_def

subsection \<open>The identity of a request is the worker's own\<close>

lemma own_keys_ok:
  "own_keys ks ps = Inr qs \<Longrightarrow> distinct (map fst ks) \<Longrightarrow>
   (\<forall>(k, v) \<in> set ks. (jget ps k = JNull \<or> jget ps k = JStr v) \<and> jget qs k = JStr v) \<and> (\<forall>k. k \<notin> fst ` set ks \<longrightarrow> jget qs k = jget ps k)"
proof (induction ks ps rule: own_keys.induct)
  case (2 k v ks ps)
  then have ih: "(\<forall>(k', v') \<in> set ks. (jget (od_set k (JStr v) ps) k' = JNull \<or> jget (od_set k (JStr v) ps) k' = JStr v') \<and> jget qs k' = JStr v')
      \<and> (\<forall>k'. k' \<notin> fst ` set ks \<longrightarrow> jget qs k' = jget (od_set k (JStr v) ps) k')"
    by (auto split: if_splits)
  moreover have "jget ps k = JNull \<or> jget ps k = JStr v" using 2(2) by (auto split: if_splits)
  moreover have "k' \<noteq> k" if "(k', v') \<in> set ks" for k' v' using 2(3) that by force
  ultimately show ?case using 2(3) by (auto 0 3)
qed simp

lemma own_keys_reject:
  "(k, v) \<in> set ks \<Longrightarrow> distinct (map fst ks) \<Longrightarrow> jget ps k \<noteq> JNull \<Longrightarrow> jget ps k \<noteq> JStr v \<Longrightarrow> \<exists>e. own_keys ks ps = Inl e"
  using own_keys_ok [of ks ps] by (cases "own_keys ks ps") auto

lemma worker_owned_distinct: "distinct (map fst (worker_owned i))"
  by (simp add: worker_owned_def hop_keys)

lemma jget_setdefault [simp]: "k' \<noteq> k \<Longrightarrow> jget (setdefault k v d) k' = jget d k'"
  by (simp add: setdefault_def)

text \<open>
  A request passes only with the worker's own identity: after \<open>_prepare_request\<close> the four keys a
  cache lookup is bound to carry the namespace, identity and version computed from the request's
  tokens and this worker's configuration, and a request that arrived with any other value in one
  of them was refused.
\<close>

theorem prepared_identity_is_own:
  assumes "prepare_request sha rq s = Inr (ps, i)" "(k, v) \<in> set (worker_owned i)"
  shows "jget ps k = JStr v \<and> (\<exists>ps0. kv_transfer_params rq = Inr ps0 \<and> (jget ps0 k = JNull \<or> jget ps0 k = JStr v))
    \<and> (\<exists>ts. rq_token_ids rq = Some ts \<and> build_identity sha ts (rt_compat s) = Inr i)"
proof -
  obtain ts ps0 ps1 where t: "rq_token_ids rq = Some ts" "build_identity sha ts (rt_compat s) = Inr i" "kv_transfer_params rq = Inr ps0"
    and o: "own_keys (worker_owned i) ps0 = Inr ps1"
    and ps: "ps = (let ps2 = setdefault ''lmcache.hop.source_worker_or_store'' (JStr (rt_source s))
               (od_set ''lmcache.hop.destination_worker'' (JStr (rt_destination s)) ps1)
        in if \<exists>t \<in> set allowed_reasons. jget ps2 ''lmcache.hop.reason'' = JStr t then ps2 else od_set ''lmcache.hop.reason'' (JStr ''unspecified'') ps2)"
    using assms(1) by (auto simp: prepare_request_def Let_def split: option.splits sum.splits if_splits)
  have k: "k \<noteq> ''lmcache.hop.source_worker_or_store'' \<and> k \<noteq> ''lmcache.hop.destination_worker'' \<and> k \<noteq> ''lmcache.hop.reason''"
    using assms(2) by (auto simp: worker_owned_def hop_keys)
  have "jget ps k = jget ps1 k" unfolding ps Let_def using k by simp
  with own_keys_ok [OF o worker_owned_distinct] assms(2) t show ?thesis by auto
qed

subsection \<open>Evidence is never invented\<close>

datatype rt_call =
    Call_Lookup kv_request int upstream_lookup pyfloat
  | Call_Retrieve nat "int option" jdict "process_result list" retrieve_result sync_result
  | Call_Begin
  | Call_Save bool
  | Call_Load_Failed

definition rt_do :: "(string \<Rightarrow> string) \<Rightarrow> (string \<Rightarrow> pyfloat option) \<Rightarrow> clock \<Rightarrow> rt_call \<Rightarrow> hop_runtime \<Rightarrow> hop_runtime" where
  "rt_do sha parse clk c s = (case c of
     Call_Lookup rq n up wall \<Rightarrow> snd (snd (get_num_new_matched_tokens sha parse clk wall rq n up s))
   | Call_Retrieve n m cfg procs out sync \<Rightarrow> snd (retrieve sha parse clk n m cfg procs out sync s)
   | Call_Begin \<Rightarrow> begin_forward s
   | Call_Save returned \<Rightarrow> wait_for_save clk returned s
   | Call_Load_Failed \<Rightarrow> fail_forward ''fail_request_load'' s)"

definition rt_start :: "hop_runtime \<Rightarrow> bool" where
  "rt_start s \<longleftrightarrow> (\<exists>en c d src. make_runtime en c d src = Inr s)"

definition rt_step :: "(string \<Rightarrow> string) \<Rightarrow> (string \<Rightarrow> pyfloat option) \<Rightarrow> clock \<Rightarrow> hop_runtime \<Rightarrow> hop_runtime \<Rightarrow> bool" where
  "rt_step sha parse clk s s' \<longleftrightarrow> (\<exists>c. s' = rt_do sha parse clk c s)"

definition loaded :: "hop_event \<Rightarrow> bool" where
  "loaded e \<longleftrightarrow> e_hop_result e = ''transferred'' \<and> e_confirm_result e = ''available'' 
     \<and> (case e_tokens e of None \<Rightarrow> False | Some t \<Rightarrow> 0 < t) \<and> (case e_bytes e of None \<Rightarrow> False | Some b \<Rightarrow> 0 < b)"

definition announces :: "hop_event \<Rightarrow> bool" where
  "announces e \<longleftrightarrow> e_event e = ''kv_hop_available''"

definition discards :: "hop_event \<Rightarrow> bool" where
  "discards e \<longleftrightarrow> e_confirm_result e = ''stale''"

definition claims :: "hop_event \<Rightarrow> bool" where
  "claims e \<longleftrightarrow> e_consumed e = Some True"

definition rt_inv :: "hop_runtime \<Rightarrow> bool" where
  "rt_inv s \<longleftrightarrow>
     list_all (\<lambda>p. loaded (fst p) \<and> announces (fst p)) (rt_pending s)
     \<and> list_all (\<lambda>e. claims e \<longrightarrow> loaded e \<and> e_reused_tokens e = e_tokens e) (rt_emitted s)
     \<and> list_all (\<lambda>e. announces e \<longrightarrow> loaded e) (rt_emitted s)
     \<and> count_if announces (rt_emitted s) = int (length (rt_pending s)) + count_if claims (rt_emitted s) + count_if discards (rt_emitted s)"

text \<open>An event that neither announces, claims nor discards leaves the account balanced.\<close>

definition neutral :: "hop_event \<Rightarrow> bool" where
  "neutral e \<longleftrightarrow> \<not> announces e \<and> \<not> claims e \<and> \<not> discards e"

lemma count_if_append [simp]: "count_if p (xs @ ys) = count_if p xs + count_if p ys"
  by (simp add: count_if_def)

lemma rt_inv_emit: "rt_inv s \<Longrightarrow> neutral e \<Longrightarrow> rt_inv (emit e s)"
  by (auto simp: rt_inv_def emit_def neutral_def)

lemma rt_inv_frame: "rt_inv s \<Longrightarrow> rt_pending s' = rt_pending s \<Longrightarrow> rt_emitted s' = rt_emitted s \<Longrightarrow> rt_inv s'"
  by (simp add: rt_inv_def)

lemma fold_emit: "fold emit es s = s\<lparr>rt_emitted := rt_emitted s @ es\<rparr>"
  by (induction es arbitrary: s) (simp_all add: emit_def)

lemma base_evidence_fields: "base_evidence ps i s = Inr ev \<Longrightarrow> e_event ev = [] \<and> e_consumed ev = None \<and> e_confirm_result ev = []"
  by (auto simp: base_evidence_def)

lemma lookup_event_neutral: "base_evidence ps i s = Inr ev \<Longrightarrow> neutral (lookup_event ev r f)
    \<and> neutral (lookup_event ev r f\<lparr>e_error_type := x\<rparr>) \<and> neutral (lookup_event ev r f\<lparr>e_lookup_ms := y\<rparr>)"
  by (auto simp: neutral_def lookup_event_def announces_def claims_def discards_def dest!: base_evidence_fields)

lemma rt_inv_tick [simp]: "rt_inv (tick s) = rt_inv s"
  by (simp add: rt_inv_def tick_def)

lemma rt_inv_bytes [simp]: "rt_inv (s\<lparr>rt_thread_bytes := b\<rparr>) = rt_inv s"
  by (simp add: rt_inv_def)

lemma rt_inv_recompute: "rt_inv s \<Longrightarrow> rt_inv (snd (snd (recompute_locally ps i n s)))"
  by (auto simp: recompute_locally_def Let_def neutral_def announces_def claims_def discards_def intro!: rt_inv_emit split: sum.split)

lemma rt_inv_upstream: "rt_inv s \<Longrightarrow> rt_inv (snd (snd (lookup_upstream clk ps i up s)))"
  by (auto simp: lookup_upstream_def Let_def intro!: rt_inv_emit dest: lookup_event_neutral
      split: upstream_lookup.split sum.split option.split)

lemma rt_inv_lookup: "rt_inv s \<Longrightarrow> rt_inv (snd (snd (get_num_new_matched_tokens sha parse clk wall rq n up s)))"
  unfolding get_num_new_matched_tokens_def Let_def
  by (auto intro!: rt_inv_emit rt_inv_recompute rt_inv_upstream dest: lookup_event_neutral split: sum.split prod.split option.split)

lemma process_tokens_frame: "process_tokens rs s = (x, s') \<Longrightarrow> rt_pending s' = rt_pending s \<and> rt_emitted s' = rt_emitted s"
  by (induction rs s rule: process_tokens.induct) (auto split: if_splits)

lemma evidence_neutral:
  "retrieval_evidence parse ps i s t b x y h ''missing'' f e = Inr ev \<Longrightarrow> neutral ev"
  by (auto simp: retrieval_evidence_def neutral_def announces_def claims_def discards_def)

lemma rt_inv_raised: "rt_inv s \<Longrightarrow> rt_inv (snd (retrieve_raised parse clk st ps i exc s))"
  by (auto simp: retrieve_raised_def intro!: rt_inv_emit dest: evidence_neutral split: kv_exn.split sum.split)

lemma rt_inv_failed: "rt_inv s \<Longrightarrow> rt_inv (snd (retrieve_failed parse clk st x ps i t f m s))"
  by (auto simp: retrieve_failed_def intro!: rt_inv_emit rt_inv_raised dest: evidence_neutral split: sum.split)

lemma rt_inv_loaded:
  assumes "rt_inv s" "0 < t" "0 < rt_thread_bytes s"
  shows "rt_inv (snd (retrieve_loaded parse clk st td sync ps i m t s))"
proof (cases sync)
  case Sync_Ok
  let ?x = "retrieval_evidence parse ps i (tick s) t (rt_thread_bytes (tick s)) ((td - st) * 1000) ((clk (rt_ticks s) - td) * 1000)
      ''transferred'' ''available'' ''none'' None"
  show ?thesis
  proof (cases ?x)
    case (Inr ev)
    let ?e = "ev\<lparr>e_event := ''kv_hop_available''\<rparr>"
    have "loaded ?e \<and> announces ?e \<and> \<not> claims ?e \<and> \<not> discards ?e"
      using Inr assms(2,3) by (auto simp: retrieval_evidence_def loaded_def announces_def claims_def discards_def tick_def)
    then show ?thesis using assms(1) Inr unfolding retrieve_loaded_def Sync_Ok sync_result.case Let_def Inr sum.case
      by (simp add: rt_inv_def emit_def tick_def)
  next
    case (Inl e)
    then show ?thesis using rt_inv_raised [of "tick s"] assms(1)
      unfolding retrieve_loaded_def Sync_Ok sync_result.case Let_def Inl sum.case by simp
  qed
qed (use assms(1) rt_inv_raised in \<open>simp_all add: retrieve_loaded_def\<close>)

lemma rt_inv_retrieve: "rt_inv s \<Longrightarrow> rt_inv (snd (retrieve sha parse clk n m cfg procs out sync s))"
proof (cases "validate_runtime_identity sha cfg s")
  case (Inr i)
  assume inv: "rt_inv s"
  let ?s0 = "tick (s\<lparr>rt_thread_bytes := 0\<rparr>)"
  obtain x s1 where p: "process_tokens procs ?s0 = (x, s1)" by force
  have i1: "rt_inv s1" using process_tokens_frame [OF p] inv by (auto intro: rt_inv_frame simp: tick_def)
  obtain res s2 where r: "retrieve_body parse clk (mask_count m (int n)) procs out sync cfg i (s\<lparr>rt_thread_bytes := 0\<rparr>) = (res, s2)" by force
  have "rt_inv (snd (retrieve_body parse clk (mask_count m (int n)) procs out sync cfg i (s\<lparr>rt_thread_bytes := 0\<rparr>)))"
    using i1 rt_inv_loaded [of "tick s1"] rt_inv_raised [of s1] rt_inv_failed [of "tick s1"]
    by (simp add: retrieve_body_def Let_def p split: option.split retrieve_result.split)
  then show ?thesis by (simp add: retrieve_def Inr r)
qed (simp add: retrieve_def)

lemma count_if_map_all: "list_all (\<lambda>x. p (f x)) xs \<Longrightarrow> count_if p (map f xs) = int (length xs)"
  by (induction xs) simp_all

lemma count_if_map_none: "list_all (\<lambda>x. \<not> p (f x)) xs \<Longrightarrow> count_if p (map f xs) = 0"
  by (induction xs) simp_all

text \<open>Settling the pending retrievals, each by one event that claims or discards it.\<close>

lemma rt_inv_settle:
  assumes inv: "rt_inv s" and f: "\<And>p. p \<in> set (rt_pending s) \<Longrightarrow> \<not> announces (f p) \<and> (claims (f p) \<noteq> discards (f p))
      \<and> (claims (f p) \<longrightarrow> loaded (f p) \<and> e_reused_tokens (f p) = e_tokens (f p))"
  shows "rt_inv (s\<lparr>rt_pending := [], rt_emitted := rt_emitted s @ map f (rt_pending s)\<rparr>)"
proof -
  have "count_if announces (map f (rt_pending s)) = 0" using f by (intro count_if_map_none) (simp add: list_all_iff)
  moreover have "(\<And>p. p \<in> set ps \<Longrightarrow> claims (f p) \<noteq> discards (f p)) \<Longrightarrow>
      count_if claims (map f ps) + count_if discards (map f ps) = int (length ps)" for ps
    by (induction ps) auto
  then have "count_if claims (map f (rt_pending s)) + count_if discards (map f (rt_pending s)) = int (length (rt_pending s))" using f by blast
  ultimately show ?thesis using inv f by (auto simp: rt_inv_def list_all_iff)
qed

lemma rt_inv_fail: "rt_inv s \<Longrightarrow> rt_inv (fail_forward reason s)"
  unfolding fail_forward_def fold_emit
  using rt_inv_settle [of s "failed_event reason"] by (simp add: failed_event_def announces_def claims_def discards_def)

lemma rt_inv_confirm: "rt_inv s \<Longrightarrow> rt_inv (confirm_forward_consumption clk s)"
proof -
  assume inv: "rt_inv s"
  then have "loaded (fst p)" if "p \<in> set (rt_pending s)" for p using that by (auto simp: rt_inv_def list_all_iff)
  then have "rt_inv (s\<lparr>rt_pending := [], rt_emitted := rt_emitted s @ map (confirmed_event (clk (rt_ticks s))) (rt_pending s)\<rparr>)"
    by (intro rt_inv_settle [OF inv]) (auto simp: confirmed_event_def announces_def claims_def discards_def loaded_def)
  then show ?thesis using inv by (simp add: confirm_forward_consumption_def fold_emit tick_def rt_inv_def)
qed

lemma rt_do_step: "rt_step sha parse clk s (rt_do sha parse clk c s)"
  unfolding rt_step_def by blast

lemma rt_do_reach: "reach init (rt_step sha parse clk) s \<Longrightarrow> reach init (rt_step sha parse clk) (rt_do sha parse clk c s)"
  by (erule reach_step) (rule rt_do_step)

lemma rt_inv_step: "rt_inv s \<Longrightarrow> rt_step sha parse clk s s' \<Longrightarrow> rt_inv s'"
  unfolding rt_step_def rt_do_def wait_for_save_def begin_forward_def
  by (auto intro: rt_inv_lookup rt_inv_retrieve rt_inv_fail rt_inv_confirm split: rt_call.split)

interpretation evidence: inv_system rt_start "rt_step sha parse clk" rt_inv for sha parse clk
proof
  show "rt_start s \<Longrightarrow> rt_inv s" for s
    by (auto simp: rt_start_def make_runtime_def rt_inv_def split: if_splits)
qed (rule rt_inv_step)


subsection \<open>The gate\<close>

text \<open>
  Without the switch, without an explicit request to load, or after the deadline, the runtime
  reports no external tokens and nothing of LMCache's answer is used: the outcome is the same
  whatever the upstream lookup would have said.
\<close>

theorem gate_closed:
  assumes "prepare_request sha rq s = Inr (ps, i)"
    "\<not> rt_enabled s \<or> \<not> is_load_requested ps \<or> (\<exists>x. json_float parse (jget ps ''lmcache.hop.deadline_epoch_s'') = Inr x
       \<and> jget ps ''lmcache.hop.deadline_epoch_s'' \<noteq> JNull \<and> x \<le> wall)"
  shows "get_num_new_matched_tokens sha parse clk wall rq n up s = get_num_new_matched_tokens sha parse clk wall rq n up' s
    \<and> (\<forall>r. fst (get_num_new_matched_tokens sha parse clk wall rq n up s) = Inr r \<longrightarrow> r = (Some 0, False))"
proof (cases "rt_enabled s \<and> is_load_requested ps")
  case True
  then obtain x where x: "as_float parse (jget ps ''lmcache.hop.deadline_epoch_s'') ''deadline_epoch_s'' = Inr x"
    "jget ps ''lmcache.hop.deadline_epoch_s'' \<noteq> JNull" "x \<le> wall"
    using assms(2) by (auto simp: as_float_def)
  with assms(1) True show ?thesis by (simp add: get_num_new_matched_tokens_def Let_def split: sum.split)
next
  case False
  with assms(1) show ?thesis by (auto simp: get_num_new_matched_tokens_def recompute_locally_def Let_def split: sum.split)
qed

subsection \<open>Witnesses\<close>

definition demo_rt :: hop_runtime where
  "demo_rt = \<lparr>rt_enabled = False, rt_compat = demo_compat, rt_destination = ''w2'', rt_source = ''mooncake_store'', rt_thread_bytes = 0,
     rt_pending = [], rt_emitted = [], rt_ticks = 0\<rparr>"

definition demo_rq :: kv_request where
  "demo_rq = \<lparr>rq_token_ids = Some [JInt 1, JInt 20], rq_extra_args = Some JNull\<rparr>"

definition demo_cfg :: jdict where
  "demo_cfg = [(LMCACHE_COMPATIBILITY_TAG, JStr (compat_namespace demo_sha demo_compat)), (HOP_NAMESPACE_KEY, JStr (compat_namespace demo_sha demo_compat)),
     (HOP_PREFIX_ID_KEY, JStr (''sha256:'' @ replicate 64 CHR ''0'')), (HOP_PREFIX_VERSION_KEY, JStr IDENTITY_VERSION),
     (''lmcache.hop.reusable_tokens'', JInt 2)]"

definition demo_run :: hop_runtime where
  "demo_run = rt_do demo_sha (\<lambda>_. None) of_nat (Call_Save True)
     (rt_do demo_sha (\<lambda>_. None) of_nat (Call_Retrieve 2 None demo_cfg [Pr_Bytes (Some 100)] (Ret_Mask (Some 2)) Sync_Ok) demo_rt)"

lemma demo_prepare: "\<exists>ps i. prepare_request demo_sha demo_rq demo_rt = Inr (ps, i)"
proof -
  have "isl (prepare_request demo_sha demo_rq demo_rt) = False" by code_simp
  then show ?thesis by (cases "prepare_request demo_sha demo_rq demo_rt") auto
qed

theorem prepared_identity_is_own_witness:
  "\<exists>ps i. prepare_request demo_sha demo_rq demo_rt = Inr (ps, i) \<and> jget ps HOP_PREFIX_ID_KEY = JStr (pi_value i)"
proof -
  obtain ps i where p: "prepare_request demo_sha demo_rq demo_rt = Inr (ps, i)" using demo_prepare by blast
  from prepared_identity_is_own [OF p, of HOP_PREFIX_ID_KEY "pi_value i"] p show ?thesis by (simp add: worker_owned_def)
qed

theorem gate_closed_witness:
  "get_num_new_matched_tokens demo_sha (\<lambda>_. None) of_nat 0 demo_rq 0 (Up_Pair (Some 5) False) demo_rt
   = get_num_new_matched_tokens demo_sha (\<lambda>_. None) of_nat 0 demo_rq 0 Up_Malformed demo_rt"
proof -
  obtain ps i where p: "prepare_request demo_sha demo_rq demo_rt = Inr (ps, i)" using demo_prepare by blast
  have "\<not> rt_enabled demo_rt" by (simp add: demo_rt_def)
  with gate_closed [OF p] show ?thesis by blast
qed


end
