(* ===== verification/Kv_Evidence.thy ===== *)
theory Kv_Evidence
  imports Kv_Runtime
begin

text \<open>
  The validator of the four-case KV transfer proof (\<open>infra/inference/kv_transfer/evidence.py\<close>): an
  evidence event, a controlled case and a whole run with its manifest, all given as JSON. A
  \<open>ValueError\<close> carries its reason cut at 180 characters.
\<close>

datatype ev_exn = Ev_Value string | Ev_Overflow | Ev_Type

definition ev_fail :: "string \<Rightarrow> ev_exn + 'a" where
  "ev_fail reason = Inl (Ev_Value (take 180 reason))"

definition CASE_LOCAL_REUSE :: string where "CASE_LOCAL_REUSE = ''same_worker_local_reuse''"
definition CASE_RECOMPUTE :: string where "CASE_RECOMPUTE = ''cross_worker_recompute_transfer_disabled''"
definition CASE_DESTINATION_HIT :: string where "CASE_DESTINATION_HIT = ''independently_warmed_destination_local_hit''"
definition CASE_REAL_TRANSFER :: string where "CASE_REAL_TRANSFER = ''real_mooncake_transfer_consumed''"

definition REQUIRED_CASES :: "string list" where
  "REQUIRED_CASES = [CASE_LOCAL_REUSE, CASE_RECOMPUTE, CASE_DESTINATION_HIT, CASE_REAL_TRANSFER]"

definition CASE_ALIASES :: "(string, string) odict" where
  "CASE_ALIASES = [(CASE_LOCAL_REUSE, CASE_LOCAL_REUSE), (''local_reuse'', CASE_LOCAL_REUSE), (CASE_RECOMPUTE, CASE_RECOMPUTE),
     (''cross_worker_recompute'', CASE_RECOMPUTE), (CASE_DESTINATION_HIT, CASE_DESTINATION_HIT),
     (''independent_destination_hit'', CASE_DESTINATION_HIT), (''destination_local_hit'', CASE_DESTINATION_HIT),
     (CASE_REAL_TRANSFER, CASE_REAL_TRANSFER), (''real_mooncake_transfer'', CASE_REAL_TRANSFER), (''real_transfer'', CASE_REAL_TRANSFER)]"

definition EVENT_FIELDS :: "string list" where
  "EVENT_FIELDS = [''request_id'', ''conversation_id'', ''agent_step'', ''source_worker_or_store'', ''destination_worker'',
     ''compatibility_namespace'', ''hop_decision_reason'', ''hop_result'', ''reusable_tokens'', ''transferred_tokens'', ''transferred_bytes'',
     ''lookup_ms'', ''transfer_ms'', ''confirm_ms'', ''fallback_action'', ''consumed'', ''evidence_scope'']"

definition VERSION_FIELDS :: "string list" where
  "VERSION_FIELDS = [''model_id'', ''model_revision'', ''tokenizer_revision'', ''chat_template_version'', ''prefix_contract_version'',
     ''weight_dtype'', ''kv_dtype'', ''adapter_namespace'', ''cache_namespace'', ''engine_version'', ''block_layout_version'',
     ''prefix_identity_version'']"

definition CORRELATION_FIELDS :: "string list" where
  "CORRELATION_FIELDS = [''request_id'', ''conversation_id'', ''agent_step'', ''prefix_identity'', ''prefix_version'', ''destination_worker'',
     ''compatibility_namespace'']"

lemmas case_names = CASE_LOCAL_REUSE_def CASE_RECOMPUTE_def CASE_DESTINATION_HIT_def CASE_REAL_TRANSFER_def

definition is_text :: "json \<Rightarrow> bool" where
  "is_text v = (case v of JStr s \<Rightarrow> py_strip s \<noteq> [] | _ \<Rightarrow> False)"

definition text_of :: "json \<Rightarrow> string" where
  "text_of v = (case v of JStr s \<Rightarrow> s | _ \<Rightarrow> [])"

definition int_field :: "jdict \<Rightarrow> string \<Rightarrow> int" where
  "int_field e f = (case jget e f of JInt i \<Rightarrow> i | _ \<Rightarrow> 0)"

fun try_all :: "('a \<Rightarrow> 'e + unit) \<Rightarrow> 'a list \<Rightarrow> 'e + unit" where
  "try_all f [] = Inr ()"
| "try_all f (x # xs) = try_bind (f x) (\<lambda>_. try_all f xs)"

subsection \<open>Events\<close>

definition require_nonnegative_number :: "jdict \<Rightarrow> string \<Rightarrow> ev_exn + unit" where
  "require_nonnegative_number e f =
     (let no = ev_fail (''event field '' @ f @ '' must be a non-negative finite number'') in
      case jget e f of
        JInt i \<Rightarrow> if \<bar>i\<bar> \<ge> FLOAT_LIMIT then Inl Ev_Overflow else if i < 0 then no else Inr ()
      | JFloat x _ \<Rightarrow> if x < 0 then no else Inr ()
      | _ \<Rightarrow> no)"

text \<open>\<open>s.rsplit(c, 1)\<close> and \<open>s.split(c, 1)\<close> for a text that contains \<open>c\<close>.\<close>

definition rsplit1 :: "char \<Rightarrow> string \<Rightarrow> string \<times> string" where
  "rsplit1 c s = (rev (tl (dropWhile (\<lambda>x. x \<noteq> c) (rev s))), rev (takeWhile (\<lambda>x. x \<noteq> c) (rev s)))"

definition split1 :: "char \<Rightarrow> string \<Rightarrow> string \<times> string" where
  "split1 c s = (takeWhile (\<lambda>x. x \<noteq> c) s, tl (dropWhile (\<lambda>x. x \<noteq> c) s))"

definition normalize_identity :: "jdict \<Rightarrow> ev_exn + string \<times> string" where
  "normalize_identity e =
     (let identity = jget e ''prefix_identity'';
          version = jget_or e ''prefix_version'' (jget e ''prefix_identity_version'');
          combined = jget e ''prefix_identity/version'';
          no = ev_fail ''missing event fields: prefix_identity, prefix_version'' in
      if is_text identity \<and> is_text version then Inr (text_of identity, text_of version)
      else if is_text combined then
        try_bind (if CHR ''@'' \<in> set (text_of combined) then Inr (rsplit1 CHR ''@'' (text_of combined))
                  else if CHR ''/'' \<in> set (text_of combined) then Inr (rsplit1 CHR ''/'' (text_of combined))
                  else ev_fail ''prefix_identity/version must include both identity and version'') (\<lambda>(i, v).
        if py_strip i \<noteq> [] \<and> py_strip v \<noteq> [] then Inr (i, v) else no)
      else no)"

definition validate_step :: "json \<Rightarrow> ev_exn + unit" where
  "validate_step v = (let no = ev_fail ''event field agent_step must be a non-empty string or non-negative integer'' in
     case v of JInt i \<Rightarrow> if i < 0 then no else Inr () | JStr s \<Rightarrow> if py_strip s = [] then no else Inr () | _ \<Rightarrow> no)"

definition validate_event :: "json \<Rightarrow> ev_exn + jdict" where
  "validate_event raw = (case raw of
     JObj r \<Rightarrow>
       let missing = filter (\<lambda>f. map_of r f = None) EVENT_FIELDS in
       if missing \<noteq> [] then ev_fail (''missing event fields: '' @ py_join '', '' missing)
       else try_bind (normalize_identity r) (\<lambda>(identity, version).
         let e = od_set ''prefix_version'' (JStr version) (od_set ''prefix_identity'' (JStr identity) r) in
         try_bind (try_all (\<lambda>f. if is_text (jget e f) then Inr () else ev_fail (''event field '' @ f @ '' must be a non-empty string''))
           [''request_id'', ''conversation_id'', ''source_worker_or_store'', ''destination_worker'', ''compatibility_namespace'',
            ''hop_decision_reason'', ''hop_result'', ''fallback_action'']) (\<lambda>_.
         try_bind (validate_step (jget e ''agent_step'')) (\<lambda>_.
         try_bind (try_all (\<lambda>f. case jget e f of
             JInt i \<Rightarrow> if i < 0 then ev_fail (''event field '' @ f @ '' must be a non-negative integer'') else Inr ()
           | _ \<Rightarrow> ev_fail (''event field '' @ f @ '' must be a non-negative integer'')) [''reusable_tokens'', ''transferred_tokens'', ''transferred_bytes'']) (\<lambda>_.
         try_bind (try_all (require_nonnegative_number e) [''lookup_ms'', ''transfer_ms'', ''confirm_ms'']) (\<lambda>_.
         case jget e ''consumed'' of
           JBool _ \<Rightarrow>
             if \<not> hashable (jget e ''evidence_scope'') then Inl Ev_Type
             else if jget e ''evidence_scope'' = JStr ''per_request'' \<or> jget e ''evidence_scope'' = JStr ''isolated_window'' then Inr e
             else ev_fail ''event field evidence_scope must be per_request or isolated_window''
         | _ \<Rightarrow> ev_fail ''event field consumed must be boolean'')))))
   | _ \<Rightarrow> ev_fail ''each evidence event must be a mapping'')"

subsection \<open>Cases\<close>

definition case_candidate :: "json \<Rightarrow> ev_exn + json" where
  "case_candidate c = (case c of
     JStr s \<Rightarrow> Inr (JStr s)
   | JObj m \<Rightarrow> Inr (jget_or m ''name'' (jget m ''case''))
   | _ \<Rightarrow> ev_fail ''case must be a name or mapping'')"

definition case_name :: "json \<Rightarrow> ev_exn + string" where
  "case_name c = try_bind (case_candidate c) (\<lambda>v.
     if \<not> is_text v then ev_fail ''unknown controlled evidence case''
     else case map_of CASE_ALIASES (takeWhile (\<lambda>x. x \<noteq> CHR ''@'') (text_of v)) of
         None \<Rightarrow> ev_fail ''unknown controlled evidence case'' | Some n \<Rightarrow> Inr n)"

definition validate_correlations :: "jdict list \<Rightarrow> ev_exn + unit" where
  "validate_correlations es = (case es of
     [] \<Rightarrow> Inr ()
   | e # rest \<Rightarrow> if list_all (\<lambda>x. map (jget x) CORRELATION_FIELDS = map (jget e) CORRELATION_FIELDS) rest then Inr ()
       else ev_fail ''event correlation fields do not match'')"

text \<open>The guards of a case in the order of the code: the first that fails gives the reason.\<close>

fun first_failing :: "(bool \<times> string) list \<Rightarrow> ev_exn + unit" where
  "first_failing [] = Inr ()"
| "first_failing ((ok, reason) # gs) = (if ok then first_failing gs else ev_fail reason)"

definition no_transfer :: "jdict \<Rightarrow> bool" where
  "no_transfer e \<longleftrightarrow> \<not> (int_field e ''transferred_tokens'' \<noteq> 0 \<or> int_field e ''transferred_bytes'' \<noteq> 0)"

definition validate_local_reuse :: "jdict \<Rightarrow> ev_exn + unit" where
  "validate_local_reuse e = first_failing
     [(no_transfer e, ''control case must record zero transferred tokens and bytes''),
      (jget e ''source_worker_or_store'' = jget e ''destination_worker'', ''local reuse source and destination must match''),
      (text_of (jget e ''hop_result'') \<in> set [''local_reuse'', ''already_present'', ''present''], ''local reuse must record a local result''),
      (int_field e ''reusable_tokens'' > 0, ''local reuse requires positive reusable tokens''),
      (jget e ''consumed'' = JBool True, ''local reuse requires destination consumption evidence'')]"

definition validate_recompute :: "jdict \<Rightarrow> ev_exn + unit" where
  "validate_recompute e = first_failing
     [(no_transfer e, ''control case must record zero transferred tokens and bytes''),
      (jget e ''source_worker_or_store'' \<noteq> jget e ''destination_worker'', ''cross-worker recompute source and destination must differ''),
      (jget e ''hop_decision_reason'' = JStr ''transfer_disabled'', ''recompute control must record transfer_disabled''),
      (text_of (jget e ''hop_result'') \<in> set [''recompute'', ''recomputed''], ''recompute control must record a recompute result''),
      (jget e ''fallback_action'' = JStr ''recompute'', ''recompute control must record recompute fallback''),
      (jget e ''consumed'' = JBool False, ''recompute control cannot claim transferred-KV consumption'')]"

definition validate_destination_hit :: "jdict \<Rightarrow> ev_exn + unit" where
  "validate_destination_hit e = first_failing
     [(no_transfer e, ''control case must record zero transferred tokens and bytes''),
      (jget e ''source_worker_or_store'' = jget e ''destination_worker'', ''destination local hit source and destination must match''),
      (text_of (jget e ''hop_decision_reason'') \<in> set [''independently_warmed_destination'', ''independent_destination_hit'', ''destination_local_hit''],
        ''destination local hit must identify independent warming''),
      (text_of (jget e ''hop_result'') \<in> set [''already_present'', ''destination_hit'', ''local_hit'', ''local_reuse''],
        ''destination local hit must record a local-hit result''),
      (int_field e ''reusable_tokens'' > 0, ''destination local hit requires positive reusable tokens''),
      (jget e ''consumed'' = JBool True, ''destination local hit requires destination consumption evidence'')]"

definition validate_real_transfer :: "jdict \<Rightarrow> ev_exn + unit" where
  "validate_real_transfer e = first_failing
     [(jget e ''hop_result'' = JStr ''transferred'', ''real hop requires a transferred result''),
      (jget e ''source_worker_or_store'' \<noteq> jget e ''destination_worker'', ''real hop source and destination must differ''),
      (int_field e ''transferred_tokens'' > 0, ''real hop requires positive transferred tokens''),
      (int_field e ''transferred_bytes'' > 0, ''real hop requires positive transferred bytes''),
      (int_field e ''reusable_tokens'' > 0, ''real hop requires positive reusable tokens''),
      (\<not> int_field e ''transferred_tokens'' > int_field e ''reusable_tokens'', ''transferred tokens cannot exceed reusable tokens''),
      (jget e ''consumed'' = JBool True, ''real hop requires destination consumption evidence'')]"

definition case_validator :: "string \<Rightarrow> jdict \<Rightarrow> ev_exn + unit" where
  "case_validator n = (if n = CASE_LOCAL_REUSE then validate_local_reuse else if n = CASE_RECOMPUTE then validate_recompute
     else if n = CASE_DESTINATION_HIT then validate_destination_hit else validate_real_transfer)"

record case_summary =
  cs_case :: json
  cs_event_count :: nat
  cs_scope :: json

definition validate_case :: "json \<Rightarrow> json \<Rightarrow> ev_exn + case_summary" where
  "validate_case c events = try_bind (case_name c) (\<lambda>name.
     case events of
       JArr (x # xs) \<Rightarrow>
         try_bind (try_map validate_event (x # xs)) (\<lambda>es.
         try_bind (validate_correlations es) (\<lambda>_.
         let scopes = remdups (map (\<lambda>e. jget e ''evidence_scope'') es) in
         if length scopes \<noteq> 1 then ev_fail ''events cannot mix per_request and isolated_window evidence''
         else try_bind (try_all (case_validator name) es) (\<lambda>_.
           Inr \<lparr>cs_case = (case c of JObj m \<Rightarrow> jget_or m ''name'' (jget_or m ''case'' (JStr name)) | _ \<Rightarrow> c),
                cs_event_count = length es, cs_scope = hd scopes\<rparr>)))
     | _ \<Rightarrow> ev_fail ''case evidence must contain at least one event'')"

subsection \<open>Runs\<close>

definition manifest_versions :: "jdict \<Rightarrow> ev_exn + jdict" where
  "manifest_versions m = (case jget m ''versions'' of
     JObj v \<Rightarrow> let missing = filter (\<lambda>f. \<not> is_text (jget v f)) VERSION_FIELDS in
       if missing \<noteq> [] then ev_fail (''manifest versions missing: '' @ py_join '', '' missing) else Inr v
   | _ \<Rightarrow> ev_fail ''manifest versions must be a mapping'')"

definition worker_names :: "json \<Rightarrow> string list" where
  "worker_names w = (if is_text w then [text_of w] else case w of
     JObj m \<Rightarrow> (let i = jget_or m ''id'' (jget m ''name'') in if is_text i then [text_of i] else []) | _ \<Rightarrow> [])"

definition manifest_workers :: "jdict \<Rightarrow> ev_exn + string list" where
  "manifest_workers m = (case jget m ''topology'' of
     JObj t \<Rightarrow> if t = [] then ev_fail ''manifest topology must be a non-empty mapping''
       else (case jget t ''workers'' of
         JArr ws \<Rightarrow> let names = remdups (concat (map worker_names ws)) in
           if length names < 2 then ev_fail ''manifest topology must list at least two workers'' else Inr names
       | _ \<Rightarrow> ev_fail ''manifest topology must list at least two workers'')
   | _ \<Rightarrow> ev_fail ''manifest topology must be a non-empty mapping'')"

definition iter_cases :: "json \<Rightarrow> ev_exn + (jdict \<times> json) list" where
  "iter_cases cases = (case cases of
     JObj kvs \<Rightarrow> Inr (map (\<lambda>(k, v). case v of
         JObj m \<Rightarrow> (setdefault ''name'' (JStr k) m, jget (setdefault ''name'' (JStr k) m) ''events'')
       | _ \<Rightarrow> ([(''name'', JStr k)], v)) kvs)
   | JArr cs \<Rightarrow> try_map (\<lambda>c. case c of JObj m \<Rightarrow> Inr (m, jget m ''events'') | _ \<Rightarrow> ev_fail ''each run case must be a mapping'') cs
   | _ \<Rightarrow> ev_fail ''cases must be a mapping or sequence'')"

definition check_provenance :: "string list \<Rightarrow> json \<Rightarrow> json \<Rightarrow> jdict \<Rightarrow> ev_exn + unit" where
  "check_provenance workers ns version e = first_failing
     [(text_of (jget e ''destination_worker'') \<in> set workers, ''event destination is absent from manifest topology''),
      (jget e ''compatibility_namespace'' = ns, ''event compatibility namespace does not match manifest''),
      (jget e ''prefix_version'' = version, ''event prefix identity version does not match manifest'')]"

text \<open>The loop over the cases: the raw names seen, and the canonical names by size tag with a flag for any tag.\<close>

record run_state =
  rs_seen :: "string list"
  rs_by_size :: "(string, string list) odict"
  rs_tagged :: bool

definition run_case :: "string list \<Rightarrow> json \<Rightarrow> json \<Rightarrow> jdict \<times> json \<Rightarrow> run_state \<Rightarrow> ev_exn + run_state" where
  "run_case workers ns version entry st = (case entry of (c, events) \<Rightarrow>
     let raw = jget c ''name'' in
     if \<not> is_text raw then ev_fail ''case name must be non-empty string''
     else if text_of raw \<in> set (rs_seen st) then ev_fail ''duplicate case in evidence run''
     else
       let tagged = (CHR ''@'' \<in> set (text_of raw));
           (base, size) = (if tagged then split1 CHR ''@'' (text_of raw) else (text_of raw, []))
       in try_bind (case_name (JStr base)) (\<lambda>name.
         let group = (case map_of (rs_by_size st) size of None \<Rightarrow> [] | Some g \<Rightarrow> g) in
         try_bind (validate_case (JObj c) events) (\<lambda>_.
         try_bind (try_map validate_event (case events of JArr xs \<Rightarrow> xs | _ \<Rightarrow> [])) (\<lambda>es.
         try_bind (try_all (check_provenance workers ns version) es) (\<lambda>_.
         Inr \<lparr>rs_seen = rs_seen st @ [text_of raw], rs_by_size = od_set size (List.insert name group) (rs_by_size st),
              rs_tagged = (rs_tagged st \<or> tagged)\<rparr>)))))"

fun run_cases :: "string list \<Rightarrow> json \<Rightarrow> json \<Rightarrow> (jdict \<times> json) list \<Rightarrow> run_state \<Rightarrow> ev_exn + run_state" where
  "run_cases workers ns version [] st = Inr st"
| "run_cases workers ns version (c # cs) st = try_bind (run_case workers ns version c st) (run_cases workers ns version cs)"

definition same_elems :: "string list \<Rightarrow> string list \<Rightarrow> bool" where
  "same_elems xs ys \<longleftrightarrow> list_all (\<lambda>x. x \<in> set ys) xs \<and> list_all (\<lambda>y. y \<in> set xs) ys"

definition check_group :: "string \<times> string list \<Rightarrow> ev_exn + unit" where
  "check_group sg = (if \<not> same_elems (snd sg) REQUIRED_CASES \<or> length (snd sg) \<noteq> length REQUIRED_CASES
     then ev_fail (''run prefix size '' @ fst sg @ '' must contain exactly the four controlled cases'') else Inr ())"

definition validate_run :: "json \<Rightarrow> json \<Rightarrow> ev_exn + nat \<times> string list" where
  "validate_run manifest cases = (case manifest of
     JObj m \<Rightarrow>
       try_bind (manifest_workers m) (\<lambda>workers.
       try_bind (manifest_versions m) (\<lambda>versions.
       if \<not> is_text (jget m ''compatibility_namespace'') then ev_fail ''manifest compatibility namespace must be non-empty''
       else if \<not> is_text (jget m ''control_isolation_statement'') then ev_fail ''manifest control isolation statement must be non-empty''
       else try_bind (iter_cases cases) (\<lambda>entries.
         try_bind (run_cases workers (jget m ''compatibility_namespace'') (jget versions ''prefix_identity_version'') entries
             \<lparr>rs_seen = [], rs_by_size = [], rs_tagged = False\<rparr>) (\<lambda>st.
         if rs_tagged st then
           try_bind (try_all check_group (rs_by_size st)) (\<lambda>_. Inr (length (rs_seen st), rs_seen st))
         else if \<not> same_elems (rs_seen st) REQUIRED_CASES \<or> length (rs_seen st) \<noteq> length REQUIRED_CASES
           then ev_fail ''run must contain exactly the four controlled cases''
         else Inr (length (rs_seen st), rs_seen st)))))
   | _ \<Rightarrow> ev_fail ''manifest must be a mapping'')"

subsection \<open>What an accepted run proves\<close>

definition accepted :: "string list \<Rightarrow> json \<Rightarrow> json \<Rightarrow> jdict \<times> json \<Rightarrow> string \<Rightarrow> bool" where
  "accepted workers ns version entry name \<longleftrightarrow> (\<exists>x xs es. snd entry = JArr (x # xs) \<and> try_map validate_event (x # xs) = Inr es
     \<and> try_all (case_validator name) es = Inr () \<and> try_all (check_provenance workers ns version) es = Inr ())"

lemma try_all_ok: "try_all f xs = Inr u \<longleftrightarrow> (\<forall>x \<in> set xs. f x = Inr ())"
  by (induction xs) auto

lemma first_failing_ok [simp]: "first_failing gs = Inr u \<longleftrightarrow> list_all fst gs"
  by (induction gs rule: first_failing.induct) (auto simp: ev_fail_def)

lemma ev_fail_simps [simp]: "ev_fail m \<noteq> Inr x" "Inr x \<noteq> ev_fail m"
  by (simp_all add: ev_fail_def)

definition canonical :: "string \<Rightarrow> string option" where
  "canonical raw = map_of CASE_ALIASES (takeWhile (\<lambda>x. x \<noteq> CHR ''@'') raw)"

lemma canonical_required: "list_all (\<lambda>n. canonical n = Some n) REQUIRED_CASES"
  by code_simp

lemma case_name_canonical: "is_text (JStr raw) \<Longrightarrow> case_name (JStr raw) = Inr n \<longleftrightarrow> canonical raw = Some n"
  by (auto simp: case_name_def case_candidate_def canonical_def text_of_def split: option.split)

lemma takeWhile_idem: "takeWhile p (takeWhile p xs) = takeWhile p xs"
  by (induction xs) (auto dest: set_takeWhileD)

lemma validate_case_ok:
  assumes "validate_case (JObj c) events = Inr r" "jget c ''name'' = JStr raw" "is_text (JStr raw)" "canonical raw = Some n"
  shows "\<exists>x xs es. events = JArr (x # xs) \<and> try_map validate_event (x # xs) = Inr es \<and> try_all (case_validator n) es = Inr ()"
proof -
  have "jget_or c ''name'' d = JStr raw" for d using assms(2) by (auto simp: jget_def jget_or_def split: option.splits)
  then have "case_name (JObj c) = case_name (JStr raw)" by (simp add: case_name_def case_candidate_def)
  then have "case_name (JObj c) = Inr n" using case_name_canonical assms(3,4) by simp
  then show ?thesis using assms(1) by (auto simp: validate_case_def Let_def split: json.splits list.splits if_splits)
qed

lemma run_case_ok:
  assumes "run_case workers ns version entry st = Inr st'"
  obtains raw n size group where "canonical raw = Some n" "accepted workers ns version entry n" "raw \<notin> set (rs_seen st)"
    "rs_seen st' = rs_seen st @ [raw]" "map_of (rs_by_size st') = (map_of (rs_by_size st))(size \<mapsto> List.insert n group)"
    "group = (case map_of (rs_by_size st) size of None \<Rightarrow> [] | Some g \<Rightarrow> g)" "rs_tagged st' \<longleftrightarrow> rs_tagged st \<or> CHR ''@'' \<in> set raw"
proof -
  obtain c events where e: "entry = (c, events)" by force
  have "is_text (jget c ''name'')" using assms by (auto simp: run_case_def e Let_def split: if_splits)
  then obtain raw where raw: "jget c ''name'' = JStr raw" "is_text (JStr raw)" by (auto simp: is_text_def split: json.splits)
  let ?b = "takeWhile (\<lambda>x. x \<noteq> CHR ''@'') raw"
  have t: "CHR ''@'' \<notin> set raw \<Longrightarrow> ?b = raw" unfolding takeWhile_eq_all_conv by blast
  define size where "size = (if CHR ''@'' \<in> set raw then snd (split1 CHR ''@'' raw) else [])"
  define group where "group = (case map_of (rs_by_size st) size of None \<Rightarrow> [] | Some g \<Rightarrow> g)"
  have b: "(if CHR ''@'' \<in> set raw then split1 CHR ''@'' raw else (raw, [])) = (?b, size)"
  proof (cases "CHR ''@'' \<in> set raw")
    case False
    from t [OF this] show ?thesis by (simp only: False size_def if_False)
  qed (simp add: split1_def size_def)
  obtain n x es where n: "case_name (JStr ?b) = Inr n" "validate_case (JObj c) events = Inr x"
    "try_map validate_event (case events of JArr xs \<Rightarrow> xs | _ \<Rightarrow> []) = Inr es"
    "try_all (check_provenance workers ns version) es = Inr ()" "raw \<notin> set (rs_seen st)"
    "st' = \<lparr>rs_seen = rs_seen st @ [raw], rs_by_size = od_set size (List.insert n group) (rs_by_size st), rs_tagged = (rs_tagged st \<or> CHR ''@'' \<in> set raw)\<rparr>"
    using assms raw b by (auto simp: run_case_def e Let_def text_of_def group_def split: if_splits)
  have c: "canonical raw = Some n"
    using n(1) by (auto simp: case_name_def case_candidate_def canonical_def text_of_def takeWhile_idem split: if_splits option.splits)
  have "accepted workers ns version entry n"
    using validate_case_ok [OF n(2) raw c] n(3,4) by (auto simp: accepted_def e)
  moreover have "map_of (rs_by_size st') = (map_of (rs_by_size st))(size \<mapsto> List.insert n group)" by (auto simp: n(6) fun_eq_iff)
  ultimately show ?thesis using c n(5,6) group_def by (intro that [of raw n size group]) auto
qed

lemma run_cases_ok:
  "run_cases workers ns version entries st = Inr st' \<Longrightarrow>
   (\<forall>size g n. map_of (rs_by_size st') size = Some g \<longrightarrow> n \<in> set g \<longrightarrow>
      (\<exists>g0. map_of (rs_by_size st) size = Some g0 \<and> n \<in> set g0) \<or> (\<exists>e \<in> set entries. accepted workers ns version e n))
   \<and> (\<forall>raw \<in> set (rs_seen st'). raw \<in> set (rs_seen st) \<or> (\<exists>e \<in> set entries. \<exists>n. canonical raw = Some n \<and> accepted workers ns version e n))
   \<and> (rs_tagged st' \<longrightarrow> rs_tagged st \<or> rs_by_size st' \<noteq> []) \<and> (distinct (rs_seen st) \<longrightarrow> distinct (rs_seen st'))
   \<and> (rs_by_size st \<noteq> [] \<longrightarrow> rs_by_size st' \<noteq> [])"
proof (induction entries arbitrary: st)
  case (Cons e entries)
  then obtain s1 where s1: "run_case workers ns version e st = Inr s1" "run_cases workers ns version entries s1 = Inr st'" by auto
  from run_case_ok [OF s1(1)] obtain raw n size group where r: "canonical raw = Some n" "accepted workers ns version e n" "raw \<notin> set (rs_seen st)"
    "rs_seen s1 = rs_seen st @ [raw]" "map_of (rs_by_size s1) = (map_of (rs_by_size st))(size \<mapsto> List.insert n group)"
    "group = (case map_of (rs_by_size st) size of None \<Rightarrow> [] | Some g \<Rightarrow> g)" "rs_tagged s1 \<longleftrightarrow> rs_tagged st \<or> CHR ''@'' \<in> set raw" by metis
  have ne: "rs_by_size s1 \<noteq> []" using r(5) by (metis fun_upd_same map_of.simps(1) option.distinct(1))
  note ih = Cons.IH [OF s1(2)]
  have a: "(\<exists>g0. map_of (rs_by_size st) z = Some g0 \<and> k \<in> set g0) \<or> (\<exists>e \<in> set (e # entries). accepted workers ns version e k)"
    if "map_of (rs_by_size st') z = Some g" "k \<in> set g" for z g k
  proof -
    have "(\<exists>g0. map_of (rs_by_size s1) z = Some g0 \<and> k \<in> set g0) \<or> (\<exists>e \<in> set entries. accepted workers ns version e k)"
      using ih that by blast
    then show ?thesis using r(2,5,6) by (auto split: if_splits option.splits)
  qed
  have b: "raw' \<in> set (rs_seen st) \<or> (\<exists>e \<in> set (e # entries). \<exists>n. canonical raw' = Some n \<and> accepted workers ns version e n)"
    if "raw' \<in> set (rs_seen st')" for raw'
    using ih that r(1,2,4) by auto
  show ?case using a b ih ne r(3,4) by auto
qed simp

text \<open>
  An accepted run proves each of the four controlled cases: whichever way it names and tags
  them, it has for each a non-empty list of valid events that satisfy every condition of that
  case and whose destination, namespace and identity version are those of the manifest.
\<close>

theorem run_proves_every_case:
  assumes "validate_run (JObj m) cases = Inr r" "name \<in> set REQUIRED_CASES"
  shows "\<exists>workers versions entries entry. manifest_workers m = Inr workers \<and> manifest_versions m = Inr versions \<and> iter_cases cases = Inr entries
    \<and> entry \<in> set entries \<and> accepted workers (jget m ''compatibility_namespace'') (jget versions ''prefix_identity_version'') entry name"
proof -
  obtain workers versions entries st where m: "manifest_workers m = Inr workers" "manifest_versions m = Inr versions" "iter_cases cases = Inr entries"
    and st: "run_cases workers (jget m ''compatibility_namespace'') (jget versions ''prefix_identity_version'') entries
        \<lparr>rs_seen = [], rs_by_size = [], rs_tagged = False\<rparr> = Inr st"
    and fin: "if rs_tagged st then \<forall>sg \<in> set (rs_by_size st). check_group sg = Inr () else same_elems (rs_seen st) REQUIRED_CASES"
    using assms(1) by (auto simp: validate_run_def try_all_ok split: if_splits)
  note ok = run_cases_ok [OF st, simplified]
  have "\<exists>e \<in> set entries. accepted workers (jget m ''compatibility_namespace'') (jget versions ''prefix_identity_version'') e name"
  proof (cases "rs_tagged st")
    case True
    with ok obtain size g rest where "rs_by_size st = (size, g) # rest" by (cases "rs_by_size st") auto
    then have "map_of (rs_by_size st) size = Some g" "same_elems g REQUIRED_CASES"
      using fin True by (auto simp: check_group_def split: if_splits)
    then have "name \<in> set g" using assms(2) by (auto simp: same_elems_def list_all_iff)
    with ok \<open>map_of (rs_by_size st) size = Some g\<close> show ?thesis by blast
  next
    case False
    then have "name \<in> set (rs_seen st)" using fin assms(2) by (auto simp: same_elems_def list_all_iff)
    moreover have "canonical name = Some name" using canonical_required assms(2) by (auto simp: list_all_iff)
    moreover have "\<exists>e \<in> set entries. \<exists>n. canonical raw = Some n
        \<and> accepted workers (jget m ''compatibility_namespace'') (jget versions ''prefix_identity_version'') e n" if "raw \<in> set (rs_seen st)" for raw
      using ok that by blast
    ultimately show ?thesis by force
  qed
  with m show ?thesis by blast
qed

subsection \<open>The runtime's events pass the validator\<close>

text \<open>The dictionary an event is emitted as; \<open>repr\<close> prints a float.\<close>

definition opt_field :: "string \<Rightarrow> ('a \<Rightarrow> json) \<Rightarrow> 'a option \<Rightarrow> jdict" where
  "opt_field k g v = (case v of None \<Rightarrow> [] | Some x \<Rightarrow> [(k, g x)])"

definition event_json :: "(pyfloat \<Rightarrow> string) \<Rightarrow> hop_event \<Rightarrow> jdict" where
  "event_json repr e =
     [(''request_id'', e_request_id e), (''conversation_id'', e_conversation_id e), (''agent_step'', e_agent_step e),
      (''prefix_identity'', JStr (e_prefix_identity e)), (''prefix_identity_version'', JStr (e_prefix_version e)),
      (''source_worker_or_store'', e_source e), (''destination_worker'', JStr (e_destination e)),
      (''compatibility_namespace'', JStr (e_namespace e)), (''hop_decision_reason'', e_reason e), (''reusable_tokens'', JInt (e_reusable_tokens e)),
      (''evidence_scope'', JStr ''per_request''), (''event'', JStr (e_event e)), (''hop_result'', JStr (e_hop_result e))]
     @ opt_field ''transferred_tokens'' JInt (e_tokens e) @ opt_field ''transferred_bytes'' JInt (e_bytes e)
     @ opt_field ''lookup_ms'' (\<lambda>x. JFloat x (repr x)) (e_lookup_ms e) @ opt_field ''transfer_ms'' (\<lambda>x. JFloat x (repr x)) (e_transfer_ms e)
     @ opt_field ''confirm_ms'' (\<lambda>x. JFloat x (repr x)) (e_confirm_ms e)
     @ [(''fallback_action'', JStr (e_fallback_action e)), (''confirm_result'', JStr (e_confirm_result e))]
     @ opt_field ''destination_reused_tokens'' JInt (e_reused_tokens e) @ opt_field ''destination_consumed'' JBool (e_consumed e)
     @ opt_field ''consumed'' JBool (e_consumed e) @ opt_field ''error_type'' JStr (e_error_type e)"

definition traceable :: "hop_event \<Rightarrow> bool" where
  "traceable e \<longleftrightarrow> is_text (e_request_id e) \<and> is_text (e_conversation_id e) \<and> (case e_agent_step e of JInt i \<Rightarrow> 0 \<le> i | v \<Rightarrow> is_text v)
     \<and> is_text (e_source e) \<and> is_text (JStr (e_destination e)) \<and> e_source e \<noteq> JStr (e_destination e) \<and> is_text (JStr (e_namespace e)) \<and> is_text (e_reason e)
     \<and> is_text (JStr (e_prefix_identity e)) \<and> is_text (JStr (e_prefix_version e))"

definition timed :: "hop_event \<Rightarrow> bool" where
  "timed e \<longleftrightarrow> (case (e_lookup_ms e, e_transfer_ms e) of (Some x, Some y) \<Rightarrow> 0 \<le> x \<and> 0 \<le> y | _ \<Rightarrow> False)"

text \<open>Sufficient conditions for an event, field by field.\<close>

definition TEXT_FIELDS :: "string list" where
  "TEXT_FIELDS = [''request_id'', ''conversation_id'', ''source_worker_or_store'', ''destination_worker'', ''compatibility_namespace'',
     ''hop_decision_reason'', ''hop_result'', ''fallback_action'']"

lemma validate_event_intro:
  assumes "list_all (\<lambda>f. map_of r f \<noteq> None) EVENT_FIELDS" "is_text (jget r ''prefix_identity'')"
    "is_text (jget_or r ''prefix_version'' (jget r ''prefix_identity_version''))" "list_all (\<lambda>f. is_text (jget r f)) TEXT_FIELDS"
    "validate_step (jget r ''agent_step'') = Inr ()"
    "list_all (\<lambda>f. \<exists>i. jget r f = JInt i \<and> 0 \<le> i) [''reusable_tokens'', ''transferred_tokens'', ''transferred_bytes'']"
    "list_all (\<lambda>f. \<exists>x t. jget r f = JFloat x t \<and> 0 \<le> x) [''lookup_ms'', ''transfer_ms'', ''confirm_ms'']"
    "jget r ''consumed'' = JBool k" "jget r ''evidence_scope'' = JStr ''per_request''"
  shows "\<exists>e. validate_event (JObj r) = Inr e \<and> (\<forall>f. f \<noteq> ''prefix_identity'' \<and> f \<noteq> ''prefix_version'' \<longrightarrow> jget e f = jget r f)"
proof -
  obtain i v where n: "normalize_identity r = Inr (i, v)" using assms(2,3) by (simp add: normalize_identity_def Let_def)
  let ?e = "od_set ''prefix_version'' (JStr v) (od_set ''prefix_identity'' (JStr i) r)"
  have m: "filter (\<lambda>f. map_of r f = None) EVENT_FIELDS = []" using assms(1) by (auto simp: list_all_iff filter_empty_conv)
  have t: "try_all (\<lambda>f. if is_text (jget ?e f) then Inr () else ev_fail (''event field '' @ f @ '' must be a non-empty string'')) TEXT_FIELDS = Inr ()"
    using assms(4) unfolding try_all_ok by (auto simp: TEXT_FIELDS_def)
  have "validate_event (JObj r) = Inr ?e"
    using assms(5-9) t [unfolded TEXT_FIELDS_def] unfolding validate_event_def json.case Let_def m n
    by (auto simp: require_nonnegative_number_def hashable_def)
  then show ?thesis by auto
qed

lemma map_of_opt_field:
  "map_of (opt_field k g v @ ys) k' = (if k' = k then case v of None \<Rightarrow> map_of ys k' | Some x \<Rightarrow> Some (g x) else map_of ys k')"
  "map_of (opt_field k g v) k' = (if k' = k then map_option g v else None)"
  by (cases v; simp add: opt_field_def)+

lemma event_json_get:
  assumes "e_tokens e = Some t" "e_bytes e = Some b" "e_lookup_ms e = Some l" "e_transfer_ms e = Some x" "e_confirm_ms e = Some c"
    "e_consumed e = Some k"
  shows "list_all (\<lambda>f. map_of (event_json repr e) f \<noteq> None) EVENT_FIELDS"
    and "jget (event_json repr e) ''request_id'' = e_request_id e" "jget (event_json repr e) ''conversation_id'' = e_conversation_id e"
    "jget (event_json repr e) ''agent_step'' = e_agent_step e" "jget (event_json repr e) ''prefix_identity'' = JStr (e_prefix_identity e)"
    "jget_or (event_json repr e) ''prefix_version'' d = d" "jget (event_json repr e) ''prefix_identity_version'' = JStr (e_prefix_version e)"
    "jget (event_json repr e) ''source_worker_or_store'' = e_source e" "jget (event_json repr e) ''destination_worker'' = JStr (e_destination e)"
    "jget (event_json repr e) ''compatibility_namespace'' = JStr (e_namespace e)" "jget (event_json repr e) ''hop_decision_reason'' = e_reason e"
    "jget (event_json repr e) ''reusable_tokens'' = JInt (e_reusable_tokens e)" "jget (event_json repr e) ''evidence_scope'' = JStr ''per_request''"
    "jget (event_json repr e) ''hop_result'' = JStr (e_hop_result e)" "jget (event_json repr e) ''transferred_tokens'' = JInt t"
    "jget (event_json repr e) ''transferred_bytes'' = JInt b" "jget (event_json repr e) ''lookup_ms'' = JFloat l (repr l)"
    "jget (event_json repr e) ''transfer_ms'' = JFloat x (repr x)" "jget (event_json repr e) ''confirm_ms'' = JFloat c (repr c)"
    "jget (event_json repr e) ''fallback_action'' = JStr (e_fallback_action e)" "jget (event_json repr e) ''consumed'' = JBool k"
  unfolding event_json_def jget_def jget_or_def EVENT_FIELDS_def assms
  by (simp_all add: map_of_opt_field del: map_of_append)

text \<open>
  What the runtime emits for a load that a forward pass confirmed is what the validator accepts
  as a real transfer: the event of a pending retrieval that names its request, worker and source
  passes \<open>_validate_event\<close> and \<open>_validate_real_transfer\<close>, when it loaded no more tokens than the
  lookup found and the clock did not go back.
\<close>

theorem confirmed_load_validates:
  assumes "loaded (fst p)" "traceable (fst p)" "timed (fst p)" "py_strip (e_fallback_action (fst p)) \<noteq> []"
    "the (e_tokens (fst p)) \<le> e_reusable_tokens (fst p)" "snd p \<le> now"
  shows "\<exists>e. validate_event (JObj (event_json repr (confirmed_event now p))) = Inr e \<and> validate_real_transfer e = Inr ()
    \<and> int_field e ''transferred_tokens'' = the (e_tokens (fst p)) \<and> int_field e ''transferred_bytes'' = the (e_bytes (fst p))"
proof -
  let ?e = "confirmed_event now p"
  let ?r = "event_json repr ?e"
  obtain t b l x where f: "e_tokens (fst p) = Some t" "e_bytes (fst p) = Some b" "e_lookup_ms (fst p) = Some l" "e_transfer_ms (fst p) = Some x"
    and pos: "0 < t" "0 < b" "0 \<le> l" "0 \<le> x" "e_hop_result (fst p) = ''transferred''"
    using assms(1,3) by (auto simp: loaded_def timed_def split: option.splits)
  have e: "e_tokens ?e = Some t" "e_bytes ?e = Some b" "e_lookup_ms ?e = Some l" "e_transfer_ms ?e = Some x"
    "e_confirm_ms ?e = Some ((now - snd p) * 1000)" "e_consumed ?e = Some True" by (simp_all add: confirmed_event_def f)
  note g = event_json_get [OF e, of repr]
  have same: "e_request_id ?e = e_request_id (fst p)" "e_conversation_id ?e = e_conversation_id (fst p)" "e_agent_step ?e = e_agent_step (fst p)"
    "e_prefix_identity ?e = e_prefix_identity (fst p)" "e_prefix_version ?e = e_prefix_version (fst p)" "e_source ?e = e_source (fst p)"
    "e_destination ?e = e_destination (fst p)" "e_namespace ?e = e_namespace (fst p)" "e_reason ?e = e_reason (fst p)"
    "e_reusable_tokens ?e = e_reusable_tokens (fst p)" "e_hop_result ?e = e_hop_result (fst p)" "e_fallback_action ?e = e_fallback_action (fst p)"
    by (simp_all add: confirmed_event_def)
  have step: "validate_step (e_agent_step (fst p)) = Inr ()"
    using assms(2) by (auto simp: traceable_def validate_step_def is_text_def Let_def split: json.splits)
  have "\<exists>v. validate_event (JObj ?r) = Inr v \<and> (\<forall>f. f \<noteq> ''prefix_identity'' \<and> f \<noteq> ''prefix_version'' \<longrightarrow> jget v f = jget ?r f)"
  proof (rule validate_event_intro [OF g(1)])
    show "list_all (\<lambda>f. is_text (jget ?r f)) TEXT_FIELDS"
      using assms(2,4) pos(5) unfolding TEXT_FIELDS_def by (simp add: g same traceable_def) (simp add: is_text_def py_strip_def py_isspace_def)
    show "list_all (\<lambda>f. \<exists>x t. jget ?r f = JFloat x t \<and> 0 \<le> x) [''lookup_ms'', ''transfer_ms'', ''confirm_ms'']"
      using pos assms(6) by (simp add: g)
  qed (use assms(2,5) pos step f in \<open>simp_all add: g same traceable_def\<close>)
  then obtain v where v: "validate_event (JObj ?r) = Inr v" "\<And>f. f \<noteq> ''prefix_identity'' \<Longrightarrow> f \<noteq> ''prefix_version'' \<Longrightarrow> jget v f = jget ?r f" by blast
  have "validate_real_transfer v = Inr ()" "int_field v ''transferred_tokens'' = t" "int_field v ''transferred_bytes'' = b"
    using assms(2,5) pos f by (simp_all add: validate_real_transfer_def int_field_def v(2) g same traceable_def)
  with v(1) f show ?thesis by auto
qed

subsection \<open>Witnesses and a gap\<close>

definition demo_evidence :: "string \<Rightarrow> string \<Rightarrow> string \<Rightarrow> int \<Rightarrow> int \<Rightarrow> string \<Rightarrow> bool \<Rightarrow> json" where
  "demo_evidence src reason result reusable moved fallback consumed = JObj
     [(''request_id'', JStr ''r''), (''conversation_id'', JStr ''c''), (''agent_step'', JInt 0), (''prefix_identity'', JStr ''p''),
      (''prefix_identity_version'', JStr ''v''), (''source_worker_or_store'', JStr src), (''destination_worker'', JStr ''w1''),
      (''compatibility_namespace'', JStr ''n''), (''hop_decision_reason'', JStr reason), (''hop_result'', JStr result),
      (''reusable_tokens'', JInt reusable), (''transferred_tokens'', JInt moved), (''transferred_bytes'', JInt moved),
      (''lookup_ms'', JInt 1), (''transfer_ms'', JInt 1), (''confirm_ms'', JInt 1), (''fallback_action'', JStr fallback),
      (''consumed'', JBool consumed), (''evidence_scope'', JStr ''per_request'')]"

definition demo_manifest :: jdict where
  "demo_manifest = [(''topology'', JObj [(''workers'', JArr [JStr ''w1'', JStr ''w2''])]),
     (''versions'', JObj (map (\<lambda>f. (f, JStr ''v'')) VERSION_FIELDS)), (''compatibility_namespace'', JStr ''n''),
     (''control_isolation_statement'', JStr ''isolated'')]"

definition demo_case :: "string \<Rightarrow> json \<Rightarrow> json" where
  "demo_case name ev = JObj [(''name'', JStr name), (''events'', JArr [ev])]"

definition demo_cases :: "string \<Rightarrow> json list" where
  "demo_cases tag =
     [demo_case (CASE_LOCAL_REUSE @ tag) (demo_evidence ''w1'' ''local'' ''local_reuse'' 5 0 ''none'' True),
      demo_case (CASE_RECOMPUTE @ tag) (demo_evidence ''w2'' ''transfer_disabled'' ''recomputed'' 5 0 ''recompute'' False),
      demo_case (CASE_DESTINATION_HIT @ tag) (demo_evidence ''w1'' ''destination_local_hit'' ''local_hit'' 5 0 ''none'' True),
      demo_case (CASE_REAL_TRANSFER @ tag) (demo_evidence ''w2'' ''remote_prefix_candidate'' ''transferred'' 5 4 ''none'' True)]"

theorem run_proves_every_case_witness:
  "\<exists>workers versions entries entry. iter_cases (JArr (demo_cases [])) = Inr entries \<and> entry \<in> set entries
    \<and> accepted workers (JStr ''n'') (jget versions ''prefix_identity_version'') entry CASE_REAL_TRANSFER"
proof -
  have "isl (validate_run (JObj demo_manifest) (JArr (demo_cases []))) = False" by code_simp
  then obtain r where "validate_run (JObj demo_manifest) (JArr (demo_cases [])) = Inr r"
    by (cases "validate_run (JObj demo_manifest) (JArr (demo_cases []))") auto
  moreover have "jget demo_manifest ''compatibility_namespace'' = JStr ''n''" by (simp add: demo_manifest_def jget_def)
  ultimately show ?thesis
    using run_proves_every_case [of demo_manifest "JArr (demo_cases [])" r CASE_REAL_TRANSFER] by (simp add: REQUIRED_CASES_def) blast
qed

text \<open>
  With size tags a case may be given twice, under its name and under an alias: the run is accepted
  with five cases although each controlled case should occur once.
\<close>

theorem tagged_alias_counted_twice:
  "map_sum id fst (validate_run (JObj demo_manifest)
     (JArr (demo_case ''local_reuse@1k'' (demo_evidence ''w1'' ''local'' ''local_reuse'' 5 0 ''none'' True) # demo_cases ''@1k''))) = Inr 5"
  by code_simp

definition demo_pending :: "hop_event \<times> pyfloat" where
  "demo_pending = (\<lparr>e_request_id = JStr ''r'', e_conversation_id = JStr ''c'', e_agent_step = JInt 0, e_prefix_identity = ''p'', e_prefix_version = ''v'',
     e_source = JStr ''mooncake_store'', e_destination = ''w1'', e_namespace = ''n'', e_reason = JStr ''remote_prefix_candidate'', e_reusable_tokens = 5,
     e_event = ''kv_hop_available'', e_hop_result = ''transferred'', e_confirm_result = ''available'', e_fallback_action = ''none'',
     e_tokens = Some 4, e_bytes = Some 100, e_lookup_ms = Some 1, e_transfer_ms = Some 2, e_confirm_ms = Some 1, e_reused_tokens = Some 0,
     e_consumed = Some False, e_error_type = None\<rparr>, 3)"

theorem confirmed_load_validates_witness:
  "\<exists>e. validate_event (JObj (event_json (\<lambda>_. ''1.0'') (confirmed_event 4 demo_pending))) = Inr e \<and> validate_real_transfer e = Inr ()"
proof -
  have "loaded (fst demo_pending)" "traceable (fst demo_pending)" "timed (fst demo_pending)" "py_strip (e_fallback_action (fst demo_pending)) \<noteq> []"
    "the (e_tokens (fst demo_pending)) \<le> e_reusable_tokens (fst demo_pending)" "snd demo_pending \<le> 4"
    by code_simp+
  from confirmed_load_validates [OF this, of "\<lambda>_. ''1.0''"] show ?thesis by blast
qed

end
