(* ===== verification/App_State.thy ===== *)
theory App_State
  imports Prelude
begin

text \<open>
  The durable state of the application: the entities (\<open>services/app/app/state/models.py\<close>), the
  repository interface and its in-memory reference implementation (\<open>state/repository.py\<close>).

  A value of a free-form dictionary (\<open>metadata\<close>, \<open>params\<close>, \<open>result\<close>) is a \<open>pyval\<close>; \<open>PDec\<close> is a
  \<open>decimal.Decimal\<close>, which is how DynamoDB returns every number. An error keeps its
  class and the identifier it names; the rest of its message is left out.
\<close>

datatype pyval =
    PNone
  | PBool bool
  | PInt int
  | PFloat pyfloat
  | PDec pyfloat
  | PStr string
  | PList "pyval list"
  | PDict "(string \<times> pyval) list"

type_synonym pydict = "(string \<times> pyval) list"

datatype state_exn =
    EntityNotFound string | DuplicateEntity string | ConcurrencyError string | StateError string | Item_KeyError string

section \<open>Entities\<close>

record conversation =
  cv_id :: string
  cv_created_at :: string
  cv_updated_at :: string
  cv_title :: "string option"
  cv_metadata :: pydict

record message =
  ms_id :: string
  ms_conversation_id :: string
  ms_sequence :: int
  ms_role :: string
  ms_content :: string
  ms_created_at :: string
  ms_metadata :: pydict

record run =
  rn_id :: string
  rn_conversation_id :: string
  rn_message_id :: "string option"
  rn_status :: string
  rn_model :: "string option"
  rn_prompt_version :: "string option"
  rn_started_at :: string
  rn_completed_at :: "string option"
  rn_input_tokens :: int
  rn_output_tokens :: int
  rn_estimated_cost_usd :: pyfloat
  rn_failure_code :: "string option"
  rn_metadata :: pydict

record run_step =
  st_id :: string
  st_run_id :: string
  st_sequence :: int
  st_step_type :: string
  st_status :: string
  st_tool_name :: "string option"
  st_llm_call_id :: "string option"
  st_tool_call_id :: "string option"
  st_query_id :: "string option"
  st_input_summary :: "string option"
  st_output_summary :: "string option"
  st_started_at :: string
  st_completed_at :: "string option"
  st_duration_ms :: "int option"
  st_metadata :: pydict

record job =
  jb_id :: string
  jb_job_type :: string
  jb_status :: string
  jb_created_at :: string
  jb_started_at :: "string option"
  jb_completed_at :: "string option"
  jb_params :: pydict
  jb_result :: "pydict option"
  jb_artifact_url :: "string option"
  jb_error :: "string option"
  jb_metadata :: pydict

section \<open>The in-memory repository\<close>

record mem_repo =
  m_conversations :: "(string, conversation) odict"
  m_messages :: "(string, message list) odict"
  m_runs :: "(string, run) odict"
  m_run_steps :: "(string, run_step list) odict"
  m_jobs :: "(string, job) odict"

definition mem_empty :: mem_repo where
  "mem_empty = \<lparr>m_conversations = [], m_messages = [], m_runs = [], m_run_steps = [], m_jobs = []\<rparr>"

definition od_get_list :: "('k, 'v list) odict \<Rightarrow> 'k \<Rightarrow> 'v list" where
  "od_get_list d k = (case map_of d k of None \<Rightarrow> [] | Some xs \<Rightarrow> xs)"

definition mem_create_conversation :: "conversation \<Rightarrow> mem_repo \<Rightarrow> (state_exn + conversation) \<times> mem_repo" where
  "mem_create_conversation c m =
     (if map_of (m_conversations m) (cv_id c) \<noteq> None then (Inl (DuplicateEntity (cv_id c)), m)
      else (Inr c, m\<lparr>m_conversations := od_set (cv_id c) c (m_conversations m)\<rparr>))"

definition mem_get_conversation :: "string \<Rightarrow> mem_repo \<Rightarrow> conversation option" where
  "mem_get_conversation cid m = map_of (m_conversations m) cid"

text \<open>\<open>setdefault\<close> has already created the list when the duplicate test raises.\<close>

definition mem_add_message :: "message \<Rightarrow> mem_repo \<Rightarrow> (state_exn + message) \<times> mem_repo" where
  "mem_add_message x m =
     (if map_of (m_conversations m) (ms_conversation_id x) = None then (Inl (EntityNotFound (ms_conversation_id x)), m)
      else let cid = ms_conversation_id x; messages = od_get_list (m_messages m) cid in
        if ms_id x \<in> ms_id ` set messages
        then (Inl (DuplicateEntity (ms_id x)), m\<lparr>m_messages := od_set cid messages (m_messages m)\<rparr>)
        else (Inr x, m\<lparr>m_messages := od_set cid (sort_key ms_sequence (messages @ [x])) (m_messages m)\<rparr>))"

definition take_limit :: "int option \<Rightarrow> 'a list \<Rightarrow> 'a list" where
  "take_limit limit xs = (case limit of None \<Rightarrow> xs | Some n \<Rightarrow> if n > 0 then take (nat n) xs else xs)"

definition mem_list_messages :: "string \<Rightarrow> int option \<Rightarrow> mem_repo \<Rightarrow> message list" where
  "mem_list_messages cid limit m = take_limit limit (sort_key ms_sequence (od_get_list (m_messages m) cid))"

definition mem_create_run :: "run \<Rightarrow> mem_repo \<Rightarrow> (state_exn + run) \<times> mem_repo" where
  "mem_create_run r m =
     (if map_of (m_conversations m) (rn_conversation_id r) = None then (Inl (EntityNotFound (rn_conversation_id r)), m)
      else if map_of (m_runs m) (rn_id r) \<noteq> None then (Inl (DuplicateEntity (rn_id r)), m)
      else (Inr r, m\<lparr>m_runs := od_set (rn_id r) r (m_runs m)\<rparr>))"

definition mem_get_run :: "string \<Rightarrow> mem_repo \<Rightarrow> run option" where
  "mem_get_run rid m = map_of (m_runs m) rid"

definition mem_update_run :: "run \<Rightarrow> mem_repo \<Rightarrow> (state_exn + run) \<times> mem_repo" where
  "mem_update_run r m =
     (if map_of (m_runs m) (rn_id r) = None then (Inl (EntityNotFound (rn_id r)), m)
      else (Inr r, m\<lparr>m_runs := od_set (rn_id r) r (m_runs m)\<rparr>))"

definition mem_list_runs :: "string \<Rightarrow> mem_repo \<Rightarrow> run list" where
  "mem_list_runs cid m = sort_key (\<lambda>r. (rn_started_at r, rn_id r))
     (filter (\<lambda>r. rn_conversation_id r = cid) (map snd (m_runs m)))"

definition mem_add_run_step :: "run_step \<Rightarrow> mem_repo \<Rightarrow> (state_exn + run_step) \<times> mem_repo" where
  "mem_add_run_step x m =
     (if map_of (m_runs m) (st_run_id x) = None then (Inl (EntityNotFound (st_run_id x)), m)
      else let rid = st_run_id x; steps = od_get_list (m_run_steps m) rid in
        if st_id x \<in> st_id ` set steps
        then (Inl (DuplicateEntity (st_id x)), m\<lparr>m_run_steps := od_set rid steps (m_run_steps m)\<rparr>)
        else (Inr x, m\<lparr>m_run_steps := od_set rid (sort_key st_sequence (steps @ [x])) (m_run_steps m)\<rparr>))"

definition mem_list_run_steps :: "string \<Rightarrow> mem_repo \<Rightarrow> run_step list" where
  "mem_list_run_steps rid m = sort_key st_sequence (od_get_list (m_run_steps m) rid)"

definition mem_create_job :: "job \<Rightarrow> mem_repo \<Rightarrow> (state_exn + job) \<times> mem_repo" where
  "mem_create_job j m =
     (if map_of (m_jobs m) (jb_id j) \<noteq> None then (Inl (DuplicateEntity (jb_id j)), m)
      else (Inr j, m\<lparr>m_jobs := od_set (jb_id j) j (m_jobs m)\<rparr>))"

definition mem_get_job :: "string \<Rightarrow> mem_repo \<Rightarrow> job option" where
  "mem_get_job jid m = map_of (m_jobs m) jid"

definition mem_update_job :: "job \<Rightarrow> mem_repo \<Rightarrow> (state_exn + job) \<times> mem_repo" where
  "mem_update_job j m =
     (if map_of (m_jobs m) (jb_id j) = None then (Inl (EntityNotFound (jb_id j)), m)
      else (Inr j, m\<lparr>m_jobs := od_set (jb_id j) j (m_jobs m)\<rparr>))"

definition mem_list_jobs :: "int option \<Rightarrow> mem_repo \<Rightarrow> job list" where
  "mem_list_jobs limit m = take_limit limit (map snd (m_jobs m))"

lemmas mem_defs [app_defs] =
  mem_create_conversation_def mem_get_conversation_def mem_add_message_def mem_list_messages_def
  mem_create_run_def mem_get_run_def mem_update_run_def mem_list_runs_def mem_add_run_step_def
  mem_list_run_steps_def mem_create_job_def mem_get_job_def mem_update_job_def

section \<open>The interface\<close>

text \<open>
  The operations of \<open>StateRepository\<close> as one signature, and what a reply can be. \<open>list_jobs\<close> is
  left out: the durable implementation does not provide it.
\<close>

datatype repo_op =
    Create_conversation conversation | Get_conversation string
  | Add_message message | List_messages string "int option"
  | Create_run run | Get_run string | Update_run run | List_runs string
  | Add_run_step run_step | List_run_steps string
  | Create_job job | Get_job string | Update_job job

datatype reply =
    R_conversation "conversation option" | R_message message | R_messages "message list"
  | R_run "run option" | R_runs "run list" | R_step run_step | R_steps "run_step list" | R_job "job option"

definition map_reply :: "('a \<Rightarrow> reply) \<Rightarrow> (state_exn + 'a) \<times> 's \<Rightarrow> (state_exn + reply) \<times> 's" where
  "map_reply f p = (case fst p of Inl e \<Rightarrow> Inl e | Inr x \<Rightarrow> Inr (f x), snd p)"

fun mem_op :: "repo_op \<Rightarrow> mem_repo \<Rightarrow> (state_exn + reply) \<times> mem_repo" where
  "mem_op (Create_conversation c) m = map_reply (\<lambda>c. R_conversation (Some c)) (mem_create_conversation c m)"
| "mem_op (Get_conversation cid) m = (Inr (R_conversation (mem_get_conversation cid m)), m)"
| "mem_op (Add_message x) m = map_reply R_message (mem_add_message x m)"
| "mem_op (List_messages cid n) m = (Inr (R_messages (mem_list_messages cid n m)), m)"
| "mem_op (Create_run r) m = map_reply (\<lambda>r. R_run (Some r)) (mem_create_run r m)"
| "mem_op (Get_run rid) m = (Inr (R_run (mem_get_run rid m)), m)"
| "mem_op (Update_run r) m = map_reply (\<lambda>r. R_run (Some r)) (mem_update_run r m)"
| "mem_op (List_runs cid) m = (Inr (R_runs (mem_list_runs cid m)), m)"
| "mem_op (Add_run_step x) m = map_reply R_step (mem_add_run_step x m)"
| "mem_op (List_run_steps rid) m = (Inr (R_steps (mem_list_run_steps rid m)), m)"
| "mem_op (Create_job j) m = map_reply (\<lambda>j. R_job (Some j)) (mem_create_job j m)"
| "mem_op (Get_job jid) m = (Inr (R_job (mem_get_job jid m)), m)"
| "mem_op (Update_job j) m = map_reply (\<lambda>j. R_job (Some j)) (mem_update_job j m)"

text \<open>
  The contract of a repository: an operation is a step of the state, an entity that was created is
  read back, and the lists are in the documented order.
\<close>

primrec repo_run :: "(repo_op \<Rightarrow> 's \<Rightarrow> (state_exn + reply) \<times> 's) \<Rightarrow> repo_op list \<Rightarrow> 's \<Rightarrow> (state_exn + reply) list \<times> 's" where
  "repo_run step [] s = ([], s)"
| "repo_run step (p # ps) s = (let (r, s1) = step p s; (rs, s2) = repo_run step ps s1 in (r # rs, s2))"

primrec repo_ok :: "(repo_op \<Rightarrow> 's \<Rightarrow> (state_exn + reply) \<times> 's) \<Rightarrow> (repo_op \<Rightarrow> 's \<Rightarrow> bool) \<Rightarrow> repo_op list \<Rightarrow> 's \<Rightarrow> bool" where
  "repo_ok step ok [] s = True"
| "repo_ok step ok (p # ps) s = (ok p s \<and> repo_ok step ok ps (snd (step p s)))"

locale state_repository =
  fixes step :: "repo_op \<Rightarrow> 's \<Rightarrow> (state_exn + reply) \<times> 's" and valid :: "'s \<Rightarrow> bool" and ok :: "repo_op \<Rightarrow> 's \<Rightarrow> bool"
  assumes valid_step: "valid s \<Longrightarrow> ok p s \<Longrightarrow> valid (snd (step p s))"
    and get_created: "valid s \<Longrightarrow> ok (Create_run r) s \<Longrightarrow> step (Create_run r) s = (Inr x, s') \<Longrightarrow>
      fst (step (Get_run (rn_id r)) s') = Inr (R_run (Some r))"
    and create_existing: "valid s \<Longrightarrow> ok (Create_run r) s \<Longrightarrow> fst (step (Get_run (rn_id r)) s) = Inr (R_run (Some r')) \<Longrightarrow>
      fst (step (Create_run r) s) \<in> {Inl (DuplicateEntity (rn_id r)), Inl (EntityNotFound (rn_conversation_id r))}"
    and messages_ordered: "valid s \<Longrightarrow> fst (step (List_messages cid None) s) = Inr (R_messages ms) \<Longrightarrow> sorted (map ms_sequence ms)"
begin

lemma valid_run: "valid s \<Longrightarrow> repo_ok step ok ps s \<Longrightarrow> valid (snd (repo_run step ps s))"
  by (induction ps arbitrary: s) (auto simp: Let_def case_prod_unfold valid_step)

text \<open>A run is created at most once, whatever happens between the two attempts that keeps it.\<close>

lemma create_once:
  assumes "valid s" "ok (Create_run r) s" "step (Create_run r) s = (Inr x, s')" "ok (Create_run r) s'"
  shows "fst (step (Create_run r) s') \<in> {Inl (DuplicateEntity (rn_id r)), Inl (EntityNotFound (rn_conversation_id r))}"
  using create_existing [OF _ assms(4) get_created [OF assms(1-3)]] valid_step [OF assms(1,2)] assms(3) by simp

end

section \<open>The client's discipline and the invariant\<close>

text \<open>
  What the callers guarantee: sequence numbers of six digits, one per message or step of its
  container; an update of a run keeps its conversation and start time; a start time is an ISO
  timestamp, whose characters all come after \<open>#\<close>.
\<close>

definition seq_ok :: "int \<Rightarrow> bool" where
  "seq_ok n \<longleftrightarrow> 0 \<le> n \<and> n \<le> 999999"

definition stamp_ok :: "string \<Rightarrow> bool" where
  "stamp_ok s \<longleftrightarrow> list_all (\<lambda>c. CHR ''#'' < c) s"

fun client_ok :: "repo_op \<Rightarrow> mem_repo \<Rightarrow> bool" where
  "client_ok (Add_message x) m = (seq_ok (ms_sequence x) \<and>
     list_all (\<lambda>y. (ms_id y = ms_id x) = (ms_sequence y = ms_sequence x)) (od_get_list (m_messages m) (ms_conversation_id x)))"
| "client_ok (Add_run_step x) m = (seq_ok (st_sequence x) \<and>
     list_all (\<lambda>y. (st_id y = st_id x) = (st_sequence y = st_sequence x)) (od_get_list (m_run_steps m) (st_run_id x)))"
| "client_ok (Create_run r) m = stamp_ok (rn_started_at r)"
| "client_ok (Update_run r) m = (case map_of (m_runs m) (rn_id r) of None \<Rightarrow> True
     | Some r0 \<Rightarrow> rn_conversation_id r = rn_conversation_id r0 \<and> rn_started_at r = rn_started_at r0)"
| "client_ok _ m = True"

definition id_keyed :: "('v \<Rightarrow> 'k) \<Rightarrow> ('k, 'v) odict \<Rightarrow> bool" where
  "id_keyed f d \<longleftrightarrow> distinct (od_keys d) \<and> (\<forall>(k, v) \<in> set d. k = f v)"

definition grouped :: "('v \<Rightarrow> 'k) \<Rightarrow> ('v \<Rightarrow> int) \<Rightarrow> ('v \<Rightarrow> 'i) \<Rightarrow> ('k, 'v list) odict \<Rightarrow> bool" where
  "grouped f sq ident d \<longleftrightarrow> distinct (od_keys d) \<and>
     (\<forall>(k, vs) \<in> set d. (\<forall>v \<in> set vs. k = f v \<and> seq_ok (sq v)) \<and> sorted (map sq vs) \<and> distinct (map sq vs) \<and> distinct (map ident vs))"

definition mem_inv :: "mem_repo \<Rightarrow> bool" where
  "mem_inv m \<longleftrightarrow> id_keyed cv_id (m_conversations m) \<and> id_keyed rn_id (m_runs m) \<and> id_keyed jb_id (m_jobs m) \<and>
     grouped ms_conversation_id ms_sequence ms_id (m_messages m) \<and>
     grouped st_run_id st_sequence st_id (m_run_steps m) \<and>
     (\<forall>r \<in> snd ` set (m_runs m). stamp_ok (rn_started_at r))"

lemma id_keyed_empty [simp]: "id_keyed f []" by (simp add: id_keyed_def)

lemma id_keyed_set: "id_keyed f d \<Longrightarrow> id_keyed f (od_set (f v) v d)"
  by (auto simp: id_keyed_def dest: od_set_mem)

lemma id_keyed_get: "id_keyed f d \<Longrightarrow> map_of d k = Some v \<longleftrightarrow> (k, v) \<in> set d"
  by (auto simp: id_keyed_def dest: map_of_SomeD)

lemma id_keyed_id: "id_keyed f d \<Longrightarrow> map_of d k = Some v \<Longrightarrow> f v = k"
  by (auto simp: id_keyed_def dest: map_of_SomeD)

lemma id_keyed_values: "id_keyed f d \<Longrightarrow> v \<in> snd ` set d \<longleftrightarrow> map_of d (f v) = Some v"
  by (force simp: id_keyed_def dest: map_of_SomeD)

lemma id_keyed_set_values:
  assumes "id_keyed f d"
  shows "snd ` set (od_set (f v) v d) = insert v {w \<in> snd ` set d. f w \<noteq> f v}"
proof -
  have "w \<in> snd ` set (od_set (f v) v d) \<longleftrightarrow> w = v \<or> w \<in> snd ` set d \<and> f w \<noteq> f v" for w
    using id_keyed_values [OF id_keyed_set [OF assms, of v], of w] id_keyed_values [OF assms, of w] by auto
  then show ?thesis by blast
qed

lemma grouped_empty [simp]: "grouped f sq ident []" by (simp add: grouped_def)

lemma grouped_get:
  assumes "grouped f sq ident d"
  shows "sorted (map sq (od_get_list d k))" "distinct (map sq (od_get_list d k))" "distinct (map ident (od_get_list d k))"
    "\<forall>v \<in> set (od_get_list d k). f v = k \<and> seq_ok (sq v)"
  using assms by (auto simp: grouped_def od_get_list_def split: option.splits dest!: map_of_SomeD)

lemma od_get_list_set [simp]: "od_get_list (od_set k vs d) k' = (if k' = k then vs else od_get_list d k')"
  by (simp add: od_get_list_def)

lemma grouped_set:
  assumes "grouped f sq ident d"
    and "sorted (map sq vs)" "distinct (map sq vs)" "distinct (map ident vs)" "\<forall>v \<in> set vs. f v = k \<and> seq_ok (sq v)"
  shows "grouped f sq ident (od_set k vs d)"
  using assms by (auto simp: grouped_def dest!: od_set_mem)

lemma grouped_insert:
  assumes g: "grouped f sq ident d" and v: "f v = k" "seq_ok (sq v)"
    and new: "ident v \<notin> ident ` set (od_get_list d k)" "sq v \<notin> sq ` set (od_get_list d k)"
  shows "grouped f sq ident (od_set k (sort_key sq (od_get_list d k @ [v])) d)"
proof (rule grouped_set [OF g])
  let ?vs = "sort_key sq (od_get_list d k @ [v])"
  show "sorted (map sq ?vs)" by simp
  show "distinct (map sq ?vs)"
    using grouped_get(2) [OF g, of k] new(2) mset_eq_imp_distinct_iff [of "map sq ?vs" "map sq (od_get_list d k @ [v])"] by simp
  show "distinct (map ident ?vs)" using grouped_get(3) [OF g, of k] new(1) mset_eq_imp_distinct_iff [of "map ident ?vs" "map ident (od_get_list d k @ [v])"] by simp
  show "\<forall>w \<in> set ?vs. f w = k \<and> seq_ok (sq w)" using grouped_get(4) [OF g, of k] v by simp
qed

lemma list_all_fresh:
  assumes "list_all (\<lambda>y. (h y = h x) = (sq y = sq x)) ys"
  shows "h x \<in> h ` set ys \<longleftrightarrow> sq x \<in> sq ` set ys"
  using assms unfolding list_all_iff image_iff by metis

lemma mem_inv_add_message:
  assumes "mem_inv m" "client_ok (Add_message x) m"
  shows "mem_inv (snd (mem_add_message x m))"
proof -
  have g: "grouped ms_conversation_id ms_sequence ms_id (m_messages m)" using assms(1) by (simp add: mem_inv_def)
  have "ms_id x \<notin> ms_id ` set (od_get_list (m_messages m) (ms_conversation_id x)) \<Longrightarrow>
      grouped ms_conversation_id ms_sequence ms_id
        (od_set (ms_conversation_id x) (sort_key ms_sequence (od_get_list (m_messages m) (ms_conversation_id x) @ [x])) (m_messages m))"
    using assms(2) list_all_fresh [of ms_id x ms_sequence] by (intro grouped_insert [OF g]) auto
  moreover have "grouped ms_conversation_id ms_sequence ms_id
      (od_set (ms_conversation_id x) (od_get_list (m_messages m) (ms_conversation_id x)) (m_messages m))"
    by (rule grouped_set [OF g]) (use grouped_get [OF g] in auto)
  ultimately show ?thesis using assms(1) by (simp add: mem_inv_def mem_add_message_def Let_def)
qed

lemma mem_inv_add_run_step:
  assumes "mem_inv m" "client_ok (Add_run_step x) m"
  shows "mem_inv (snd (mem_add_run_step x m))"
proof -
  have g: "grouped st_run_id st_sequence st_id (m_run_steps m)" using assms(1) by (simp add: mem_inv_def)
  have "st_id x \<notin> st_id ` set (od_get_list (m_run_steps m) (st_run_id x)) \<Longrightarrow>
      grouped st_run_id st_sequence st_id
        (od_set (st_run_id x) (sort_key st_sequence (od_get_list (m_run_steps m) (st_run_id x) @ [x])) (m_run_steps m))"
    using assms(2) list_all_fresh [of st_id x st_sequence] by (intro grouped_insert [OF g]) auto
  moreover have "grouped st_run_id st_sequence st_id
      (od_set (st_run_id x) (od_get_list (m_run_steps m) (st_run_id x)) (m_run_steps m))"
    by (rule grouped_set [OF g]) (use grouped_get [OF g] in auto)
  ultimately show ?thesis using assms(1) by (simp add: mem_inv_def mem_add_run_step_def Let_def)
qed

lemma map_reply_simps [simp]:
  "snd (map_reply f p) = snd p"
  "fst (map_reply f p) = Inl e \<longleftrightarrow> fst p = Inl e"
  by (auto simp: map_reply_def split: sum.splits)

lemma mem_inv_runs:
  assumes "mem_inv m" "stamp_ok (rn_started_at r)"
  shows "mem_inv (m\<lparr>m_runs := od_set (rn_id r) r (m_runs m)\<rparr>)"
  using assms id_keyed_set_values [of rn_id "m_runs m" r] by (auto simp: mem_inv_def id_keyed_set)

lemma mem_inv_step:
  assumes "mem_inv m" "client_ok p m"
  shows "mem_inv (snd (mem_op p m))"
proof (cases p)
  case (Create_conversation c)
  with assms show ?thesis by (simp add: mem_create_conversation_def) (simp add: mem_inv_def id_keyed_set)
next
  case (Add_message x) with assms show ?thesis by (simp add: mem_inv_add_message)
next
  case (Create_run r)
  with assms show ?thesis by (simp add: mem_create_run_def mem_inv_runs)
next
  case (Update_run r)
  have "map_of (m_runs m) (rn_id r) = Some r0 \<Longrightarrow> stamp_ok (rn_started_at r0)" for r0
    using assms(1) by (force simp: mem_inv_def dest: map_of_SomeD)
  with assms Update_run show ?thesis by (auto simp: mem_update_run_def mem_inv_runs)
next
  case (Add_run_step x) with assms show ?thesis by (simp add: mem_inv_add_run_step)
next
  case (Create_job j)
  with assms show ?thesis by (simp add: mem_create_job_def) (simp add: mem_inv_def id_keyed_set)
next
  case (Update_job j)
  with assms show ?thesis by (simp add: mem_update_job_def) (simp add: mem_inv_def id_keyed_set)
qed (use assms in simp_all)

lemma mem_inv_empty [simp]: "mem_inv mem_empty"
  by (simp add: mem_inv_def mem_empty_def)

interpretation memory: state_repository mem_op mem_inv client_ok
proof
  show "mem_inv (snd (mem_op p m))" if "mem_inv m" "client_ok p m" for p m using that by (rule mem_inv_step)
  show "fst (mem_op (Get_run (rn_id r)) m') = Inr (R_run (Some r))"
    if "mem_op (Create_run r) m = (Inr x, m')" for r m x m'
    using that by (auto simp: mem_defs map_reply_def split: if_splits)
  show "fst (mem_op (Create_run r) m) \<in> {Inl (DuplicateEntity (rn_id r)), Inl (EntityNotFound (rn_conversation_id r))}"
    if "fst (mem_op (Get_run (rn_id r)) m) = Inr (R_run (Some r'))" for r m r'
    using that by (auto simp: mem_defs map_reply_def)
  show "sorted (map ms_sequence ms)" if "fst (mem_op (List_messages cid None) m) = Inr (R_messages ms)" for cid m ms
    using that by (auto simp: mem_defs take_limit_def)
qed

end
