(* ===== verification/App_Dynamo.thy ===== *)
theory App_Dynamo
  imports App_State
begin

text \<open>
  The durable repository on a single DynamoDB table (\<open>services/app/app/state/dynamodb.py\<close>).

  The table is a list of items under distinct \<open>(pk, sk)\<close> keys. A conditional write is atomic and its
  condition is evaluated on the item with the same key; a query returns the items of one partition
  with a sort key prefix in byte order of the sort key, which for the characters modelled is the order
  of strings. Every number comes back as a \<open>Decimal\<close>. The environment of an operation says which of
  its calls fail with another client error, and how many items a page of a query holds, if the result
  does not fit into one.
\<close>

section \<open>Numbers\<close>

text \<open>
  The coefficient and the number of decimals of a float: the least number of decimals, which is what
  \<open>str\<close> prints and DynamoDB keeps. 400 decimals are enough for every float.
\<close>

fun dec_scale :: "nat \<Rightarrow> nat \<Rightarrow> pyfloat \<Rightarrow> int \<times> nat" where
  "dec_scale 0 k x = (\<lfloor>x\<rfloor>, k)"
| "dec_scale (Suc n) k x = (if x = of_int \<lfloor>x\<rfloor> then (\<lfloor>x\<rfloor>, k) else dec_scale n (k + 1) (x * 10))"

definition decimals :: "pyfloat \<Rightarrow> int \<times> nat" where
  "decimals x = dec_scale 400 0 x"

text \<open>
  \<open>"." in str(d)\<close> for a \<open>Decimal\<close>: plain notation unless more than five zeros follow the point,
  scientific notation otherwise, which has a point only with two digits or more.
\<close>

definition has_point :: "pyfloat \<Rightarrow> bool" where
  "has_point x = (let (c, k) = decimals x; digits = length (show_nat (nat \<bar>c\<bar>)) in
     k > 0 \<and> (int digits - int k > -6 \<or> digits > 1))"

fun to_decimal :: "pyval \<Rightarrow> pyval" where
  "to_decimal (PFloat x) = PDec x"
| "to_decimal (PDict d) = PDict (map (\<lambda>(k, v). (k, to_decimal v)) d)"
| "to_decimal (PList vs) = PList (map to_decimal vs)"
| "to_decimal v = v"

fun from_decimal :: "pyval \<Rightarrow> pyval" where
  "from_decimal (PDec x) = (if has_point x then PFloat x else PInt (py_trunc x))"
| "from_decimal (PDict d) = PDict (map (\<lambda>(k, v). (k, from_decimal v)) d)"
| "from_decimal (PList vs) = PList (map from_decimal vs)"
| "from_decimal v = v"

text \<open>What a value is when it is read back: the service keeps every number as a \<open>Decimal\<close>.\<close>

fun db_value :: "pyval \<Rightarrow> pyval" where
  "db_value (PInt i) = PDec (of_int i)"
| "db_value (PFloat x) = PDec x"
| "db_value (PDict d) = PDict (map (\<lambda>(k, v). (k, db_value v)) d)"
| "db_value (PList vs) = PList (map db_value vs)"
| "db_value v = v"

fun storable :: "pyval \<Rightarrow> bool" where
  "storable (PFloat x) = has_point x"
| "storable (PDec x) = False"
| "storable (PDict d) = list_all (\<lambda>(k, v). storable v) d"
| "storable (PList vs) = list_all storable vs"
| "storable v = True"

lemma of_int_decimals [simp]: "decimals (of_int i) = (i, 0)"
  by (simp add: decimals_def numeral_eq_Suc)

lemma of_int_no_point [simp]: "\<not> has_point (of_int i)"
  by (simp add: has_point_def)

lemma py_trunc_of_int [simp]: "py_trunc (of_int i) = i"
  by (simp add: py_trunc_def)

lemma value_roundtrip: "storable v \<Longrightarrow> from_decimal (db_value (to_decimal v)) = v"
proof (induction v rule: to_decimal.induct)
  case (2 d)
  have "from_decimal (db_value (to_decimal v)) = v" if "(k, v) \<in> set d" for k v
    using 2 that by (force simp: list_all_iff)
  then show ?case by (auto simp: case_prod_unfold intro!: map_idI)
next
  case (3 vs)
  then show ?case by (auto simp: list_all_iff intro!: map_idI)
qed auto

text \<open>
  A float below a millionth with a single significant digit is printed without a point, so it is read
  back as the integer zero.
\<close>

theorem tiny_float_lost: "from_decimal (db_value (to_decimal (PFloat (1 / 10000000)))) = PInt 0"
  by code_simp

section \<open>Items\<close>

type_synonym item = pydict
type_synonym table_key = "string \<times> string"
type_synonym table = "(table_key, item) odict"

record dynamo_env =
  db_fails :: "nat \<Rightarrow> bool"
  db_page :: "nat option"

definition opt_str :: "string option \<Rightarrow> pyval" where
  "opt_str v = (case v of None \<Rightarrow> PNone | Some s \<Rightarrow> PStr s)"

definition opt_int :: "int option \<Rightarrow> pyval" where
  "opt_int v = (case v of None \<Rightarrow> PNone | Some i \<Rightarrow> PInt i)"

definition drop_none :: "item \<Rightarrow> item" where
  "drop_none it = filter (\<lambda>(k, v). v \<noteq> PNone) it"

text \<open>\<open>f"{n:06d}"\<close>.\<close>

definition pad6 :: "int \<Rightarrow> string" where
  "pad6 n = (let ds = show_nat (nat \<bar>n\<bar>) in
     if n < 0 then CHR ''-'' # replicate (5 - length ds) (CHR ''0'') @ ds
     else replicate (6 - length ds) (CHR ''0'') @ ds)"

abbreviation conv_pk :: "string \<Rightarrow> string" where "conv_pk cid \<equiv> ''CONV#'' @ cid"
abbreviation run_pk :: "string \<Rightarrow> string" where "run_pk rid \<equiv> ''RUN#'' @ rid"
abbreviation job_pk :: "string \<Rightarrow> string" where "job_pk jid \<equiv> ''JOB#'' @ jid"

definition message_sk :: "message \<Rightarrow> string" where
  "message_sk x = ''MSG#'' @ pad6 (ms_sequence x) @ ''#'' @ ms_id x"

definition step_sk :: "run_step \<Rightarrow> string" where
  "step_sk x = ''STEP#'' @ pad6 (st_sequence x) @ ''#'' @ st_id x"

definition index_sk :: "run \<Rightarrow> string" where
  "index_sk r = ''RUN#'' @ rn_started_at r @ ''#'' @ rn_id r"

definition conversation_item :: "conversation \<Rightarrow> item" where
  "conversation_item c = drop_none
     [(''pk'', PStr (conv_pk (cv_id c))), (''sk'', PStr ''METADATA''), (''entity_type'', PStr ''conversation''),
      (''conversation_id'', PStr (cv_id c)), (''created_at'', PStr (cv_created_at c)), (''updated_at'', PStr (cv_updated_at c)),
      (''title'', opt_str (cv_title c)), (''metadata'', to_decimal (PDict (cv_metadata c)))]"

definition message_item :: "message \<Rightarrow> item" where
  "message_item x = drop_none
     [(''pk'', PStr (conv_pk (ms_conversation_id x))), (''sk'', PStr (message_sk x)), (''entity_type'', PStr ''message''),
      (''message_id'', PStr (ms_id x)), (''conversation_id'', PStr (ms_conversation_id x)), (''sequence'', PInt (ms_sequence x)),
      (''role'', PStr (ms_role x)), (''content'', PStr (ms_content x)), (''created_at'', PStr (ms_created_at x)),
      (''metadata'', to_decimal (PDict (ms_metadata x)))]"

definition run_item :: "run \<Rightarrow> item" where
  "run_item r = drop_none
     [(''pk'', PStr (run_pk (rn_id r))), (''sk'', PStr ''METADATA''), (''entity_type'', PStr ''run''), (''run_id'', PStr (rn_id r)),
      (''conversation_id'', PStr (rn_conversation_id r)), (''message_id'', opt_str (rn_message_id r)), (''status'', PStr (rn_status r)),
      (''model'', opt_str (rn_model r)), (''prompt_version'', opt_str (rn_prompt_version r)), (''started_at'', PStr (rn_started_at r)),
      (''completed_at'', opt_str (rn_completed_at r)), (''input_tokens'', PInt (rn_input_tokens r)),
      (''output_tokens'', PInt (rn_output_tokens r)), (''estimated_cost_usd'', to_decimal (PFloat (rn_estimated_cost_usd r))),
      (''failure_code'', opt_str (rn_failure_code r)), (''metadata'', to_decimal (PDict (rn_metadata r)))]"

definition index_item :: "run \<Rightarrow> item" where
  "index_item r =
     [(''pk'', PStr (conv_pk (rn_conversation_id r))), (''sk'', PStr (index_sk r)), (''entity_type'', PStr ''conversation_run''),
      (''run_id'', PStr (rn_id r)), (''conversation_id'', PStr (rn_conversation_id r))]"

definition step_item :: "run_step \<Rightarrow> item" where
  "step_item x = drop_none
     [(''pk'', PStr (run_pk (st_run_id x))), (''sk'', PStr (step_sk x)), (''entity_type'', PStr ''run_step''), (''step_id'', PStr (st_id x)),
      (''run_id'', PStr (st_run_id x)), (''sequence'', PInt (st_sequence x)), (''step_type'', PStr (st_step_type x)),
      (''status'', PStr (st_status x)), (''tool_name'', opt_str (st_tool_name x)), (''llm_call_id'', opt_str (st_llm_call_id x)),
      (''tool_call_id'', opt_str (st_tool_call_id x)), (''query_id'', opt_str (st_query_id x)),
      (''input_summary'', opt_str (st_input_summary x)), (''output_summary'', opt_str (st_output_summary x)),
      (''started_at'', PStr (st_started_at x)), (''completed_at'', opt_str (st_completed_at x)),
      (''duration_ms'', opt_int (st_duration_ms x)), (''metadata'', to_decimal (PDict (st_metadata x)))]"

definition job_item :: "job \<Rightarrow> item" where
  "job_item j = drop_none
     [(''pk'', PStr (job_pk (jb_id j))), (''sk'', PStr ''METADATA''), (''entity_type'', PStr ''job''), (''job_id'', PStr (jb_id j)),
      (''job_type'', PStr (jb_job_type j)), (''status'', PStr (jb_status j)), (''created_at'', PStr (jb_created_at j)),
      (''started_at'', opt_str (jb_started_at j)), (''completed_at'', opt_str (jb_completed_at j)),
      (''params'', to_decimal (PDict (jb_params j))),
      (''result'', case jb_result j of None \<Rightarrow> PNone | Some d \<Rightarrow> to_decimal (PDict d)),
      (''artifact_url'', opt_str (jb_artifact_url j)), (''error'', opt_str (jb_error j)), (''metadata'', to_decimal (PDict (jb_metadata j)))]"

text \<open>
  Reading an item: \<open>item["x"]\<close> raises on an absent attribute, \<open>item.get("x", default)\<close> does not. An
  attribute has the type the repository writes for it.
\<close>

definition need :: "string \<Rightarrow> item \<Rightarrow> state_exn + pyval" where
  "need k it = (case map_of it k of None \<Rightarrow> Inl (Item_KeyError k) | Some v \<Rightarrow> Inr v)"

definition str_of :: "pyval \<Rightarrow> string" where
  "str_of v = (case v of PStr s \<Rightarrow> s | _ \<Rightarrow> [])"

definition number_of :: "pyval \<Rightarrow> pyfloat" where
  "number_of v = (case v of PDec x \<Rightarrow> x | PInt i \<Rightarrow> of_int i | PFloat x \<Rightarrow> x | _ \<Rightarrow> 0)"

definition get_text :: "string \<Rightarrow> string \<Rightarrow> item \<Rightarrow> string" where
  "get_text k dflt it = (case map_of it k of None \<Rightarrow> dflt | Some v \<Rightarrow> str_of v)"

definition get_opt :: "string \<Rightarrow> item \<Rightarrow> string option" where
  "get_opt k it = map_option str_of (map_of it k)"

definition get_number :: "string \<Rightarrow> item \<Rightarrow> pyfloat" where
  "get_number k it = (case map_of it k of None \<Rightarrow> 0 | Some v \<Rightarrow> number_of v)"

definition dict_of :: "pyval \<Rightarrow> pydict" where
  "dict_of v = (case v of PDict d \<Rightarrow> d | _ \<Rightarrow> [])"

definition get_dict :: "string \<Rightarrow> item \<Rightarrow> pydict" where
  "get_dict k it = (case map_of it k of None \<Rightarrow> [] | Some v \<Rightarrow> dict_of (from_decimal v))"

definition conversation_of :: "item \<Rightarrow> state_exn + conversation" where
  "conversation_of it = try_bind (need ''conversation_id'' it) (\<lambda>cid. Inr
     \<lparr>cv_id = str_of cid, cv_created_at = get_text ''created_at'' [] it, cv_updated_at = get_text ''updated_at'' [] it,
      cv_title = get_opt ''title'' it, cv_metadata = get_dict ''metadata'' it\<rparr>)"

definition message_of :: "item \<Rightarrow> state_exn + message" where
  "message_of it = try_bind (need ''message_id'' it) (\<lambda>mid. try_bind (need ''conversation_id'' it) (\<lambda>cid.
     try_bind (need ''sequence'' it) (\<lambda>sq. try_bind (need ''role'' it) (\<lambda>role. try_bind (need ''content'' it) (\<lambda>content. Inr
     \<lparr>ms_id = str_of mid, ms_conversation_id = str_of cid, ms_sequence = py_trunc (number_of sq), ms_role = str_of role,
      ms_content = str_of content, ms_created_at = get_text ''created_at'' [] it, ms_metadata = get_dict ''metadata'' it\<rparr>)))))"

definition run_of :: "item \<Rightarrow> state_exn + run" where
  "run_of it = try_bind (need ''run_id'' it) (\<lambda>rid. try_bind (need ''conversation_id'' it) (\<lambda>cid. Inr
     \<lparr>rn_id = str_of rid, rn_conversation_id = str_of cid, rn_message_id = get_opt ''message_id'' it,
      rn_status = get_text ''status'' ''in_progress'' it, rn_model = get_opt ''model'' it,
      rn_prompt_version = get_opt ''prompt_version'' it, rn_started_at = get_text ''started_at'' [] it,
      rn_completed_at = get_opt ''completed_at'' it, rn_input_tokens = py_trunc (get_number ''input_tokens'' it),
      rn_output_tokens = py_trunc (get_number ''output_tokens'' it), rn_estimated_cost_usd = get_number ''estimated_cost_usd'' it,
      rn_failure_code = get_opt ''failure_code'' it, rn_metadata = get_dict ''metadata'' it\<rparr>))"

definition step_of :: "item \<Rightarrow> state_exn + run_step" where
  "step_of it = try_bind (need ''step_id'' it) (\<lambda>sid. try_bind (need ''run_id'' it) (\<lambda>rid.
     try_bind (need ''sequence'' it) (\<lambda>sq. try_bind (need ''step_type'' it) (\<lambda>ty. Inr
     \<lparr>st_id = str_of sid, st_run_id = str_of rid, st_sequence = py_trunc (number_of sq), st_step_type = str_of ty,
      st_status = get_text ''status'' ''in_progress'' it, st_tool_name = get_opt ''tool_name'' it,
      st_llm_call_id = get_opt ''llm_call_id'' it, st_tool_call_id = get_opt ''tool_call_id'' it, st_query_id = get_opt ''query_id'' it,
      st_input_summary = get_opt ''input_summary'' it, st_output_summary = get_opt ''output_summary'' it,
      st_started_at = get_text ''started_at'' [] it, st_completed_at = get_opt ''completed_at'' it,
      st_duration_ms = map_option (\<lambda>v. py_trunc (number_of v)) (map_of it ''duration_ms''), st_metadata = get_dict ''metadata'' it\<rparr>))))"

definition job_of :: "item \<Rightarrow> state_exn + job" where
  "job_of it = try_bind (need ''job_id'' it) (\<lambda>jid. Inr
     \<lparr>jb_id = str_of jid, jb_job_type = get_text ''job_type'' ''create_full_report'' it, jb_status = get_text ''status'' ''PENDING'' it,
      jb_created_at = get_text ''created_at'' [] it, jb_started_at = get_opt ''started_at'' it,
      jb_completed_at = get_opt ''completed_at'' it, jb_params = get_dict ''params'' it,
      jb_result = map_option (\<lambda>v. dict_of (from_decimal v)) (map_of it ''result''),
      jb_artifact_url = get_opt ''artifact_url'' it, jb_error = get_opt ''error'' it, jb_metadata = get_dict ''metadata'' it\<rparr>)"

section \<open>The table\<close>

definition stored :: "item \<Rightarrow> item" where
  "stored it = map (\<lambda>(k, v). (k, db_value v)) it"

definition put_item :: "bool \<Rightarrow> table_key \<Rightarrow> item \<Rightarrow> table \<Rightarrow> table option" where
  "put_item must_exist key it t = (if (map_of t key \<noteq> None) = must_exist then Some (od_set key (stored it) t) else None)"

definition query_table :: "dynamo_env \<Rightarrow> string \<Rightarrow> string \<Rightarrow> int option \<Rightarrow> table \<Rightarrow> item list" where
  "query_table env pk prefix limit t =
     (let hits = map snd (sort_key (\<lambda>(k, _). snd k) (filter (\<lambda>(k, _). fst k = pk \<and> startswith prefix (snd k)) t));
          page = (case db_page env of None \<Rightarrow> hits | Some n \<Rightarrow> take n hits)
      in take_limit limit page)"

section \<open>Operations\<close>

definition dyn_create_conversation :: "dynamo_env \<Rightarrow> conversation \<Rightarrow> table \<Rightarrow> (state_exn + conversation) \<times> table" where
  "dyn_create_conversation env c t =
     (if db_fails env 0 then (Inl (StateError ''Failed to create conversation''), t)
      else case put_item False (conv_pk (cv_id c), ''METADATA'') (conversation_item c) t of
             None \<Rightarrow> (Inl (DuplicateEntity (cv_id c)), t) | Some t' \<Rightarrow> (Inr c, t'))"

definition dyn_get_conversation :: "dynamo_env \<Rightarrow> string \<Rightarrow> table \<Rightarrow> state_exn + conversation option" where
  "dyn_get_conversation env cid t =
     (if db_fails env 0 then Inl (StateError ''Failed to get conversation'')
      else case map_of t (conv_pk cid, ''METADATA'') of None \<Rightarrow> Inr None
           | Some it \<Rightarrow> if it = [] then Inr None else try_bind (conversation_of it) (\<lambda>c. Inr (Some c)))"

definition dyn_add_message :: "dynamo_env \<Rightarrow> message \<Rightarrow> table \<Rightarrow> (state_exn + message) \<times> table" where
  "dyn_add_message env x t = (case dyn_get_conversation env (ms_conversation_id x) t of
       Inl e \<Rightarrow> (Inl e, t)
     | Inr None \<Rightarrow> (Inl (EntityNotFound (ms_conversation_id x)), t)
     | Inr (Some _) \<Rightarrow>
         if db_fails env 1 then (Inl (StateError ''Failed to add message''), t)
         else case put_item False (conv_pk (ms_conversation_id x), message_sk x) (message_item x) t of
                None \<Rightarrow> (Inl (DuplicateEntity (ms_id x)), t) | Some t' \<Rightarrow> (Inr x, t'))"

definition dyn_list_messages :: "dynamo_env \<Rightarrow> string \<Rightarrow> int option \<Rightarrow> table \<Rightarrow> state_exn + message list" where
  "dyn_list_messages env cid limit t =
     (if db_fails env 0 then Inl (StateError ''Failed to list messages'')
      else try_map message_of (query_table env (conv_pk cid) ''MSG#'' limit t))"

definition dyn_create_run :: "dynamo_env \<Rightarrow> run \<Rightarrow> table \<Rightarrow> (state_exn + run) \<times> table" where
  "dyn_create_run env r t = (case dyn_get_conversation env (rn_conversation_id r) t of
       Inl e \<Rightarrow> (Inl e, t)
     | Inr None \<Rightarrow> (Inl (EntityNotFound (rn_conversation_id r)), t)
     | Inr (Some _) \<Rightarrow>
         if db_fails env 1 then (Inl (StateError ''Failed to create run''), t)
         else case put_item False (run_pk (rn_id r), ''METADATA'') (run_item r) t of
                None \<Rightarrow> (Inl (DuplicateEntity (rn_id r)), t)
              | Some t1 \<Rightarrow>
                  if db_fails env 2 then (Inl (StateError ''Failed to index conversation run''), t1)
                  else case put_item False (conv_pk (rn_conversation_id r), index_sk r) (index_item r) t1 of
                         None \<Rightarrow> (Inl (StateError ''Failed to index conversation run''), t1)
                       | Some t2 \<Rightarrow> (Inr r, t2))"

definition dyn_get_run :: "dynamo_env \<Rightarrow> string \<Rightarrow> table \<Rightarrow> state_exn + run option" where
  "dyn_get_run env rid t =
     (if db_fails env 0 then Inl (StateError ''Failed to get run'')
      else case map_of t (run_pk rid, ''METADATA'') of None \<Rightarrow> Inr None
           | Some it \<Rightarrow> if it = [] then Inr None else try_bind (run_of it) (\<lambda>r. Inr (Some r)))"

definition dyn_update_run :: "dynamo_env \<Rightarrow> run \<Rightarrow> table \<Rightarrow> (state_exn + run) \<times> table" where
  "dyn_update_run env r t =
     (if db_fails env 0 then (Inl (ConcurrencyError ''Failed to update run''), t)
      else case put_item True (run_pk (rn_id r), ''METADATA'') (run_item r) t of
             None \<Rightarrow> (Inl (EntityNotFound (rn_id r)), t) | Some t' \<Rightarrow> (Inr r, t'))"

text \<open>\<open>list_runs\<close> reads the index and then each run; the \<open>i\<close>-th of these reads is call \<open>i + 1\<close>.\<close>

fun read_runs :: "dynamo_env \<Rightarrow> nat \<Rightarrow> item list \<Rightarrow> table \<Rightarrow> state_exn + run list" where
  "read_runs env i [] t = Inr []"
| "read_runs env i (it # its) t = try_bind (need ''run_id'' it) (\<lambda>rid.
     try_bind (dyn_get_run (env\<lparr>db_fails := (\<lambda>_. db_fails env i)\<rparr>) (str_of rid) t) (\<lambda>r.
     try_bind (read_runs env (i + 1) its t) (\<lambda>rs. Inr (case r of None \<Rightarrow> rs | Some x \<Rightarrow> x # rs))))"

definition dyn_list_runs :: "dynamo_env \<Rightarrow> string \<Rightarrow> table \<Rightarrow> state_exn + run list" where
  "dyn_list_runs env cid t =
     (if db_fails env 0 then Inl (StateError ''Failed to list conversation runs'')
      else read_runs env 1 (query_table env (conv_pk cid) ''RUN#'' None t) t)"

definition dyn_add_run_step :: "dynamo_env \<Rightarrow> run_step \<Rightarrow> table \<Rightarrow> (state_exn + run_step) \<times> table" where
  "dyn_add_run_step env x t = (case dyn_get_run env (st_run_id x) t of
       Inl e \<Rightarrow> (Inl e, t)
     | Inr None \<Rightarrow> (Inl (EntityNotFound (st_run_id x)), t)
     | Inr (Some _) \<Rightarrow>
         if db_fails env 1 then (Inl (StateError ''Failed to add run step''), t)
         else case put_item False (run_pk (st_run_id x), step_sk x) (step_item x) t of
                None \<Rightarrow> (Inl (DuplicateEntity (st_id x)), t) | Some t' \<Rightarrow> (Inr x, t'))"

definition dyn_list_run_steps :: "dynamo_env \<Rightarrow> string \<Rightarrow> table \<Rightarrow> state_exn + run_step list" where
  "dyn_list_run_steps env rid t =
     (if db_fails env 0 then Inl (StateError ''Failed to list run steps'')
      else try_map step_of (query_table env (run_pk rid) ''STEP#'' None t))"

definition dyn_create_job :: "dynamo_env \<Rightarrow> job \<Rightarrow> table \<Rightarrow> (state_exn + job) \<times> table" where
  "dyn_create_job env j t =
     (if db_fails env 0 then (Inl (StateError ''Failed to create job''), t)
      else case put_item False (job_pk (jb_id j), ''METADATA'') (job_item j) t of
             None \<Rightarrow> (Inl (DuplicateEntity (jb_id j)), t) | Some t' \<Rightarrow> (Inr j, t'))"

definition dyn_get_job :: "dynamo_env \<Rightarrow> string \<Rightarrow> table \<Rightarrow> state_exn + job option" where
  "dyn_get_job env jid t =
     (if db_fails env 0 then Inl (StateError ''Failed to get job'')
      else case map_of t (job_pk jid, ''METADATA'') of None \<Rightarrow> Inr None
           | Some it \<Rightarrow> if it = [] then Inr None else try_bind (job_of it) (\<lambda>j. Inr (Some j)))"

definition dyn_update_job :: "dynamo_env \<Rightarrow> job \<Rightarrow> table \<Rightarrow> (state_exn + job) \<times> table" where
  "dyn_update_job env j t =
     (if db_fails env 0 then (Inl (ConcurrencyError ''Failed to update job''), t)
      else case put_item True (job_pk (jb_id j), ''METADATA'') (job_item j) t of
             None \<Rightarrow> (Inl (EntityNotFound (jb_id j)), t) | Some t' \<Rightarrow> (Inr j, t'))"

definition dyn_list_jobs :: "int option \<Rightarrow> table \<Rightarrow> job list" where
  "dyn_list_jobs limit t = []"

definition map_result :: "('a \<Rightarrow> 'b) \<Rightarrow> 'e + 'a \<Rightarrow> 'e + 'b" where
  "map_result f r = (case r of Inl e \<Rightarrow> Inl e | Inr x \<Rightarrow> Inr (f x))"

fun dyn_op :: "dynamo_env \<Rightarrow> repo_op \<Rightarrow> table \<Rightarrow> (state_exn + reply) \<times> table" where
  "dyn_op env (Create_conversation c) t = map_reply (\<lambda>c. R_conversation (Some c)) (dyn_create_conversation env c t)"
| "dyn_op env (Get_conversation cid) t = (map_result R_conversation (dyn_get_conversation env cid t), t)"
| "dyn_op env (Add_message x) t = map_reply R_message (dyn_add_message env x t)"
| "dyn_op env (List_messages cid n) t = (map_result R_messages (dyn_list_messages env cid n t), t)"
| "dyn_op env (Create_run r) t = map_reply (\<lambda>r. R_run (Some r)) (dyn_create_run env r t)"
| "dyn_op env (Get_run rid) t = (map_result R_run (dyn_get_run env rid t), t)"
| "dyn_op env (Update_run r) t = map_reply (\<lambda>r. R_run (Some r)) (dyn_update_run env r t)"
| "dyn_op env (List_runs cid) t = (map_result R_runs (dyn_list_runs env cid t), t)"
| "dyn_op env (Add_run_step x) t = map_reply R_step (dyn_add_run_step env x t)"
| "dyn_op env (List_run_steps rid) t = (map_result R_steps (dyn_list_run_steps env rid t), t)"
| "dyn_op env (Create_job j) t = map_reply (\<lambda>j. R_job (Some j)) (dyn_create_job env j t)"
| "dyn_op env (Get_job jid) t = (map_result R_job (dyn_get_job env jid t), t)"
| "dyn_op env (Update_job j) t = map_reply (\<lambda>j. R_job (Some j)) (dyn_update_job env j t)"

section \<open>Round trips\<close>

lemma stored_get: "map_of (stored it) k = map_option db_value (map_of it k)"
  by (induction it) (auto simp: stored_def)

lemma drop_none_get:
  "distinct (map fst it) \<Longrightarrow> map_of (drop_none it) k = (if map_of it k = Some PNone then None else map_of it k)"
proof (induction it)
  case (Cons p it)
  have "map_of it (fst p) = None" using Cons.prems by (simp add: map_of_eq_None_iff)
  with Cons show ?case by (cases p) (auto simp: drop_none_def)
qed (simp add: drop_none_def)

text \<open>What the table returns for an attribute of an item, from what the item was built with.\<close>

definition present :: "pyval option \<Rightarrow> pyval option" where
  "present v = (case v of None \<Rightarrow> None | Some w \<Rightarrow> if w = PNone then None else Some (db_value w))"

lemma stored_item_get: "distinct (map fst it) \<Longrightarrow> map_of (stored (drop_none it)) k = present (map_of it k)"
  by (auto simp: stored_get drop_none_get present_def split: option.splits)

lemma present_simps [simp]:
  "present None = None" "present (Some (PStr s)) = Some (PStr s)" "present (Some (PInt i)) = Some (PDec (of_int i))"
  "present (Some (PDec x)) = Some (PDec x)" "present (Some (PDict d)) = Some (db_value (PDict d))"
  "map_option str_of (present (Some (opt_str v))) = v"
  "map_option (\<lambda>v. py_trunc (number_of v)) (present (Some (opt_int n))) = n"
  by (auto simp: present_def opt_str_def opt_int_def str_of_def number_of_def split: option.splits)

lemmas item_read = need_def get_text_def get_opt_def get_number_def get_dict_def

lemma value_of_simps [simp]:
  "str_of (PStr s) = s" "number_of (PDec x) = x" "dict_of (PDict d) = d"
  by (simp_all add: str_of_def number_of_def dict_of_def)

lemma dict_roundtrip:
  assumes "storable (PDict d)"
  shows "map ((\<lambda>(k, v). (k, from_decimal v)) \<circ> ((\<lambda>(k, v). (k, db_value v)) \<circ> (\<lambda>(k, v). (k, to_decimal v)))) d = d"
  using value_roundtrip [OF assms] by simp

lemma result_roundtrip:
  assumes "\<And>d. r = Some d \<Longrightarrow> storable (PDict d)"
  shows "map_option (\<lambda>v. dict_of (from_decimal v)) (present (Some (case r of None \<Rightarrow> PNone | Some d \<Rightarrow> to_decimal (PDict d)))) = r"
  using assms by (cases r) (auto simp: present_def dict_roundtrip)

lemma conversation_roundtrip:
  "storable (PDict (cv_metadata c)) \<Longrightarrow> conversation_of (stored (conversation_item c)) = Inr c"
  by (simp add: conversation_of_def conversation_item_def stored_item_get item_read dict_roundtrip)

lemma message_roundtrip:
  "storable (PDict (ms_metadata x)) \<Longrightarrow> message_of (stored (message_item x)) = Inr x"
  by (simp add: message_of_def message_item_def stored_item_get item_read dict_roundtrip)

lemma run_roundtrip:
  "storable (PDict (rn_metadata r)) \<Longrightarrow> run_of (stored (run_item r)) = Inr r"
  by (simp add: run_of_def run_item_def stored_item_get item_read dict_roundtrip)

lemma step_roundtrip:
  "storable (PDict (st_metadata x)) \<Longrightarrow> step_of (stored (step_item x)) = Inr x"
  by (simp add: step_of_def step_item_def stored_item_get item_read dict_roundtrip)

lemma job_roundtrip:
  assumes "storable (PDict (jb_metadata j))" "storable (PDict (jb_params j))"
    "\<And>d. jb_result j = Some d \<Longrightarrow> storable (PDict d)"
  shows "job_of (stored (job_item j)) = Inr j"
  using dict_roundtrip [OF assms(1)] dict_roundtrip [OF assms(2)] result_roundtrip [OF assms(3)]
  by (simp add: job_of_def job_item_def stored_item_get item_read)

end
