(* ===== verification/App_Refine.thy ===== *)
theory App_Refine
  imports App_Dynamo
begin

text \<open>
  The DynamoDB repository refines the in-memory one: for clients that keep to the discipline of
  \<open>client_ok\<close> every operation returns what the reference implementation returns. The theory shows how
  sort keys order, that the table of a repository is determined by the entities it holds, and a
  simulation per operation.
\<close>

section \<open>Sort keys\<close>

lemma read_digits_bounds:
  "list_all py_isdigit s \<Longrightarrow> acc * 10 ^ length s \<le> read_digits acc s \<and> read_digits acc s < (acc + 1) * 10 ^ length s"
proof (induction acc s rule: read_digits.induct)
  case (2 acc c s)
  have c: "0 \<le> (of_char c :: int) - 48" "(of_char c :: int) - 48 \<le> 9"
    using 2(2) by (auto simp: py_isdigit_def Let_def of_nat_of_char [symmetric, where 'a = int])
  have p: "(0 :: int) < 10 ^ length s" by simp
  have IH: "(10 * acc + (of_char c - 48)) * 10 ^ length s \<le> read_digits acc (c # s)"
    "read_digits acc (c # s) < (10 * acc + (of_char c - 48) + 1) * 10 ^ length s" using 2 by simp_all
  have "acc * 10 ^ length (c # s) \<le> (10 * acc + (of_char c - 48)) * 10 ^ length s"
    using c(1) p mult_right_mono [of "10 * acc" "10 * acc + (of_char c - 48)" "10 ^ length s"] by (simp add: algebra_simps)
  moreover have "(10 * acc + (of_char c - 48) + 1) * 10 ^ length s \<le> (acc + 1) * 10 ^ length (c # s)"
    using c(2) p mult_right_mono [of "10 * acc + (of_char c - 48) + 1" "10 * acc + 10" "10 ^ length s"] by (simp add: algebra_simps)
  ultimately show ?case using IH by linarith
qed simp

lemma digits_less:
  assumes "length s = length t" "list_all py_isdigit s" "list_all py_isdigit t" "read_digits acc s < read_digits acc t"
  shows "s < t"
  using assms
proof (induction s t arbitrary: acc rule: list_induct2)
  case (Cons c s d t)
  consider "c < d" | "c = d" | "d < c" by (rule linorder_cases)
  then show ?case
  proof cases
    case 2 with Cons show ?thesis by auto
  next
    case 3
    then have "(of_char d :: int) + 1 \<le> of_char c" by (simp add: less_char_def of_nat_of_char [symmetric, where 'a = int])
    then have le: "10 * acc + (of_char d - 48) + 1 \<le> 10 * acc + (of_char c - 48 :: int)" by simp
    have "read_digits acc (d # t) < (10 * acc + (of_char d - 48) + 1) * 10 ^ length t"
      using read_digits_bounds [of t "10 * acc + (of_char d - 48)"] Cons.prems by simp
    also have "\<dots> \<le> (10 * acc + (of_char c - 48)) * 10 ^ length s"
      using mult_right_mono [OF le, of "10 ^ length t"] Cons.hyps by simp
    also have "\<dots> \<le> read_digits acc (c # s)"
      using read_digits_bounds [of s "10 * acc + (of_char c - 48)"] Cons.prems by simp
    finally show ?thesis using Cons.prems(3) by simp
  qed simp
qed simp

lemma show_nat_length: "n < 10 ^ k \<Longrightarrow> 0 < k \<Longrightarrow> length (show_nat n) \<le> k"
proof (induction k arbitrary: n)
  case (Suc k)
  show ?case
  proof (cases "n < 10")
    case False
    then have "0 < k" using Suc.prems(1) by (cases k) auto
    moreover have "n div 10 < 10 ^ k" using Suc.prems(1) by (simp add: less_mult_imp_div_less mult.commute)
    ultimately show ?thesis using Suc.IH [of "n div 10"] False by (subst show_nat.simps) simp
  qed (subst show_nat.simps, simp)
qed simp

lemma read_digits_zeros: "read_digits 0 (replicate k (CHR ''0'') @ s) = read_digits 0 s"
  by (induction k) auto

lemma pad6_facts:
  assumes "seq_ok n"
  shows "length (pad6 n) = 6" "list_all py_isdigit (pad6 n)" "read_digits 0 (pad6 n) = n"
proof -
  have n: "0 \<le> n" "nat n < 10 ^ 6" using assms by (auto simp: seq_ok_def)
  then have l: "length (show_nat (nat n)) \<le> 6" using show_nat_length [of "nat n" 6] by simp
  then show "length (pad6 n) = 6" using n by (simp add: pad6_def Let_def)
  show "list_all py_isdigit (pad6 n)"
    using n show_nat_digits [of _ "nat n"] by (auto simp: pad6_def Let_def list_all_iff py_isdigit_def)
  show "read_digits 0 (pad6 n) = n" using n by (simp add: pad6_def Let_def read_digits_zeros)
qed

lemma pad6_less: "seq_ok a \<Longrightarrow> seq_ok b \<Longrightarrow> a < b \<Longrightarrow> pad6 a < pad6 b"
  by (rule digits_less [where acc = 0]) (simp_all add: pad6_facts)

lemma list_less_append: "length (s :: string) = length t \<Longrightarrow> s < t \<Longrightarrow> s @ u < t @ v"
  by (induction s t rule: list_induct2) auto

lemma list_less_prefix [simp]: "(p @ (s :: string) < p @ t) = (s < t)"
  by (induction p) auto

lemma message_sk_less:
  assumes "seq_ok (ms_sequence x)" "seq_ok (ms_sequence y)" "ms_sequence x < ms_sequence y"
  shows "message_sk x < message_sk y"
  unfolding message_sk_def list_less_prefix
  using pad6_less [OF assms] pad6_facts(1) assms by (intro list_less_append) simp_all

lemma step_sk_less:
  assumes "seq_ok (st_sequence x)" "seq_ok (st_sequence y)" "st_sequence x < st_sequence y"
  shows "step_sk x < step_sk y"
  unfolding step_sk_def list_less_prefix
  using pad6_less [OF assms] pad6_facts(1) assms by (intro list_less_append) simp_all

lemma stamp_less: "stamp_ok s \<Longrightarrow> stamp_ok t \<Longrightarrow> s < t \<Longrightarrow> s @ CHR ''#'' # u < t @ CHR ''#'' # v"
proof (induction s arbitrary: t)
  case Nil
  then show ?case by (cases t) (auto simp: stamp_ok_def)
next
  case (Cons c s)
  then obtain d t' where t: "t = d # t'" by (cases t) auto
  show ?case using Cons t by (cases "c = d") (auto simp: stamp_ok_def)
qed

lemma index_sk_less:
  assumes "stamp_ok (rn_started_at r)" "stamp_ok (rn_started_at q)"
    "(rn_started_at r, rn_id r) < (rn_started_at q, rn_id q)"
  shows "index_sk r < index_sk q"
  using assms stamp_less [of "rn_started_at r" "rn_started_at q" "rn_id r" "rn_id q"]
  by (cases "rn_started_at r = rn_started_at q") (auto simp: index_sk_def)

lemma stamp_unique:
  "stamp_ok s \<Longrightarrow> stamp_ok t \<Longrightarrow> s @ CHR ''#'' # u = t @ CHR ''#'' # v \<longleftrightarrow> s = t \<and> u = v"
proof (induction s arbitrary: t)
  case Nil then show ?case by (cases t) (auto simp: stamp_ok_def)
next
  case (Cons c s) then show ?case by (cases t) (auto simp: stamp_ok_def)
qed

lemma pad6_sk_inject:
  assumes "seq_ok a" "seq_ok b"
  shows "pad6 a @ u = pad6 b @ v \<longleftrightarrow> a = b \<and> u = v"
proof
  assume e: "pad6 a @ u = pad6 b @ v"
  have l: "length (pad6 a) = length (pad6 b)" using pad6_facts(1) assms by simp
  have *: "pad6 a = pad6 b \<and> u = v"
    by (rule append_eq_append_conv [THEN iffD1, OF disjI1 [OF l] e])
  have "read_digits 0 (pad6 a) = read_digits 0 (pad6 b)" using * by (rule conjE) (rule arg_cong)
  with * show "a = b \<and> u = v" unfolding pad6_facts(3) [OF assms(1)] pad6_facts(3) [OF assms(2)] by blast
qed simp

section \<open>The table of a repository\<close>

definition convs :: "mem_repo \<Rightarrow> conversation set" where "convs m = snd ` set (m_conversations m)"
definition msgs :: "mem_repo \<Rightarrow> message set" where "msgs m = (\<Union>vs \<in> snd ` set (m_messages m). set vs)"
definition runs :: "mem_repo \<Rightarrow> run set" where "runs m = snd ` set (m_runs m)"
definition steps :: "mem_repo \<Rightarrow> run_step set" where "steps m = (\<Union>vs \<in> snd ` set (m_run_steps m). set vs)"
definition jobs :: "mem_repo \<Rightarrow> job set" where "jobs m = snd ` set (m_jobs m)"

definition conv_entry :: "conversation \<Rightarrow> table_key \<times> item" where
  "conv_entry c = ((conv_pk (cv_id c), ''METADATA''), stored (conversation_item c))"
definition msg_entry :: "message \<Rightarrow> table_key \<times> item" where
  "msg_entry x = ((conv_pk (ms_conversation_id x), message_sk x), stored (message_item x))"
definition run_entry :: "run \<Rightarrow> table_key \<times> item" where
  "run_entry r = ((run_pk (rn_id r), ''METADATA''), stored (run_item r))"
definition index_entry :: "run \<Rightarrow> table_key \<times> item" where
  "index_entry r = ((conv_pk (rn_conversation_id r), index_sk r), stored (index_item r))"
definition step_entry :: "run_step \<Rightarrow> table_key \<times> item" where
  "step_entry x = ((run_pk (st_run_id x), step_sk x), stored (step_item x))"
definition job_entry :: "job \<Rightarrow> table_key \<times> item" where
  "job_entry j = ((job_pk (jb_id j), ''METADATA''), stored (job_item j))"

definition enc :: "mem_repo \<Rightarrow> (table_key \<times> item) set" where
  "enc m = conv_entry ` convs m \<union> msg_entry ` msgs m \<union> run_entry ` runs m \<union> index_entry ` runs m
     \<union> step_entry ` steps m \<union> job_entry ` jobs m"

definition table_rel :: "mem_repo \<Rightarrow> table \<Rightarrow> bool" where
  "table_rel m t \<longleftrightarrow> distinct (od_keys t) \<and> set t = enc m"

lemmas entry_defs = conv_entry_def msg_entry_def run_entry_def index_entry_def step_entry_def job_entry_def
lemmas sk_defs = message_sk_def step_sk_def index_sk_def
lemmas entity_sets = convs_def msgs_def runs_def steps_def jobs_def

lemma enc_keys:
  "((conv_pk cid, ''METADATA''), it) \<in> enc m \<longleftrightarrow> (\<exists>c \<in> convs m. cv_id c = cid \<and> it = stored (conversation_item c))"
  "((run_pk rid, ''METADATA''), it) \<in> enc m \<longleftrightarrow> (\<exists>r \<in> runs m. rn_id r = rid \<and> it = stored (run_item r))"
  "((job_pk jid, ''METADATA''), it) \<in> enc m \<longleftrightarrow> (\<exists>j \<in> jobs m. jb_id j = jid \<and> it = stored (job_item j))"
  "((conv_pk cid, message_sk x), it) \<in> enc m \<longleftrightarrow>
     (\<exists>y \<in> msgs m. ms_conversation_id y = cid \<and> message_sk y = message_sk x \<and> it = stored (message_item y))"
  "((conv_pk cid, index_sk r), it) \<in> enc m \<longleftrightarrow>
     (\<exists>q \<in> runs m. rn_conversation_id q = cid \<and> index_sk q = index_sk r \<and> it = stored (index_item q))"
  "((run_pk rid, step_sk z), it) \<in> enc m \<longleftrightarrow>
     (\<exists>y \<in> steps m. st_run_id y = rid \<and> step_sk y = step_sk z \<and> it = stored (step_item y))"
  by (auto simp: enc_def entry_defs sk_defs)

lemma enc_partition:
  "{e \<in> enc m. fst (fst e) = conv_pk cid \<and> startswith ''MSG#'' (snd (fst e))} = msg_entry ` {x \<in> msgs m. ms_conversation_id x = cid}"
  "{e \<in> enc m. fst (fst e) = conv_pk cid \<and> startswith ''RUN#'' (snd (fst e))} = index_entry ` {r \<in> runs m. rn_conversation_id r = cid}"
  "{e \<in> enc m. fst (fst e) = run_pk rid \<and> startswith ''STEP#'' (snd (fst e))} = step_entry ` {x \<in> steps m. st_run_id x = rid}"
  by (auto simp: enc_def entry_defs sk_defs startswith_def)

lemma table_get: "table_rel m t \<Longrightarrow> map_of t k = Some it \<longleftrightarrow> (k, it) \<in> enc m"
  by (auto simp: table_rel_def dest: map_of_SomeD)

lemma od_set_new: "map_of t k = None \<Longrightarrow> set (od_set k v t) = insert (k, v) (set t)"
  by (induction t) (auto split: if_splits)

lemma od_set_old:
  "distinct (od_keys t) \<Longrightarrow> map_of t k = Some w \<Longrightarrow> set (od_set k v t) = insert (k, v) (set t - {(k, w)})"
proof (induction t)
  case (Cons p t) then show ?case by (cases p) (auto simp: image_iff split: if_splits)
qed simp

lemma table_put_new:
  assumes "table_rel m t" "map_of t k = None" "enc m' = insert (k, stored it) (enc m)"
  shows "\<exists>t'. put_item False k it t = Some t' \<and> table_rel m' t'"
  using assms by (auto simp: put_item_def table_rel_def od_set_new)

lemma table_put_old:
  assumes "table_rel m t" "map_of t k = Some w" "enc m' = insert (k, stored it) (enc m - {(k, w)})"
  shows "\<exists>t'. put_item True k it t = Some t' \<and> table_rel m' t'"
  using assms by (auto simp: put_item_def table_rel_def od_set_old)

section \<open>Queries\<close>

lemma sort_key_unique:
  fixes f :: "'a \<Rightarrow> 'b :: linorder"
  assumes "sorted_wrt (<) (map f ys)" "set ys = set zs" "distinct (map f zs)"
  shows "sort_key f zs = ys"
proof -
  have s: "sorted (map f ys)" "distinct (map f ys)"
    using assms(1) by (auto simp: strict_sorted_iff)
  have "map f (sort_key f zs) = map f ys"
    by (rule sorted_distinct_set_unique) (use s assms in \<open>auto simp: distinct_map\<close>)
  moreover have "inj_on f (set (sort_key f zs) \<union> set ys)" using assms(2,3) by (simp add: distinct_map)
  ultimately show ?thesis by (rule map_inj_on)
qed

lemma query_entries:
  assumes t: "table_rel m t" and env: "db_page env = None"
    and ys: "set (map f xs) = {e \<in> enc m. fst (fst e) = pk \<and> startswith prefix (snd (fst e))}"
    and srt: "sorted_wrt (<) (map (\<lambda>x. snd (fst (f x))) xs)"
  shows "query_table env pk prefix limit t = take_limit limit (map (\<lambda>x. snd (f x)) xs)"
proof -
  let ?zs = "filter (\<lambda>(k, _). fst k = pk \<and> startswith prefix (snd k)) t"
  have "set ?zs = {e \<in> enc m. fst (fst e) = pk \<and> startswith prefix (snd (fst e))}"
    using t by (auto simp: table_rel_def)
  moreover have "distinct (map (\<lambda>(k, _). snd k) ?zs)"
    using t by (fastforce simp: table_rel_def distinct_map inj_on_def)
  ultimately have "sort_key (\<lambda>(k, _). snd k) ?zs = map f xs"
    using srt ys by (intro sort_key_unique) (simp_all add: case_prod_unfold comp_def)
  then show ?thesis using env by (simp add: query_table_def comp_def)
qed

lemma take_limit_map [simp]: "take_limit n (map f xs) = map f (take_limit n xs)"
  by (simp add: take_limit_def take_map split: option.splits)

lemma take_limit_subset: "x \<in> set (take_limit n xs) \<Longrightarrow> x \<in> set xs"
  by (auto simp: take_limit_def split: option.splits if_splits dest: in_set_takeD)

lemma try_map_map: "(\<And>x. x \<in> set xs \<Longrightarrow> f (g x) = Inr x) \<Longrightarrow> try_map f (map g xs) = Inr xs"
  by (induction xs) auto

lemma sorted_wrt_seq:
  assumes "sorted (map sq xs)" "distinct (map sq xs)" "\<forall>x \<in> set xs. seq_ok (sq x)"
    and "\<And>x y. seq_ok (sq x) \<Longrightarrow> seq_ok (sq y) \<Longrightarrow> (sq x :: int) < sq y \<Longrightarrow> sk x < (sk y :: string)"
  shows "sorted_wrt (<) (map sk xs)"
proof -
  have "sorted_wrt (<) (map sq xs)" using assms(1,2) by (simp add: strict_sorted_iff)
  then show ?thesis using assms(3,4) by (auto simp: sorted_wrt_map elim!: sorted_wrt_mono_rel [rotated])
qed

lemma grouped_members:
  assumes "grouped f sq ident d"
  shows "{v \<in> (\<Union>vs \<in> snd ` set d. set vs). f v = k} = set (od_get_list d k)"
proof -
  have d: "distinct (od_keys d)" using assms by (simp add: grouped_def)
  show ?thesis
  proof (intro set_eqI iffI)
    fix v assume "v \<in> {v \<in> (\<Union>vs \<in> snd ` set d. set vs). f v = k}"
    then obtain k' vs where kv: "(k', vs) \<in> set d" "v \<in> set vs" "f v = k" by auto
    then have "k' = k" using assms by (auto simp: grouped_def)
    with kv d show "v \<in> set (od_get_list d k)" by (auto simp: od_get_list_def)
  next
    fix v assume v: "v \<in> set (od_get_list d k)"
    then obtain vs where "map_of d k = Some vs" "v \<in> set vs" by (cases "map_of d k") (auto simp: od_get_list_def)
    with grouped_get(4) [OF assms, of k] v show "v \<in> {v \<in> (\<Union>vs \<in> snd ` set d. set vs). f v = k}"
      by (force dest: map_of_SomeD)
  qed
qed

section \<open>Simulation\<close>

definition calm :: dynamo_env where
  "calm = \<lparr>db_fails = (\<lambda>_. False), db_page = None\<rparr>"

definition job_storable :: "job \<Rightarrow> bool" where
  "job_storable j \<longleftrightarrow> storable (PDict (jb_metadata j)) \<and> storable (PDict (jb_params j)) \<and>
     (case jb_result j of None \<Rightarrow> True | Some d \<Rightarrow> storable (PDict d))"

fun op_storable :: "repo_op \<Rightarrow> bool" where
  "op_storable (Create_conversation c) = storable (PDict (cv_metadata c))"
| "op_storable (Add_message x) = storable (PDict (ms_metadata x))"
| "op_storable (Create_run r) = storable (PDict (rn_metadata r))"
| "op_storable (Update_run r) = storable (PDict (rn_metadata r))"
| "op_storable (Add_run_step x) = storable (PDict (st_metadata x))"
| "op_storable (Create_job j) = job_storable j"
| "op_storable (Update_job j) = job_storable j"
| "op_storable _ = True"

definition repo_client_ok :: "repo_op \<Rightarrow> mem_repo \<Rightarrow> bool" where
  "repo_client_ok p m \<longleftrightarrow> client_ok p m \<and> op_storable p"

definition mem_storable :: "mem_repo \<Rightarrow> bool" where
  "mem_storable m \<longleftrightarrow> (\<forall>c \<in> convs m. storable (PDict (cv_metadata c))) \<and> (\<forall>x \<in> msgs m. storable (PDict (ms_metadata x))) \<and>
     (\<forall>r \<in> runs m. storable (PDict (rn_metadata r))) \<and> (\<forall>x \<in> steps m. storable (PDict (st_metadata x))) \<and> (\<forall>j \<in> jobs m. job_storable j)"

definition sim :: "mem_repo \<Rightarrow> table \<Rightarrow> bool" where
  "sim m t \<longleftrightarrow> mem_inv m \<and> mem_storable m \<and> table_rel m t"

lemma calm_simps [simp]: "db_fails calm k = False" "db_page calm = None" "calm\<lparr>db_fails := (\<lambda>_. False)\<rparr> = calm"
  by (simp_all add: calm_def)

lemma item_nonempty [simp]:
  "stored (conversation_item c) \<noteq> []" "stored (run_item r) \<noteq> []" "stored (job_item j) \<noteq> []"
  by (simp_all add: stored_def drop_none_def conversation_item_def run_item_def job_item_def)

lemma lookup_iff:
  assumes "mem_inv m"
  shows "map_of (m_conversations m) cid = Some c \<longleftrightarrow> c \<in> convs m \<and> cv_id c = cid"
    "map_of (m_runs m) rid = Some r \<longleftrightarrow> r \<in> runs m \<and> rn_id r = rid"
    "map_of (m_jobs m) jid = Some j \<longleftrightarrow> j \<in> jobs m \<and> jb_id j = jid"
proof -
  have k: "id_keyed cv_id (m_conversations m)" "id_keyed rn_id (m_runs m)" "id_keyed jb_id (m_jobs m)"
    using assms by (simp_all add: mem_inv_def)
  show "map_of (m_conversations m) cid = Some c \<longleftrightarrow> c \<in> convs m \<and> cv_id c = cid"
    using id_keyed_values [OF k(1), of c] id_keyed_id [OF k(1), of cid c] by (auto simp: convs_def)
  show "map_of (m_runs m) rid = Some r \<longleftrightarrow> r \<in> runs m \<and> rn_id r = rid"
    using id_keyed_values [OF k(2), of r] id_keyed_id [OF k(2), of rid r] by (auto simp: runs_def)
  show "map_of (m_jobs m) jid = Some j \<longleftrightarrow> j \<in> jobs m \<and> jb_id j = jid"
    using id_keyed_values [OF k(3), of j] id_keyed_id [OF k(3), of jid j] by (auto simp: jobs_def)
qed

lemma table_metadata:
  assumes "sim m t"
  shows "map_of t (conv_pk cid, ''METADATA'') = map_option (\<lambda>c. stored (conversation_item c)) (map_of (m_conversations m) cid)"
    "map_of t (run_pk rid, ''METADATA'') = map_option (\<lambda>r. stored (run_item r)) (map_of (m_runs m) rid)"
    "map_of t (job_pk jid, ''METADATA'') = map_option (\<lambda>j. stored (job_item j)) (map_of (m_jobs m) jid)"
proof -
  have inv: "mem_inv m" and t: "table_rel m t" using assms by (auto simp: sim_def)
  have eq: "a = map_option h b" if "\<And>y. a = Some y \<longleftrightarrow> (\<exists>x. b = Some x \<and> y = h x)" for a b and h :: "'z \<Rightarrow> item"
    using that by (cases a; cases b) auto
  show "map_of t (conv_pk cid, ''METADATA'') = map_option (\<lambda>c. stored (conversation_item c)) (map_of (m_conversations m) cid)"
    by (rule eq) (auto simp: table_get [OF t] enc_keys lookup_iff [OF inv] simp del: append.simps)
  show "map_of t (run_pk rid, ''METADATA'') = map_option (\<lambda>r. stored (run_item r)) (map_of (m_runs m) rid)"
    by (rule eq) (auto simp: table_get [OF t] enc_keys lookup_iff [OF inv] simp del: append.simps)
  show "map_of t (job_pk jid, ''METADATA'') = map_option (\<lambda>j. stored (job_item j)) (map_of (m_jobs m) jid)"
    by (rule eq) (auto simp: table_get [OF t] enc_keys lookup_iff [OF inv] simp del: append.simps)
qed

lemma sim_storable:
  assumes "sim m t"
  shows "map_of (m_conversations m) cid = Some c \<Longrightarrow> conversation_of (stored (conversation_item c)) = Inr c"
    "map_of (m_runs m) rid = Some r \<Longrightarrow> run_of (stored (run_item r)) = Inr r"
    "map_of (m_jobs m) jid = Some j \<Longrightarrow> job_of (stored (job_item j)) = Inr j"
  using assms
  by (auto simp: sim_def lookup_iff mem_storable_def job_storable_def
      intro!: conversation_roundtrip run_roundtrip job_roundtrip split: option.splits)

lemma sim_get:
  assumes "sim m t"
  shows "dyn_get_conversation calm cid t = Inr (mem_get_conversation cid m)"
    "dyn_get_run calm rid t = Inr (mem_get_run rid m)" "dyn_get_job calm jid t = Inr (mem_get_job jid m)"
  by (auto simp: dyn_get_conversation_def dyn_get_run_def dyn_get_job_def mem_get_conversation_def mem_get_run_def
      mem_get_job_def table_metadata [OF assms] sim_storable [OF assms] simp del: append.simps split: option.splits)

lemma sim_list_messages:
  assumes "sim m t"
  shows "dyn_list_messages calm cid limit t = Inr (mem_list_messages cid limit m)"
proof -
  let ?xs = "od_get_list (m_messages m) cid"
  have g: "grouped ms_conversation_id ms_sequence ms_id (m_messages m)" and t: "table_rel m t"
    using assms by (simp_all add: sim_def mem_inv_def)
  have mem: "{x \<in> msgs m. ms_conversation_id x = cid} = set ?xs" unfolding msgs_def by (rule grouped_members [OF g])
  have "query_table calm (conv_pk cid) ''MSG#'' limit t = take_limit limit (map (\<lambda>x. snd (msg_entry x)) ?xs)"
  proof (rule query_entries [OF t])
    show "set (map msg_entry ?xs) = {e \<in> enc m. fst (fst e) = conv_pk cid \<and> startswith ''MSG#'' (snd (fst e))}"
      unfolding enc_partition mem by simp
    show "sorted_wrt (<) (map (\<lambda>x. snd (fst (msg_entry x))) ?xs)"
      using sorted_wrt_seq [of ms_sequence ?xs message_sk] grouped_get [OF g, of cid] message_sk_less
      by (simp add: msg_entry_def)
  qed simp
  moreover have "message_of (stored (message_item x)) = Inr x" if "x \<in> set (take_limit limit ?xs)" for x
    using assms mem take_limit_subset [OF that] by (intro message_roundtrip) (auto simp: sim_def mem_storable_def)
  ultimately show ?thesis
    using grouped_get(1) [OF g, of cid]
    by (simp add: dyn_list_messages_def mem_list_messages_def msg_entry_def try_map_map sorted_sort_id sort_key_id_if_sorted)
qed

lemma sim_list_run_steps:
  assumes "sim m t"
  shows "dyn_list_run_steps calm rid t = Inr (mem_list_run_steps rid m)"
proof -
  let ?xs = "od_get_list (m_run_steps m) rid"
  have g: "grouped st_run_id st_sequence st_id (m_run_steps m)" and t: "table_rel m t"
    using assms by (simp_all add: sim_def mem_inv_def)
  have mem: "{x \<in> steps m. st_run_id x = rid} = set ?xs" unfolding steps_def by (rule grouped_members [OF g])
  have "query_table calm (run_pk rid) ''STEP#'' None t = take_limit None (map (\<lambda>x. snd (step_entry x)) ?xs)"
  proof (rule query_entries [OF t])
    show "set (map step_entry ?xs) = {e \<in> enc m. fst (fst e) = run_pk rid \<and> startswith ''STEP#'' (snd (fst e))}"
      unfolding enc_partition mem by simp
    show "sorted_wrt (<) (map (\<lambda>x. snd (fst (step_entry x))) ?xs)"
      using sorted_wrt_seq [of st_sequence ?xs step_sk] grouped_get [OF g, of rid] step_sk_less
      by (simp add: step_entry_def)
  qed simp
  moreover have "step_of (stored (step_item x)) = Inr x" if "x \<in> set ?xs" for x
    using assms mem that by (intro step_roundtrip) (auto simp: sim_def mem_storable_def)
  ultimately show ?thesis
    using grouped_get(1) [OF g, of rid]
    by (simp add: dyn_list_run_steps_def mem_list_run_steps_def step_entry_def try_map_map take_limit_def sort_key_id_if_sorted)
qed

lemma read_runs_ok:
  assumes "\<And>r. r \<in> set rs \<Longrightarrow> dyn_get_run calm (rn_id r) t = Inr (Some r)"
  shows "read_runs calm i (map (\<lambda>r. stored (index_item r)) rs) t = Inr rs"
  using assms
proof (induction rs arbitrary: i)
  case (Cons r rs)
  have "need ''run_id'' (stored (index_item r)) = Inr (PStr (rn_id r))"
    by (simp add: need_def stored_get index_item_def)
  with Cons show ?case by simp
qed simp

lemma sim_list_runs:
  assumes "sim m t"
  shows "dyn_list_runs calm cid t = Inr (mem_list_runs cid m)"
proof -
  let ?key = "\<lambda>r. (rn_started_at r, rn_id r)"
  let ?rs = "mem_list_runs cid m"
  have k: "id_keyed rn_id (m_runs m)" and t: "table_rel m t" and inv: "mem_inv m"
    using assms by (simp_all add: sim_def mem_inv_def)
  have mem: "{r \<in> runs m. rn_conversation_id r = cid} = set ?rs" by (auto simp: runs_def mem_list_runs_def)
  have "distinct (map rn_id (map snd (m_runs m)))"
  proof -
    have e: "map rn_id (map snd (m_runs m)) = od_keys (m_runs m)"
      using k by (auto simp: id_keyed_def intro: map_cong)
    show ?thesis unfolding e using k by (simp add: id_keyed_def)
  qed
  then have "distinct (map rn_id (filter (\<lambda>r. rn_conversation_id r = cid) (map snd (m_runs m))))"
    by (rule distinct_map_filter)
  then have "distinct (map ?key ?rs)"
    by (auto simp: mem_list_runs_def distinct_map inj_on_def)
  then have "sorted_wrt (<) (map ?key ?rs)" by (simp add: strict_sorted_iff mem_list_runs_def)
  moreover have "stamp_ok (rn_started_at r)" if "r \<in> set ?rs" for r
    using that inv by (auto simp: mem_inv_def mem_list_runs_def)
  ultimately have srt: "sorted_wrt (<) (map index_sk ?rs)"
    by (auto simp: sorted_wrt_map intro: index_sk_less elim!: sorted_wrt_mono_rel [rotated] simp del: less_prod_simp)
  have "query_table calm (conv_pk cid) ''RUN#'' None t = take_limit None (map (\<lambda>r. snd (index_entry r)) ?rs)"
  proof (rule query_entries [OF t])
    show "set (map index_entry ?rs) = {e \<in> enc m. fst (fst e) = conv_pk cid \<and> startswith ''RUN#'' (snd (fst e))}"
      unfolding enc_partition mem by simp
    show "sorted_wrt (<) (map (\<lambda>r. snd (fst (index_entry r))) ?rs)" using srt by (simp add: index_entry_def)
  qed simp
  moreover have "dyn_get_run calm (rn_id r) t = Inr (Some r)" if "r \<in> set ?rs" for r
    using that mem lookup_iff(2) [OF inv, of "rn_id r" r] by (auto simp: sim_get [OF assms] mem_get_run_def)
  ultimately show ?thesis
    by (simp add: dyn_list_runs_def index_entry_def take_limit_def read_runs_ok)
qed

subsection \<open>Writes\<close>

lemma entity_update:
  assumes "mem_inv m"
  shows "convs (m\<lparr>m_conversations := od_set (cv_id c) c (m_conversations m)\<rparr>) = insert c {w \<in> convs m. cv_id w \<noteq> cv_id c}"
    "runs (m\<lparr>m_runs := od_set (rn_id r) r (m_runs m)\<rparr>) = insert r {w \<in> runs m. rn_id w \<noteq> rn_id r}"
    "jobs (m\<lparr>m_jobs := od_set (jb_id j) j (m_jobs m)\<rparr>) = insert j {w \<in> jobs m. jb_id w \<noteq> jb_id j}"
  using assms id_keyed_set_values [of cv_id "m_conversations m" c] id_keyed_set_values [of rn_id "m_runs m" r]
    id_keyed_set_values [of jb_id "m_jobs m" j]
  by (simp_all add: mem_inv_def convs_def runs_def jobs_def)

lemma group_update:
  assumes "distinct (od_keys d)" "set vs = insert v (set (od_get_list d k))"
  shows "(\<Union>ws \<in> snd ` set (od_set k vs d). set ws) = insert v (\<Union>ws \<in> snd ` set d. set ws)"
proof (cases "map_of d k")
  case None
  then show ?thesis using assms by (auto simp: od_set_new od_get_list_def)
next
  case (Some ws)
  then have "set (od_set k vs d) = insert (k, vs) (set d - {(k, ws)})" by (rule od_set_old [OF assms(1)])
  moreover have "(k, ws) \<in> set d" using Some by (rule map_of_SomeD)
  ultimately show ?thesis using assms(2) Some by (force simp: od_get_list_def)
qed

lemma group_touch:
  assumes "distinct (od_keys d)"
  shows "(\<Union>ws \<in> snd ` set (od_set k (od_get_list d k) d). set ws) = (\<Union>ws \<in> snd ` set d. set ws)"
proof (cases "map_of d k")
  case None
  then show ?thesis by (simp add: od_set_new od_get_list_def)
next
  case (Some ws)
  then have "set (od_set k ws d) = insert (k, ws) (set d - {(k, ws)})" by (rule od_set_old [OF assms])
  moreover have "(k, ws) \<in> set d" using Some by (rule map_of_SomeD)
  ultimately show ?thesis using Some by (force simp: od_get_list_def)
qed

lemma image_replace:
  assumes "\<And>w. w \<in> A \<Longrightarrow> g w = g y \<Longrightarrow> w = x" "\<And>w. h w = h x \<Longrightarrow> g w = g y"
  shows "h ` insert y {w \<in> A. g w \<noteq> g y} = insert (h y) (h ` A - {h x})"
proof -
  have "h ` {w \<in> A. g w \<noteq> g y} = h ` A - {h x}"
  proof (intro set_eqI iffI)
    fix e assume "e \<in> h ` {w \<in> A. g w \<noteq> g y}"
    then obtain w where "w \<in> A" "g w \<noteq> g y" "e = h w" by auto
    then show "e \<in> h ` A - {h x}" using assms(2) [of w] by auto
  next
    fix e assume "e \<in> h ` A - {h x}"
    then obtain w where w: "w \<in> A" "e = h w" "h w \<noteq> h x" by auto
    then have "g w \<noteq> g y" using assms(1) by blast
    with w show "e \<in> h ` {w \<in> A. g w \<noteq> g y}" by auto
  qed
  then show ?thesis by simp
qed

lemma Un_replace: "x \<notin> A \<Longrightarrow> A \<union> insert y (B - {x}) = insert y (A \<union> B - {x})"
  by blast

lemma lookup_unique:
  assumes "mem_inv m"
  shows "map_of (m_runs m) rid = Some r \<Longrightarrow> w \<in> runs m \<Longrightarrow> rn_id w = rid \<Longrightarrow> w = r"
    "map_of (m_jobs m) jid = Some j \<Longrightarrow> v \<in> jobs m \<Longrightarrow> jb_id v = jid \<Longrightarrow> v = j"
  using lookup_iff(2) [OF assms, of rid w] lookup_iff(3) [OF assms, of jid v] by auto

lemma no_such_entity:
  assumes "mem_inv m"
  shows "map_of (m_conversations m) cid = None \<Longrightarrow> {w \<in> convs m. cv_id w \<noteq> cid} = convs m"
    "map_of (m_runs m) rid = None \<Longrightarrow> {w \<in> runs m. rn_id w \<noteq> rid} = runs m"
    "map_of (m_jobs m) jid = None \<Longrightarrow> {w \<in> jobs m. jb_id w \<noteq> jid} = jobs m"
  using lookup_iff(1) [OF assms, of cid] lookup_iff(2) [OF assms, of rid] lookup_iff(3) [OF assms, of jid] by auto

lemma enc_sets_cong:
  "msgs (m\<lparr>m_conversations := a\<rparr>) = msgs m" "runs (m\<lparr>m_conversations := a\<rparr>) = runs m" "steps (m\<lparr>m_conversations := a\<rparr>) = steps m"
  "jobs (m\<lparr>m_conversations := a\<rparr>) = jobs m"
  "convs (m\<lparr>m_messages := b\<rparr>) = convs m" "runs (m\<lparr>m_messages := b\<rparr>) = runs m" "steps (m\<lparr>m_messages := b\<rparr>) = steps m"
  "jobs (m\<lparr>m_messages := b\<rparr>) = jobs m"
  "convs (m\<lparr>m_runs := c\<rparr>) = convs m" "msgs (m\<lparr>m_runs := c\<rparr>) = msgs m" "steps (m\<lparr>m_runs := c\<rparr>) = steps m"
  "jobs (m\<lparr>m_runs := c\<rparr>) = jobs m"
  "convs (m\<lparr>m_run_steps := d\<rparr>) = convs m" "msgs (m\<lparr>m_run_steps := d\<rparr>) = msgs m" "runs (m\<lparr>m_run_steps := d\<rparr>) = runs m"
  "jobs (m\<lparr>m_run_steps := d\<rparr>) = jobs m"
  "convs (m\<lparr>m_jobs := e\<rparr>) = convs m" "msgs (m\<lparr>m_jobs := e\<rparr>) = msgs m" "runs (m\<lparr>m_jobs := e\<rparr>) = runs m"
  "steps (m\<lparr>m_jobs := e\<rparr>) = steps m"
  by (simp_all add: entity_sets)

text \<open>A step of both repositories that ends in related states with the same result.\<close>

definition same_step :: "(state_exn + 'a) \<times> mem_repo \<Rightarrow> (state_exn + 'a) \<times> table \<Rightarrow> bool" where
  "same_step p q \<longleftrightarrow> fst p = fst q \<and> mem_storable (snd p) \<and> table_rel (snd p) (snd q)"

lemma same_step_error: "sim m t \<Longrightarrow> same_step (Inl e, m) (Inl e, t)"
  by (simp add: same_step_def sim_def)

lemma sim_create_conversation:
  assumes s: "sim m t" and ok: "op_storable (Create_conversation c)"
  shows "same_step (mem_create_conversation c m) (dyn_create_conversation calm c t)"
proof (cases "map_of (m_conversations m) (cv_id c)")
  case None
  have inv: "mem_inv m" and t: "table_rel m t" using s by (simp_all add: sim_def)
  let ?m = "m\<lparr>m_conversations := od_set (cv_id c) c (m_conversations m)\<rparr>"
  have cs: "convs ?m = insert c (convs m)" using entity_update(1) [OF inv] no_such_entity(1) [OF inv None] by simp
  have "enc ?m = insert ((conv_pk (cv_id c), ''METADATA''), stored (conversation_item c)) (enc m)"
    unfolding enc_def enc_sets_cong cs by (auto simp: conv_entry_def)
  from table_put_new [OF t _ this] None have "\<exists>t'. put_item False (conv_pk (cv_id c), ''METADATA'') (conversation_item c) t = Some t' \<and> table_rel ?m t'"
    by (simp add: table_metadata [OF s] del: append.simps)
  moreover have "mem_storable ?m" using s ok by (simp add: sim_def mem_storable_def enc_sets_cong cs)
  ultimately show ?thesis using None
    by (auto simp: same_step_def mem_create_conversation_def dyn_create_conversation_def)
next
  case (Some c')
  then show ?thesis using same_step_error [OF s] s
    by (simp add: mem_create_conversation_def dyn_create_conversation_def put_item_def table_metadata [OF s] del: append.simps)
qed

lemma sim_create_job:
  assumes s: "sim m t" and ok: "op_storable (Create_job j)"
  shows "same_step (mem_create_job j m) (dyn_create_job calm j t)"
proof (cases "map_of (m_jobs m) (jb_id j)")
  case None
  have inv: "mem_inv m" and t: "table_rel m t" using s by (simp_all add: sim_def)
  let ?m = "m\<lparr>m_jobs := od_set (jb_id j) j (m_jobs m)\<rparr>"
  have js: "jobs ?m = insert j (jobs m)" using entity_update(3) [OF inv] no_such_entity(3) [OF inv None] by simp
  have "enc ?m = insert ((job_pk (jb_id j), ''METADATA''), stored (job_item j)) (enc m)"
    unfolding enc_def enc_sets_cong js by (auto simp: job_entry_def)
  from table_put_new [OF t _ this] None have "\<exists>t'. put_item False (job_pk (jb_id j), ''METADATA'') (job_item j) t = Some t' \<and> table_rel ?m t'"
    by (simp add: table_metadata [OF s] del: append.simps)
  moreover have "mem_storable ?m" using s ok by (simp add: sim_def mem_storable_def enc_sets_cong js)
  ultimately show ?thesis using None by (auto simp: same_step_def mem_create_job_def dyn_create_job_def)
next
  case (Some j')
  then show ?thesis using same_step_error [OF s] s
    by (simp add: mem_create_job_def dyn_create_job_def put_item_def table_metadata [OF s] del: append.simps)
qed

lemma sim_update_job:
  assumes s: "sim m t" and ok: "op_storable (Update_job j)"
  shows "same_step (mem_update_job j m) (dyn_update_job calm j t)"
proof (cases "map_of (m_jobs m) (jb_id j)")
  case None
  then show ?thesis using same_step_error [OF s] s
    by (simp add: mem_update_job_def dyn_update_job_def put_item_def table_metadata [OF s] del: append.simps)
next
  case (Some j')
  have inv: "mem_inv m" and t: "table_rel m t" using s by (simp_all add: sim_def)
  let ?m = "m\<lparr>m_jobs := od_set (jb_id j) j (m_jobs m)\<rparr>"
  let ?k = "(job_pk (jb_id j), ''METADATA'')"
  have js: "jobs ?m = insert j {w \<in> jobs m. jb_id w \<noteq> jb_id j}" using entity_update(3) [OF inv] .
  have j': "j' \<in> jobs m" "jb_id j' = jb_id j" using Some lookup_iff(3) [OF inv, of "jb_id j"] by auto
  have "job_entry ` jobs ?m = insert (job_entry j) (job_entry ` jobs m - {job_entry j'})"
    unfolding js by (rule image_replace [OF lookup_unique(2) [OF inv Some]]) (use j'(2) in \<open>simp_all add: job_entry_def\<close>)
  then have je: "job_entry ` jobs ?m = insert (?k, stored (job_item j)) (job_entry ` jobs m - {(?k, stored (job_item j'))})"
    using j'(2) by (simp add: job_entry_def)
  have "enc ?m = insert (?k, stored (job_item j)) (enc m - {(?k, stored (job_item j'))})"
    unfolding enc_def enc_sets_cong je by (rule Un_replace) (auto simp: entry_defs)
  from table_put_old [OF t _ this] Some have "\<exists>t'. put_item True ?k (job_item j) t = Some t' \<and> table_rel ?m t'"
    by (simp add: table_metadata [OF s] del: append.simps)
  moreover have "mem_storable ?m" using s ok by (simp add: sim_def mem_storable_def enc_sets_cong js)
  ultimately show ?thesis using Some by (auto simp: same_step_def mem_update_job_def dyn_update_job_def)
qed

lemma sim_update_run:
  assumes s: "sim m t" and ok: "client_ok (Update_run r) m" "op_storable (Update_run r)"
  shows "same_step (mem_update_run r m) (dyn_update_run calm r t)"
proof (cases "map_of (m_runs m) (rn_id r)")
  case None
  then show ?thesis using same_step_error [OF s] s
    by (simp add: mem_update_run_def dyn_update_run_def put_item_def table_metadata [OF s] del: append.simps)
next
  case (Some r')
  have inv: "mem_inv m" and t: "table_rel m t" using s by (simp_all add: sim_def)
  let ?m = "m\<lparr>m_runs := od_set (rn_id r) r (m_runs m)\<rparr>"
  let ?k = "(run_pk (rn_id r), ''METADATA'')"
  have r': "r' \<in> runs m" "rn_id r' = rn_id r" using Some lookup_iff(2) [OF inv, of "rn_id r"] by auto
  note uniq = lookup_unique(1) [OF inv Some]
  have rs: "runs ?m = insert r {w \<in> runs m. rn_id w \<noteq> rn_id r}" using entity_update(2) [OF inv] .
  have ie: "index_entry r = index_entry r'"
    using ok(1) Some r'(2) by (simp add: index_entry_def index_sk_def index_item_def)
  have idx: "index_entry ` runs ?m = index_entry ` runs m"
  proof -
    have "runs m = insert r' {w \<in> runs m. rn_id w \<noteq> rn_id r}" using r'(1) uniq by blast
    then have "index_entry ` runs m = insert (index_entry r') (index_entry ` {w \<in> runs m. rn_id w \<noteq> rn_id r})" by (metis image_insert)
    then show ?thesis by (simp add: rs ie)
  qed
  have "run_entry ` runs ?m = insert (run_entry r) (run_entry ` runs m - {run_entry r'})"
    unfolding rs by (rule image_replace [OF uniq]) (use r'(2) in \<open>simp_all add: run_entry_def\<close>)
  then have re: "run_entry ` runs ?m = insert (?k, stored (run_item r)) (run_entry ` runs m - {(?k, stored (run_item r'))})"
    using r'(2) by (simp add: run_entry_def)
  have e: "enc w = (conv_entry ` convs w \<union> msg_entry ` msgs w \<union> step_entry ` steps w \<union> job_entry ` jobs w \<union> index_entry ` runs w)
      \<union> run_entry ` runs w" for w
    by (simp add: enc_def Un_ac)
  have "enc ?m = insert (?k, stored (run_item r)) (enc m - {(?k, stored (run_item r'))})"
    unfolding e enc_sets_cong re idx by (rule Un_replace) (auto simp: entry_defs sk_defs)
  from table_put_old [OF t _ this] Some have "\<exists>t'. put_item True ?k (run_item r) t = Some t' \<and> table_rel ?m t'"
    by (simp add: table_metadata [OF s] del: append.simps)
  moreover have "mem_storable ?m" using s ok by (simp add: sim_def mem_storable_def enc_sets_cong rs)
  ultimately show ?thesis using Some by (auto simp: same_step_def mem_update_run_def dyn_update_run_def)
qed

lemma sim_create_run:
  assumes s: "sim m t" and ok: "client_ok (Create_run r) m" "op_storable (Create_run r)"
  shows "same_step (mem_create_run r m) (dyn_create_run calm r t)"
proof (cases "map_of (m_conversations m) (rn_conversation_id r) = None \<or> map_of (m_runs m) (rn_id r) \<noteq> None")
  case True
  then show ?thesis using same_step_error [OF s] s
    by (auto simp: mem_create_run_def dyn_create_run_def sim_get [OF s] mem_get_conversation_def put_item_def
        table_metadata [OF s] simp del: append.simps split: option.splits)
next
  case False
  then have none: "map_of (m_runs m) (rn_id r) = None" by simp
  have inv: "mem_inv m" and t: "table_rel m t" using s by (simp_all add: sim_def)
  let ?m = "m\<lparr>m_runs := od_set (rn_id r) r (m_runs m)\<rparr>"
  let ?k = "(run_pk (rn_id r), ''METADATA'')" and ?k2 = "(conv_pk (rn_conversation_id r), index_sk r)"
  let ?t1 = "od_set ?k (stored (run_item r)) t"
  have rs: "runs ?m = insert r (runs m)" using entity_update(2) [OF inv] no_such_entity(2) [OF inv none] by simp
  have k1: "map_of t ?k = None" using none by (simp add: table_metadata [OF s] del: append.simps)
  have "index_sk q = index_sk r \<Longrightarrow> q \<in> runs m \<Longrightarrow> rn_id q = rn_id r" for q
    using stamp_unique [of "rn_started_at q" "rn_started_at r" "rn_id q" "rn_id r"] ok(1) inv
    by (auto simp: index_sk_def mem_inv_def runs_def)
  then have "(?k2, it) \<notin> enc m" for it
    using none lookup_iff(2) [OF inv, of "rn_id r"] by (auto simp: enc_keys simp del: append.simps)
  then have k2: "map_of t ?k2 = None" using table_get [OF t, of ?k2] by (cases "map_of t ?k2") simp_all
  have t1: "put_item False ?k (run_item r) t = Some ?t1" using k1 by (simp add: put_item_def)
  have t1k: "map_of ?t1 ?k2 = None" using k2 by simp
  have t2: "put_item False ?k2 (index_item r) ?t1 = Some (od_set ?k2 (stored (index_item r)) ?t1)"
    unfolding put_item_def t1k by simp
  have "table_rel ?m (od_set ?k2 (stored (index_item r)) ?t1)"
    using t unfolding table_rel_def od_set_new [OF t1k] od_set_new [OF k1] enc_def enc_sets_cong rs
    by (auto simp: run_entry_def index_entry_def)
  moreover have "mem_storable ?m" using s ok by (simp add: sim_def mem_storable_def enc_sets_cong rs)
  ultimately show ?thesis using False t1 t2
    by (auto simp: same_step_def mem_create_run_def dyn_create_run_def sim_get [OF s] mem_get_conversation_def simp del: append.simps)
qed

lemma sim_add_message:
  assumes s: "sim m t" and ok: "client_ok (Add_message x) m" "op_storable (Add_message x)"
  shows "same_step (mem_add_message x m) (dyn_add_message calm x t)"
proof -
  let ?cid = "ms_conversation_id x" and ?ys = "od_get_list (m_messages m) (ms_conversation_id x)"
  let ?k = "(conv_pk ?cid, message_sk x)"
  have inv: "mem_inv m" and t: "table_rel m t" and g: "grouped ms_conversation_id ms_sequence ms_id (m_messages m)"
    using s by (simp_all add: sim_def mem_inv_def)
  have mem: "{y \<in> msgs m. ms_conversation_id y = ?cid} = set ?ys" unfolding msgs_def by (rule grouped_members [OF g])
  have sk: "message_sk y = message_sk x \<longleftrightarrow> ms_id y = ms_id x" if "y \<in> set ?ys" for y
    using that ok(1) grouped_get(4) [OF g, of ?cid] pad6_sk_inject [of "ms_sequence y" "ms_sequence x"]
    by (auto simp: message_sk_def list_all_iff)
  have key: "map_of t ?k \<noteq> None \<longleftrightarrow> ms_id x \<in> ms_id ` set ?ys"
  proof -
    have "(\<exists>it. (?k, it) \<in> enc m) \<longleftrightarrow> (\<exists>y \<in> set ?ys. message_sk y = message_sk x)"
      unfolding enc_keys mem [symmetric] by auto
    also have "\<dots> \<longleftrightarrow> ms_id x \<in> ms_id ` set ?ys" using sk by (auto simp: image_iff) metis
    finally show ?thesis using table_get [OF t, of ?k] by (metis option.exhaust option.distinct(1))
  qed
  have d: "distinct (od_keys (m_messages m))" using g by (simp add: grouped_def)
  let ?m = "\<lambda>vs. m\<lparr>m_messages := od_set ?cid vs (m_messages m)\<rparr>"
  have new: "msgs (?m (sort_key ms_sequence (?ys @ [x]))) = insert x (msgs m)"
    using group_update [OF d, of "sort_key ms_sequence (?ys @ [x])" x ?cid] by (simp add: msgs_def)
  have same: "msgs (?m ?ys) = msgs m" using group_touch [OF d, of ?cid] by (simp add: msgs_def)
  consider (none) "map_of (m_conversations m) ?cid = None"
    | (dup) "map_of (m_conversations m) ?cid \<noteq> None" "ms_id x \<in> ms_id ` set ?ys"
    | (add) "map_of (m_conversations m) ?cid \<noteq> None" "ms_id x \<notin> ms_id ` set ?ys" by blast
  then show ?thesis
  proof cases
    case none
    then show ?thesis using same_step_error [OF s]
      by (simp add: mem_add_message_def dyn_add_message_def sim_get [OF s] mem_get_conversation_def)
  next
    case dup
    have "table_rel (?m ?ys) t" "mem_storable (?m ?ys)"
      using s by (simp_all add: sim_def table_rel_def mem_storable_def enc_def enc_sets_cong same)
    moreover have "put_item False ?k (message_item x) t = None" using key dup by (simp add: put_item_def)
    ultimately show ?thesis using dup
      by (auto simp: same_step_def mem_add_message_def dyn_add_message_def sim_get [OF s] mem_get_conversation_def Let_def simp del: append.simps)
  next
    case add
    let ?m' = "?m (sort_key ms_sequence (?ys @ [x]))"
    have "enc ?m' = insert (?k, stored (message_item x)) (enc m)"
      unfolding enc_def enc_sets_cong new by (auto simp: msg_entry_def)
    from table_put_new [OF t _ this] key add have "\<exists>t'. put_item False ?k (message_item x) t = Some t' \<and> table_rel ?m' t'" by simp
    moreover have "mem_storable ?m'" using s ok by (simp add: sim_def mem_storable_def enc_sets_cong new)
    ultimately show ?thesis using add
      by (auto simp: same_step_def mem_add_message_def dyn_add_message_def sim_get [OF s] mem_get_conversation_def Let_def simp del: append.simps)
  qed
qed

lemma sim_add_run_step:
  assumes s: "sim m t" and ok: "client_ok (Add_run_step x) m" "op_storable (Add_run_step x)"
  shows "same_step (mem_add_run_step x m) (dyn_add_run_step calm x t)"
proof -
  let ?rid = "st_run_id x" and ?ys = "od_get_list (m_run_steps m) (st_run_id x)"
  let ?k = "(run_pk ?rid, step_sk x)"
  have inv: "mem_inv m" and t: "table_rel m t" and g: "grouped st_run_id st_sequence st_id (m_run_steps m)"
    using s by (simp_all add: sim_def mem_inv_def)
  have mem: "{y \<in> steps m. st_run_id y = ?rid} = set ?ys" unfolding steps_def by (rule grouped_members [OF g])
  have sk: "step_sk y = step_sk x \<longleftrightarrow> st_id y = st_id x" if "y \<in> set ?ys" for y
    using that ok(1) grouped_get(4) [OF g, of ?rid] pad6_sk_inject [of "st_sequence y" "st_sequence x"]
    by (auto simp: step_sk_def list_all_iff)
  have key: "map_of t ?k \<noteq> None \<longleftrightarrow> st_id x \<in> st_id ` set ?ys"
  proof -
    have "(\<exists>it. (?k, it) \<in> enc m) \<longleftrightarrow> (\<exists>y \<in> set ?ys. step_sk y = step_sk x)"
      unfolding enc_keys mem [symmetric] by auto
    also have "\<dots> \<longleftrightarrow> st_id x \<in> st_id ` set ?ys" using sk by (auto simp: image_iff) metis
    finally show ?thesis using table_get [OF t, of ?k] by (metis option.exhaust option.distinct(1))
  qed
  have d: "distinct (od_keys (m_run_steps m))" using g by (simp add: grouped_def)
  let ?m = "\<lambda>vs. m\<lparr>m_run_steps := od_set ?rid vs (m_run_steps m)\<rparr>"
  have new: "steps (?m (sort_key st_sequence (?ys @ [x]))) = insert x (steps m)"
    using group_update [OF d, of "sort_key st_sequence (?ys @ [x])" x ?rid] by (simp add: steps_def)
  have same: "steps (?m ?ys) = steps m" using group_touch [OF d, of ?rid] by (simp add: steps_def)
  consider (none) "map_of (m_runs m) ?rid = None"
    | (dup) "map_of (m_runs m) ?rid \<noteq> None" "st_id x \<in> st_id ` set ?ys"
    | (add) "map_of (m_runs m) ?rid \<noteq> None" "st_id x \<notin> st_id ` set ?ys" by blast
  then show ?thesis
  proof cases
    case none
    then show ?thesis using same_step_error [OF s]
      by (simp add: mem_add_run_step_def dyn_add_run_step_def sim_get [OF s] mem_get_run_def)
  next
    case dup
    have "table_rel (?m ?ys) t" "mem_storable (?m ?ys)"
      using s by (simp_all add: sim_def table_rel_def mem_storable_def enc_def enc_sets_cong same)
    moreover have "put_item False ?k (step_item x) t = None" using key dup by (simp add: put_item_def)
    ultimately show ?thesis using dup
      by (auto simp: same_step_def mem_add_run_step_def dyn_add_run_step_def sim_get [OF s] mem_get_run_def Let_def simp del: append.simps)
  next
    case add
    let ?m' = "?m (sort_key st_sequence (?ys @ [x]))"
    have "enc ?m' = insert (?k, stored (step_item x)) (enc m)"
      unfolding enc_def enc_sets_cong new by (auto simp: step_entry_def)
    from table_put_new [OF t _ this] key add have "\<exists>t'. put_item False ?k (step_item x) t = Some t' \<and> table_rel ?m' t'" by simp
    moreover have "mem_storable ?m'" using s ok by (simp add: sim_def mem_storable_def enc_sets_cong new)
    ultimately show ?thesis using add
      by (auto simp: same_step_def mem_add_run_step_def dyn_add_run_step_def sim_get [OF s] mem_get_run_def Let_def simp del: append.simps)
  qed
qed

lemmas sim_writes = sim_create_conversation sim_add_message sim_create_run sim_update_run sim_add_run_step sim_create_job sim_update_job

lemma map_reply_same:
  "same_step p q \<Longrightarrow> fst (map_reply f q) = fst (map_reply f p) \<and> mem_storable (snd p) \<and> table_rel (snd p) (snd q)"
  by (auto simp: same_step_def map_reply_def)

lemma sim_op:
  assumes "sim m t" "repo_client_ok p m"
  shows "fst (dyn_op calm p t) = fst (mem_op p m) \<and> sim (snd (mem_op p m)) (snd (dyn_op calm p t))"
proof -
  have ok: "client_ok p m" "op_storable p" using assms(2) by (simp_all add: repo_client_ok_def)
  have "fst (dyn_op calm p t) = fst (mem_op p m) \<and> mem_storable (snd (mem_op p m)) \<and> table_rel (snd (mem_op p m)) (snd (dyn_op calm p t))"
  proof (cases p)
    case (Create_conversation c) with ok show ?thesis by (simp add: map_reply_same [OF sim_create_conversation [OF assms(1)]])
  next
    case (Add_message x) with ok show ?thesis by (simp add: map_reply_same [OF sim_add_message [OF assms(1)]])
  next
    case (Create_run r) with ok show ?thesis by (simp add: map_reply_same [OF sim_create_run [OF assms(1)]])
  next
    case (Update_run r) with ok show ?thesis by (simp add: map_reply_same [OF sim_update_run [OF assms(1)]])
  next
    case (Add_run_step x) with ok show ?thesis by (simp add: map_reply_same [OF sim_add_run_step [OF assms(1)]])
  next
    case (Create_job j) with ok show ?thesis by (simp add: map_reply_same [OF sim_create_job [OF assms(1)]])
  next
    case (Update_job j) with ok show ?thesis by (simp add: map_reply_same [OF sim_update_job [OF assms(1)]])
  qed (use assms(1) in \<open>simp_all add: sim_get [OF assms(1)] sim_list_messages [OF assms(1)] sim_list_runs [OF assms(1)]
         sim_list_run_steps [OF assms(1)] map_result_def sim_def\<close>)
  then show ?thesis using mem_inv_step [OF _ ok(1)] assms(1) by (simp add: sim_def)
qed

lemma sim_run:
  "sim m t \<Longrightarrow> repo_ok mem_op repo_client_ok ps m \<Longrightarrow> fst (repo_run (dyn_op calm) ps t) = fst (repo_run mem_op ps m)"
proof (induction ps arbitrary: m t)
  case (Cons p ps)
  then have "fst (dyn_op calm p t) = fst (mem_op p m)" "sim (snd (mem_op p m)) (snd (dyn_op calm p t))"
    using sim_op [of m t p] by simp_all
  with Cons show ?case by (simp add: Let_def case_prod_unfold)
qed simp


definition demo_conversation :: conversation where
  "demo_conversation = \<lparr>cv_id = ''c1'', cv_created_at = ''2026-01-01T00:00:00+00:00'', cv_updated_at = ''2026-01-01T00:00:00+00:00'',
     cv_title = None, cv_metadata = [(''score'', PFloat (1/4)), (''turns'', PInt 2)]\<rparr>"

definition demo_message :: "string \<Rightarrow> int \<Rightarrow> message" where
  "demo_message mid n = \<lparr>ms_id = mid, ms_conversation_id = ''c1'', ms_sequence = n, ms_role = ''user'', ms_content = ''hello'',
     ms_created_at = ''2026-01-01T00:00:01+00:00'', ms_metadata = []\<rparr>"

definition demo_app_run :: run where
  "demo_app_run = \<lparr>rn_id = ''r1'', rn_conversation_id = ''c1'', rn_message_id = Some ''m1'', rn_status = ''in_progress'', rn_model = None,
     rn_prompt_version = None, rn_started_at = ''2026-01-01T00:00:02+00:00'', rn_completed_at = None, rn_input_tokens = 0,
     rn_output_tokens = 0, rn_estimated_cost_usd = 0, rn_failure_code = None, rn_metadata = []\<rparr>"

definition demo_ops :: "repo_op list" where
  "demo_ops = [Add_message (demo_message ''m1'' 1), Create_conversation demo_conversation, Create_conversation demo_conversation,
     Get_conversation ''c1'', Add_message (demo_message ''m2'' 10), Add_message (demo_message ''m1'' 9), Add_message (demo_message ''m1'' 9),
     List_messages ''c1'' None, List_messages ''c1'' (Some 1), Create_run demo_app_run, Update_run (demo_app_run\<lparr>rn_status := ''completed''\<rparr>),
     List_runs ''c1'', Get_run ''nope'']"


text \<open>The durable repository keeps the contract of the interface on the tables it can reach.\<close>

definition dyn_valid :: "table \<Rightarrow> bool" where
  "dyn_valid t \<longleftrightarrow> (\<exists>m. sim m t)"

definition dyn_client_ok :: "repo_op \<Rightarrow> table \<Rightarrow> bool" where
  "dyn_client_ok p t \<longleftrightarrow> (\<forall>m. sim m t \<longrightarrow> repo_client_ok p m)"

interpretation durable: state_repository "dyn_op calm" dyn_valid dyn_client_ok
proof
  show "dyn_valid (snd (dyn_op calm p t))" if "dyn_valid t" "dyn_client_ok p t" for p t
    using that sim_op by (fastforce simp: dyn_valid_def dyn_client_ok_def)
  show "fst (dyn_op calm (Get_run (rn_id r)) t') = Inr (R_run (Some r))"
    if v: "dyn_valid t" "dyn_client_ok (Create_run r) t" and c: "dyn_op calm (Create_run r) t = (Inr x, t')" for t r x t'
  proof -
    obtain m where m: "sim m t" "repo_client_ok (Create_run r) m" using v by (auto simp: dyn_valid_def dyn_client_ok_def)
    have inv: "mem_inv m" "client_ok (Create_run r) m" using m by (simp_all add: sim_def repo_client_ok_def)
    obtain m' where m': "mem_op (Create_run r) m = (Inr x, m')" "sim m' t'"
      using sim_op [OF m] c by (cases "mem_op (Create_run r) m") (auto simp del: mem_op.simps dyn_op.simps)
    have "fst (mem_op (Get_run (rn_id r)) m') = Inr (R_run (Some r))" by (rule memory.get_created [OF inv m'(1)])
    then show ?thesis using sim_op [OF m'(2), of "Get_run (rn_id r)"] by (simp add: repo_client_ok_def)
  qed
  show "fst (dyn_op calm (Create_run r) t) \<in> {Inl (DuplicateEntity (rn_id r)), Inl (EntityNotFound (rn_conversation_id r))}"
    if v: "dyn_valid t" "dyn_client_ok (Create_run r) t" and g: "fst (dyn_op calm (Get_run (rn_id r)) t) = Inr (R_run (Some r'))" for t r r'
  proof -
    obtain m where m: "sim m t" "repo_client_ok (Create_run r) m" using v by (auto simp: dyn_valid_def dyn_client_ok_def)
    have inv: "mem_inv m" "client_ok (Create_run r) m" using m by (simp_all add: sim_def repo_client_ok_def)
    have "fst (mem_op (Get_run (rn_id r)) m) = Inr (R_run (Some r'))"
      using sim_op [OF m(1), of "Get_run (rn_id r)"] g by (simp add: repo_client_ok_def)
    from memory.create_existing [OF inv this] sim_op [OF m] show ?thesis by simp
  qed
  show "sorted (map ms_sequence ms)"
    if v: "dyn_valid t" and l: "fst (dyn_op calm (List_messages cid None) t) = Inr (R_messages ms)" for t cid ms
  proof -
    obtain m where m: "sim m t" using v by (auto simp: dyn_valid_def)
    have "fst (mem_op (List_messages cid None) m) = Inr (R_messages ms)"
      using sim_op [OF m, of "List_messages cid None"] l by (simp add: repo_client_ok_def)
    from memory.messages_ordered [OF _ this] m show ?thesis by (simp add: sim_def)
  qed
qed

section \<open>Where the implementations differ\<close>

text \<open>
  Outside the discipline the durable implementation departs from the reference. A message identifier
  is accepted again under another sequence number; beyond six digits the order of the sort keys is no
  longer the order of the numbers; and a query whose result does not fit into one page is cut off,
  since no further page is read.
\<close>

theorem same_message_twice:
  "let ops = [Create_conversation demo_conversation, Add_message (demo_message ''m1'' 1), Add_message (demo_message ''m1'' 2)]
   in fst (repo_run mem_op ops mem_empty) ! 2 = Inl (DuplicateEntity ''m1'') \<and>
      fst (repo_run (dyn_op calm) ops []) ! 2 = Inr (R_message (demo_message ''m1'' 2))"
  by code_simp

theorem seven_digit_sequence_misordered:
  "message_sk (demo_message ''m2'' 1000000) < message_sk (demo_message ''m1'' 999999)"
proof -
  have "show_nat 1000000 = ''1000000''" "show_nat 999999 = ''999999''"
    by (simp_all add: show_nat.simps digit_char_def char_of_def bit_iff_odd)
  then show ?thesis by (simp add: message_sk_def demo_message_def pad6_def less_char_def)
qed

theorem second_page_never_read:
  "let ops = [Create_conversation demo_conversation, Add_message (demo_message ''m1'' 1), Add_message (demo_message ''m2'' 2),
              List_messages ''c1'' None]
   in fst (repo_run (dyn_op (calm\<lparr>db_page := Some 1\<rparr>)) ops []) ! 3 = Inr (R_messages [demo_message ''m1'' 1])"
  by code_simp


end
