(* ===== verification/Qry_Spec.thy ===== *)
theory Qry_Spec
  imports Json
begin

text \<open>
  The typed, allowlisted query specification of the governed taxi analytics
  (\<open>services/dataset_spike/dataset_spike/query_spec.py\<close>): the closed enumerations, the validators
  that turn a caller's JSON into them, and the bounds every accepted specification keeps. A
  validation failure carries its code; the message is text for people and is left out.
  \<open>fromisoformat\<close> below says whether \<open>datetime.fromisoformat\<close> accepts a text.
\<close>

definition MAX_ROWS :: int where "MAX_ROWS = 64"
definition MAX_COLUMNS :: nat where "MAX_COLUMNS = 16"
definition MAX_LIST_LENGTH :: nat where "MAX_LIST_LENGTH = 16"
definition MAX_STRING_LENGTH :: nat where "MAX_STRING_LENGTH = 128"

text \<open>\<open>OverflowError\<close> is what \<open>float(value)\<close> raises for an integer beyond the range of a float.\<close>

datatype query_error = QueryValidationError string | OverflowError

definition to_envelope_code :: "query_error \<Rightarrow> string option" where
  "to_envelope_code e = (case e of QueryValidationError code \<Rightarrow> Some code | OverflowError \<Rightarrow> None)"

abbreviation fail :: "string \<Rightarrow> query_error + 'a" where
  "fail code \<equiv> Inl (QueryValidationError code)"

datatype dimension_name =
    D_PICKUP_DATE | D_PICKUP_HOUR | D_PICKUP_WEEKDAY | D_PICKUP_WEEK_PART | D_PICKUP_ZONE | D_PICKUP_BOROUGH
  | D_DROPOFF_ZONE | D_DROPOFF_BOROUGH | D_PAYMENT_TYPE | D_RATE_CODE | D_VENDOR | D_PASSENGER_COUNT_BUCKET
  | D_TRIP_DISTANCE_BUCKET | D_TRIP_DURATION_BUCKET | D_FARE_AMOUNT_BUCKET | D_AIRPORT_TRIP

fun dim_value :: "dimension_name \<Rightarrow> string" where
  "dim_value D_PICKUP_DATE = ''pickup_date''"
| "dim_value D_PICKUP_HOUR = ''pickup_hour''"
| "dim_value D_PICKUP_WEEKDAY = ''pickup_weekday''"
| "dim_value D_PICKUP_WEEK_PART = ''pickup_week_part''"
| "dim_value D_PICKUP_ZONE = ''pickup_zone''"
| "dim_value D_PICKUP_BOROUGH = ''pickup_borough''"
| "dim_value D_DROPOFF_ZONE = ''dropoff_zone''"
| "dim_value D_DROPOFF_BOROUGH = ''dropoff_borough''"
| "dim_value D_PAYMENT_TYPE = ''payment_type''"
| "dim_value D_RATE_CODE = ''rate_code''"
| "dim_value D_VENDOR = ''vendor''"
| "dim_value D_PASSENGER_COUNT_BUCKET = ''passenger_count_bucket''"
| "dim_value D_TRIP_DISTANCE_BUCKET = ''trip_distance_bucket''"
| "dim_value D_TRIP_DURATION_BUCKET = ''trip_duration_bucket''"
| "dim_value D_FARE_AMOUNT_BUCKET = ''fare_amount_bucket''"
| "dim_value D_AIRPORT_TRIP = ''airport_trip''"

definition all_dimensions :: "dimension_name list" where
  "all_dimensions = [D_PICKUP_DATE, D_PICKUP_HOUR, D_PICKUP_WEEKDAY, D_PICKUP_WEEK_PART, D_PICKUP_ZONE,
     D_PICKUP_BOROUGH, D_DROPOFF_ZONE, D_DROPOFF_BOROUGH, D_PAYMENT_TYPE, D_RATE_CODE, D_VENDOR,
     D_PASSENGER_COUNT_BUCKET, D_TRIP_DISTANCE_BUCKET, D_TRIP_DURATION_BUCKET, D_FARE_AMOUNT_BUCKET, D_AIRPORT_TRIP]"

datatype measure_name =
    M_TRIP_COUNT | M_TRIP_SHARE | M_AVERAGE_FARE | M_MEDIAN_FARE | M_AVERAGE_TIP | M_MEDIAN_TIP | M_TOTAL_TIPS
  | M_TIP_RATE | M_AVERAGE_TOTAL_AMOUNT | M_AVERAGE_DISTANCE | M_MEDIAN_DISTANCE | M_AVERAGE_DURATION_MINUTES
  | M_MEDIAN_DURATION_MINUTES | M_P95_DURATION_MINUTES | M_AVERAGE_PASSENGER_COUNT

fun mea_value :: "measure_name \<Rightarrow> string" where
  "mea_value M_TRIP_COUNT = ''trip_count''"
| "mea_value M_TRIP_SHARE = ''trip_share''"
| "mea_value M_AVERAGE_FARE = ''average_fare''"
| "mea_value M_MEDIAN_FARE = ''median_fare''"
| "mea_value M_AVERAGE_TIP = ''average_tip''"
| "mea_value M_MEDIAN_TIP = ''median_tip''"
| "mea_value M_TOTAL_TIPS = ''total_tips''"
| "mea_value M_TIP_RATE = ''tip_rate''"
| "mea_value M_AVERAGE_TOTAL_AMOUNT = ''average_total_amount''"
| "mea_value M_AVERAGE_DISTANCE = ''average_distance''"
| "mea_value M_MEDIAN_DISTANCE = ''median_distance''"
| "mea_value M_AVERAGE_DURATION_MINUTES = ''average_duration_minutes''"
| "mea_value M_MEDIAN_DURATION_MINUTES = ''median_duration_minutes''"
| "mea_value M_P95_DURATION_MINUTES = ''p95_duration_minutes''"
| "mea_value M_AVERAGE_PASSENGER_COUNT = ''average_passenger_count''"

definition all_measures :: "measure_name list" where
  "all_measures = [M_TRIP_COUNT, M_TRIP_SHARE, M_AVERAGE_FARE, M_MEDIAN_FARE, M_AVERAGE_TIP, M_MEDIAN_TIP,
     M_TOTAL_TIPS, M_TIP_RATE, M_AVERAGE_TOTAL_AMOUNT, M_AVERAGE_DISTANCE, M_MEDIAN_DISTANCE,
     M_AVERAGE_DURATION_MINUTES, M_MEDIAN_DURATION_MINUTES, M_P95_DURATION_MINUTES, M_AVERAGE_PASSENGER_COUNT]"

text \<open>The values of \<open>FilterField\<close>.\<close>

definition filter_fields :: "string list" where
  "filter_fields = [''start_timestamp'', ''end_timestamp'', ''pickup_hour_min'', ''pickup_hour_max'', ''pickup_weekday'',
     ''pickup_week_part'', ''pickup_zone'', ''pickup_borough'', ''dropoff_zone'', ''dropoff_borough'', ''payment_type'',
     ''rate_code'', ''vendor'', ''passenger_count_min'', ''passenger_count_max'', ''trip_distance_min'',
     ''trip_distance_max'', ''trip_duration_min'', ''trip_duration_max'', ''fare_amount_min'', ''fare_amount_max'',
     ''airport_trip'', ''valid_records_only'']"

definition WEEKDAY_NAMES :: "string list" where
  "WEEKDAY_NAMES = [''Monday'', ''Tuesday'', ''Wednesday'', ''Thursday'', ''Friday'', ''Saturday'', ''Sunday'']"
definition WEEK_PARTS :: "string list" where "WEEK_PARTS = [''weekday'', ''weekend'']"

definition PAYMENT_TYPE_CODES :: "(int, string) odict" where
  "PAYMENT_TYPE_CODES = [(0, ''unknown_or_flex_fare''), (1, ''credit_card''), (2, ''cash''), (3, ''no_charge''),
     (4, ''dispute''), (5, ''unknown_reserved''), (6, ''voided_trip'')]"

definition RATE_CODE_CODES :: "(int, string) odict" where
  "RATE_CODE_CODES = [(1, ''standard''), (2, ''jfk''), (3, ''newark''), (4, ''nassau_or_westchester''),
     (5, ''negotiated''), (6, ''group_ride''), (99, ''unknown'')]"

definition VENDOR_CODES :: "(int, string) odict" where
  "VENDOR_CODES = [(1, ''creative_mobile_technologies''), (2, ''curb_mobility''), (6, ''myle_technologies'')]"

definition DIMENSIONS_REQUIRING_ZONE_JOIN :: "dimension_name list" where
  "DIMENSIONS_REQUIRING_ZONE_JOIN = [D_PICKUP_ZONE, D_PICKUP_BOROUGH, D_DROPOFF_ZONE, D_DROPOFF_BOROUGH, D_AIRPORT_TRIP]"

record taxi_filters =
  start_timestamp :: "string option"
  end_timestamp :: "string option"
  pickup_hour_min :: "int option"
  pickup_hour_max :: "int option"
  pickup_weekday :: "string option"
  pickup_week_part :: "string option"
  pickup_zone :: "string option"
  pickup_borough :: "string option"
  dropoff_zone :: "string option"
  dropoff_borough :: "string option"
  payment_type :: "int option"
  rate_code :: "int option"
  vendor :: "int option"
  passenger_count_min :: "int option"
  passenger_count_max :: "int option"
  trip_distance_min :: "pyfloat option"
  trip_distance_max :: "pyfloat option"
  trip_duration_min :: "pyfloat option"
  trip_duration_max :: "pyfloat option"
  fare_amount_min :: "pyfloat option"
  fare_amount_max :: "pyfloat option"
  airport_trip :: "bool option"
  valid_records_only :: bool

definition default_filters :: taxi_filters where
  "default_filters = \<lparr>start_timestamp = None, end_timestamp = None, pickup_hour_min = None, pickup_hour_max = None,
     pickup_weekday = None, pickup_week_part = None, pickup_zone = None, pickup_borough = None, dropoff_zone = None,
     dropoff_borough = None, payment_type = None, rate_code = None, vendor = None, passenger_count_min = None,
     passenger_count_max = None, trip_distance_min = None, trip_distance_max = None, trip_duration_min = None,
     trip_duration_max = None, fare_amount_min = None, fare_amount_max = None, airport_trip = None, valid_records_only = True\<rparr>"

definition uses_zone_join :: "taxi_filters \<Rightarrow> bool" where
  "uses_zone_join f \<longleftrightarrow> pickup_zone f \<noteq> None \<or> pickup_borough f \<noteq> None \<or> dropoff_zone f \<noteq> None
     \<or> dropoff_borough f \<noteq> None \<or> airport_trip f \<noteq> None"

definition requires_zone_join :: "dimension_name list \<Rightarrow> taxi_filters option \<Rightarrow> bool" where
  "requires_zone_join dims f = (if list_ex (\<lambda>d. d \<in> set DIMENSIONS_REQUIRING_ZONE_JOIN) dims then True
     else case f of None \<Rightarrow> False | Some g \<Rightarrow> uses_zone_join g)"

record order_spec =
  ord_key :: string
  ord_direction :: string

record aggregate_query_spec =
  q_dimensions :: "dimension_name list"
  q_measures :: "measure_name list"
  q_filters :: "taxi_filters option"
  q_order_by :: "order_spec option"
  q_limit :: int

subsection \<open>Validators\<close>

definition validate_limit :: "json \<Rightarrow> query_error + int" where
  "validate_limit v = (case v of JInt i \<Rightarrow> if 1 \<le> i \<and> i \<le> MAX_ROWS then Inr i else fail ''invalid_limit''
     | _ \<Rightarrow> fail ''invalid_limit'')"

text \<open>\<open>Enum(value)\<close>: the member whose value is the text.\<close>

definition enum_of :: "('e \<Rightarrow> string) \<Rightarrow> 'e list \<Rightarrow> json \<Rightarrow> 'e option" where
  "enum_of val members v = (case v of JStr s \<Rightarrow> find (\<lambda>e. val e = s) members | _ \<Rightarrow> None)"

definition validate_dimension :: "json \<Rightarrow> query_error + dimension_name" where
  "validate_dimension v = (case enum_of dim_value all_dimensions v of Some d \<Rightarrow> Inr d | None \<Rightarrow> fail ''unknown_dimension'')"

definition validate_measure :: "json \<Rightarrow> query_error + measure_name" where
  "validate_measure v = (case enum_of mea_value all_measures v of Some m \<Rightarrow> Inr m | None \<Rightarrow> fail ''unknown_measure'')"

definition validate_names :: "string \<Rightarrow> (json \<Rightarrow> query_error + 'e) \<Rightarrow> json \<Rightarrow> query_error + 'e list" where
  "validate_names code one v = (case v of
     JArr xs \<Rightarrow> if xs = [] then fail code
       else if length xs > MAX_LIST_LENGTH then fail code
       else try_bind (try_map one xs) (\<lambda>es. if distinct es then Inr es else fail code)
   | _ \<Rightarrow> fail code)"

definition validate_dimensions :: "json \<Rightarrow> query_error + dimension_name list" where
  "validate_dimensions = validate_names ''invalid_dimensions'' validate_dimension"

definition validate_measures :: "json \<Rightarrow> query_error + measure_name list" where
  "validate_measures = validate_names ''invalid_measures'' validate_measure"

definition validate_column_budget :: "dimension_name list \<Rightarrow> measure_name list \<Rightarrow> query_error + unit" where
  "validate_column_budget dims ms = guard_or (length dims + length ms \<le> MAX_COLUMNS) (QueryValidationError ''invalid_column_budget'')"

definition validate_iso_timestamp :: "(string \<Rightarrow> bool) \<Rightarrow> json \<Rightarrow> query_error + string" where
  "validate_iso_timestamp fromisoformat v = (case v of
     JStr s \<Rightarrow> if s = [] \<or> length s > 32 then fail ''invalid_filter_value''
       else if fromisoformat s then Inr s else fail ''invalid_filter_value''
   | _ \<Rightarrow> fail ''invalid_filter_value'')"

definition validate_string :: "json \<Rightarrow> query_error + string" where
  "validate_string v = (case v of
     JStr s \<Rightarrow> if py_strip s = [] \<or> length s > MAX_STRING_LENGTH then fail ''invalid_filter_value'' else Inr (py_strip s)
   | _ \<Rightarrow> fail ''invalid_filter_value'')"

definition validate_int :: "json \<Rightarrow> query_error + int" where
  "validate_int v = (case v of JInt i \<Rightarrow> Inr i | _ \<Rightarrow> fail ''invalid_filter_value'')"

text \<open>The least integer that does not round to a finite float.\<close>

definition FLOAT_OVERFLOW :: int where "FLOAT_OVERFLOW = 2 ^ 1024 - 2 ^ 970"

definition validate_number :: "json \<Rightarrow> query_error + pyfloat" where
  "validate_number v = (case v of
     JInt i \<Rightarrow> if \<bar>i\<bar> \<ge> FLOAT_OVERFLOW then Inl OverflowError else Inr (of_int i)
   | JFloat x _ \<Rightarrow> Inr x
   | _ \<Rightarrow> fail ''invalid_filter_value'')"

text \<open>A filter field that may be absent or null.\<close>

definition optional :: "(json \<Rightarrow> query_error + 'a) \<Rightarrow> json \<Rightarrow> query_error + 'a option" where
  "optional one v = (if v = JNull then Inr None else try_bind (one v) (\<lambda>x. Inr (Some x)))"

definition checked :: "('a \<Rightarrow> bool) \<Rightarrow> (json \<Rightarrow> query_error + 'a) \<Rightarrow> json \<Rightarrow> query_error + 'a" where
  "checked p one v = try_bind (one v) (\<lambda>x. if p x then Inr x else fail ''invalid_filter_value'')"

definition validate_bool :: "json \<Rightarrow> query_error + bool" where
  "validate_bool v = (case v of JBool b \<Rightarrow> Inr b | _ \<Rightarrow> fail ''invalid_filter_value'')"

definition valid_hour :: "int \<Rightarrow> bool" where
  "valid_hour h \<longleftrightarrow> 0 \<le> h \<and> h \<le> 23"

definition validate_filter_fields :: "(string \<Rightarrow> bool) \<Rightarrow> jdict \<Rightarrow> query_error + taxi_filters" where
  "validate_filter_fields fromisoformat p =
     try_bind (optional (validate_iso_timestamp fromisoformat) (jget p ''start_timestamp'')) (\<lambda>st.
     try_bind (optional (validate_iso_timestamp fromisoformat) (jget p ''end_timestamp'')) (\<lambda>et.
     try_bind (optional (checked valid_hour validate_int) (jget p ''pickup_hour_min'')) (\<lambda>hmin.
     try_bind (optional (checked valid_hour validate_int) (jget p ''pickup_hour_max'')) (\<lambda>hmax.
     try_bind (optional (checked (\<lambda>s. s \<in> set WEEKDAY_NAMES) validate_string) (jget p ''pickup_weekday'')) (\<lambda>wd.
     try_bind (optional (checked (\<lambda>s. s \<in> set WEEK_PARTS) validate_string) (jget p ''pickup_week_part'')) (\<lambda>wp.
     try_bind (optional validate_string (jget p ''pickup_zone'')) (\<lambda>pz.
     try_bind (optional validate_string (jget p ''pickup_borough'')) (\<lambda>pb.
     try_bind (optional validate_string (jget p ''dropoff_zone'')) (\<lambda>dz.
     try_bind (optional validate_string (jget p ''dropoff_borough'')) (\<lambda>db.
     try_bind (optional (checked (\<lambda>i. i \<in> set (od_keys PAYMENT_TYPE_CODES)) validate_int) (jget p ''payment_type'')) (\<lambda>pt.
     try_bind (optional (checked (\<lambda>i. i \<in> set (od_keys RATE_CODE_CODES)) validate_int) (jget p ''rate_code'')) (\<lambda>rc.
     try_bind (optional (checked (\<lambda>i. i \<in> set (od_keys VENDOR_CODES)) validate_int) (jget p ''vendor'')) (\<lambda>vn.
     try_bind (optional validate_int (jget p ''passenger_count_min'')) (\<lambda>pmin.
     try_bind (optional validate_int (jget p ''passenger_count_max'')) (\<lambda>pmax.
     try_bind (optional validate_number (jget p ''trip_distance_min'')) (\<lambda>dmin.
     try_bind (optional validate_number (jget p ''trip_distance_max'')) (\<lambda>dmax.
     try_bind (optional validate_number (jget p ''trip_duration_min'')) (\<lambda>umin.
     try_bind (optional validate_number (jget p ''trip_duration_max'')) (\<lambda>umax.
     try_bind (optional validate_number (jget p ''fare_amount_min'')) (\<lambda>fmin.
     try_bind (optional validate_number (jget p ''fare_amount_max'')) (\<lambda>fmax.
     try_bind (optional validate_bool (jget p ''airport_trip'')) (\<lambda>ap.
     try_bind (validate_bool (jget_or p ''valid_records_only'' (JBool True))) (\<lambda>vr.
     Inr \<lparr>start_timestamp = st, end_timestamp = et, pickup_hour_min = hmin, pickup_hour_max = hmax, pickup_weekday = wd,
          pickup_week_part = wp, pickup_zone = pz, pickup_borough = pb, dropoff_zone = dz, dropoff_borough = db,
          payment_type = pt, rate_code = rc, vendor = vn, passenger_count_min = pmin, passenger_count_max = pmax,
          trip_distance_min = dmin, trip_distance_max = dmax, trip_duration_min = umin, trip_duration_max = umax,
          fare_amount_min = fmin, fare_amount_max = fmax, airport_trip = ap, valid_records_only = vr\<rparr>)))))))))))))))))))))))"

definition validate_filters :: "(string \<Rightarrow> bool) \<Rightarrow> json \<Rightarrow> query_error + taxi_filters" where
  "validate_filters fromisoformat payload = (case payload of
     JNull \<Rightarrow> Inr default_filters
   | JObj p \<Rightarrow> if list_all (\<lambda>k. k \<in> set filter_fields) (od_keys p) then validate_filter_fields fromisoformat p
       else fail ''unknown_filter''
   | _ \<Rightarrow> fail ''invalid_filters'')"

definition validate_order_by :: "json \<Rightarrow> string list \<Rightarrow> query_error + order_spec option" where
  "validate_order_by payload allowed = (case payload of
     JNull \<Rightarrow> Inr None
   | JObj p \<Rightarrow>
       if \<not> list_all (\<lambda>k. k = ''key'' \<or> k = ''direction'') (od_keys p) then fail ''invalid_order_by''
       else (case jget p ''key'' of
         JStr key \<Rightarrow>
           if key \<notin> set allowed then fail ''invalid_order_by''
           else (case jget_or p ''direction'' (JStr ''desc'') of
             JStr d \<Rightarrow> if d = ''asc'' \<or> d = ''desc'' then Inr (Some \<lparr>ord_key = key, ord_direction = d\<rparr>) else fail ''invalid_order_by''
           | _ \<Rightarrow> fail ''invalid_order_by'')
       | _ \<Rightarrow> fail ''invalid_order_by'')
   | _ \<Rightarrow> fail ''invalid_order_by'')"

definition validate_search :: "json \<Rightarrow> query_error + string option" where
  "validate_search v = (case v of
     JNull \<Rightarrow> Inr None
   | JStr s \<Rightarrow> if s = [] \<or> length s > MAX_STRING_LENGTH then fail ''invalid_search'' else Inr (Some s)
   | _ \<Rightarrow> fail ''invalid_search'')"

definition output_keys :: "dimension_name list \<Rightarrow> measure_name list \<Rightarrow> string list" where
  "output_keys dims ms = map dim_value dims @ map mea_value ms"

definition build_aggregate_spec ::
  "(string \<Rightarrow> bool) \<Rightarrow> json \<Rightarrow> json \<Rightarrow> json \<Rightarrow> json \<Rightarrow> json \<Rightarrow> query_error + aggregate_query_spec" where
  "build_aggregate_spec fromisoformat dimensions_v measures_v filters order_by limit =
     try_bind (validate_dimensions dimensions_v) (\<lambda>dims.
     try_bind (validate_measures measures_v) (\<lambda>ms.
     try_bind (validate_column_budget dims ms) (\<lambda>_.
     try_bind (validate_filters fromisoformat filters) (\<lambda>fs.
     try_bind (validate_order_by order_by (output_keys dims ms)) (\<lambda>ob.
     try_bind (validate_limit limit) (\<lambda>l.
     Inr \<lparr>q_dimensions = dims, q_measures = ms, q_filters = Some fs, q_order_by = ob, q_limit = l\<rparr>))))))"

lemmas query_defs [qry_defs] =
  validate_limit_def validate_dimension_def validate_measure_def validate_names_def validate_iso_timestamp_def
  validate_string_def validate_int_def validate_number_def validate_bool_def optional_def checked_def

subsection \<open>What an accepted specification satisfies\<close>

definition bounded_text :: "string \<Rightarrow> bool" where
  "bounded_text s \<longleftrightarrow> s \<noteq> [] \<and> py_strip s = s \<and> length s \<le> MAX_STRING_LENGTH"

definition opt_all :: "('a \<Rightarrow> bool) \<Rightarrow> 'a option \<Rightarrow> bool" where
  "opt_all p v = (case v of None \<Rightarrow> True | Some x \<Rightarrow> p x)"

definition filters_wf :: "(string \<Rightarrow> bool) \<Rightarrow> taxi_filters \<Rightarrow> bool" where
  "filters_wf isof f \<longleftrightarrow>
     opt_all (\<lambda>s. s \<noteq> [] \<and> length s \<le> 32 \<and> isof s) (start_timestamp f)
     \<and> opt_all (\<lambda>s. s \<noteq> [] \<and> length s \<le> 32 \<and> isof s) (end_timestamp f)
     \<and> opt_all valid_hour (pickup_hour_min f) \<and> opt_all valid_hour (pickup_hour_max f)
     \<and> opt_all (\<lambda>s. s \<in> set WEEKDAY_NAMES) (pickup_weekday f) \<and> opt_all (\<lambda>s. s \<in> set WEEK_PARTS) (pickup_week_part f)
     \<and> opt_all bounded_text (pickup_zone f) \<and> opt_all bounded_text (pickup_borough f)
     \<and> opt_all bounded_text (dropoff_zone f) \<and> opt_all bounded_text (dropoff_borough f)
     \<and> opt_all (\<lambda>i. i \<in> set (od_keys PAYMENT_TYPE_CODES)) (payment_type f)
     \<and> opt_all (\<lambda>i. i \<in> set (od_keys RATE_CODE_CODES)) (rate_code f) \<and> opt_all (\<lambda>i. i \<in> set (od_keys VENDOR_CODES)) (vendor f)"

definition spec_wf :: "(string \<Rightarrow> bool) \<Rightarrow> aggregate_query_spec \<Rightarrow> bool" where
  "spec_wf isof s \<longleftrightarrow> q_dimensions s \<noteq> [] \<and> distinct (q_dimensions s) \<and> q_measures s \<noteq> [] \<and> distinct (q_measures s)
     \<and> length (q_dimensions s) + length (q_measures s) \<le> MAX_COLUMNS \<and> 1 \<le> q_limit s \<and> q_limit s \<le> MAX_ROWS
     \<and> (\<exists>f. q_filters s = Some f \<and> filters_wf isof f)
     \<and> opt_all (\<lambda>k. ord_key k \<in> set (output_keys (q_dimensions s) (q_measures s))
          \<and> (ord_direction k = ''asc'' \<or> ord_direction k = ''desc'')) (q_order_by s)"

lemma strip_idem [simp]: "py_strip (py_strip s) = py_strip s"
proof -
  have h: "dropWhile p (dropWhile p xs) = dropWhile p xs" for p :: "char \<Rightarrow> bool" and xs by (induction xs) auto
  let ?a = "dropWhile py_isspace s"
  have "dropWhile py_isspace (py_strip s) = py_strip s"
  proof (cases "py_strip s")
    case (Cons c t)
    have "\<exists>w. ?a = py_strip s @ w" unfolding py_strip_def
      by (metis takeWhile_dropWhile_id rev_append rev_rev_ident)
    then obtain w where "dropWhile py_isspace s = c # t @ w" using Cons by auto
    then have "\<not> py_isspace c" by (simp add: dropWhile_eq_Cons_conv)
    with Cons show ?thesis by simp
  qed simp
  then show ?thesis by (subst py_strip_def) (simp add: py_strip_def h)
qed

lemma strip_length: "length (py_strip s) \<le> length s"
  unfolding py_strip_def by (metis length_rev length_dropWhile_le order_trans)

lemma optional_ok: "optional one v = Inr r \<Longrightarrow> (\<And>x. one v = Inr x \<Longrightarrow> p x) \<Longrightarrow> opt_all p r"
  by (auto simp: optional_def opt_all_def split: if_splits)

lemma checked_ok: "checked p one v = Inr x \<Longrightarrow> p x"
  by (auto simp: checked_def split: if_splits)

lemma string_ok: "validate_string v = Inr x \<Longrightarrow> bounded_text x"
proof (cases v)
  case (JStr s)
  assume v: "validate_string v = Inr x"
  have c: "\<not> (py_strip s = [] \<or> length s > MAX_STRING_LENGTH)"
    using v unfolding validate_string_def JStr json.case by (metis sum.distinct(1))
  then have "x = py_strip s" using v unfolding validate_string_def JStr json.case by simp
  moreover have "length (py_strip s) \<le> MAX_STRING_LENGTH" using c strip_length [of s] by linarith
  ultimately show ?thesis using c by (simp add: bounded_text_def)
qed (simp_all add: validate_string_def)

lemma iso_ok: "validate_iso_timestamp isof v = Inr x \<Longrightarrow> x \<noteq> [] \<and> length x \<le> 32 \<and> isof x"
  by (auto simp: validate_iso_timestamp_def split: json.splits if_splits)

lemma filter_fields_ok: "validate_filter_fields isof p = Inr f \<Longrightarrow> filters_wf isof f"
  apply (simp only: validate_filter_fields_def try_bind_eq_Inr sum.inject)
  apply (elim exE conjE)
  apply (drule sym [of _ f])
  apply (simp only: filters_wf_def taxi_filters.select_convs)
  apply (intro conjI; erule optional_ok; (drule checked_ok | drule string_ok | drule iso_ok); assumption)
  done

lemma filters_ok: "validate_filters isof v = Inr f \<Longrightarrow> filters_wf isof f"
  by (auto simp: validate_filters_def intro: filter_fields_ok split: json.splits if_splits)
    (simp add: default_filters_def filters_wf_def opt_all_def)

lemma names_ok: "validate_names code one v = Inr es \<Longrightarrow> es \<noteq> [] \<and> distinct es"
  by (auto simp: validate_names_def dest: try_map_length split: json.splits if_splits)

lemma order_ok: "validate_order_by v allowed = Inr ob \<Longrightarrow>
    opt_all (\<lambda>k. ord_key k \<in> set allowed \<and> (ord_direction k = ''asc'' \<or> ord_direction k = ''desc'')) ob"
  by (auto simp: validate_order_by_def opt_all_def split: json.splits if_splits)

lemma limit_ok: "validate_limit v = Inr l \<Longrightarrow> 1 \<le> l \<and> l \<le> MAX_ROWS"
  by (auto simp: validate_limit_def split: json.splits if_splits)

lemma accepted_spec_wf:
  assumes "build_aggregate_spec isof dims ms fs ob lm = Inr s"
  shows "spec_wf isof s"
proof -
  obtain d m f k l where "validate_dimensions dims = Inr d" "validate_measures ms = Inr m" "validate_column_budget d m = Inr ()"
    "validate_filters isof fs = Inr f" "validate_order_by ob (output_keys d m) = Inr k" "validate_limit lm = Inr l"
    and s: "s = \<lparr>q_dimensions = d, q_measures = m, q_filters = Some f, q_order_by = k, q_limit = l\<rparr>"
    using assms unfolding build_aggregate_spec_def try_bind_eq_Inr by auto
  then show ?thesis
    using names_ok [where es = d] names_ok [where es = m] order_ok limit_ok filters_ok
    unfolding s spec_wf_def validate_dimensions_def validate_measures_def validate_column_budget_def guard_or_eq_Inr
    by simp
qed

text \<open>
  C35. Every specification the validators accept is within the bounds the module promises: between 1
  and 64 rows, at most 16 columns, at least one dimension and one measure and none twice, hours and
  codes from the closed dictionaries, bounded texts, and an order key that is one of the query's own
  output columns.
\<close>

theorem build_aggregate_spec_sound:
  "build_aggregate_spec isof dims ms fs ob lm = Inr s \<Longrightarrow> spec_wf isof s"
  by (rule accepted_spec_wf)

subsection \<open>The canonical request of a specification\<close>

definition json_opt :: "('a \<Rightarrow> json) \<Rightarrow> 'a option \<Rightarrow> json" where
  "json_opt g v = (case v of None \<Rightarrow> JNull | Some x \<Rightarrow> g x)"

definition filters_payload :: "(pyfloat \<Rightarrow> string) \<Rightarrow> taxi_filters \<Rightarrow> jdict" where
  "filters_payload rp f =
     [(''start_timestamp'', json_opt JStr (start_timestamp f)), (''end_timestamp'', json_opt JStr (end_timestamp f)),
      (''pickup_hour_min'', json_opt JInt (pickup_hour_min f)), (''pickup_hour_max'', json_opt JInt (pickup_hour_max f)),
      (''pickup_weekday'', json_opt JStr (pickup_weekday f)), (''pickup_week_part'', json_opt JStr (pickup_week_part f)),
      (''pickup_zone'', json_opt JStr (pickup_zone f)), (''pickup_borough'', json_opt JStr (pickup_borough f)),
      (''dropoff_zone'', json_opt JStr (dropoff_zone f)), (''dropoff_borough'', json_opt JStr (dropoff_borough f)),
      (''payment_type'', json_opt JInt (payment_type f)), (''rate_code'', json_opt JInt (rate_code f)),
      (''vendor'', json_opt JInt (vendor f)), (''passenger_count_min'', json_opt JInt (passenger_count_min f)),
      (''passenger_count_max'', json_opt JInt (passenger_count_max f)),
      (''trip_distance_min'', json_opt (\<lambda>x. JFloat x (rp x)) (trip_distance_min f)),
      (''trip_distance_max'', json_opt (\<lambda>x. JFloat x (rp x)) (trip_distance_max f)),
      (''trip_duration_min'', json_opt (\<lambda>x. JFloat x (rp x)) (trip_duration_min f)),
      (''trip_duration_max'', json_opt (\<lambda>x. JFloat x (rp x)) (trip_duration_max f)),
      (''fare_amount_min'', json_opt (\<lambda>x. JFloat x (rp x)) (fare_amount_min f)),
      (''fare_amount_max'', json_opt (\<lambda>x. JFloat x (rp x)) (fare_amount_max f)),
      (''airport_trip'', json_opt JBool (airport_trip f)), (''valid_records_only'', JBool (valid_records_only f))]"

definition order_payload :: "order_spec \<Rightarrow> json" where
  "order_payload k = JObj [(''key'', JStr (ord_key k)), (''direction'', JStr (ord_direction k))]"

lemma optional_json_opt: "opt_all (\<lambda>x. one (g x) = Inr x \<and> g x \<noteq> JNull) v \<Longrightarrow> optional one (json_opt g v) = Inr v"
  by (auto simp: optional_def json_opt_def opt_all_def split: option.splits)

lemma opt_all_mono: "opt_all p v \<Longrightarrow> (\<And>x. p x \<Longrightarrow> q x) \<Longrightarrow> opt_all q v"
  by (auto simp: opt_all_def split: option.splits)

lemma opt_all_True: "opt_all (\<lambda>x. True) v"
  by (simp add: opt_all_def split: option.splits)

lemma string_back: "bounded_text x \<Longrightarrow> validate_string (JStr x) = Inr x"
  unfolding bounded_text_def validate_string_def json.case by (metis linorder_not_le)

lemma names_bounded:
  assumes "x \<in> set WEEKDAY_NAMES \<or> x \<in> set WEEK_PARTS"
  shows "bounded_text x"
proof -
  have "list_all bounded_text (WEEKDAY_NAMES @ WEEK_PARTS)" by code_simp
  with assms show ?thesis by (auto simp: list_all_iff)
qed

lemma checked_back: "one v = Inr x \<Longrightarrow> p x \<Longrightarrow> checked p one v = Inr x"
  by (simp add: checked_def)

lemma filters_payload_get:
  "jget (filters_payload rp f) ''start_timestamp'' = json_opt JStr (start_timestamp f)"
  "jget (filters_payload rp f) ''end_timestamp'' = json_opt JStr (end_timestamp f)"
  "jget (filters_payload rp f) ''pickup_hour_min'' = json_opt JInt (pickup_hour_min f)"
  "jget (filters_payload rp f) ''pickup_hour_max'' = json_opt JInt (pickup_hour_max f)"
  "jget (filters_payload rp f) ''pickup_weekday'' = json_opt JStr (pickup_weekday f)"
  "jget (filters_payload rp f) ''pickup_week_part'' = json_opt JStr (pickup_week_part f)"
  "jget (filters_payload rp f) ''pickup_zone'' = json_opt JStr (pickup_zone f)"
  "jget (filters_payload rp f) ''pickup_borough'' = json_opt JStr (pickup_borough f)"
  "jget (filters_payload rp f) ''dropoff_zone'' = json_opt JStr (dropoff_zone f)"
  "jget (filters_payload rp f) ''dropoff_borough'' = json_opt JStr (dropoff_borough f)"
  "jget (filters_payload rp f) ''payment_type'' = json_opt JInt (payment_type f)"
  "jget (filters_payload rp f) ''rate_code'' = json_opt JInt (rate_code f)"
  "jget (filters_payload rp f) ''vendor'' = json_opt JInt (vendor f)"
  "jget (filters_payload rp f) ''passenger_count_min'' = json_opt JInt (passenger_count_min f)"
  "jget (filters_payload rp f) ''passenger_count_max'' = json_opt JInt (passenger_count_max f)"
  "jget (filters_payload rp f) ''trip_distance_min'' = json_opt (\<lambda>x. JFloat x (rp x)) (trip_distance_min f)"
  "jget (filters_payload rp f) ''trip_distance_max'' = json_opt (\<lambda>x. JFloat x (rp x)) (trip_distance_max f)"
  "jget (filters_payload rp f) ''trip_duration_min'' = json_opt (\<lambda>x. JFloat x (rp x)) (trip_duration_min f)"
  "jget (filters_payload rp f) ''trip_duration_max'' = json_opt (\<lambda>x. JFloat x (rp x)) (trip_duration_max f)"
  "jget (filters_payload rp f) ''fare_amount_min'' = json_opt (\<lambda>x. JFloat x (rp x)) (fare_amount_min f)"
  "jget (filters_payload rp f) ''fare_amount_max'' = json_opt (\<lambda>x. JFloat x (rp x)) (fare_amount_max f)"
  "jget (filters_payload rp f) ''airport_trip'' = json_opt JBool (airport_trip f)"
  "jget_or (filters_payload rp f) ''valid_records_only'' (JBool True) = JBool (valid_records_only f)"
  by (simp_all add: filters_payload_def jget_def jget_or_def)

lemma opt_back:
  "opt_all (\<lambda>s. s \<noteq> [] \<and> length s \<le> 32 \<and> isof s) v \<Longrightarrow> optional (validate_iso_timestamp isof) (json_opt JStr v) = Inr v"
  "opt_all p i \<Longrightarrow> optional (checked p validate_int) (json_opt JInt i) = Inr i"
  "optional validate_int (json_opt JInt i) = Inr i"
  "opt_all bounded_text v \<Longrightarrow> optional validate_string (json_opt JStr v) = Inr v"
  "optional validate_number (json_opt (\<lambda>x. JFloat x (rp x)) x) = Inr x"
  "optional validate_bool (json_opt JBool b) = Inr b"
  "opt_all (\<lambda>s. s \<in> set WEEKDAY_NAMES) v \<Longrightarrow> optional (checked (\<lambda>s. s \<in> set WEEKDAY_NAMES) validate_string) (json_opt JStr v) = Inr v"
  "opt_all (\<lambda>s. s \<in> set WEEK_PARTS) v \<Longrightarrow> optional (checked (\<lambda>s. s \<in> set WEEK_PARTS) validate_string) (json_opt JStr v) = Inr v"
  by (rule optional_json_opt,
      auto intro!: checked_back string_back names_bounded elim!: opt_all_mono
        simp: validate_iso_timestamp_def validate_int_def validate_number_def validate_bool_def opt_all_def split: option.splits)+


lemma filters_back: "filters_wf isof f \<Longrightarrow> validate_filters isof (JObj (filters_payload rp f)) = Inr f"
proof -
  assume "filters_wf isof f"
  then have "validate_filter_fields isof (filters_payload rp f) = Inr f"
    unfolding filters_wf_def by (simp add: validate_filter_fields_def filters_payload_get opt_back) (simp add: validate_bool_def)
  moreover have "list_all (\<lambda>k. k \<in> set filter_fields) (od_keys (filters_payload rp f))"
    by (simp add: filters_payload_def filter_fields_def)
  ultimately show ?thesis by (simp add: validate_filters_def)
qed

lemma dimension_back: "validate_dimension (JStr (dim_value d)) = Inr d"
  by (cases d) (simp_all add: validate_dimension_def enum_of_def all_dimensions_def)

lemma measure_back: "validate_measure (JStr (mea_value m)) = Inr m"
  by (cases m) (simp_all add: validate_measure_def enum_of_def all_measures_def)

lemma names_back:
  assumes "\<And>e. one (JStr (val e)) = Inr e" "es \<noteq> []" "distinct es" "length es \<le> MAX_LIST_LENGTH"
  shows "validate_names code one (JArr (map (\<lambda>e. JStr (val e)) es)) = Inr es"
proof -
  have "try_map one (map (\<lambda>e. JStr (val e)) es) = Inr es" by (induction es) (simp_all add: assms(1))
  then show ?thesis using assms(2-4) by (simp add: validate_names_def)
qed

lemma order_back:
  "opt_all (\<lambda>k. ord_key k \<in> set allowed \<and> (ord_direction k = ''asc'' \<or> ord_direction k = ''desc'')) ob \<Longrightarrow>
   validate_order_by (json_opt order_payload ob) allowed = Inr ob"
  by (auto simp: opt_all_def json_opt_def order_payload_def validate_order_by_def jget_def jget_or_def split: option.splits)

text \<open>
  Nothing the specification can express is out of a caller's reach, and nothing is changed on
  the way in: the canonical JSON of any well-formed specification is accepted and validates to that
  very specification.
\<close>

theorem spec_roundtrip:
  assumes "spec_wf isof s" "q_filters s = Some f"
  shows "build_aggregate_spec isof (JArr (map (\<lambda>d. JStr (dim_value d)) (q_dimensions s)))
     (JArr (map (\<lambda>m. JStr (mea_value m)) (q_measures s))) (JObj (filters_payload rp f))
     (json_opt order_payload (q_order_by s)) (JInt (q_limit s)) = Inr s"
proof -
  have wf: "q_dimensions s \<noteq> []" "distinct (q_dimensions s)" "q_measures s \<noteq> []" "distinct (q_measures s)"
    "length (q_dimensions s) + length (q_measures s) \<le> MAX_COLUMNS" "1 \<le> q_limit s" "q_limit s \<le> MAX_ROWS" "filters_wf isof f"
    "opt_all (\<lambda>k. ord_key k \<in> set (output_keys (q_dimensions s) (q_measures s))
          \<and> (ord_direction k = ''asc'' \<or> ord_direction k = ''desc'')) (q_order_by s)"
    using assms by (auto simp: spec_wf_def)
  have len: "length (q_dimensions s) \<le> MAX_LIST_LENGTH" "length (q_measures s) \<le> MAX_LIST_LENGTH"
    using wf(5) by (simp_all add: MAX_COLUMNS_def MAX_LIST_LENGTH_def)
  have "validate_dimensions (JArr (map (\<lambda>d. JStr (dim_value d)) (q_dimensions s))) = Inr (q_dimensions s)"
    unfolding validate_dimensions_def by (rule names_back [OF dimension_back wf(1,2) len(1)])
  moreover have "validate_measures (JArr (map (\<lambda>m. JStr (mea_value m)) (q_measures s))) = Inr (q_measures s)"
    unfolding validate_measures_def by (rule names_back [OF measure_back wf(3,4) len(2)])
  moreover have "validate_limit (JInt (q_limit s)) = Inr (q_limit s)" using wf(6,7) by (simp add: validate_limit_def)
  ultimately show ?thesis
    using wf(5) filters_back [OF wf(8)] order_back [OF wf(9)] assms(2)
    by (simp add: build_aggregate_spec_def validate_column_budget_def)
qed

definition qry_demo :: aggregate_query_spec where
  "qry_demo = \<lparr>q_dimensions = [D_PICKUP_BOROUGH], q_measures = [M_TRIP_COUNT],
     q_filters = Some (default_filters\<lparr>pickup_zone := Some ''JFK Airport'', pickup_hour_min := Some 7\<rparr>),
     q_order_by = Some \<lparr>ord_key = ''trip_count'', ord_direction = ''desc''\<rparr>, q_limit = 10\<rparr>"

lemma qry_demo_wf: "spec_wf (\<lambda>_. True) qry_demo"
proof -
  have "filters_wf (\<lambda>_. True) (default_filters\<lparr>pickup_zone := Some ''JFK Airport'', pickup_hour_min := Some 7\<rparr>)" by code_simp
  then show ?thesis
    by (simp add: qry_demo_def spec_wf_def MAX_COLUMNS_def MAX_ROWS_def opt_all_def output_keys_def)
qed

theorem spec_roundtrip_witness:
  "build_aggregate_spec (\<lambda>_. True) (JArr [JStr ''pickup_borough'']) (JArr [JStr ''trip_count''])
     (JObj (filters_payload (\<lambda>_. ''0.0'') (default_filters\<lparr>pickup_zone := Some ''JFK Airport'', pickup_hour_min := Some 7\<rparr>)))
     (JObj [(''key'', JStr ''trip_count''), (''direction'', JStr ''desc'')]) (JInt 10) = Inr qry_demo"
proof -
  have "q_filters qry_demo = Some (default_filters\<lparr>pickup_zone := Some ''JFK Airport'', pickup_hour_min := Some 7\<rparr>)"
    by (simp add: qry_demo_def)
  from spec_roundtrip [OF qry_demo_wf this, of "\<lambda>_. ''0.0''"] show ?thesis
    by (simp add: qry_demo_def json_opt_def order_payload_def)
qed

theorem build_aggregate_spec_sound_witness:
  "\<exists>s. build_aggregate_spec (\<lambda>_. True) (JArr [JStr ''vendor'']) (JArr [JStr ''tip_rate'']) JNull JNull (JInt 5) = Inr s \<and> spec_wf (\<lambda>_. True) s"
proof -
  let ?b = "build_aggregate_spec (\<lambda>_. True) (JArr [JStr ''vendor'']) (JArr [JStr ''tip_rate'']) JNull JNull (JInt 5)"
  have "isl ?b = False" by code_simp
  then obtain s where "?b = Inr s" by (cases ?b) auto
  then show ?thesis using build_aggregate_spec_sound by blast
qed

lemma fare_bound_overflow:
  assumes "FLOAT_OVERFLOW \<le> i"
  shows "validate_filters isof (JObj [(''fare_amount_min'', JInt i)]) = Inl OverflowError"
proof -
  from assms have n: "validate_number (JInt i) = Inl OverflowError" by (simp add: validate_number_def)
  show ?thesis
    by (simp add: validate_filters_def filter_fields_def validate_filter_fields_def jget_def optional_def n)
qed

text \<open>
  One input escapes the validation envelope: an integer too large for a float, given as a bound
  on distance, duration or fare, raises \<open>OverflowError\<close>, which is not a validation failure with a
  code.
\<close>

theorem huge_number_escapes_envelope:
  "validate_filters isof (JObj [(''fare_amount_min'', JInt (10 ^ 400))]) = Inl OverflowError"
  by (rule fare_bound_overflow) (simp add: FLOAT_OVERFLOW_def)

end
