(* ===== verification/Qry_Analytics.thy ===== *)
theory Qry_Analytics
  imports Qry_Compiler
begin

text \<open>
  The governed analytics functions (\<open>services/dataset_spike/dataset_spike/analytics.py\<close>): a fixed or
  compiled query is run in a worker process with a deadline, its rows become a JSON envelope, and rows
  are dropped from the end until the envelope fits its byte bound.

  DuckDB in the worker process is the argument \<open>engine\<close>: from the query text and its parameters to
  what the parent sees of the worker. A cell of a row is a JSON value. \<open>repr\<close> is the text of a float,
  \<open>ms\<close> the measured duration and \<open>qid\<close> the generated query identifier. The dataset profile, which only
  reports fixed queries and process statistics, is not modelled.
\<close>

section \<open>Envelopes\<close>

text \<open>\<open>json.dumps(value, separators=(",", ":"))\<close>; the text is ASCII, so its length counts its bytes.\<close>

fun json_compact :: "json \<Rightarrow> string" where
  "json_compact (JArr xs) = ''['' @ py_join '','' (map json_compact xs) @ '']''"
| "json_compact (JObj kvs) =
     CHR 0x7B # py_join '','' (map (\<lambda>(k, v). json_quote k @ '':'' @ json_compact v) kvs) @ [CHR 0x7D]"
| "json_compact v = json_dumps v"

datatype analytics_exn =
    A_ValueError string | A_Timeout | A_Runtime string | A_Query query_error | A_Region | A_Index

definition MAX_QUERY_ROWS :: int where "MAX_QUERY_ROWS = 20"
definition MAX_RESULT_BYTES :: int where "MAX_RESULT_BYTES = 8192"

definition fits :: "int \<Rightarrow> jdict \<Rightarrow> bool" where
  "fits max_bytes env \<longleftrightarrow> int (length (json_compact (JObj env))) \<le> max_bytes"

definition with_rows :: "json list \<Rightarrow> jdict \<Rightarrow> jdict" where
  "with_rows rows env = od_set ''truncated'' (JBool True)
     (od_set ''row_count'' (JInt (int (length rows))) (od_set ''rows'' (JArr rows) env))"

text \<open>The loop that drops the last row while the envelope is too large.\<close>

function shrink :: "int \<Rightarrow> jdict \<Rightarrow> json list \<Rightarrow> analytics_exn + jdict" where
  "shrink max_bytes env rows =
     (if fits max_bytes env then Inr env
      else if rows = [] then Inl (A_ValueError ''max_result_bytes is too small for the result envelope'')
      else shrink max_bytes (with_rows (butlast rows) env) (butlast rows))"
  by pat_completeness auto
termination by (relation "measure (\<lambda>(_, _, rows). length rows)") auto

declare shrink.simps [simp del]

datatype worker_outcome = W_alive | W_empty | W_failed | W_ok "string list" "json list list"

type_synonym engine = "string \<Rightarrow> sql_value list \<Rightarrow> worker_outcome"

record run_options =
  max_result_bytes :: int
  run_timeout :: pyfloat
  duration_ms :: int
  query_id :: string

definition result_envelope :: "run_options \<Rightarrow> string list \<Rightarrow> json list list \<Rightarrow> bool \<Rightarrow> jdict" where
  "result_envelope ro columns rows truncated =
     [(''columns'', JArr (map JStr columns)), (''rows'', JArr (map JArr rows)), (''row_count'', JInt (int (length rows))),
      (''execution_duration_ms'', JInt (duration_ms ro)), (''query_id'', JStr (query_id ro)), (''truncated'', JBool truncated)]"

definition run_governed_query ::
  "engine \<Rightarrow> string \<Rightarrow> sql_value list \<Rightarrow> nat \<Rightarrow> run_options \<Rightarrow> analytics_exn + jdict" where
  "run_governed_query engine query params result_limit ro =
     (if max_result_bytes ro < 128 then Inl (A_ValueError ''max_result_bytes must be at least 128'')
      else if run_timeout ro \<le> 0 then Inl (A_ValueError ''timeout_seconds must be positive'')
      else case engine query params of
        W_alive \<Rightarrow> Inl A_Timeout
      | W_empty \<Rightarrow> Inl (A_Runtime ''governed query worker returned no result'')
      | W_failed \<Rightarrow> Inl (A_Runtime ''governed query execution failed'')
      | W_ok columns fetched \<Rightarrow>
          let rows = take result_limit fetched
          in shrink (max_result_bytes ro) (result_envelope ro columns rows (length fetched > result_limit)) (map JArr rows))"

text \<open>\<open>dict.update(extra)\<close> and the same loop on the merged envelope.\<close>

definition update_dict :: "jdict \<Rightarrow> jdict \<Rightarrow> jdict" where
  "update_dict extra d = fold (\<lambda>(k, v) d. od_set k v d) extra d"

definition rows_of :: "jdict \<Rightarrow> json list" where
  "rows_of env = (case map_of env ''rows'' of Some (JArr rows) \<Rightarrow> rows | _ \<Rightarrow> [])"

definition augment_envelope :: "jdict \<Rightarrow> int \<Rightarrow> jdict \<Rightarrow> analytics_exn + jdict" where
  "augment_envelope result max_bytes extra =
     (let merged = update_dict extra result in shrink max_bytes merged (rows_of merged))"

section \<open>The fixed queries\<close>

definition lines_of :: "string list \<Rightarrow> string" where
  "lines_of ls = py_join [CHR 0x0A] ls"

definition ALLOWED_ANALYSES :: "(string, string) odict" where
  "ALLOWED_ANALYSES =
    [(''top_pickup_zones'', lines_of [[],
        ''        SELECT z.Zone AS pickup_zone, count(*)::BIGINT AS trip_count'',
        ''        FROM trips AS t'',
        ''        JOIN taxi_zones AS z ON t.PULocationID = z.LocationID'',
        ''        GROUP BY 1'',
        ''        ORDER BY trip_count DESC, pickup_zone ASC'',
        ''        LIMIT ?'', ''    '']),
     (''trip_volume_by_hour'', lines_of [[],
        ''        SELECT extract(hour FROM tpep_pickup_datetime)::INTEGER AS pickup_hour,'',
        ''               count(*)::BIGINT AS trip_count'',
        ''        FROM trips'',
        ''        GROUP BY 1'',
        ''        ORDER BY trip_count DESC, pickup_hour ASC'',
        ''        LIMIT ?'', ''    '']),
     (''average_distance_by_weekday'', lines_of [[],
        ''        SELECT dayname(tpep_pickup_datetime) AS pickup_weekday,'',
        ''               round(avg(trip_distance), 2) AS average_trip_distance'',
        ''        FROM trips'',
        ''        WHERE trip_distance >= 0'',
        ''        GROUP BY 1'',
        ''        ORDER BY min(extract(isodow FROM tpep_pickup_datetime)), pickup_weekday ASC'',
        ''        LIMIT ?'', ''    ''])]"

definition AVERAGE_TRIP_METRICS_QUERY :: string where
  "AVERAGE_TRIP_METRICS_QUERY = lines_of [[],
     ''    SELECT z.Borough AS region_name,'',
     ''           count(*)::BIGINT AS trip_count,'',
     ''           round(avg(t.trip_distance), 2) AS average_trip_distance,'',
     ''           round(avg(t.fare_amount), 2) AS average_fare_amount'',
     ''    FROM trips AS t'',
     ''    JOIN taxi_zones AS z ON t.PULocationID = z.LocationID'',
     ''    WHERE z.Borough NOT IN ('Unknown', 'N/A', 'EWR')'',
     ''      AND t.trip_distance >= 0'',
     ''      AND t.fare_amount >= 0'',
     ''    GROUP BY 1'',
     ''    ORDER BY trip_count DESC, region_name ASC'',
     ''    LIMIT ?'', []]"

definition AVERAGE_TRIP_METRICS_FOR_REGION_QUERY :: string where
  "AVERAGE_TRIP_METRICS_FOR_REGION_QUERY = lines_of [[],
     ''    SELECT z.Borough AS region_name,'',
     ''           count(*)::BIGINT AS trip_count,'',
     ''           round(avg(t.trip_distance), 2) AS average_trip_distance,'',
     ''           round(avg(t.fare_amount), 2) AS average_fare_amount'',
     ''    FROM trips AS t'',
     ''    JOIN taxi_zones AS z ON t.PULocationID = z.LocationID'',
     ''    WHERE z.Borough NOT IN ('Unknown', 'N/A', 'EWR')'',
     ''      AND t.trip_distance >= 0'',
     ''      AND t.fare_amount >= 0'',
     ''      AND z.Borough = ?'',
     ''    GROUP BY 1'',
     ''    ORDER BY trip_count DESC, region_name ASC'',
     ''    LIMIT ?'', []]"

definition query_dataset :: "engine \<Rightarrow> string \<Rightarrow> int \<Rightarrow> run_options \<Rightarrow> analytics_exn + jdict" where
  "query_dataset engine analysis limit ro =
     (case map_of ALLOWED_ANALYSES analysis of
        None \<Rightarrow> Inl (A_ValueError ''analysis is not allowlisted'')
      | Some q \<Rightarrow>
          if \<not> (1 \<le> limit \<and> limit \<le> MAX_QUERY_ROWS) then Inl (A_ValueError ''limit must be between 1 and 20'')
          else run_governed_query engine q [V_Int (limit + 1)] (nat limit) ro)"

text \<open>\<open>str.casefold\<close> on the characters modelled, the sharp s apart from lower case.\<close>

definition py_casefold :: "string \<Rightarrow> string" where
  "py_casefold s = concat (map (\<lambda>c. if c = CHR 0xDF then ''ss'' else [py_lower_char c]) s)"

definition NON_BOROUGH_REGIONS :: "string list" where
  "NON_BOROUGH_REGIONS = [''unknown'', ''n/a'', ''ewr'']"

text \<open>The \<open>Borough\<close> column of the zone file is an argument; a later row of the same name wins.\<close>

definition borough_table :: "string list \<Rightarrow> (string, string) odict" where
  "borough_table rows = fold (\<lambda>b d. od_set (py_casefold (py_strip b)) (py_strip b) d)
     (filter (\<lambda>b. b \<noteq> [] \<and> py_casefold (py_strip b) \<notin> set NON_BOROUGH_REGIONS) rows) []"

definition resolve_region_name :: "string list \<Rightarrow> json \<Rightarrow> analytics_exn + string" where
  "resolve_region_name zone_rows region = (case region of
     JStr s \<Rightarrow> if py_strip s = [] then Inl A_Region
       else (case map_of (borough_table zone_rows) (py_casefold (py_strip s)) of None \<Rightarrow> Inl A_Region | Some b \<Rightarrow> Inr b)
   | _ \<Rightarrow> Inl A_Region)"

definition query_average_trip_metrics :: "engine \<Rightarrow> string list \<Rightarrow> json \<Rightarrow> run_options \<Rightarrow> analytics_exn + jdict" where
  "query_average_trip_metrics engine zone_rows region ro =
     (if region = JNull then run_governed_query engine AVERAGE_TRIP_METRICS_QUERY [V_Int 6] 5 ro
      else try_bind (resolve_region_name zone_rows region) (\<lambda>r.
             run_governed_query engine AVERAGE_TRIP_METRICS_FOR_REGION_QUERY [V_Str r, V_Int 2] 1 ro))"

section \<open>The governed tools\<close>

definition lift_query :: "query_error + 'a \<Rightarrow> analytics_exn + 'a" where
  "lift_query r = (case r of Inl e \<Rightarrow> Inl (A_Query e) | Inr x \<Rightarrow> Inr x)"

definition TIP_MEASURES :: "measure_name list" where
  "TIP_MEASURES = [M_TIP_RATE, M_AVERAGE_TIP, M_MEDIAN_TIP, M_TOTAL_TIPS]"

definition TIP_RATE_SEMANTICS :: string where
  "TIP_RATE_SEMANTICS = ''tip_rate, average_tip, median_tip and total_tips are computed over card ''
     @ ''payments (payment_type = 1) only; TLC does not record cash tips, so cash ''
     @ ''trips are excluded rather than treated as zero''"

definition AIRPORT_TRIP_RULE :: string where
  "AIRPORT_TRIP_RULE = ''airport_trip is true when the pickup or dropoff zone is JFK Airport, ''
     @ ''LaGuardia Airport or Newark Airport, or when RatecodeID is 2 (JFK) or 3 (Newark)''"

definition tip_note :: "measure_name list \<Rightarrow> jdict" where
  "tip_note ms = (if list_ex (\<lambda>m. m \<in> set TIP_MEASURES) ms then [(''tip_rate_semantics'', JStr TIP_RATE_SEMANTICS)] else [])"

definition list_taxi_dimension_values :: "engine \<Rightarrow> json \<Rightarrow> json \<Rightarrow> json \<Rightarrow> run_options \<Rightarrow> analytics_exn + jdict" where
  "list_taxi_dimension_values engine dimension search limit ro =
     try_bind (lift_query (validate_dimension dimension)) (\<lambda>d.
     try_bind (lift_query (validate_search search)) (\<lambda>s.
     try_bind (lift_query (validate_limit limit)) (\<lambda>l.
     let c = compile_dimension_values_query d s l in
     try_bind (run_governed_query engine (sql c) (parameters c) (nat l) ro) (\<lambda>result.
     augment_envelope result (max_result_bytes ro)
       [(''query_class'', JStr ''dimension_values''), (''dimension'', JStr (dim_value d))]))))"

definition aggregate_extra :: "aggregate_query_spec \<Rightarrow> jdict" where
  "aggregate_extra s =
     [(''query_class'', JStr ''aggregate''), (''dimensions'', JArr (map (\<lambda>d. JStr (dim_value d)) (q_dimensions s))),
      (''measures'', JArr (map (\<lambda>m. JStr (mea_value m)) (q_measures s)))] @ tip_note (q_measures s)
     @ (if D_AIRPORT_TRIP \<in> set (q_dimensions s) \<or> (case q_filters s of None \<Rightarrow> False | Some f \<Rightarrow> airport_trip f \<noteq> None)
        then [(''airport_trip_rule'', JStr AIRPORT_TRIP_RULE)] else [])"

definition aggregate_taxi_data ::
  "(string \<Rightarrow> bool) \<Rightarrow> engine \<Rightarrow> json \<Rightarrow> json \<Rightarrow> json \<Rightarrow> json \<Rightarrow> json \<Rightarrow> run_options \<Rightarrow> analytics_exn + jdict" where
  "aggregate_taxi_data isof engine dims ms fs ob lm ro =
     try_bind (lift_query (build_aggregate_spec isof dims ms fs ob lm)) (\<lambda>s.
     let c = compile_aggregate_query s in
     try_bind (run_governed_query engine (sql c) (parameters c) (nat (q_limit s)) ro) (\<lambda>result.
     augment_envelope result (max_result_bytes ro) (aggregate_extra s)))"

section \<open>Comparisons\<close>

definition COMPARISON_MODES :: "string list" where "COMPARISON_MODES = [''by_dimension'', ''whole_segment'']"

definition validate_comparison_mode :: "json \<Rightarrow> json \<Rightarrow> query_error + string" where
  "validate_comparison_mode mode segment = (case mode of
     JStr m \<Rightarrow> if m \<notin> set COMPARISON_MODES then fail ''invalid_comparison_mode''
       else if m = ''whole_segment'' \<and> segment \<noteq> JNull then fail ''invalid_comparison_combination''
       else if m = ''by_dimension'' \<and> segment = JNull then fail ''invalid_comparison_combination''
       else Inr m
   | _ \<Rightarrow> fail ''invalid_comparison_mode'')"

definition num_of :: "json \<Rightarrow> pyfloat option" where
  "num_of v = (case v of JInt i \<Rightarrow> Some (of_int i) | JFloat x _ \<Rightarrow> Some x | _ \<Rightarrow> None)"

definition py_round4 :: "pyfloat \<Rightarrow> pyfloat" where
  "py_round4 x = of_int (py_round (x * 10000)) / 10000"

text \<open>\<open>round(c - b, 4)\<close>: an integer when both sides are integers.\<close>

definition delta_of :: "(pyfloat \<Rightarrow> string) \<Rightarrow> json \<Rightarrow> json \<Rightarrow> json" where
  "delta_of repr b c = (case (b, c) of
     (JInt i, JInt j) \<Rightarrow> JInt (j - i)
   | _ \<Rightarrow> (case (num_of b, num_of c) of
       (Some x, Some y) \<Rightarrow> JFloat (py_round4 (y - x)) (repr (py_round4 (y - x))) | _ \<Rightarrow> JNull))"

definition delta_pct_of :: "(pyfloat \<Rightarrow> string) \<Rightarrow> json \<Rightarrow> json \<Rightarrow> json" where
  "delta_pct_of repr b c = (case (num_of b, num_of c) of
     (Some x, Some y) \<Rightarrow> if x \<noteq> 0 then let p = py_round4 ((y - x) / x * 100) in JFloat p (repr p) else JNull
   | _ \<Rightarrow> JNull)"

definition cell :: "json list \<Rightarrow> nat \<Rightarrow> analytics_exn + json" where
  "cell row i = (if i < length row then Inr (row ! i) else Inl A_Index)"

definition segment_row :: "(pyfloat \<Rightarrow> string) \<Rightarrow> nat \<Rightarrow> json list \<Rightarrow> analytics_exn + json list" where
  "segment_row repr k row =
     try_bind (cell row 0) (\<lambda>dim.
     try_bind (try_map (\<lambda>i. try_bind (cell row (1 + 2 * i)) (\<lambda>b. try_bind (cell row (2 + 2 * i)) (\<lambda>c. Inr [b, c, delta_of repr b c]))) [0..<k]) (\<lambda>cs.
     Inr (dim # concat cs)))"

definition as_row :: "json \<Rightarrow> json list" where
  "as_row v = (case v of JArr xs \<Rightarrow> xs | _ \<Rightarrow> [])"

definition segment_envelope :: "dimension_name \<Rightarrow> measure_name list \<Rightarrow> json list list \<Rightarrow> jdict \<Rightarrow> string \<Rightarrow> jdict" where
  "segment_envelope d ms rows joined qid =
     [(''columns'', JArr (JStr (dim_value d) # concat (map (\<lambda>m.
                [JStr (''baseline_'' @ mea_value m), JStr (''comparison_'' @ mea_value m), JStr (''delta_'' @ mea_value m)]) ms))),
             (''rows'', JArr (map JArr rows)), (''row_count'', JInt (int (length rows))),
             (''execution_duration_ms'', jget joined ''execution_duration_ms''), (''query_id'', JStr qid),
             (''truncated'', JBool (truthy (jget joined ''truncated''))), (''query_class'', JStr ''compare_segments''),
             (''segment_dimension'', JStr (dim_value d)), (''measures'', JArr (map (\<lambda>m. JStr (mea_value m)) ms))] @ tip_note ms"

definition compare_by_dimension ::
  "(pyfloat \<Rightarrow> string) \<Rightarrow> (string \<Rightarrow> bool) \<Rightarrow> engine \<Rightarrow> json \<Rightarrow> json \<Rightarrow> json \<Rightarrow> json \<Rightarrow> json \<Rightarrow> string \<Rightarrow> run_options \<Rightarrow> analytics_exn + jdict" where
  "compare_by_dimension repr isof engine segment mv base cmp limit qid ro =
     try_bind (lift_query (validate_dimension segment)) (\<lambda>d.
     try_bind (lift_query (validate_measures mv)) (\<lambda>ms.
     try_bind (lift_query (validate_limit limit)) (\<lambda>l.
     try_bind (lift_query (validate_filters isof base)) (\<lambda>bf.
     try_bind (lift_query (validate_filters isof cmp)) (\<lambda>cf.
     if 1 + 3 * length ms > MAX_COLUMNS then Inl (A_Query (QueryValidationError ''invalid_column_budget''))
     else case compile_compare_segments_query d ms bf cf l of
       None \<Rightarrow> Inl A_Index
     | Some c \<Rightarrow>
         try_bind (run_governed_query engine (sql c) (parameters c) (nat l) ro) (\<lambda>joined.
         try_bind (try_map (\<lambda>r. segment_row repr (length ms) (as_row r)) (rows_of joined)) (\<lambda>rows.
         augment_envelope
           (segment_envelope d ms rows joined qid) (max_result_bytes ro) [])))))))"

section \<open>The dataset description\<close>

definition DESCRIBE_BASE_QUERY :: string where
  "DESCRIBE_BASE_QUERY = lines_of [[],
     ''    SELECT min(t.tpep_pickup_datetime)::VARCHAR AS min_pickup,'',
     ''           max(t.tpep_pickup_datetime)::VARCHAR AS max_pickup,'',
     ''           count(*)::BIGINT AS row_count'',
     ''    FROM trips AS t'', []]"

definition DESCRIBE_WITH_STATS_QUERY :: string where
  "DESCRIBE_WITH_STATS_QUERY = lines_of [[],
     ''    SELECT min(t.tpep_pickup_datetime)::VARCHAR AS min_pickup,'',
     ''           max(t.tpep_pickup_datetime)::VARCHAR AS max_pickup,'',
     ''           count(*)::BIGINT AS row_count,'',
     ''           sum(CASE WHEN t.passenger_count IS NULL THEN 1 ELSE 0 END)::BIGINT'',
     ''               AS null_passenger_count,'',
     ''           sum(CASE WHEN t.RatecodeID IS NULL THEN 1 ELSE 0 END)::BIGINT'',
     ''               AS null_rate_code,'',
     ''           sum(CASE WHEN t.VendorID IS NULL THEN 1 ELSE 0 END)::BIGINT AS null_vendor,'',
     ''           sum(CASE WHEN t.fare_amount < 0 THEN 1 ELSE 0 END)::BIGINT'',
     ''               AS negative_fare_count,'',
     ''           sum(CASE WHEN t.total_amount < 0 THEN 1 ELSE 0 END)::BIGINT'',
     ''               AS negative_total_count,'',
     ''           sum(CASE WHEN t.tpep_dropoff_datetime < t.tpep_pickup_datetime THEN 1 ELSE 0 END)'',
     ''               ::BIGINT AS dropoff_before_pickup_count'',
     ''    FROM trips AS t'', []]"

definition DESCRIBE_SCHEMA_QUERY :: string where "DESCRIBE_SCHEMA_QUERY = ''DESCRIBE trips''"

definition VALID_RECORDS_RULE :: string where
  "VALID_RECORDS_RULE = ''valid_records_only (default true) keeps pickups in ''
     @ ''[2024-01-01, 2024-02-01), fare_amount >= 0, total_amount >= 0 and ''
     @ ''tpep_dropoff_datetime >= tpep_pickup_datetime''"

text \<open>\<open>dict(zip(columns, row))\<close>: a later column of the same name wins.\<close>

definition zip_dict :: "json list \<Rightarrow> json list \<Rightarrow> jdict" where
  "zip_dict columns row = fold (\<lambda>(k, v) d. case k of JStr name \<Rightarrow> od_set name v d | _ \<Rightarrow> d) (zip columns row) []"

definition code_dictionary :: "(int, string) odict \<Rightarrow> json" where
  "code_dictionary codes = JObj (map (\<lambda>(k, v). (show_int k, JStr v)) codes)"

definition describe_column :: "json \<Rightarrow> analytics_exn + json" where
  "describe_column row = try_bind (cell (as_row row) 0) (\<lambda>n. try_bind (cell (as_row row) 1) (\<lambda>t.
     Inr (JObj [(''name'', n), (''type'', t)])))"

definition describe_result :: "bool \<Rightarrow> jdict \<Rightarrow> json list \<Rightarrow> json \<Rightarrow> jdict" where
  "describe_result include_stats stats columns qid =
     [(''query_class'', JStr ''describe''), (''row_count'', jget_or stats ''row_count'' (JInt 0)),
      (''min_pickup_datetime'', jget stats ''min_pickup''), (''max_pickup_datetime'', jget stats ''max_pickup''),
      (''columns'', JArr columns),
      (''supported_dimensions'', JArr (map (\<lambda>d. JStr (dim_value d)) all_dimensions)),
      (''supported_measures'', JArr (map (\<lambda>m. JStr (mea_value m)) all_measures)),
      (''code_dictionaries'', JObj [(''payment_type'', code_dictionary PAYMENT_TYPE_CODES),
         (''rate_code'', code_dictionary RATE_CODE_CODES), (''vendor'', code_dictionary VENDOR_CODES)]),
      (''tip_rate_semantics'', JStr TIP_RATE_SEMANTICS), (''airport_trip_rule'', JStr AIRPORT_TRIP_RULE),
      (''valid_records_rule'', JStr VALID_RECORDS_RULE), (''truncated'', JBool False), (''query_id'', qid)]
     @ (if include_stats then
          [(''null_summary'', JObj [(''passenger_count'', jget_or stats ''null_passenger_count'' (JInt 0)),
              (''rate_code'', jget_or stats ''null_rate_code'' (JInt 0)), (''vendor'', jget_or stats ''null_vendor'' (JInt 0))]),
           (''invalid_record_summary'', JObj [(''negative_fare_count'', jget_or stats ''negative_fare_count'' (JInt 0)),
              (''negative_total_count'', jget_or stats ''negative_total_count'' (JInt 0)),
              (''dropoff_before_pickup_count'', jget_or stats ''dropoff_before_pickup_count'' (JInt 0))])]
        else [])"

text \<open>\<open>ro\<close> and \<open>ro'\<close> are the options of the two runs, which differ in duration and query identifier.\<close>

definition describe_taxi_dataset :: "engine \<Rightarrow> json \<Rightarrow> run_options \<Rightarrow> run_options \<Rightarrow> analytics_exn + jdict" where
  "describe_taxi_dataset engine include_stats ro ro' = (case include_stats of
     JBool st \<Rightarrow>
       try_bind (run_governed_query engine (if st then DESCRIBE_WITH_STATS_QUERY else DESCRIBE_BASE_QUERY) [] 1 ro) (\<lambda>sr.
       try_bind (run_governed_query engine DESCRIBE_SCHEMA_QUERY [] 64 ro') (\<lambda>schema.
       let row = (case rows_of sr of [] \<Rightarrow> [] | r # _ \<Rightarrow> as_row r);
           stats = zip_dict (as_row (jget sr ''columns'')) row
       in try_bind (try_map describe_column (rows_of schema)) (\<lambda>columns.
       augment_envelope (describe_result st stats columns (jget sr ''query_id'')) (max_result_bytes ro) [])))
   | _ \<Rightarrow> Inl (A_ValueError ''include_column_stats must be a boolean''))"

text \<open>\<open>_filters_label\<close>: the fields in the order of the dataclass; \<open>str\<close> of a float is \<open>repr\<close>.\<close>

definition filters_label :: "(pyfloat \<Rightarrow> string) \<Rightarrow> taxi_filters \<Rightarrow> string" where
  "filters_label repr f =
     (let s = (\<lambda>k v. case v of None \<Rightarrow> [] | Some x \<Rightarrow> [k @ ''='' @ x]);
          i = (\<lambda>k v. s k (map_option show_int v));
          n = (\<lambda>k v. s k (map_option repr v));
          parts = s ''start_timestamp'' (start_timestamp f) @ s ''end_timestamp'' (end_timestamp f)
            @ i ''pickup_hour_min'' (pickup_hour_min f) @ i ''pickup_hour_max'' (pickup_hour_max f)
            @ s ''pickup_weekday'' (pickup_weekday f) @ s ''pickup_week_part'' (pickup_week_part f)
            @ s ''pickup_zone'' (pickup_zone f) @ s ''pickup_borough'' (pickup_borough f)
            @ s ''dropoff_zone'' (dropoff_zone f) @ s ''dropoff_borough'' (dropoff_borough f)
            @ i ''payment_type'' (payment_type f) @ i ''rate_code'' (rate_code f) @ i ''vendor'' (vendor f)
            @ i ''passenger_count_min'' (passenger_count_min f) @ i ''passenger_count_max'' (passenger_count_max f)
            @ n ''trip_distance_min'' (trip_distance_min f) @ n ''trip_distance_max'' (trip_distance_max f)
            @ n ''trip_duration_min'' (trip_duration_min f) @ n ''trip_duration_max'' (trip_duration_max f)
            @ n ''fare_amount_min'' (fare_amount_min f) @ n ''fare_amount_max'' (fare_amount_max f)
            @ s ''airport_trip'' (map_option (\<lambda>b. if b then ''true'' else ''false'') (airport_trip f))
            @ (if valid_records_only f then [] else [''valid_records_only=false''])
      in if parts = [] then ''all_valid_records'' else py_join '', '' parts)"

definition whole_row :: "(pyfloat \<Rightarrow> string) \<Rightarrow> json list \<Rightarrow> nat \<Rightarrow> measure_name \<Rightarrow> analytics_exn + json list" where
  "whole_row repr cells i m =
     try_bind (if truthy (cells ! 0) then cell cells (2 + 2 * i) else Inr JNull) (\<lambda>b.
     try_bind (if truthy (cells ! 1) then cell cells (3 + 2 * i) else Inr JNull) (\<lambda>c.
     Inr [JStr (mea_value m), b, c, delta_of repr b c, delta_pct_of repr b c]))"

definition whole_envelope ::
  "(pyfloat \<Rightarrow> string) \<Rightarrow> measure_name list \<Rightarrow> taxi_filters \<Rightarrow> taxi_filters \<Rightarrow> json list list \<Rightarrow> bool \<Rightarrow> json list \<Rightarrow> jdict \<Rightarrow> jdict" where
  "whole_envelope repr ms bf cf rows truncated no_data raw =
     [(''columns'', JArr (map JStr [''measure'', ''baseline'', ''comparison'', ''delta'', ''delta_pct''])),
           (''rows'', JArr (map JArr rows)), (''row_count'', JInt (int (length rows))),
           (''execution_duration_ms'', jget raw ''execution_duration_ms''), (''query_id'', jget raw ''query_id''),
           (''truncated'', JBool truncated), (''query_class'', JStr ''compare_segments''),
           (''comparison_mode'', JStr ''whole_segment''), (''baseline_label'', JStr (filters_label repr bf)),
           (''comparison_label'', JStr (filters_label repr cf)), (''measures'', JArr (map (\<lambda>m. JStr (mea_value m)) ms))]
          @ (if no_data = [] then [] else [(''no_data_sides'', JArr no_data)]) @ tip_note ms
          @ (if airport_trip bf \<noteq> None \<or> airport_trip cf \<noteq> None then [(''airport_trip_rule'', JStr AIRPORT_TRIP_RULE)] else [])"

definition compare_whole_segments ::
  "(pyfloat \<Rightarrow> string) \<Rightarrow> (string \<Rightarrow> bool) \<Rightarrow> engine \<Rightarrow> json \<Rightarrow> json \<Rightarrow> json \<Rightarrow> json \<Rightarrow> run_options \<Rightarrow> analytics_exn + jdict" where
  "compare_whole_segments repr isof engine mv base cmp limit ro =
     try_bind (lift_query (validate_measures mv)) (\<lambda>ms.
     if M_TRIP_SHARE \<in> set ms then Inl (A_Query (QueryValidationError ''invalid_measures''))
     else try_bind (lift_query (validate_limit limit)) (\<lambda>l.
     try_bind (lift_query (validate_filters isof base)) (\<lambda>bf.
     try_bind (lift_query (validate_filters isof cmp)) (\<lambda>cf.
     let c = compile_compare_whole_segments_query ms bf cf in
     try_bind (run_governed_query engine (sql c) (parameters c) 1 (ro\<lparr>max_result_bytes := 65536\<rparr>)) (\<lambda>raw.
     if length (rows_of raw) \<noteq> 1 then Inl (A_Runtime ''whole-segment comparison returned no aggregate row'')
     else let cells = as_row (hd (rows_of raw)) in
       try_bind (cell cells 0) (\<lambda>bp. try_bind (cell cells 1) (\<lambda>cp.
       try_bind (try_map (\<lambda>(i, m). whole_row repr cells i m) (zip [0..<length ms] ms)) (\<lambda>all_rows.
       let rows = take (nat l) all_rows;
           no_data = (if truthy bp then [] else [JStr ''baseline'']) @ (if truthy cp then [] else [JStr ''comparison''])
       in augment_envelope
         (whole_envelope repr ms bf cf rows (length all_rows > nat l) no_data raw)
         (max_result_bytes ro) []))))))))"

definition compare_taxi_segments ::
  "(pyfloat \<Rightarrow> string) \<Rightarrow> (string \<Rightarrow> bool) \<Rightarrow> engine \<Rightarrow> json \<Rightarrow> json \<Rightarrow> json \<Rightarrow> json \<Rightarrow> json \<Rightarrow> json \<Rightarrow> string \<Rightarrow> run_options \<Rightarrow> analytics_exn + jdict" where
  "compare_taxi_segments repr isof engine mode segment mv base cmp limit qid ro =
     try_bind (lift_query (validate_comparison_mode mode segment)) (\<lambda>m.
     if m = ''whole_segment'' then compare_whole_segments repr isof engine mv base cmp limit ro
     else compare_by_dimension repr isof engine segment mv base cmp limit qid ro)"

section \<open>The loop against its specification\<close>

text \<open>The envelope after \<open>n\<close> rows have been dropped, and the first one that fits.\<close>

fun pop_rows :: "nat \<Rightarrow> jdict \<Rightarrow> json list \<Rightarrow> jdict" where
  "pop_rows 0 env rows = env"
| "pop_rows (Suc n) env rows = pop_rows n (with_rows (butlast rows) env) (butlast rows)"

definition first_fit :: "int \<Rightarrow> jdict \<Rightarrow> json list \<Rightarrow> analytics_exn + jdict" where
  "first_fit max_bytes env rows =
     (case find (\<lambda>n. fits max_bytes (pop_rows n env rows)) [0..<Suc (length rows)] of
        Some n \<Rightarrow> Inr (pop_rows n env rows)
      | None \<Rightarrow> Inl (A_ValueError ''max_result_bytes is too small for the result envelope''))"

lemma find_upt_Suc:
  "find p [0..<Suc n] = (if p 0 then Some 0 else map_option Suc (find (\<lambda>i. p (Suc i)) [0..<n]))"
proof -
  have "find p (map Suc xs) = map_option Suc (find (\<lambda>i. p (Suc i)) xs)" for xs by (induction xs) auto
  then show ?thesis by (simp add: upt_conv_Cons map_Suc_upt [symmetric] del: upt_Suc)
qed

text \<open>
  C37. The trimming loop always ends, after at most one iteration per row, with what its specification
  names: the envelope with the fewest rows dropped from the end that is within the byte bound, or the
  error when not even the empty one is.
\<close>

theorem shrink_is_first_fit: "shrink max_bytes env rows = first_fit max_bytes env rows"
proof (induction max_bytes env rows rule: shrink.induct)
  case (1 max_bytes env rows)
  show ?case
  proof (cases "fits max_bytes env \<or> rows = []")
    case True
    then show ?thesis by (auto simp: shrink.simps [of max_bytes env rows] first_fit_def find_upt_Suc simp del: upt_Suc)
  next
    case False
    then have l: "Suc (length (butlast rows)) = length rows" by (cases rows) simp_all
    have "shrink max_bytes env rows = first_fit max_bytes (with_rows (butlast rows) env) (butlast rows)"
      using 1 False by (simp add: shrink.simps [of max_bytes env rows])
    also have "\<dots> = first_fit max_bytes env rows"
      using False by (simp add: first_fit_def find_upt_Suc [of _ "length rows"] l option.map_comp del: upt_Suc split: option.split)
    finally show ?thesis .
  qed
qed

section \<open>What a result satisfies\<close>

definition envelope_of :: "nat \<Rightarrow> json list \<Rightarrow> jdict \<Rightarrow> bool" where
  "envelope_of n all env \<longleftrightarrow> (\<exists>k \<le> min n (length all). map_of env ''rows'' = Some (JArr (take k all)) \<and>
     map_of env ''row_count'' = Some (JInt (int k)) \<and>
     (map_of env ''truncated'' = Some (JBool True) \<or> map_of env ''truncated'' = Some (JBool False) \<and> k = length all))"

lemma with_rows_get:
  "map_of (with_rows rows env) k = (if k = ''truncated'' then Some (JBool True) else if k = ''row_count'' then Some (JInt (int (length rows)))
     else if k = ''rows'' then Some (JArr rows) else map_of env k)"
  by (simp add: with_rows_def)

lemma shrink_envelope:
  assumes "shrink max_bytes env rows = Inr env'" "map_of env ''rows'' = Some (JArr rows)" "\<exists>k. rows = take k all \<and> k \<le> n" "envelope_of n all env"
  shows "fits max_bytes env' \<and> envelope_of n all env'"
  using assms
proof (induction max_bytes env rows rule: shrink.induct)
  case (1 max_bytes env rows)
  show ?case
  proof (cases "fits max_bytes env")
    case True
    with 1 show ?thesis by (simp add: shrink.simps [of max_bytes env rows])
  next
    case False
    then have ne: "rows \<noteq> []" and s: "shrink max_bytes (with_rows (butlast rows) env) (butlast rows) = Inr env'"
      using "1.prems"(1) by (auto simp: shrink.simps [of max_bytes env rows] split: if_splits)
    obtain k where k: "rows = take k all" "k \<le> n" using "1.prems"(3) by blast
    have b: "butlast rows = take (length rows - 1) all"
      using k by (auto simp: butlast_conv_take min_def)
    have le: "length rows - 1 \<le> min n (length all)" using k by (auto simp: min_def)
    have "envelope_of n all (with_rows (butlast rows) env)"
      unfolding envelope_of_def with_rows_get using le b by (intro exI [of _ "length rows - 1"]) simp
    moreover have "\<exists>j. butlast rows = take j all \<and> j \<le> n" using b le by auto
    ultimately show ?thesis using "1.IH" [OF False ne s] by (simp add: with_rows_get)
  qed
qed

lemma run_governed_query_envelope:
  assumes "run_governed_query engine q ps n ro = Inr env"
  shows "\<exists>cols fetched. engine q ps = W_ok cols fetched \<and> fits (max_result_bytes ro) env \<and> envelope_of n (map JArr fetched) env"
proof -
  obtain cols fetched where e: "engine q ps = W_ok cols fetched"
    and s: "shrink (max_result_bytes ro) (result_envelope ro cols (take n fetched) (length fetched > n)) (map JArr (take n fetched)) = Inr env"
    using assms by (auto simp: run_governed_query_def Let_def split: if_splits worker_outcome.splits)
  have "fits (max_result_bytes ro) env \<and> envelope_of n (map JArr fetched) env"
  proof (rule shrink_envelope [OF s])
    show "map_of (result_envelope ro cols (take n fetched) (length fetched > n)) ''rows'' = Some (JArr (map JArr (take n fetched)))"
      by (simp add: result_envelope_def)
    show "\<exists>k. map JArr (take n fetched) = take k (map JArr fetched) \<and> k \<le> n" by (auto simp: take_map)
    show "envelope_of n (map JArr fetched) (result_envelope ro cols (take n fetched) (length fetched > n))"
      unfolding envelope_of_def
      by (rule exI [of _ "min n (length fetched)"]) (auto simp: result_envelope_def take_map min_def)
  qed
  with e show ?thesis by blast
qed

lemma update_dict_get: "k \<notin> fst ` set extra \<Longrightarrow> map_of (update_dict extra d) k = map_of d k"
  by (induction extra arbitrary: d) (auto simp: update_dict_def)

lemma augment_envelope_keeps:
  assumes "augment_envelope env max_bytes extra = Inr env'" "envelope_of n all env"
    and "''rows'' \<notin> fst ` set extra" "''row_count'' \<notin> fst ` set extra" "''truncated'' \<notin> fst ` set extra"
  shows "fits max_bytes env' \<and> envelope_of n all env'"
proof -
  let ?m = "update_dict extra env"
  have g: "map_of ?m ''rows'' = map_of env ''rows''" "map_of ?m ''row_count'' = map_of env ''row_count''"
    "map_of ?m ''truncated'' = map_of env ''truncated''" using assms(3-5) by (simp_all add: update_dict_get)
  have o: "envelope_of n all ?m" using assms(2) unfolding envelope_of_def g .
  obtain k where k: "k \<le> min n (length all)" "map_of env ''rows'' = Some (JArr (take k all))"
    using assms(2) by (auto simp: envelope_of_def)
  have r: "rows_of ?m = take k all" by (simp add: rows_of_def g k)
  show ?thesis
  proof (rule shrink_envelope [OF _ _ _ o])
    show "shrink max_bytes ?m (take k all) = Inr env'" using assms(1) by (simp add: augment_envelope_def Let_def r)
    show "map_of ?m ''rows'' = Some (JArr (take k all))" using g k by simp
    show "\<exists>j. take k all = take j all \<and> j \<le> n" using k by auto
  qed
qed

lemma aggregate_extra_keys:
  "''rows'' \<notin> fst ` set (aggregate_extra s)" "''row_count'' \<notin> fst ` set (aggregate_extra s)" "''truncated'' \<notin> fst ` set (aggregate_extra s)"
  by (auto simp: aggregate_extra_def tip_note_def)

text \<open>
  C16. A governed aggregation that returns ran exactly the query compiled from a valid specification,
  and its answer is within the byte bound and the specification's row limit: the rows are the first
  rows the engine returned, \<open>row_count\<close> is their number, and an answer that is not marked truncated
  has every row.
\<close>

theorem aggregate_result_bounded:
  assumes "aggregate_taxi_data isof engine dims ms fs ob lm ro = Inr env"
  shows "\<exists>s cols fetched. build_aggregate_spec isof dims ms fs ob lm = Inr s \<and> spec_wf isof s \<and>
    engine (sql (compile_aggregate_query s)) (parameters (compile_aggregate_query s)) = W_ok cols fetched \<and>
    fits (max_result_bytes ro) env \<and> envelope_of (nat (q_limit s)) (map JArr fetched) env"
proof -
  obtain s where s: "build_aggregate_spec isof dims ms fs ob lm = Inr s"
    using assms by (auto simp: aggregate_taxi_data_def lift_query_def split: sum.splits)
  let ?c = "compile_aggregate_query s"
  obtain env0 where r: "run_governed_query engine (sql ?c) (parameters ?c) (nat (q_limit s)) ro = Inr env0"
    and a: "augment_envelope env0 (max_result_bytes ro) (aggregate_extra s) = Inr env"
    using assms s by (auto simp: aggregate_taxi_data_def lift_query_def Let_def)
  obtain cols fetched where e: "engine (sql ?c) (parameters ?c) = W_ok cols fetched"
    and o: "envelope_of (nat (q_limit s)) (map JArr fetched) env0" using run_governed_query_envelope [OF r] by blast
  from augment_envelope_keeps [OF a o aggregate_extra_keys] e s accepted_spec_wf [OF s]
  show ?thesis by blast
qed

definition demo_engine :: engine where
  "demo_engine query params = W_ok [''pickup_borough'', ''trip_count'']
     [[JStr ''Manhattan'', JInt 90], [JStr ''Queens'', JInt 7], [JStr ''Bronx'', JInt 1]]"

definition demo_options :: run_options where
  "demo_options = \<lparr>max_result_bytes = 8192, run_timeout = 30, duration_ms = 12, query_id = ''query_1''\<rparr>"

theorem aggregate_result_bounded_witness:
  "case aggregate_taxi_data (\<lambda>_. True) demo_engine (JArr [JStr ''pickup_borough'']) (JArr [JStr ''trip_count'']) JNull JNull (JInt 2) demo_options of
     Inl _ \<Rightarrow> False
   | Inr env \<Rightarrow> fits 8192 env \<and> map_of env ''truncated'' = Some (JBool True) \<and>
       map_of env ''rows'' = Some (JArr [JArr [JStr ''Manhattan'', JInt 90], JArr [JStr ''Queens'', JInt 7]])"
proof -
  let ?r = "aggregate_taxi_data (\<lambda>_. True) demo_engine (JArr [JStr ''pickup_borough'']) (JArr [JStr ''trip_count'']) JNull JNull (JInt 2) demo_options"
  have ok: "case ?r of Inl _ \<Rightarrow> False | Inr env \<Rightarrow> map_of env ''truncated'' = Some (JBool True) \<and>
       map_of env ''rows'' = Some (JArr [JArr [JStr ''Manhattan'', JInt 90], JArr [JStr ''Queens'', JInt 7]])" by code_simp
  then obtain env where r: "?r = Inr env" by (cases ?r) simp_all
  from aggregate_result_bounded [OF this] have "fits 8192 env" by (auto simp: demo_options_def)
  with ok r show ?thesis by simp
qed

text \<open>
  The fixed queries have as many placeholders as they are given parameters, and a limit above twenty
  rows never reaches the engine.
\<close>

lemma fixed_query_placeholders:
  "list_all (\<lambda>(_, q). holes q = 1) ALLOWED_ANALYSES" "holes AVERAGE_TRIP_METRICS_QUERY = 1"
  "holes AVERAGE_TRIP_METRICS_FOR_REGION_QUERY = 2"
  by code_simp+

lemma query_dataset_limit: "query_dataset engine analysis limit ro = Inr env \<Longrightarrow> 1 \<le> limit \<and> limit \<le> 20"
  by (auto simp: query_dataset_def MAX_QUERY_ROWS_def split: option.splits if_splits)

lemma shrink_fits: "shrink max_bytes env rows = Inr env' \<Longrightarrow> fits max_bytes env'"
proof (induction max_bytes env rows rule: shrink.induct)
  case (1 max_bytes env rows)
  then show ?case by (subst (asm) (2) shrink.simps) (auto split: if_splits)
qed

lemma augment_fits: "augment_envelope env max_bytes extra = Inr env' \<Longrightarrow> fits max_bytes env'"
  by (auto simp: augment_envelope_def Let_def dest: shrink_fits)

lemma run_fits: "run_governed_query engine q ps n ro = Inr env \<Longrightarrow> fits (max_result_bytes ro) env"
  using run_governed_query_envelope by blast

text \<open>Whatever tool is called, what it returns is within the byte bound it was given.\<close>

lemma simple_tools_fit:
  "query_dataset engine a n ro = Inr env \<Longrightarrow> fits (max_result_bytes ro) env"
  "query_average_trip_metrics engine zones region ro = Inr env \<Longrightarrow> fits (max_result_bytes ro) env"
  by (auto simp: query_dataset_def query_average_trip_metrics_def intro: run_fits split: option.splits if_splits)

lemma list_values_fits: "list_taxi_dimension_values engine d srch lm ro = Inr env \<Longrightarrow> fits (max_result_bytes ro) env"
  by (auto simp: list_taxi_dimension_values_def Let_def intro: augment_fits)

lemma compare_by_dimension_fits:
  "compare_by_dimension repr isof engine segment mv base cf lm qid ro = Inr env \<Longrightarrow> fits (max_result_bytes ro) env"
  by (auto simp: compare_by_dimension_def Let_def intro: augment_fits split: if_splits option.splits)

lemma compare_whole_segments_fits:
  "compare_whole_segments repr isof engine mv base cf lm ro = Inr env \<Longrightarrow> fits (max_result_bytes ro) env"
  by (auto simp: compare_whole_segments_def Let_def intro: augment_fits split: if_splits)

lemma compare_fits:
  "compare_taxi_segments repr isof engine mode segment mv base cf lm qid ro = Inr env \<Longrightarrow> fits (max_result_bytes ro) env"
  by (auto simp: compare_taxi_segments_def intro: compare_by_dimension_fits compare_whole_segments_fits split: if_splits)

text \<open>
  A description has no rows to drop, so it is returned whole or not at all. Its \<open>truncated\<close> field is
  fixed: when the schema query dropped columns to meet the byte bound, the answer does not say so.
\<close>

lemma describe_whole:
  assumes "describe_taxi_dataset engine include_stats ro ro' = Inr env"
  shows "fits (max_result_bytes ro) env \<and> jget env ''truncated'' = JBool False"
proof -
  from assms obtain st stats columns qid where
    "augment_envelope (describe_result st stats columns qid) (max_result_bytes ro) [] = Inr env"
    by (auto simp: describe_taxi_dataset_def Let_def split: json.splits)
  moreover have "rows_of (describe_result st stats columns qid) = []"
    by (simp add: rows_of_def describe_result_def)
  ultimately have "env = describe_result st stats columns qid \<and> fits (max_result_bytes ro) env"
    unfolding augment_envelope_def update_dict_def Let_def by (subst (asm) shrink.simps) (auto split: if_splits)
  moreover have "jget (describe_result st stats columns qid) ''truncated'' = JBool False" by (simp add: describe_result_def jget_def)
  ultimately show ?thesis by metis
qed

end
