(* ===== verification/App_Budget.thy ===== *)
theory App_Budget
  imports Prelude
begin

text \<open>
  The three budgets of the application service: the per-run ledger with reserve, commit and release
  (\<open>services/app/app/model_policy/budget.py\<close>), the counters of one orchestration run
  (\<open>services/app/app/orchestration/budgets.py\<close>, with the retry rule of \<open>validation/retry.py\<close>),
  and the shared monthly Bedrock allowance (\<open>services/app/app/bedrock_budget.py\<close>).

  Each method that runs under \<open>self._lock\<close> is one step; an operation that raises after it changed
  the state returns the changed state beside the error. A Bedrock limit error keeps the limit's name
  and the offending value, its message text is left out.
\<close>

section \<open>The per-run ledger\<close>

datatype run_budget_exn = RunBudgetExceeded string | NoSuchRun string

record reservation =
  rv_run_id :: string
  rv_tokens :: int
  rv_usd :: "pyfloat option"

record ledger_state =
  used_tokens :: int
  used_usd :: pyfloat
  held_tokens :: int
  held_usd :: pyfloat
  rs_calls :: nat
  rs_input_tokens :: int
  rs_output_tokens :: int
  incomplete :: bool

record run_budgets =
  rb_max_tokens :: "int option"
  rb_max_usd :: "pyfloat option"
  rb_runs :: "string \<rightharpoonup> ledger_state"

definition fresh_run :: ledger_state where
  "fresh_run = \<lparr>used_tokens = 0, used_usd = 0, held_tokens = 0, held_usd = 0, rs_calls = 0,
     rs_input_tokens = 0, rs_output_tokens = 0, incomplete = False\<rparr>"

definition usd_or_zero :: "pyfloat option \<Rightarrow> pyfloat" where
  "usd_or_zero u = (case u of None \<Rightarrow> 0 | Some v \<Rightarrow> v)"

definition reserve_state ::
  "int option \<Rightarrow> pyfloat option \<Rightarrow> int \<Rightarrow> pyfloat option \<Rightarrow> ledger_state \<Rightarrow> run_budget_exn + ledger_state" where
  "reserve_state mt mu tokens usd st =
     (let held = st\<lparr>held_tokens := held_tokens st + tokens, held_usd := held_usd st + usd_or_zero usd\<rparr>
      in case mt of
        Some m \<Rightarrow>
          if used_tokens st + held_tokens st + tokens > m
          then Inl (RunBudgetExceeded ''run token budget exhausted'')
          else (case mu of None \<Rightarrow> Inr held
                | Some mx \<Rightarrow> (case usd of
                    None \<Rightarrow> Inl (RunBudgetExceeded ''cost unknown; run USD budget cannot hold'')
                  | Some u \<Rightarrow> if used_usd st + held_usd st + u > mx
                              then Inl (RunBudgetExceeded ''run USD budget exhausted'') else Inr held))
      | None \<Rightarrow>
          (case mu of None \<Rightarrow> Inr held
           | Some mx \<Rightarrow> (case usd of
               None \<Rightarrow> Inl (RunBudgetExceeded ''cost unknown; run USD budget cannot hold'')
             | Some u \<Rightarrow> if used_usd st + held_usd st + u > mx
                         then Inl (RunBudgetExceeded ''run USD budget exhausted'') else Inr held)))"

definition setdefault_run :: "string \<Rightarrow> run_budgets \<Rightarrow> ledger_state" where
  "setdefault_run run_id b = (case rb_runs b run_id of None \<Rightarrow> fresh_run | Some st \<Rightarrow> st)"

definition put_run :: "string \<Rightarrow> ledger_state \<Rightarrow> run_budgets \<Rightarrow> run_budgets" where
  "put_run run_id st b = b\<lparr>rb_runs := (rb_runs b)(run_id \<mapsto> st)\<rparr>"

definition rb_reserve ::
  "string \<Rightarrow> int \<Rightarrow> pyfloat option \<Rightarrow> run_budgets \<Rightarrow> (run_budget_exn + reservation) \<times> run_budgets" where
  "rb_reserve run_id tokens usd b =
     (let st = setdefault_run run_id b in
      case reserve_state (rb_max_tokens b) (rb_max_usd b) tokens usd st of
        Inl e \<Rightarrow> (Inl e, put_run run_id st b)
      | Inr st' \<Rightarrow> (Inr \<lparr>rv_run_id = run_id, rv_tokens = tokens, rv_usd = usd\<rparr>, put_run run_id st' b))"

definition unhold :: "reservation \<Rightarrow> ledger_state \<Rightarrow> ledger_state" where
  "unhold r st = st\<lparr>held_tokens := held_tokens st - rv_tokens r, held_usd := held_usd st - usd_or_zero (rv_usd r)\<rparr>"

definition rb_release :: "reservation \<Rightarrow> run_budgets \<Rightarrow> run_budget_exn + run_budgets" where
  "rb_release r b = (case rb_runs b (rv_run_id r) of
       None \<Rightarrow> Inl (NoSuchRun (rv_run_id r))
     | Some st \<Rightarrow> Inr (put_run (rv_run_id r) (unhold r st) b))"

definition commit_state ::
  "reservation \<Rightarrow> int option \<Rightarrow> int option \<Rightarrow> pyfloat option \<Rightarrow> ledger_state \<Rightarrow> ledger_state" where
  "commit_state r input output usd st0 =
     (let st = (unhold r st0)\<lparr>rs_calls := rs_calls st0 + 1\<rparr>;
          unknown = st\<lparr>used_tokens := used_tokens st + rv_tokens r,
                       used_usd := used_usd st + usd_or_zero (rv_usd r), incomplete := True\<rparr>
      in case input of None \<Rightarrow> unknown | Some i \<Rightarrow> (case output of None \<Rightarrow> unknown | Some out \<Rightarrow>
           let st2 = st\<lparr>rs_input_tokens := rs_input_tokens st + i, rs_output_tokens := rs_output_tokens st + out,
                        used_tokens := used_tokens st + (i + out)\<rparr>
           in (case usd of
                 None \<Rightarrow> st2\<lparr>used_usd := used_usd st2 + usd_or_zero (rv_usd r), incomplete := True\<rparr>
               | Some u \<Rightarrow> st2\<lparr>used_usd := used_usd st2 + u\<rparr>)))"

definition rb_commit ::
  "reservation \<Rightarrow> int option \<Rightarrow> int option \<Rightarrow> pyfloat option \<Rightarrow> run_budgets \<Rightarrow> run_budget_exn + run_budgets" where
  "rb_commit r input output usd b = (case rb_runs b (rv_run_id r) of
       None \<Rightarrow> Inl (NoSuchRun (rv_run_id r))
     | Some st \<Rightarrow> Inr (put_run (rv_run_id r) (commit_state r input output usd st) b))"

record budget_summary =
  bs_calls :: nat
  bs_input_tokens :: int
  bs_output_tokens :: int
  budget_tokens_used :: int
  budget_usd_used :: pyfloat
  bs_incomplete :: bool

definition round9 :: "pyfloat \<Rightarrow> pyfloat" where
  "round9 x = of_int (py_round (x * 1000000000)) / 1000000000"

definition rb_summary :: "string \<Rightarrow> run_budgets \<Rightarrow> budget_summary" where
  "rb_summary run_id b = (let s = setdefault_run run_id b in
     \<lparr>bs_calls = rs_calls s, bs_input_tokens = rs_input_tokens s, bs_output_tokens = rs_output_tokens s,
      budget_tokens_used = used_tokens s, budget_usd_used = round9 (used_usd s), bs_incomplete = incomplete s\<rparr>)"

definition rb_forget :: "string \<Rightarrow> run_budgets \<Rightarrow> run_budgets" where
  "rb_forget run_id b = b\<lparr>rb_runs := (rb_runs b)(run_id := None)\<rparr>"

lemmas ledger_state_defs [app_defs] =
  fresh_run_def usd_or_zero_def unhold_def put_run_def setdefault_run_def

text \<open>A reservation that passes a cap is refused: each cap of the ledger is a capped budget.\<close>

interpretation run_tokens: capped_budget
  "\<lambda>(tokens, usd) st. case reserve_state (Some m) mu tokens usd st of Inl _ \<Rightarrow> None | Inr t \<Rightarrow> Some t"
  "\<lambda>st. used_tokens st + held_tokens st" m for m mu
  by unfold_locales
     (auto simp: reserve_state_def Let_def split: sum.splits option.splits if_splits)

interpretation run_usd: capped_budget
  "\<lambda>(tokens, usd) st. case reserve_state mt (Some m) tokens usd st of Inl _ \<Rightarrow> None | Inr t \<Rightarrow> Some t"
  "\<lambda>st. used_usd st + held_usd st" m for mt m
  by unfold_locales
     (auto simp: reserve_state_def usd_or_zero_def Let_def split: sum.splits option.splits if_splits)

lemma reserve_state_held:
  assumes "reserve_state mt mu tokens usd st = Inr st'"
  shows "st' = st\<lparr>held_tokens := held_tokens st + tokens, held_usd := held_usd st + usd_or_zero usd\<rparr>"
  using assms by (auto simp: reserve_state_def Let_def split: option.splits if_splits)

subsection \<open>All interleavings\<close>

text \<open>
  The ledger under any interleaving of calls: \<open>open\<close> is the reservations granted and not yet settled,
  \<open>over\<close> and \<open>over_usd\<close> are what commits reported beyond their reservation, per run. Callers settle a
  reservation once, and drop a run only when nothing of it is open.
\<close>

record ledger =
  lg_budgets :: run_budgets
  lg_open :: "reservation list"
  lg_over :: "string \<Rightarrow> int"
  lg_over_usd :: "string \<Rightarrow> pyfloat"

definition excess_tokens :: "reservation \<Rightarrow> int option \<Rightarrow> int option \<Rightarrow> int" where
  "excess_tokens r input output = (case (input, output) of
     (Some i, Some out) \<Rightarrow> max 0 (i + out - rv_tokens r) | _ \<Rightarrow> 0)"

definition excess_usd :: "reservation \<Rightarrow> int option \<Rightarrow> int option \<Rightarrow> pyfloat option \<Rightarrow> pyfloat" where
  "excess_usd r input output usd = (case (input, output, usd) of
     (Some i, Some out, Some u) \<Rightarrow> max 0 (u - usd_or_zero (rv_usd r)) | _ \<Rightarrow> 0)"

inductive ledger_step :: "ledger \<Rightarrow> ledger \<Rightarrow> bool" where
  ls_reserve: "rb_reserve run tokens usd (lg_budgets s) = (Inr r, b) \<Longrightarrow> 0 \<le> tokens \<Longrightarrow> 0 \<le> usd_or_zero usd \<Longrightarrow>
     ledger_step s (s\<lparr>lg_budgets := b, lg_open := r # lg_open s\<rparr>)"
| ls_refused: "rb_reserve run tokens usd (lg_budgets s) = (Inl e, b) \<Longrightarrow> ledger_step s (s\<lparr>lg_budgets := b\<rparr>)"
| ls_release: "r \<in> set (lg_open s) \<Longrightarrow> rb_release r (lg_budgets s) = Inr b \<Longrightarrow>
     ledger_step s (s\<lparr>lg_budgets := b, lg_open := remove1 r (lg_open s)\<rparr>)"
| ls_commit: "r \<in> set (lg_open s) \<Longrightarrow> rb_commit r input output usd (lg_budgets s) = Inr b \<Longrightarrow>
     ledger_step s (s\<lparr>lg_budgets := b, lg_open := remove1 r (lg_open s),
       lg_over := (lg_over s)(rv_run_id r := lg_over s (rv_run_id r) + excess_tokens r input output),
       lg_over_usd := (lg_over_usd s)(rv_run_id r := lg_over_usd s (rv_run_id r) + excess_usd r input output usd)\<rparr>)"
| ls_forget: "\<forall>r \<in> set (lg_open s). rv_run_id r \<noteq> run \<Longrightarrow>
     ledger_step s (s\<lparr>lg_budgets := rb_forget run (lg_budgets s), lg_over := (lg_over s)(run := 0),
       lg_over_usd := (lg_over_usd s)(run := 0)\<rparr>)"

definition ledger_init :: "int option \<Rightarrow> pyfloat option \<Rightarrow> ledger \<Rightarrow> bool" where
  "ledger_init mt mu s \<longleftrightarrow> s = \<lparr>lg_budgets = \<lparr>rb_max_tokens = mt, rb_max_usd = mu, rb_runs = Map.empty\<rparr>,
     lg_open = [], lg_over = (\<lambda>_. 0), lg_over_usd = (\<lambda>_. 0)\<rparr>"

definition open_of :: "string \<Rightarrow> reservation list \<Rightarrow> reservation list" where
  "open_of run rs = filter (\<lambda>r. rv_run_id r = run) rs"

definition run_ok :: "int option \<Rightarrow> pyfloat option \<Rightarrow> int \<Rightarrow> pyfloat \<Rightarrow> reservation list \<Rightarrow> ledger_state \<Rightarrow> bool" where
  "run_ok mt mu ov ovu rs st \<longleftrightarrow>
     held_tokens st = sum_list (map rv_tokens rs) \<and>
     held_usd st = sum_list (map (\<lambda>r. usd_or_zero (rv_usd r)) rs) \<and>
     (\<forall>r \<in> set rs. 0 \<le> rv_tokens r \<and> 0 \<le> usd_or_zero (rv_usd r)) \<and> 0 \<le> ov \<and> 0 \<le> ovu \<and>
     (\<forall>m. mt = Some m \<longrightarrow> used_tokens st + held_tokens st \<le> max 0 m + ov) \<and>
     (\<forall>m. mu = Some m \<longrightarrow> used_usd st + held_usd st \<le> max 0 m + ovu) \<and>
     (\<not> incomplete st \<longrightarrow> used_tokens st = rs_input_tokens st + rs_output_tokens st)"

definition ledger_inv :: "int option \<Rightarrow> pyfloat option \<Rightarrow> ledger \<Rightarrow> bool" where
  "ledger_inv mt mu s \<longleftrightarrow>
     rb_max_tokens (lg_budgets s) = mt \<and> rb_max_usd (lg_budgets s) = mu \<and>
     (\<forall>run. run_ok mt mu (lg_over s run) (lg_over_usd s run) (open_of run (lg_open s)) (setdefault_run run (lg_budgets s))) \<and>
     (\<forall>r \<in> set (lg_open s). rb_runs (lg_budgets s) (rv_run_id r) \<noteq> None)"

lemma open_of_simps [simp]:
  "open_of run [] = []"
  "open_of run (r # rs) = (if rv_run_id r = run then r # open_of run rs else open_of run rs)"
  by (simp_all add: open_of_def)

lemma open_of_remove1:
  "open_of run (remove1 r rs) = (if rv_run_id r = run then remove1 r (open_of run rs) else open_of run rs)"
  by (induction rs) auto

lemma open_of_mem [simp]: "r \<in> set (open_of run rs) \<longleftrightarrow> r \<in> set rs \<and> rv_run_id r = run"
  by (auto simp: open_of_def)

lemma sum_list_remove1:
  fixes f :: "'a \<Rightarrow> 'b :: ab_group_add"
  shows "x \<in> set xs \<Longrightarrow> sum_list (map f (remove1 x xs)) = sum_list (map f xs) - f x"
  by (induction xs) (auto simp: algebra_simps)

lemma put_run_get [simp]:
  "setdefault_run run (put_run run' st b) = (if run = run' then st else setdefault_run run b)"
  "rb_runs (put_run run' st b) = (rb_runs b)(run' \<mapsto> st)"
  "rb_max_tokens (put_run run' st b) = rb_max_tokens b" "rb_max_usd (put_run run' st b) = rb_max_usd b"
  by (auto simp: setdefault_run_def put_run_def)

lemma run_ok_reserve:
  assumes "run_ok mt mu ov ovu rs st" "reserve_state mt mu tokens usd st = Inr st'"
    "rv_tokens r = tokens" "rv_usd r = usd" "0 \<le> tokens" "0 \<le> usd_or_zero usd"
  shows "run_ok mt mu ov ovu (r # rs) st'"
proof -
  have st': "st' = st\<lparr>held_tokens := held_tokens st + tokens, held_usd := held_usd st + usd_or_zero usd\<rparr>"
    using assms(2) by (rule reserve_state_held)
  have "mt = Some m \<Longrightarrow> used_tokens st' + held_tokens st' \<le> m" for m
    using run_tokens.reserve_capped [of m mu "(tokens, usd)" st st'] assms(2) by simp
  moreover have "mu = Some m \<Longrightarrow> used_usd st' + held_usd st' \<le> m" for m
    using run_usd.reserve_capped [of mt m "(tokens, usd)" st st'] assms(2) by simp
  moreover have "0 \<le> ov" "0 \<le> ovu" using assms(1) by (auto simp: run_ok_def)
  ultimately have "\<forall>m. mt = Some m \<longrightarrow> used_tokens st' + held_tokens st' \<le> max 0 m + ov"
    "\<forall>m. mu = Some m \<longrightarrow> used_usd st' + held_usd st' \<le> max 0 m + ovu" by fastforce+
  with assms st' show ?thesis by (simp add: run_ok_def)
qed

lemma run_ok_release:
  assumes "run_ok mt mu ov ovu rs st" "r \<in> set rs"
  shows "run_ok mt mu ov ovu (remove1 r rs) (unhold r st)"
proof -
  have nn: "0 \<le> rv_tokens r" "0 \<le> usd_or_zero (rv_usd r)" using assms by (auto simp: run_ok_def)
  have "mt = Some m \<Longrightarrow> used_tokens st + (held_tokens st - rv_tokens r) \<le> max 0 m + ov" for m
    using assms(1) nn by (fastforce simp: run_ok_def)
  moreover have "mu = Some m \<Longrightarrow> used_usd st + (held_usd st - usd_or_zero (rv_usd r)) \<le> max 0 m + ovu" for m
    using assms(1) nn by (fastforce simp: run_ok_def)
  ultimately show ?thesis
    using assms by (auto simp: run_ok_def unhold_def sum_list_remove1 dest: set_remove1_subset [THEN subsetD])
qed

lemma run_ok_commit:
  assumes "run_ok mt mu ov ovu rs st" "r \<in> set rs"
  shows "run_ok mt mu (ov + excess_tokens r input output) (ovu + excess_usd r input output usd)
    (remove1 r rs) (commit_state r input output usd st)" (is "run_ok mt mu ?ov ?ovu _ ?st")
proof -
  have ok: "run_ok mt mu ov ovu rs st" by fact
  have nn: "0 \<le> rv_tokens r" "0 \<le> usd_or_zero (rv_usd r)" using assms by (auto simp: run_ok_def)
  have held: "held_tokens ?st = held_tokens (unhold r st)" "held_usd ?st = held_usd (unhold r st)"
    by (simp_all add: commit_state_def Let_def split: option.splits)
  have ex: "0 \<le> excess_tokens r input output" "0 \<le> excess_usd r input output usd"
    by (simp_all add: excess_tokens_def excess_usd_def split: option.splits)
  have tok: "used_tokens ?st + held_tokens ?st \<le> used_tokens st + held_tokens st + excess_tokens r input output"
    by (simp add: commit_state_def unhold_def excess_tokens_def Let_def max_def split: option.splits)
  have usd: "used_usd ?st + held_usd ?st \<le> used_usd st + held_usd st + excess_usd r input output usd"
    using nn by (simp add: commit_state_def unhold_def excess_usd_def Let_def max_def split: option.splits)
  have inc: "\<not> incomplete ?st \<longrightarrow> used_tokens ?st = rs_input_tokens ?st + rs_output_tokens ?st"
    using ok by (simp add: run_ok_def commit_state_def unhold_def Let_def split: option.splits)
  have "mt = Some m \<Longrightarrow> used_tokens ?st + held_tokens ?st \<le> max 0 m + ?ov" for m
    using ok tok by (fastforce simp: run_ok_def)
  moreover have "mu = Some m \<Longrightarrow> used_usd ?st + held_usd ?st \<le> max 0 m + ?ovu" for m
    using ok usd by (fastforce simp: run_ok_def)
  ultimately show ?thesis
    using run_ok_release [OF assms] ex inc by (simp add: run_ok_def held)
qed

lemma fresh_run_ok: "0 \<le> ov \<Longrightarrow> 0 \<le> ovu \<Longrightarrow> run_ok mt mu ov ovu [] fresh_run"
  by (simp add: run_ok_def fresh_run_def)

lemma ledger_inv_init: "ledger_init mt mu s \<Longrightarrow> ledger_inv mt mu s"
  by (simp add: ledger_init_def ledger_inv_def setdefault_run_def fresh_run_ok)

lemma ledger_inv_reserve:
  assumes inv: "ledger_inv mt mu s" and r: "rb_reserve run tokens usd (lg_budgets s) = (Inr r, b)"
    and nn: "0 \<le> tokens" "0 \<le> usd_or_zero usd"
  shows "ledger_inv mt mu (s\<lparr>lg_budgets := b, lg_open := r # lg_open s\<rparr>)"
proof -
  obtain st' where st': "reserve_state mt mu tokens usd (setdefault_run run (lg_budgets s)) = Inr st'"
    and b: "b = put_run run st' (lg_budgets s)"
    and rv: "r = \<lparr>rv_run_id = run, rv_tokens = tokens, rv_usd = usd\<rparr>"
    using r inv by (auto simp: rb_reserve_def ledger_inv_def Let_def split: sum.splits)
  have "run_ok mt mu (lg_over s run) (lg_over_usd s run) (r # open_of run (lg_open s)) st'"
    by (rule run_ok_reserve [OF _ st']) (use inv nn rv in \<open>auto simp: ledger_inv_def\<close>)
  then show ?thesis using inv b rv by (auto simp: ledger_inv_def)
qed

lemma ledger_inv_refused:
  assumes "ledger_inv mt mu s" "rb_reserve run tokens usd (lg_budgets s) = (Inl e, b)"
  shows "ledger_inv mt mu (s\<lparr>lg_budgets := b\<rparr>)"
proof -
  have "b = put_run run (setdefault_run run (lg_budgets s)) (lg_budgets s)"
    using assms(2) by (auto simp: rb_reserve_def Let_def split: sum.splits)
  with assms(1) show ?thesis by (auto simp: ledger_inv_def)
qed

lemma ledger_inv_settle:
  assumes inv: "ledger_inv mt mu s" and r: "r \<in> set (lg_open s)"
    and ok: "run_ok mt mu ov ovu (remove1 r (open_of (rv_run_id r) (lg_open s))) st"
  shows "ledger_inv mt mu (s\<lparr>lg_budgets := put_run (rv_run_id r) st (lg_budgets s), lg_open := remove1 r (lg_open s),
    lg_over := (lg_over s)(rv_run_id r := ov), lg_over_usd := (lg_over_usd s)(rv_run_id r := ovu)\<rparr>)"
  using assms by (auto simp: ledger_inv_def open_of_remove1 dest: set_remove1_subset [THEN subsetD])

lemma ledger_inv_run:
  assumes "ledger_inv mt mu s" "rb_runs (lg_budgets s) run = Some st"
  shows "run_ok mt mu (lg_over s run) (lg_over_usd s run) (open_of run (lg_open s)) st"
proof -
  have "st = setdefault_run run (lg_budgets s)" using assms(2) by (simp add: setdefault_run_def)
  with assms(1) show ?thesis by (simp add: ledger_inv_def)
qed

lemma ledger_inv_release:
  assumes inv: "ledger_inv mt mu s" and r: "r \<in> set (lg_open s)" and b: "rb_release r (lg_budgets s) = Inr b"
  shows "ledger_inv mt mu (s\<lparr>lg_budgets := b, lg_open := remove1 r (lg_open s)\<rparr>)"
proof -
  obtain st where st: "rb_runs (lg_budgets s) (rv_run_id r) = Some st"
    and b': "b = put_run (rv_run_id r) (unhold r st) (lg_budgets s)"
    using b by (auto simp: rb_release_def split: option.splits)
  have "run_ok mt mu (lg_over s (rv_run_id r)) (lg_over_usd s (rv_run_id r))
      (remove1 r (open_of (rv_run_id r) (lg_open s))) (unhold r st)"
    by (rule run_ok_release [OF ledger_inv_run [OF inv st]]) (simp add: r)
  from ledger_inv_settle [OF inv r this] show ?thesis by (simp add: b')
qed

lemma ledger_inv_commit:
  assumes inv: "ledger_inv mt mu s" and r: "r \<in> set (lg_open s)"
    and b: "rb_commit r input output usd (lg_budgets s) = Inr b"
  shows "ledger_inv mt mu (s\<lparr>lg_budgets := b, lg_open := remove1 r (lg_open s),
       lg_over := (lg_over s)(rv_run_id r := lg_over s (rv_run_id r) + excess_tokens r input output),
       lg_over_usd := (lg_over_usd s)(rv_run_id r := lg_over_usd s (rv_run_id r) + excess_usd r input output usd)\<rparr>)"
proof -
  obtain st where st: "rb_runs (lg_budgets s) (rv_run_id r) = Some st"
    and b': "b = put_run (rv_run_id r) (commit_state r input output usd st) (lg_budgets s)"
    using b by (auto simp: rb_commit_def split: option.splits)
  have "run_ok mt mu (lg_over s (rv_run_id r) + excess_tokens r input output)
      (lg_over_usd s (rv_run_id r) + excess_usd r input output usd)
      (remove1 r (open_of (rv_run_id r) (lg_open s))) (commit_state r input output usd st)"
    by (rule run_ok_commit [OF ledger_inv_run [OF inv st]]) (simp add: r)
  from ledger_inv_settle [OF inv r this] show ?thesis by (simp add: b')
qed

lemma ledger_inv_forget:
  assumes inv: "ledger_inv mt mu s" and none: "\<forall>r \<in> set (lg_open s). rv_run_id r \<noteq> run"
  shows "ledger_inv mt mu (s\<lparr>lg_budgets := rb_forget run (lg_budgets s), lg_over := (lg_over s)(run := 0),
       lg_over_usd := (lg_over_usd s)(run := 0)\<rparr>)"
proof -
  have nil: "open_of run (lg_open s) = []" using none by (auto simp: open_of_def filter_empty_conv)
  have "setdefault_run run' (rb_forget run b) = (if run' = run then fresh_run else setdefault_run run' b)" for run' b
    by (simp add: setdefault_run_def rb_forget_def)
  with inv none nil show ?thesis by (simp add: ledger_inv_def fresh_run_ok) (simp add: rb_forget_def)
qed

interpretation ledger: inv_system "ledger_init mt mu" ledger_step "ledger_inv mt mu" for mt mu
proof unfold_locales
  show "ledger_inv mt mu s" if "ledger_init mt mu s" for mt mu s using that by (rule ledger_inv_init)
  show "ledger_inv mt mu t" if "ledger_inv mt mu s" "ledger_step s t" for mt mu s t
    using that(2,1)
    by cases (auto intro: ledger_inv_reserve ledger_inv_refused ledger_inv_release ledger_inv_commit ledger_inv_forget)
qed

text \<open>
  C10. In every state the ledger reaches, whatever the interleaving of callers, a run's spend and holds
  together are within each cap, plus only what commits reported beyond their own reservation; the
  hold is exactly the sum of the open reservations, so none is lost or returned twice, and the
  summary's token total is exact unless it is flagged incomplete.
\<close>

theorem run_budget_capped:
  assumes "reach (ledger_init (Some m) (Some mx)) ledger_step s" "rb_runs (lg_budgets s) run = Some st"
  shows "used_tokens st + held_tokens st \<le> max 0 m + lg_over s run \<and>
    used_usd st + held_usd st \<le> max 0 mx + lg_over_usd s run \<and>
    held_tokens st = (\<Sum>r \<leftarrow> open_of run (lg_open s). rv_tokens r) \<and>
    held_usd st = (\<Sum>r \<leftarrow> open_of run (lg_open s). usd_or_zero (rv_usd r)) \<and>
    (incomplete st \<or> used_tokens st = rs_input_tokens st + rs_output_tokens st)"
  using ledger_inv_run [OF ledger.inv_reach [OF assms(1)] assms(2)] by (auto simp: run_ok_def)

text \<open>An open reservation can always be settled: no caller meets the missing-run error.\<close>

lemma open_settles:
  assumes "reach (ledger_init mt mu) ledger_step s" "r \<in> set (lg_open s)"
  shows "\<exists>b. rb_release r (lg_budgets s) = Inr b" "\<exists>b. rb_commit r input output usd (lg_budgets s) = Inr b"
  using ledger.inv_reach [OF assms(1)] assms(2)
  by (auto simp: ledger_inv_def rb_release_def rb_commit_def)

definition ledger_demo :: "ledger" where
  "ledger_demo = \<lparr>lg_budgets = snd (rb_reserve ''r'' 60 (Some (1/2)) \<lparr>rb_max_tokens = Some 100, rb_max_usd = Some 1, rb_runs = Map.empty\<rparr>),
     lg_open = [\<lparr>rv_run_id = ''r'', rv_tokens = 60, rv_usd = Some (1/2)\<rparr>], lg_over = (\<lambda>_. 0), lg_over_usd = (\<lambda>_. 0)\<rparr>"

lemma ledger_demo_reach: "reach (ledger_init (Some 100) (Some 1)) ledger_step ledger_demo"
proof -
  let ?s = "\<lparr>lg_budgets = \<lparr>rb_max_tokens = Some 100, rb_max_usd = Some 1, rb_runs = Map.empty\<rparr>,
     lg_open = [], lg_over = (\<lambda>_. 0), lg_over_usd = (\<lambda>_. 0)\<rparr>"
  have "reach (ledger_init (Some 100) (Some 1)) ledger_step ?s"
    by (rule reach_init) (simp add: ledger_init_def)
  moreover have "ledger_step ?s (?s\<lparr>lg_budgets := lg_budgets ledger_demo, lg_open := lg_open ledger_demo\<rparr>)"
    using ls_reserve [of "''r''" 60 "Some (1/2)" ?s "\<lparr>rv_run_id = ''r'', rv_tokens = 60, rv_usd = Some (1/2)\<rparr>" "lg_budgets ledger_demo"]
    by (simp add: ledger_demo_def rb_reserve_def reserve_state_def ledger_state_defs)
  ultimately show ?thesis using reach_step by (fastforce simp: ledger_demo_def)
qed

theorem run_budget_capped_witness:
  "used_tokens (setdefault_run ''r'' (lg_budgets ledger_demo)) + held_tokens (setdefault_run ''r'' (lg_budgets ledger_demo))
     \<le> max 0 100 + lg_over ledger_demo ''r''"
proof -
  have "rb_runs (lg_budgets ledger_demo) ''r'' = Some (setdefault_run ''r'' (lg_budgets ledger_demo))"
    by (simp add: ledger_demo_def rb_reserve_def reserve_state_def ledger_state_defs)
  from run_budget_capped [OF ledger_demo_reach this] show ?thesis by blast
qed

section \<open>The counters of one orchestration run\<close>

datatype budget_exn = BudgetExceeded (be_limit: string) (be_current: pyfloat)

record execution_budgets =
  max_iterations :: int
  max_llm_calls :: int
  max_tool_calls :: int
  timeout_seconds :: pyfloat
  max_input_tokens :: int
  max_output_tokens :: int
  max_estimated_cost_usd :: pyfloat
  max_tool_result_bytes :: int

definition default_budgets :: execution_budgets where
  "default_budgets = \<lparr>max_iterations = 5, max_llm_calls = 6, max_tool_calls = 5, timeout_seconds = 60,
     max_input_tokens = 20000, max_output_tokens = 4000, max_estimated_cost_usd = 1 / 2,
     max_tool_result_bytes = 32768\<rparr>"

record budget_tracker =
  budgets :: execution_budgets
  start_time :: pyfloat
  iteration_count :: int
  llm_call_count :: int
  tool_call_count :: int
  bt_input_tokens :: int
  bt_output_tokens :: int
  estimated_cost_usd :: pyfloat
  budget_cost_usd :: pyfloat
  cost_indeterminate :: bool
  cost_unresolvable :: bool

definition new_tracker :: "execution_budgets \<Rightarrow> pyfloat \<Rightarrow> budget_tracker" where
  "new_tracker b now = \<lparr>budgets = b, start_time = now, iteration_count = 0, llm_call_count = 0, tool_call_count = 0,
     bt_input_tokens = 0, bt_output_tokens = 0, estimated_cost_usd = 0, budget_cost_usd = 0,
     cost_indeterminate = False, cost_unresolvable = False\<rparr>"

definition elapsed_seconds :: "pyfloat \<Rightarrow> budget_tracker \<Rightarrow> pyfloat" where
  "elapsed_seconds now t = now - start_time t"

definition total_tokens :: "budget_tracker \<Rightarrow> int" where
  "total_tokens t = bt_input_tokens t + bt_output_tokens t"

text \<open>An operation returns the error it raised, if any, and the tracker as it left it.\<close>

definition check_deadline :: "pyfloat \<Rightarrow> budget_tracker \<Rightarrow> budget_exn option" where
  "check_deadline now t = (if elapsed_seconds now t > timeout_seconds (budgets t)
     then Some (BudgetExceeded ''timeout_seconds'' (elapsed_seconds now t)) else None)"

definition record_iteration :: "pyfloat \<Rightarrow> budget_tracker \<Rightarrow> budget_exn option \<times> budget_tracker" where
  "record_iteration now t0 =
     (let t = t0\<lparr>iteration_count := iteration_count t0 + 1\<rparr> in
      if iteration_count t > max_iterations (budgets t)
      then (Some (BudgetExceeded ''max_iterations'' (of_int (iteration_count t))), t)
      else (check_deadline now t, t))"

record llm_usage =
  lu_input :: int
  lu_output :: int
  lu_cost :: pyfloat
  lu_budget_cost :: "pyfloat option"
  lu_indeterminate :: bool
  lu_unresolvable :: bool

definition charge_cost :: "llm_usage \<Rightarrow> budget_tracker \<Rightarrow> budget_tracker" where
  "charge_cost u t = t\<lparr>estimated_cost_usd := estimated_cost_usd t + lu_cost u,
     budget_cost_usd := budget_cost_usd t + (case lu_budget_cost u of None \<Rightarrow> lu_cost u | Some c \<Rightarrow> c),
     cost_indeterminate := cost_indeterminate t \<or> lu_indeterminate u \<or> lu_unresolvable u,
     cost_unresolvable := cost_unresolvable t \<or> lu_unresolvable u\<rparr>"

definition record_llm_call :: "pyfloat \<Rightarrow> llm_usage \<Rightarrow> budget_tracker \<Rightarrow> budget_exn option \<times> budget_tracker" where
  "record_llm_call now u t0 =
     (let b = budgets t0; t = t0\<lparr>llm_call_count := llm_call_count t0 + 1\<rparr> in
      if llm_call_count t > max_llm_calls b
      then (Some (BudgetExceeded ''max_llm_calls'' (of_int (llm_call_count t))), t)
      else let t = t\<lparr>bt_input_tokens := bt_input_tokens t + lu_input u\<rparr> in
      if bt_input_tokens t > max_input_tokens b
      then (Some (BudgetExceeded ''max_input_tokens'' (of_int (bt_input_tokens t))), t)
      else let t = t\<lparr>bt_output_tokens := bt_output_tokens t + lu_output u\<rparr> in
      if bt_output_tokens t > max_output_tokens b
      then (Some (BudgetExceeded ''max_output_tokens'' (of_int (bt_output_tokens t))), t)
      else let t = charge_cost u t in
      if budget_cost_usd t > max_estimated_cost_usd b
      then (Some (BudgetExceeded ''max_estimated_cost_usd'' (budget_cost_usd t)), t)
      else (check_deadline now t, t))"

definition ensure_cost_determinate :: "budget_tracker \<Rightarrow> budget_exn option" where
  "ensure_cost_determinate t = (if cost_unresolvable t
     then Some (BudgetExceeded ''cost_indeterminate'' (budget_cost_usd t)) else None)"

definition record_tool_call :: "pyfloat \<Rightarrow> int \<Rightarrow> budget_tracker \<Rightarrow> budget_exn option \<times> budget_tracker" where
  "record_tool_call now result_bytes t0 =
     (let b = budgets t0; t = t0\<lparr>tool_call_count := tool_call_count t0 + 1\<rparr> in
      if tool_call_count t > max_tool_calls b
      then (Some (BudgetExceeded ''max_tool_calls'' (of_int (tool_call_count t))), t)
      else if result_bytes > max_tool_result_bytes b
      then (Some (BudgetExceeded ''max_tool_result_bytes'' (of_int result_bytes)), t)
      else (check_deadline now t, t))"

text \<open>
  A run calls these in any order until one raises; \<open>track\<close> is the tracker after the calls and the
  first error.
\<close>

datatype track_op = Op_iteration pyfloat | Op_llm pyfloat llm_usage | Op_tool pyfloat int

primrec run_op :: "track_op \<Rightarrow> budget_tracker \<Rightarrow> budget_exn option \<times> budget_tracker" where
  "run_op (Op_iteration now) t = record_iteration now t"
| "run_op (Op_llm now u) t = record_llm_call now u t"
| "run_op (Op_tool now n) t = record_tool_call now n t"

fun track :: "track_op list \<Rightarrow> budget_tracker \<Rightarrow> budget_exn option \<times> budget_tracker" where
  "track [] t = (None, t)"
| "track (op # ops) t = (case run_op op t of (Some e, t') \<Rightarrow> (Some e, t') | (None, t') \<Rightarrow> track ops t')"

definition within_budgets :: "budget_tracker \<Rightarrow> bool" where
  "within_budgets t \<longleftrightarrow> (let b = budgets t in
     iteration_count t \<le> max_iterations b \<and> llm_call_count t \<le> max_llm_calls b \<and>
     tool_call_count t \<le> max_tool_calls b \<and> bt_input_tokens t \<le> max_input_tokens b \<and>
     bt_output_tokens t \<le> max_output_tokens b \<and> budget_cost_usd t \<le> max_estimated_cost_usd b)"

lemmas track_defs [app_defs] =
  record_iteration_def record_llm_call_def record_tool_call_def charge_cost_def check_deadline_def

lemma run_op_within:
  assumes "within_budgets t" "run_op op t = (None, t')"
  shows "within_budgets t' \<and> budgets t' = budgets t \<and> start_time t' = start_time t"
  using assms by (cases op) (auto simp: track_defs within_budgets_def Let_def split: if_splits)

lemma track_within: "within_budgets t \<Longrightarrow> track ops t = (None, t') \<Longrightarrow> within_budgets t' \<and> budgets t' = budgets t"
proof (induction ops t rule: track.induct)
  case (2 op ops t)
  then obtain t1 where t1: "run_op op t = (None, t1)" and r: "track ops t1 = (None, t')"
    by (auto split: prod.splits option.splits)
  have w: "within_budgets t1 \<and> budgets t1 = budgets t" using run_op_within [OF 2(2) t1] by simp
  with "2.IH" [OF t1 [symmetric] refl] r show ?case by simp
qed auto

text \<open>Counters of the calls made by a sequence of operations.\<close>

primrec llm_calls :: "track_op \<Rightarrow> nat" where
  "llm_calls (Op_iteration _) = 0" | "llm_calls (Op_llm _ _) = 1" | "llm_calls (Op_tool _ _) = 0"

primrec tool_calls :: "track_op \<Rightarrow> nat" where
  "tool_calls (Op_iteration _) = 0" | "tool_calls (Op_llm _ _) = 0" | "tool_calls (Op_tool _ _) = 1"

primrec op_cost :: "track_op \<Rightarrow> pyfloat" where
  "op_cost (Op_iteration _) = 0"
| "op_cost (Op_llm _ u) = (case lu_budget_cost u of None \<Rightarrow> lu_cost u | Some c \<Rightarrow> c)"
| "op_cost (Op_tool _ _) = 0"

lemma run_op_counts:
  assumes "run_op op t = (None, t')"
  shows "llm_call_count t' = llm_call_count t + int (llm_calls op)"
    "tool_call_count t' = tool_call_count t + int (tool_calls op)"
    "budget_cost_usd t' = budget_cost_usd t + op_cost op"
  using assms by (cases op; auto simp: track_defs Let_def split: if_splits)+

lemma track_counts:
  "track ops t = (None, t') \<Longrightarrow>
   llm_call_count t' = llm_call_count t + int (\<Sum>op \<leftarrow> ops. llm_calls op) \<and>
   tool_call_count t' = tool_call_count t + int (\<Sum>op \<leftarrow> ops. tool_calls op) \<and>
   budget_cost_usd t' = budget_cost_usd t + (\<Sum>op \<leftarrow> ops. op_cost op)"
proof (induction ops t rule: track.induct)
  case (2 op ops t)
  then obtain t1 where t1: "run_op op t = (None, t1)" and r: "track ops t1 = (None, t')"
    by (auto split: prod.splits option.splits)
  with "2.IH" [OF t1 [symmetric] refl r] run_op_counts [OF t1] show ?case by simp
qed auto

text \<open>
  C36. A run that was never stopped by its tracker made at most \<open>max_llm_calls\<close> model calls and
  \<open>max_tool_calls\<close> tool calls, and the cost it was charged, conservative bounds included, is at most
  \<open>max_estimated_cost_usd\<close>.
\<close>

theorem tracker_bounds_run:
  assumes "track ops (new_tracker b now) = (None, t)"
    and "0 \<le> max_iterations b" "0 \<le> max_llm_calls b" "0 \<le> max_tool_calls b" "0 \<le> max_input_tokens b"
      "0 \<le> max_output_tokens b" "0 \<le> max_estimated_cost_usd b"
  shows "int (\<Sum>op \<leftarrow> ops. llm_calls op) \<le> max_llm_calls b \<and>
    int (\<Sum>op \<leftarrow> ops. tool_calls op) \<le> max_tool_calls b \<and>
    (\<Sum>op \<leftarrow> ops. op_cost op) \<le> max_estimated_cost_usd b"
proof -
  have "within_budgets (new_tracker b now)" using assms(2-) by (simp add: within_budgets_def new_tracker_def)
  from track_within [OF this assms(1)] have w: "within_budgets t" "budgets t = b" by (simp_all add: new_tracker_def)
  from track_counts [OF assms(1)] w show ?thesis
    by (auto simp: within_budgets_def new_tracker_def Let_def)
qed

theorem tracker_bounds_run_witness:
  "int (\<Sum>op \<leftarrow> [Op_iteration 1, Op_llm 2 \<lparr>lu_input = 900, lu_output = 100, lu_cost = 1/100, lu_budget_cost = None,
     lu_indeterminate = False, lu_unresolvable = False\<rparr>, Op_tool 3 2048]. llm_calls op) \<le> max_llm_calls default_budgets"
proof (rule tracker_bounds_run [THEN conjunct1])
  show "track [Op_iteration 1, Op_llm 2 \<lparr>lu_input = 900, lu_output = 100, lu_cost = 1/100, lu_budget_cost = None,
     lu_indeterminate = False, lu_unresolvable = False\<rparr>, Op_tool 3 2048] (new_tracker default_budgets 0) =
    (None, (new_tracker default_budgets 0)\<lparr>iteration_count := 1, llm_call_count := 1, tool_call_count := 1,
       bt_input_tokens := 900, bt_output_tokens := 100, estimated_cost_usd := 1/100, budget_cost_usd := 1/100\<rparr>)"
    by (simp add: track_defs Let_def new_tracker_def default_budgets_def elapsed_seconds_def)
qed (simp_all add: default_budgets_def)

subsection \<open>The bounded retry\<close>

definition MAX_VALIDATION_RETRIES :: nat where "MAX_VALIDATION_RETRIES = 1"

definition MAX_ELAPSED_FRACTION :: pyfloat where "MAX_ELAPSED_FRACTION = 1 / 2"

definition retry_allowed :: "bool \<Rightarrow> pyfloat \<Rightarrow> budget_tracker \<Rightarrow> int \<Rightarrow> int \<Rightarrow> nat \<Rightarrow> bool" where
  "retry_allowed recoverable now t last_input last_output retries_used =
     (let b = budgets t in
      if retries_used \<ge> MAX_VALIDATION_RETRIES \<or> \<not> recoverable then False
      else if llm_call_count t + 2 > max_llm_calls b then False
      else if elapsed_seconds now t > timeout_seconds b * MAX_ELAPSED_FRACTION then False
      else if bt_input_tokens t + 2 * last_input > max_input_tokens b then False
      else if bt_output_tokens t + 2 * last_output > max_output_tokens b then False
      else True)"

text \<open>
  When a retry is allowed, the retry proposal and the final answer, each no larger than the last
  proposal, both fit: if their charges are within the cost limit and the deadline has not passed, both
  calls are recorded without an error.
\<close>

theorem retry_leaves_room:
  assumes "retry_allowed recoverable now t i out n"
    and "lu_input u \<le> i" "lu_input v \<le> i" "lu_output u \<le> out" "lu_output v \<le> out" "0 \<le> i" "0 \<le> out"
    and "budget_cost_usd t + op_cost (Op_llm now1 u) \<le> max_estimated_cost_usd (budgets t)"
    and "budget_cost_usd t + op_cost (Op_llm now1 u) + op_cost (Op_llm now2 v) \<le> max_estimated_cost_usd (budgets t)"
    and "elapsed_seconds now1 t \<le> timeout_seconds (budgets t)" "elapsed_seconds now2 t \<le> timeout_seconds (budgets t)"
  shows "\<exists>t'. track [Op_llm now1 u, Op_llm now2 v] t = (None, t')"
  using assms
  by (auto simp: retry_allowed_def track_defs elapsed_seconds_def Let_def split: if_splits)

theorem retry_leaves_room_witness:
  "\<exists>t'. track [Op_llm 10 \<lparr>lu_input = 900, lu_output = 100, lu_cost = 1/100, lu_budget_cost = None,
       lu_indeterminate = False, lu_unresolvable = False\<rparr>,
     Op_llm 20 \<lparr>lu_input = 900, lu_output = 80, lu_cost = 1/100, lu_budget_cost = None,
       lu_indeterminate = False, lu_unresolvable = False\<rparr>] (new_tracker default_budgets 0) = (None, t')"
  by (rule retry_leaves_room [of True 5 _ 900 100 0])
     (simp_all add: retry_allowed_def new_tracker_def default_budgets_def elapsed_seconds_def
        MAX_VALIDATION_RETRIES_def MAX_ELAPSED_FRACTION_def)

text \<open>
  The cost limit is not part of the test: a retry can be allowed although a call as expensive as the
  last one already exceeds it, so that the retry itself ends the run.
\<close>

theorem retry_ignores_cost:
  "let t = (new_tracker default_budgets 0)\<lparr>llm_call_count := 1, bt_input_tokens := 900, bt_output_tokens := 100,
             estimated_cost_usd := 3/10, budget_cost_usd := 3/10\<rparr>;
       u = \<lparr>lu_input = 900, lu_output = 100, lu_cost = 3/10, lu_budget_cost = None,
             lu_indeterminate = False, lu_unresolvable = False\<rparr>
   in retry_allowed True 5 t 900 100 0 \<and>
      fst (record_llm_call 6 u t) = Some (BudgetExceeded ''max_estimated_cost_usd'' (6/10))"
  by (simp add: retry_allowed_def track_defs new_tracker_def default_budgets_def elapsed_seconds_def
       MAX_VALIDATION_RETRIES_def MAX_ELAPSED_FRACTION_def Let_def)

section \<open>The shared monthly Bedrock allowance\<close>

text \<open>
  A \<open>Decimal\<close> is a number, an infinity or not a number; the arithmetic of the source stays within the
  28 digits of its default context, where it is exact. What \<open>Decimal(text)\<close> reads is an argument.
\<close>

datatype decimal = Dec rat | Dec_inf bool | Dec_nan

definition MICRO_USD_PER_USD :: int where "MICRO_USD_PER_USD = 1000000"

definition NOVA_MICRO_MAX_INPUT_TOKENS :: int where "NOVA_MICRO_MAX_INPUT_TOKENS = 128000"

definition NOVA_MICRO_MAX_OUTPUT_TOKENS :: int where "NOVA_MICRO_MAX_OUTPUT_TOKENS = 128"

definition NOVA_MICRO_INPUT_USD_PER_MILLION_TOKENS :: rat where
  "NOVA_MICRO_INPUT_USD_PER_MILLION_TOKENS = 35 / 1000"

definition NOVA_MICRO_OUTPUT_USD_PER_MILLION_TOKENS :: rat where
  "NOVA_MICRO_OUTPUT_USD_PER_MILLION_TOKENS = 140 / 1000"

definition NOVA_MICRO_MAX_CALL_RESERVATION_MICRO_USD :: int where
  "NOVA_MICRO_MAX_CALL_RESERVATION_MICRO_USD =
     \<lceil>(of_int NOVA_MICRO_MAX_INPUT_TOKENS * NOVA_MICRO_INPUT_USD_PER_MILLION_TOKENS
       + of_int NOVA_MICRO_MAX_OUTPUT_TOKENS * NOVA_MICRO_OUTPUT_USD_PER_MILLION_TOKENS)
      * of_int MICRO_USD_PER_USD / 1000000\<rceil>"

datatype bedrock_exn = BedrockBudgetExceeded | BedrockBudgetUnavailable | BadAllowance | Decimal_escape

definition monthly_limit_micro_usd :: "(string \<Rightarrow> decimal option) \<Rightarrow> string \<Rightarrow> bedrock_exn + int" where
  "monthly_limit_micro_usd parse value = (case parse value of
       None \<Rightarrow> Inl BadAllowance
     | Some Dec_nan \<Rightarrow> Inl Decimal_escape
     | Some (Dec_inf neg) \<Rightarrow> Inl (if neg then BadAllowance else Decimal_escape)
     | Some (Dec amount) \<Rightarrow>
         let micro = amount * of_int MICRO_USD_PER_USD in
         if amount \<le> 0 \<or> micro \<noteq> of_int \<lfloor>micro\<rfloor> then Inl BadAllowance else Inr \<lfloor>micro\<rfloor>)"

definition bedrock_budget_init :: "string \<Rightarrow> int \<Rightarrow> bedrock_exn + int" where
  "bedrock_budget_init table_name limit =
     (if table_name = [] then Inl BadAllowance
      else if limit < NOVA_MICRO_MAX_CALL_RESERVATION_MICRO_USD then Inl BadAllowance else Inr limit)"

text \<open>
  The table holds the amount reserved per month. \<open>conditional_reserve\<close> is the conditional update, which
  DynamoDB applies atomically. A call can also fail: rejected before the update, or with the answer
  lost after the update was applied.
\<close>

type_synonym budget_table = "string \<rightharpoonup> int"

definition conditional_reserve :: "int \<Rightarrow> string \<Rightarrow> budget_table \<Rightarrow> budget_table option" where
  "conditional_reserve limit month tbl =
     (if tbl month = None \<or> the (tbl month) \<le> limit - NOVA_MICRO_MAX_CALL_RESERVATION_MICRO_USD
      then Some (tbl(month \<mapsto> (case tbl month of None \<Rightarrow> 0 | Some r \<Rightarrow> r) + NOVA_MICRO_MAX_CALL_RESERVATION_MICRO_USD))
      else None)"

datatype db_fault = Db_ok | Db_rejected string | Db_connection bool

definition reserve_nova_micro_call ::
  "int \<Rightarrow> db_fault \<Rightarrow> string \<Rightarrow> budget_table \<Rightarrow> bedrock_exn option \<times> budget_table" where
  "reserve_nova_micro_call limit fault month tbl = (case fault of
       Db_rejected code \<Rightarrow>
         (Some (if code = ''ConditionalCheckFailedException'' then BedrockBudgetExceeded else BedrockBudgetUnavailable), tbl)
     | Db_connection applied \<Rightarrow>
         (Some BedrockBudgetUnavailable,
          if applied then (case conditional_reserve limit month tbl of None \<Rightarrow> tbl | Some t \<Rightarrow> t) else tbl)
     | Db_ok \<Rightarrow> (case conditional_reserve limit month tbl of
           None \<Rightarrow> (Some BedrockBudgetExceeded, tbl)
         | Some t \<Rightarrow> (None, t)))"

definition DEFAULT_MODEL_ID :: string where "DEFAULT_MODEL_ID = ''amazon.nova-micro-v1:0''"

definition bedrock_reserve ::
  "int \<Rightarrow> db_fault \<Rightarrow> string \<Rightarrow> string \<Rightarrow> budget_table \<Rightarrow> bedrock_exn option \<times> budget_table" where
  "bedrock_reserve limit fault model_id month tbl =
     (if model_id \<noteq> DEFAULT_MODEL_ID then (Some BedrockBudgetUnavailable, tbl)
      else reserve_nova_micro_call limit fault month tbl)"

abbreviation reserved_in :: "string \<Rightarrow> budget_table \<Rightarrow> int" where
  "reserved_in month tbl \<equiv> (case tbl month of None \<Rightarrow> 0 | Some r \<Rightarrow> r)"

lemma reservation_amount [simp]: "NOVA_MICRO_MAX_CALL_RESERVATION_MICRO_USD = 4498"
proof -
  have "\<lceil>112448 / (25 :: rat)\<rceil> = 4498" by (rule ceiling_unique) simp_all
  then show ?thesis
    by (simp add: NOVA_MICRO_MAX_CALL_RESERVATION_MICRO_USD_def NOVA_MICRO_MAX_INPUT_TOKENS_def
      NOVA_MICRO_INPUT_USD_PER_MILLION_TOKENS_def NOVA_MICRO_MAX_OUTPUT_TOKENS_def
      NOVA_MICRO_OUTPUT_USD_PER_MILLION_TOKENS_def MICRO_USD_PER_USD_def)
qed

text \<open>The conditional update of a month is a capped budget, for every month at once.\<close>

interpretation month: capped_budget
  "\<lambda>m tbl. if reserved_in month tbl \<le> limit \<and> 4498 \<le> limit then conditional_reserve limit m tbl else None"
  "reserved_in month" limit for month limit
  by unfold_locales (auto simp: conditional_reserve_def split: if_splits option.splits)

lemma reserve_step:
  "snd (reserve_nova_micro_call limit fault m tbl) = tbl \<or>
   conditional_reserve limit m tbl = Some (snd (reserve_nova_micro_call limit fault m tbl))"
  by (auto simp: reserve_nova_micro_call_def split: db_fault.splits option.splits)

text \<open>Calls of every replica that shares the table, in the order the table applies them.\<close>

fun bedrock_calls :: "int \<Rightarrow> (db_fault \<times> string \<times> string) list \<Rightarrow> budget_table \<Rightarrow> bedrock_exn option list \<times> budget_table" where
  "bedrock_calls limit [] tbl = ([], tbl)"
| "bedrock_calls limit ((fault, model_id, m) # cs) tbl =
     (let (r, tbl1) = bedrock_reserve limit fault model_id m tbl; (rs, tbl2) = bedrock_calls limit cs tbl1 in (r # rs, tbl2))"

definition granted_in :: "string \<Rightarrow> (db_fault \<times> string \<times> string) list \<Rightarrow> bedrock_exn option list \<Rightarrow> nat" where
  "granted_in month cs rs = length (filter (\<lambda>((_, _, m), r). m = month \<and> r = None) (zip cs rs))"

lemma bedrock_reserve_capped:
  assumes "reserved_in month tbl \<le> limit" "4498 \<le> limit"
  shows "reserved_in month (snd (bedrock_reserve limit fault model_id m tbl)) \<le> limit"
  using reserve_step [of limit fault m tbl] month.reserve_capped [where month = month and limit = limit and a = m and s = tbl] assms
  by (auto simp: bedrock_reserve_def)

lemma bedrock_reserve_grows:
  assumes "bedrock_reserve limit fault model_id m tbl = (r, tbl')"
  shows "reserved_in month tbl' \<ge> reserved_in month tbl + (if m = month \<and> r = None then 4498 else 0)"
  using assms
  by (auto simp: bedrock_reserve_def reserve_nova_micro_call_def conditional_reserve_def
      split: if_splits db_fault.splits option.splits)

lemma bedrock_calls_accounted:
  "bedrock_calls limit cs tbl = (rs, tbl') \<Longrightarrow> reserved_in month tbl \<le> limit \<Longrightarrow> 4498 \<le> limit \<Longrightarrow>
   reserved_in month tbl + 4498 * int (granted_in month cs rs) \<le> reserved_in month tbl' \<and> reserved_in month tbl' \<le> limit"
proof (induction limit cs tbl arbitrary: rs rule: bedrock_calls.induct)
  case (2 limit fault model_id m cs tbl)
  obtain r tbl1 where r: "bedrock_reserve limit fault model_id m tbl = (r, tbl1)" by fastforce
  obtain rs' where rs': "bedrock_calls limit cs tbl1 = (rs', tbl')" and rs: "rs = r # rs'"
    using "2.prems"(1) r by (cases "bedrock_calls limit cs tbl1") (auto simp: Let_def)
  have "reserved_in month tbl1 \<le> limit" using bedrock_reserve_capped [where month = month and tbl = tbl and limit = limit and fault = fault and model_id = model_id and m = m] "2.prems" r by simp
  from "2.IH" [OF r [symmetric] refl rs' this "2.prems"(3)] bedrock_reserve_grows [OF r, where month = month]
  show ?case by (auto simp: granted_in_def rs)
qed (simp add: granted_in_def)



text \<open>
  The condition admits a first reservation of a month without looking at the allowance, so the
  constructor's test that the allowance funds one call is needed; with it, exactly
  \<open>limit div 4498\<close> calls of a month are authorised.
\<close>

lemma month_authorises_exactly:
  assumes "4498 \<le> limit" "0 \<le> reserved_in month tbl"
  shows "(fst (bedrock_reserve limit Db_ok DEFAULT_MODEL_ID month tbl) = None) \<longleftrightarrow> reserved_in month tbl + 4498 \<le> limit"
  using assms by (auto simp: bedrock_reserve_def reserve_nova_micro_call_def conditional_reserve_def split: option.splits)

end
