(* ===== verification/App_Proposal.thy ===== *)
theory App_Proposal
  imports Qry_Analytics App_Budget
begin

text \<open>
  The pre-flight validation of planner tool proposals (\<open>services/app/app/validation/proposal.py\<close>), run
  before a governed tool executes, and how it relates to the server's own validators of
  \<open>query_spec.py\<close>, which it mirrors. A violation keeps its code and whether it is recoverable; its
  template text is left out.

  \<open>parse_iso\<close> is \<open>datetime.fromisoformat(text)\<close> with the zone dropped, as year, month, day, hour, minute,
  second and microsecond, or \<^const>\<open>None\<close> where it raises. \<open>datetime(year, month, 1)\<close> raises for a year
  outside 1 to 9999; that error escapes the collector.
\<close>

type_synonym timestamp = "int \<times> int \<times> int \<times> int \<times> int \<times> int \<times> int"

definition PV_ANALYSES :: "string list" where
  "PV_ANALYSES = [''top_pickup_zones'', ''trip_volume_by_hour'', ''average_distance_by_weekday'']"

definition PV_BOROUGHS :: "string list" where
  "PV_BOROUGHS = [''Manhattan'', ''Brooklyn'', ''Queens'', ''Bronx'', ''Staten Island'']"

definition PV_WEEKDAYS :: "string list" where
  "PV_WEEKDAYS = [''Monday'', ''Tuesday'', ''Wednesday'', ''Thursday'', ''Friday'', ''Saturday'', ''Sunday'']"

definition PV_WEEK_PARTS :: "string list" where "PV_WEEK_PARTS = [''weekday'', ''weekend'']"

definition PV_DIMENSIONS :: "string list" where
  "PV_DIMENSIONS = [''pickup_date'', ''pickup_hour'', ''pickup_weekday'', ''pickup_week_part'', ''pickup_zone'', ''pickup_borough'',
     ''dropoff_zone'', ''dropoff_borough'', ''payment_type'', ''rate_code'', ''vendor'', ''passenger_count_bucket'',
     ''trip_distance_bucket'', ''trip_duration_bucket'', ''fare_amount_bucket'', ''airport_trip'']"

definition PV_MEASURES :: "string list" where
  "PV_MEASURES = [''trip_count'', ''trip_share'', ''average_fare'', ''median_fare'', ''average_tip'', ''median_tip'', ''total_tips'',
     ''tip_rate'', ''average_total_amount'', ''average_distance'', ''median_distance'', ''average_duration_minutes'',
     ''median_duration_minutes'', ''p95_duration_minutes'', ''average_passenger_count'']"

definition PV_PAYMENT_TYPE_CODES :: "int list" where "PV_PAYMENT_TYPE_CODES = [0, 1, 2, 3, 4, 5, 6]"
definition PV_RATE_CODE_CODES :: "int list" where "PV_RATE_CODE_CODES = [1, 2, 3, 4, 5, 6, 99]"
definition PV_VENDOR_CODES :: "int list" where "PV_VENDOR_CODES = [1, 2, 6]"

datatype filter_kind =
  K_timestamp | K_hour | K_weekday | K_week_part | K_text | K_borough | K_payment_code | K_rate_code | K_vendor_code
  | K_int | K_number | K_bool

definition FILTER_KINDS :: "(string, filter_kind) odict" where
  "FILTER_KINDS =
    [(''start_timestamp'', K_timestamp), (''end_timestamp'', K_timestamp), (''pickup_hour_min'', K_hour), (''pickup_hour_max'', K_hour),
     (''pickup_weekday'', K_weekday), (''pickup_week_part'', K_week_part), (''pickup_zone'', K_text), (''dropoff_zone'', K_text),
     (''pickup_borough'', K_borough), (''dropoff_borough'', K_borough), (''payment_type'', K_payment_code), (''rate_code'', K_rate_code),
     (''vendor'', K_vendor_code), (''passenger_count_min'', K_int), (''passenger_count_max'', K_int),
     (''trip_distance_min'', K_number), (''trip_distance_max'', K_number), (''trip_duration_min'', K_number),
     (''trip_duration_max'', K_number), (''fare_amount_min'', K_number), (''fare_amount_max'', K_number),
     (''airport_trip'', K_bool), (''valid_records_only'', K_bool)]"

definition GOVERNED_TOOLS :: "string list" where
  "GOVERNED_TOOLS = [''query_taxi_data'', ''average_trip_metrics'', ''describe_taxi_dataset'', ''list_taxi_dimension_values'',
     ''aggregate_taxi_data'', ''compare_taxi_segments'']"

definition NON_TOOL_OUTCOMES :: "string list" where
  "NON_TOOL_OUTCOMES = [''no_tool'', ''unsupported'', ''clarification_required'', ''no_visible_output'']"

definition CLARIFY_PHRASES :: "string list" where
  "CLARIFY_PHRASES = [''please clarify'', ''could you clarify'', ''which borough did you mean'', ''did you mean'', ''please specify'',
     ''clarification required'', ''need more details'']"

definition UNSUPPORTED_PHRASES :: "string list" where
  "UNSUPPORTED_PHRASES = [''cannot'', ''can't'', ''not available'', ''does not contain'', ''no data'', ''outside'', ''unable'',
     ''not possible'', ''unsupported'', ''read-only'', ''no driver'', ''no weather'', ''predict'', ''forecast'']"

definition classify_non_tool_outcome :: "string \<Rightarrow> string" where
  "classify_non_tool_outcome text = (let combined = py_lower text in
     if list_ex (\<lambda>p. contains_at p combined) CLARIFY_PHRASES then ''clarification_required''
     else if list_ex (\<lambda>p. contains_at p combined) UNSUPPORTED_PHRASES then ''unsupported''
     else ''no_tool'')"

record violation =
  vi_code :: string
  vi_recoverable :: bool

record proposal_validation =
  violations :: "violation list"
  pv_outcome :: string

definition pv_ok :: "proposal_validation \<Rightarrow> bool" where
  "pv_ok v \<longleftrightarrow> violations v = []"

definition pv_recoverable :: "proposal_validation \<Rightarrow> bool" where
  "pv_recoverable v \<longleftrightarrow> violations v \<noteq> [] \<and> list_all vi_recoverable (violations v)"

abbreviation vio :: "string \<Rightarrow> violation list" where
  "vio code \<equiv> [\<lparr>vi_code = code, vi_recoverable = True\<rparr>]"

definition is_str :: "json \<Rightarrow> bool" where "is_str v = (case v of JStr _ \<Rightarrow> True | _ \<Rightarrow> False)"
definition is_bool :: "json \<Rightarrow> bool" where "is_bool v = (case v of JBool _ \<Rightarrow> True | _ \<Rightarrow> False)"
definition is_int :: "json \<Rightarrow> bool" where "is_int v = (case v of JInt _ \<Rightarrow> True | _ \<Rightarrow> False)"
definition is_number :: "json \<Rightarrow> bool" where
  "is_number v = (case v of JInt _ \<Rightarrow> True | JFloat _ _ \<Rightarrow> True | _ \<Rightarrow> False)"

definition in_strings :: "json \<Rightarrow> string list \<Rightarrow> bool" where
  "in_strings v xs = (case v of JStr s \<Rightarrow> s \<in> set xs | _ \<Rightarrow> False)"

definition check_keys :: "jdict \<Rightarrow> string list \<Rightarrow> string list \<Rightarrow> violation list" where
  "check_keys args allowed required =
     (if list_ex (\<lambda>k. k \<notin> set allowed) (od_keys args) then vio ''unexpected_argument'' else [])
     @ concat (map (\<lambda>k. if k \<in> set (od_keys args) then [] else vio ''missing_argument'') required)"

definition check_limit :: "jdict \<Rightarrow> violation list" where
  "check_limit args = (case map_of args ''limit'' of None \<Rightarrow> []
     | Some (JInt n) \<Rightarrow> if 1 \<le> n \<and> n \<le> MAX_ROWS then [] else vio ''invalid_value''
     | Some _ \<Rightarrow> vio ''invalid_type'')"

definition check_name_list :: "json \<Rightarrow> string list \<Rightarrow> string \<Rightarrow> violation list" where
  "check_name_list values allowed code = (case values of
     JArr vs \<Rightarrow>
       if vs = [] then vio ''invalid_type''
       else if length vs > MAX_LIST_LENGTH then vio ''invalid_value''
       else if list_ex (\<lambda>v. \<not> is_str v) vs then vio ''invalid_type''
       else (if distinct vs then [] else vio ''invalid_value'')
         @ (if list_ex (\<lambda>v. \<not> in_strings v allowed) vs then vio code else [])
   | _ \<Rightarrow> vio ''invalid_type'')"

definition parse_ts :: "(string \<Rightarrow> timestamp option) \<Rightarrow> json \<Rightarrow> timestamp option" where
  "parse_ts parse_iso v = (case v of JStr s \<Rightarrow> if s = [] \<or> length s > 32 then None else parse_iso s | _ \<Rightarrow> None)"

definition month_text :: "json \<Rightarrow> (int \<times> int) option" where
  "month_text v = (case v of
     JStr s \<Rightarrow> if length s = 7 \<and> list_all py_isdigit (take 4 s) \<and> s ! 4 = CHR ''-'' \<and> list_all py_isdigit (drop 5 s)
       then Some (read_digits 0 (take 4 s), read_digits 0 (drop 5 s)) else None
   | _ \<Rightarrow> None)"

definition month_bounds :: "jdict option \<Rightarrow> py_exn + (timestamp \<times> timestamp) option" where
  "month_bounds schema =
     (case month_text (case schema of None \<Rightarrow> JNull | Some d \<Rightarrow> jget d ''month'') of
        None \<Rightarrow> Inr None
      | Some (year, mon) \<Rightarrow>
          if \<not> (1 \<le> mon \<and> mon \<le> 12) then Inr None
          else let y2 = year + (if mon = 12 then 1 else 0) in
            if year < 1 \<or> y2 > 9999 then Inl (ValueError ''year is out of range'')
            else Inr (Some ((year, mon, 1, 0, 0, 0, 0), (y2, mon mod 12 + 1, 1, 0, 0, 0, 0))))"

definition is_control :: "char \<Rightarrow> bool" where
  "is_control c \<longleftrightarrow> (let n = of_char c :: nat in n \<le> 31 \<or> n = 127)"

definition check_text_filter :: "filter_kind \<Rightarrow> json \<Rightarrow> violation list" where
  "check_text_filter kind value = (case value of
     JStr s \<Rightarrow>
       if py_strip s = [] \<or> length s > MAX_STRING_LENGTH \<or> list_ex is_control s then vio ''invalid_value''
       else if kind = K_borough \<and> s \<notin> set PV_BOROUGHS then vio ''invalid_value''
       else if kind = K_weekday \<and> s \<notin> set PV_WEEKDAYS then vio ''invalid_value''
       else if kind = K_week_part \<and> s \<notin> set PV_WEEK_PARTS then vio ''invalid_value''
       else []
   | _ \<Rightarrow> vio ''invalid_type'')"

definition check_code :: "int list \<Rightarrow> json \<Rightarrow> violation list" where
  "check_code codes value = (case value of JInt i \<Rightarrow> if i \<in> set codes then [] else vio ''invalid_value'' | _ \<Rightarrow> vio ''invalid_type'')"

definition check_kind :: "(string \<Rightarrow> timestamp option) \<Rightarrow> filter_kind \<Rightarrow> json \<Rightarrow> violation list" where
  "check_kind parse_iso kind value = (case kind of
       K_timestamp \<Rightarrow> if parse_ts parse_iso value = None then vio ''invalid_value'' else []
     | K_hour \<Rightarrow> (case value of JInt h \<Rightarrow> if 0 \<le> h \<and> h \<le> 23 then [] else vio ''invalid_value'' | _ \<Rightarrow> vio ''invalid_type'')
     | K_weekday \<Rightarrow> check_text_filter kind value
     | K_week_part \<Rightarrow> check_text_filter kind value
     | K_text \<Rightarrow> check_text_filter kind value
     | K_borough \<Rightarrow> check_text_filter kind value
     | K_payment_code \<Rightarrow> check_code PV_PAYMENT_TYPE_CODES value
     | K_rate_code \<Rightarrow> check_code PV_RATE_CODE_CODES value
     | K_vendor_code \<Rightarrow> check_code PV_VENDOR_CODES value
     | K_int \<Rightarrow> if is_int value then [] else vio ''invalid_type''
     | K_number \<Rightarrow> if is_number value then [] else vio ''invalid_type''
     | K_bool \<Rightarrow> if is_bool value then [] else vio ''invalid_type'')"

definition check_filter_value :: "(string \<Rightarrow> timestamp option) \<Rightarrow> string \<times> json \<Rightarrow> violation list" where
  "check_filter_value parse_iso = (\<lambda>(key, value). case map_of FILTER_KINDS key of
       None \<Rightarrow> [] | Some kind \<Rightarrow> if value = JNull then [] else check_kind parse_iso kind value)"

definition timestamps_of :: "(string \<Rightarrow> timestamp option) \<Rightarrow> jdict \<Rightarrow> (string \<times> timestamp) list" where
  "timestamps_of parse_iso filters = concat (map (\<lambda>(key, value). if map_of FILTER_KINDS key = Some K_timestamp \<and> value \<noteq> JNull
     then (case parse_ts parse_iso value of None \<Rightarrow> [] | Some ts \<Rightarrow> [(key, ts)]) else []) filters)"

definition hours_of :: "jdict \<Rightarrow> (string \<times> int) list" where
  "hours_of filters = concat (map (\<lambda>(key, value). if map_of FILTER_KINDS key = Some K_hour
     then (case value of JInt h \<Rightarrow> if 0 \<le> h \<and> h \<le> 23 then [(key, h)] else [] | _ \<Rightarrow> []) else []) filters)"

definition check_time_scope :: "(string \<times> timestamp) list \<Rightarrow> jdict option \<Rightarrow> py_exn + violation list" where
  "check_time_scope tss schema =
     (let order = (case (map_of tss ''start_timestamp'', map_of tss ''end_timestamp'') of
            (Some s, Some e) \<Rightarrow> if s > e then vio ''invalid_range'' else [] | _ \<Rightarrow> [])
      in try_bind (month_bounds schema) (\<lambda>b. Inr (order @ (case b of None \<Rightarrow> []
           | Some (lo, hi) \<Rightarrow> if list_ex (\<lambda>(_, ts). ts < lo \<or> ts > hi) tss
               then [\<lparr>vi_code = ''out_of_scope_time'', vi_recoverable = False\<rparr>] else []))))"

definition check_filters :: "(string \<Rightarrow> timestamp option) \<Rightarrow> json \<Rightarrow> jdict option \<Rightarrow> py_exn + violation list" where
  "check_filters parse_iso filters schema = (case filters of
     JNull \<Rightarrow> Inr []
   | JObj fs \<Rightarrow>
       try_bind (check_time_scope (timestamps_of parse_iso fs) schema) (\<lambda>scope.
       Inr ((if list_ex (\<lambda>k. map_of FILTER_KINDS k = None) (od_keys fs) then vio ''unknown_filter'' else [])
         @ concat (map (check_filter_value parse_iso) fs) @ scope
         @ (case (map_of (hours_of fs) ''pickup_hour_min'', map_of (hours_of fs) ''pickup_hour_max'') of
              (Some a, Some b) \<Rightarrow> if a > b then vio ''invalid_range'' else [] | _ \<Rightarrow> [])))
   | _ \<Rightarrow> Inr (vio ''invalid_type''))"

definition validate_query_taxi_data :: "jdict \<Rightarrow> violation list" where
  "validate_query_taxi_data args = check_keys args [''analysis'', ''limit''] [''analysis'', ''limit'']
     @ (case map_of args ''analysis'' of None \<Rightarrow> []
        | Some v \<Rightarrow> if \<not> is_str v then vio ''invalid_type'' else if in_strings v PV_ANALYSES then [] else vio ''invalid_value'')
     @ check_limit args"

definition validate_average_trip_metrics :: "jdict \<Rightarrow> violation list" where
  "validate_average_trip_metrics args = check_keys args [''region_name''] []
     @ (let region = jget args ''region_name'' in
        if region = JNull then [] else if \<not> is_str region then vio ''invalid_type''
        else if in_strings region PV_BOROUGHS then [] else vio ''invalid_value'')"

definition validate_describe :: "jdict \<Rightarrow> violation list" where
  "validate_describe args = check_keys args [''include_column_stats''] []
     @ (if is_bool (jget_or args ''include_column_stats'' (JBool False)) then [] else vio ''invalid_type'')"

definition validate_list_values :: "jdict \<Rightarrow> violation list" where
  "validate_list_values args = check_keys args [''dimension'', ''search'', ''limit''] [''dimension'']
     @ (case map_of args ''dimension'' of None \<Rightarrow> []
        | Some v \<Rightarrow> if \<not> is_str v then vio ''invalid_type'' else if in_strings v PV_DIMENSIONS then [] else vio ''unknown_dimension'')
     @ (case jget args ''search'' of JNull \<Rightarrow> []
        | JStr s \<Rightarrow> if list_ex is_control s \<or> length s > 128 then vio ''invalid_value'' else []
        | _ \<Rightarrow> vio ''invalid_value'')
     @ check_limit args"

definition check_order_by :: "json \<Rightarrow> violation list" where
  "check_order_by order_by = (case order_by of
     JNull \<Rightarrow> []
   | JObj d \<Rightarrow> (if list_ex (\<lambda>k. k \<noteq> ''key'' \<and> k \<noteq> ''direction'') (od_keys d) then vio ''unexpected_argument'' else [])
       @ (if in_strings (jget_or d ''direction'' (JStr ''desc'')) [''asc'', ''desc''] then [] else vio ''invalid_value'')
       @ (if in_strings (jget d ''key'') (PV_DIMENSIONS @ PV_MEASURES) then [] else vio ''invalid_value'')
   | _ \<Rightarrow> vio ''invalid_type'')"

definition validate_aggregate :: "(string \<Rightarrow> timestamp option) \<Rightarrow> jdict \<Rightarrow> jdict option \<Rightarrow> py_exn + violation list" where
  "validate_aggregate parse_iso args schema =
     try_bind (check_filters parse_iso (jget args ''filters'') schema) (\<lambda>fv.
     Inr (check_keys args [''dimensions'', ''measures'', ''filters'', ''order_by'', ''limit''] [''dimensions'', ''measures'']
       @ (case map_of args ''dimensions'' of None \<Rightarrow> [] | Some v \<Rightarrow> check_name_list v PV_DIMENSIONS ''unknown_dimension'')
       @ (case map_of args ''measures'' of None \<Rightarrow> [] | Some v \<Rightarrow> check_name_list v PV_MEASURES ''unknown_measure'')
       @ fv @ check_order_by (jget args ''order_by'') @ check_limit args))"

definition check_mode :: "json \<Rightarrow> bool \<Rightarrow> violation list" where
  "check_mode mode segment_given =
     (if \<not> in_strings mode COMPARISON_MODES then vio ''invalid_value''
      else if mode = JStr ''whole_segment'' \<and> segment_given then vio ''invalid_combination''
      else if mode = JStr ''by_dimension'' \<and> \<not> segment_given then vio ''missing_argument'' else [])"

definition check_side :: "(string \<Rightarrow> timestamp option) \<Rightarrow> jdict \<Rightarrow> jdict option \<Rightarrow> string \<Rightarrow> py_exn + violation list" where
  "check_side parse_iso args schema side = (case map_of args side of
     None \<Rightarrow> Inr []
   | Some v \<Rightarrow> if is_dict v then check_filters parse_iso v schema else Inr (vio ''invalid_type''))"

definition validate_compare :: "(string \<Rightarrow> timestamp option) \<Rightarrow> jdict \<Rightarrow> jdict option \<Rightarrow> py_exn + violation list" where
  "validate_compare parse_iso args schema =
     (let segment = jget args ''segment_dimension'';
          mode = (if jget args ''comparison_mode'' = JNull then JStr ''by_dimension'' else jget args ''comparison_mode'')
      in try_bind (check_side parse_iso args schema ''baseline_filters'') (\<lambda>bv.
         try_bind (check_side parse_iso args schema ''comparison_filters'') (\<lambda>cv.
         Inr (check_keys args [''measures'', ''baseline_filters'', ''comparison_filters'', ''segment_dimension'', ''comparison_mode'', ''limit'']
                [''baseline_filters'', ''comparison_filters'', ''measures'']
           @ (if segment = JNull then [] else if \<not> is_str segment then vio ''invalid_type''
              else if in_strings segment PV_DIMENSIONS then [] else vio ''unknown_dimension'')
           @ check_mode mode (segment \<noteq> JNull)
           @ (case jget args ''measures'' of
                JArr ms \<Rightarrow> if mode = JStr ''whole_segment'' \<and> JStr ''trip_share'' \<in> set ms then vio ''invalid_value'' else []
              | _ \<Rightarrow> [])
           @ (case map_of args ''measures'' of None \<Rightarrow> [] | Some v \<Rightarrow> check_name_list v PV_MEASURES ''unknown_measure'')
           @ bv @ cv @ check_limit args))))"

definition validate_tool :: "(string \<Rightarrow> timestamp option) \<Rightarrow> string \<Rightarrow> jdict \<Rightarrow> jdict option \<Rightarrow> py_exn + violation list" where
  "validate_tool parse_iso name args schema =
     (if name = ''query_taxi_data'' then Inr (validate_query_taxi_data args)
      else if name = ''average_trip_metrics'' then Inr (validate_average_trip_metrics args)
      else if name = ''describe_taxi_dataset'' then Inr (validate_describe args)
      else if name = ''list_taxi_dimension_values'' then Inr (validate_list_values args)
      else if name = ''aggregate_taxi_data'' then validate_aggregate parse_iso args schema
      else validate_compare parse_iso args schema)"

definition validate_proposal ::
  "(string \<Rightarrow> timestamp option) \<Rightarrow> string \<Rightarrow> json \<Rightarrow> jdict option \<Rightarrow> nat \<Rightarrow> nat \<Rightarrow> py_exn + proposal_validation" where
  "validate_proposal parse_iso name arguments schema executed max_analyses =
     (if name \<in> set NON_TOOL_OUTCOMES then Inr \<lparr>violations = [], pv_outcome = name\<rparr>
      else if name = [] then Inr \<lparr>violations = [], pv_outcome = ''no_tool''\<rparr>
      else if name \<notin> set GOVERNED_TOOLS then Inr \<lparr>violations = vio ''unknown_tool'', pv_outcome = ''tool_call''\<rparr>
      else if executed \<ge> max_analyses
      then Inr \<lparr>violations = [\<lparr>vi_code = ''max_governed_analyses_exceeded'', vi_recoverable = False\<rparr>], pv_outcome = ''tool_call''\<rparr>
      else let args = (if arguments = JNull \<and> (name = ''average_trip_metrics'' \<or> name = ''describe_taxi_dataset'') then JObj [] else arguments)
        in case args of
             JObj d \<Rightarrow> try_bind (validate_tool parse_iso name d schema) (\<lambda>vs. Inr \<lparr>violations = vs, pv_outcome = ''tool_call''\<rparr>)
           | _ \<Rightarrow> Inr \<lparr>violations = vio ''arguments_not_object'', pv_outcome = ''tool_call''\<rparr>)"

subsection \<open>The allowlists mirror the server's\<close>

lemma allowlists_mirror:
  "PV_DIMENSIONS = map dim_value all_dimensions" "PV_MEASURES = map mea_value all_measures"
  "set (od_keys FILTER_KINDS) = set filter_fields" "PV_WEEKDAYS = WEEKDAY_NAMES" "PV_WEEK_PARTS = WEEK_PARTS"
  "PV_PAYMENT_TYPE_CODES = od_keys PAYMENT_TYPE_CODES" "PV_RATE_CODE_CODES = od_keys RATE_CODE_CODES"
  "PV_VENDOR_CODES = od_keys VENDOR_CODES" "PV_ANALYSES = map fst ALLOWED_ANALYSES"
  by (simp_all add: PV_DIMENSIONS_def PV_MEASURES_def all_dimensions_def all_measures_def FILTER_KINDS_def filter_fields_def
      PV_WEEKDAYS_def WEEKDAY_NAMES_def PV_WEEK_PARTS_def WEEK_PARTS_def PV_PAYMENT_TYPE_CODES_def PAYMENT_TYPE_CODES_def
      PV_RATE_CODE_CODES_def RATE_CODE_CODES_def PV_VENDOR_CODES_def VENDOR_CODES_def PV_ANALYSES_def ALLOWED_ANALYSES_def
      insert_commute)

subsection \<open>What a clean proposal can still fail on at the server\<close>

text \<open>Every error a result can carry satisfies \<open>P\<close>.\<close>

definition errs_in :: "('e \<Rightarrow> bool) \<Rightarrow> 'e + 'a \<Rightarrow> bool" where
  "errs_in P r = (case r of Inl e \<Rightarrow> P e | Inr _ \<Rightarrow> True)"

lemma errs_in_bind: "errs_in P m \<Longrightarrow> (\<And>x. m = Inr x \<Longrightarrow> errs_in P (f x)) \<Longrightarrow> errs_in P (try_bind m f)"
  by (cases m) (simp_all add: errs_in_def)

lemma errs_in_Inr [simp]: "errs_in P (Inr x)"
  by (simp add: errs_in_def)

lemma clean_field:
  assumes "concat (map (check_filter_value pis) fs) = []" "map_of FILTER_KINDS k = Some kind" "jget fs k \<noteq> JNull"
  shows "check_kind pis kind (jget fs k) = []"
proof -
  from assms(3) obtain v where v: "map_of fs k = Some v" "jget fs k = v" "v \<noteq> JNull"
    by (auto simp: jget_def split: option.splits)
  then have "check_filter_value pis (k, v) = []" using assms(1) map_of_SomeD by fastforce
  with v assms(2) show ?thesis by (simp add: check_filter_value_def)
qed

lemma weekday_strip: "x \<in> set WEEKDAY_NAMES \<or> x \<in> set WEEK_PARTS \<Longrightarrow> py_strip x = x"
  using names_bounded by (simp add: bounded_text_def)

text \<open>Field by field: where the pre-flight check has no objection, the server's validator of that field has none.\<close>

lemma kind_accepted:
  "check_kind pis K_timestamp v = [] \<Longrightarrow> (\<And>s. isof s \<longleftrightarrow> pis s \<noteq> None) \<Longrightarrow> \<exists>x. validate_iso_timestamp isof v = Inr x"
  "check_kind pis K_hour v = [] \<Longrightarrow> \<exists>x. checked valid_hour validate_int v = Inr x"
  "check_kind pis K_weekday v = [] \<Longrightarrow> \<exists>x. checked (\<lambda>s. s \<in> set WEEKDAY_NAMES) validate_string v = Inr x"
  "check_kind pis K_week_part v = [] \<Longrightarrow> \<exists>x. checked (\<lambda>s. s \<in> set WEEK_PARTS) validate_string v = Inr x"
  "check_kind pis K_text v = [] \<Longrightarrow> \<exists>x. validate_string v = Inr x"
  "check_kind pis K_borough v = [] \<Longrightarrow> \<exists>x. validate_string v = Inr x"
  "check_kind pis K_payment_code v = [] \<Longrightarrow> \<exists>x. checked (\<lambda>i. i \<in> set (od_keys PAYMENT_TYPE_CODES)) validate_int v = Inr x"
  "check_kind pis K_rate_code v = [] \<Longrightarrow> \<exists>x. checked (\<lambda>i. i \<in> set (od_keys RATE_CODE_CODES)) validate_int v = Inr x"
  "check_kind pis K_vendor_code v = [] \<Longrightarrow> \<exists>x. checked (\<lambda>i. i \<in> set (od_keys VENDOR_CODES)) validate_int v = Inr x"
  "check_kind pis K_int v = [] \<Longrightarrow> \<exists>x. validate_int v = Inr x"
  "check_kind pis K_bool v = [] \<Longrightarrow> \<exists>x. validate_bool v = Inr x"
  by (cases v; auto simp: check_kind_def parse_ts_def validate_iso_timestamp_def checked_def validate_int_def valid_hour_def
      validate_string_def check_text_filter_def allowlists_mirror weekday_strip check_code_def is_int_def is_bool_def validate_bool_def
      split: if_splits)+

text \<open>The errors of the server's filter validation that a clean proposal can still meet.\<close>

definition filter_gap :: "jdict \<Rightarrow> query_error \<Rightarrow> bool" where
  "filter_gap fs e \<longleftrightarrow> e = OverflowError
     \<or> e = QueryValidationError ''invalid_filter_value'' \<and> map_of fs ''valid_records_only'' = Some JNull"

lemma optional_errs:
  "(v \<noteq> JNull \<Longrightarrow> \<exists>x. one v = Inr x) \<Longrightarrow> errs_in P (optional one v)"
  by (auto simp: optional_def)

lemma number_errs: "(v \<noteq> JNull \<Longrightarrow> check_kind pis K_number v = []) \<Longrightarrow> errs_in (filter_gap fs) (optional validate_number v)"
  by (cases v) (auto simp: optional_def check_kind_def is_number_def validate_number_def errs_in_def filter_gap_def)

lemma records_errs:
  assumes "jget fs ''valid_records_only'' \<noteq> JNull \<Longrightarrow> check_kind pis K_bool (jget fs ''valid_records_only'') = []"
  shows "errs_in (filter_gap fs) (validate_bool (jget_or fs ''valid_records_only'' (JBool True)))"
  using assms by (auto simp: jget_or_def jget_def errs_in_def filter_gap_def validate_bool_def check_kind_def is_bool_def
      split: option.splits json.splits)

lemma clean_filter_fields:
  assumes clean: "concat (map (check_filter_value pis) fs) = []" and isof: "\<And>s. isof s \<longleftrightarrow> pis s \<noteq> None"
  shows "errs_in (filter_gap fs) (validate_filter_fields isof fs)"
proof -
  note field = clean_field [OF clean]
  have K: "map_of FILTER_KINDS k = Some kind \<Longrightarrow> jget fs k \<noteq> JNull \<Longrightarrow> check_kind pis kind (jget fs k) = []" for k kind
    by (rule field)
  show ?thesis
    unfolding validate_filter_fields_def
    apply (intro errs_in_bind errs_in_Inr)
                       apply (rule optional_errs, rule kind_accepted(1) [OF K isof]; simp add: FILTER_KINDS_def)+
                      apply (rule optional_errs, rule kind_accepted(2) [OF K]; simp add: FILTER_KINDS_def)+
                    apply (rule optional_errs, rule kind_accepted(3) [OF K]; simp add: FILTER_KINDS_def)
                   apply (rule optional_errs, rule kind_accepted(4) [OF K]; simp add: FILTER_KINDS_def)
                  apply (rule optional_errs, (rule kind_accepted(5) [OF K] kind_accepted(6) [OF K]; simp add: FILTER_KINDS_def; fail))+
              apply (rule optional_errs, rule kind_accepted(7) [OF K]; simp add: FILTER_KINDS_def)
             apply (rule optional_errs, rule kind_accepted(8) [OF K]; simp add: FILTER_KINDS_def)
            apply (rule optional_errs, rule kind_accepted(9) [OF K]; simp add: FILTER_KINDS_def)
           apply (rule optional_errs, rule kind_accepted(10) [OF K]; simp add: FILTER_KINDS_def)+
         apply (rule number_errs, rule K; simp add: FILTER_KINDS_def)+
   apply (rule optional_errs, rule kind_accepted(11) [OF K]; simp add: FILTER_KINDS_def)
  apply (rule records_errs, rule K; simp add: FILTER_KINDS_def)
  done
qed

lemma clean_filters:
  assumes "check_filters pis v schema = Inr []" and isof: "\<And>s. isof s \<longleftrightarrow> pis s \<noteq> None"
  shows "errs_in (\<lambda>e. \<exists>fs. v = JObj fs \<and> filter_gap fs e) (validate_filters isof v)"
proof (cases v)
  case (JObj fs)
  with assms(1) have c: "concat (map (check_filter_value pis) fs) = []" "\<not> list_ex (\<lambda>k. map_of FILTER_KINDS k = None) (od_keys fs)"
    by (auto simp: check_filters_def split: if_splits)
  have "k \<in> set filter_fields" if "k \<in> set (od_keys fs)" for k
  proof -
    from c(2) that have "map_of FILTER_KINDS k \<noteq> None" by (auto simp: list_ex_iff)
    then have "k \<in> set (od_keys FILTER_KINDS)" by (simp add: map_of_eq_None_iff)
    then show ?thesis by (simp only: allowlists_mirror)
  qed
  then show ?thesis using clean_filter_fields [OF c(1) isof] JObj
    by (auto simp: validate_filters_def errs_in_def list_all_iff split: sum.splits)
qed (use assms(1) in \<open>simp_all add: check_filters_def validate_filters_def\<close>)

lemma key_present: "k \<in> set (od_keys d) \<longleftrightarrow> (\<exists>v. map_of d k = Some v)"
  using map_of_eq_None_iff [of d k] by auto

lemma names_accepted:
  assumes clean: "check_name_list v (map val es) code = []" and inj: "\<And>a b. val a = val b \<Longrightarrow> a = b"
    and one: "\<And>e. one (JStr (val e)) = Inr e"
  shows "\<exists>xs. validate_names code' one v = Inr xs"
proof -
  from clean obtain vs where v: "v = JArr vs" "vs \<noteq> []" "length vs \<le> MAX_LIST_LENGTH" "distinct vs"
    and names: "\<And>x. x \<in> set vs \<Longrightarrow> in_strings x (map val es)"
    by (auto simp: check_name_list_def list_ex_iff split: json.splits if_splits)
  from names have "\<exists>xs. vs = map (\<lambda>e. JStr (val e)) xs"
  proof (induction vs)
    case (Cons x vs)
    then obtain xs where "vs = map (\<lambda>e. JStr (val e)) xs" by auto
    moreover obtain e where "x = JStr (val e)" using Cons.prems [of x] by (auto simp: in_strings_def split: json.splits)
    ultimately have "x # vs = map (\<lambda>e. JStr (val e)) (e # xs)" by simp
    then show ?case by (rule exI)
  qed simp
  then obtain xs where xs: "vs = map (\<lambda>e. JStr (val e)) xs" by blast
  have "validate_names code' one v = Inr xs"
    unfolding v(1) xs using v(2-4) by (intro names_back one) (simp_all add: xs distinct_map)
  then show ?thesis by blast
qed

lemma value_inj: "dim_value a = dim_value b \<Longrightarrow> a = b" "mea_value c = mea_value d \<Longrightarrow> c = d"
  using dimension_back [of a] dimension_back [of b] measure_back [of c] measure_back [of d] by simp_all

text \<open>The errors of the server's validation of an aggregate that a clean proposal can still meet.\<close>

definition aggregate_gap :: "json \<Rightarrow> query_error \<Rightarrow> bool" where
  "aggregate_gap filters e \<longleftrightarrow> e = QueryValidationError ''invalid_column_budget'' \<or> e = QueryValidationError ''invalid_order_by''
     \<or> (\<exists>fs. filters = JObj fs \<and> filter_gap fs e)"

lemma order_errs: "errs_in (aggregate_gap f) (validate_order_by v allowed)"
  by (auto simp: validate_order_by_def errs_in_def aggregate_gap_def split: json.splits)

lemma clean_aggregate:
  assumes clean: "validate_aggregate pis args schema = Inr []" and isof: "\<And>s. isof s \<longleftrightarrow> pis s \<noteq> None"
  shows "errs_in (aggregate_gap (jget args ''filters''))
    (build_aggregate_spec isof (jget args ''dimensions'') (jget args ''measures'') (jget args ''filters'') (jget args ''order_by'')
       (jget_or args ''limit'' (JInt 20)))"
proof -
  let ?P = "aggregate_gap (jget args ''filters'')"
  from clean have f: "check_filters pis (jget args ''filters'') schema = Inr []"
    and k: "check_keys args [''dimensions'', ''measures'', ''filters'', ''order_by'', ''limit''] [''dimensions'', ''measures''] = []"
    and l: "check_limit args = []"
    and d: "map_of args ''dimensions'' = Some dv \<Longrightarrow> check_name_list dv PV_DIMENSIONS ''unknown_dimension'' = []"
    and m: "map_of args ''measures'' = Some mv \<Longrightarrow> check_name_list mv PV_MEASURES ''unknown_measure'' = []" for dv mv
    by (auto simp: validate_aggregate_def split: option.splits)
  from k have "''dimensions'' \<in> set (od_keys args)" "''measures'' \<in> set (od_keys args)"
    by (auto simp: check_keys_def split: if_splits)
  then obtain dv mv where dm: "map_of args ''dimensions'' = Some dv" "map_of args ''measures'' = Some mv"
    unfolding key_present by blast
  obtain ds where ds: "validate_dimensions (jget args ''dimensions'') = Inr ds"
    using names_accepted [OF d [OF dm(1), unfolded allowlists_mirror] value_inj(1) dimension_back] dm(1)
    by (auto simp: validate_dimensions_def jget_def)
  obtain ms where ms: "validate_measures (jget args ''measures'') = Inr ms"
    using names_accepted [OF m [OF dm(2), unfolded allowlists_mirror] value_inj(2) measure_back] dm(2)
    by (auto simp: validate_measures_def jget_def)
  have fe: "errs_in ?P (validate_filters isof (jget args ''filters''))"
    using clean_filters [OF f isof] by (auto simp: errs_in_def aggregate_gap_def split: sum.splits)
  have le: "errs_in ?P (validate_limit (jget_or args ''limit'' (JInt 20)))"
    using l by (auto simp: check_limit_def validate_limit_def jget_or_def errs_in_def MAX_ROWS_def split: option.splits json.splits if_splits)
  have ce: "errs_in ?P (validate_column_budget ds ms)"
    by (simp add: validate_column_budget_def guard_or_def errs_in_def aggregate_gap_def)
  show ?thesis unfolding build_aggregate_spec_def ds ms try_bind_simps
    by (intro errs_in_bind errs_in_Inr fe le ce order_errs)
qed


definition wide_proposal :: jdict where
  "wide_proposal = [(''dimensions'', JArr (map JStr (take 8 PV_DIMENSIONS))), (''measures'', JArr (map JStr (take 9 PV_MEASURES)))]"


subsection \<open>Where the mirror is not exact\<close>

text \<open>The limit is checked against 64 for every tool, while the fixed analyses accept at most 20 rows.\<close>

theorem clean_limit_refused:
  "list_all (\<lambda>n. validate_proposal pis ''query_taxi_data'' (JObj [(''analysis'', JStr ''top_pickup_zones''), (''limit'', JInt n)]) schema 0 1
        = Inr \<lparr>violations = [], pv_outcome = ''tool_call''\<rparr>
      \<and> query_dataset engine ''top_pickup_zones'' n ro = Inl (A_ValueError ''limit must be between 1 and 20'')) [21..64]"
proof -
  have "''top_pickup_zones'' \<in> set (map fst ALLOWED_ANALYSES)" unfolding allowlists_mirror(9) [symmetric] by (simp add: PV_ANALYSES_def)
  then obtain q where q: "map_of ALLOWED_ANALYSES ''top_pickup_zones'' = Some q"
    unfolding key_present by blast
  have a: "query_dataset engine ''top_pickup_zones'' n ro = Inl (A_ValueError ''limit must be between 1 and 20'')" if "21 \<le> n" for n
    using that by (simp add: query_dataset_def q MAX_QUERY_ROWS_def)
  have "validate_query_taxi_data [(''analysis'', JStr ''top_pickup_zones''), (''limit'', JInt n)] = []" if "21 \<le> n" "n \<le> 64" for n
    using that by (simp add: validate_query_taxi_data_def check_keys_def check_limit_def is_str_def in_strings_def PV_ANALYSES_def MAX_ROWS_def)
  then have b: "validate_proposal pis ''query_taxi_data'' (JObj [(''analysis'', JStr ''top_pickup_zones''), (''limit'', JInt n)]) schema 0 1
        = Inr \<lparr>violations = [], pv_outcome = ''tool_call''\<rparr>" if "21 \<le> n" "n \<le> 64" for n
    using that unfolding validate_proposal_def validate_tool_def by (simp add: NON_TOOL_OUTCOMES_def GOVERNED_TOOLS_def)
  show ?thesis unfolding list_all_iff set_upto by (intro ballI conjI a b) auto
qed

text \<open>A proposal over the run's governed calls, or for a period the data does not cover, is never retried.\<close>

lemma over_budget_not_retried:
  assumes "validate_proposal pis name arguments schema executed allowed = Inr v" "name \<in> set GOVERNED_TOOLS" "allowed \<le> executed"
  shows "\<not> pv_ok v \<and> \<not> retry_allowed (pv_recoverable v) now t li lo used"
proof -
  have "name \<noteq> [] \<and> name \<notin> set NON_TOOL_OUTCOMES" using assms(2) by (auto simp: GOVERNED_TOOLS_def NON_TOOL_OUTCOMES_def)
  then have "v = \<lparr>violations = [\<lparr>vi_code = ''max_governed_analyses_exceeded'', vi_recoverable = False\<rparr>], pv_outcome = ''tool_call''\<rparr>"
    using assms by (simp add: validate_proposal_def)
  then show ?thesis by (simp add: pv_ok_def pv_recoverable_def retry_allowed_def)
qed

lemma out_of_scope_not_retried:
  assumes "\<lparr>vi_code = ''out_of_scope_time'', vi_recoverable = False\<rparr> \<in> set (violations v)"
  shows "\<not> retry_allowed (pv_recoverable v) now t li lo used"
proof -
  from assms have "\<not> pv_recoverable v" by (force simp: pv_recoverable_def list_all_iff)
  then show ?thesis by (simp add: retry_allowed_def)
qed

end
