(* ===== verification/Mcp_Client.thy ===== *)
theory Mcp_Client
  imports App_Proposal
begin

text \<open>
  The application's side of the tool server (\<open>services/app/app/mcp_client.py\<close>): the sanitizers every tool result
  passes before a model or a user sees it, and the adapters that call a tool and sanitize its answer.

  A payload is a JSON object; numbers that are not finite do not occur in it, so \<open>math.isfinite\<close> and
  \<open>allow_nan\<close> never refuse. The transport is the argument \<open>call\<close>. The sanitizers copy optional fields in the order of a \<open>frozenset\<close>, which Python leaves open;
  here it is the order of the source, and no result depends on it but the order of keys.
\<close>

section \<open>Errors\<close>

record mcp_tool_error =
  me_retryable :: bool
  me_message :: string
  me_reason :: string

definition MCP_FAILURE_REASONS :: "string list" where
  "MCP_FAILURE_REASONS = [''row_limit_exceeded'', ''byte_limit_exceeded'', ''invalid_result_shape'', ''invalid_cell_value'',
     ''tool_error_envelope'', ''invalid_request'', ''unknown_tool'', ''transport_error'', ''not_configured'', ''unspecified'']"

definition mcp_error :: "bool \<Rightarrow> string \<Rightarrow> string \<Rightarrow> mcp_tool_error + 'a" where
  "mcp_error retryable msg reason =
     Inl \<lparr>me_retryable = retryable, me_message = (if msg = [] then ''MCP tool execution failed'' else msg), me_reason = reason\<rparr>"

abbreviation bad_shape :: "mcp_tool_error + 'a" where "bad_shape \<equiv> mcp_error False [] ''invalid_result_shape''"

definition MAX_PROFILE_BYTES :: int where "MAX_PROFILE_BYTES = 8192"
definition MAX_QUERY_RESULT_BYTES :: int where "MAX_QUERY_RESULT_BYTES = 8192"
definition MAX_QUERY_RESULT_ROWS :: int where "MAX_QUERY_RESULT_ROWS = MAX_ROWS"

section \<open>Sanitizers\<close>

text \<open>\<open>isinstance(v, str) and v and len(v) <= n\<close>, and the same without \<open>v\<close> being non-empty.\<close>

definition text_within :: "nat \<Rightarrow> json \<Rightarrow> bool" where
  "text_within n v = (case v of JStr s \<Rightarrow> s \<noteq> [] \<and> length s \<le> n | _ \<Rightarrow> False)"

definition any_text_within :: "nat \<Rightarrow> json \<Rightarrow> bool" where
  "any_text_within n v = (case v of JStr s \<Rightarrow> length s \<le> n | _ \<Rightarrow> False)"

definition texts_within :: "nat \<Rightarrow> nat \<Rightarrow> json \<Rightarrow> bool" where
  "texts_within m n v = (case v of JArr xs \<Rightarrow> length xs \<le> m \<and> list_all (text_within n) xs | _ \<Rightarrow> False)"

definition natural :: "json \<Rightarrow> bool" where
  "natural v = (case v of JInt i \<Rightarrow> 0 \<le> i | _ \<Rightarrow> False)"

definition bounded :: "int \<Rightarrow> jdict \<Rightarrow> mcp_tool_error + jdict" where
  "bounded max_bytes d = (if int (length (json_compact (JObj d))) > max_bytes then mcp_error False [] ''byte_limit_exceeded'' else Inr d)"

definition sanitize_dataset_schema :: "jdict \<Rightarrow> mcp_tool_error + jdict" where
  "sanitize_dataset_schema payload =
     (if set (od_keys payload) \<noteq> {''columns'', ''dataset'', ''month''} then bad_shape
      else let dataset = jget payload ''dataset''; month = jget payload ''month''; columns = jget payload ''columns'' in
        if \<not> text_within 128 dataset \<or> \<not> text_within 16 month \<or> \<not> texts_within 64 128 columns \<or> columns = JArr [] then bad_shape
        else Inr [(''columns'', columns), (''dataset'', dataset), (''month'', month)])"

definition sanitize_cell :: "json \<Rightarrow> mcp_tool_error + json" where
  "sanitize_cell v = (case v of
     JNull \<Rightarrow> Inr v | JInt _ \<Rightarrow> Inr v | JFloat _ _ \<Rightarrow> Inr v
   | JStr s \<Rightarrow> if length s > 128 then mcp_error False [] ''invalid_cell_value'' else Inr v
   | _ \<Rightarrow> mcp_error False [] ''invalid_cell_value'')"

definition sanitize_row :: "nat \<Rightarrow> json \<Rightarrow> mcp_tool_error + json" where
  "sanitize_row width row = (case row of
     JArr cells \<Rightarrow> if length cells \<noteq> width then bad_shape else try_bind (try_map sanitize_cell cells) (\<lambda>cs. Inr (JArr cs))
   | _ \<Rightarrow> bad_shape)"

definition BASE_FIELDS :: "string list" where
  "BASE_FIELDS = [''columns'', ''rows'', ''row_count'', ''execution_duration_ms'', ''query_id'', ''truncated'']"

definition list_len :: "json \<Rightarrow> nat" where
  "list_len v = (case v of JArr xs \<Rightarrow> length xs | _ \<Rightarrow> 0)"

definition sanitize_query_result :: "jdict \<Rightarrow> mcp_tool_error + jdict" where
  "sanitize_query_result payload =
     (if set (od_keys payload) \<noteq> set BASE_FIELDS then bad_shape
      else let columns = jget payload ''columns''; rows = jget payload ''rows''; row_count = jget payload ''row_count'';
               duration = jget payload ''execution_duration_ms''; query_id = jget payload ''query_id''; truncated = jget payload ''truncated'' in
        if is_list rows \<and> int (list_len rows) > MAX_QUERY_RESULT_ROWS then mcp_error False [] ''row_limit_exceeded''
        else if \<not> texts_within 16 128 columns \<or> columns = JArr [] \<or> \<not> is_list rows \<or> row_count \<noteq> JInt (int (list_len rows))
          \<or> \<not> natural duration \<or> \<not> text_within 128 query_id \<or> \<not> is_bool truncated then bad_shape
        else try_bind (try_map (sanitize_row (list_len columns)) (as_row rows)) (\<lambda>rs.
          bounded MAX_QUERY_RESULT_BYTES
            [(''columns'', columns), (''rows'', JArr rs), (''row_count'', row_count), (''execution_duration_ms'', duration),
             (''query_id'', query_id), (''truncated'', truncated)]))"

definition STRING_EXTRAS :: "string list" where
  "STRING_EXTRAS = [''query_class'', ''dimension'', ''segment_dimension'', ''comparison_mode'', ''baseline_label'', ''comparison_label'',
     ''tip_rate_semantics'', ''airport_trip_rule'']"

definition LIST_EXTRAS :: "string list" where
  "LIST_EXTRAS = [''dimensions'', ''measures'', ''no_data_sides'']"

text \<open>\<open>for key in keys: if key not in payload: continue; check; sanitized[key] = value\<close>.\<close>

fun copy_extras :: "(json \<Rightarrow> bool) \<Rightarrow> jdict \<Rightarrow> string list \<Rightarrow> jdict \<Rightarrow> mcp_tool_error + jdict" where
  "copy_extras ok payload [] d = Inr d"
| "copy_extras ok payload (k # ks) d =
     (case map_of payload k of
        None \<Rightarrow> copy_extras ok payload ks d
      | Some v \<Rightarrow> if \<not> ok v then bad_shape else copy_extras ok payload ks (od_set k v d))"

definition sanitize_governed_query_result :: "jdict \<Rightarrow> mcp_tool_error + jdict" where
  "sanitize_governed_query_result payload =
     (let keys = set (od_keys payload) in
      if \<not> set BASE_FIELDS \<subseteq> keys \<or> \<not> keys \<subseteq> set BASE_FIELDS \<union> set STRING_EXTRAS \<union> set LIST_EXTRAS then bad_shape
      else try_bind (sanitize_query_result (map (\<lambda>k. (k, jget payload k)) BASE_FIELDS)) (\<lambda>base.
        try_bind (copy_extras (text_within 512) payload STRING_EXTRAS base) (\<lambda>d.
        try_bind (copy_extras (texts_within 16 64) payload LIST_EXTRAS d) (bounded MAX_QUERY_RESULT_BYTES))))"

definition raise_for_error_envelope :: "(json \<Rightarrow> string) \<Rightarrow> string \<Rightarrow> jdict \<Rightarrow> mcp_tool_error + unit" where
  "raise_for_error_envelope str dflt payload = (case jget payload ''error'' of
     JObj e \<Rightarrow> if jget e ''retryable'' = JBool False
       then mcp_error False (if truthy (jget e ''message'') then str (jget e ''message'') else dflt) ''tool_error_envelope''
       else Inr ()
   | _ \<Rightarrow> Inr ())"

definition DESCRIBE_FIELDS :: "string list" where
  "DESCRIBE_FIELDS = [''query_class'', ''row_count'', ''min_pickup_datetime'', ''max_pickup_datetime'', ''columns'', ''supported_dimensions'',
     ''supported_measures'', ''code_dictionaries'', ''tip_rate_semantics'', ''airport_trip_rule'', ''valid_records_rule'', ''truncated'', ''query_id'']"

definition DESCRIBE_OPTIONAL :: "string list" where
  "DESCRIBE_OPTIONAL = [''null_summary'', ''invalid_record_summary'']"

definition describe_column_ok :: "json \<Rightarrow> bool" where
  "describe_column_ok c = (case c of
     JObj d \<Rightarrow> set (od_keys d) = {''name'', ''type''} \<and> text_within 128 (jget d ''name'') \<and> any_text_within 64 (jget d ''type'')
   | _ \<Rightarrow> False)"

definition describe_column_copy :: "json \<Rightarrow> json" where
  "describe_column_copy c = (case c of JObj d \<Rightarrow> JObj [(''name'', jget d ''name''), (''type'', jget d ''type'')] | _ \<Rightarrow> c)"

definition dictionary_ok :: "json \<Rightarrow> bool" where
  "dictionary_ok m = (case m of
     JObj d \<Rightarrow> length d \<le> 16 \<and> list_all (\<lambda>(code, label). length code \<le> 8 \<and> text_within 64 label) d
   | _ \<Rightarrow> False)"

definition summary_ok :: "json \<Rightarrow> bool" where
  "summary_ok m = (case m of
     JObj d \<Rightarrow> length d \<le> 8 \<and> list_all (\<lambda>(name, v). length name \<le> 64 \<and> natural v) d
   | _ \<Rightarrow> False)"

definition sanitize_describe_result :: "jdict \<Rightarrow> mcp_tool_error + jdict" where
  "sanitize_describe_result payload =
     (let keys = set (od_keys payload); get = jget payload in
      if \<not> set DESCRIBE_FIELDS \<subseteq> keys \<or> \<not> keys \<subseteq> set DESCRIBE_FIELDS \<union> set DESCRIBE_OPTIONAL then bad_shape
      else if \<not> natural (get ''row_count'') then bad_shape
      else if list_ex (\<lambda>k. get k \<noteq> JNull \<and> \<not> any_text_within 64 (get k)) [''min_pickup_datetime'', ''max_pickup_datetime''] then bad_shape
      else if \<not> is_list (get ''columns'') \<or> list_len (get ''columns'') > 64 \<or> \<not> list_all describe_column_ok (as_row (get ''columns'')) then bad_shape
      else if \<not> list_all (\<lambda>k. texts_within 32 64 (get k)) [''supported_dimensions'', ''supported_measures''] then bad_shape
      else case get ''code_dictionaries'' of
        JObj ds \<Rightarrow>
          if set (od_keys ds) \<noteq> {''payment_type'', ''rate_code'', ''vendor''} \<or> \<not> list_all (\<lambda>(_, m). dictionary_ok m) ds then bad_shape
          else if \<not> list_all (\<lambda>k. text_within 512 (get k)) [''tip_rate_semantics'', ''airport_trip_rule'', ''valid_records_rule''] then bad_shape
          else if \<not> is_bool (get ''truncated'') then bad_shape
          else if \<not> text_within 128 (get ''query_id'') then bad_shape
          else try_bind (copy_extras summary_ok payload DESCRIBE_OPTIONAL
              (map (\<lambda>k. (k, if k = ''columns'' then JArr (map describe_column_copy (as_row (get k))) else get k)) DESCRIBE_FIELDS))
            (bounded MAX_PROFILE_BYTES)
      | _ \<Rightarrow> bad_shape)"

definition daily_row_ok :: "json \<Rightarrow> bool" where
  "daily_row_ok r = (case r of
     JObj d \<Rightarrow> any_text_within 32 (jget d ''pickup_date'') \<and> any_text_within 128 (jget d ''pickup_zone'') \<and> natural (jget d ''trip_count'') \<and>
       is_number (jget d ''total_amount'')
   | _ \<Rightarrow> False)"

definition pick_keys :: "string list \<Rightarrow> json \<Rightarrow> json" where
  "pick_keys ks r = (case r of JObj d \<Rightarrow> JObj (map (\<lambda>k. (k, jget d k)) ks) | _ \<Rightarrow> r)"

definition sanitize_dataset_profile :: "jdict \<Rightarrow> mcp_tool_error + jdict" where
  "sanitize_dataset_profile payload =
     (let get = jget payload; ints = [''row_count'', ''zone_row_count'', ''timing_ms'', ''rss_bytes''] in
      if \<not> list_all (\<lambda>k. natural (get k)) ints then bad_shape
      else case get ''schema_columns'' of
        JArr cs \<Rightarrow>
          if length cs > 64 \<or> \<not> list_all (any_text_within 128) cs then bad_shape
          else (case get ''daily_zone_rows'' of
            JArr rs \<Rightarrow>
              if length rs > 10 \<or> \<not> list_all daily_row_ok rs then bad_shape
              else (case get ''duckdb_settings'' of
                JObj st \<Rightarrow>
                  if \<not> list_all (\<lambda>k. any_text_within 64 (jget st k)) [''threads'', ''memory_limit''] then bad_shape
                  else bounded MAX_PROFILE_BYTES (map (\<lambda>k. (k, get k)) ints @
                    [(''schema_columns'', JArr cs),
                     (''daily_zone_rows'', JArr (map (pick_keys [''pickup_date'', ''pickup_zone'', ''trip_count'', ''total_amount'']) rs)),
                     (''duckdb_settings'', pick_keys [''threads'', ''memory_limit''] (JObj st))])
              | _ \<Rightarrow> bad_shape)
          | _ \<Rightarrow> bad_shape)
      | _ \<Rightarrow> bad_shape)"

section \<open>Adapters\<close>

text \<open>
  What a call can end in: an error of the transport, which the adapters catch (\<open>ClientError\<close>, \<open>HTTPError\<close>, \<open>McpError\<close>,
  \<open>OSError\<close>, \<open>RuntimeError\<close>); fastmcp's \<open>ToolError\<close> for an exception of the tool on the server, which is none of these
  and passes through; or the data of the answer.
\<close>

datatype transport_exn = Transport_error string | ToolError string

type_synonym transport = "string \<Rightarrow> jdict \<Rightarrow> transport_exn + json"

datatype client_exn = MCPToolError mcp_tool_error | Escaped string

definition mcp_raise :: "mcp_tool_error + 'a \<Rightarrow> client_exn + 'a" where
  "mcp_raise r = (case r of Inl e \<Rightarrow> Inl (MCPToolError e) | Inr x \<Rightarrow> Inr x)"

definition call_tool :: "transport \<Rightarrow> string \<Rightarrow> jdict \<Rightarrow> client_exn + jdict" where
  "call_tool call tool arguments = (case call tool arguments of
     Inl (Transport_error text') \<Rightarrow> mcp_raise (mcp_error True text' ''transport_error'')
   | Inl (ToolError text') \<Rightarrow> Inl (Escaped text')
   | Inr (JObj d) \<Rightarrow> Inr d
   | Inr _ \<Rightarrow> mcp_raise bad_shape)"

definition given :: "string \<Rightarrow> json \<Rightarrow> jdict" where
  "given k v = (if v = JNull then [] else [(k, v)])"

definition client_query_taxi_data :: "transport \<Rightarrow> string \<Rightarrow> int \<Rightarrow> client_exn + jdict" where
  "client_query_taxi_data call analysis limit =
     (if analysis \<notin> set (map fst ALLOWED_ANALYSES)
      then mcp_raise (mcp_error False (''Disallowed analysis '' @ [CHR 0x27] @ analysis @ [CHR 0x27]) ''invalid_request'')
      else if \<not> (1 \<le> limit \<and> limit \<le> 20)
      then mcp_raise (mcp_error False (''Limit '' @ show_int limit @ '' outside allowed range [1, 20]'') ''invalid_request'')
      else try_bind (call_tool call ''query_taxi_data'' [(''analysis'', JStr analysis), (''limit'', JInt limit)]) (\<lambda>d.
           mcp_raise (sanitize_query_result d)))"

definition checked_answer ::
  "(json \<Rightarrow> string) \<Rightarrow> string \<Rightarrow> (jdict \<Rightarrow> mcp_tool_error + jdict) \<Rightarrow> client_exn + jdict \<Rightarrow> client_exn + jdict" where
  "checked_answer str dflt sanitize answer = try_bind answer (\<lambda>d.
     mcp_raise (try_bind (raise_for_error_envelope str dflt d) (\<lambda>_. sanitize d)))"

abbreviation governed_answer ::
  "(json \<Rightarrow> string) \<Rightarrow> (jdict \<Rightarrow> mcp_tool_error + jdict) \<Rightarrow> client_exn + jdict \<Rightarrow> client_exn + jdict" where
  "governed_answer str \<equiv> checked_answer str ''Governed query validation failed''"

definition client_average_trip_metrics :: "(json \<Rightarrow> string) \<Rightarrow> transport \<Rightarrow> json \<Rightarrow> client_exn + jdict" where
  "client_average_trip_metrics str call region =
     (if region \<noteq> JNull \<and> \<not> (case region of JStr s \<Rightarrow> py_strip s \<noteq> [] \<and> length s \<le> 128 | _ \<Rightarrow> False)
      then mcp_raise (mcp_error False (''Invalid region_name '' @ [CHR 0x27] @ str region @ [CHR 0x27]) ''invalid_request'')
      else checked_answer str ''Invalid region_name'' sanitize_query_result (call_tool call ''average_trip_metrics'' (given ''region_name'' region)))"

definition client_describe_taxi_dataset :: "(json \<Rightarrow> string) \<Rightarrow> transport \<Rightarrow> json \<Rightarrow> client_exn + jdict" where
  "client_describe_taxi_dataset str call stats =
     (if \<not> is_bool stats then mcp_raise (mcp_error False ''include_column_stats must be a boolean'' ''invalid_request'')
      else governed_answer str sanitize_describe_result (call_tool call ''describe_taxi_dataset'' [(''include_column_stats'', stats)]))"

definition client_list_taxi_dimension_values :: "(json \<Rightarrow> string) \<Rightarrow> transport \<Rightarrow> json \<Rightarrow> json \<Rightarrow> json \<Rightarrow> client_exn + jdict" where
  "client_list_taxi_dimension_values str call dimension search limit =
     governed_answer str sanitize_governed_query_result
       (call_tool call ''list_taxi_dimension_values'' ([(''dimension'', dimension), (''limit'', limit)] @ given ''search'' search))"

definition client_aggregate_taxi_data ::
  "(json \<Rightarrow> string) \<Rightarrow> transport \<Rightarrow> json \<Rightarrow> json \<Rightarrow> json \<Rightarrow> json \<Rightarrow> json \<Rightarrow> client_exn + jdict" where
  "client_aggregate_taxi_data str call dims ms fs ob limit =
     governed_answer str sanitize_governed_query_result
       (call_tool call ''aggregate_taxi_data''
         ([(''dimensions'', dims), (''measures'', ms), (''limit'', limit)] @ given ''filters'' fs @ given ''order_by'' ob))"

definition client_compare_taxi_segments ::
  "(json \<Rightarrow> string) \<Rightarrow> transport \<Rightarrow> json \<Rightarrow> json \<Rightarrow> json \<Rightarrow> json \<Rightarrow> json \<Rightarrow> json \<Rightarrow> client_exn + jdict" where
  "client_compare_taxi_segments str call segment ms base cmp mode limit =
     governed_answer str sanitize_governed_query_result
       (call_tool call ''compare_taxi_segments''
         ([(''measures'', ms), (''baseline_filters'', base), (''comparison_filters'', cmp), (''limit'', limit)]
           @ given ''segment_dimension'' segment @ given ''comparison_mode'' mode))"

definition client_get_dataset_profile :: "transport \<Rightarrow> client_exn + jdict" where
  "client_get_dataset_profile call = try_bind (call_tool call ''get_dataset_profile'' []) (\<lambda>d. mcp_raise (sanitize_dataset_profile d))"

section \<open>What the sanitizers accept\<close>

definition cell_ok :: "json \<Rightarrow> bool" where
  "cell_ok v = (case v of JNull \<Rightarrow> True | JInt _ \<Rightarrow> True | JFloat _ _ \<Rightarrow> True | JStr s \<Rightarrow> length s \<le> 128 | _ \<Rightarrow> False)"

definition row_ok :: "nat \<Rightarrow> json \<Rightarrow> bool" where
  "row_ok width r = (case r of JArr cs \<Rightarrow> length cs = width \<and> list_all cell_ok cs | _ \<Rightarrow> False)"

definition base_ok :: "jdict \<Rightarrow> bool" where
  "base_ok d \<longleftrightarrow> texts_within 16 128 (jget d ''columns'') \<and> jget d ''columns'' \<noteq> JArr [] \<and> is_list (jget d ''rows'') \<and>
     int (list_len (jget d ''rows'')) \<le> MAX_QUERY_RESULT_ROWS \<and> jget d ''row_count'' = JInt (int (list_len (jget d ''rows''))) \<and>
     natural (jget d ''execution_duration_ms'') \<and> text_within 128 (jget d ''query_id'') \<and> is_bool (jget d ''truncated'') \<and>
     list_all (row_ok (list_len (jget d ''columns''))) (as_row (jget d ''rows''))"

definition bytes_of :: "jdict \<Rightarrow> int" where
  "bytes_of d = int (length (json_compact (JObj d)))"

definition copy_keys :: "string list \<Rightarrow> jdict \<Rightarrow> jdict" where
  "copy_keys ks d = map (\<lambda>k. (k, jget d k)) ks"

definition present_keys :: "string list \<Rightarrow> jdict \<Rightarrow> jdict" where
  "present_keys ks d = concat (map (\<lambda>k. case map_of d k of None \<Rightarrow> [] | Some v \<Rightarrow> [(k, v)]) ks)"

lemma bounded_iff: "bounded n d = Inr r \<longleftrightarrow> r = d \<and> bytes_of d \<le> n"
  by (auto simp: bounded_def bytes_of_def mcp_error_def)

lemma sanitize_cell_iff: "sanitize_cell v = Inr v' \<longleftrightarrow> v' = v \<and> cell_ok v"
  by (auto simp: sanitize_cell_def cell_ok_def mcp_error_def split: json.splits)

lemma try_map_check:
  assumes "\<And>x y. f x = Inr y \<longleftrightarrow> y = x \<and> ok x"
  shows "try_map f xs = Inr ys \<longleftrightarrow> ys = xs \<and> list_all ok xs"
proof (induction xs arbitrary: ys)
  case (Cons x xs)
  have "try_map f (x # xs) = Inr ys \<longleftrightarrow> (\<exists>y. f x = Inr y \<and> (\<exists>zs. try_map f xs = Inr zs \<and> y # zs = ys))" by simp
  also have "\<dots> \<longleftrightarrow> ys = x # xs \<and> list_all ok (x # xs)" unfolding assms Cons.IH by auto
  finally show ?case .
qed auto

lemma sanitize_row_iff: "sanitize_row w r = Inr r' \<longleftrightarrow> r' = r \<and> row_ok w r"
  by (cases r) (auto simp: sanitize_row_def row_ok_def mcp_error_def try_bind_eq_Inr try_map_check [OF sanitize_cell_iff])

lemma check_rows_iff:
  "(if a then mcp_error b m e else if c then bad_shape
    else try_bind (try_map (sanitize_row w) xs) (\<lambda>rs. bounded n (f rs))) = Inr r \<longleftrightarrow>
   \<not> a \<and> \<not> c \<and> list_all (row_ok w) xs \<and> r = f xs \<and> bytes_of r \<le> n"
  by (auto simp: mcp_error_def try_bind_eq_Inr try_map_check [OF sanitize_row_iff] bounded_iff)

lemma sanitize_query_result_iff:
  "sanitize_query_result p = Inr r \<longleftrightarrow> set (od_keys p) = set BASE_FIELDS \<and> base_ok p \<and> r = copy_keys BASE_FIELDS p \<and>
     bytes_of r \<le> MAX_QUERY_RESULT_BYTES"
proof -
  have rows: "is_list v \<Longrightarrow> JArr (as_row v) = v" for v by (cases v) (auto simp: as_row_def)
  let ?c = "jget p ''columns''" and ?r = "jget p ''rows''"
  have copy: "copy_keys BASE_FIELDS p = [(''columns'', ?c), (''rows'', ?r), (''row_count'', jget p ''row_count''),
    (''execution_duration_ms'', jget p ''execution_duration_ms''), (''query_id'', jget p ''query_id''), (''truncated'', jget p ''truncated'')]"
    by (simp add: copy_keys_def BASE_FIELDS_def)
  show ?thesis
  proof (cases "set (od_keys p) = set BASE_FIELDS")
    case True
    show ?thesis
      unfolding sanitize_query_result_def Let_def if_not_P [OF iffD2 [OF not_not True]] check_rows_iff base_ok_def copy
      using True rows [of ?r]
      by (cases "is_list ?r"; simp only: simp_thms not_less de_Morgan_disj de_Morgan_conj cong: conj_cong) (simp only: conj_ac)
  next
    case False
    then show ?thesis by (simp only: sanitize_query_result_def if_True simp_thms mcp_error_def) simp
  qed
qed

text \<open>The fields a sanitizer copies, and the length of what it prints.\<close>

lemma present_keys_simps [simp]:
  "present_keys [] d = []" "present_keys (k # ks) d = (case map_of d k of None \<Rightarrow> [] | Some v \<Rightarrow> [(k, v)]) @ present_keys ks d"
  "present_keys (ks @ ks') d = present_keys ks d @ present_keys ks' d"
  by (simp_all add: present_keys_def)

lemma present_keys_keys: "od_keys (present_keys ks d) = filter (\<lambda>k. map_of d k \<noteq> None) ks"
  by (induction ks) (auto split: option.split)

lemma present_keys_mem: "(k, v) \<in> set (present_keys ks d) \<longleftrightarrow> k \<in> set ks \<and> map_of d k = Some v"
  by (induction ks) (auto split: option.splits)

lemma copy_is_present: "set ks \<subseteq> fst ` set d \<Longrightarrow> copy_keys ks d = present_keys ks d"
proof (induction ks)
  case (Cons k ks)
  then have "map_of d k \<noteq> None" by (simp add: map_of_eq_None_iff)
  then obtain v where "map_of d k = Some v" by blast
  with Cons show ?case by (simp add: copy_keys_def jget_def)
qed (simp add: copy_keys_def)

lemma present_keys_mset:
  assumes "distinct (od_keys d)" "distinct ks" "fst ` set d \<subseteq> set ks"
  shows "mset (present_keys ks d) = mset d"
proof -
  have "set (present_keys ks d) = set d" using assms(1,3) by (force simp: present_keys_mem)
  moreover have "distinct (present_keys ks d)" 
    by (rule distinct_map [of fst, THEN iffD1, THEN conjunct1]) (simp add: present_keys_keys assms(2))
  moreover have "distinct d" using assms(1) by (simp add: distinct_map)
  ultimately show ?thesis by (simp add: set_eq_iff_mset_eq_distinct)
qed

lemma od_set_fresh: "k \<notin> fst ` set d \<Longrightarrow> od_set k v d = d @ [(k, v)]"
  by (induction k v d rule: od_set.induct) auto

lemma copy_extras_iff:
  assumes "distinct ks" "set ks \<inter> fst ` set d = {}"
  shows "copy_extras ok p ks d = Inr r \<longleftrightarrow> list_all (\<lambda>(_, v). ok v) (present_keys ks p) \<and> r = d @ present_keys ks p"
  using assms
proof (induction ks arbitrary: d)
  case (Cons k ks)
  then have "set ks \<inter> fst ` set (d @ [(k, v)]) = {}" for v by auto
  with Cons show ?case by (auto simp: od_set_fresh mcp_error_def split: option.split)
qed auto

lemma py_join_length: "length (py_join sep xs) = sum_list (map length xs) + length sep * (length xs - 1)"
  by (induction sep xs rule: py_join.induct) auto

lemma bytes_of_sum:
  "bytes_of d = 2 + int (sum_list (map (\<lambda>(k, v). length (json_quote k) + 1 + length (json_compact v)) d)) + int (length d - 1)"
proof -
  have "length \<circ> (\<lambda>(k, v). json_quote k @ CHR '':'' # json_compact v) = (\<lambda>(k, v). Suc (length (json_quote k) + length (json_compact v)))"
    by auto
  then show ?thesis by (simp add: bytes_of_def py_join_length)
qed

lemma bytes_of_mset: "mset d = mset d' \<Longrightarrow> bytes_of d = bytes_of d'"
proof -
  assume e: "mset d = mset d'"
  then have "mset (map f d) = mset (map f d')" for f :: "string \<times> json \<Rightarrow> nat" by simp
  then have "sum_list (map f d) = sum_list (map f d')" for f :: "string \<times> json \<Rightarrow> nat" by (metis sum_mset_sum_list)
  moreover have "length d = length d'" using e by (rule mset_eq_length)
  ultimately show ?thesis by (simp add: bytes_of_sum)
qed

lemma bytes_of_append: "bytes_of d \<le> bytes_of (d @ e)"
  by (simp add: bytes_of_sum)

abbreviation ALL_FIELDS :: "string list" where "ALL_FIELDS \<equiv> BASE_FIELDS @ STRING_EXTRAS @ LIST_EXTRAS"

lemma fields_distinct: "distinct ALL_FIELDS" by (simp add: BASE_FIELDS_def STRING_EXTRAS_def LIST_EXTRAS_def)

lemma jget_copy_keys: "k \<in> set ks \<Longrightarrow> jget (copy_keys ks d) k = jget d k"
  by (simp add: copy_keys_def jget_def map_of_map_restrict)

lemma copy_keys_idem: "copy_keys ks (copy_keys ks d) = copy_keys ks d"
  unfolding copy_keys_def [of _ "copy_keys _ _"] by (rule copy_keys_def [THEN trans, symmetric]) (simp add: jget_copy_keys cong: map_cong)

lemma copy_keys_keys: "od_keys (copy_keys ks d) = ks"
  by (simp add: copy_keys_def comp_def)

lemma base_ok_copy: "base_ok (copy_keys BASE_FIELDS p) = base_ok p"
proof -
  have "k \<in> set BASE_FIELDS \<Longrightarrow> jget (copy_keys BASE_FIELDS p) k = jget p k" for k by (rule jget_copy_keys)
  then show ?thesis by (simp add: base_ok_def BASE_FIELDS_def)
qed

definition governed_ok :: "jdict \<Rightarrow> bool" where
  "governed_ok p \<longleftrightarrow> set BASE_FIELDS \<subseteq> fst ` set p \<and> fst ` set p \<subseteq> set ALL_FIELDS \<and> base_ok p \<and>
     list_all (\<lambda>(_, v). text_within 512 v) (present_keys STRING_EXTRAS p) \<and>
     list_all (\<lambda>(_, v). texts_within 16 64 v) (present_keys LIST_EXTRAS p)"

lemma sanitize_governed_iff:
  "sanitize_governed_query_result p = Inr r \<longleftrightarrow>
     governed_ok p \<and> r = present_keys ALL_FIELDS p \<and> bytes_of r \<le> MAX_QUERY_RESULT_BYTES"
proof (cases "set BASE_FIELDS \<subseteq> fst ` set p \<and> fst ` set p \<subseteq> set ALL_FIELDS")
  case True
  then have b: "copy_keys BASE_FIELDS p = present_keys BASE_FIELDS p" by (intro copy_is_present) blast
  have base: "sanitize_query_result (copy_keys BASE_FIELDS p) = Inr d \<longleftrightarrow>
    base_ok p \<and> d = present_keys BASE_FIELDS p \<and> bytes_of d \<le> MAX_QUERY_RESULT_BYTES" for d
    unfolding sanitize_query_result_iff base_ok_copy copy_keys_idem copy_keys_keys unfolding b by simp
  have disj: "set STRING_EXTRAS \<inter> fst ` set (present_keys BASE_FIELDS p) = {}"
    "set LIST_EXTRAS \<inter> fst ` set (present_keys BASE_FIELDS p @ present_keys STRING_EXTRAS p) = {}"
    using fields_distinct present_keys_mem by fastforce+
  have extras: "copy_extras (text_within 512) p STRING_EXTRAS (present_keys BASE_FIELDS p) = Inr d \<longleftrightarrow>
      list_all (\<lambda>(_, v). text_within 512 v) (present_keys STRING_EXTRAS p) \<and> d = present_keys BASE_FIELDS p @ present_keys STRING_EXTRAS p"
    "copy_extras (texts_within 16 64) p LIST_EXTRAS (present_keys BASE_FIELDS p @ present_keys STRING_EXTRAS p) = Inr d \<longleftrightarrow>
      list_all (\<lambda>(_, v). texts_within 16 64 v) (present_keys LIST_EXTRAS p) \<and> d = present_keys ALL_FIELDS p" for d
    using fields_distinct disj by (simp_all add: copy_extras_iff)
  have le: "bytes_of (present_keys BASE_FIELDS p) \<le> bytes_of (present_keys ALL_FIELDS p)" by (simp add: bytes_of_append)
  have "sanitize_governed_query_result p = try_bind (sanitize_query_result (copy_keys BASE_FIELDS p)) (\<lambda>base.
        try_bind (copy_extras (text_within 512) p STRING_EXTRAS base) (\<lambda>d.
        try_bind (copy_extras (texts_within 16 64) p LIST_EXTRAS d) (bounded MAX_QUERY_RESULT_BYTES)))"
    using True by (simp add: sanitize_governed_query_result_def copy_keys_def Un_assoc)
  then show ?thesis using True le
    by (auto simp: base extras bounded_iff governed_ok_def simp del: present_keys_simps)
next
  case False
  then show ?thesis by (auto simp: sanitize_governed_query_result_def governed_ok_def mcp_error_def Un_assoc)
qed

text \<open>
  C28. A governed result with distinct keys is accepted exactly when it has the base fields and only known
  ones, its columns, rows, cells and texts are within their bounds and its compact encoding is within the
  byte bound; and what is accepted is passed on unchanged, up to the order of its keys.
\<close>

theorem sanitizer_exact:
  assumes "distinct (od_keys p)"
  shows "((\<exists>r. sanitize_governed_query_result p = Inr r) \<longleftrightarrow> governed_ok p \<and> bytes_of p \<le> MAX_QUERY_RESULT_BYTES) \<and>
    (\<forall>r. sanitize_governed_query_result p = Inr r \<longrightarrow> mset r = mset p)"
proof -
  have m: "mset (present_keys ALL_FIELDS p) = mset p" if "governed_ok p"
    using that by (intro present_keys_mset [OF assms fields_distinct]) (simp add: governed_ok_def)
  then show ?thesis unfolding sanitize_governed_iff by (metis bytes_of_mset)
qed

definition sample_result :: jdict where
  "sample_result = [(''query_class'', JStr ''aggregate''), (''columns'', JArr [JStr ''pickup_borough'', JStr ''trip_count'']),
     (''rows'', JArr [JArr [JStr ''Queens'', JInt 7]]), (''row_count'', JInt 1), (''execution_duration_ms'', JInt 3),
     (''query_id'', JStr ''query_1''), (''truncated'', JBool False)]"

theorem sanitizer_exact_witness:
  "\<exists>r. sanitize_governed_query_result sample_result = Inr r \<and> mset r = mset sample_result"
proof -
  have d: "distinct (od_keys sample_result)" by (simp add: sample_result_def)
  have "governed_ok sample_result \<and> bytes_of sample_result \<le> MAX_QUERY_RESULT_BYTES" by code_simp
  with sanitizer_exact [OF d] show ?thesis by blast
qed

text \<open>The orchestration loop sanitizes a fixed analysis a second time, which changes nothing.\<close>

lemma sanitize_query_result_idem:
  assumes "sanitize_query_result p = Inr r"
  shows "sanitize_query_result r = Inr r"
proof -
  from assms [unfolded sanitize_query_result_iff] have "base_ok p" "r = copy_keys BASE_FIELDS p" "bytes_of r \<le> MAX_QUERY_RESULT_BYTES"
    by blast+
  then show ?thesis unfolding sanitize_query_result_iff by (simp add: base_ok_copy copy_keys_idem copy_keys_keys)
qed

end
