(* ===== verification/Mcp_Server.thy ===== *)
theory Mcp_Server
  imports Mcp_Client
begin

text \<open>
  The tool server (\<open>services/mcp/mcp_server/server.py\<close>) around the governed analytics functions, and what a call of
  the application's adapter through it returns.

  \<open>accepts\<close> is FastMCP's check of the arguments against the tool's signature; a refusal and every exception of a
  tool reach the client as \<open>ToolError\<close>. The texts of errors, the profile and the two durations and query
  identifiers of a call are arguments. Spans are left out.
\<close>

record server_env =
  sv_engine :: engine
  sv_zones :: "string list"
  sv_accepts :: "string \<Rightarrow> jdict \<Rightarrow> bool"
  sv_isoformat :: "string \<Rightarrow> bool"
  sv_repr :: "pyfloat \<Rightarrow> string"
  sv_message :: "string \<Rightarrow> string"
  sv_text :: "analytics_exn \<Rightarrow> string"
  sv_profile :: jdict
  sv_ms :: int
  sv_id :: string
  sv_ms2 :: int
  sv_id2 :: string

text \<open>The options every tool is run with: 30 seconds and the default byte bound.\<close>

definition pinned :: "int \<Rightarrow> string \<Rightarrow> run_options" where
  "pinned ms qid = \<lparr>max_result_bytes = MAX_RESULT_BYTES, run_timeout = 30, duration_ms = ms, query_id = qid\<rparr>"

definition to_envelope :: "string \<Rightarrow> string \<Rightarrow> json" where
  "to_envelope code msg = JObj [(''error'', JObj [(''code'', JStr code), (''message'', JStr msg), (''retryable'', JBool False)])]"

definition run_governed_analytics_tool :: "server_env \<Rightarrow> analytics_exn + jdict \<Rightarrow> transport_exn + json" where
  "run_governed_analytics_tool sv r = (case r of
     Inr env \<Rightarrow> Inr (JObj env)
   | Inl (A_Query (QueryValidationError code)) \<Rightarrow> Inr (to_envelope code (sv_message sv code))
   | Inl e \<Rightarrow> Inl (ToolError (sv_text sv e)))"

definition run_duckdb_query :: "server_env \<Rightarrow> analytics_exn + jdict \<Rightarrow> transport_exn + json" where
  "run_duckdb_query sv r = (case r of Inr env \<Rightarrow> Inr (JObj env) | Inl e \<Rightarrow> Inl (ToolError (sv_text sv e)))"

definition serve_query_taxi_data :: "server_env \<Rightarrow> string \<Rightarrow> int \<Rightarrow> transport_exn + json" where
  "serve_query_taxi_data sv analysis limit =
     (if \<not> (1 \<le> limit \<and> limit \<le> 20) then Inl (ToolError ''limit must be between 1 and 20'')
      else if analysis \<notin> set (map fst ALLOWED_ANALYSES) then Inl (ToolError ''analysis must be an allowlisted analysis'')
      else run_duckdb_query sv (query_dataset (sv_engine sv) analysis limit (pinned (sv_ms sv) (sv_id sv))))"

definition serve_average_trip_metrics :: "server_env \<Rightarrow> json \<Rightarrow> transport_exn + json" where
  "serve_average_trip_metrics sv region =
     (case query_average_trip_metrics (sv_engine sv) (sv_zones sv) region (pinned (sv_ms sv) (sv_id sv)) of
        Inl A_Region \<Rightarrow> Inr (to_envelope ''invalid_region_name'' (sv_text sv A_Region))
      | r \<Rightarrow> run_duckdb_query sv r)"

definition mode_or_default :: "json \<Rightarrow> json" where
  "mode_or_default m = (if m = JNull then JStr ''by_dimension'' else m)"

text \<open>\<open>call_tool\<close> as the client sees it.\<close>

definition mcp_server :: "server_env \<Rightarrow> transport" where
  "mcp_server sv tool args =
     (let get = jget args; limit = jget_or args ''limit'' (JInt 20); ro = pinned (sv_ms sv) (sv_id sv) in
      if \<not> sv_accepts sv tool args then Inl (ToolError ''invalid arguments'')
      else if tool = ''get_dataset_profile'' then Inr (JObj (sv_profile sv))
      else if tool = ''query_taxi_data'' then
        (case (get ''analysis'', jget_or args ''limit'' (JInt 5)) of
           (JStr a, JInt l) \<Rightarrow> serve_query_taxi_data sv a l | _ \<Rightarrow> Inl (ToolError ''invalid arguments''))
      else if tool = ''average_trip_metrics'' then serve_average_trip_metrics sv (get ''region_name'')
      else if tool = ''describe_taxi_dataset'' then
        run_governed_analytics_tool sv (describe_taxi_dataset (sv_engine sv) (jget_or args ''include_column_stats'' (JBool False)) ro
          (pinned (sv_ms2 sv) (sv_id2 sv)))
      else if tool = ''list_taxi_dimension_values'' then
        run_governed_analytics_tool sv (list_taxi_dimension_values (sv_engine sv) (get ''dimension'') (get ''search'') limit ro)
      else if tool = ''aggregate_taxi_data'' then
        run_governed_analytics_tool sv (aggregate_taxi_data (sv_isoformat sv) (sv_engine sv) (get ''dimensions'') (get ''measures'')
          (get ''filters'') (get ''order_by'') limit ro)
      else if tool = ''compare_taxi_segments'' then
        run_governed_analytics_tool sv (compare_taxi_segments (sv_repr sv) (sv_isoformat sv) (sv_engine sv)
          (mode_or_default (get ''comparison_mode'')) (get ''segment_dimension'') (get ''measures'') (get ''baseline_filters'')
          (get ''comparison_filters'') limit (sv_id2 sv) ro)
      else Inl (ToolError ''unknown tool''))"

section \<open>Every envelope of the server passes the client's sanitizer\<close>

text \<open>
  What is documented of the engine: every row is as wide as the columns, a cell is null, a number or a text
  (here of at most 128 characters), and the columns of a compiled query are those its \<open>SELECT\<close> names.
\<close>

definition engine_ok :: "engine \<Rightarrow> bool" where
  "engine_ok engine \<longleftrightarrow> (\<forall>q ps cols rows. engine q ps = W_ok cols rows \<longrightarrow>
     list_all (\<lambda>r. length r = length cols \<and> list_all cell_ok r) rows)"

definition answers_columns :: "engine \<Rightarrow> compiled_query \<Rightarrow> bool" where
  "answers_columns engine c \<longleftrightarrow>
     (case engine (sql c) (parameters c) of W_ok cols rows \<Rightarrow> cols = output_columns c | _ \<Rightarrow> True)"

definition columns_ok :: "string list \<Rightarrow> bool" where
  "columns_ok cols \<longleftrightarrow> cols \<noteq> [] \<and> length cols \<le> 16 \<and> list_all (\<lambda>c. c \<noteq> [] \<and> length c \<le> 128) cols"

definition options_ok :: "run_options \<Rightarrow> bool" where
  "options_ok ro \<longleftrightarrow> max_result_bytes ro \<le> MAX_QUERY_RESULT_BYTES \<and> 0 \<le> duration_ms ro \<and> query_id ro \<noteq> [] \<and> length (query_id ro) \<le> 128"

lemma governed_ok_iff:
  "governed_ok p \<longleftrightarrow> set BASE_FIELDS \<subseteq> fst ` set p \<and> fst ` set p \<subseteq> set ALL_FIELDS \<and> base_ok p \<and>
     (\<forall>k v. map_of p k = Some v \<longrightarrow> (k \<in> set STRING_EXTRAS \<longrightarrow> text_within 512 v) \<and> (k \<in> set LIST_EXTRAS \<longrightarrow> texts_within 16 64 v))"
proof -
  have h: "list_all (\<lambda>(_, v). f v) (present_keys ks p) \<longleftrightarrow> (\<forall>k v. map_of p k = Some v \<longrightarrow> k \<in> set ks \<longrightarrow> f v)" for f ks
    by (auto simp: list_all_iff present_keys_mem)
  show ?thesis unfolding governed_ok_def h by blast
qed

lemma base_ok_cong: "(\<And>k. k \<in> set BASE_FIELDS \<Longrightarrow> jget d k = jget d' k) \<Longrightarrow> base_ok d = base_ok d'"
  by (simp add: base_ok_def BASE_FIELDS_def)

definition extra_ok :: "string \<times> json \<Rightarrow> bool" where
  "extra_ok e \<longleftrightarrow> fst e \<in> set STRING_EXTRAS \<and> text_within 512 (snd e) \<or> fst e \<in> set LIST_EXTRAS \<and> texts_within 16 64 (snd e)"

lemma extras_apart: "k \<in> set STRING_EXTRAS \<union> set LIST_EXTRAS \<Longrightarrow> k \<notin> set BASE_FIELDS" "k \<in> set STRING_EXTRAS \<Longrightarrow> k \<notin> set LIST_EXTRAS"
  using fields_distinct by auto

lemma governed_ok_set:
  assumes "governed_ok p" "extra_ok (k, v)"
  shows "governed_ok (od_set k v p)"
proof -
  have k: "k \<notin> set BASE_FIELDS" "k \<in> set ALL_FIELDS" using assms(2) extras_apart(1) by (auto simp: extra_ok_def)
  have "base_ok (od_set k v p) = base_ok p" using k(1) by (intro base_ok_cong) auto
  with assms k(2) extras_apart(2) show ?thesis by (auto simp: governed_ok_iff extra_ok_def)
qed

lemma governed_ok_update: "governed_ok p \<Longrightarrow> list_all extra_ok extra \<Longrightarrow> governed_ok (update_dict extra p)"
proof (induction extra arbitrary: p)
  case (Cons e extra)
  then show ?case by (cases e) (simp add: update_dict_def governed_ok_set)
qed (simp add: update_dict_def)

lemma update_dict_distinct: "distinct (od_keys p) \<Longrightarrow> distinct (od_keys (update_dict extra p))"
proof (induction extra arbitrary: p)
  case (Cons e extra)
  then show ?case by (cases e) (simp add: update_dict_def)
qed (simp add: update_dict_def)

lemma with_rows_governed:
  assumes "governed_ok p" "jget p ''rows'' = JArr rows"
  shows "governed_ok (with_rows (butlast rows) p)"
proof -
  let ?w = "with_rows (butlast rows) p"
  have b: "base_ok p" using assms(1) by (simp add: governed_ok_def)
  have w: "jget ?w ''rows'' = JArr (butlast rows)" "jget ?w ''row_count'' = JInt (int (length (butlast rows)))" "jget ?w ''truncated'' = JBool True"
    "jget ?w ''columns'' = jget p ''columns''" "jget ?w ''execution_duration_ms'' = jget p ''execution_duration_ms''"
    "jget ?w ''query_id'' = jget p ''query_id''" by (simp_all add: with_rows_def)
  have "base_ok ?w" using b assms(2) in_set_butlastD [of _ rows]
    unfolding base_ok_def w by (auto simp: list_len_def as_row_def is_bool_def list_all_iff)
  moreover have "fst ` set ?w = fst ` set p"
  proof -
    have "{''rows'', ''row_count'', ''truncated''} \<subseteq> set BASE_FIELDS" by (simp add: BASE_FIELDS_def)
    moreover have "set BASE_FIELDS \<subseteq> fst ` set p" using assms(1) by (simp add: governed_ok_def)
    ultimately have "{''rows'', ''row_count'', ''truncated''} \<subseteq> fst ` set p" by (rule subset_trans)
    then show ?thesis by (simp add: with_rows_def insert_absorb)
  qed
  moreover have "map_of ?w k = map_of p k" if "k \<in> set STRING_EXTRAS \<union> set LIST_EXTRAS" for k
    using extras_apart(1) [OF that] by (simp add: with_rows_get BASE_FIELDS_def)
  ultimately show ?thesis using assms(1) unfolding governed_ok_iff by (metis UnCI)
qed

lemma shrink_governed:
  assumes "shrink n env rows = Inr env'" "governed_ok env" "jget env ''rows'' = JArr rows" "distinct (od_keys env)"
  shows "governed_ok env' \<and> distinct (od_keys env')"
  using assms
proof (induction n env rows rule: shrink.induct)
  case (1 n env rows)
  show ?case
  proof (cases "fits n env")
    case True
    with "1.prems" show ?thesis by (simp add: shrink.simps [of n env rows])
  next
    case False
    with "1.prems"(1) have ne: "rows \<noteq> []" and s: "shrink n (with_rows (butlast rows) env) (butlast rows) = Inr env'"
      by (auto simp: shrink.simps [of n env rows] split: if_splits)
    have j: "jget (with_rows (butlast rows) env) ''rows'' = JArr (butlast rows)" by (simp add: with_rows_def)
    have d: "distinct (od_keys (with_rows (butlast rows) env))" using "1.prems"(4) by (simp add: with_rows_def)
    show ?thesis by (rule "1.IH" [OF False ne s with_rows_governed [OF "1.prems"(2,3)] j d])
  qed
qed

lemma jget_rows_of: "jget env ''rows'' = JArr rows \<Longrightarrow> rows_of env = rows"
  by (auto simp: rows_of_def jget_def split: option.splits)

lemma governed_rows: "governed_ok env \<Longrightarrow> jget env ''rows'' = JArr (rows_of env)"
proof -
  assume "governed_ok env"
  then have "is_list (jget env ''rows'')" by (simp add: governed_ok_def base_ok_def)
  then obtain rows where r: "jget env ''rows'' = JArr rows" by (cases "jget env ''rows''") auto
  from r jget_rows_of [OF r] show ?thesis by simp
qed

lemma augment_governed:
  assumes "augment_envelope env n extra = Inr env'" "governed_ok env" "distinct (od_keys env)" "list_all extra_ok extra"
  shows "governed_ok env' \<and> distinct (od_keys env')"
proof -
  have g: "governed_ok (update_dict extra env)" using assms(2,4) by (rule governed_ok_update)
  show ?thesis
    using assms(1) shrink_governed [OF _ g governed_rows [OF g] update_dict_distinct [OF assms(3)]] by (simp add: augment_envelope_def Let_def)
qed

lemma result_envelope_governed:
  assumes "columns_ok cols" "list_all (\<lambda>r. length r = length cols \<and> list_all cell_ok r) rows" "length rows \<le> 64" "options_ok ro"
  shows "governed_ok (result_envelope ro cols rows t)"
proof -
  let ?e = "result_envelope ro cols rows t"
  have k: "od_keys ?e = BASE_FIELDS" by (simp add: result_envelope_def BASE_FIELDS_def)
  have j: "jget ?e ''columns'' = JArr (map JStr cols)" "jget ?e ''rows'' = JArr (map JArr rows)" "jget ?e ''row_count'' = JInt (int (length rows))"
    "jget ?e ''execution_duration_ms'' = JInt (duration_ms ro)" "jget ?e ''query_id'' = JStr (query_id ro)" "jget ?e ''truncated'' = JBool t"
    by (simp_all add: result_envelope_def jget_def)
  have "base_ok ?e" unfolding base_ok_def j using assms
    by (simp add: texts_within_def text_within_def list_all_length list_len_def as_row_def row_ok_def natural_def is_bool_def options_ok_def columns_ok_def
      MAX_QUERY_RESULT_ROWS_def MAX_ROWS_def)
  moreover have "map_of ?e k = Some v \<Longrightarrow> k \<in> set BASE_FIELDS" for k v using k by (metis image_eqI list.set_map map_of_SomeD fst_conv)
  moreover have "fst ` set ?e = set BASE_FIELDS" using k by (metis list.set_map)
  ultimately show ?thesis unfolding governed_ok_iff using extras_apart(1) by (metis UnCI Un_upper1 order_refl set_append)
qed

lemma run_governed_shape:
  assumes "run_governed_query engine q ps n ro = Inr env" "engine_ok engine" "n \<le> 64" "options_ok ro"
    and cols: "\<And>cols rows. engine q ps = W_ok cols rows \<Longrightarrow> columns_ok cols"
  shows "governed_ok env \<and> distinct (od_keys env)"
proof -
  obtain cols fetched where e: "engine q ps = W_ok cols fetched"
    and s: "shrink (max_result_bytes ro) (result_envelope ro cols (take n fetched) (length fetched > n)) (map JArr (take n fetched)) = Inr env"
    using assms(1) by (auto simp: run_governed_query_def Let_def split: if_splits worker_outcome.splits)
  have "list_all (\<lambda>r. length r = length cols \<and> list_all cell_ok r) fetched" using assms(2) e unfolding engine_ok_def by metis
  then have r: "list_all (\<lambda>r. length r = length cols \<and> list_all cell_ok r) (take n fetched)"
    unfolding list_all_iff by (meson in_set_takeD)
  show ?thesis
  proof (rule shrink_governed [OF s])
    show "governed_ok (result_envelope ro cols (take n fetched) (length fetched > n))"
      using assms(3) by (intro result_envelope_governed [OF cols [OF e] r _ assms(4)]) simp
  qed (simp_all add: result_envelope_def jget_def)
qed

subsection \<open>The tools\<close>

lemma name_texts: "text_within 64 (JStr (dim_value d))" "text_within 64 (JStr (mea_value m))"
  by (cases d; simp add: text_within_def) (cases m; simp add: text_within_def)

lemma text_within_mono: "text_within m v \<Longrightarrow> m \<le> n \<Longrightarrow> text_within n v"
  by (auto simp: text_within_def split: json.splits)

lemma names_within: "length ds \<le> 16 \<Longrightarrow> texts_within 16 64 (JArr (map (\<lambda>d. JStr (dim_value d)) ds))"
  "length ms \<le> 16 \<Longrightarrow> texts_within 16 64 (JArr (map (\<lambda>m. JStr (mea_value m)) ms))"
  by (simp_all add: texts_within_def list_all_iff name_texts)

lemma note_texts: "text_within 512 (JStr TIP_RATE_SEMANTICS)" "text_within 512 (JStr AIRPORT_TRIP_RULE)"
  by code_simp+

lemma string_extra: "k \<in> set STRING_EXTRAS \<Longrightarrow> text_within 512 v \<Longrightarrow> extra_ok (k, v)" by (simp add: extra_ok_def)
lemma list_extra: "k \<in> set LIST_EXTRAS \<Longrightarrow> texts_within 16 64 v \<Longrightarrow> extra_ok (k, v)" by (simp add: extra_ok_def)

lemma class_extras:
  "extra_ok (''query_class'', JStr ''aggregate'')" "extra_ok (''query_class'', JStr ''dimension_values'')"
  "extra_ok (''query_class'', JStr ''compare_segments'')" "extra_ok (''comparison_mode'', JStr ''whole_segment'')"
  by code_simp+

lemma tip_note_ok: "list_all extra_ok (tip_note ms)"
  by (simp add: tip_note_def string_extra note_texts STRING_EXTRAS_def)

lemma aggregate_extra_ok:
  assumes "length (q_dimensions s) \<le> 16" "length (q_measures s) \<le> 16"
  shows "list_all extra_ok (aggregate_extra s)"
  using tip_note_ok names_within(1) [OF assms(1)] names_within(2) [OF assms(2)]
  by (simp add: aggregate_extra_def class_extras string_extra list_extra note_texts STRING_EXTRAS_def LIST_EXTRAS_def)

lemma output_keys_ok: "ds \<noteq> [] \<Longrightarrow> length ds + length ms \<le> 16 \<Longrightarrow> columns_ok (output_keys ds ms)"
proof -
  have "dim_value d \<noteq> [] \<and> length (dim_value d) \<le> 128" for d by (cases d) simp_all
  moreover have "mea_value m \<noteq> [] \<and> length (mea_value m) \<le> 128" for m by (cases m) simp_all
  ultimately show "ds \<noteq> [] \<Longrightarrow> length ds + length ms \<le> 16 \<Longrightarrow> columns_ok (output_keys ds ms)"
    by (auto simp: columns_ok_def output_keys_def list_all_iff)
qed

lemma aggregate_governed:
  assumes "aggregate_taxi_data isof engine dims ms fs ob lm ro = Inr env" "engine_ok engine" "options_ok ro"
    and cols: "\<And>s. build_aggregate_spec isof dims ms fs ob lm = Inr s \<Longrightarrow> answers_columns engine (compile_aggregate_query s)"
  shows "governed_ok env \<and> distinct (od_keys env) \<and> fits (max_result_bytes ro) env"
proof -
  obtain s where s: "build_aggregate_spec isof dims ms fs ob lm = Inr s"
    using assms(1) by (auto simp: aggregate_taxi_data_def lift_query_def split: sum.splits)
  let ?c = "compile_aggregate_query s"
  obtain env0 where r: "run_governed_query engine (sql ?c) (parameters ?c) (nat (q_limit s)) ro = Inr env0"
    and a: "augment_envelope env0 (max_result_bytes ro) (aggregate_extra s) = Inr env"
    using assms(1) s by (auto simp: aggregate_taxi_data_def lift_query_def Let_def)
  have wf: "q_dimensions s \<noteq> []" "length (q_dimensions s) + length (q_measures s) \<le> 16" "nat (q_limit s) \<le> 64"
    using accepted_spec_wf [OF s] by (auto simp: spec_wf_def MAX_COLUMNS_def MAX_ROWS_def)
  have "output_columns ?c = output_keys (q_dimensions s) (q_measures s)" by (simp add: compile_aggregate_query_def case_prod_unfold Let_def)
  with cols [OF s] output_keys_ok [OF wf(1,2)] have "governed_ok env0 \<and> distinct (od_keys env0)"
    by (intro run_governed_shape [OF r assms(2) wf(3) assms(3)]) (simp add: answers_columns_def)
  with augment_governed [OF a _ _ aggregate_extra_ok] wf(2) augment_fits [OF a] show ?thesis by simp
qed

lemma list_values_governed:
  assumes "list_taxi_dimension_values engine dv srch lm ro = Inr env" "engine_ok engine" "options_ok ro"
    and cols: "\<And>d t l. answers_columns engine (compile_dimension_values_query d t l)"
  shows "governed_ok env \<and> distinct (od_keys env) \<and> fits (max_result_bytes ro) env"
proof -
  obtain d t l env0 where v: "validate_limit lm = Inr l"
    and r: "run_governed_query engine (sql (compile_dimension_values_query d t l)) (parameters (compile_dimension_values_query d t l)) (nat l) ro = Inr env0"
    and a: "augment_envelope env0 (max_result_bytes ro) [(''query_class'', JStr ''dimension_values''), (''dimension'', JStr (dim_value d))] = Inr env"
    using assms(1) by (auto simp: list_taxi_dimension_values_def lift_query_def Let_def split: sum.splits)
  have l: "nat l \<le> 64" using limit_ok [OF v] by (auto simp: MAX_ROWS_def)
  have o: "output_columns (compile_dimension_values_query d t l) = [''value'', ''trip_count'']"
    by (simp add: compile_dimension_values_query_def Let_def)
  have "columns_ok [''value'', ''trip_count'']" by (simp add: columns_ok_def)
  with cols [of d t l] o have g: "governed_ok env0 \<and> distinct (od_keys env0)"
    by (intro run_governed_shape [OF r assms(2) l assms(3)]) (simp add: answers_columns_def)
  have "list_all extra_ok [(''query_class'', JStr ''dimension_values''), (''dimension'', JStr (dim_value d))]"
    using text_within_mono [OF name_texts(1) [of d], of 512] by (simp add: class_extras string_extra STRING_EXTRAS_def)
  with augment_governed [OF a] g augment_fits [OF a] show ?thesis by simp
qed

text \<open>Rows, duration and identifier of any governed query.\<close>

lemma run_rows_ok:
  assumes "run_governed_query engine q ps n ro = Inr env" "engine_ok engine"
  shows "\<forall>r \<in> set (rows_of env). list_all cell_ok (as_row r)"
proof -
  obtain cols fetched k where f: "engine q ps = W_ok cols fetched" "map_of env ''rows'' = Some (JArr (take k (map JArr fetched)))"
    using run_governed_query_envelope [OF assms(1)] by (auto simp: envelope_of_def)
  have "list_all (\<lambda>r. length r = length cols \<and> list_all cell_ok r) fetched" using assms(2) f(1) unfolding engine_ok_def by metis
  then have "list_all cell_ok (as_row r)" if "r \<in> set (take k (map JArr fetched))" for r
    using that in_set_takeD [OF that] by (auto simp: list_all_iff as_row_def)
  with f(2) show ?thesis by (simp add: rows_of_def)
qed

lemma shrink_keeps: "shrink n env rows = Inr env' \<Longrightarrow> k \<notin> {''rows'', ''row_count'', ''truncated''} \<Longrightarrow> jget env' k = jget env k"
proof (induction n env rows rule: shrink.induct)
  case (1 n env rows)
  show ?case
  proof (cases "fits n env")
    case True
    with "1.prems"(1) show ?thesis by (simp add: shrink.simps [of n env rows])
  next
    case False
    with "1.prems"(1) have ne: "rows \<noteq> []" and s: "shrink n (with_rows (butlast rows) env) (butlast rows) = Inr env'"
      by (auto simp: shrink.simps [of n env rows] split: if_splits)
    have "jget (with_rows (butlast rows) env) k = jget env k" using "1.prems"(2) by (simp add: with_rows_def)
    with "1.IH" [OF False ne s "1.prems"(2)] show ?thesis by simp
  qed
qed

lemma run_keeps:
  assumes "run_governed_query engine q ps n ro = Inr env"
  shows "jget env ''execution_duration_ms'' = JInt (duration_ms ro)" "jget env ''query_id'' = JStr (query_id ro)"
proof -
  obtain cols fetched
    where s: "shrink (max_result_bytes ro) (result_envelope ro cols (take n fetched) (length fetched > n)) (map JArr (take n fetched)) = Inr env"
    using assms(1) by (auto simp: run_governed_query_def Let_def split: if_splits worker_outcome.splits)
  show "jget env ''execution_duration_ms'' = JInt (duration_ms ro)" "jget env ''query_id'' = JStr (query_id ro)"
    using shrink_keeps [OF s, of "''execution_duration_ms''"] shrink_keeps [OF s, of "''query_id''"]
    by (simp_all add: result_envelope_def jget_def)
qed

subsection \<open>Comparisons\<close>

lemma lift_query_Inr [simp]: "lift_query r = Inr x \<longleftrightarrow> r = Inr x"
  by (cases r) (simp_all add: lift_query_def)

lemma if_Inl: "(if p then Inl e else x) = Inr y \<longleftrightarrow> \<not> p \<and> x = Inr y" by simp

lemma measures_length: "validate_measures mv = Inr ms \<Longrightarrow> length ms \<le> 16"
  by (auto simp: validate_measures_def validate_names_def MAX_LIST_LENGTH_def split: json.splits if_splits dest!: try_map_length)

lemma fresh_governed:
  assumes "od_keys base = BASE_FIELDS" "base_ok base" "list_all extra_ok extras"
  shows "governed_ok (base @ extras)"
proof -
  have d: "map_of base k \<noteq> None \<longleftrightarrow> k \<in> set BASE_FIELDS" for k
    unfolding assms(1) [symmetric] by (simp add: map_of_eq_None_iff)
  have "base_ok (base @ extras) = base_ok base"
  proof (rule base_ok_cong)
    fix k assume "k \<in> set BASE_FIELDS"
    with d [of k] obtain v where "map_of base k = Some v" by blast
    then show "jget (base @ extras) k = jget base k" by (simp add: jget_def map_add_Some_iff)
  qed
  moreover have "fst ` set base = set BASE_FIELDS" using assms(1) by (metis list.set_map)
  moreover have "fst ` set extras \<subseteq> set STRING_EXTRAS \<union> set LIST_EXTRAS" using assms(3) by (auto simp: list_all_iff extra_ok_def)
  moreover have "(k \<in> set STRING_EXTRAS \<longrightarrow> text_within 512 v) \<and> (k \<in> set LIST_EXTRAS \<longrightarrow> texts_within 16 64 v)"
    if "map_of (base @ extras) k = Some v" for k v
  proof (cases "k \<in> set BASE_FIELDS")
    case True
    then show ?thesis using extras_apart(1) by blast
  next
    case False
    then have "map_of base k = None" using d by blast
    with that have "(k, v) \<in> set extras" by (auto dest: map_of_SomeD)
    with assms(3) extras_apart(2) [of k] show ?thesis by (auto simp: list_all_iff extra_ok_def)
  qed
  ultimately show ?thesis using assms(2) unfolding governed_ok_iff by (auto simp only: set_append image_Un Un_iff subset_iff)
qed

lemma cell_mem: "cell row i = Inr v \<Longrightarrow> v \<in> set row"
  by (auto simp: cell_def split: if_splits)

lemma delta_ok: "cell_ok (delta_of repr b c)" "cell_ok (delta_pct_of repr b c)"
  by (auto simp: delta_of_def delta_pct_of_def cell_ok_def Let_def split: json.splits option.splits)

lemma try_map_concat:
  assumes "try_map f xs = Inr ys" "\<And>x y. x \<in> set xs \<Longrightarrow> f x = Inr y \<Longrightarrow> length y = n \<and> list_all p y"
  shows "length (concat ys) = n * length xs \<and> list_all p (concat ys)"
  using assms
proof (induction xs arbitrary: ys)
  case (Cons x xs)
  then obtain y zs where "f x = Inr y" "try_map f xs = Inr zs" "ys = y # zs" by auto
  moreover from this Cons.prems(2) have "length (concat zs) = n * length xs \<and> list_all p (concat zs)" by (intro Cons.IH) auto
  ultimately show ?case using Cons.prems(2) [of x y] by simp
qed auto

lemma segment_row_ok:
  assumes "segment_row repr k row = Inr r" "list_all cell_ok row"
  shows "length r = Suc (3 * k) \<and> list_all cell_ok r"
proof -
  obtain d cs where d: "cell row 0 = Inr d" and r: "r = d # concat cs"
    and t: "try_map (\<lambda>i. try_bind (cell row (1 + 2 * i)) (\<lambda>b. try_bind (cell row (2 + 2 * i)) (\<lambda>c. Inr [b, c, delta_of repr b c]))) [0..<k] = Inr cs"
    using assms(1) unfolding segment_row_def by auto
  have "length (concat cs) = 3 * length [0..<k] \<and> list_all cell_ok (concat cs)"
    by (rule try_map_concat [OF t]) (use assms(2) in \<open>auto simp: list_all_iff delta_ok dest!: cell_mem\<close>)
  with d r assms(2) cell_mem [OF d] show ?thesis by (simp add: list_all_iff)
qed

lemma whole_row_ok:
  assumes "whole_row repr cells i m = Inr r" "list_all cell_ok cells"
  shows "length r = 5 \<and> list_all cell_ok r"
proof -
  obtain b c where r: "r = [JStr (mea_value m), b, c, delta_of repr b c, delta_pct_of repr b c]"
    and "b = JNull \<or> b \<in> set cells" "c = JNull \<or> c \<in> set cells"
    using assms(1) unfolding whole_row_def by (auto dest: cell_mem split: if_splits)
  moreover have "cell_ok (JStr (mea_value m))" using text_within_mono [OF name_texts(2) [of m], of 128] by (simp add: text_within_def cell_ok_def)
  moreover have "cell_ok JNull" by (simp add: cell_ok_def)
  ultimately show ?thesis using assms(2) by (auto simp: list_all_iff delta_ok)
qed

lemma compare_base_ok:
  assumes "columns_ok cols" "list_all (\<lambda>r. length r = length cols \<and> list_all cell_ok r) rows" "length rows \<le> 64"
    "natural dur" "text_within 128 qid"
  shows "base_ok [(''columns'', JArr (map JStr cols)), (''rows'', JArr (map JArr rows)), (''row_count'', JInt (int (length rows))),
    (''execution_duration_ms'', dur), (''query_id'', qid), (''truncated'', JBool t)]"
  using assms unfolding base_ok_def
  by (simp add: jget_def) (simp add: columns_ok_def texts_within_def text_within_def list_all_length list_len_def as_row_def row_ok_def is_bool_def
      MAX_QUERY_RESULT_ROWS_def MAX_ROWS_def)

lemma compare_by_dimension_governed:
  assumes "compare_by_dimension repr isof engine segment mv base cf lm qid ro = Inr env" "engine_ok engine" "options_ok ro"
    and qid: "text_within 128 (JStr qid)"
  shows "governed_ok env \<and> distinct (od_keys env) \<and> fits (max_result_bytes ro) env"
proof -
  obtain d ms l joined rows and cq :: compiled_query where v: "validate_limit lm = Inr l" and m: "\<not> 1 + 3 * length ms > MAX_COLUMNS"
    and j: "run_governed_query engine (sql cq) (parameters cq) (nat l) ro = Inr joined"
    and t: "try_map (\<lambda>r. segment_row repr (length ms) (as_row r)) (rows_of joined) = Inr rows"
    and a: "augment_envelope (segment_envelope d ms rows joined qid) (max_result_bytes ro) [] = Inr env"
    using assms(1) by (auto simp: compare_by_dimension_def lift_query_def split: sum.splits if_splits option.splits)
  have l: "nat l \<le> 64" using limit_ok [OF v] by (auto simp: MAX_ROWS_def)
  obtain fetched where "envelope_of (nat l) (map JArr fetched) joined" using run_governed_query_envelope [OF j] by blast
  then have "length (rows_of joined) \<le> nat l" by (auto simp: envelope_of_def rows_of_def)
  with l try_map_length [OF t] have n: "length rows \<le> 64" by simp
  let ?cols = "dim_value d # concat (map (\<lambda>m. [''baseline_'' @ mea_value m, ''comparison_'' @ mea_value m, ''delta_'' @ mea_value m]) ms)"
  have w: "length ?cols = Suc (3 * length ms)" by (induction ms) auto
  have "mea_value m \<noteq> [] \<and> length (mea_value m) \<le> 64" "dim_value d \<noteq> [] \<and> length (dim_value d) \<le> 64" for m
    using name_texts(2) [of m] name_texts(1) [of d] by (simp_all add: text_within_def)
  note names = this
  have "list_all (\<lambda>c. c \<noteq> [] \<and> length c \<le> 128) (concat (map (\<lambda>m. [''baseline_'' @ mea_value m, ''comparison_'' @ mea_value m, ''delta_'' @ mea_value m]) xs))" for xs
  proof (induction xs)
    case (Cons x xs)
    then show ?case using names(1) [of x] by simp
  qed simp
  with w m names(2) have cols: "columns_ok ?cols" by (simp add: columns_ok_def MAX_COLUMNS_def)
  have rows: "list_all (\<lambda>r. length r = length ?cols \<and> list_all cell_ok r) rows"
    unfolding list_all_iff w
  proof
    fix r assume "r \<in> set rows"
    from try_map_set [OF t this] obtain x where "x \<in> set (rows_of joined)" "segment_row repr (length ms) (as_row x) = Inr r" by blast
    with segment_row_ok [of repr "length ms" "as_row x" r] run_rows_ok [OF j assms(2)]
    show "length r = Suc (3 * length ms) \<and> (\<forall>x \<in> set r. cell_ok x)" by (simp add: list_all_iff)
  qed
  let ?b = "[(''columns'', JArr (map JStr ?cols)), (''rows'', JArr (map JArr rows)), (''row_count'', JInt (int (length rows))),
    (''execution_duration_ms'', JInt (duration_ms ro)), (''query_id'', JStr qid), (''truncated'', JBool (truthy (jget joined ''truncated'')))]"
  let ?x = "[(''query_class'', JStr ''compare_segments''), (''segment_dimension'', JStr (dim_value d)),
    (''measures'', JArr (map (\<lambda>m. JStr (mea_value m)) ms))] @ tip_note ms"
  have e: "segment_envelope d ms rows joined qid = ?b @ ?x"
    by (simp add: segment_envelope_def run_keeps [OF j] map_concat comp_def)
  have "base_ok ?b" using assms(3) by (intro compare_base_ok cols rows n qid) (simp add: options_ok_def natural_def)
  moreover have "list_all extra_ok ?x"
    using m text_within_mono [OF name_texts(1) [of d], of 512] tip_note_ok
    by (simp add: class_extras string_extra list_extra names_within STRING_EXTRAS_def LIST_EXTRAS_def MAX_COLUMNS_def)
  ultimately have "governed_ok (?b @ ?x)" by (intro fresh_governed) (simp_all add: BASE_FIELDS_def)
  moreover have "distinct (od_keys (?b @ ?x))" by (simp add: tip_note_def)
  ultimately show ?thesis using augment_governed [OF a] augment_fits [OF a] unfolding e by simp
qed

lemma compare_whole_governed:
  assumes "compare_whole_segments repr isof engine mv base cf lm ro = Inr env" "engine_ok engine" "options_ok ro"
    and lab: "\<And>f. validate_filters isof base = Inr f \<or> validate_filters isof cf = Inr f \<Longrightarrow> text_within 512 (JStr (filters_label repr f))"
  shows "governed_ok env \<and> distinct (od_keys env) \<and> fits (max_result_bytes ro) env"
proof -
  obtain ms l b c raw all_rows bp cp and cq :: compiled_query where v: "validate_limit lm = Inr l" "validate_measures mv = Inr ms"
    "validate_filters isof base = Inr b" "validate_filters isof cf = Inr c"
    and j: "run_governed_query engine (sql cq) (parameters cq) 1 (ro\<lparr>max_result_bytes := 65536\<rparr>) = Inr raw" and one: "length (rows_of raw) = 1"
    and t: "try_map (\<lambda>(i, m). whole_row repr (as_row (hd (rows_of raw))) i m) (zip [0..<length ms] ms) = Inr all_rows"
    and a: "augment_envelope (whole_envelope repr ms b c (take (nat l) all_rows) (length all_rows > nat l)
      ((if truthy bp then [] else [JStr ''baseline'']) @ (if truthy cp then [] else [JStr ''comparison''])) raw) (max_result_bytes ro) [] = Inr env"
    using assms(1) unfolding compare_whole_segments_def Let_def by (auto simp: if_Inl split del: if_split)
  define no_data where "no_data = (if truthy bp then [] else [JStr ''baseline'']) @ (if truthy cp then [] else [JStr ''comparison''])"
  have nd: "set no_data \<subseteq> {JStr ''baseline'', JStr ''comparison''}" "length no_data \<le> 2" by (simp_all add: no_data_def)
  note a = a [folded no_data_def]
  have l: "nat l \<le> 64" using limit_ok [OF v(1)] by (auto simp: MAX_ROWS_def)
  let ?rows = "take (nat l) all_rows"
  let ?cols = "[''measure'', ''baseline'', ''comparison'', ''delta'', ''delta_pct'']"
  have "hd (rows_of raw) \<in> set (rows_of raw)" using one by (cases "rows_of raw") auto
  with run_rows_ok [OF j assms(2)] have cells: "list_all cell_ok (as_row (hd (rows_of raw)))" by blast
  have rows: "list_all (\<lambda>r. length r = length ?cols \<and> list_all cell_ok r) ?rows"
    unfolding list_all_iff
  proof
    fix r assume "r \<in> set ?rows"
    then have "r \<in> set all_rows" by (rule in_set_takeD)
    from try_map_set [OF t this] obtain i m where "whole_row repr (as_row (hd (rows_of raw))) i m = Inr r" by auto
    from whole_row_ok [OF this cells] show "length r = length ?cols \<and> (\<forall>x \<in> set r. cell_ok x)" by (simp add: list_all_iff)
  qed
  have cols: "columns_ok ?cols" by (simp add: columns_ok_def)
  have n: "length ?rows \<le> 64" using l by simp
  let ?b = "[(''columns'', JArr (map JStr ?cols)), (''rows'', JArr (map JArr ?rows)), (''row_count'', JInt (int (length ?rows))),
    (''execution_duration_ms'', JInt (duration_ms ro)), (''query_id'', JStr (query_id ro)), (''truncated'', JBool (length all_rows > nat l))]"
  let ?x = "[(''query_class'', JStr ''compare_segments''), (''comparison_mode'', JStr ''whole_segment''), (''baseline_label'', JStr (filters_label repr b)),
      (''comparison_label'', JStr (filters_label repr c)), (''measures'', JArr (map (\<lambda>m. JStr (mea_value m)) ms))]
     @ (if no_data = [] then [] else [(''no_data_sides'', JArr no_data)]) @ tip_note ms
     @ (if airport_trip b \<noteq> None \<or> airport_trip c \<noteq> None then [(''airport_trip_rule'', JStr AIRPORT_TRIP_RULE)] else [])"
  have e: "whole_envelope repr ms b c ?rows (length all_rows > nat l) no_data raw = ?b @ ?x"
    by (simp add: whole_envelope_def run_keeps [OF j])
  have "base_ok ?b" using assms(3) by (intro compare_base_ok cols rows n) (simp_all add: options_ok_def natural_def text_within_def)
  moreover have "length ms \<le> 16" by (rule measures_length [OF v(2)])
  moreover have "texts_within 16 64 (JArr no_data)" using nd by (auto simp: texts_within_def list_all_iff text_within_def)
  ultimately have "governed_ok (?b @ ?x)" using lab v tip_note_ok
    by (intro fresh_governed)
      (simp_all add: BASE_FIELDS_def class_extras string_extra list_extra names_within note_texts STRING_EXTRAS_def LIST_EXTRAS_def)
  moreover have "distinct (od_keys (?b @ ?x))" by (simp add: tip_note_def)
  ultimately show ?thesis using augment_governed [OF a] augment_fits [OF a] unfolding e by simp
qed

section \<open>From the caller to the engine and back\<close>

text \<open>What a governed call returns to the application, in terms of what the analytics function did on the server.\<close>

definition governed_outcome :: "(json \<Rightarrow> string) \<Rightarrow> server_env \<Rightarrow> analytics_exn + jdict \<Rightarrow> client_exn + jdict" where
  "governed_outcome str sv r = (case r of
     Inr env \<Rightarrow> Inr (present_keys ALL_FIELDS env)
   | Inl (A_Query (QueryValidationError code)) \<Rightarrow>
       mcp_raise (mcp_error False (if sv_message sv code = [] then ''Governed query validation failed'' else str (JStr (sv_message sv code)))
         ''tool_error_envelope'')
   | Inl e \<Rightarrow> Inl (Escaped (sv_text sv e)))"

lemma governed_no_error: "governed_ok env \<Longrightarrow> jget env ''error'' = JNull"
proof -
  assume "governed_ok env"
  then have "fst ` set env \<subseteq> set ALL_FIELDS" by (simp only: governed_ok_def)
  moreover have "''error'' \<notin> set ALL_FIELDS" by (simp add: BASE_FIELDS_def STRING_EXTRAS_def LIST_EXTRAS_def)
  ultimately have "''error'' \<notin> fst ` set env" by blast
  then show ?thesis by (simp add: jget_def map_of_eq_None_iff [THEN iffD2])
qed

lemma sanitize_accepts:
  assumes "governed_ok env" "distinct (od_keys env)" "fits MAX_QUERY_RESULT_BYTES env"
  shows "sanitize_governed_query_result env = Inr (present_keys ALL_FIELDS env)"
proof -
  have "fst ` set env \<subseteq> set ALL_FIELDS" using assms(1) by (simp only: governed_ok_def)
  then have "bytes_of (present_keys ALL_FIELDS env) = bytes_of env"
    by (intro bytes_of_mset present_keys_mset [OF assms(2) fields_distinct])
  with assms(1,3) show ?thesis unfolding sanitize_governed_iff by (simp only: fits_def bytes_of_def simp_thms)
qed

lemma governed_answer_outcome:
  assumes "call tool args = run_governed_analytics_tool sv r"
    and ok: "\<And>env. r = Inr env \<Longrightarrow> governed_ok env \<and> distinct (od_keys env) \<and> fits MAX_QUERY_RESULT_BYTES env"
  shows "governed_answer str sanitize_governed_query_result (call_tool call tool args) = governed_outcome str sv r"
proof (cases r)
  case (Inr env)
  with ok [OF Inr] show ?thesis
    by (simp add: assms(1) call_tool_def run_governed_analytics_tool_def checked_answer_def governed_outcome_def raise_for_error_envelope_def
      governed_no_error sanitize_accepts mcp_raise_def)
next
  case (Inl e)
  show ?thesis
  proof (cases "\<exists>code. e = A_Query (QueryValidationError code)")
    case True
    then obtain code where e: "e = A_Query (QueryValidationError code)" by blast
    show ?thesis using Inl unfolding e
      by (simp add: assms(1) call_tool_def run_governed_analytics_tool_def to_envelope_def checked_answer_def governed_outcome_def
        raise_for_error_envelope_def mcp_raise_def mcp_error_def jget_def)
  next
    case False
    with Inl have "run_governed_analytics_tool sv r = Inl (ToolError (sv_text sv e))" "governed_outcome str sv r = Inl (Escaped (sv_text sv e))"
      by (auto simp: run_governed_analytics_tool_def governed_outcome_def split: analytics_exn.splits query_error.splits)
    then show ?thesis by (simp add: assms(1) call_tool_def checked_answer_def)
  qed
qed

lemma pinned_ok: "0 \<le> ms \<Longrightarrow> text_within 128 (JStr qid) \<Longrightarrow> options_ok (pinned ms qid)"
  "max_result_bytes (pinned ms qid) = MAX_QUERY_RESULT_BYTES"
  by (simp_all add: options_ok_def pinned_def text_within_def MAX_RESULT_BYTES_def MAX_QUERY_RESULT_BYTES_def)


definition sample_server :: server_env where
  "sample_server = \<lparr>sv_engine = demo_engine, sv_zones = [], sv_accepts = (\<lambda>_ _. True), sv_isoformat = (\<lambda>_. True), sv_repr = (\<lambda>_. ''0.0''),
     sv_message = (\<lambda>code. code), sv_text = (\<lambda>_. ''failed''), sv_profile = [], sv_ms = 12, sv_id = ''query_1'', sv_ms2 = 9, sv_id2 = ''query_2''\<rparr>"


lemma compare_governed:
  assumes "compare_taxi_segments repr isof engine mode segment mv base cf lm qid ro = Inr env" "engine_ok engine" "options_ok ro"
    "text_within 128 (JStr qid)"
    and "\<And>f. validate_filters isof base = Inr f \<or> validate_filters isof cf = Inr f \<Longrightarrow> text_within 512 (JStr (filters_label repr f))"
  shows "governed_ok env \<and> distinct (od_keys env) \<and> fits (max_result_bytes ro) env"
proof -
  obtain m where "(if m = ''whole_segment'' then compare_whole_segments repr isof engine mv base cf lm ro
     else compare_by_dimension repr isof engine segment mv base cf lm qid ro) = Inr env"
    using assms(1) by (auto simp: compare_taxi_segments_def)
  with compare_whole_governed [OF _ assms(2,3,5)] compare_by_dimension_governed [OF _ assms(2-4)] show ?thesis by (metis (full_types))
qed

text \<open>The same for lists of dimension values, and for comparisons whose filter labels fit the client's bound.\<close>

theorem list_values_reach_client:
  assumes "engine_ok (sv_engine sv)" "0 \<le> sv_ms sv" "text_within 128 (JStr (sv_id sv))"
    "\<And>d t l. answers_columns (sv_engine sv) (compile_dimension_values_query d t l)"
    "\<And>args. sv_accepts sv ''list_taxi_dimension_values'' args"
  shows "client_list_taxi_dimension_values str (mcp_server sv) dv search limit =
    governed_outcome str sv (list_taxi_dimension_values (sv_engine sv) dv search limit (pinned (sv_ms sv) (sv_id sv)))"
  unfolding client_list_taxi_dimension_values_def
proof (rule governed_answer_outcome)
  let ?args = "[(''dimension'', dv), (''limit'', limit)] @ given ''search'' search"
  have "jget ?args ''dimension'' = dv" "jget ?args ''search'' = search" "jget_or ?args ''limit'' (JInt 20) = limit"
    by (simp_all add: jget_def jget_or_def given_def)
  then show "mcp_server sv ''list_taxi_dimension_values'' ?args = run_governed_analytics_tool sv
    (list_taxi_dimension_values (sv_engine sv) dv search limit (pinned (sv_ms sv) (sv_id sv)))"
    by (simp add: mcp_server_def assms(5) Let_def)
  show "governed_ok env \<and> distinct (od_keys env) \<and> fits MAX_QUERY_RESULT_BYTES env"
    if "list_taxi_dimension_values (sv_engine sv) dv search limit (pinned (sv_ms sv) (sv_id sv)) = Inr env" for env
    using list_values_governed [OF that assms(1) pinned_ok(1) [OF assms(2,3)] assms(4)] by (simp add: pinned_ok(2))
qed

theorem comparison_reaches_client:
  assumes "engine_ok (sv_engine sv)" "0 \<le> sv_ms sv" "text_within 128 (JStr (sv_id sv))" "text_within 128 (JStr (sv_id2 sv))"
    "\<And>f. validate_filters (sv_isoformat sv) base = Inr f \<or> validate_filters (sv_isoformat sv) cf = Inr f \<Longrightarrow>
      text_within 512 (JStr (filters_label (sv_repr sv) f))"
    "\<And>args. sv_accepts sv ''compare_taxi_segments'' args"
  shows "client_compare_taxi_segments str (mcp_server sv) segment ms base cf mode limit =
    governed_outcome str sv (compare_taxi_segments (sv_repr sv) (sv_isoformat sv) (sv_engine sv) (mode_or_default mode) segment ms base cf limit
      (sv_id2 sv) (pinned (sv_ms sv) (sv_id sv)))"
  unfolding client_compare_taxi_segments_def
proof (rule governed_answer_outcome)
  let ?args = "[(''measures'', ms), (''baseline_filters'', base), (''comparison_filters'', cf), (''limit'', limit)]
    @ given ''segment_dimension'' segment @ given ''comparison_mode'' mode"
  have "jget ?args ''measures'' = ms" "jget ?args ''baseline_filters'' = base" "jget ?args ''comparison_filters'' = cf"
    "jget_or ?args ''limit'' (JInt 20) = limit" "jget ?args ''segment_dimension'' = segment" "jget ?args ''comparison_mode'' = mode"
    by (simp_all add: jget_def jget_or_def given_def)
  then show "mcp_server sv ''compare_taxi_segments'' ?args = run_governed_analytics_tool sv
    (compare_taxi_segments (sv_repr sv) (sv_isoformat sv) (sv_engine sv) (mode_or_default mode) segment ms base cf limit (sv_id2 sv) (pinned (sv_ms sv) (sv_id sv)))"
    by (simp add: mcp_server_def assms(6) Let_def)
  show "governed_ok env \<and> distinct (od_keys env) \<and> fits MAX_QUERY_RESULT_BYTES env"
    if "compare_taxi_segments (sv_repr sv) (sv_isoformat sv) (sv_engine sv) (mode_or_default mode) segment ms base cf limit (sv_id2 sv)
      (pinned (sv_ms sv) (sv_id sv)) = Inr env" for env
    using compare_governed [OF that assms(1) pinned_ok(1) [OF assms(2,3)] assms(4,5)] by (simp add: pinned_ok(2))
qed

text \<open>
  A whole-segment comparison whose filters give a label of more than 512 characters is answered by the server and
  rejected by the application, although the filters are valid: each of four texts may have 128 characters.
\<close>

lemma label_too_long:
  "case validate_filters (\<lambda>_. True) (JObj (map (\<lambda>k. (k, JStr (replicate 128 (CHR ''a''))))
       [''pickup_zone'', ''pickup_borough'', ''dropoff_zone'', ''dropoff_borough''])) of
     Inl _ \<Rightarrow> False | Inr f \<Rightarrow> \<not> text_within 512 (JStr (filters_label (\<lambda>_. []) f))"
  by code_simp

theorem long_label_rejected:
  assumes "compare_whole_segments repr isof engine mv base cf lm ro = Inr env" "validate_filters isof base = Inr f"
    "\<not> text_within 512 (JStr (filters_label repr f))"
  shows "\<exists>e. sanitize_governed_query_result env = Inl e"
proof -
  obtain ms b c rows t nd raw where "validate_filters isof base = Inr b"
    and a: "augment_envelope (whole_envelope repr ms b c rows t nd raw) (max_result_bytes ro) [] = Inr env"
    using assms(1) unfolding compare_whole_segments_def Let_def by (auto simp: if_Inl split del: if_split)
  with assms(2) have b: "b = f" by simp
  have "jget env ''baseline_label'' = JStr (filters_label repr f)"
    using shrink_keeps [OF a [unfolded augment_envelope_def Let_def], of "''baseline_label''"]
    by (simp add: update_dict_def whole_envelope_def jget_def b)
  then have "map_of env ''baseline_label'' = Some (JStr (filters_label repr f))" by (simp add: jget_def split: option.splits)
  moreover have "''baseline_label'' \<in> set STRING_EXTRAS" by (simp add: STRING_EXTRAS_def)
  ultimately have "\<not> governed_ok env" using assms(3) unfolding governed_ok_iff by blast
  then have "sanitize_governed_query_result env \<noteq> Inr r" for r unfolding sanitize_governed_iff by blast
  then show ?thesis by (cases "sanitize_governed_query_result env") auto
qed

end
