(* ===== verification/App_Stream.thy ===== *)
theory App_Stream
  imports Prelude
begin

text \<open>
  Separating a model's hidden reasoning from its visible text (\<open>services/app/app/llm.py\<close>): the function
  \<open>split_thinking\<close> on a whole text and the class \<open>ThinkingSplitter\<close> on a stream of chunks. The interface
  \<open>resumable\<close> states what a streaming consumer promises in terms of the text that is still to come.
\<close>

fun py_find :: "string \<Rightarrow> string \<Rightarrow> nat option" where
  "py_find p [] = (if p = [] then Some 0 else None)"
| "py_find p (c # s) = (if startswith p (c # s) then Some 0 else map_option Suc (py_find p s))"

definition THINK_OPEN :: string where "THINK_OPEN = ''<think>''"
definition THINK_CLOSE :: string where "THINK_CLOSE = ''</think>''"

lemma startswith_length: "startswith p s \<Longrightarrow> length p \<le> length s"
  by (auto simp: startswith_iff)

lemma startswith_extend: "length p \<le> length s \<Longrightarrow> startswith p (s @ t) = startswith p s"
  by (simp add: startswith_def)

lemma py_find_bound: "py_find p s = Some i \<Longrightarrow> i + length p \<le> length s"
  by (induction s arbitrary: i) (auto dest: startswith_length split: if_splits)

lemma tags_nonempty [simp]: "THINK_OPEN \<noteq> []" "THINK_CLOSE \<noteq> []" "0 < length THINK_OPEN" "0 < length THINK_CLOSE"
  by (simp_all add: THINK_OPEN_def THINK_CLOSE_def)

section \<open>A whole text\<close>

function split_loop :: "string list \<Rightarrow> string list \<Rightarrow> string \<Rightarrow> string list \<times> string list" where
  "split_loop reasoning_parts visible_parts remaining =
     (case py_find THINK_OPEN remaining of
        None \<Rightarrow> (reasoning_parts, visible_parts @ [remaining])
      | Some start \<Rightarrow>
          let visible_parts' = visible_parts @ [take start remaining];
              after_open = drop (start + length THINK_OPEN) remaining
          in case py_find THINK_CLOSE after_open of
               None \<Rightarrow> (reasoning_parts @ [after_open], visible_parts')
             | Some e \<Rightarrow> split_loop (reasoning_parts @ [take e after_open]) visible_parts' (drop (e + length THINK_CLOSE) after_open))"
  by pat_completeness auto
termination
  by (relation "measure (\<lambda>(_, _, remaining). length remaining)") (auto dest: py_find_bound simp: THINK_OPEN_def)

declare split_loop.simps [simp del]

definition split_thinking :: "string \<Rightarrow> string \<times> string" where
  "split_thinking text = (let (r, v) = split_loop [] [] text in (concat r, concat v))"

section \<open>A stream of chunks\<close>

record thinking_splitter =
  in_think :: bool
  pending :: string
  reasoning_text :: string

definition new_splitter :: thinking_splitter where
  "new_splitter = \<lparr>in_think = False, pending = [], reasoning_text = []\<rparr>"

definition wanted_tag :: "thinking_splitter \<Rightarrow> string" where
  "wanted_tag s = (if in_think s then THINK_CLOSE else THINK_OPEN)"

text \<open>What the branch on \<open>_in_think\<close> does with text that is released: reasoning is kept, the rest is output.\<close>

definition release_text :: "string \<Rightarrow> thinking_splitter \<Rightarrow> string \<Rightarrow> thinking_splitter \<times> string" where
  "release_text released s out =
     (if in_think s then (s\<lparr>reasoning_text := reasoning_text s @ released\<rparr>, out) else (s, out @ released))"

function feed_loop :: "thinking_splitter \<Rightarrow> string \<Rightarrow> thinking_splitter \<times> string" where
  "feed_loop s visible_out =
     (let tag = wanted_tag s in
      case py_find tag (pending s) of
        None \<Rightarrow>
          let keep = length tag - 1; n = length (pending s) in
          if n > keep
          then (let (s1, out) = release_text (take (n - keep) (pending s)) s visible_out
                in (s1\<lparr>pending := drop (n - keep) (pending s)\<rparr>, out))
          else (s, visible_out)
      | Some idx \<Rightarrow>
          let (s1, out) = release_text (take idx (pending s)) s visible_out
          in feed_loop (s1\<lparr>pending := drop (idx + length tag) (pending s), in_think := \<not> in_think s\<rparr>) out)"
  by pat_completeness auto
termination
  by (relation "measure (\<lambda>(s, _). length (pending s))")
     (auto dest!: py_find_bound simp: wanted_tag_def THINK_OPEN_def THINK_CLOSE_def)

declare feed_loop.simps [simp del]

definition feed :: "thinking_splitter \<Rightarrow> string \<Rightarrow> thinking_splitter \<times> string" where
  "feed s chunk = (if chunk = [] then (s, []) else feed_loop (s\<lparr>pending := pending s @ chunk\<rparr>) [])"

definition flush :: "thinking_splitter \<Rightarrow> thinking_splitter \<times> string" where
  "flush s = (let remainder = pending s; s1 = s\<lparr>pending := []\<rparr> in
     if in_think s then (s1\<lparr>reasoning_text := reasoning_text s @ remainder\<rparr>, []) else (s1, remainder))"

section \<open>Consumers that can be resumed\<close>

text \<open>
  \<open>view s t\<close> is what a consumer in state \<open>s\<close> will have put out (hidden, visible) when the text still to come
  is \<open>t\<close>. A step on a chunk moves the chunk from the future into the state and the output; so how a text is
  cut into chunks makes no difference.
\<close>

fun run_chunks :: "('s \<Rightarrow> 'c list \<Rightarrow> 's \<times> 'c list) \<Rightarrow> 's \<Rightarrow> 'c list list \<Rightarrow> 's \<times> 'c list" where
  "run_chunks step s [] = (s, [])"
| "run_chunks step s (c # cs) = (let (s1, o1) = step s c; (s2, o2) = run_chunks step s1 cs in (s2, o1 @ o2))"

locale resumable =
  fixes step :: "'s \<Rightarrow> 'c list \<Rightarrow> 's \<times> 'c list" and view :: "'s \<Rightarrow> 'c list \<Rightarrow> 'c list \<times> 'c list"
  assumes step_view: "view s (c @ t) = (fst (view (fst (step s c)) t), snd (step s c) @ snd (view (fst (step s c)) t))"
begin

lemma steps_view:
  "view s (concat cs @ t) = (fst (view (fst (run_chunks step s cs)) t), snd (run_chunks step s cs) @ snd (view (fst (run_chunks step s cs)) t))"
proof (induction cs arbitrary: s)
  case (Cons c cs)
  show ?case
    using step_view [of s c "concat cs @ t"] Cons.IH [of "fst (step s c)"]
    by (simp add: Let_def case_prod_unfold)
qed simp

lemma chunks_irrelevant:
  assumes "concat cs = concat ds"
  shows "fst (view (fst (run_chunks step s cs)) []) = fst (view (fst (run_chunks step s ds)) [])"
    "snd (run_chunks step s cs) @ snd (view (fst (run_chunks step s cs)) []) = snd (run_chunks step s ds) @ snd (view (fst (run_chunks step s ds)) [])"
  using steps_view [of s cs "[]"] steps_view [of s ds "[]"] assms by simp_all

lemma output_grows: "\<exists>rest. snd (view s (concat cs @ t)) = snd (run_chunks step s cs) @ rest"
  by (simp add: steps_view)

end

section \<open>The specification of both\<close>

function split_from :: "bool \<Rightarrow> string \<Rightarrow> string \<times> string" where
  "split_from thinking text =
     (case py_find (if thinking then THINK_CLOSE else THINK_OPEN) text of
        None \<Rightarrow> if thinking then (text, []) else ([], text)
      | Some i \<Rightarrow>
          let (r, v) = split_from (\<not> thinking) (drop (i + length (if thinking then THINK_CLOSE else THINK_OPEN)) text)
          in if thinking then (take i text @ r, v) else (r, take i text @ v))"
  by pat_completeness auto
termination
  by (relation "measure (\<lambda>(_, text). length text)") (auto dest: py_find_bound simp: THINK_OPEN_def THINK_CLOSE_def split: if_splits)

declare split_from.simps [simp del]

definition splitter_view :: "thinking_splitter \<Rightarrow> string \<Rightarrow> string \<times> string" where
  "splitter_view s t = (let (r, v) = split_from (in_think s) (pending s @ t) in (reasoning_text s @ r, v))"

lemma split_loop_spec:
  "split_loop rp vp tx = (rs, vs) \<Longrightarrow>
   concat rs = concat rp @ fst (split_from False tx) \<and> concat vs = concat vp @ snd (split_from False tx)"
proof (induction rp vp tx arbitrary: rs vs rule: split_loop.induct)
  case (1 rp vp tx)
  show ?case
  proof (cases "py_find THINK_OPEN tx")
    case None
    with "1.prems" show ?thesis by (auto simp: split_loop.simps [of rp vp tx] split_from.simps [of False tx])
  next
    case start: (Some start)
    let ?after = "drop (start + length THINK_OPEN) tx"
    show ?thesis
    proof (cases "py_find THINK_CLOSE ?after")
      case None
      with start "1.prems" show ?thesis
        by (auto simp: split_loop.simps [of rp vp tx] split_from.simps [of False tx] split_from.simps [of True ?after]
            Let_def)
    next
      case (Some e)
      with start "1.prems"
      have l: "split_loop (rp @ [take e ?after]) (vp @ [take start tx]) (drop (e + length THINK_CLOSE) ?after) = (rs, vs)"
        by (simp add: split_loop.simps [of rp vp tx] Let_def)
      from "1.IH" [OF start refl refl Some l] start Some show ?thesis
        by (simp add: split_from.simps [of False tx] split_from.simps [of True ?after] Let_def case_prod_unfold)
    qed
  qed
qed

lemma split_thinking_spec: "split_thinking text = split_from False text"
proof -
  obtain rs vs where l: "split_loop [] [] text = (rs, vs)" by fastforce
  from split_loop_spec [OF l] show ?thesis by (simp add: split_thinking_def l prod_eq_iff)
qed

section \<open>The splitter refines the specification\<close>

lemma find_extend: "py_find p s = Some i \<Longrightarrow> py_find p (s @ t) = Some i"
proof (induction s arbitrary: i)
  case Nil then show ?case by (cases t) (auto simp: startswith_def split: if_splits)
next
  case (Cons c s)
  show ?case
  proof (cases "startswith p (c # s)")
    case True
    then have "startswith p (c # s @ t)" unfolding startswith_iff by (metis append_Cons append_assoc)
    with Cons.prems True show ?thesis by simp
  next
    case False
    with Cons.prems obtain j where j: "py_find p s = Some j" "i = Suc j" by auto
    from py_find_bound [OF j(1)] have "length p \<le> length (c # s)" by simp
    then have "startswith p (c # s @ t) = startswith p (c # s)" using startswith_extend [of p "c # s" t] by simp
    with False j Cons.IH show ?thesis by simp
  qed
qed

text \<open>Text in which no occurrence can begin any more may be released.\<close>

lemma find_skip:
  assumes "py_find p (a @ b) = None" "Suc (length b) = length p"
  shows "py_find p (a @ b @ t) = map_option (\<lambda>i. length a + i) (py_find p (b @ t))"
  using assms
proof (induction a)
  case Nil then show ?case by (cases "py_find p (b @ t)") auto
next
  case (Cons c a)
  from Cons.prems have n: "\<not> startswith p (c # a @ b)" "py_find p (a @ b) = None" by (auto split: if_splits)
  have "\<not> startswith p (c # a @ b @ t)"
    using n(1) Cons.prems(2) startswith_extend [of p "c # a @ b" t] by simp
  with Cons.IH [OF n(2) Cons.prems(2)] show ?case by (cases "py_find p (b @ t)") auto
qed

text \<open>Released text goes to one side of the split and the rest is split as before.\<close>

definition put :: "bool \<Rightarrow> string \<Rightarrow> string \<times> string \<Rightarrow> string \<times> string" where
  "put thinking x rv = (if thinking then (x @ fst rv, snd rv) else (fst rv, x @ snd rv))"

lemma split_skip:
  assumes "py_find (if b then THINK_CLOSE else THINK_OPEN) (x @ y) = None"
    "Suc (length y) = length (if b then THINK_CLOSE else THINK_OPEN)"
  shows "split_from b (x @ y @ t) = put b x (split_from b (y @ t))"
proof (cases "py_find (if b then THINK_CLOSE else THINK_OPEN) (y @ t)")
  case None
  with find_skip [OF assms, of t] show ?thesis
    by (simp add: split_from.simps [of b "x @ y @ t"] split_from.simps [of b "y @ t"] put_def)
next
  case (Some i)
  with find_skip [OF assms, of t] show ?thesis
    by (simp add: split_from.simps [of b "x @ y @ t"] split_from.simps [of b "y @ t"] put_def Let_def case_prod_unfold add.assoc)
qed

lemma split_found:
  assumes "py_find (if b then THINK_CLOSE else THINK_OPEN) x = Some i"
  shows "split_from b (x @ t) = put b (take i x) (split_from (\<not> b) (drop (i + length (if b then THINK_CLOSE else THINK_OPEN)) x @ t))"
proof -
  from py_find_bound [OF assms] have "i + length (if b then THINK_CLOSE else THINK_OPEN) \<le> length x" .
  with find_extend [OF assms, of t] show ?thesis
    by (simp add: split_from.simps [of b "x @ t"] put_def Let_def case_prod_unfold)
qed

lemma feed_loop_view:
  "feed_loop s out = (s', out') \<Longrightarrow>
   fst (splitter_view s' t) = fst (splitter_view s t) \<and> out' @ snd (splitter_view s' t) = out @ snd (splitter_view s t)"
proof (induction s out arbitrary: s' out' rule: feed_loop.induct)
  case (1 s out)
  let ?tag = "wanted_tag s"
  have tag: "?tag = (if in_think s then THINK_CLOSE else THINK_OPEN)" by (simp add: wanted_tag_def)
  show ?case
  proof (cases "py_find ?tag (pending s)")
    case None
    let ?k = "length (pending s) - (length ?tag - 1)"
    show ?thesis
    proof (cases "length (pending s) > length ?tag - 1")
      case True
      define x where "x = take ?k (pending s)"
      define y where "y = drop ?k (pending s)"
      have p: "pending s = x @ y" by (simp add: x_def y_def)
      have "Suc (length y) = length ?tag" using True by (simp add: y_def tag)
      then have "split_from (in_think s) (x @ y @ t) = put (in_think s) x (split_from (in_think s) (y @ t))"
        using None unfolding p tag by (intro split_skip)
      then have "split_from (in_think s) (pending s @ t)
          = put (in_think s) (take ?k (pending s)) (split_from (in_think s) (drop ?k (pending s) @ t))"
        by (simp add: p [symmetric] x_def y_def append_assoc [symmetric] del: append_assoc)
      with 1 True None show ?thesis
        by (auto simp: feed_loop.simps [of s out] release_text_def splitter_view_def put_def Let_def case_prod_unfold)
    next
      case False
      with 1 None show ?thesis by (simp add: feed_loop.simps [of s out] Let_def)
    qed
  next
    case (Some i)
    obtain s1 out1 where r: "release_text (take i (pending s)) s out = (s1, out1)" by fastforce
    let ?s2 = "s1\<lparr>pending := drop (i + length ?tag) (pending s), in_think := \<not> in_think s\<rparr>"
    from "1.prems" Some r have l: "feed_loop ?s2 out1 = (s', out')"
      by (simp add: feed_loop.simps [of s out] Let_def)
    have "split_from (in_think s) (pending s @ t)
        = put (in_think s) (take i (pending s)) (split_from (\<not> in_think s) (drop (i + length ?tag) (pending s) @ t))"
      using split_found Some unfolding tag by blast
    with "1.IH" [OF refl Some r [symmetric] refl l] r show ?thesis
      by (auto simp: splitter_view_def put_def release_text_def Let_def case_prod_unfold split: if_splits)
  qed
qed

interpretation thinking: resumable feed splitter_view
proof unfold_locales
  fix s c t
  show "splitter_view s (c @ t) = (fst (splitter_view (fst (feed s c)) t), snd (feed s c) @ snd (splitter_view (fst (feed s c)) t))"
  proof (cases "c = []")
    case True then show ?thesis by (simp add: feed_def)
  next
    case False
    obtain s' out' where l: "feed_loop (s\<lparr>pending := pending s @ c\<rparr>) [] = (s', out')" by fastforce
    from feed_loop_view [OF l, of t] False l show ?thesis
      by (simp add: feed_def splitter_view_def prod_eq_iff Let_def case_prod_unfold)
  qed
qed

lemma flush_view: "(reasoning_text (fst (flush s)), snd (flush s)) = splitter_view s [] \<or> py_find (wanted_tag s) (pending s) \<noteq> None"
  by (auto simp: flush_def splitter_view_def wanted_tag_def Let_def split_from.simps [of "in_think s" "pending s"] split: if_splits option.splits)

text \<open>After any feed nothing that is held back contains the wanted tag.\<close>

lemma feed_loop_clear: "feed_loop s out = (s', out') \<Longrightarrow> py_find (wanted_tag s') (pending s') = None"
proof (induction s out arbitrary: s' out' rule: feed_loop.induct)
  case (1 s out)
  let ?tag = "wanted_tag s"
  show ?case
  proof (cases "py_find ?tag (pending s)")
    case None
    have short: "py_find ?tag (drop (length (pending s) - (length ?tag - 1)) (pending s)) = None"
      if "length (pending s) > length ?tag - 1"
    proof (rule ccontr)
      assume "py_find ?tag (drop (length (pending s) - (length ?tag - 1)) (pending s)) \<noteq> None"
      then obtain i where "py_find ?tag (drop (length (pending s) - (length ?tag - 1)) (pending s)) = Some i" by blast
      from py_find_bound [OF this] that show False by (simp add: wanted_tag_def THINK_OPEN_def THINK_CLOSE_def split: if_splits)
    qed
    from "1.prems" None short show ?thesis
      by (auto simp: feed_loop.simps [of s out] release_text_def Let_def wanted_tag_def split: if_splits)
  next
    case (Some i)
    obtain s1 out1 where r: "release_text (take i (pending s)) s out = (s1, out1)" by fastforce
    from "1.prems" Some r have "feed_loop (s1\<lparr>pending := drop (i + length ?tag) (pending s), in_think := \<not> in_think s\<rparr>) out1 = (s', out')"
      by (simp add: feed_loop.simps [of s out] Let_def)
    from "1.IH" [OF refl Some r [symmetric] refl this] show ?thesis .
  qed
qed

lemma run_chunks_clear:
  assumes "py_find (wanted_tag s) (pending s) = None"
  shows "py_find (wanted_tag (fst (run_chunks feed s cs))) (pending (fst (run_chunks feed s cs))) = None"
  using assms
proof (induction cs arbitrary: s)
  case (Cons c cs)
  have "py_find (wanted_tag (fst (feed s c))) (pending (fst (feed s c))) = None"
    using Cons.prems feed_loop_clear [of "s\<lparr>pending := pending s @ c\<rparr>" "[]"]
    by (cases "feed_loop (s\<lparr>pending := pending s @ c\<rparr>) []") (auto simp: feed_def)
  from Cons.IH [OF this] show ?case by (simp add: Let_def case_prod_unfold)
qed simp

text \<open>
  C22. However the provider cuts a text into chunks, the streaming splitter shows the client exactly the
  text that the whole-text function calls visible, and keeps exactly what it calls reasoning: no
  character of a \<open><think>\<close> block reaches the client, even when its tags are split across chunks.
\<close>

theorem splitter_matches_whole_text:
  "let (s, shown) = run_chunks feed new_splitter chunks; (s', rest) = flush s
   in (reasoning_text s', shown @ rest) = split_thinking (concat chunks)"
proof -
  let ?s = "fst (run_chunks feed new_splitter chunks)"
  have "py_find (wanted_tag new_splitter) (pending new_splitter) = None"
    by (simp add: new_splitter_def wanted_tag_def)
  from run_chunks_clear [OF this] have "(reasoning_text (fst (flush ?s)), snd (flush ?s)) = splitter_view ?s []"
    using flush_view [of ?s] by auto
  moreover have "splitter_view new_splitter (concat chunks) = split_thinking (concat chunks)"
    by (simp add: splitter_view_def new_splitter_def split_thinking_spec)
  ultimately show ?thesis
    using thinking.steps_view [of new_splitter chunks "[]"] by (simp add: Let_def case_prod_unfold prod_eq_iff)
qed

end
