(* ===== verification/App_Monad.thy ===== *)
theory App_Monad
  imports Prelude
begin

text \<open>
  Programs with state and exceptions, as the orchestration loop is written: a program maps a state to an
  exception or a value, and the state it leaves. \<open>wp m Q E s\<close> is its weakest precondition, with one postcondition
  for values and one for exceptions; \<open>keeps R E m\<close> says how every run of \<open>m\<close> relates the state it starts in to the
  state it leaves, and the interface \<open>exn_order\<close> gives its composition rules once for all such relations.
\<close>

named_theorems wp_rules \<open>weakest preconditions of the primitives\<close>

type_synonym ('s, 'e, 'a) prog = "'s \<Rightarrow> ('e + 'a) \<times> 's"

definition ret :: "'a \<Rightarrow> ('s, 'e, 'a) prog" where
  "ret x s = (Inr x, s)"

definition throw :: "'e \<Rightarrow> ('s, 'e, 'a) prog" where
  "throw e s = (Inl e, s)"

definition bnd :: "('s, 'e, 'a) prog \<Rightarrow> ('a \<Rightarrow> ('s, 'e, 'b) prog) \<Rightarrow> ('s, 'e, 'b) prog" where
  "bnd m f s = (case m s of (Inl e, s') \<Rightarrow> (Inl e, s') | (Inr x, s') \<Rightarrow> f x s')"

definition seq :: "('s, 'e, 'a) prog \<Rightarrow> ('s, 'e, 'b) prog \<Rightarrow> ('s, 'e, 'b) prog" where
  "seq m n = bnd m (\<lambda>_. n)"

definition handle :: "('s, 'e, 'a) prog \<Rightarrow> ('e \<Rightarrow> ('s, 'e, 'a) prog) \<Rightarrow> ('s, 'e, 'a) prog" where
  "handle m h s = (case m s of (Inl e, s') \<Rightarrow> h e s' | (Inr x, s') \<Rightarrow> (Inr x, s'))"

definition gets :: "('s \<Rightarrow> 'a) \<Rightarrow> ('s, 'e, 'a) prog" where
  "gets f s = (Inr (f s), s)"

definition mods :: "('s \<Rightarrow> 's) \<Rightarrow> ('s, 'e, unit) prog" where
  "mods f s = (Inr (), f s)"

primrec for_each :: "'b list \<Rightarrow> ('b \<Rightarrow> ('s, 'e, unit) prog) \<Rightarrow> ('s, 'e, unit) prog" where
  "for_each [] f = ret ()"
| "for_each (x # xs) f = seq (f x) (for_each xs f)"

lemma bnd_assoc: "bnd (bnd m f) g = bnd m (\<lambda>x. bnd (f x) g)"
  by (rule ext) (simp add: bnd_def split: prod.splits sum.splits)

lemma bnd_ret [simp]: "bnd (ret x) f = f x"
  by (rule ext) (simp add: bnd_def ret_def)

section \<open>Weakest preconditions\<close>

definition wp :: "('s, 'e, 'a) prog \<Rightarrow> ('a \<Rightarrow> 's \<Rightarrow> bool) \<Rightarrow> ('e \<Rightarrow> 's \<Rightarrow> bool) \<Rightarrow> 's \<Rightarrow> bool" where
  "wp m Q E s = (case m s of (Inl e, s') \<Rightarrow> E e s' | (Inr x, s') \<Rightarrow> Q x s')"

lemma wp_ret [wp_rules, simp]: "wp (ret x) Q E s = Q x s" by (simp add: wp_def ret_def)
lemma wp_throw [wp_rules, simp]: "wp (throw e) Q E s = E e s" by (simp add: wp_def throw_def)
lemma wp_gets [wp_rules, simp]: "wp (gets f) Q E s = Q (f s) s" by (simp add: wp_def gets_def)
lemma wp_mods [wp_rules, simp]: "wp (mods g) Q E s = Q () (g s)" by (simp add: wp_def mods_def)

lemma wp_bnd [wp_rules, simp]: "wp (bnd m f) Q E s = wp m (\<lambda>x. wp (f x) Q E) E s"
  by (auto simp: wp_def bnd_def split: prod.splits sum.splits)

lemma wp_seq [wp_rules, simp]: "wp (seq m n) Q E s = wp m (\<lambda>_. wp n Q E) E s"
  by (simp add: seq_def)

lemma wp_handle [wp_rules, simp]: "wp (handle m h) Q E s = wp m Q (\<lambda>e. wp (h e) Q E) s"
  by (auto simp: wp_def handle_def split: prod.splits sum.splits)

lemma wp_mono:
  assumes "wp m Q E s" "\<And>x s'. Q x s' \<Longrightarrow> Q' x s'" "\<And>e s'. E e s' \<Longrightarrow> E' e s'"
  shows "wp m Q' E' s"
  using assms by (auto simp: wp_def split: prod.splits sum.splits)

lemma wp_conj: "wp m Q E s \<Longrightarrow> wp m Q' E' s \<Longrightarrow> wp m (\<lambda>x s'. Q x s' \<and> Q' x s') (\<lambda>e s'. E e s' \<and> E' e s') s"
  by (auto simp: wp_def split: prod.splits sum.splits)

lemma wp_result: "wp m Q E s \<Longrightarrow> m s = (r, s') \<Longrightarrow> case r of Inl e \<Rightarrow> E e s' | Inr x \<Rightarrow> Q x s'"
  by (auto simp: wp_def split: sum.splits)

lemma wp_if [simp]: "wp (if b then m else n) Q E s = (if b then wp m Q E s else wp n Q E s)" by simp

section \<open>Relations every run keeps\<close>

text \<open>
  \<open>keeps R E m\<close>: a run of \<open>m\<close> that returns relates its first state to its last by \<open>R\<close>, and one that ends in
  the exception \<open>e\<close> by \<open>E e\<close>.
\<close>

definition keeps :: "('s \<Rightarrow> 's \<Rightarrow> bool) \<Rightarrow> ('e \<Rightarrow> 's \<Rightarrow> 's \<Rightarrow> bool) \<Rightarrow> ('s, 'e, 'a) prog \<Rightarrow> bool" where
  "keeps R E m \<longleftrightarrow> (\<forall>s. wp m (\<lambda>_. R s) (\<lambda>e. E e s) s)"

lemma keepsD: "keeps R E m \<Longrightarrow> m s = (r, s') \<Longrightarrow> case r of Inl e \<Rightarrow> E e s s' | Inr _ \<Rightarrow> R s s'"
  unfolding keeps_def by (drule spec [of _ s]) (auto dest: wp_result)

lemma keepsD_all: "keeps R (\<lambda>_. R) m \<Longrightarrow> m s = (r, s') \<Longrightarrow> R s s'"
  using keepsD [of R "\<lambda>_. R" m s r s'] by (auto split: sum.splits)

lemma keeps_wp: "keeps R E m \<Longrightarrow> wp m (\<lambda>_. R s) (\<lambda>e. E e s) s"
  by (simp add: keeps_def)

locale exn_order =
  fixes R :: "'s \<Rightarrow> 's \<Rightarrow> bool" and E :: "'e \<Rightarrow> 's \<Rightarrow> 's \<Rightarrow> bool"
  assumes refl: "R s s" and trans: "R s t \<Longrightarrow> R t u \<Longrightarrow> R s u"
    and exn: "R s t \<Longrightarrow> E e s t" and trans_exn: "R s t \<Longrightarrow> E e t u \<Longrightarrow> E e s u"
begin

lemma keeps_ret: "keeps R E (ret x)" by (simp add: keeps_def refl)
lemma keeps_throw: "keeps R E (throw e)" by (simp add: keeps_def exn refl)
lemma keeps_gets: "keeps R E (gets f)" by (simp add: keeps_def refl)
lemma keeps_mods: "(\<And>s. R s (g s)) \<Longrightarrow> keeps R E (mods g)" by (simp add: keeps_def)

lemma keeps_bnd:
  assumes "keeps R E m" "\<And>x. keeps R E (f x)"
  shows "keeps R E (bnd m f)"
  unfolding keeps_def wp_bnd
proof
  fix s
  from keeps_wp [OF assms(1)] show "wp m (\<lambda>x. wp (f x) (\<lambda>_. R s) (\<lambda>e. E e s)) (\<lambda>e. E e s) s"
  proof (rule wp_mono)
    fix x t assume "R s t"
    from keeps_wp [OF assms(2)] show "wp (f x) (\<lambda>_. R s) (\<lambda>e. E e s) t"
      by (rule wp_mono) (auto intro: trans trans_exn \<open>R s t\<close>)
  qed
qed

lemma keeps_seq: "keeps R E m \<Longrightarrow> keeps R E n \<Longrightarrow> keeps R E (seq m n)"
  by (simp add: seq_def keeps_bnd)

lemma keeps_for_each: "(\<And>x. keeps R E (f x)) \<Longrightarrow> keeps R E (for_each xs f)"
  by (induction xs) (simp_all add: keeps_ret keeps_seq)

lemma keeps_if: "(b \<Longrightarrow> keeps R E m) \<Longrightarrow> (\<not> b \<Longrightarrow> keeps R E n) \<Longrightarrow> keeps R E (if b then m else n)" by simp

lemma keeps_option: "(x = None \<Longrightarrow> keeps R E m) \<Longrightarrow> (\<And>y. x = Some y \<Longrightarrow> keeps R E (f y)) \<Longrightarrow> keeps R E (case x of None \<Rightarrow> m | Some y \<Rightarrow> f y)"
  by (cases x) simp_all

lemma keeps_sum: "(\<And>y. x = Inl y \<Longrightarrow> keeps R E (f y)) \<Longrightarrow> (\<And>y. x = Inr y \<Longrightarrow> keeps R E (g y)) \<Longrightarrow> keeps R E (case x of Inl y \<Rightarrow> f y | Inr y \<Rightarrow> g y)"
  by (cases x) simp_all

lemma keeps_prod: "(\<And>a b. p = (a, b) \<Longrightarrow> keeps R E (f a b)) \<Longrightarrow> keeps R E (case p of (a, b) \<Rightarrow> f a b)"
  by (cases p) simp

lemma keeps_let: "(\<And>x. x = v \<Longrightarrow> keeps R E (f x)) \<Longrightarrow> keeps R E (let x = v in f x)" by simp

lemmas keeps_intros = keeps_ret keeps_throw keeps_gets keeps_bnd keeps_seq keeps_for_each
  keeps_if keeps_option keeps_sum keeps_prod keeps_let

end

end
