(* ===== verification/App_Parse.thy ===== *)
theory App_Parse
  imports App_Proposal
begin

text \<open>
  From a model's tool proposal to the call the orchestration loop makes
  (\<open>services/app/app/orchestration/loop.py\<close>, \<open>parse_query_proposal\<close> and the parsers it dispatches to), and how
  the parsed call relates to the proposal the pre-flight check of \<open>App_Proposal\<close> has passed.
\<close>

record tool_proposal =
  tp_name :: string
  tp_arguments :: json
  tp_outcome :: string

definition EXPECTED_TOOL_NAME :: string where "EXPECTED_TOOL_NAME = ''query_taxi_data''"
definition AVERAGE_METRICS_TOOL_NAME :: string where "AVERAGE_METRICS_TOOL_NAME = ''average_trip_metrics''"

definition only_keys :: "string list \<Rightarrow> jdict \<Rightarrow> bool" where
  "only_keys allowed d \<longleftrightarrow> list_all (\<lambda>k. k \<in> set allowed) (od_keys d)"

definition is_str_list :: "json \<Rightarrow> bool" where
  "is_str_list v = (case v of JArr xs \<Rightarrow> list_all is_str xs | _ \<Rightarrow> False)"

definition limit_in :: "int \<Rightarrow> json \<Rightarrow> bool" where
  "limit_in n v = (case v of JInt i \<Rightarrow> 1 \<le> i \<and> i \<le> n | _ \<Rightarrow> False)"

definition parse_describe_taxi_dataset :: "json \<Rightarrow> jdict option" where
  "parse_describe_taxi_dataset arguments = (case (if arguments = JNull then JObj [] else arguments) of
     JObj args \<Rightarrow>
       if \<not> only_keys [''include_column_stats''] args then None
       else let stats = jget_or args ''include_column_stats'' (JBool False) in
         if \<not> is_bool stats then None else Some [(''include_column_stats'', stats)]
   | _ \<Rightarrow> None)"

definition parse_list_taxi_dimension_values :: "json \<Rightarrow> jdict option" where
  "parse_list_taxi_dimension_values arguments = (case arguments of
     JObj args \<Rightarrow>
       if \<not> only_keys [''dimension'', ''search'', ''limit''] args then None
       else let dimension = jget args ''dimension''; search = jget args ''search''; limit = jget_or args ''limit'' (JInt 20) in
         if \<not> is_str dimension \<or> \<not> truthy dimension then None
         else if search \<noteq> JNull \<and> \<not> is_str search then None
         else if \<not> limit_in MAX_ROWS limit then None
         else Some [(''dimension'', dimension), (''search'', search), (''limit'', limit)]
   | _ \<Rightarrow> None)"

definition parse_aggregate_taxi_data :: "json \<Rightarrow> jdict option" where
  "parse_aggregate_taxi_data arguments = (case arguments of
     JObj args \<Rightarrow>
       if \<not> only_keys [''dimensions'', ''measures'', ''filters'', ''order_by'', ''limit''] args then None
       else let ds = jget args ''dimensions''; ms = jget args ''measures''; fs = jget args ''filters'';
                ob = jget args ''order_by''; limit = jget_or args ''limit'' (JInt 20) in
         if \<not> is_str_list ds \<or> \<not> truthy ds then None
         else if \<not> is_str_list ms \<or> \<not> truthy ms then None
         else if fs \<noteq> JNull \<and> \<not> is_dict fs then None
         else if ob \<noteq> JNull \<and> \<not> is_dict ob then None
         else if \<not> limit_in MAX_ROWS limit then None
         else Some [(''dimensions'', ds), (''measures'', ms), (''filters'', fs), (''order_by'', ob), (''limit'', limit)]
   | _ \<Rightarrow> None)"

definition bad_text :: "json \<Rightarrow> bool" where
  "bad_text v \<longleftrightarrow> v \<noteq> JNull \<and> (\<not> is_str v \<or> \<not> truthy v)"

definition parse_compare_taxi_segments :: "json \<Rightarrow> jdict option" where
  "parse_compare_taxi_segments arguments = (case arguments of
     JObj args \<Rightarrow>
       if \<not> only_keys [''segment_dimension'', ''comparison_mode'', ''measures'', ''baseline_filters'', ''comparison_filters'', ''limit''] args
       then None
       else let segment = jget args ''segment_dimension''; mode = jget args ''comparison_mode''; ms = jget args ''measures'';
                bf = jget args ''baseline_filters''; cf = jget args ''comparison_filters''; limit = jget_or args ''limit'' (JInt 20) in
         if bad_text segment then None
         else if bad_text mode then None
         else if \<not> is_str_list ms \<or> \<not> truthy ms then None
         else if \<not> is_dict bf \<or> \<not> is_dict cf then None
         else if \<not> limit_in MAX_ROWS limit then None
         else Some ([(''measures'', ms), (''baseline_filters'', bf), (''comparison_filters'', cf), (''limit'', limit)]
           @ (if segment \<noteq> JNull then [(''segment_dimension'', segment)] else [])
           @ (if mode \<noteq> JNull then [(''comparison_mode'', mode)] else []))
   | _ \<Rightarrow> None)"

definition EXTENDED_TOOL_PARSERS :: "(string, json \<Rightarrow> jdict option) odict" where
  "EXTENDED_TOOL_PARSERS =
     [(''describe_taxi_dataset'', parse_describe_taxi_dataset), (''list_taxi_dimension_values'', parse_list_taxi_dimension_values),
      (''aggregate_taxi_data'', parse_aggregate_taxi_data), (''compare_taxi_segments'', parse_compare_taxi_segments)]"

definition parse_average :: "json \<Rightarrow> jdict option" where
  "parse_average arguments = (case (if arguments = JNull then JObj [] else arguments) of
     JObj args \<Rightarrow>
       if \<not> only_keys [''region_name''] args then None
       else (case jget args ''region_name'' of
               JNull \<Rightarrow> Some []
             | JStr r \<Rightarrow> if py_strip r = [] \<or> length r > 128 then None else Some [(''region_name'', JStr r)]
             | _ \<Rightarrow> None)
   | _ \<Rightarrow> None)"

definition parse_query_proposal :: "tool_proposal \<Rightarrow> (string \<times> jdict) option" where
  "parse_query_proposal p =
     (let name = tp_name p; arguments = tp_arguments p; named = map_option (Pair name) in
      if tp_outcome p \<in> set NON_TOOL_OUTCOMES \<or> name = [] then None
      else case map_of EXTENDED_TOOL_PARSERS name of
        Some parser \<Rightarrow> named (parser arguments)
      | None \<Rightarrow>
          if name = AVERAGE_METRICS_TOOL_NAME then named (parse_average arguments)
          else if name \<noteq> EXPECTED_TOOL_NAME then None
          else (case arguments of
            JObj args \<Rightarrow>
              if set (od_keys args) \<noteq> {''analysis'', ''limit''} then None
              else if in_strings (jget args ''analysis'') (map fst ALLOWED_ANALYSES) \<and> limit_in 20 (jget args ''limit'')
              then Some (name, [(''analysis'', jget args ''analysis''), (''limit'', jget args ''limit'')]) else None
          | _ \<Rightarrow> None))"

section \<open>A clean proposal becomes the call it proposes\<close>

text \<open>The arguments a tool has when they are left out.\<close>

definition argument_default :: "string \<Rightarrow> json" where
  "argument_default k = (if k = ''limit'' then JInt 20 else if k = ''include_column_stats'' then JBool False else JNull)"

definition same_call :: "jdict \<Rightarrow> jdict \<Rightarrow> bool" where
  "same_call p q \<longleftrightarrow> (\<forall>k. jget_or p k (argument_default k) = jget_or q k (argument_default k))"

lemma keys_checked:
  assumes "check_keys args allowed required = []"
  shows "only_keys allowed args" "list_all (\<lambda>k. map_of args k \<noteq> None) required"
  using assms by (auto simp: check_keys_def only_keys_def list_all_iff list_ex_iff map_of_eq_None_iff split: if_splits)

lemma only_keys_default: "only_keys allowed args \<Longrightarrow> k \<notin> set allowed \<Longrightarrow> jget_or args k x = x"
  by (force simp: only_keys_def list_all_iff jget_or_def dest: map_of_SomeD split: option.splits)

lemma same_call_on:
  assumes "only_keys allowed d" "only_keys allowed p"
    and "list_all (\<lambda>k. jget_or p k (argument_default k) = jget_or d k (argument_default k)) allowed"
  shows "same_call p d"
  unfolding same_call_def
proof
  fix k
  show "jget_or p k (argument_default k) = jget_or d k (argument_default k)"
    using assms only_keys_default [of allowed _ k "argument_default k"]
    by (cases "k \<in> set allowed") (auto simp: list_all_iff)
qed

lemma limit_checked: "check_limit args = [] \<Longrightarrow> limit_in MAX_ROWS (jget_or args ''limit'' (JInt 20))"
  by (auto simp: check_limit_def limit_in_def jget_or_def MAX_ROWS_def split: option.splits json.splits if_splits)

lemma names_checked: "check_name_list v allowed code = [] \<Longrightarrow> is_str_list v \<and> truthy v"
  by (auto simp: check_name_list_def is_str_list_def list_ex_iff list_all_iff split: json.splits if_splits)

lemma filters_checked: "check_filters pis v schema = Inr [] \<Longrightarrow> v = JNull \<or> is_dict v"
  by (auto simp: check_filters_def split: json.splits)

lemma side_checked: "check_side pis args schema side = Inr [] \<Longrightarrow> map_of args side \<noteq> None \<Longrightarrow> is_dict (jget args side)"
  by (auto simp: check_side_def jget_def split: option.splits if_splits)

lemma order_checked: "check_order_by v = [] \<Longrightarrow> v = JNull \<or> is_dict v"
  by (cases v) (simp_all add: check_order_by_def)

lemma jget_or_null: "jget_or d k JNull = jget d k"
  by (simp add: jget_or_def jget_def)

lemma dimension_text: "in_strings v PV_DIMENSIONS \<Longrightarrow> is_str v \<and> truthy v"
  by (cases v) (auto simp: in_strings_def is_str_def PV_DIMENSIONS_def)

lemma mode_text: "in_strings v COMPARISON_MODES \<Longrightarrow> is_str v \<and> truthy v"
  by (cases v) (auto simp: in_strings_def is_str_def COMPARISON_MODES_def)


lemma parse_aggregate_clean:
  assumes "validate_aggregate pis args schema = Inr []"
  shows "\<exists>p. parse_aggregate_taxi_data (JObj args) = Some p \<and> same_call p args"
proof -
  have k: "check_keys args [''dimensions'', ''measures'', ''filters'', ''order_by'', ''limit''] [''dimensions'', ''measures''] = []"
    and l: "check_limit args = []" and o: "check_order_by (jget args ''order_by'') = []"
    and f: "check_filters pis (jget args ''filters'') schema = Inr []"
    and d: "map_of args ''dimensions'' = Some dv \<Longrightarrow> check_name_list dv PV_DIMENSIONS ''unknown_dimension'' = []"
    and m: "map_of args ''measures'' = Some mv \<Longrightarrow> check_name_list mv PV_MEASURES ''unknown_measure'' = []" for dv mv
    using assms by (auto simp: validate_aggregate_def split: option.splits)
  note keys = keys_checked [OF k]
  from keys(2) obtain dv mv where dm: "map_of args ''dimensions'' = Some dv" "map_of args ''measures'' = Some mv" by auto
  let ?p = "[(''dimensions'', jget args ''dimensions''), (''measures'', jget args ''measures''), (''filters'', jget args ''filters''),
    (''order_by'', jget args ''order_by''), (''limit'', jget_or args ''limit'' (JInt 20))]"
  have "parse_aggregate_taxi_data (JObj args) = Some ?p"
    using keys(1) limit_checked [OF l] names_checked [OF d [OF dm(1)]] names_checked [OF m [OF dm(2)]]
      filters_checked [OF f] order_checked [OF o] dm
    by (auto simp: parse_aggregate_taxi_data_def Let_def jget_def)
  moreover have "same_call ?p args"
    by (rule same_call_on [OF keys(1)]) (simp_all add: only_keys_def argument_default_def jget_or_null, simp_all add: jget_or_def jget_def)
  ultimately show ?thesis by blast
qed

lemma parse_compare_clean:
  assumes "validate_compare pis args schema = Inr []"
  shows "\<exists>p. parse_compare_taxi_segments (JObj args) = Some p \<and> same_call p args"
proof -
  let ?seg = "jget args ''segment_dimension''" and ?mode = "jget args ''comparison_mode''"
  have k: "check_keys args [''measures'', ''baseline_filters'', ''comparison_filters'', ''segment_dimension'', ''comparison_mode'', ''limit'']
      [''baseline_filters'', ''comparison_filters'', ''measures''] = []"
    and l: "check_limit args = []"
    and sides: "check_side pis args schema ''baseline_filters'' = Inr []" "check_side pis args schema ''comparison_filters'' = Inr []"
    and seg: "?seg \<noteq> JNull \<Longrightarrow> in_strings ?seg PV_DIMENSIONS"
    and mode: "check_mode (if ?mode = JNull then JStr ''by_dimension'' else ?mode) (?seg \<noteq> JNull) = []"
    and m: "map_of args ''measures'' = Some mv \<Longrightarrow> check_name_list mv PV_MEASURES ''unknown_measure'' = []" for mv
    using assms unfolding validate_compare_def Let_def by (auto split: option.splits if_splits)
  note keys = keys_checked [OF k]
  from keys(2) obtain mv where mv: "map_of args ''measures'' = Some mv"
    and bf: "map_of args ''baseline_filters'' \<noteq> None" and cf: "map_of args ''comparison_filters'' \<noteq> None" by auto
  have sg: "\<not> bad_text ?seg" using seg dimension_text by (auto simp: bad_text_def)
  have md: "\<not> bad_text ?mode" using mode mode_text by (auto simp: bad_text_def check_mode_def split: if_splits)
  let ?p = "[(''measures'', jget args ''measures''), (''baseline_filters'', jget args ''baseline_filters''),
      (''comparison_filters'', jget args ''comparison_filters''), (''limit'', jget_or args ''limit'' (JInt 20))]
    @ (if ?seg \<noteq> JNull then [(''segment_dimension'', ?seg)] else []) @ (if ?mode \<noteq> JNull then [(''comparison_mode'', ?mode)] else [])"
  have ok: "only_keys [''segment_dimension'', ''comparison_mode'', ''measures'', ''baseline_filters'', ''comparison_filters'', ''limit''] args"
    using keys(1) by (auto simp: only_keys_def list_all_iff)
  have "is_str_list (jget args ''measures'')" "truthy (jget args ''measures'')"
    using names_checked [OF m [OF mv]] mv by (auto simp: jget_def)
  then have "parse_compare_taxi_segments (JObj args) = Some ?p"
    using ok limit_checked [OF l] side_checked [OF sides(1) bf] side_checked [OF sides(2) cf] sg md
    unfolding parse_compare_taxi_segments_def Let_def by simp
  moreover have "same_call ?p args"
    by (rule same_call_on [OF ok]) (simp_all add: only_keys_def argument_default_def jget_or_null, simp_all add: jget_or_def jget_def)
  ultimately show ?thesis by blast
qed

lemma parse_list_clean:
  assumes "validate_list_values args = []"
  shows "\<exists>p. parse_list_taxi_dimension_values (JObj args) = Some p \<and> same_call p args"
proof -
  have k: "check_keys args [''dimension'', ''search'', ''limit''] [''dimension''] = []"
    and l: "check_limit args = []"
    and d: "map_of args ''dimension'' = Some v \<Longrightarrow> in_strings v PV_DIMENSIONS"
    and s: "jget args ''search'' \<noteq> JNull \<Longrightarrow> is_str (jget args ''search'')" for v
    using assms by (auto simp: validate_list_values_def is_str_def split: option.splits json.splits if_splits)
  note keys = keys_checked [OF k]
  from keys(2) obtain v where v: "map_of args ''dimension'' = Some v" by auto
  let ?p = "[(''dimension'', jget args ''dimension''), (''search'', jget args ''search''), (''limit'', jget_or args ''limit'' (JInt 20))]"
  have "is_str (jget args ''dimension'')" "truthy (jget args ''dimension'')"
    using dimension_text [OF d [OF v]] v by (simp_all add: jget_def)
  then have "parse_list_taxi_dimension_values (JObj args) = Some ?p"
    using keys(1) limit_checked [OF l] s by (auto simp: parse_list_taxi_dimension_values_def Let_def)
  moreover have "same_call ?p args"
    by (rule same_call_on [OF keys(1)]) (simp_all add: only_keys_def argument_default_def jget_or_null, simp_all add: jget_or_def jget_def)
  ultimately show ?thesis by blast
qed

lemma parse_describe_clean:
  assumes "validate_describe args = []"
  shows "\<exists>p. parse_describe_taxi_dataset (JObj args) = Some p \<and> same_call p args"
proof -
  have k: "only_keys [''include_column_stats''] args" and b: "is_bool (jget_or args ''include_column_stats'' (JBool False))"
    using assms keys_checked by (auto simp: validate_describe_def split: if_splits)
  have "same_call [(''include_column_stats'', jget_or args ''include_column_stats'' (JBool False))] args"
    by (rule same_call_on [OF k]) (simp_all add: only_keys_def argument_default_def, simp add: jget_or_def)
  with k b show ?thesis by (simp add: parse_describe_taxi_dataset_def Let_def)
qed

lemma borough_text: "r \<in> set PV_BOROUGHS \<Longrightarrow> py_strip r \<noteq> [] \<and> length r \<le> 128"
proof -
  have "list_all (\<lambda>r. py_strip r \<noteq> [] \<and> length r \<le> 128) PV_BOROUGHS" by code_simp
  then show "r \<in> set PV_BOROUGHS \<Longrightarrow> py_strip r \<noteq> [] \<and> length r \<le> 128" by (simp add: list_all_iff)
qed

lemma parse_average_clean:
  assumes "validate_average_trip_metrics args = []"
  shows "\<exists>p. parse_average (JObj args) = Some p \<and> same_call p args"
proof -
  have k: "only_keys [''region_name''] args"
    and r: "jget args ''region_name'' = JNull \<or> (\<exists>b \<in> set PV_BOROUGHS. jget args ''region_name'' = JStr b)"
    using assms keys_checked(1) [of args "[''region_name'']" "[]"]
    by (auto simp: validate_average_trip_metrics_def Let_def in_strings_def split: if_splits json.splits)
  from r show ?thesis
  proof
    assume n: "jget args ''region_name'' = JNull"
    have "same_call [] args"
      by (rule same_call_on [OF k]) (simp_all add: only_keys_def argument_default_def jget_or_null n, simp add: jget_def)
    with k n show ?thesis by (simp add: parse_average_def)
  next
    assume "\<exists>b \<in> set PV_BOROUGHS. jget args ''region_name'' = JStr b"
    then obtain b where b: "b \<in> set PV_BOROUGHS" "jget args ''region_name'' = JStr b" by blast
    have "same_call [(''region_name'', JStr b)] args"
      by (rule same_call_on [OF k]) (simp_all add: only_keys_def argument_default_def jget_or_null b(2), simp add: jget_def)
    with k b borough_text [OF b(1)] show ?thesis by (simp add: parse_average_def)
  qed
qed

lemma parse_query_clean:
  assumes "validate_query_taxi_data args = []" "\<And>n. jget args ''limit'' = JInt n \<Longrightarrow> n \<le> 20"
  shows "set (od_keys args) = {''analysis'', ''limit''}" "in_strings (jget args ''analysis'') (map fst ALLOWED_ANALYSES)"
    "limit_in 20 (jget args ''limit'')" "same_call [(''analysis'', jget args ''analysis''), (''limit'', jget args ''limit'')] args"
proof -
  have k: "check_keys args [''analysis'', ''limit''] [''analysis'', ''limit''] = []" and l: "check_limit args = []"
    and a: "map_of args ''analysis'' = Some v \<Longrightarrow> in_strings v PV_ANALYSES" for v
    using assms(1) by (auto simp: validate_query_taxi_data_def split: option.splits if_splits)
  note keys = keys_checked [OF k]
  from keys(2) obtain av lv where m: "map_of args ''analysis'' = Some av" "map_of args ''limit'' = Some lv" by auto
  have "''analysis'' \<in> set (od_keys args)" "''limit'' \<in> set (od_keys args)" unfolding key_present using m by simp_all
  with keys(1) show "set (od_keys args) = {''analysis'', ''limit''}" by (auto simp: only_keys_def list_all_iff)
  show "in_strings (jget args ''analysis'') (map fst ALLOWED_ANALYSES)"
    unfolding allowlists_mirror(9) [symmetric] using a [OF m(1)] m(1) by (simp add: jget_def)
  show "limit_in 20 (jget args ''limit'')"
    using limit_checked [OF l] m(2) assms(2) by (auto simp: jget_or_def jget_def limit_in_def split: json.splits)
  show "same_call [(''analysis'', jget args ''analysis''), (''limit'', jget args ''limit'')] args"
    by (rule same_call_on [OF keys(1)]) (use m in \<open>simp_all add: only_keys_def argument_default_def jget_or_def jget_def\<close>)
qed

lemma governed_tool_cases:
  "name \<in> set GOVERNED_TOOLS \<Longrightarrow> name = ''query_taxi_data'' \<or> name = ''average_trip_metrics'' \<or> name = ''describe_taxi_dataset''
     \<or> name = ''list_taxi_dimension_values'' \<or> name = ''aggregate_taxi_data'' \<or> name = ''compare_taxi_segments''"
  by (simp add: GOVERNED_TOOLS_def)

lemma parse_tool_clean:
  assumes "validate_tool pis name args schema = Inr []" "name \<in> set GOVERNED_TOOLS" "outcome \<notin> set NON_TOOL_OUTCOMES"
    and "name = ''query_taxi_data'' \<Longrightarrow> \<forall>n. jget args ''limit'' = JInt n \<longrightarrow> n \<le> 20"
  shows "\<exists>p. parse_query_proposal \<lparr>tp_name = name, tp_arguments = JObj args, tp_outcome = outcome\<rparr> = Some (name, p) \<and> same_call p args"
proof -
  note unfold = parse_query_proposal_def EXTENDED_TOOL_PARSERS_def EXPECTED_TOOL_NAME_def AVERAGE_METRICS_TOOL_NAME_def
  from governed_tool_cases [OF assms(2)] show ?thesis
  proof (elim disjE)
    assume n: "name = ''query_taxi_data''"
    with assms(1) have "validate_query_taxi_data args = []" by (simp add: validate_tool_def)
    moreover have "n \<le> 20" if "jget args ''limit'' = JInt n" for n using assms(4) n that by blast
    ultimately show ?thesis using n assms(3) parse_query_clean [of args] by (simp add: unfold)
  next
    assume n: "name = ''average_trip_metrics''"
    with assms(1) have "validate_average_trip_metrics args = []" by (simp add: validate_tool_def)
    from parse_average_clean [OF this] show ?thesis using n assms(3) by (auto simp: unfold)
  next
    assume n: "name = ''describe_taxi_dataset''"
    with assms(1) have "validate_describe args = []" by (simp add: validate_tool_def)
    from parse_describe_clean [OF this] show ?thesis using n assms(3) by (auto simp: unfold)
  next
    assume n: "name = ''list_taxi_dimension_values''"
    with assms(1) have "validate_list_values args = []" by (simp add: validate_tool_def)
    from parse_list_clean [OF this] show ?thesis using n assms(3) by (auto simp: unfold)
  next
    assume n: "name = ''aggregate_taxi_data''"
    with assms(1) have "validate_aggregate pis args schema = Inr []" by (simp add: validate_tool_def)
    from parse_aggregate_clean [OF this] show ?thesis using n assms(3) by (auto simp: unfold)
  next
    assume n: "name = ''compare_taxi_segments''"
    with assms(1) have "validate_compare pis args schema = Inr []" by (simp add: validate_tool_def)
    from parse_compare_clean [OF this] show ?thesis using n assms(3) by (auto simp: unfold)
  qed
qed

text \<open>
  C30. A proposal that passes the pre-flight check becomes a call of the same tool with the same
  arguments, defaults filled in and nothing added or dropped; the only proposals that pass the check
  and are then refused are those of a fixed analysis that asks for more than 20 rows.
\<close>

theorem clean_proposal_becomes_call:
  assumes "validate_proposal pis name (JObj args) schema executed allowed = Inr v" "pv_ok v" "name \<in> set GOVERNED_TOOLS"
    and "outcome \<notin> set NON_TOOL_OUTCOMES"
  shows "(case parse_query_proposal \<lparr>tp_name = name, tp_arguments = JObj args, tp_outcome = outcome\<rparr> of
      Some (tool, p) \<Rightarrow> tool = name \<and> (\<forall>k. jget_or p k (argument_default k) = jget_or args k (argument_default k))
    | None \<Rightarrow> name = ''query_taxi_data'' \<and> (\<exists>n. jget args ''limit'' = JInt n \<and> 20 < n))"
proof -
  have "name \<noteq> [] \<and> name \<notin> set NON_TOOL_OUTCOMES" using assms(3) by (auto simp: GOVERNED_TOOLS_def NON_TOOL_OUTCOMES_def)
  with assms(1-3) have v: "validate_tool pis name args schema = Inr []"
    by (auto simp: validate_proposal_def pv_ok_def Let_def split: if_splits)
  show ?thesis
  proof (cases "name = ''query_taxi_data'' \<and> (\<exists>n. jget args ''limit'' = JInt n \<and> 20 < n)")
    case True
    then have "\<not> limit_in 20 (jget args ''limit'')" by (auto simp: limit_in_def)
    then have "parse_query_proposal \<lparr>tp_name = name, tp_arguments = JObj args, tp_outcome = outcome\<rparr> = None"
      using True by (simp add: parse_query_proposal_def EXTENDED_TOOL_PARSERS_def AVERAGE_METRICS_TOOL_NAME_def Let_def)
    with True show ?thesis by simp
  next
    case False
    then have "\<forall>n. jget args ''limit'' = JInt n \<longrightarrow> n \<le> 20" if "name = ''query_taxi_data''" using that by auto
    from parse_tool_clean [OF v assms(3,4) this] show ?thesis by (auto simp: same_call_def)
  qed
qed

theorem clean_proposal_becomes_call_witness:
  "case parse_query_proposal \<lparr>tp_name = ''average_trip_metrics'', tp_arguments = JObj [(''region_name'', JStr ''Queens'')], tp_outcome = ''tool_call''\<rparr> of
     Some (tool, p) \<Rightarrow> tool = ''average_trip_metrics'' \<and> jget_or p ''region_name'' JNull = JStr ''Queens'' | None \<Rightarrow> False"
proof -
  have v: "validate_proposal (\<lambda>_. None) ''average_trip_metrics'' (JObj [(''region_name'', JStr ''Queens'')]) None 0 1
      = Inr \<lparr>violations = [], pv_outcome = ''tool_call''\<rparr>"
    by (simp add: validate_proposal_def validate_tool_def NON_TOOL_OUTCOMES_def GOVERNED_TOOLS_def validate_average_trip_metrics_def
        check_keys_def jget_def is_str_def in_strings_def PV_BOROUGHS_def)
  have "pv_ok \<lparr>violations = [], pv_outcome = ''tool_call''\<rparr>" "''average_trip_metrics'' \<in> set GOVERNED_TOOLS"
    "''tool_call'' \<notin> set NON_TOOL_OUTCOMES" by (simp_all add: pv_ok_def GOVERNED_TOOLS_def NON_TOOL_OUTCOMES_def)
  from clean_proposal_becomes_call [OF v this] show ?thesis
    by (auto simp: argument_default_def jget_or_def split: option.splits dest: spec [where x = "''region_name''"])
qed

end
