(* ===== verification/App_Catalogue.thy ===== *)
theory App_Catalogue
  imports App_Parse
begin

text \<open>
  The fixed catalogue of known questions (\<open>services/app/app/query_catalogue.py\<close>): a question that matches an entry
  skips the model's tool selection.
\<close>

text \<open>\<open>re.sub(r"\s+", " ", question.strip().lower())\<close>.\<close>

function collapse_spaces :: "string \<Rightarrow> string" where
  "collapse_spaces [] = []"
| "collapse_spaces (c # s) = (if py_isspace c then CHR '' '' # collapse_spaces (dropWhile py_isspace s) else c # collapse_spaces s)"
  by pat_completeness auto
termination by (relation "measure length") (auto intro: le_imp_less_Suc length_dropWhile_le)

definition normalize_question :: "string \<Rightarrow> string" where
  "normalize_question question = collapse_spaces (py_lower (py_strip question))"

definition RAW_CATALOGUE :: "(string \<times> string \<times> jdict) list" where
  "RAW_CATALOGUE =
     [(''What date range, row count, and columns does this taxi dataset cover?'',
        ''describe_taxi_dataset'', [(''include_column_stats'', JBool False)]),
      (''What payment types, rate codes, and vendors appear in the data, and what do the codes mean?'',
        ''describe_taxi_dataset'', [(''include_column_stats'', JBool True)]),
      (''List the pickup boroughs present in the dataset'',
        ''list_taxi_dimension_values'', [(''dimension'', JStr ''pickup_borough''), (''search'', JNull), (''limit'', JInt 20)]),
      (''Which pickup zones have the most trips?'',
        ''query_taxi_data'', [(''analysis'', JStr ''top_pickup_zones''), (''limit'', JInt 5)]),
      (''What are the peak hours and busiest times for taxi rides in NYC?'',
        ''query_taxi_data'', [(''analysis'', JStr ''trip_volume_by_hour''), (''limit'', JInt 20)]),
      (''Compare weekday and weekend trip volume by hour'',
        ''aggregate_taxi_data'', [(''dimensions'', JArr [JStr ''pickup_week_part'', JStr ''pickup_hour'']), (''measures'', JArr [JStr ''trip_count'']), (''filters'', JNull), (''order_by'', JNull), (''limit'', JInt 50)]),
      (''How do airport trips compare with non-airport trips on fare and duration?'',
        ''compare_taxi_segments'', [(''comparison_mode'', JStr ''whole_segment''), (''measures'', JArr [JStr ''average_fare'', JStr ''average_duration_minutes'']), (''baseline_filters'', JObj [(''airport_trip'', JBool False)]), (''comparison_filters'', JObj [(''airport_trip'', JBool True)]), (''limit'', JInt 20)]),
      (''Which pickup zone has the longest average trip duration?'',
        ''aggregate_taxi_data'', [(''dimensions'', JArr [JStr ''pickup_zone'']), (''measures'', JArr [JStr ''average_duration_minutes'']), (''filters'', JNull), (''order_by'', JObj [(''key'', JStr ''average_duration_minutes''), (''direction'', JStr ''desc'')]), (''limit'', JInt 5)]),
      (''Compare average trip distance and fare amount across major pickup boroughs'',
        ''average_trip_metrics'', [(''region_name'', JNull)]),
      (''What is the breakdown of credit card vs cash payment types and average tips?'',
        ''aggregate_taxi_data'', [(''dimensions'', JArr [JStr ''payment_type'']), (''measures'', JArr [JStr ''trip_count'', JStr ''average_tip'']), (''filters'', JNull), (''order_by'', JNull), (''limit'', JInt 20)]),
      (''What is the average tip rate for credit card payments by pickup borough?'',
        ''aggregate_taxi_data'', [(''dimensions'', JArr [JStr ''pickup_borough'']), (''measures'', JArr [JStr ''tip_rate'']), (''filters'', JObj [(''payment_type'', JInt 1)]), (''order_by'', JNull), (''limit'', JInt 20)]),
      (''Which fare amount bucket has the most trips, and what is the median trip distance in that bucket?'',
        ''aggregate_taxi_data'', [(''dimensions'', JArr [JStr ''fare_amount_bucket'']), (''measures'', JArr [JStr ''trip_count'', JStr ''median_distance'']), (''filters'', JNull), (''order_by'', JObj [(''key'', JStr ''trip_count''), (''direction'', JStr ''desc'')]), (''limit'', JInt 20)]),
      (''What is the average fare and trip count by trip distance bucket?'',
        ''aggregate_taxi_data'', [(''dimensions'', JArr [JStr ''trip_distance_bucket'']), (''measures'', JArr [JStr ''average_fare'', JStr ''trip_count'']), (''filters'', JNull), (''order_by'', JNull), (''limit'', JInt 20)]),
      (''Compare Manhattan and Queens on trip count, average fare, and average tip'',
        ''compare_taxi_segments'', [(''comparison_mode'', JStr ''whole_segment''), (''measures'', JArr [JStr ''trip_count'', JStr ''average_fare'', JStr ''average_tip'']), (''baseline_filters'', JObj [(''pickup_borough'', JStr ''Manhattan'')]), (''comparison_filters'', JObj [(''pickup_borough'', JStr ''Queens'')]), (''limit'', JInt 20)]),
      (''Compare morning rush hour (7-10am) and evening rush hour (4-7pm) trip duration by borough'',
        ''compare_taxi_segments'', [(''segment_dimension'', JStr ''pickup_borough''), (''measures'', JArr [JStr ''average_duration_minutes'']), (''baseline_filters'', JObj [(''pickup_hour_min'', JInt 7), (''pickup_hour_max'', JInt 10)]), (''comparison_filters'', JObj [(''pickup_hour_min'', JInt 16), (''pickup_hour_max'', JInt 19)]), (''limit'', JInt 20)]),
      (''Which borough contributed most to the busiest pickup hour, and which zones inside it dominate?'',
        ''aggregate_taxi_data'', [(''dimensions'', JArr [JStr ''pickup_hour'', JStr ''pickup_borough'']), (''measures'', JArr [JStr ''trip_count'']), (''filters'', JNull), (''order_by'', JObj [(''key'', JStr ''trip_count''), (''direction'', JStr ''desc'')]), (''limit'', JInt 64)]),
      (''Compare the first and last complete weeks of the dataset on trip count and average fare'',
        ''compare_taxi_segments'', [(''segment_dimension'', JStr ''pickup_weekday''), (''measures'', JArr [JStr ''trip_count'', JStr ''average_fare'']), (''baseline_filters'', JObj [(''start_timestamp'', JStr ''2024-01-01T00:00:00''), (''end_timestamp'', JStr ''2024-01-08T00:00:00'')]), (''comparison_filters'', JObj [(''start_timestamp'', JStr ''2024-01-22T00:00:00''), (''end_timestamp'', JStr ''2024-01-29T00:00:00'')]), (''limit'', JInt 20)]),
      (''Compare pickup and dropoff borough distributions'',
        ''aggregate_taxi_data'', [(''dimensions'', JArr [JStr ''pickup_borough'', JStr ''dropoff_borough'']), (''measures'', JArr [JStr ''trip_count'']), (''filters'', JNull), (''order_by'', JNull), (''limit'', JInt 20)])]"

definition QUERY_CATALOGUE :: "(string, string \<times> jdict) odict" where
  "QUERY_CATALOGUE = fold (\<lambda>(question, entry) d. od_set (normalize_question question) entry d) RAW_CATALOGUE []"

definition MULTI_STEP_QUESTIONS :: "string list" where
  "MULTI_STEP_QUESTIONS = [normalize_question ''Which borough contributed most to the busiest pickup hour, and which zones inside it dominate?'']"

definition requires_multi_step_analysis :: "string \<Rightarrow> bool" where
  "requires_multi_step_analysis question =
     (let n = normalize_question question in
      n \<in> set MULTI_STEP_QUESTIONS
      \<or> (contains_at ''busiest'' n \<or> contains_at ''peak'' n) \<and> (contains_at ''which zones inside'' n \<or> contains_at ''zones dominate'' n))"

definition lookup :: "string \<Rightarrow> (string \<times> jdict) option" where
  "lookup question = map_of QUERY_CATALOGUE (normalize_question question)"

section \<open>Every entry is a call the checks accept\<close>

text \<open>The validators consult \<open>datetime.fromisoformat\<close> only on timestamp filters.\<close>

lemma check_filters_cong:
  assumes "\<And>k s. (k, JStr s) \<in> set fs \<Longrightarrow> map_of FILTER_KINDS k = Some K_timestamp \<Longrightarrow> pis s = pis' s"
  shows "check_filters pis (JObj fs) schema = check_filters pis' (JObj fs) schema"
proof -
  have ts: "parse_ts pis v = parse_ts pis' v" if "(k, v) \<in> set fs" "map_of FILTER_KINDS k = Some K_timestamp" for k v
    using assms that by (cases v) (simp_all add: parse_ts_def)
  then have "map (check_filter_value pis) fs = map (check_filter_value pis') fs"
    by (auto simp: check_filter_value_def check_kind_def split: option.split filter_kind.split)
  moreover have "timestamps_of pis fs = timestamps_of pis' fs" using ts
    unfolding timestamps_of_def by (intro arg_cong [where f = concat] map_cong refl) auto
  ultimately show ?thesis by (simp only: check_filters_def json.case)
qed

definition same_times :: "(string \<Rightarrow> timestamp option) \<Rightarrow> (string \<Rightarrow> timestamp option) \<Rightarrow> json \<Rightarrow> bool" where
  "same_times pis pis' v = (case v of
     JObj fs \<Rightarrow> list_all (\<lambda>(k, x). case x of JStr s \<Rightarrow> map_of FILTER_KINDS k = Some K_timestamp \<longrightarrow> pis s = pis' s | _ \<Rightarrow> True) fs
   | _ \<Rightarrow> True)"

lemma check_filters_same: "same_times pis pis' v \<Longrightarrow> check_filters pis v schema = check_filters pis' v schema"
proof (cases v)
  case (JObj fs)
  assume "same_times pis pis' v"
  then show ?thesis unfolding JObj by (intro check_filters_cong) (auto simp: same_times_def list_all_iff)
qed (simp_all add: check_filters_def)

lemma validate_proposal_same:
  assumes "same_times pis pis' (jget args ''filters'')" "same_times pis pis' (jget args ''baseline_filters'')"
    "same_times pis pis' (jget args ''comparison_filters'')"
  shows "validate_proposal pis tool (JObj args) schema n m = validate_proposal pis' tool (JObj args) schema n m"
proof -
  have side: "check_side pis args schema k = check_side pis' args schema k" if "same_times pis pis' (jget args k)" for k
    using that check_filters_same [of pis pis' "jget args k"] by (auto simp: check_side_def jget_def split: option.splits)
  have "validate_tool pis tool args schema = validate_tool pis' tool args schema"
    using check_filters_same [OF assms(1)] side [OF assms(2)] side [OF assms(3)]
    by (simp add: validate_tool_def validate_aggregate_def validate_compare_def)
  then show ?thesis by (simp add: validate_proposal_def Let_def)
qed

definition catalogue_iso :: "(string, timestamp) odict" where
  "catalogue_iso = [(''2024-01-01T00:00:00'', (2024, 1, 1, 0, 0, 0, 0)), (''2024-01-08T00:00:00'', (2024, 1, 8, 0, 0, 0, 0)),
     (''2024-01-22T00:00:00'', (2024, 1, 22, 0, 0, 0, 0)), (''2024-01-29T00:00:00'', (2024, 1, 29, 0, 0, 0, 0))]"

definition times_known :: "json \<Rightarrow> bool" where
  "times_known v = (case v of
     JObj fs \<Rightarrow> list_all (\<lambda>(k, x). case x of JStr s \<Rightarrow> map_of FILTER_KINDS k = Some K_timestamp \<longrightarrow> s \<in> set (od_keys catalogue_iso) | _ \<Rightarrow> True) fs
   | _ \<Rightarrow> True)"

definition entry_ok :: "string \<times> jdict \<Rightarrow> bool" where
  "entry_ok e \<longleftrightarrow> (case e of (tool, args) \<Rightarrow>
     times_known (jget args ''filters'') \<and> times_known (jget args ''baseline_filters'') \<and> times_known (jget args ''comparison_filters'') \<and>
     validate_tool (map_of catalogue_iso) tool args (Some [(''month'', JStr ''2024-01'')]) = Inr [] \<and> tool \<in> set GOVERNED_TOOLS)"

lemma raw_ok: "list_all (\<lambda>(_, e). entry_ok e) RAW_CATALOGUE"
  by code_simp

lemma catalogue_from_raw: "(k, e) \<in> set QUERY_CATALOGUE \<Longrightarrow> \<exists>q. (q, e) \<in> set RAW_CATALOGUE"
proof -
  have "(k, e) \<in> set (fold (\<lambda>(question, entry) d. od_set (normalize_question question) entry d) xs d) \<Longrightarrow>
    (k, e) \<in> set d \<or> (\<exists>q. (q, e) \<in> set xs)" for xs d
  proof (induction xs arbitrary: d)
    case (Cons x xs)
    then show ?case by (cases x) (fastforce dest: od_set_mem)
  qed simp
  then show "(k, e) \<in> set QUERY_CATALOGUE \<Longrightarrow> \<exists>q. (q, e) \<in> set RAW_CATALOGUE" unfolding QUERY_CATALOGUE_def by fastforce
qed

lemma times_known_same:
  assumes "\<And>s t. (s, t) \<in> set catalogue_iso \<Longrightarrow> pis s = Some t" "times_known v"
  shows "same_times pis (map_of catalogue_iso) v"
proof -
  have d: "distinct (od_keys catalogue_iso)" by (simp add: catalogue_iso_def)
  have "pis s = map_of catalogue_iso s" if "s \<in> set (od_keys catalogue_iso)" for s
    using that d assms(1) by (auto simp: map_of_eq_Some_iff)
  with assms(2) show ?thesis by (cases v) (auto simp: times_known_def same_times_def list_all_iff split: json.splits prod.splits)
qed

text \<open>
  C31. A catalogue hit is a valid call: whatever question matches, the entry's tool and arguments pass the
  pre-flight check without a violation for the dataset's month, as long as \<open>fromisoformat\<close> reads the four time
  stamps of the catalogue.
\<close>

theorem catalogue_calls_valid:
  assumes "lookup question = Some (tool, args)" "\<And>s t. (s, t) \<in> set catalogue_iso \<Longrightarrow> pis s = Some t" "0 < n"
  shows "validate_proposal pis tool (JObj args) (Some [(''month'', JStr ''2024-01'')]) 0 n = Inr \<lparr>violations = [], pv_outcome = ''tool_call''\<rparr>"
proof -
  from assms(1) have "(normalize_question question, tool, args) \<in> set QUERY_CATALOGUE" unfolding lookup_def by (rule map_of_SomeD)
  from catalogue_from_raw [OF this] raw_ok have e: "entry_ok (tool, args)" by (auto simp: list_all_iff)
  have "validate_proposal pis tool (JObj args) (Some [(''month'', JStr ''2024-01'')]) 0 n =
    validate_proposal (map_of catalogue_iso) tool (JObj args) (Some [(''month'', JStr ''2024-01'')]) 0 n"
    using e by (intro validate_proposal_same times_known_same assms(2)) (simp_all add: entry_ok_def)
  moreover have "tool \<noteq> [] \<and> tool \<notin> set NON_TOOL_OUTCOMES" using e by (auto simp: entry_ok_def GOVERNED_TOOLS_def NON_TOOL_OUTCOMES_def)
  ultimately show ?thesis using e assms(3) by (simp add: validate_proposal_def entry_ok_def)
qed

lemma lookup_last:
  assumes "RAW_CATALOGUE = xs @ [(q, e)]" "normalize_question question = normalize_question q"
  shows "lookup question = Some e"
  unfolding lookup_def QUERY_CATALOGUE_def assms by simp

lemma lookup_raw: "(q, e) \<in> set RAW_CATALOGUE \<Longrightarrow> lookup q \<noteq> None"
proof -
  have "map_of d k \<noteq> None \<or> (\<exists>q e. (q, e) \<in> set xs \<and> k = normalize_question q) \<Longrightarrow>
    map_of (fold (\<lambda>(question, entry) d. od_set (normalize_question question) entry d) xs d) k \<noteq> None" for xs d k
  proof (induction xs arbitrary: d)
    case (Cons x xs)
    show ?case
    proof (cases x)
      case (Pair a b)
      with Cons.prems have "map_of (od_set (normalize_question a) b d) k \<noteq> None \<or> (\<exists>q e. (q, e) \<in> set xs \<and> k = normalize_question q)" by auto
      from Cons.IH [OF this] Pair show ?thesis by simp
    qed
  qed simp
  then show "(q, e) \<in> set RAW_CATALOGUE \<Longrightarrow> lookup q \<noteq> None" unfolding lookup_def QUERY_CATALOGUE_def by metis
qed

definition last_arguments :: jdict where
  "last_arguments = [(''dimensions'', JArr [JStr ''pickup_borough'', JStr ''dropoff_borough'']), (''measures'', JArr [JStr ''trip_count'']), (''filters'', JNull),
     (''order_by'', JNull), (''limit'', JInt 20)]"

lemma raw_last: "RAW_CATALOGUE = butlast RAW_CATALOGUE @ [(''Compare pickup and dropoff borough distributions'', ''aggregate_taxi_data'', last_arguments)]"
proof -
  have "last RAW_CATALOGUE = (''Compare pickup and dropoff borough distributions'', ''aggregate_taxi_data'', last_arguments)" "RAW_CATALOGUE \<noteq> []"
    by (simp_all add: RAW_CATALOGUE_def last_arguments_def)
  then show ?thesis by (metis append_butlast_last_id)
qed

theorem catalogue_calls_valid_witness:
  "case lookup '' Compare pickup  and dropoff borough DISTRIBUTIONS '' of None \<Rightarrow> False | Some (tool, args) \<Rightarrow>
     validate_proposal (map_of catalogue_iso) tool (JObj args) (Some [(''month'', JStr ''2024-01'')]) 0 4
       = Inr \<lparr>violations = [], pv_outcome = ''tool_call''\<rparr>"
proof -
  have "normalize_question '' Compare pickup  and dropoff borough DISTRIBUTIONS '' =
    normalize_question ''Compare pickup and dropoff borough distributions''" by code_simp
  note h = lookup_last [OF raw_last this]
  have "map_of catalogue_iso s = Some t" if "(s, t) \<in> set catalogue_iso" for s t
    using that by (intro map_of_is_SomeI) (simp add: catalogue_iso_def)
  from catalogue_calls_valid [OF h this, where n = 4] h show ?thesis by simp
qed

text \<open>
  One entry is never used: its question is one that requires several analyses, which the loop asks before
  it looks into the catalogue.
\<close>

lemma multi_step_entry_shadowed:
  "\<exists>question. lookup question \<noteq> None \<and> requires_multi_step_analysis question"
proof -
  let ?q = "''Which borough contributed most to the busiest pickup hour, and which zones inside it dominate?''"
  have "?q \<in> fst ` set RAW_CATALOGUE" by (simp add: RAW_CATALOGUE_def)
  then have "lookup ?q \<noteq> None" using lookup_raw by auto
  moreover have "requires_multi_step_analysis ?q" by (simp add: requires_multi_step_analysis_def MULTI_STEP_QUESTIONS_def Let_def)
  ultimately show ?thesis by blast
qed

end
