(* ===== verification/App_Context.thy ===== *)
theory App_Context
  imports App_State App_Budget Qry_Analytics
begin

text \<open>
  The context reducer (\<open>services/app/app/orchestration/reducer.py\<close>): what of a conversation, of a tool result and
  of the budgets a model is shown. \<open>str\<close> of a JSON value that is not a text or a number is the argument
  \<open>str_of\<close>.
\<close>

definition DEFAULT_RECENT_TURNS_WINDOW :: int where "DEFAULT_RECENT_TURNS_WINDOW = 2"
definition MAX_PREVIEW_ROWS :: nat where "MAX_PREVIEW_ROWS = 3"

text \<open>\<open>xs[:i]\<close> and \<open>xs[i:]\<close>; a negative index counts from the end.\<close>

definition py_bound :: "int \<Rightarrow> nat \<Rightarrow> nat" where
  "py_bound i n = (if i < 0 then nat (int n + i) else min (nat i) n)"

definition py_head :: "int \<Rightarrow> 'a list \<Rightarrow> 'a list" where
  "py_head i xs = take (py_bound i (length xs)) xs"

definition py_tail :: "int \<Rightarrow> 'a list \<Rightarrow> 'a list" where
  "py_tail i xs = drop (py_bound i (length xs)) xs"

definition summarize_message :: "message \<Rightarrow> string" where
  "summarize_message m =
     (let preview = map (\<lambda>c. if c = CHR 0x0A then CHR '' '' else c) (py_strip (ms_content m));
          preview' = (if length preview > 60 then take 57 preview @ ''...'' else preview)
      in ms_role m @ '': '' @ preview')"

definition summarize_messages :: "message list \<Rightarrow> string" where
  "summarize_messages ms = (if ms = [] then [] else py_join '' | '' (map summarize_message ms))"

datatype reduce_exn = No_len

definition py_len :: "json \<Rightarrow> reduce_exn + int" where
  "py_len v = (case v of JArr xs \<Rightarrow> Inr (int (length xs)) | JObj d \<Rightarrow> Inr (int (length d)) | JStr s \<Rightarrow> Inr (int (length s)) | _ \<Rightarrow> Inl No_len)"

record tool_preview =
  tv_query_id :: string
  tv_columns :: json
  tv_row_count :: json
  tv_preview_rows :: "json list"
  tv_artifact_ref :: string
  tv_duration_ms :: json

definition py_str :: "(json \<Rightarrow> string) \<Rightarrow> json \<Rightarrow> string" where
  "py_str str_of v = (case v of JStr s \<Rightarrow> s | JInt i \<Rightarrow> show_int i | JFloat _ r \<Rightarrow> r | _ \<Rightarrow> str_of v)"

definition sanitize_and_preview_tool_result :: "(json \<Rightarrow> string) \<Rightarrow> jdict \<Rightarrow> nat \<Rightarrow> reduce_exn + tool_preview" where
  "sanitize_and_preview_tool_result str_of result max_rows =
     (let rows = jget_or result ''rows'' (JArr []); query_id = py_str str_of (jget_or result ''query_id'' (JStr ''unknown'')) in
      try_bind (py_len rows) (\<lambda>n.
      Inr \<lparr>tv_query_id = query_id, tv_columns = jget_or result ''columns'' (JArr []),
           tv_row_count = jget_or result ''row_count'' (JInt n),
           tv_preview_rows = (case rows of JArr xs \<Rightarrow> take max_rows xs | _ \<Rightarrow> []),
           tv_artifact_ref = ''artifact://nyc-taxi/queries/'' @ query_id,
           tv_duration_ms = jget_or result ''execution_duration_ms'' (JInt 0)\<rparr>))"

record remaining_budget =
  rem_current_iteration :: int
  rem_iterations :: int
  rem_tool_calls :: int
  rem_llm_calls :: int
  rem_input_tokens :: int
  rem_cost_usd :: pyfloat
  rem_budgets :: execution_budgets

definition round6 :: "pyfloat \<Rightarrow> pyfloat" where
  "round6 x = of_int (py_round (x * 1000000)) / 1000000"

definition remaining_of :: "execution_budgets \<Rightarrow> budget_tracker option \<Rightarrow> remaining_budget" where
  "remaining_of b tracker = (case tracker of
     Some t \<Rightarrow> \<lparr>rem_current_iteration = iteration_count t, rem_iterations = max 0 (max_iterations b - iteration_count t),
        rem_tool_calls = max 0 (max_tool_calls b - tool_call_count t), rem_llm_calls = max 0 (max_llm_calls b - llm_call_count t),
        rem_input_tokens = max 0 (max_input_tokens b - bt_input_tokens t),
        rem_cost_usd = round6 (max 0 (max_estimated_cost_usd b - estimated_cost_usd t)), rem_budgets = b\<rparr>
   | None \<Rightarrow> \<lparr>rem_current_iteration = 1, rem_iterations = max_iterations b, rem_tool_calls = max_tool_calls b,
        rem_llm_calls = max_llm_calls b, rem_input_tokens = max_input_tokens b,
        rem_cost_usd = round6 (max_estimated_cost_usd b), rem_budgets = b\<rparr>)"

record working_context =
  wc_summary :: "string option"
  wc_current_user_message :: string
  wc_recent :: "message list"
  wc_tools :: "string list"
  wc_schema :: jdict
  wc_observations :: "tool_preview list"
  wc_assumptions :: "string list"
  wc_artifacts :: "string list"
  wc_failures :: "string list"
  wc_remaining :: remaining_budget
  wc_stored_count :: nat
  wc_included_count :: nat
  wc_schema_bytes :: nat

text \<open>The position of the current message among the stored ones, and the others (\<open>m is not current_message\<close>).\<close>

definition current_position :: "string \<Rightarrow> message list \<Rightarrow> string option \<Rightarrow> nat option" where
  "current_position current_prompt stored current_id = (case current_id of
     Some i \<Rightarrow> find (\<lambda>n. ms_id (stored ! n) = i) [0..<length stored]
   | None \<Rightarrow> if stored \<noteq> [] \<and> ms_role (last stored) = ''user'' \<and> ms_content (last stored) = current_prompt
       then Some (length stored - 1) else None)"

definition historical_messages :: "message list \<Rightarrow> nat option \<Rightarrow> message list" where
  "historical_messages stored pos = (case pos of None \<Rightarrow> stored | Some n \<Rightarrow> take n stored @ drop (Suc n) stored)"

definition split_history :: "int \<Rightarrow> message list \<Rightarrow> string option \<times> message list" where
  "split_history window history =
     (let max_recent = window * 2 in
      if int (length history) > max_recent
      then (Some (summarize_messages (py_head (- max_recent) history)), py_tail (- max_recent) history)
      else (None, history))"

definition reduce :: "(json \<Rightarrow> string) \<Rightarrow> int \<Rightarrow> string \<Rightarrow> message list \<Rightarrow> string option \<Rightarrow> jdict \<Rightarrow> jdict list \<Rightarrow> string list
    \<Rightarrow> string list \<Rightarrow> string list \<Rightarrow> budget_tracker option \<Rightarrow> execution_budgets option \<Rightarrow> reduce_exn + working_context" where
  "reduce str_of window current_prompt stored current_id schema observations available_tools failures assumptions tracker b =
     (let pos = current_position current_prompt stored current_id;
          (summary, recent) = split_history window (historical_messages stored pos) in
      try_bind (try_map (\<lambda>ob. sanitize_and_preview_tool_result str_of ob MAX_PREVIEW_ROWS) observations) (\<lambda>reduced.
      Inr \<lparr>wc_summary = summary,
        wc_current_user_message = (case pos of Some n \<Rightarrow> ms_content (stored ! n) | None \<Rightarrow> current_prompt),
        wc_recent = recent, wc_tools = (if available_tools = [] then [''query_taxi_data''] else available_tools),
        wc_schema = schema, wc_observations = reduced, wc_assumptions = assumptions,
        wc_artifacts = map tv_artifact_ref reduced, wc_failures = failures,
        wc_remaining = remaining_of (case b of None \<Rightarrow> default_budgets | Some x \<Rightarrow> x) tracker,
        wc_stored_count = length stored, wc_included_count = length recent + 1,
        wc_schema_bytes = length (json_compact (JObj schema))\<rparr>))"

section \<open>What is shown and what is summarised\<close>

lemma head_tail: "py_head i xs @ py_tail i xs = xs"
  by (simp add: py_head_def py_tail_def)

lemma position_bound: "current_position p stored i = Some n \<Longrightarrow> n < length stored"
  by (auto simp: current_position_def find_Some_iff split: option.splits if_splits)

lemma history_length:
  "length (historical_messages stored pos) = length stored - (if pos = None then 0 else 1)"
  if "\<And>n. pos = Some n \<Longrightarrow> n < length stored"
  using that by (auto simp: historical_messages_def split: option.splits)

lemma history_mset:
  assumes "n < length stored"
  shows "mset stored = add_mset (stored ! n) (mset (historical_messages stored (Some n)))"
proof -
  have "stored = take n stored @ stored ! n # drop (Suc n) stored" using assms by (rule id_take_nth_drop)
  then have "mset stored = mset (take n stored @ stored ! n # drop (Suc n) stored)" by simp
  then show ?thesis by (simp add: historical_messages_def)
qed

lemma recent_bounded:
  assumes "0 < window" "split_history window history = (summary, recent)"
  shows "length recent \<le> nat (2 * window) \<and>
    (\<exists>older. history = older @ recent \<and> summary = (if older = [] then None else Some (summarize_messages older)))"
proof (cases "int (length history) > window * 2")
  case True
  with assms have s: "summary = Some (summarize_messages (py_head (- (window * 2)) history))" "recent = py_tail (- (window * 2)) history"
    by (auto simp: split_history_def Let_def)
  have "length recent \<le> nat (2 * window)" "py_head (- (window * 2)) history \<noteq> []"
    using True assms(1) by (auto simp: s py_tail_def py_head_def py_bound_def)
  with s head_tail [of "- (window * 2)" history] show ?thesis by metis
next
  case False
  with assms have "summary = None" "recent = history" by (auto simp: split_history_def Let_def)
  with False assms(1) show ?thesis by simp
qed

lemma preview_rows_bounded:
  "sanitize_and_preview_tool_result str_of r n = Inr v \<Longrightarrow> length (tv_preview_rows v) \<le> n"
  by (auto simp: sanitize_and_preview_tool_result_def Let_def split: json.splits)

lemma reduce_fields:
  assumes "reduce str_of window prompt stored cid schema obs tools fails assum tracker b = Inr ctx"
  shows "split_history window (historical_messages stored (current_position prompt stored cid)) = (wc_summary ctx, wc_recent ctx)"
    "wc_included_count ctx = length (wc_recent ctx) + 1" "wc_stored_count ctx = length stored"
    "try_map (\<lambda>ob. sanitize_and_preview_tool_result str_of ob MAX_PREVIEW_ROWS) obs = Inr (wc_observations ctx)"
    "wc_current_user_message ctx = (case current_position prompt stored cid of Some n \<Rightarrow> ms_content (stored ! n) | None \<Rightarrow> prompt)"
  using assms by (auto simp: reduce_def Let_def split: prod.splits)

text \<open>
  The model is shown a bounded context that loses nothing silently: of the stored messages every one
  is the current question, or among the at most \<open>2 * window\<close> most recent others, shown in full and in
  order, or older than those and then in the summary, in order; the current question is not repeated
  among them, and of each tool result at most three rows are shown.
\<close>

theorem context_accounts_for_history:
  assumes "reduce str_of window prompt stored cid schema obs tools fails assum tracker b = Inr ctx" "0 < window"
  shows "\<exists>older. historical_messages stored (current_position prompt stored cid) = older @ wc_recent ctx \<and>
    mset stored = mset older + mset (wc_recent ctx) +
      (case current_position prompt stored cid of None \<Rightarrow> {#} | Some n \<Rightarrow> {#stored ! n#}) \<and>
    wc_summary ctx = (if older = [] then None else Some (py_join '' | '' (map summarize_message older))) \<and>
    wc_included_count ctx \<le> nat (2 * window) + 1 \<and> length (wc_observations ctx) = length obs \<and>
    list_all (\<lambda>v. length (tv_preview_rows v) \<le> 3) (wc_observations ctx)"
proof -
  note f = reduce_fields [OF assms(1)]
  let ?pos = "current_position prompt stored cid"
  obtain older where o: "historical_messages stored ?pos = older @ wc_recent ctx"
    "wc_summary ctx = (if older = [] then None else Some (summarize_messages older))" "length (wc_recent ctx) \<le> nat (2 * window)"
    using recent_bounded [OF assms(2) f(1)] by blast
  have m: "mset stored = mset (historical_messages stored ?pos) + (case ?pos of None \<Rightarrow> {#} | Some n \<Rightarrow> {#stored ! n#})"
  proof (cases ?pos)
    case (Some n)
    with history_mset [OF position_bound [OF Some]] show ?thesis by simp
  qed (simp add: historical_messages_def)
  have v: "length (tv_preview_rows x) \<le> 3" if "x \<in> set (wc_observations ctx)" for x
    using try_map_set [OF f(4) that] preview_rows_bounded by (fastforce simp: MAX_PREVIEW_ROWS_def)
  show ?thesis
    using o f(2) m v try_map_length [OF f(4)]
    by (intro exI [of _ older]) (auto simp: summarize_messages_def list_all_iff)
qed

definition demo_history :: "message list" where
  "demo_history = map (\<lambda>n. \<lparr>ms_id = show_nat n, ms_conversation_id = ''c'', ms_sequence = int n, ms_role = ''user'',
     ms_content = ''question '' @ show_nat n, ms_created_at = [], ms_metadata = []\<rparr>) [1, 2, 3, 4, 5, 6]"

theorem context_accounts_for_history_witness:
  "case reduce (\<lambda>_. []) DEFAULT_RECENT_TURNS_WINDOW ''question 6'' demo_history (Some ''6'') [] [] [] [] [] None None of
     Inl _ \<Rightarrow> False
   | Inr ctx \<Rightarrow> wc_included_count ctx \<le> 5 \<and> length (wc_observations ctx) = 0 \<and> wc_summary ctx = Some ''user: question 1''"
proof -
  let ?r = "reduce (\<lambda>_. []) DEFAULT_RECENT_TURNS_WINDOW ''question 6'' demo_history (Some ''6'') [] [] [] [] [] None None"
  obtain ctx where r: "?r = Inr ctx" by (cases ?r) (auto simp: reduce_def Let_def case_prod_unfold)
  have "map_sum (\<lambda>_. ()) wc_summary ?r = Inr (Some ''user: question 1'')" by code_simp
  then have "wc_summary ctx = Some ''user: question 1''" by (simp add: r)
  moreover have "0 < DEFAULT_RECENT_TURNS_WINDOW" by (simp add: DEFAULT_RECENT_TURNS_WINDOW_def)
  from context_accounts_for_history [OF r this] have "wc_included_count ctx \<le> 5" "length (wc_observations ctx) = 0"
    by (auto simp: DEFAULT_RECENT_TURNS_WINDOW_def)
  ultimately show ?thesis unfolding r sum.case by blast
qed

section \<open>Where the bounds do not hold\<close>

text \<open>
  The text of each summarised message is bounded, the summary is not: it grows with the number of
  messages. And a window of no turns shows every message, since \<open>-0\<close> is not counted from the end.
\<close>

lemma summarize_message_length: "length (summarize_message m) \<le> length (ms_role m) + 62"
  by (simp add: summarize_message_def Let_def)

lemma summary_grows: "3 * (length ms - 1) \<le> length (summarize_messages ms)"
proof (cases "ms = []")
  case False
  then have "3 * (length ms - 1) \<le> length (py_join '' | '' (map summarize_message ms))"
  proof (induction ms rule: list_nonempty_induct)
    case (cons x xs)
    then show ?case by (cases xs) (auto simp: py_join_Cons)
  qed simp
  with False show ?thesis by (simp add: summarize_messages_def)
qed simp

lemma empty_window_shows_all:
  assumes "history \<noteq> []"
  shows "split_history 0 history = (Some [], history)"
  using assms by (simp add: split_history_def py_head_def py_tail_def py_bound_def summarize_messages_def)

end
