(* ===== verification/App_Events.thy ===== *)
theory App_Events
  imports App_State
begin

text \<open>
  Run events (\<open>services/app/app/events/models.py\<close>), the in-memory publisher (\<open>events/publisher.py\<close>) and the stream
  of server-sent events of a run or job (\<open>routers/events.py\<close>).

  The JSON text of a payload is \<open>dumps\<close>, its inverse \<open>loads\<close>; what the code relies on is that \<open>loads\<close> undoes
  \<open>dumps\<close>. Redis is a sequence of answers to \<open>xread\<close>; a failed read is \<open>None\<close>.
\<close>

section \<open>Events and their encoding\<close>

record run_event =
  ev_id :: string
  ev_type :: string
  ev_run_id :: string
  ev_conversation_id :: string
  ev_sequence :: int
  ev_payload :: pydict
  ev_step_id :: "string option"
  ev_llm_call_id :: "string option"
  ev_tool_call_id :: "string option"
  ev_query_id :: "string option"
  ev_timestamp :: string
  ev_eval_run_id :: "string option"

definition opt_field :: "string \<Rightarrow> string option \<Rightarrow> (string, string) odict" where
  "opt_field k v = (case v of Some x \<Rightarrow> if x \<noteq> [] then [(k, x)] else [] | None \<Rightarrow> [])"

definition event_to_dict :: "(pydict \<Rightarrow> string) \<Rightarrow> run_event \<Rightarrow> (string, string) odict" where
  "event_to_dict dumps e =
     [(''event_id'', ev_id e), (''event_type'', ev_type e), (''run_id'', ev_run_id e), (''conversation_id'', ev_conversation_id e),
      (''sequence'', show_int (ev_sequence e)), (''timestamp'', ev_timestamp e), (''payload'', dumps (ev_payload e))]
     @ opt_field ''step_id'' (ev_step_id e) @ opt_field ''llm_call_id'' (ev_llm_call_id e)
     @ opt_field ''tool_call_id'' (ev_tool_call_id e) @ opt_field ''query_id'' (ev_query_id e)
     @ opt_field ''eval_run_id'' (ev_eval_run_id e)"

definition text_of :: "(string, string) odict \<Rightarrow> string \<Rightarrow> string" where
  "text_of d k = (case map_of d k of None \<Rightarrow> [] | Some s \<Rightarrow> s)"

definition event_from_dict :: "(string \<Rightarrow> pydict option) \<Rightarrow> (string, string) odict \<Rightarrow> py_exn + run_event" where
  "event_from_dict loads d =
     try_bind (case map_of d ''sequence'' of None \<Rightarrow> Inr 0 | Some s \<Rightarrow> int_of s) (\<lambda>sq.
     Inr \<lparr>ev_id = text_of d ''event_id'', ev_type = text_of d ''event_type'', ev_run_id = text_of d ''run_id'',
       ev_conversation_id = text_of d ''conversation_id'', ev_sequence = sq,
       ev_payload = (case loads (case map_of d ''payload'' of None \<Rightarrow> [CHR 0x7B, CHR 0x7D] | Some s \<Rightarrow> s) of None \<Rightarrow> [] | Some p \<Rightarrow> p),
       ev_step_id = map_of d ''step_id'', ev_llm_call_id = map_of d ''llm_call_id'', ev_tool_call_id = map_of d ''tool_call_id'',
       ev_query_id = map_of d ''query_id'', ev_timestamp = text_of d ''timestamp'', ev_eval_run_id = map_of d ''eval_run_id''\<rparr>)"

definition opt_val :: "string option \<Rightarrow> pyval" where
  "opt_val v = (case v of None \<Rightarrow> PNone | Some x \<Rightarrow> PStr x)"

definition event_to_sse :: "(pydict \<Rightarrow> string) \<Rightarrow> run_event \<Rightarrow> string" where
  "event_to_sse dumps e =
     (let envelope = [(''event_id'', PStr (ev_id e)), (''event_type'', PStr (ev_type e)), (''run_id'', PStr (ev_run_id e)),
            (''conversation_id'', PStr (ev_conversation_id e)), (''sequence'', PInt (ev_sequence e)), (''step_id'', opt_val (ev_step_id e)),
            (''llm_call_id'', opt_val (ev_llm_call_id e)), (''tool_call_id'', opt_val (ev_tool_call_id e)),
            (''query_id'', opt_val (ev_query_id e)), (''timestamp'', PStr (ev_timestamp e)), (''payload'', PDict (ev_payload e))]
          @ (case ev_eval_run_id e of Some x \<Rightarrow> if x \<noteq> [] then [(''eval_run_id'', PStr x)] else [] | None \<Rightarrow> [])
      in ''id: '' @ ev_id e @ [CHR 0x0A] @ ''event: '' @ ev_type e @ [CHR 0x0A] @ ''data: '' @ dumps envelope @ [CHR 0x0A, CHR 0x0A])"

definition pget_or :: "pydict \<Rightarrow> string \<Rightarrow> pyval \<Rightarrow> pyval" where
  "pget_or d k dflt = (case map_of d k of None \<Rightarrow> dflt | Some v \<Rightarrow> v)"

abbreviation pget :: "pydict \<Rightarrow> string \<Rightarrow> pyval" where
  "pget d k \<equiv> pget_or d k PNone"

definition context_reduced_payload :: "string option \<Rightarrow> pyval \<Rightarrow> pyval \<Rightarrow> pydict" where
  "context_reduced_payload query_id row_count working_context =
     [(''query_id'', opt_val query_id), (''row_count'', row_count), (''working_context'', working_context)]"

definition set_given :: "string \<Rightarrow> pyval \<Rightarrow> pydict \<Rightarrow> pydict" where
  "set_given k v d = (if v = PNone then d else od_set k v d)"

definition terminal_run_payload ::
  "string \<Rightarrow> int \<Rightarrow> int \<Rightarrow> pyfloat \<Rightarrow> string option \<Rightarrow> pydict \<Rightarrow> pyval \<Rightarrow> pyval \<Rightarrow> pyval \<Rightarrow> pyval \<Rightarrow> pyval \<Rightarrow> pydict" where
  "terminal_run_payload status input_tokens output_tokens cost failure_code telemetry reason retryable error provider_error tool_error =
     set_given ''tool_error'' tool_error (set_given ''provider_error'' provider_error (set_given ''error'' error
       (set_given ''retryable'' retryable (set_given ''reason'' reason
         (fold (\<lambda>(k, v) d. od_set k v d) telemetry
           [(''status'', PStr status), (''input_tokens'', PInt input_tokens), (''output_tokens'', PInt output_tokens),
            (''total_tokens'', PInt (input_tokens + output_tokens)), (''estimated_cost_usd'', PFloat cost),
            (''failure_code'', opt_val failure_code), (''latency_ms'', pget telemetry ''end_to_end_latency_ms''),
            (''telemetry'', PDict telemetry)])))))"

section \<open>The stream of a run\<close>

definition DECLINE_OUTCOMES :: "string list" where
  "DECLINE_OUTCOMES = [''unsupported'', ''clarification_required'', ''no_tool'', ''no_visible_output'']"

definition HEARTBEAT_INTERVAL_SECONDS :: pyfloat where "HEARTBEAT_INTERVAL_SECONDS = 15"
definition MAX_STREAM_WAIT_SECONDS :: pyfloat where "MAX_STREAM_WAIT_SECONDS = 60"

definition RUN_TERMINAL_EVENTS :: "string list" where
  "RUN_TERMINAL_EVENTS = [''run.completed'', ''run.failed'', ''run.budget_exceeded'', ''run.cancelled'']"

definition RUN_TERMINAL_STATUS :: "string list" where
  "RUN_TERMINAL_STATUS = [''completed'', ''budget_exceeded'', ''failed'', ''cancelled'']"

datatype frame = F_event run_event | F_heartbeat

record sse_state =
  ss_emitted :: "string list"
  ss_out :: "frame list"
  ss_terminal :: bool
  ss_stream_id :: string
  ss_client :: bool
  ss_heartbeat :: pyfloat

text \<open>What the generator meets in one iteration of its loop.\<close>

record sse_input =
  si_disconnected :: bool
  si_batch :: "(string \<times> (string, string) odict) list option"
  si_run :: "run option"
  si_job :: "job option"
  si_steps :: "run_step list"
  si_memory :: "run_event list option"
  si_ids :: "nat \<Rightarrow> string"
  si_stamp :: string
  si_now :: pyfloat

definition sse_start :: "string option \<Rightarrow> bool \<Rightarrow> pyfloat \<Rightarrow> sse_state" where
  "sse_start last_event_id client now =
     (let lid = (case last_event_id of None \<Rightarrow> ''0-0'' | Some s \<Rightarrow> if s = [] then ''0-0'' else s) in
      \<lparr>ss_emitted = [], ss_out = [], ss_terminal = False, ss_stream_id = (if CHR ''-'' \<in> set lid then lid else ''0-0''),
       ss_client = client, ss_heartbeat = now\<rparr>)"

text \<open>\<open>if evt.event_id not in emitted_event_ids: add, yield\<close>.\<close>

definition emit_once :: "run_event \<Rightarrow> sse_state \<Rightarrow> sse_state" where
  "emit_once e s = (if ev_id e \<in> set (ss_emitted s) then s
     else s\<lparr>ss_emitted := ev_id e # ss_emitted s, ss_out := ss_out s @ [F_event e]\<rparr>)"

fun read_batch ::
  "(string \<Rightarrow> pydict option) \<Rightarrow> string \<Rightarrow> (string \<times> (string, string) odict) list \<Rightarrow> bool \<Rightarrow> sse_state \<Rightarrow> bool \<times> sse_state" where
  "read_batch loads run_id [] found s = (found, s)"
| "read_batch loads run_id ((msg_id, raw) # ms) found s =
     (let s1 = s\<lparr>ss_stream_id := msg_id\<rparr> in
      if map_of raw ''run_id'' \<noteq> Some run_id then read_batch loads run_id ms found s1
      else case event_from_dict loads raw of
        Inl _ \<Rightarrow> (found, s1\<lparr>ss_client := False\<rparr>)
      | Inr e \<Rightarrow>
          if ev_id e \<in> set (ss_emitted s1) then read_batch loads run_id ms found s1
          else if ev_type e \<in> set RUN_TERMINAL_EVENTS then (True, (emit_once e s1)\<lparr>ss_terminal := True\<rparr>)
          else read_batch loads run_id ms True (emit_once e s1))"

text \<open>The events of a run rebuilt from its durable steps; \<open>n\<close> counts the generated identifiers.\<close>

definition rebuilt :: "sse_input \<Rightarrow> string \<Rightarrow> run \<Rightarrow> nat \<Rightarrow> int \<Rightarrow> string \<Rightarrow> pydict \<Rightarrow> run_event" where
  "rebuilt i run_id r n sq etype payload =
     \<lparr>ev_id = si_ids i n, ev_type = etype, ev_run_id = run_id, ev_conversation_id = rn_conversation_id r, ev_sequence = sq,
      ev_payload = payload, ev_step_id = None, ev_llm_call_id = None, ev_tool_call_id = None, ev_query_id = None,
      ev_timestamp = si_stamp i, ev_eval_run_id = None\<rparr>"

definition opt_int :: "int option \<Rightarrow> pyval" where
  "opt_int v = (case v of None \<Rightarrow> PNone | Some n \<Rightarrow> PInt n)"

definition is_declined :: "run_step \<Rightarrow> bool" where
  "is_declined st \<longleftrightarrow> st_step_type st = ''answer'' \<and>
     (case pget (st_metadata st) ''outcome'' of PStr o' \<Rightarrow> o' \<in> set DECLINE_OUTCOMES | _ \<Rightarrow> False)"

definition declined_event :: "sse_input \<Rightarrow> string \<Rightarrow> run \<Rightarrow> nat \<Rightarrow> int \<Rightarrow> run_step \<Rightarrow> run_event" where
  "declined_event i run_id r n sq st = rebuilt i run_id r n sq ''run.declined''
     [(''outcome'', pget (st_metadata st) ''outcome''), (''reason'', pget (st_metadata st) ''reason''),
      (''tool_source'', pget (st_metadata st) ''tool_source'')]"

definition step_event :: "sse_input \<Rightarrow> string \<Rightarrow> run \<Rightarrow> nat \<Rightarrow> int \<Rightarrow> run_step \<Rightarrow> run_event" where
  "step_event i run_id r n sq st =
     (rebuilt i run_id r n sq
        (if st_step_type st = ''context_reduced'' then ''context.reduced'' else ''step.'' @ st_step_type st)
        (if st_step_type st = ''context_reduced''
         then context_reduced_payload (st_query_id st) (pget (st_metadata st) ''row_count'') (pget_or (st_metadata st) ''working_context'' (PDict []))
         else [(''status'', PStr (st_status st)), (''input_summary'', opt_val (st_input_summary st)),
               (''output_summary'', opt_val (st_output_summary st)), (''duration_ms'', opt_int (st_duration_ms st)),
               (''metadata'', PDict (st_metadata st))]))
     \<lparr>ev_step_id := Some (st_id st), ev_llm_call_id := st_llm_call_id st, ev_tool_call_id := st_tool_call_id st,
      ev_query_id := st_query_id st\<rparr>"

fun step_events :: "sse_input \<Rightarrow> string \<Rightarrow> run \<Rightarrow> nat \<Rightarrow> int \<Rightarrow> run_step list \<Rightarrow> run_event list \<times> nat \<times> int" where
  "step_events i run_id r n sq [] = ([], n, sq)"
| "step_events i run_id r n sq (st # sts) =
     (let declined = (if is_declined st then [declined_event i run_id r n (sq + 1) st] else []);
          k = length declined;
          ev = step_event i run_id r (n + k) (sq + int k + 1) st;
          (evs, n', sq') = step_events i run_id r (n + k + 1) (sq + int k + 1) sts
      in (declined @ ev # evs, n', sq'))"

definition telemetry_of :: "run \<Rightarrow> pydict" where
  "telemetry_of r = (case pget_or (rn_metadata r) ''telemetry'' (PDict []) of PDict d \<Rightarrow> d | _ \<Rightarrow> [])"

definition rebuild_run :: "sse_input \<Rightarrow> string \<Rightarrow> run \<Rightarrow> run_event list" where
  "rebuild_run i run_id r =
     (let received = rebuilt i run_id r 0 1 ''run.received'' [(''status'', PStr ''in_progress'')];
          (evs, n, sq) = step_events i run_id r 1 1 (si_steps i);
          md = pget (rn_metadata r);
          final = rebuilt i run_id r n (sq + 1) (''run.'' @ rn_status r)
            (terminal_run_payload (rn_status r) (rn_input_tokens r) (rn_output_tokens r) (rn_estimated_cost_usd r) (rn_failure_code r)
               (telemetry_of r) (md ''reason'') (md ''retryable'') (md ''error'') (md ''provider_error'') (md ''tool_error''))
      in received # evs @ [final])"

definition rebuild_job :: "sse_input \<Rightarrow> string \<Rightarrow> job \<Rightarrow> run_event" where
  "rebuild_job i run_id j =
     \<lparr>ev_id = si_ids i 0, ev_type = (if jb_status j = ''COMPLETED'' then ''job.completed'' else ''job.failed''), ev_run_id = run_id,
      ev_conversation_id = (case pget (jb_params j) ''conversation_id'' of PStr c \<Rightarrow> c | _ \<Rightarrow> run_id), ev_sequence = 1,
      ev_payload = [(''job_id'', PStr (jb_id j)), (''status'', PStr (jb_status j)), (''artifact_url'', opt_val (jb_artifact_url j)),
        (''error'', opt_val (jb_error j))],
      ev_step_id = None, ev_llm_call_id = None, ev_tool_call_id = None, ev_query_id = None, ev_timestamp = si_stamp i, ev_eval_run_id = None\<rparr>"

text \<open>The fallback: \<open>Some\<close> the state in which the loop is left, or \<open>None\<close> when nothing is final yet.\<close>

definition replay_memory :: "string \<Rightarrow> run_event list \<Rightarrow> sse_state \<Rightarrow> sse_state" where
  "replay_memory run_id evs s = fold (\<lambda>e s. if ev_id e \<in> set (ss_emitted s) then s
     else (emit_once e s)\<lparr>ss_terminal := ss_terminal s \<or> ev_type e \<in> set RUN_TERMINAL_EVENTS\<rparr>)
     (filter (\<lambda>e. ev_run_id e = run_id) evs) s"

definition fallback :: "string \<Rightarrow> sse_input \<Rightarrow> sse_state \<Rightarrow> sse_state option" where
  "fallback run_id i s =
     (case si_run i of
        Some r \<Rightarrow> if rn_status r \<in> set RUN_TERMINAL_STATUS
          then (let s1 = (case si_memory i of None \<Rightarrow> s | Some evs \<Rightarrow> replay_memory run_id evs s) in
                if si_memory i \<noteq> None \<and> ss_terminal s1 then Some s1
                else Some ((fold emit_once (rebuild_run i run_id r) s1)\<lparr>ss_terminal := True\<rparr>))
          else (case si_job i of Some j \<Rightarrow> if jb_status j = ''COMPLETED'' \<or> jb_status j = ''FAILED''
                  then Some ((emit_once (rebuild_job i run_id j) s)\<lparr>ss_terminal := True\<rparr>) else None | None \<Rightarrow> None)
      | None \<Rightarrow> (case si_job i of Some j \<Rightarrow> if jb_status j = ''COMPLETED'' \<or> jb_status j = ''FAILED''
                  then Some ((emit_once (rebuild_job i run_id j) s)\<lparr>ss_terminal := True\<rparr>) else None | None \<Rightarrow> None))"

text \<open>One iteration; the flag says that the loop is left.\<close>

definition sse_iter :: "(string \<Rightarrow> pydict option) \<Rightarrow> string \<Rightarrow> pyfloat \<Rightarrow> sse_input \<Rightarrow> sse_state \<Rightarrow> bool \<times> sse_state" where
  "sse_iter loads run_id start i s =
     (if ss_terminal s \<or> si_disconnected i then (True, s)
      else
        let batch_read = (ss_client s \<and> (case si_batch i of Some (_ # _) \<Rightarrow> True | _ \<Rightarrow> False));
            (found, s1) = (if \<not> ss_client s then (False, s)
               else case si_batch i of None \<Rightarrow> (False, s\<lparr>ss_client := False\<rparr>) | Some ms \<Rightarrow> read_batch loads run_id ms False s);
            final = (if \<not> found \<and> (\<not> ss_client s1 \<or> ss_emitted s1 = [] \<and> \<not> batch_read) then fallback run_id i s1 else None)
        in case final of
             Some s2 \<Rightarrow> (True, s2)
           | None \<Rightarrow>
               let s2 = (if si_now i - ss_heartbeat s1 \<ge> HEARTBEAT_INTERVAL_SECONDS
                     then s1\<lparr>ss_out := ss_out s1 @ [F_heartbeat], ss_heartbeat := si_now i\<rparr> else s1)
               in (si_now i - start > MAX_STREAM_WAIT_SECONDS, s2))"

fun sse_run :: "(string \<Rightarrow> pydict option) \<Rightarrow> string \<Rightarrow> pyfloat \<Rightarrow> sse_input list \<Rightarrow> sse_state \<Rightarrow> bool \<times> sse_state" where
  "sse_run loads run_id start [] s = (ss_terminal s, s)"
| "sse_run loads run_id start (i # is) s =
     (let (stop, s1) = sse_iter loads run_id start i s in if stop then (True, s1) else sse_run loads run_id start is s1)"

section \<open>An event survives the stream\<close>

lemma digits_ok_all: "list_all py_isdigit s \<Longrightarrow> s \<noteq> [] \<or> b \<Longrightarrow> digits_ok b s"
  by (induction s arbitrary: b) auto

lemma strip_nonspace: "list_all (\<lambda>c. \<not> py_isspace c) s \<Longrightarrow> py_strip s = s"
proof -
  have d: "list_all (\<lambda>c. \<not> py_isspace c) xs \<Longrightarrow> dropWhile py_isspace xs = xs" for xs by (cases xs) auto
  show "list_all (\<lambda>c. \<not> py_isspace c) s \<Longrightarrow> py_strip s = s"
    using d [of s] d [of "rev s"] by (simp add: py_strip_def list_all_iff)
qed

lemma digit_not_space: "py_isdigit c \<Longrightarrow> \<not> py_isspace c"
  by (auto simp: py_isdigit_def py_isspace_def Let_def)

lemma show_nat_every: "list_all py_isdigit (show_nat n)" "list_all (\<lambda>c. \<not> py_isspace c) (show_nat n)" "filter py_isdigit (show_nat n) = show_nat n"
  using show_nat_digits digit_not_space by (auto simp: list_all_iff intro: filter_True)

lemma show_nat_head: "hd (show_nat n) \<noteq> CHR ''-'' \<and> hd (show_nat n) \<noteq> CHR ''+''"
proof -
  have "py_isdigit (hd (show_nat n))" using show_nat_digits [OF hd_in_set [OF show_nat_nonempty]] .
  then show ?thesis by (auto simp: py_isdigit_def)
qed

lemma int_of_show:
  assumes "length (show_int n) \<le> 4300"
  shows "int_of (show_int n) = Inr n"
proof (cases "n < 0")
  case True
  have "py_strip (show_int n) = show_int n"
    using True show_nat_every(2) by (intro strip_nonspace) (simp add: show_int_def py_isspace_def)
  with True assms show ?thesis
    by (simp add: int_of_def py_int_def show_int_def show_nat_every digits_ok_all Let_def)
next
  case False
  have "py_strip (show_int n) = show_int n"
    using False show_nat_every(2) by (intro strip_nonspace) (simp add: show_int_def)
  with False assms show ?thesis
    by (simp add: int_of_def py_int_def show_int_def show_nat_every digits_ok_all show_nat_head Let_def)
qed

lemma opt_field_get: "v \<noteq> Some [] \<Longrightarrow> map_of (opt_field k v) k' = (if k' = k then v else None)"
  by (auto simp: opt_field_def split: option.splits)

text \<open>
  C29. What a publisher writes to the stream is what a subscriber reads from it: an event whose optional
  identifiers are absent or not empty is rebuilt exactly, provided the JSON codec is a round trip.
\<close>

theorem event_roundtrip:
  assumes "loads (dumps (ev_payload e)) = Some (ev_payload e)" "length (show_int (ev_sequence e)) \<le> 4300"
    and "ev_step_id e \<noteq> Some []" "ev_llm_call_id e \<noteq> Some []" "ev_tool_call_id e \<noteq> Some []" "ev_query_id e \<noteq> Some []"
      "ev_eval_run_id e \<noteq> Some []"
  shows "event_from_dict loads (event_to_dict dumps e) = Inr e"
  using assms
  by (simp add: event_from_dict_def event_to_dict_def text_of_def map_of_append map_add_def opt_field_get int_of_show split: option.splits)

section \<open>What a subscriber sees\<close>

definition events_of :: "frame list \<Rightarrow> run_event list" where
  "events_of fs = concat (map (\<lambda>f. case f of F_event e \<Rightarrow> [e] | F_heartbeat \<Rightarrow> []) fs)"

lemma events_of_simps [simp]:
  "events_of [] = []" "events_of (fs @ [F_event e]) = events_of fs @ [e]" "events_of (fs @ [F_heartbeat]) = events_of fs"
  by (simp_all add: events_of_def)

definition sse_ok :: "string \<Rightarrow> sse_state \<Rightarrow> bool" where
  "sse_ok run_id s \<longleftrightarrow> map ev_id (events_of (ss_out s)) = rev (ss_emitted s) \<and> distinct (ss_emitted s) \<and>
     list_all (\<lambda>e. ev_run_id e = run_id) (events_of (ss_out s))"

lemma sse_ok_emit: "sse_ok run_id s \<Longrightarrow> ev_run_id e = run_id \<Longrightarrow> sse_ok run_id (emit_once e s)"
  by (simp add: sse_ok_def emit_once_def)

lemma sse_ok_upd [simp]:
  "sse_ok run_id (s\<lparr>ss_terminal := b\<rparr>) = sse_ok run_id s" "sse_ok run_id (s\<lparr>ss_client := b\<rparr>) = sse_ok run_id s"
  "sse_ok run_id (s\<lparr>ss_stream_id := x\<rparr>) = sse_ok run_id s"
  "sse_ok run_id (s\<lparr>ss_out := ss_out s @ [F_heartbeat], ss_heartbeat := t\<rparr>) = sse_ok run_id s"
  by (simp_all add: sse_ok_def)

lemma sse_ok_fold: "sse_ok run_id s \<Longrightarrow> \<forall>e \<in> set evs. ev_run_id e = run_id \<Longrightarrow> sse_ok run_id (fold emit_once evs s)"
  by (induction evs arbitrary: s) (simp_all add: sse_ok_emit)

lemma from_dict_run: "event_from_dict loads raw = Inr e \<Longrightarrow> map_of raw ''run_id'' = Some r \<Longrightarrow> ev_run_id e = r"
  by (auto simp: event_from_dict_def text_of_def)

lemma sse_ok_batch: "sse_ok run_id s \<Longrightarrow> sse_ok run_id (snd (read_batch loads run_id ms found s))"
proof (induction ms arbitrary: found s)
  case (Cons m ms)
  obtain msg_id raw where m: "m = (msg_id, raw)" by fastforce
  let ?s1 = "s\<lparr>ss_stream_id := msg_id\<rparr>"
  have s1: "sse_ok run_id ?s1" using Cons.prems by simp
  show ?case
  proof (cases "map_of raw ''run_id'' = Some run_id")
    case True
    show ?thesis
    proof (cases "event_from_dict loads raw")
      case (Inr e)
      from from_dict_run [OF Inr True] have "ev_run_id e = run_id" .
      then have "sse_ok run_id (emit_once e ?s1)" using s1 by (rule sse_ok_emit [rotated])
      with Cons.IH s1 True Inr show ?thesis by (simp add: m Let_def)
    qed (use s1 True in \<open>simp add: m Let_def\<close>)
  qed (use Cons.IH [OF s1] in \<open>simp add: m Let_def\<close>)
qed simp

lemma step_events_run: "e \<in> set (fst (step_events i run_id r n sq sts)) \<Longrightarrow> ev_run_id e = run_id"
  by (induction i run_id r n sq sts rule: step_events.induct)
     (auto simp: Let_def case_prod_unfold declined_event_def step_event_def rebuilt_def split: if_splits)

lemma rebuild_run_id: "e \<in> set (rebuild_run i run_id r) \<Longrightarrow> ev_run_id e = run_id"
  using step_events_run by (auto simp: rebuild_run_def Let_def case_prod_unfold rebuilt_def)

lemma sse_ok_memory: "sse_ok run_id s \<Longrightarrow> sse_ok run_id (replay_memory run_id evs s)"
  unfolding replay_memory_def by (induction evs arbitrary: s) (simp_all add: sse_ok_emit)

lemma sse_ok_fallback: "sse_ok run_id s \<Longrightarrow> fallback run_id i s = Some s' \<Longrightarrow> sse_ok run_id s'"
  by (auto simp: fallback_def Let_def intro!: sse_ok_fold sse_ok_memory sse_ok_emit simp: rebuild_run_id rebuild_job_def
      split: option.splits if_splits)

text \<open>The state after the read of one iteration.\<close>

definition after_read :: "(string \<Rightarrow> pydict option) \<Rightarrow> string \<Rightarrow> sse_input \<Rightarrow> sse_state \<Rightarrow> bool \<times> sse_state" where
  "after_read loads run_id i s = (if \<not> ss_client s then (False, s)
     else case si_batch i of None \<Rightarrow> (False, s\<lparr>ss_client := False\<rparr>) | Some ms \<Rightarrow> read_batch loads run_id ms False s)"

lemma sse_iter_cases:
  assumes "sse_iter loads run_id start i s = (stop, s')"
  obtains "stop" "s' = s"
  | "\<not> ss_terminal s" "stop" "\<not> fst (after_read loads run_id i s)" "fallback run_id i (snd (after_read loads run_id i s)) = Some s'"
  | "\<not> ss_terminal s" "s' = snd (after_read loads run_id i s) \<or> s' = (snd (after_read loads run_id i s))
        \<lparr>ss_out := ss_out (snd (after_read loads run_id i s)) @ [F_heartbeat], ss_heartbeat := si_now i\<rparr>"
  using assms unfolding sse_iter_def after_read_def [symmetric] Let_def case_prod_unfold
  by (auto split: if_splits option.splits)

lemma sse_ok_after_read: "sse_ok run_id s \<Longrightarrow> sse_ok run_id (snd (after_read loads run_id i s))"
  by (simp add: after_read_def sse_ok_batch split: option.splits)

lemma sse_ok_iter:
  assumes "sse_ok run_id s" "sse_iter loads run_id start i s = (stop, s')"
  shows "sse_ok run_id s'"
  using assms(2)
proof (cases rule: sse_iter_cases)
  case 2
  then show ?thesis using sse_ok_fallback [OF sse_ok_after_read [OF assms(1)]] by blast
next
  case 3
  then show ?thesis using sse_ok_after_read [OF assms(1), of loads i] by auto
qed (use assms(1) in simp)

text \<open>An invariant of the iterations is an invariant of the stream.\<close>

lemma sse_run_inv:
  assumes "I s" and step: "\<And>s i stop s'. i \<in> set is \<Longrightarrow> I s \<Longrightarrow> sse_iter loads run_id start i s = (stop, s') \<Longrightarrow> I s'"
  shows "I (snd (sse_run loads run_id start is s))"
  using assms
proof (induction "is" arbitrary: s)
  case (Cons i "is")
  obtain stop s1 where it: "sse_iter loads run_id start i s = (stop, s1)" by fastforce
  have i1: "I s1" using Cons.prems(2) [OF _ Cons.prems(1) it] by simp
  have "I (snd (sse_run loads run_id start is s1))" by (rule Cons.IH [OF i1 Cons.prems(2)]) auto
  with i1 it show ?case by simp
qed simp

section \<open>The final event comes last\<close>

abbreviation terminal_event :: "run_event \<Rightarrow> bool" where
  "terminal_event e \<equiv> ev_type e \<in> set RUN_TERMINAL_EVENTS"

definition final_last :: "sse_state \<Rightarrow> bool" where
  "final_last s \<longleftrightarrow> list_all (\<lambda>e. \<not> terminal_event e) (butlast (events_of (ss_out s))) \<and>
     (\<not> ss_terminal s \<longrightarrow> list_all (\<lambda>e. \<not> terminal_event e) (events_of (ss_out s)))"

lemma final_last_upd [simp]:
  "final_last (s\<lparr>ss_client := b\<rparr>) = final_last s" "final_last (s\<lparr>ss_stream_id := x\<rparr>) = final_last s"
  "final_last (s\<lparr>ss_out := ss_out s @ [F_heartbeat], ss_heartbeat := t\<rparr>) = final_last s"
  by (simp_all add: final_last_def)

lemma final_last_emit: "final_last s \<Longrightarrow> \<not> ss_terminal s \<Longrightarrow> \<not> terminal_event e \<Longrightarrow> final_last (emit_once e s) \<and> \<not> ss_terminal (emit_once e s)"
  by (auto simp: final_last_def emit_once_def butlast_append list_all_iff dest: in_set_butlastD)

lemma final_last_end: "final_last s \<Longrightarrow> \<not> ss_terminal s \<Longrightarrow> final_last ((emit_once e s)\<lparr>ss_terminal := True\<rparr>)"
  by (auto simp: final_last_def emit_once_def butlast_append list_all_iff dest: in_set_butlastD)

lemma final_last_fold:
  "final_last s \<Longrightarrow> \<not> ss_terminal s \<Longrightarrow> \<forall>e \<in> set evs. \<not> terminal_event e \<Longrightarrow>
   final_last (fold emit_once evs s) \<and> \<not> ss_terminal (fold emit_once evs s)"
  by (induction evs arbitrary: s) (simp_all add: final_last_emit)

lemma final_last_batch:
  "final_last s \<Longrightarrow> \<not> ss_terminal s \<Longrightarrow> final_last (snd (read_batch loads run_id ms found s)) \<and>
   (ss_terminal (snd (read_batch loads run_id ms found s)) \<longrightarrow> fst (read_batch loads run_id ms found s))"
proof (induction ms arbitrary: found s)
  case (Cons m ms)
  obtain msg_id raw where m: "m = (msg_id, raw)" by fastforce
  let ?s1 = "s\<lparr>ss_stream_id := msg_id\<rparr>"
  have s1: "final_last ?s1" "\<not> ss_terminal ?s1" using Cons.prems by simp_all
  note ih = Cons.IH [OF s1]
  show ?case
  proof (cases "map_of raw ''run_id'' = Some run_id")
    case True
    show ?thesis
    proof (cases "event_from_dict loads raw")
      case (Inr e)
      show ?thesis
      proof (cases "terminal_event e")
        case t: True
        with final_last_end [OF s1, of e] ih True Inr show ?thesis by (simp add: m Let_def)
      next
        case False
        with Cons.IH [OF conjunct1 [OF final_last_emit [OF s1 False]] conjunct2 [OF final_last_emit [OF s1 False]]] ih True Inr
        show ?thesis by (simp add: m Let_def)
      qed
    qed (use s1 True in \<open>simp add: m Let_def\<close>)
  qed (use ih in \<open>simp add: m Let_def\<close>)
qed simp

lemma rebuilt_not_terminal:
  "e \<in> set (fst (step_events i run_id r n sq sts)) \<Longrightarrow> \<not> terminal_event e"
  by (induction i run_id r n sq sts rule: step_events.induct)
     (auto simp: Let_def case_prod_unfold declined_event_def step_event_def rebuilt_def RUN_TERMINAL_EVENTS_def split: if_splits)

lemma rebuild_run_shape:
  "\<exists>a z. rebuild_run i run_id r = a # fst (step_events i run_id r 1 1 (si_steps i)) @ [z] \<and> ev_type a = ''run.received''"
  by (simp add: rebuild_run_def Let_def case_prod_unfold rebuilt_def)

lemma final_last_fallback:
  assumes "final_last s" "\<not> ss_terminal s" "si_memory i = None" "fallback run_id i s = Some s'"
  shows "final_last s'"
proof -
  have "final_last ((fold emit_once (rebuild_run i run_id r) s)\<lparr>ss_terminal := True\<rparr>)" for r
  proof -
    let ?evs = "fst (step_events i run_id r 1 1 (si_steps i))"
    obtain a z where r: "rebuild_run i run_id r = a # ?evs @ [z]" "ev_type a = ''run.received''"
      using rebuild_run_shape by blast
    have "\<forall>e \<in> set (a # ?evs). \<not> terminal_event e"
      using rebuilt_not_terminal r(2) by (auto simp: RUN_TERMINAL_EVENTS_def)
    from final_last_fold [OF assms(1,2) this] have "final_last ((emit_once z (fold emit_once (a # ?evs) s))\<lparr>ss_terminal := True\<rparr>)"
      by (intro final_last_end) simp_all
    then show ?thesis by (simp add: r(1))
  qed
  with assms final_last_end [OF assms(1,2)] show ?thesis
    by (auto simp: fallback_def Let_def split: option.splits if_splits)
qed

lemma final_last_iter:
  assumes "final_last s" "si_memory i = None" "sse_iter loads run_id start i s = (stop, s')"
  shows "final_last s'"
proof -
  have r: "final_last (snd (after_read loads run_id i s)) \<and> (ss_terminal (snd (after_read loads run_id i s)) \<longrightarrow> fst (after_read loads run_id i s))"
    if "\<not> ss_terminal s" using that assms(1) final_last_batch by (simp add: after_read_def split: option.splits)
  show ?thesis using assms(3)
  proof (cases rule: sse_iter_cases)
    case 2
    then show ?thesis using final_last_fallback [OF _ _ assms(2)] r by blast
  next
    case 3
    then show ?thesis using r by auto
  qed (use assms(1) in simp)
qed


definition demo_raw :: "string \<Rightarrow> string \<Rightarrow> string \<Rightarrow> (string, string) odict" where
  "demo_raw eid etype rid = [(''event_id'', eid), (''event_type'', etype), (''run_id'', rid), (''conversation_id'', ''c''), (''sequence'', ''1''),
     (''timestamp'', ''t''), (''payload'', [CHR 0x7B, CHR 0x7D])]"

definition demo_poll :: "(string \<times> (string, string) odict) list \<Rightarrow> pyfloat \<Rightarrow> sse_input" where
  "demo_poll ms now = \<lparr>si_disconnected = False, si_batch = Some ms, si_run = None, si_job = None, si_steps = [], si_memory = None,
     si_ids = (\<lambda>_. ''evt''), si_stamp = ''t'', si_now = now\<rparr>"


theorem event_roundtrip_witness:
  "event_from_dict (\<lambda>_. Some []) (event_to_dict (\<lambda>_. [CHR 0x7B, CHR 0x7D])
     \<lparr>ev_id = ''e'', ev_type = ''run.received'', ev_run_id = ''r'', ev_conversation_id = ''c'', ev_sequence = 12, ev_payload = [],
      ev_step_id = Some ''s'', ev_llm_call_id = None, ev_tool_call_id = None, ev_query_id = Some ''q'', ev_timestamp = ''t'', ev_eval_run_id = None\<rparr>)
   = Inr \<lparr>ev_id = ''e'', ev_type = ''run.received'', ev_run_id = ''r'', ev_conversation_id = ''c'', ev_sequence = 12, ev_payload = [],
      ev_step_id = Some ''s'', ev_llm_call_id = None, ev_tool_call_id = None, ev_query_id = Some ''q'', ev_timestamp = ''t'', ev_eval_run_id = None\<rparr>"
  by (rule event_roundtrip) (simp_all add: show_int_def show_nat.simps)

section \<open>A replay is numbered from one\<close>

lemma step_events_numbered:
  "step_events i run_id r n sq sts = (evs, n', sq') \<Longrightarrow>
   map ev_sequence evs = [sq + 1..sq'] \<and> sq' = sq + int (length evs) \<and> n' = n + length evs"
proof (induction i run_id r n sq sts arbitrary: evs n' sq' rule: step_events.induct)
  case (2 i run_id r n sq st sts)
  let ?d = "if is_declined st then [declined_event i run_id r n (sq + 1) st] else []"
  obtain evs1 where r: "step_events i run_id r (n + length ?d + 1) (sq + int (length ?d) + 1) sts = (evs1, n', sq')"
    and evs: "evs = ?d @ step_event i run_id r (n + length ?d) (sq + int (length ?d) + 1) st # evs1"
    using "2.prems" by (auto simp: Let_def split: prod.splits)
  have "map ev_sequence evs1 = [sq + int (length ?d) + 2..sq'] \<and> sq' = sq + int (length ?d) + 1 + int (length evs1)
      \<and> n' = n + length ?d + 1 + length evs1"
    using "2.IH" [OF refl refl refl r] by (simp add: algebra_simps)
  then show ?case
    by (auto simp: evs declined_event_def step_event_def rebuilt_def upto_rec1 algebra_simps)
qed simp

lemma rebuild_numbered: "map ev_sequence (rebuild_run i run_id r) = [1..int (length (rebuild_run i run_id r))]"
proof -
  obtain evs n sq where st: "step_events i run_id r 1 1 (si_steps i) = (evs, n, sq)" by (metis prod_cases3)
  from step_events_numbered [OF st] have "map ev_sequence evs = [2..sq]" "sq = 1 + int (length evs)" by simp_all
  then show ?thesis
    unfolding rebuild_run_def Let_def st prod.case
    by (simp add: rebuilt_def upto_rec1 [of 1] upto_rec2 [of 2 "2 + int (length evs)"])
qed

section \<open>Where a stream does not end, and does not resume\<close>

text \<open>
  The events that end a job, \<open>job.completed\<close> and \<open>job.failed\<close>, are not in the list that ends a stream, and
  the durable state is only consulted while nothing has been sent or the stream client has failed. So
  once one event of a job has been sent live, the stream stays open after the job is done, until the
  client leaves or the 60 seconds are over, whatever the repository says about the job.
\<close>

definition quiet_poll :: "pyfloat \<Rightarrow> sse_input \<Rightarrow> bool" where
  "quiet_poll start i \<longleftrightarrow> \<not> si_disconnected i \<and> si_batch i = Some [] \<and> si_now i - start \<le> MAX_STREAM_WAIT_SECONDS"

lemma quiet_poll_waits:
  assumes "quiet_poll start i" "ss_client s" "\<not> ss_terminal s" "ss_emitted s \<noteq> []"
  shows "\<exists>s'. sse_iter loads run_id start i s = (False, s') \<and> ss_client s' \<and> \<not> ss_terminal s' \<and> ss_emitted s' \<noteq> []
    \<and> events_of (ss_out s') = events_of (ss_out s)"
  using assms by (simp add: sse_iter_def quiet_poll_def Let_def)

lemma quiet_polls_wait:
  assumes "list_all (quiet_poll start) is" "ss_client s" "\<not> ss_terminal s" "ss_emitted s \<noteq> []"
  shows "\<exists>s'. sse_run loads run_id start is s = (False, s') \<and> events_of (ss_out s') = events_of (ss_out s)"
  using assms
proof (induction "is" arbitrary: s)
  case (Cons i "is")
  from quiet_poll_waits [OF _ Cons.prems(2-4), of start i loads run_id] Cons.prems(1)
  obtain s1 where s1: "sse_iter loads run_id start i s = (False, s1)" "ss_client s1" "\<not> ss_terminal s1" "ss_emitted s1 \<noteq> []"
    "events_of (ss_out s1) = events_of (ss_out s)" by auto
  from Cons.IH [OF _ s1(2-4)] Cons.prems(1) obtain s' where "sse_run loads run_id start is s1 = (False, s')"
    "events_of (ss_out s') = events_of (ss_out s1)" by auto
  with s1 show ?case by simp
qed simp

theorem finished_job_stream_stays_open:
  assumes "list_all (quiet_poll 0) polls"
  shows "let first = demo_poll [(''1-0'', demo_raw ''e1'' ''job.started'' ''job_1''), (''2-0'', demo_raw ''e2'' ''job.completed'' ''job_1'')] 1;
             (closed, s) = sse_run (\<lambda>_. Some []) ''job_1'' 0 (first # polls) (sse_start None True 0)
         in \<not> closed \<and> map ev_type (events_of (ss_out s)) = [''job.started'', ''job.completed'']"
proof -
  let ?i = "demo_poll [(''1-0'', demo_raw ''e1'' ''job.started'' ''job_1''), (''2-0'', demo_raw ''e2'' ''job.completed'' ''job_1'')] 1"
  let ?r = "sse_iter (\<lambda>_. Some []) ''job_1'' 0 ?i (sse_start None True 0)"
  have r: "fst ?r = False \<and> ss_client (snd ?r) \<and> \<not> ss_terminal (snd ?r) \<and> ss_emitted (snd ?r) \<noteq> []
      \<and> map ev_type (events_of (ss_out (snd ?r))) = [''job.started'', ''job.completed'']" by code_simp
  obtain s1 where s1: "?r = (False, s1)" using r by (cases ?r) auto
  from quiet_polls_wait [OF assms, of s1 "\<lambda>_. Some []" "''job_1''"] r obtain s' where
    "sse_run (\<lambda>_. Some []) ''job_1'' 0 polls s1 = (False, s')" "events_of (ss_out s') = events_of (ss_out s1)"
    unfolding s1 by auto
  with s1 r show ?thesis by (simp add: Let_def)
qed

text \<open>
  An event is sent with its own identifier, which has no hyphen, but a reconnecting client's last
  identifier is used as a position of the stream only when it has one: a reconnection replays the
  stream from its beginning.
\<close>

lemma reconnect_starts_over: "CHR ''-'' \<notin> set eid \<Longrightarrow> ss_stream_id (sse_start (Some eid) client now) = ''0-0''"
  by (simp add: sse_start_def Let_def)

end
