(* ===== verification/App_Jobs.thy ===== *)
theory App_Jobs
  imports App_Events
begin

text \<open>
  Asynchronous jobs: the in-memory queue (\<open>services/app/app/jobs/producer.py\<close>, \<open>jobs/consumer.py\<close>), the worker
  (\<open>worker.py\<close>) and the job routes (\<open>routers/jobs.py\<close>), over any state repository \<open>step\<close>.

  A queue message has the text fields the producer writes; its \<open>params\<close> field is JSON text, read by \<open>loads\<close>.
  The Redis mirror of a job is written and read with every error ignored; the worker's writes to it are not
  part of its outcome, and what a read of it returns is an argument of the route. Publishing and acknowledging
  never raise. Parameters are an object, as the route and the producer write them, and their conversation id,
  where there is one, is text. Time stamps, identifiers
  and the profile the tool server returns are arguments.
\<close>

type_synonym 's repo_step = "repo_op \<Rightarrow> 's \<Rightarrow> (state_exn + reply) \<times> 's"

section \<open>The queue\<close>

record job_message =
  jm_job_id :: "string option"
  jm_job_type :: "string option"
  jm_status :: "string option"
  jm_created_at :: "string option"
  jm_params :: "string option"

record job_queue =
  jq_queue :: "(string \<times> job_message) list"
  jq_acked :: "string list"

definition jq_push :: "string \<Rightarrow> job_message \<Rightarrow> job_queue \<Rightarrow> job_queue" where
  "jq_push mid m q = q\<lparr>jq_queue := jq_queue q @ [(mid, m)]\<rparr>"

definition jq_read :: "nat \<Rightarrow> job_queue \<Rightarrow> (string \<times> job_message) list \<times> job_queue" where
  "jq_read n q = (if jq_queue q = [] then ([], q) else (take n (jq_queue q), q\<lparr>jq_queue := drop n (jq_queue q)\<rparr>))"

definition jq_ack :: "string \<Rightarrow> job_queue \<Rightarrow> job_queue" where
  "jq_ack mid q = q\<lparr>jq_acked := jq_acked q @ [mid]\<rparr>"

definition message_of_job :: "(pydict \<Rightarrow> string) \<Rightarrow> job \<Rightarrow> job_message" where
  "message_of_job dumps j = \<lparr>jm_job_id = Some (jb_id j), jm_job_type = Some (jb_job_type j), jm_status = Some (jb_status j),
     jm_created_at = Some (jb_created_at j), jm_params = Some (dumps (jb_params j))\<rparr>"

section \<open>The worker\<close>

datatype job_exn = Repo_error state_exn | Bad_params string

record 's job_world =
  jw_repo :: 's
  jw_queue :: job_queue
  jw_events :: "run_event list"
  jw_artifacts :: "(string \<times> pydict) list"

record job_env =
  je_created :: string
  je_started :: string
  je_completed :: string
  je_failed :: string
  je_report_id :: string
  je_event1 :: string
  je_event2 :: string
  je_stamp :: string
  je_profile :: "string + pydict"
  je_file_ok :: bool
  je_repo_text :: "state_exn \<Rightarrow> string"
  je_publisher :: bool

definition job_event :: "job_env \<Rightarrow> string \<Rightarrow> string \<Rightarrow> job \<Rightarrow> int \<Rightarrow> pydict \<Rightarrow> run_event" where
  "job_event env eid etype j sq payload =
     \<lparr>ev_id = eid, ev_type = etype, ev_run_id = jb_id j,
      ev_conversation_id = (case pget (jb_params j) ''conversation_id'' of PStr c \<Rightarrow> c | _ \<Rightarrow> jb_id j), ev_sequence = sq, ev_payload = payload,
      ev_step_id = None, ev_llm_call_id = None, ev_tool_call_id = None, ev_query_id = None, ev_timestamp = je_stamp env, ev_eval_run_id = None\<rparr>"

definition publish_job :: "job_env \<Rightarrow> run_event \<Rightarrow> 's job_world \<Rightarrow> 's job_world" where
  "publish_job env e w = (if je_publisher env then w\<lparr>jw_events := jw_events w @ [e]\<rparr> else w)"

definition ack_job :: "string \<Rightarrow> 's job_world \<Rightarrow> 's job_world" where
  "ack_job mid w = w\<lparr>jw_queue := jq_ack mid (jw_queue w)\<rparr>"

definition w_update_job :: "'s repo_step \<Rightarrow> job \<Rightarrow> 's job_world \<Rightarrow> (state_exn + unit) \<times> 's job_world" where
  "w_update_job step j w = (let (r, s) = step (Update_job j) (jw_repo w) in (map_sum id (\<lambda>_. ()) r, w\<lparr>jw_repo := s\<rparr>))"

definition report_data :: "job_env \<Rightarrow> job \<Rightarrow> pydict \<Rightarrow> pydict" where
  "report_data env j profile =
     [(''report_id'', PStr (je_report_id env)), (''job_id'', PStr (jb_id j)), (''title'', PStr ''NYC Yellow Taxi Daily-Zone Analytics Report''),
      (''generated_at'', PStr (je_completed env)),
      (''dataset_summary'', PDict [(''row_count'', pget profile ''row_count''), (''zone_row_count'', pget profile ''zone_row_count''),
         (''timing_ms'', pget profile ''timing_ms''), (''duckdb_settings'', pget_or profile ''duckdb_settings'' (PDict []))]),
      (''daily_zone_rows'', pget_or profile ''daily_zone_rows'' (PList []))]"

definition artifact_url_of :: "job \<Rightarrow> string" where
  "artifact_url_of j = ''/api/jobs/'' @ jb_id j @ ''/artifact''"

definition running_job :: "job_env \<Rightarrow> job \<Rightarrow> job" where
  "running_job env j = \<lparr>jb_id = jb_id j, jb_job_type = jb_job_type j, jb_status = ''RUNNING'', jb_created_at = jb_created_at j,
     jb_started_at = Some (je_started env), jb_completed_at = None, jb_params = jb_params j, jb_result = None, jb_artifact_url = None,
     jb_error = None, jb_metadata = jb_metadata j\<rparr>"

definition completed_job :: "job_env \<Rightarrow> job \<Rightarrow> pydict \<Rightarrow> job" where
  "completed_job env j report = (running_job env j)\<lparr>jb_status := ''COMPLETED'', jb_completed_at := Some (je_completed env),
     jb_result := Some report, jb_artifact_url := Some (artifact_url_of j)\<rparr>"

definition failed_job :: "job_env \<Rightarrow> job \<Rightarrow> string \<Rightarrow> job" where
  "failed_job env j err = (running_job env j)\<lparr>jb_status := ''FAILED'', jb_completed_at := Some (je_failed env), jb_error := Some err\<rparr>"

text \<open>The body of the \<open>try\<close>: the text of the error, or the completed job.\<close>

definition execute_job :: "'s repo_step \<Rightarrow> job_env \<Rightarrow> string \<Rightarrow> job \<Rightarrow> 's job_world \<Rightarrow> (string + job) \<times> 's job_world" where
  "execute_job step env mid j w =
     (if jb_job_type j \<noteq> ''create_full_report'' then (Inl (''Unsupported job_type: '' @ jb_job_type j), w)
      else case je_profile env of
        Inl err \<Rightarrow> (Inl err, w)
      | Inr profile \<Rightarrow>
          let report = report_data env j profile;
              w1 = (if je_file_ok env then w\<lparr>jw_artifacts := od_set (jb_id j) report (jw_artifacts w)\<rparr> else w);
              done_job = completed_job env j report
          in (case w_update_job step done_job w1 of
               (Inl e, w2) \<Rightarrow> (Inl (je_repo_text env e), w2)
             | (Inr _, w2) \<Rightarrow>
                 (Inr done_job,
                  ack_job mid (publish_job env (job_event env (je_event2 env) ''job.completed'' j 2
                    [(''job_id'', PStr (jb_id j)), (''status'', PStr ''COMPLETED''), (''artifact_url'', PStr (artifact_url_of j)),
                     (''summary'', pget report ''dataset_summary'')]) w2))))"

definition fail_job :: "'s repo_step \<Rightarrow> job_env \<Rightarrow> string \<Rightarrow> job \<Rightarrow> string \<Rightarrow> 's job_world \<Rightarrow> (job_exn + job option) \<times> 's job_world" where
  "fail_job step env mid j err w =
     (case w_update_job step (failed_job env j err) w of
        (Inl e, w1) \<Rightarrow> (Inl (Repo_error e), w1)
      | (Inr _, w1) \<Rightarrow>
          (Inr (Some (failed_job env j err)),
           ack_job mid (publish_job env (job_event env (je_event2 env) ''job.failed'' j 2
             [(''job_id'', PStr (jb_id j)), (''status'', PStr ''FAILED''), (''error'', PStr err)]) w1)))"

definition run_job :: "'s repo_step \<Rightarrow> job_env \<Rightarrow> string \<Rightarrow> job \<Rightarrow> 's job_world \<Rightarrow> (job_exn + job option) \<times> 's job_world" where
  "run_job step env mid j w =
     (if jb_status j = ''COMPLETED'' \<or> jb_status j = ''FAILED'' then (Inr (Some j), ack_job mid w)
      else case w_update_job step (running_job env j) w of
        (Inl e, w1) \<Rightarrow> (Inl (Repo_error e), w1)
      | (Inr _, w1) \<Rightarrow>
          let w2 = publish_job env (job_event env (je_event1 env) ''job.started'' j 1
                [(''job_id'', PStr (jb_id j)), (''status'', PStr ''RUNNING''), (''job_type'', PStr (jb_job_type j))]) w1
          in (case execute_job step env mid j w2 of
               (Inr d, w3) \<Rightarrow> (Inr (Some d), w3)
             | (Inl err, w3) \<Rightarrow> fail_job step env mid j err w3))"

definition job_or_default :: "string option \<Rightarrow> string \<Rightarrow> string" where
  "job_or_default v d = (case v of None \<Rightarrow> d | Some s \<Rightarrow> s)"

definition job_of_message :: "(string \<Rightarrow> pydict option) \<Rightarrow> job_env \<Rightarrow> string \<Rightarrow> job_message \<Rightarrow> job_exn + job" where
  "job_of_message loads env jid m =
     (case loads (job_or_default (jm_params m) [CHR 0x7B, CHR 0x7D]) of
        None \<Rightarrow> Inl (Bad_params (job_or_default (jm_params m) []))
      | Some params \<Rightarrow>
          Inr \<lparr>jb_id = jid, jb_job_type = job_or_default (jm_job_type m) ''create_full_report'', jb_status = job_or_default (jm_status m) ''PENDING'',
            jb_created_at = job_or_default (jm_created_at m) (je_created env), jb_started_at = None, jb_completed_at = None, jb_params = params,
            jb_result = None, jb_artifact_url = None, jb_error = None, jb_metadata = []\<rparr>)"

definition process_one_job ::
  "'s repo_step \<Rightarrow> (string \<Rightarrow> pydict option) \<Rightarrow> job_env \<Rightarrow> string \<Rightarrow> job_message \<Rightarrow> 's job_world \<Rightarrow> (job_exn + job option) \<times> 's job_world" where
  "process_one_job step loads env mid m w =
     (case jm_job_id m of
        None \<Rightarrow> (Inr None, ack_job mid w)
      | Some jid \<Rightarrow>
          if jid = [] then (Inr None, ack_job mid w)
          else (let (r, s) = step (Get_job jid) (jw_repo w); w1 = w\<lparr>jw_repo := s\<rparr> in
            case r of
              Inl e \<Rightarrow> (Inl (Repo_error e), w1)
            | Inr (R_job (Some j)) \<Rightarrow> run_job step env mid j w1
            | Inr _ \<Rightarrow>
                (case job_of_message loads env jid m of
                   Inl e \<Rightarrow> (Inl e, w1)
                 | Inr j \<Rightarrow>
                     (let (r2, s2) = step (Create_job j) (jw_repo w1); w2 = w1\<lparr>jw_repo := s2\<rparr> in
                      case r2 of Inl e \<Rightarrow> (Inl (Repo_error e), w2) | Inr _ \<Rightarrow> run_job step env mid j w2))))"

text \<open>One round of \<open>run\<close>: a batch of at most ten; an error leaves the loop and the worker.\<close>

fun process_batch ::
  "'s repo_step \<Rightarrow> (string \<Rightarrow> pydict option) \<Rightarrow> (nat \<Rightarrow> job_env) \<Rightarrow> nat \<Rightarrow> (string \<times> job_message) list \<Rightarrow> 's job_world \<Rightarrow> job_exn option \<times> 's job_world" where
  "process_batch step loads env n [] w = (None, w)"
| "process_batch step loads env n ((mid, m) # ms) w =
     (case process_one_job step loads (env n) mid m w of
        (Inl e, w1) \<Rightarrow> (Some e, w1)
      | (Inr _, w1) \<Rightarrow> process_batch step loads env (Suc n) ms w1)"

definition run_once :: "'s repo_step \<Rightarrow> (string \<Rightarrow> pydict option) \<Rightarrow> (nat \<Rightarrow> job_env) \<Rightarrow> 's job_world \<Rightarrow> job_exn option \<times> 's job_world" where
  "run_once step loads env w =
     (let (ms, q) = jq_read 10 (jw_queue w) in process_batch step loads env 0 ms (w\<lparr>jw_queue := q\<rparr>))"

section \<open>The routes\<close>

text \<open>An error of the enqueue is logged and ignored: \<open>sent\<close> says whether the stream took the message.\<close>

datatype http_exn = HTTP nat string

definition ALLOWED_JOB_TYPES :: "string list" where "ALLOWED_JOB_TYPES = [''create_full_report'']"

definition unsupported_detail :: "string \<Rightarrow> string" where
  "unsupported_detail job_type = ''Unsupported job_type: '' @ [CHR 0x27] @ job_type @ [CHR 0x27] @ ''. Allowed: ['' @ [CHR 0x27]
     @ ''create_full_report'' @ [CHR 0x27] @ '']''"

definition submit_job ::
  "'s repo_step \<Rightarrow> (pydict \<Rightarrow> string) \<Rightarrow> bool \<Rightarrow> string \<Rightarrow> string \<Rightarrow> string \<Rightarrow> string \<Rightarrow> pydict \<Rightarrow> string option \<Rightarrow> 's job_world
     \<Rightarrow> ((http_exn + state_exn) + job) \<times> 's job_world" where
  "submit_job step dumps sent mid jid now job_type params0 conversation_id w =
     (if job_type \<notin> set ALLOWED_JOB_TYPES then (Inl (Inl (HTTP 400 (unsupported_detail job_type))), w)
      else
        let params = (case conversation_id of Some c \<Rightarrow> if c \<noteq> [] then od_set ''conversation_id'' (PStr c) params0 else params0 | None \<Rightarrow> params0);
            j = \<lparr>jb_id = jid, jb_job_type = job_type, jb_status = ''PENDING'', jb_created_at = now, jb_started_at = None, jb_completed_at = None,
                 jb_params = params, jb_result = None, jb_artifact_url = None, jb_error = None, jb_metadata = []\<rparr>;
            (r, s) = step (Create_job j) (jw_repo w)
        in case r of
             Inl e \<Rightarrow> (Inl (Inr e), w\<lparr>jw_repo := s\<rparr>)
           | Inr _ \<Rightarrow> (Inr j, w\<lparr>jw_repo := s, jw_queue := if sent then jq_push mid (message_of_job dumps j) (jw_queue w) else jw_queue w\<rparr>))"

text \<open>
  \<open>_resolve_job\<close> in its two parts: what is read first, and what happens with the mirror's answer (\<open>None\<close> when
  there is no mirror, it has no entry, or reading or decoding it fails). An error of the write is ignored
  and the job that was read first is returned.
\<close>

definition mirror_job :: "job \<Rightarrow> job" where
  "mirror_job d = d\<lparr>jb_metadata := []\<rparr>"

definition resolve_with :: "'s repo_step \<Rightarrow> job option \<Rightarrow> job option \<Rightarrow> 's \<Rightarrow> job option \<times> 's" where
  "resolve_with step read mirror s =
     (if \<not> (case read of None \<Rightarrow> True | Some j \<Rightarrow> jb_status j = ''PENDING'' \<or> jb_status j = ''RUNNING'') then (read, s)
      else case mirror of
        None \<Rightarrow> (read, s)
      | Some d \<Rightarrow>
          let (r, s1) = step (if read = None then Create_job (mirror_job d) else Update_job (mirror_job d)) s
          in case r of Inl _ \<Rightarrow> (read, s1) | Inr _ \<Rightarrow> (Some (mirror_job d), s1))"

definition resolve_job :: "'s repo_step \<Rightarrow> string \<Rightarrow> job option \<Rightarrow> 's \<Rightarrow> (state_exn + job option) \<times> 's" where
  "resolve_job step jid mirror s =
     (let (r, s1) = step (Get_job jid) s in
      case r of Inl e \<Rightarrow> (Inl e, s1)
      | Inr (R_job read) \<Rightarrow> (let (j, s2) = resolve_with step read mirror s1 in (Inr j, s2))
      | Inr _ \<Rightarrow> (Inr None, s1))"

definition get_job_status :: "job option \<Rightarrow> http_exn + job" where
  "get_job_status resolved = (case resolved of None \<Rightarrow> Inl (HTTP 404 ''Job not found'') | Some j \<Rightarrow> Inr j)"

definition get_job_artifact :: "job option \<Rightarrow> http_exn + pydict" where
  "get_job_artifact resolved =
     (case resolved of
        None \<Rightarrow> Inl (HTTP 404 ''Job not found'')
      | Some j \<Rightarrow> (case jb_result j of
          Some report \<Rightarrow> if jb_status j = ''COMPLETED'' \<and> report \<noteq> [] then Inr report
            else Inl (HTTP 404 ''Artifact not available or job not completed'')
        | None \<Rightarrow> Inl (HTTP 404 ''Artifact not available or job not completed'')))"

section \<open>Job stores\<close>

definition job_settled :: "(string \<Rightarrow> 's \<Rightarrow> job option) \<Rightarrow> job_env \<Rightarrow> string \<Rightarrow> job \<Rightarrow> job \<Rightarrow> 's job_world \<Rightarrow> 's job_world \<Rightarrow> bool" where
  "job_settled stored env mid j d w w' \<longleftrightarrow> jb_id d = jb_id j \<and> (jb_status d = ''COMPLETED'' \<or> jb_status d = ''FAILED'') \<and>
     stored (jb_id j) (jw_repo w') = Some d \<and> jw_queue w' = jq_ack mid (jw_queue w) \<and>
     (\<forall>k. k \<noteq> jb_id j \<longrightarrow> stored k (jw_repo w') = stored k (jw_repo w)) \<and>
     (d = j \<or> jb_status d = ''FAILED'' \<or> (\<exists>p. je_profile env = Inr p \<and> jb_result d = Some (report_data env j p)))"

text \<open>What the worker relies on: reading back what was written, and writes that succeed where they should.\<close>

locale job_store =
  fixes step :: "'s repo_step" and stored :: "string \<Rightarrow> 's \<Rightarrow> job option" and valid :: "'s \<Rightarrow> bool"
  assumes get_job: "step (Get_job jid) s = (Inr (R_job (stored jid s)), s)"
    and stored_id: "valid s \<Longrightarrow> stored jid s = Some j \<Longrightarrow> jb_id j = jid"
    and update_job: "stored (jb_id j) s \<noteq> None \<Longrightarrow>
      \<exists>x s'. step (Update_job j) s = (Inr x, s') \<and> stored (jb_id j) s' = Some j \<and> (\<forall>k. k \<noteq> jb_id j \<longrightarrow> stored k s' = stored k s)"
    and create_job: "stored (jb_id j) s = None \<Longrightarrow>
      \<exists>x s'. step (Create_job j) s = (Inr x, s') \<and> stored (jb_id j) s' = Some j \<and> (\<forall>k. k \<noteq> jb_id j \<longrightarrow> stored k s' = stored k s)"
begin

lemma update_cases:
  assumes "stored (jb_id j) (jw_repo w) \<noteq> None"
  obtains w' where "w_update_job step j w = (Inr (), w')" "stored (jb_id j) (jw_repo w') = Some j"
    "\<And>k. k \<noteq> jb_id j \<Longrightarrow> stored k (jw_repo w') = stored k (jw_repo w)"
    "jw_queue w' = jw_queue w" "jw_events w' = jw_events w" "jw_artifacts w' = jw_artifacts w"
proof -
  from update_job [OF assms] obtain x s' where s': "step (Update_job j) (jw_repo w) = (Inr x, s')" "stored (jb_id j) s' = Some j"
    "\<And>k. k \<noteq> jb_id j \<Longrightarrow> stored k s' = stored k (jw_repo w)" by blast
  show thesis by (rule that [of "w\<lparr>jw_repo := s'\<rparr>"]) (simp_all add: w_update_job_def s')
qed

text \<open>A job that is run ends in a terminal state, its message is acknowledged once, and other jobs are left alone.\<close>

lemma fail_job_settles:
  assumes "stored (jb_id j) (jw_repo w) \<noteq> None"
  shows "\<exists>w'. fail_job step env mid j err w = (Inr (Some (failed_job env j err)), w') \<and>
    stored (jb_id j) (jw_repo w') = Some (failed_job env j err) \<and> jw_queue w' = jq_ack mid (jw_queue w) \<and>
    (\<forall>k. k \<noteq> jb_id j \<longrightarrow> stored k (jw_repo w') = stored k (jw_repo w))"
proof -
  have i: "jb_id (failed_job env j err) = jb_id j" by (simp add: failed_job_def running_job_def)
  from assms have "stored (jb_id (failed_job env j err)) (jw_repo w) \<noteq> None" by (simp add: i)
  from update_cases [OF this] obtain w1 where "w_update_job step (failed_job env j err) w = (Inr (), w1)"
    "stored (jb_id j) (jw_repo w1) = Some (failed_job env j err)" "\<And>k. k \<noteq> jb_id j \<Longrightarrow> stored k (jw_repo w1) = stored k (jw_repo w)"
    "jw_queue w1 = jw_queue w" by (metis i)
  then show ?thesis by (simp add: fail_job_def ack_job_def publish_job_def)
qed

lemma execute_job_cases:
  assumes "stored (jb_id j) (jw_repo w) \<noteq> None"
  shows "(\<exists>err. execute_job step env mid j w = (Inl err, w)) \<or>
    (\<exists>p w'. je_profile env = Inr p \<and> execute_job step env mid j w = (Inr (completed_job env j (report_data env j p)), w') \<and>
      stored (jb_id j) (jw_repo w') = Some (completed_job env j (report_data env j p)) \<and> jw_queue w' = jq_ack mid (jw_queue w) \<and>
      (\<forall>k. k \<noteq> jb_id j \<longrightarrow> stored k (jw_repo w') = stored k (jw_repo w)))"
proof (cases "\<exists>p. jb_job_type j = ''create_full_report'' \<and> je_profile env = Inr p")
  case True
  then obtain p where p: "jb_job_type j = ''create_full_report''" "je_profile env = Inr p" by blast
  let ?d = "completed_job env j (report_data env j p)"
  define w1 where "w1 = (if je_file_ok env then w\<lparr>jw_artifacts := od_set (jb_id j) (report_data env j p) (jw_artifacts w)\<rparr> else w)"
  have e: "jw_repo w1 = jw_repo w" "jw_queue w1 = jw_queue w" by (simp_all add: w1_def)
  have i: "jb_id ?d = jb_id j" by (simp add: completed_job_def running_job_def)
  have "stored (jb_id ?d) (jw_repo w1) \<noteq> None" using assms by (simp add: i e)
  from update_cases [OF this] obtain w2 where "w_update_job step ?d w1 = (Inr (), w2)" "stored (jb_id j) (jw_repo w2) = Some ?d"
    "\<And>k. k \<noteq> jb_id j \<Longrightarrow> stored k (jw_repo w2) = stored k (jw_repo w1)" "jw_queue w2 = jw_queue w1" by (metis i)
  then show ?thesis using p e
    by (simp add: execute_job_def w1_def [symmetric] ack_job_def publish_job_def Let_def)
next
  case False
  then show ?thesis by (cases "je_profile env") (auto simp: execute_job_def)
qed

lemma run_job_settles:
  assumes "stored (jb_id j) (jw_repo w) = Some j"
  shows "\<exists>d w'. run_job step env mid j w = (Inr (Some d), w') \<and> job_settled stored env mid j d w w'"
proof (cases "jb_status j = ''COMPLETED'' \<or> jb_status j = ''FAILED''")
  case True
  with assms show ?thesis by (auto simp: run_job_def job_settled_def ack_job_def)
next
  case False
  have i: "jb_id (running_job env j) = jb_id j" by (simp add: running_job_def)
  have "stored (jb_id (running_job env j)) (jw_repo w) \<noteq> None" using assms by (simp add: i)
  from update_cases [OF this] obtain w1 where w1: "w_update_job step (running_job env j) w = (Inr (), w1)"
    "stored (jb_id j) (jw_repo w1) = Some (running_job env j)" "\<And>k. k \<noteq> jb_id j \<Longrightarrow> stored k (jw_repo w1) = stored k (jw_repo w)"
    "jw_queue w1 = jw_queue w" by (metis i)
  define w2 where "w2 = publish_job env (job_event env (je_event1 env) ''job.started'' j 1
                [(''job_id'', PStr (jb_id j)), (''status'', PStr ''RUNNING''), (''job_type'', PStr (jb_job_type j))]) w1"
  have w2: "jw_repo w2 = jw_repo w1" "jw_queue w2 = jw_queue w1" by (simp_all add: w2_def publish_job_def)
  have run: "run_job step env mid j w = (case execute_job step env mid j w2 of
               (Inr d, w3) \<Rightarrow> (Inr (Some d), w3) | (Inl err, w3) \<Rightarrow> fail_job step env mid j err w3)"
    using False w1(1) by (simp add: run_job_def w2_def)
  have st: "stored (jb_id j) (jw_repo w2) \<noteq> None" using w1(2) w2 by simp
  from execute_job_cases [OF st, of env mid] show ?thesis
  proof (elim disjE exE conjE)
    fix err assume e: "execute_job step env mid j w2 = (Inl err, w2)"
    from fail_job_settles [OF st, of env mid err] w1 w2 e run show ?thesis
      by (auto simp: job_settled_def failed_job_def running_job_def)
  next
    fix p w' assume "je_profile env = Inr p" "execute_job step env mid j w2 = (Inr (completed_job env j (report_data env j p)), w')"
      "stored (jb_id j) (jw_repo w') = Some (completed_job env j (report_data env j p))" "jw_queue w' = jq_ack mid (jw_queue w2)"
      "\<forall>k. k \<noteq> jb_id j \<longrightarrow> stored k (jw_repo w') = stored k (jw_repo w2)"
    with w1 w2 run show ?thesis by (auto simp: job_settled_def completed_job_def running_job_def)
  qed
qed

text \<open>The message of a job that the store has, or whose parameters can be read, settles that job.\<close>

lemma process_one_job_settles:
  assumes "valid (jw_repo w)" "jm_job_id m = Some jid" "jid \<noteq> []" and r: "stored jid (jw_repo w) = None \<Longrightarrow> job_of_message loads env jid m = Inr j0"
  shows "\<exists>j d w'. process_one_job step loads env mid m w = (Inr (Some d), w') \<and> jb_id j = jid \<and> job_settled stored env mid j d w w'"
proof (cases "stored jid (jw_repo w)")
  case (Some j)
  with stored_id assms(1) have i: "jb_id j = jid" by blast
  have p: "process_one_job step loads env mid m w = run_job step env mid j w"
    using assms(2,3) Some by (simp add: process_one_job_def get_job)
  from run_job_settles [of j w env mid] Some i p show ?thesis by auto
next
  case None
  with r have j0: "job_of_message loads env jid m = Inr j0" by blast
  then have i: "jb_id j0 = jid" by (auto simp: job_of_message_def split: option.splits)
  with None have "stored (jb_id j0) (jw_repo w) = None" by simp
  from create_job [OF this] obtain x s' where s': "step (Create_job j0) (jw_repo w) = (Inr x, s')" "stored (jb_id j0) s' = Some j0"
    "\<forall>k. k \<noteq> jb_id j0 \<longrightarrow> stored k s' = stored k (jw_repo w)" by blast
  let ?w = "w\<lparr>jw_repo := s'\<rparr>"
  have p: "process_one_job step loads env mid m w = run_job step env mid j0 ?w"
    using assms(2,3) None j0 s'(1) by (simp add: process_one_job_def get_job)
  from s'(2) have "stored (jb_id j0) (jw_repo ?w) = Some j0" by simp
  from run_job_settles [OF this, of env mid] obtain d w' where
    dw: "run_job step env mid j0 ?w = (Inr (Some d), w')" "job_settled stored env mid j0 d ?w w'" by blast
  from dw(2) s'(3) have "job_settled stored env mid j0 d w w'" by (simp add: job_settled_def)
  with p dw(1) i show ?thesis by auto
qed

text \<open>A second delivery of a settled job's message is acknowledged and changes nothing else.\<close>

lemma process_one_job_again:
  assumes "jm_job_id m = Some jid" "jid \<noteq> []" "stored jid (jw_repo w) = Some d" "jb_status d = ''COMPLETED'' \<or> jb_status d = ''FAILED''"
  shows "process_one_job step loads env mid m w = (Inr (Some d), ack_job mid w)"
  using assms by (simp add: process_one_job_def get_job run_job_def)

end

lemma mem_update_job_ok:
  "mem_get_job (jb_id j) s \<noteq> None \<Longrightarrow>
    mem_op (Update_job j) s = (Inr (R_job (Some j)), s\<lparr>m_jobs := od_set (jb_id j) j (m_jobs s)\<rparr>)"
  by (simp add: mem_get_job_def mem_update_job_def map_reply_def)

lemma mem_create_job_ok:
  "mem_get_job (jb_id j) s = None \<Longrightarrow>
    mem_op (Create_job j) s = (Inr (R_job (Some j)), s\<lparr>m_jobs := od_set (jb_id j) j (m_jobs s)\<rparr>)"
  by (simp add: mem_get_job_def mem_create_job_def map_reply_def)

interpretation mem_jobs: job_store mem_op mem_get_job "\<lambda>m. id_keyed jb_id (m_jobs m)"
proof unfold_locales
  show "mem_op (Get_job jid) s = (Inr (R_job (mem_get_job jid s)), s)" for jid s by simp
  show "id_keyed jb_id (m_jobs s) \<Longrightarrow> mem_get_job jid s = Some j \<Longrightarrow> jb_id j = jid" for s jid j
    unfolding mem_get_job_def by (rule id_keyed_id)
  show "\<exists>x s'. mem_op (Update_job j) s = (Inr x, s') \<and> mem_get_job (jb_id j) s' = Some j \<and>
      (\<forall>k. k \<noteq> jb_id j \<longrightarrow> mem_get_job k s' = mem_get_job k s)" if "mem_get_job (jb_id j) s \<noteq> None" for j s
    using mem_update_job_ok [OF that] by (simp add: mem_get_job_def)
  show "\<exists>x s'. mem_op (Create_job j) s = (Inr x, s') \<and> mem_get_job (jb_id j) s' = Some j \<and>
      (\<forall>k. k \<noteq> jb_id j \<longrightarrow> mem_get_job k s' = mem_get_job k s)" if "mem_get_job (jb_id j) s = None" for j s
    using mem_create_job_ok [OF that] by (simp add: mem_get_job_def)
qed

section \<open>What processing a message guarantees\<close>


definition sample_env :: job_env where
  "sample_env = \<lparr>je_created = ''t0'', je_started = ''t1'', je_completed = ''t2'', je_failed = ''t2'', je_report_id = ''rep_1'',
     je_event1 = ''evt_1'', je_event2 = ''evt_2'', je_stamp = ''t'', je_profile = Inr [(''row_count'', PInt 7)], je_file_ok = True,
     je_repo_text = (\<lambda>_. ''state error''), je_publisher = True\<rparr>"

definition sample_message :: "string \<Rightarrow> string \<Rightarrow> job_message" where
  "sample_message jid params = \<lparr>jm_job_id = Some jid, jm_job_type = Some ''create_full_report'', jm_status = Some ''PENDING'',
     jm_created_at = Some ''t0'', jm_params = Some params\<rparr>"

definition sample_loads :: "string \<Rightarrow> pydict option" where
  "sample_loads s = (if s = ''{}'' then Some [] else None)"

definition sample_world :: "(string \<times> job_message) list \<Rightarrow> mem_repo job_world" where
  "sample_world ms = \<lparr>jw_repo = mem_empty, jw_queue = \<lparr>jq_queue = ms, jq_acked = []\<rparr>, jw_events = [], jw_artifacts = []\<rparr>"


text \<open>
  An error of one message leaves the batch: the messages after it have left the queue and are neither
  processed nor acknowledged (\<open>run\<close> has no handler, and the Redis consumer only asks for new messages).
\<close>

lemma bad_params_raise:
  assumes "jm_job_id m = Some jid" "jid \<noteq> []" "mem_get_job jid (jw_repo w) = None"
    "loads (job_or_default (jm_params m) [CHR 0x7B, CHR 0x7D]) = None" "b = job_or_default (jm_params m) []"
  shows "process_one_job mem_op loads env mid m w = (Inl (Bad_params b), w)"
  using assms by (simp add: process_one_job_def job_of_message_def)

theorem batch_error_loses_rest:
  assumes "length (jq_queue (jw_queue w)) \<le> 10" "jq_queue (jw_queue w) = (mid, m) # ms"
    "process_one_job step loads (env 0) mid m (w\<lparr>jw_queue := (jw_queue w)\<lparr>jq_queue := []\<rparr>\<rparr>) = (Inl e, w1)"
  shows "run_once step loads env w = (Some e, w1)"
  using assms by (simp add: run_once_def jq_read_def)

theorem batch_error_loses_rest_instance:
  "let (r, w) = run_once mem_op sample_loads (\<lambda>_. sample_env)
       (sample_world [(''1-0'', sample_message ''job_a'' ''{''), (''2-0'', sample_message ''job_b'' ''{}'')])
   in r = Some (Bad_params ''{'') \<and> jq_queue (jw_queue w) = [] \<and> jq_acked (jw_queue w) = [] \<and> mem_get_job ''job_b'' (jw_repo w) = None"
proof -
  let ?m = "sample_message ''job_a'' ''{''"
  let ?w = "sample_world [(''1-0'', ?m), (''2-0'', sample_message ''job_b'' ''{}'')]"
  have "run_once mem_op sample_loads (\<lambda>_. sample_env) ?w =
    (Some (Bad_params ''{''), ?w\<lparr>jw_queue := (jw_queue ?w)\<lparr>jq_queue := []\<rparr>\<rparr>)"
  proof (rule batch_error_loses_rest)
    show "length (jq_queue (jw_queue ?w)) \<le> 10" "jq_queue (jw_queue ?w) = [(''1-0'', ?m), (''2-0'', sample_message ''job_b'' ''{}'')]"
      by (simp_all add: sample_world_def)
    show "process_one_job mem_op sample_loads sample_env ''1-0'' ?m (?w\<lparr>jw_queue := (jw_queue ?w)\<lparr>jq_queue := []\<rparr>\<rparr>) =
      (Inl (Bad_params ''{''), ?w\<lparr>jw_queue := (jw_queue ?w)\<lparr>jq_queue := []\<rparr>\<rparr>)"
      by (rule bad_params_raise [of _ "''job_a''"])
        (simp_all add: sample_message_def sample_world_def mem_empty_def mem_get_job_def job_or_default_def sample_loads_def)
  qed
  then show ?thesis by (simp add: sample_world_def mem_empty_def mem_get_job_def)
qed

text \<open>
  The mirror wins over the store whenever the first read saw an unfinished job: a mirror entry that is older
  than what the worker has stored in the meantime puts the old state back and drops the metadata.
\<close>

theorem stale_mirror_overwrites:
  assumes "mem_get_job (jb_id d) s = Some finished" "jb_status j = ''PENDING'' \<or> jb_status j = ''RUNNING''"
  shows "fst (resolve_with mem_op (Some j) (Some d) s) = Some (mirror_job d) \<and>
    mem_get_job (jb_id d) (snd (resolve_with mem_op (Some j) (Some d) s)) = Some (mirror_job d)"
proof -
  have i: "jb_id (mirror_job d) = jb_id d" by (simp add: mirror_job_def)
  with assms(1) have "mem_get_job (jb_id (mirror_job d)) s \<noteq> None" by simp
  from mem_jobs.update_job [OF this] obtain x s' where "mem_op (Update_job (mirror_job d)) s = (Inr x, s')"
    "mem_get_job (jb_id d) s' = Some (mirror_job d)" by (auto simp: i)
  with assms(2) show ?thesis by (simp add: resolve_with_def)
qed

end
