(* ===== verification/App_Policy.thy ===== *)
theory App_Policy
  imports App_Budget
begin

text \<open>
  Model policy (\<open>services/app/app/model_policy/policy.py\<close>, \<open>pricing.py\<close>, \<open>context.py\<close>, \<open>runtime.py\<close>)
  and the governed model call of \<open>LiteLLMClient\<close> in \<open>services/app/app/llm.py\<close>: entitlement, per-call
  cap, reservation in the run's ledger, the proxy call, then commit or release, over the primary
  alias and its permitted fallbacks.

  The proxy call is an argument. It receives the attempt's number and payload and may change the
  world and the shared ledger, since other threads run meanwhile.
\<close>

section \<open>Policy\<close>

datatype policy_exn = PolicyConfigError string | PolicyDenied string

record role_policy =
  rp_alias :: string
  rp_max_tokens :: "int option"
  rp_fallbacks :: "string list"

record model_policy =
  mp_roles :: "(string, role_policy) odict"
  mp_providers :: "(string, string) odict"
  mp_allowlists :: "(string, string list) odict"
  mp_cross :: bool

definition ROLES :: "string list" where "ROLES = [''classifier'', ''planner'', ''answer'']"

definition ALL_TENANTS :: string where "ALL_TENANTS = ''*''"

definition check_role :: "(string, string) odict \<Rightarrow> bool \<Rightarrow> string \<times> role_policy \<Rightarrow> policy_exn + unit" where
  "check_role providers cross = (\<lambda>(role, rp).
     if role \<notin> set ROLES then Inl (PolicyConfigError ''unknown role'')
     else if \<exists>alias \<in> set (rp_alias rp # rp_fallbacks rp). map_of providers alias = None
     then Inl (PolicyConfigError ''unknown alias'')
     else if \<exists>fb \<in> set (rp_fallbacks rp). map_of providers fb \<noteq> map_of providers (rp_alias rp) \<and> \<not> cross
     then Inl (PolicyConfigError ''crosses providers'')
     else Inr ())"

definition make_policy :: "model_policy \<Rightarrow> policy_exn + model_policy" where
  "make_policy p = try_bind (try_map (check_role (mp_providers p) (mp_cross p)) (mp_roles p)) (\<lambda>_. Inr p)"

definition default_policy :: "string \<Rightarrow> string \<Rightarrow> string \<Rightarrow> policy_exn + model_policy" where
  "default_policy planner answer classifier = make_policy
     \<lparr>mp_roles = [(''classifier'', \<lparr>rp_alias = classifier, rp_max_tokens = None, rp_fallbacks = []\<rparr>),
                  (''planner'', \<lparr>rp_alias = planner, rp_max_tokens = Some 512, rp_fallbacks = []\<rparr>),
                  (''answer'', \<lparr>rp_alias = answer, rp_max_tokens = Some 1024, rp_fallbacks = []\<rparr>)],
      mp_providers = map (\<lambda>a. (a, ''bedrock'')) (remdups [classifier, planner, answer]),
      mp_allowlists = [], mp_cross = False\<rparr>"

definition entitled :: "model_policy \<Rightarrow> string \<Rightarrow> string \<Rightarrow> bool" where
  "entitled p tenant alias =
     (if mp_allowlists p = [] then True
      else case (case map_of (mp_allowlists p) tenant of Some a \<Rightarrow> Some a | None \<Rightarrow> map_of (mp_allowlists p) ALL_TENANTS) of
             None \<Rightarrow> False | Some allowed \<Rightarrow> alias \<in> set allowed)"

definition resolve :: "model_policy \<Rightarrow> string \<Rightarrow> string \<Rightarrow> policy_exn + role_policy" where
  "resolve p role tenant = (case map_of (mp_roles p) role of
       None \<Rightarrow> Inl (PolicyDenied ''no model configured'')
     | Some rp \<Rightarrow> if \<not> entitled p tenant (rp_alias rp) then Inl (PolicyDenied ''may not use'') else Inr rp)"

definition allowed_fallbacks :: "model_policy \<Rightarrow> role_policy \<Rightarrow> string \<Rightarrow> string list \<times> string list" where
  "allowed_fallbacks p rp tenant = (let ok = filter (entitled p tenant) (rp_fallbacks rp)
     in (ok, filter (\<lambda>a. a \<notin> set ok) (rp_fallbacks rp)))"

section \<open>Pricing\<close>

type_synonym rate = "pyfloat \<times> pyfloat"

record pricing_table =
  pt_version :: string
  pt_rates :: "string \<rightharpoonup> rate"

definition PRICING_VERSION :: string where "PRICING_VERSION = ''2026-10-bedrock-nova-v2''"

definition MODEL_RATES :: "(string, rate) odict" where
  "MODEL_RATES = [(''amazon.nova-micro-v1:0'', (35/1000, 140/1000)), (''amazon.nova-pro-v1:0'', (8/10, 32/10))]"

definition ALIAS_MODELS :: "(string, string) odict" where
  "ALIAS_MODELS = [(''taxi-classifier'', ''amazon.nova-micro-v1:0''), (''taxi-planner'', ''amazon.nova-pro-v1:0''),
     (''taxi-answer'', ''amazon.nova-micro-v1:0'')]"

definition rate_of :: "string \<Rightarrow> rate option" where
  "rate_of alias = map_of MODEL_RATES (case map_of ALIAS_MODELS alias of None \<Rightarrow> alias | Some m \<Rightarrow> m)"

definition estimate :: "pricing_table \<Rightarrow> string \<Rightarrow> int \<Rightarrow> int \<Rightarrow> pyfloat option" where
  "estimate pt alias input output = (case pt_rates pt alias of None \<Rightarrow> None
     | Some rate \<Rightarrow> Some ((of_int input * fst rate + of_int output * snd rate) / 1000000))"

definition default_pricing :: "string list \<Rightarrow> pricing_table" where
  "default_pricing aliases = \<lparr>pt_version = PRICING_VERSION, pt_rates = (\<lambda>a. if a \<in> set aliases then rate_of a else None)\<rparr>"

record policy_runtime =
  rt_policy :: model_policy
  rt_pricing :: pricing_table

definition default_runtime :: "string \<Rightarrow> string \<Rightarrow> int option \<Rightarrow> pyfloat option \<Rightarrow> policy_exn + (policy_runtime \<times> run_budgets)" where
  "default_runtime planner answer max_tokens max_usd =
     try_bind (default_policy planner answer ''taxi-classifier'') (\<lambda>p.
       Inr (\<lparr>rt_policy = p, rt_pricing = default_pricing (map fst (mp_providers p))\<rparr>,
            \<lparr>rb_max_tokens = max_tokens, rb_max_usd = max_usd, rb_runs = Map.empty\<rparr>))"

section \<open>The governed call\<close>

record call_context =
  cc_tenant :: string
  cc_run_id :: "string option"

definition current_call_context :: "call_context option \<Rightarrow> call_context" where
  "current_call_context c = (case c of None \<Rightarrow> \<lparr>cc_tenant = ''default'', cc_run_id = None\<rparr> | Some x \<Rightarrow> x)"

text \<open>A request body: \<open>pl_tools\<close> is the truth value of its tools, \<open>pl_messages\<close> the JSON text of its messages; the other keys are the extension.\<close>

record payload =
  pl_model :: string
  pl_max_tokens :: "int option"
  pl_tools :: bool
  pl_messages :: string

record llm_result =
  lr_input :: int
  lr_output :: int
  usage_known :: bool
  cost_usd :: "pyfloat option"
  fallback_used :: bool

datatype llm_exn = LLMProviderError (retryable: bool) (code: string) | Missing_run string | Raised string | Unreachable

definition payload_role :: "'z payload_scheme \<Rightarrow> string" where
  "payload_role pl = (if pl_tools pl then ''planner'' else ''answer'')"

text \<open>\<open>text.split()\<close>: the maximal runs of characters that are not white space.\<close>

function py_split :: "string \<Rightarrow> string list" where
  "py_split s = (let r = dropWhile py_isspace s in
     if r = [] then [] else takeWhile (\<lambda>c. \<not> py_isspace c) r # py_split (dropWhile (\<lambda>c. \<not> py_isspace c) r))"
  by auto
termination
proof (relation "measure length", goal_cases)
  case (2 s r)
  then have h: "r \<noteq> []" "\<not> py_isspace (hd r)" using hd_dropWhile [of py_isspace s] by simp_all
  then have "length (dropWhile (\<lambda>c. \<not> py_isspace c) r) < length r"
    by (cases r) (auto simp: less_Suc_eq_le length_dropWhile_le)
  also have "length r \<le> length s" using 2 by (simp add: length_dropWhile_le)
  finally show ?case by simp
qed simp

declare py_split.simps [simp del]

definition estimate_tokens :: "string \<Rightarrow> int" where
  "estimate_tokens text = (let words = py_split text in if text = [] then 0 else if words = [] then 0
     else max 1 (py_trunc (of_nat (length words) * (133 / 100))))"

text \<open>\<open>a or b\<close> on optional integers: \<^const>\<open>None\<close> and zero are false.\<close>

definition or_int :: "int option \<Rightarrow> int option \<Rightarrow> int option" where
  "or_int a b = (case a of None \<Rightarrow> b | Some k \<Rightarrow> if k = 0 then b else Some k)"

definition capped_tokens :: "int option \<Rightarrow> int option \<Rightarrow> int option" where
  "capped_tokens asked cap = (let m = or_int asked cap in
     case (cap, m) of (Some c, Some k) \<Rightarrow> Some (min k c) | _ \<Rightarrow> m)"

type_synonym ('w, 'z) proxy_call = "nat \<Rightarrow> 'z payload_scheme \<Rightarrow> 'w \<times> run_budgets \<Rightarrow> (llm_exn + llm_result) \<times> 'w \<times> run_budgets"

definition release_then :: "reservation option \<Rightarrow> llm_exn \<Rightarrow> 'w \<times> run_budgets \<Rightarrow> (llm_exn + llm_result) \<times> 'w \<times> run_budgets" where
  "release_then rv e s = (case rv of None \<Rightarrow> (Inl e, s)
     | Some r \<Rightarrow> (case rb_release r (snd s) of Inl _ \<Rightarrow> (Inl (Missing_run (rv_run_id r)), s) | Inr b \<Rightarrow> (Inl e, fst s, b)))"

definition commit_then :: "reservation option \<Rightarrow> llm_result \<Rightarrow> bool \<Rightarrow> 'w \<times> run_budgets \<Rightarrow> (llm_exn + llm_result) \<times> 'w \<times> run_budgets" where
  "commit_then rv res fb s = (case rv of None \<Rightarrow> (Inr (res\<lparr>fallback_used := fb\<rparr>), s)
     | Some r \<Rightarrow> (case rb_commit r (if usage_known res then Some (lr_input res) else None)
                          (if usage_known res then Some (lr_output res) else None) (cost_usd res) (snd s) of
           Inl _ \<Rightarrow> (Inl (Missing_run (rv_run_id r)), s)
         | Inr b \<Rightarrow> (Inr (res\<lparr>fallback_used := fb\<rparr>), fst s, b)))"

definition reserve_for ::
  "pricing_table \<Rightarrow> string option \<Rightarrow> string \<Rightarrow> int \<Rightarrow> int \<Rightarrow> run_budgets \<Rightarrow> (llm_exn + reservation option) \<times> run_budgets" where
  "reserve_for pt run_id alias reserve_in reserve_out b = (case run_id of None \<Rightarrow> (Inr None, b)
     | Some run \<Rightarrow> (case rb_reserve run (reserve_in + reserve_out) (estimate pt alias reserve_in reserve_out) b of
           (Inl _, b') \<Rightarrow> (Inl (LLMProviderError False ''run_budget_exhausted''), b')
         | (Inr r, b') \<Rightarrow> (Inr (Some r), b')))"

definition may_fall_back :: "bool \<Rightarrow> llm_exn \<Rightarrow> bool" where
  "may_fall_back is_last e = (case e of LLMProviderError retry c \<Rightarrow> \<not> is_last \<and> retry \<and> \<not> startswith ''bedrock_budget'' c | _ \<Rightarrow> False)"

fun try_candidates ::
  "pricing_table \<Rightarrow> string option \<Rightarrow> int option \<Rightarrow> int \<Rightarrow> int \<Rightarrow> 'z payload_scheme \<Rightarrow> ('w, 'z) proxy_call \<Rightarrow> nat \<Rightarrow> string list
   \<Rightarrow> 'w \<times> run_budgets \<Rightarrow> (llm_exn + llm_result) \<times> 'w \<times> run_budgets" where
  "try_candidates pt run_id max_tokens rin rout pl call index [] s = (Inl Unreachable, s)"
| "try_candidates pt run_id max_tokens rin rout pl call index (alias # rest) s =
     (let attempt = pl\<lparr>pl_model := alias, pl_max_tokens := (if max_tokens \<noteq> None then max_tokens else pl_max_tokens pl)\<rparr> in
      case reserve_for pt run_id alias rin rout (snd s) of
        (Inl e, b) \<Rightarrow> (Inl e, fst s, b)
      | (Inr rv, b) \<Rightarrow>
          (case call (index + 1) attempt (fst s, b) of
             (Inr res, s1) \<Rightarrow> commit_then rv res (index > 0) s1
           | (Inl e, s1) \<Rightarrow>
               (case release_then rv e s1 of
                  (r, s2) \<Rightarrow> if may_fall_back (rest = []) e \<and> r = Inl e
                             then try_candidates pt run_id max_tokens rin rout pl call (index + 1) rest s2
                             else (r, s2))))"

definition governed ::
  "policy_runtime \<Rightarrow> call_context \<Rightarrow> 'z payload_scheme \<Rightarrow> ('w, 'z) proxy_call \<Rightarrow> 'w \<times> run_budgets
   \<Rightarrow> (llm_exn + llm_result) \<times> 'w \<times> run_budgets" where
  "governed rt ctx pl call s =
     (case resolve (rt_policy rt) (payload_role pl) (cc_tenant ctx) of
        Inl _ \<Rightarrow> (Inl (LLMProviderError False ''model_not_entitled''), s)
      | Inr rp \<Rightarrow>
          let fallbacks = fst (allowed_fallbacks (rt_policy rt) rp (cc_tenant ctx));
              max_tokens = capped_tokens (pl_max_tokens pl) (rp_max_tokens rp);
              reserve_out = the (or_int max_tokens (Some 1024));
              reserve_in = estimate_tokens (pl_messages pl)
          in try_candidates (rt_pricing rt) (cc_run_id ctx) max_tokens reserve_in reserve_out pl call 0
               (rp_alias rp # fallbacks) s)"

section \<open>Holds\<close>

text \<open>
  What the governed call needs of a ledger: a reservation adds its amount to what is held for its
  run, and settling it, by commit or release, takes exactly that amount away. Whatever happens in
  between, if it leaves the holds alone then so does the whole bracket.
\<close>

locale hold_ledger =
  fixes reserve :: "'a \<Rightarrow> 'b \<Rightarrow> ('r \<times> 'b) option" and settle :: "'c \<Rightarrow> 'r \<Rightarrow> 'b \<Rightarrow> 'b option"
    and hold :: "'b \<Rightarrow> 'k \<Rightarrow> 'n :: ab_group_add" and amount :: "'r \<Rightarrow> 'k \<Rightarrow> 'n"
  assumes reserve_hold: "reserve a b = Some (r, b') \<Longrightarrow> hold b' k = hold b k + amount r k"
    and settle_hold: "settle c r b = Some b' \<Longrightarrow> hold b' k = hold b k - amount r k"
begin

lemma bracket_hold:
  assumes "reserve a b = Some (r, b1)" "hold b2 = hold b1" "settle c r b2 = Some b3"
  shows "hold b3 = hold b"
proof
  show "hold b3 k = hold b k" for k
    using reserve_hold [OF assms(1)] settle_hold [OF assms(3)] assms(2) by simp
qed

end

definition run_hold :: "run_budgets \<Rightarrow> string \<Rightarrow> int" where
  "run_hold b run = held_tokens (setdefault_run run b)"

definition settle_budget :: "(int option \<times> int option \<times> pyfloat option) option \<Rightarrow> reservation \<Rightarrow> run_budgets \<Rightarrow> run_budget_exn + run_budgets" where
  "settle_budget c r b = (case c of None \<Rightarrow> rb_release r b | Some (i, out, u) \<Rightarrow> rb_commit r i out u b)"

lemma settle_cases:
  assumes "settle_budget c r b = Inr b'"
  obtains st st' where "rb_runs b (rv_run_id r) = Some st" "b' = put_run (rv_run_id r) st' b"
    "held_tokens st' = held_tokens st - rv_tokens r" "held_usd st' = held_usd st - usd_or_zero (rv_usd r)"
  using assms
  by (auto simp: settle_budget_def rb_release_def rb_commit_def unhold_def commit_state_def Let_def
      split: option.splits prod.splits)

lemma reserve_cases:
  assumes "rb_reserve run tokens usd b = (Inr r, b')"
  obtains st' where "b' = put_run run st' b" "r = \<lparr>rv_run_id = run, rv_tokens = tokens, rv_usd = usd\<rparr>"
    "held_tokens st' = held_tokens (setdefault_run run b) + tokens"
    "held_usd st' = held_usd (setdefault_run run b) + usd_or_zero usd"
  using assms by (auto simp: rb_reserve_def Let_def dest!: reserve_state_held split: sum.splits)

interpretation tokens: hold_ledger
  "\<lambda>(run, tokens, usd) b. case rb_reserve run tokens usd b of (Inl _, _) \<Rightarrow> None | (Inr r, b') \<Rightarrow> Some (r, b')"
  "\<lambda>c r b. case settle_budget c r b of Inl _ \<Rightarrow> None | Inr b' \<Rightarrow> Some b'"
  run_hold "\<lambda>r run. if rv_run_id r = run then rv_tokens r else 0"
proof
  show "run_hold b' k = run_hold b k + (if rv_run_id r = k then rv_tokens r else 0)"
    if "(case a of (run, tokens, usd) \<Rightarrow> \<lambda>b. case rb_reserve run tokens usd b of (Inl _, _) \<Rightarrow> None | (Inr r, b') \<Rightarrow> Some (r, b')) b = Some (r, b')"
    for a b r b' k
    using that by (auto simp: run_hold_def elim!: reserve_cases split: prod.splits sum.splits)
  show "run_hold b' k = run_hold b k - (if rv_run_id r = k then rv_tokens r else 0)"
    if "(case settle_budget c r b of Inl _ \<Rightarrow> None | Inr b' \<Rightarrow> Some b') = Some b'" for c r b b' k
    using that by (auto simp: run_hold_def setdefault_run_def put_run_def elim!: settle_cases split: sum.splits)
qed

text \<open>A call that leaves the holds alone and drops no run.\<close>

definition quiet :: "run_budgets \<Rightarrow> run_budgets \<Rightarrow> bool" where
  "quiet b b' \<longleftrightarrow> run_hold b' = run_hold b \<and> (\<forall>run. rb_runs b run \<noteq> None \<longrightarrow> rb_runs b' run \<noteq> None)"

lemma quiet_refl [simp]: "quiet b b" by (simp add: quiet_def)

lemma quiet_trans [trans]: "quiet a b \<Longrightarrow> quiet b c \<Longrightarrow> quiet a c" by (simp add: quiet_def)

lemma reserve_refused_quiet:
  assumes "rb_reserve run t u b = (Inl e, b')"
  shows "quiet b b'"
proof -
  have "b' = put_run run (setdefault_run run b) b"
    using assms by (auto simp: rb_reserve_def Let_def split: sum.splits)
  then show ?thesis by (auto simp: quiet_def run_hold_def)
qed

lemma bracket_quiet:
  assumes r: "rb_reserve run t u b = (Inr r, b1)" and q: "quiet b1 b2"
  shows "\<exists>b3. settle_budget c r b2 = Inr b3 \<and> quiet b b3"
proof -
  obtain st' where b1: "b1 = put_run run st' b" and rv: "rv_run_id r = run"
    using r by (rule reserve_cases) simp
  have "rb_runs b2 run \<noteq> None" using q b1 by (auto simp: quiet_def)
  then obtain b3 where b3: "settle_budget c r b2 = Inr b3"
    using rv that by (cases c) (auto simp: settle_budget_def rb_release_def rb_commit_def)
  have "run_hold b3 = run_hold b"
    by (rule tokens.bracket_hold [of "(run, t, u)" b r b1 b2 c]) (use r q b3 in \<open>auto simp: quiet_def\<close>)
  moreover have "\<forall>k. rb_runs b k \<noteq> None \<longrightarrow> rb_runs b3 k \<noteq> None"
    using q b1 b3 by (auto simp: quiet_def elim!: settle_cases)
  ultimately show ?thesis using b3 by (auto simp: quiet_def)
qed

lemma release_then_quiet:
  assumes r: "reserve_for pt run alias rin rout b = (Inr rv, b1)" and q: "quiet b1 (snd s)"
  shows "quiet b (snd (snd (release_then rv e s)))" "fst (release_then rv e s) = Inl e"
proof -
  have "quiet b (snd (snd (release_then rv e s))) \<and> fst (release_then rv e s) = Inl e"
  proof (cases run)
    case None with r q show ?thesis by (simp add: reserve_for_def release_then_def)
  next
    case (Some run')
    then obtain r0 where r0: "rb_reserve run' (rin + rout) (estimate pt alias rin rout) b = (Inr r0, b1)" "rv = Some r0"
      using r by (auto simp: reserve_for_def split: prod.splits sum.splits)
    from bracket_quiet [OF r0(1) q, of None] r0(2) show ?thesis
      by (auto simp: settle_budget_def release_then_def)
  qed
  then show "quiet b (snd (snd (release_then rv e s)))" "fst (release_then rv e s) = Inl e" by simp_all
qed

lemma commit_then_quiet:
  assumes r: "reserve_for pt run alias rin rout b = (Inr rv, b1)" and q: "quiet b1 (snd s)"
  shows "quiet b (snd (snd (commit_then rv res fb s)))" "fst (commit_then rv res fb s) = Inr (res\<lparr>fallback_used := fb\<rparr>)"
proof -
  have "quiet b (snd (snd (commit_then rv res fb s))) \<and> fst (commit_then rv res fb s) = Inr (res\<lparr>fallback_used := fb\<rparr>)"
  proof (cases run)
    case None with r q show ?thesis by (simp add: reserve_for_def commit_then_def)
  next
    case (Some run')
    then obtain r0 where r0: "rb_reserve run' (rin + rout) (estimate pt alias rin rout) b = (Inr r0, b1)" "rv = Some r0"
      using r by (auto simp: reserve_for_def split: prod.splits sum.splits)
    from bracket_quiet [OF r0(1) q, of "Some (if usage_known res then Some (lr_input res) else None,
        if usage_known res then Some (lr_output res) else None, cost_usd res)"] r0(2) show ?thesis
      by (auto simp: settle_budget_def commit_then_def)
  qed
  then show "quiet b (snd (snd (commit_then rv res fb s)))"
    "fst (commit_then rv res fb s) = Inr (res\<lparr>fallback_used := fb\<rparr>)" by simp_all
qed

lemma reserve_for_refused_quiet: "reserve_for pt run alias rin rout b = (Inl e, b1) \<Longrightarrow> quiet b b1"
  by (auto simp: reserve_for_def dest: reserve_refused_quiet split: option.splits prod.splits sum.splits)

lemma try_candidates_quiet:
  assumes "\<And>n att s. quiet (snd s) (snd (snd (call n att s)))"
  shows "quiet (snd s) (snd (snd (try_candidates pt run mt rin rout pl call index as s)))"
proof (induction as arbitrary: index s)
  case (Cons a as)
  define att where "att = pl\<lparr>pl_model := a, pl_max_tokens := (if mt \<noteq> None then mt else pl_max_tokens pl)\<rparr>"
  obtain r b where rb: "reserve_for pt run a rin rout (snd s) = (r, b)" by fastforce
  show ?case
  proof (cases r)
    case (Inl e) with rb show ?thesis by (simp add: reserve_for_refused_quiet)
  next
    case (Inr rv)
    obtain o1 s1 where c: "call (index + 1) att (fst s, b) = (o1, s1)" by (rule prod.exhaust)
    have q: "quiet b (snd s1)" using assms [of "(fst s, b)" "index + 1" att] c by simp
    note rel = release_then_quiet [OF rb [unfolded Inr] q] and com = commit_then_quiet [OF rb [unfolded Inr] q]
    show ?thesis
    proof (cases o1)
      case (Inr res) with c rb \<open>r = Inr rv\<close> com(1) show ?thesis by (simp add: att_def)
    next
      case (Inl e)
      with c rb \<open>r = Inr rv\<close> rel(1) [of e] Cons.IH [of "snd (release_then rv e s1)" "index + 1"] show ?thesis
        by (auto simp: att_def case_prod_unfold intro: quiet_trans)
    qed
  qed
qed simp


definition echo_call :: "(payload list, unit) proxy_call" where
  "echo_call n att s = (if n = 1 then Inl (LLMProviderError True ''litellm_proxy_unavailable'')
     else Inr \<lparr>lr_input = 10, lr_output = 20, usage_known = True, cost_usd = Some (1/1000), fallback_used = False\<rparr>,
     att # fst s, snd s)"

definition demo_policy :: model_policy where
  "demo_policy = \<lparr>mp_roles = [(''answer'', \<lparr>rp_alias = ''taxi-answer'', rp_max_tokens = Some 1024, rp_fallbacks = [''taxi-planner'', ''taxi-classifier'']\<rparr>)],
     mp_providers = [(''taxi-answer'', ''bedrock''), (''taxi-planner'', ''bedrock''), (''taxi-classifier'', ''bedrock'')],
     mp_allowlists = [(''acme'', [''taxi-answer'', ''taxi-classifier''])], mp_cross = False\<rparr>"

definition demo_runtime :: policy_runtime where
  "demo_runtime = \<lparr>rt_policy = demo_policy, rt_pricing = default_pricing [''taxi-answer'', ''taxi-planner'', ''taxi-classifier'']\<rparr>"

definition demo_context :: call_context where
  "demo_context = \<lparr>cc_tenant = ''acme'', cc_run_id = Some ''r''\<rparr>"

definition demo_payload :: payload where
  "demo_payload = \<lparr>pl_model = ''taxi-answer'', pl_max_tokens = Some 4096, pl_tools = False, pl_messages = ''[]''\<rparr>"

definition demo_ledger :: run_budgets where
  "demo_ledger = \<lparr>rb_max_tokens = Some 5000, rb_max_usd = Some 1, rb_runs = Map.empty\<rparr>"


section \<open>Entitlement\<close>

definition attempt_ok :: "model_policy \<Rightarrow> string \<Rightarrow> string \<Rightarrow> 'z payload_scheme \<Rightarrow> bool" where
  "attempt_ok p tenant role att \<longleftrightarrow> (case map_of (mp_roles p) role of None \<Rightarrow> False | Some rp \<Rightarrow>
     pl_model att \<in> set (rp_alias rp # rp_fallbacks rp) \<and> entitled p tenant (pl_model att) \<and>
     (mp_cross p \<or> map_of (mp_providers p) (pl_model att) = map_of (mp_providers p) (rp_alias rp)) \<and>
     (case rp_max_tokens rp of None \<Rightarrow> True
      | Some c \<Rightarrow> (case pl_max_tokens att of None \<Rightarrow> False | Some k \<Rightarrow> k \<le> c)))"

lemma make_policy_role:
  assumes "make_policy p = Inr p'" "map_of (mp_roles p) role = Some rp"
  shows "check_role (mp_providers p) (mp_cross p) (role, rp) = Inr ()"
proof -
  have "try_map f xs = Inr ys \<Longrightarrow> x \<in> set xs \<Longrightarrow> \<exists>y. f x = Inr y" for f :: "string \<times> role_policy \<Rightarrow> policy_exn + unit" and xs ys x
    by (induction xs arbitrary: ys) auto
  moreover obtain ys where "try_map (check_role (mp_providers p) (mp_cross p)) (mp_roles p) = Inr ys"
    using assms(1) by (auto simp: make_policy_def)
  ultimately show ?thesis using map_of_SomeD [OF assms(2)] by fastforce
qed

lemma fallbacks_same_provider:
  assumes "make_policy p = Inr p'" "map_of (mp_roles p) role = Some rp" "a \<in> set (rp_alias rp # rp_fallbacks rp)"
  shows "mp_cross p \<or> map_of (mp_providers p) a = map_of (mp_providers p) (rp_alias rp)"
  using make_policy_role [OF assms(1,2)] assms(3) by (auto simp: check_role_def split: if_splits)

lemma capped_tokens_cap: "capped_tokens asked (Some c) = Some k \<Longrightarrow> k \<le> c" "capped_tokens asked (Some c) \<noteq> None"
  by (auto simp: capped_tokens_def or_int_def Let_def split: option.splits if_splits)

lemma release_then_world [simp]: "fst (snd (release_then rv e s)) = fst s"
  by (auto simp: release_then_def split: option.splits sum.splits)

lemma commit_then_world [simp]: "fst (snd (commit_then rv res fb s)) = fst s"
  by (auto simp: commit_then_def split: option.splits sum.splits)

lemma try_candidates_world:
  assumes step: "\<And>n att w b. P att \<Longrightarrow> Q w \<Longrightarrow> Q (fst (snd (call n att (w, b))))"
    and P: "\<And>a. a \<in> set as \<Longrightarrow> P (pl\<lparr>pl_model := a, pl_max_tokens := (if mt \<noteq> None then mt else pl_max_tokens pl)\<rparr>)"
    and "Q (fst s)"
  shows "Q (fst (snd (try_candidates pt run mt rin rout pl call index as s)))"
  using P \<open>Q (fst s)\<close>
proof (induction as arbitrary: index s)
  case (Cons a as)
  define att where "att = pl\<lparr>pl_model := a, pl_max_tokens := (if mt \<noteq> None then mt else pl_max_tokens pl)\<rparr>"
  obtain r b where rb: "reserve_for pt run a rin rout (snd s) = (r, b)" by fastforce
  show ?case
  proof (cases r)
    case (Inl e) with rb Cons.prems show ?thesis by simp
  next
    case (Inr rv)
    obtain o1 s1 where c: "call (index + 1) att (fst s, b) = (o1, s1)" by (rule prod.exhaust)
    have "P att" using Cons.prems(1) [of a] by (simp add: att_def)
    from step [OF this Cons.prems(2), of "index + 1" b] c have Q1: "Q (fst s1)" by simp
    show ?thesis
    proof (cases o1)
      case (Inr res) with c rb \<open>r = Inr rv\<close> Q1 show ?thesis by (simp add: att_def)
    next
      case (Inl e)
      have "Q (fst (snd (try_candidates pt run mt rin rout pl call (index + 1) as (snd (release_then rv e s1)))))"
        using Cons.IH [of "snd (release_then rv e s1)" "index + 1"] Cons.prems(1) Q1 by simp
      with Inl c rb \<open>r = Inr rv\<close> Q1 show ?thesis by (simp add: att_def case_prod_unfold)
    qed
  qed
qed simp

lemma governed_attempt_ok:
  assumes "make_policy p = Inr p'" "resolve p role tenant = Inr rp"
    and "a \<in> set (rp_alias rp # fst (allowed_fallbacks p rp tenant))" "mt = capped_tokens asked (rp_max_tokens rp)"
  shows "attempt_ok p tenant role (pl\<lparr>pl_model := a, pl_max_tokens := (if mt \<noteq> None then mt else pl_max_tokens pl)\<rparr>)"
proof -
  have rp: "map_of (mp_roles p) role = Some rp" "entitled p tenant (rp_alias rp)"
    using assms(2) by (auto simp: resolve_def split: option.splits if_splits)
  have "a \<in> set (rp_alias rp # rp_fallbacks rp)" "entitled p tenant a"
    using assms(3) rp(2) by (auto simp: allowed_fallbacks_def Let_def)
  moreover have "rp_max_tokens rp = Some c \<Longrightarrow> \<exists>k. mt = Some k \<and> k \<le> c" for c
    using capped_tokens_cap [of asked c] assms(4) by auto
  ultimately show ?thesis
    using fallbacks_same_provider [OF assms(1) rp(1)] rp(1)
    by (auto simp: attempt_ok_def split: option.splits)
qed

text \<open>
  C18. Every request that a governed call sends to the proxy uses a model that the role names and the
  tenant is entitled to, stays with the provider of the role's primary model unless the policy file
  allows otherwise, and asks for no more output than the role's cap: any property of the world that
  such requests keep is kept by the whole call, fallbacks included.
\<close>

theorem governed_attempts_allowed:
  assumes "make_policy (rt_policy rt) = Inr p"
    and "\<And>n att w b. attempt_ok (rt_policy rt) (cc_tenant ctx) (payload_role pl) att \<Longrightarrow> Q w \<Longrightarrow> Q (fst (snd (call n att (w, b))))"
    and "Q (fst s)"
  shows "Q (fst (snd (governed rt ctx pl call s)))"
proof (cases "resolve (rt_policy rt) (payload_role pl) (cc_tenant ctx)")
  case (Inl e) then show ?thesis using assms(3) by (simp add: governed_def)
next
  case (Inr rp)
  show ?thesis
    unfolding governed_def Inr sum.case Let_def
    by (rule try_candidates_world [where P = "attempt_ok (rt_policy rt) (cc_tenant ctx) (payload_role pl)" and Q = Q])
       (erule (1) assms(2), rule governed_attempt_ok [OF assms(1) Inr _ refl], assumption, rule assms(3))
qed

theorem governed_attempts_allowed_witness:
  "list_all (attempt_ok demo_policy ''acme'' ''answer'')
     (fst (snd (governed demo_runtime demo_context demo_payload echo_call ([], demo_ledger))))"
proof -
  have "make_policy (rt_policy demo_runtime) = Inr demo_policy"
    by (simp add: demo_runtime_def demo_policy_def make_policy_def check_role_def ROLES_def)
  from governed_attempts_allowed [OF this, of demo_context demo_payload "list_all (attempt_ok demo_policy ''acme'' ''answer'')"
      echo_call "([], demo_ledger)"]
  show ?thesis by (simp add: echo_call_def demo_runtime_def demo_context_def demo_payload_def payload_role_def)
qed

text \<open>An error that is not transient, or comes from the monthly guard, ends the call: nothing is tried after it.\<close>

lemma no_fallback_past_guard:
  assumes "call (index + 1) (pl\<lparr>pl_model := a, pl_max_tokens := (if mt \<noteq> None then mt else pl_max_tokens pl)\<rparr>) (w, b) =
      (Inl (LLMProviderError retry c), w', b')"
    and "\<not> retry \<or> startswith ''bedrock_budget'' c" "reserve_for pt run a rin rout b0 = (Inr rv, b)"
  shows "fst (snd (try_candidates pt run mt rin rout pl call index (a # as) (w, b0))) = w'"
  using assms by (auto simp: may_fall_back_def case_prod_unfold)

section \<open>Calls issued by an agent framework\<close>

text \<open>
  The framework owns the HTTP call, so the client brackets it with \<open>begin_agent_call\<close> and
  \<open>end_agent_call\<close> or \<open>release_agent_call\<close>. An \<open>AgentCallReservation\<close> is an object with a shared flag
  \<open>_open\<close>: here an entry of a store, named by its index.
\<close>

record agent_call =
  ac_alias :: string
  ac_max_tokens :: "int option"
  ac_reservation :: "reservation option"
  ac_open :: bool

record agent_state =
  ag_calls :: "agent_call list"
  ag_budgets :: run_budgets

definition resolve_agent_role :: "policy_runtime \<Rightarrow> call_context \<Rightarrow> string \<Rightarrow> llm_exn + string \<times> int option" where
  "resolve_agent_role rt ctx role = (case resolve (rt_policy rt) role (cc_tenant ctx) of
       Inl _ \<Rightarrow> Inl (LLMProviderError False ''model_not_entitled'')
     | Inr rp \<Rightarrow> Inr (rp_alias rp, rp_max_tokens rp))"

definition begin_agent_call ::
  "policy_runtime \<Rightarrow> call_context \<Rightarrow> string \<Rightarrow> string \<Rightarrow> string \<Rightarrow> agent_state \<Rightarrow> (llm_exn + nat) \<times> agent_state" where
  "begin_agent_call rt ctx messages_text role tools_text s =
     (case resolve_agent_role rt ctx role of Inl e \<Rightarrow> (Inl e, s)
      | Inr (alias, max_tokens) \<Rightarrow>
          let reserve_out = the (or_int max_tokens (Some 1024));
              reserve_in = estimate_tokens messages_text + (if tools_text \<noteq> [] then estimate_tokens tools_text else 0)
          in case reserve_for (rt_pricing rt) (cc_run_id ctx) alias reserve_in reserve_out (ag_budgets s) of
               (Inl e, b) \<Rightarrow> (Inl e, s\<lparr>ag_budgets := b\<rparr>)
             | (Inr rv, b) \<Rightarrow> (Inr (length (ag_calls s)),
                 s\<lparr>ag_calls := ag_calls s @ [\<lparr>ac_alias = alias, ac_max_tokens = max_tokens, ac_reservation = rv, ac_open = True\<rparr>],
                   ag_budgets := b\<rparr>))"

text \<open>\<open>_settle\<close> answers once: the reservation to settle, and the store with the flag cleared.\<close>

definition settle_call :: "nat \<Rightarrow> agent_state \<Rightarrow> reservation option \<times> agent_state" where
  "settle_call i s = (if i < length (ag_calls s) then
       (case ac_reservation (ag_calls s ! i) of None \<Rightarrow> (None, s)
        | Some r \<Rightarrow> if ac_open (ag_calls s ! i)
                    then (Some r, s\<lparr>ag_calls := (ag_calls s)[i := (ag_calls s ! i)\<lparr>ac_open := False\<rparr>]\<rparr>)
                    else (None, s))
     else (None, s))"

definition with_ledger :: "(reservation \<Rightarrow> run_budgets \<Rightarrow> run_budget_exn + run_budgets) \<Rightarrow> nat \<Rightarrow> agent_state \<Rightarrow> llm_exn option \<times> agent_state" where
  "with_ledger f i s = (case settle_call i s of (None, s') \<Rightarrow> (None, s')
     | (Some r, s') \<Rightarrow> (case f r (ag_budgets s') of
           Inl _ \<Rightarrow> (Some (Missing_run (rv_run_id r)), s')
         | Inr b \<Rightarrow> (None, s'\<lparr>ag_budgets := b\<rparr>)))"

definition end_agent_call :: "nat \<Rightarrow> llm_result \<Rightarrow> agent_state \<Rightarrow> llm_exn option \<times> agent_state" where
  "end_agent_call i u = with_ledger (\<lambda>r. rb_commit r (if usage_known u then Some (lr_input u) else None)
     (if usage_known u then Some (lr_output u) else None) (cost_usd u)) i"

definition release_agent_call :: "nat option \<Rightarrow> agent_state \<Rightarrow> llm_exn option \<times> agent_state" where
  "release_agent_call res s = (case res of None \<Rightarrow> (None, s) | Some i \<Rightarrow> with_ledger rb_release i s)"

definition call_live :: "nat \<Rightarrow> agent_state \<Rightarrow> bool" where
  "call_live i s \<longleftrightarrow> i < length (ag_calls s) \<and> ac_open (ag_calls s ! i) \<and> ac_reservation (ag_calls s ! i) \<noteq> None"

lemma with_ledger_dead: "\<not> call_live i s \<Longrightarrow> with_ledger f i s = (None, s)"
  by (auto simp: with_ledger_def settle_call_def call_live_def split: option.splits)

lemma with_ledger_kills: "\<not> call_live i (snd (with_ledger f i s))"
  by (auto simp: with_ledger_def settle_call_def call_live_def split: option.splits sum.splits)

lemma with_ledger_other: "j \<noteq> i \<Longrightarrow> call_live j s \<Longrightarrow> call_live j (snd (with_ledger f i s))"
  by (auto simp: with_ledger_def settle_call_def call_live_def split: option.splits sum.splits)

text \<open>Both ways of settling an agent call are releases that count once.\<close>

interpretation agent_release: once_release "\<lambda>i s. snd (release_agent_call (Some i) s)" call_live
  by unfold_locales (simp_all add: release_agent_call_def with_ledger_dead with_ledger_kills with_ledger_other)

interpretation agent_end: once_release "\<lambda>i s. snd (end_agent_call i u s)" call_live for u
  by unfold_locales (simp_all add: end_agent_call_def with_ledger_dead with_ledger_kills with_ledger_other)

lemma begin_quiet_end:
  assumes b: "begin_agent_call rt ctx msgs role tools s = (Inr i, s1)"
    and q: "quiet (ag_budgets s1) (ag_budgets s2)" and c: "ag_calls s2 = ag_calls s1"
  shows "fst (end_agent_call i u s2) = None \<and> quiet (ag_budgets s) (ag_budgets (snd (end_agent_call i u s2)))"
proof -
  obtain al mt rv b1 rin rout where r: "reserve_for (rt_pricing rt) (cc_run_id ctx) al rin rout (ag_budgets s) = (Inr rv, b1)"
    and i: "i = length (ag_calls s)"
    and s1: "ag_calls s1 = ag_calls s @ [\<lparr>ac_alias = al, ac_max_tokens = mt, ac_reservation = rv, ac_open = True\<rparr>]" "ag_budgets s1 = b1"
    using b by (auto simp: begin_agent_call_def Let_def split: sum.splits prod.splits)
  have st: "settle_call i s2 = (case rv of None \<Rightarrow> (None, s2) | Some r \<Rightarrow> (Some r, s2\<lparr>ag_calls := (ag_calls s2)[i := (ag_calls s2 ! i)\<lparr>ac_open := False\<rparr>]\<rparr>))"
    using i s1 c by (auto simp: settle_call_def split: option.splits)
  show ?thesis
    using commit_then_quiet [OF r, of "((), ag_budgets s2)" u False] q s1(2) st
    by (cases "usage_known u") (auto simp: end_agent_call_def with_ledger_def commit_then_def split: option.splits sum.splits)
qed

text \<open>
  An agent call is settled once and exactly: ending it gives back what its beginning held, and a
  release or a second end after that, in any number, changes nothing.
\<close>

theorem agent_call_settles_once:
  assumes "begin_agent_call rt ctx msgs role tools s = (Inr i, s1)"
    and "quiet (ag_budgets s1) (ag_budgets s2)" "ag_calls s2 = ag_calls s1"
    and "end_agent_call i u s2 = (r, s3)"
  shows "r = None \<and> run_hold (ag_budgets s3) = run_hold (ag_budgets s) \<and>
    release_agent_call (Some i) s3 = (None, s3) \<and> end_agent_call i v s3 = (None, s3)"
proof -
  have "\<not> call_live i s3" using agent_end.release_kills [of i u s2] assms(4) by simp
  then show ?thesis
    using begin_quiet_end [OF assms(1-3), of u] assms(4)
    by (simp add: quiet_def release_agent_call_def end_agent_call_def with_ledger_dead)
qed

theorem agent_call_settles_once_witness:
  "let s = \<lparr>ag_calls = [], ag_budgets = demo_ledger\<rparr>;
       (i, s1) = begin_agent_call demo_runtime demo_context ''how many trips'' ''answer'' [] s;
       u = \<lparr>lr_input = 3, lr_output = 40, usage_known = True, cost_usd = None, fallback_used = False\<rparr>;
       s3 = snd (end_agent_call 0 u s1)
   in i = Inr 0 \<and> release_agent_call (Some 0) s3 = (None, s3)"
proof -
  let ?s = "\<lparr>ag_calls = [], ag_budgets = demo_ledger\<rparr>"
  let ?u = "\<lparr>lr_input = 3, lr_output = 40, usage_known = True, cost_usd = None, fallback_used = False\<rparr>"
  let ?b = "begin_agent_call demo_runtime demo_context ''how many trips'' ''answer'' [] ?s"
  have i: "fst ?b = Inr 0" by code_simp
  then have b: "?b = (Inr 0, snd ?b)" by (simp add: prod_eq_iff)
  from agent_call_settles_once [OF b _ refl, of ?u "fst (end_agent_call 0 ?u (snd ?b))" "snd (end_agent_call 0 ?u (snd ?b))" ?u]
  show ?thesis using i by (simp add: case_prod_unfold Let_def)
qed

section \<open>What a call cost\<close>

datatype cost_kind = Cost_unknown | Cost_billed | Cost_estimated

text \<open>\<open>read_header\<close> is \<open>float(response_headers.get("x-litellm-response-cost", ""))\<close>, \<^const>\<open>None\<close> where it raises.\<close>

definition cost_fields ::
  "pricing_table \<Rightarrow> pyfloat option \<Rightarrow> string \<Rightarrow> int \<Rightarrow> int \<Rightarrow> bool \<Rightarrow> pyfloat option \<times> cost_kind" where
  "cost_fields pt read_header alias input output known = (case read_header of
       Some billed \<Rightarrow> (Some billed, Cost_billed)
     | None \<Rightarrow> if known then (case estimate pt alias input output of
                 Some e \<Rightarrow> (Some e, Cost_estimated) | None \<Rightarrow> (None, Cost_unknown))
               else (None, Cost_unknown))"

definition client_reserve_budget :: "bool \<Rightarrow> int \<Rightarrow> db_fault \<Rightarrow> string \<Rightarrow> string \<Rightarrow> budget_table \<Rightarrow> llm_exn option \<times> budget_table" where
  "client_reserve_budget has_budget limit fault model_id month tbl =
     (if \<not> has_budget then (None, tbl)
      else case bedrock_reserve limit fault model_id month tbl of
             (Some BedrockBudgetExceeded, t) \<Rightarrow> (Some (LLMProviderError False ''bedrock_budget_exhausted''), t)
           | (Some BedrockBudgetUnavailable, t) \<Rightarrow> (Some (LLMProviderError True ''bedrock_budget_unavailable''), t)
           | (Some _, t) \<Rightarrow> (Some (Raised ''ValueError''), t)
           | (None, t) \<Rightarrow> (None, t))"

text \<open>
  An unpriced call is never a silent zero, a priced model's estimate is within its reservation, and
  an error of the monthly guard never leads to a fallback although it is marked retryable.
\<close>

lemma cost_known_iff: "fst (cost_fields pt h alias i out known) = None \<longleftrightarrow> snd (cost_fields pt h alias i out known) = Cost_unknown"
  by (simp add: cost_fields_def split: option.splits)

lemma estimate_mono:
  assumes "pt_rates pt alias = Some (ri, ro)" "0 \<le> ri" "0 \<le> ro" "i \<le> rin" "out \<le> rout"
    "estimate pt alias i out = Some c" "estimate pt alias rin rout = Some w"
  shows "c \<le> w"
proof -
  have "of_int i * ri \<le> of_int rin * ri" "of_int out * ro \<le> of_int rout * ro"
    using assms(2-5) by (simp_all add: mult_right_mono)
  then show ?thesis using assms(1,6,7) by (auto simp: estimate_def intro!: divide_right_mono add_mono)
qed

lemma guard_error_is_final:
  assumes "client_reserve_budget has limit fault model_id month tbl = (Some e, t)"
  shows "\<not> may_fall_back is_last e"
  using assms
  by (auto simp: client_reserve_budget_def may_fall_back_def startswith_def split: if_splits option.splits bedrock_exn.splits prod.splits)

end
