(* ===== verification/App_Loop.thy ===== *)
theory App_Loop
  imports App_Monad App_Catalogue Mcp_Client App_Context App_Jobs App_Policy Kv_Identity
begin

text \<open>
  The orchestration loop (\<open>services/app/app/orchestration/loop.py\<close>): preparing a run, requesting its cancellation,
  and executing it with the manual strategy, from the clients and the dataset schema over the proposal,
  its validation and bounded retry, the tool call, the reduced context and the final answer to the terminal
  state, with every handler of its exceptions.

  A run is a program over the record \<open>lstate\<close>, which holds the variables of \<open>_execute_loop\<close>, the repository and the
  published events. The environment answers by the next_tick of the question: clocks, identifiers, time
  stamps, the Redis flag, how often a background call is polled before it is done, and \<open>le_other\<close>, what other clients
  have done to the repository before each access. The model client, the tool server's transport, the grounding and
  injection checks, speech, the digest and the texts of budget and validation messages are functions of the environment.
  Publishing never raises. Spans, log lines, metrics and the capture of runs are left out. \<open>ls_trace\<close> is not
  part of the program: it records polls, model calls and tool calls for the properties.
\<close>

section \<open>Data\<close>

record attribution =
  pa_template_id :: string
  pa_version :: string
  pa_sha256 :: string

text \<open>The fields \<open>LLMResult\<close> and \<open>ToolProposalResult\<close> share.\<close>

record call_facts =
  cf_model_id :: string
  cf_input_tokens :: int
  cf_output_tokens :: int
  cf_latency_ms :: int
  cf_finish_reason :: "string option"
  cf_configured_max_tokens :: "int option"
  cf_role :: "string option"
  cf_model_alias :: "string option"
  cf_pricing_version :: "string option"
  cf_cost_usd :: "pyfloat option"
  cf_cost_kind :: "string option"
  cf_usage_known :: bool
  cf_fallback_used :: bool
  cf_attribution :: "attribution option"
  cf_reasoning_tokens :: "int option"

record proposal_result =
  pp_proposal :: tool_proposal
  pp_decline_reason :: "string option"
  pp_reasoning_present :: "bool option"
  pp_reasoning_chars :: "int option"
  pp_output_basis :: "string option"
  pp_facts :: call_facts

record answer_result =
  ar_text :: string
  ar_ttft_ms :: "int option"
  ar_first_visible_ms :: "int option"
  ar_reasoning_unavailable :: "string option"
  ar_visible_tokens :: "int option"
  ar_visible_unavailable :: "string option"
  ar_facts :: call_facts

record provider_error =
  pe_retryable :: bool
  pe_code :: string
  pe_model_id :: "string option"
  pe_input_tokens :: "int option"
  pe_output_tokens :: "int option"
  pe_latency_ms :: "int option"
  pe_finish_reason :: "string option"
  pe_attribution :: "attribution option"
  pe_provider_status :: "int option"
  pe_provider_call_id :: "string option"
  pe_attempts :: "int option"

datatype llm_failure = LLM_config string | LLM_provider provider_error | LLM_other string

record loop_call =
  lc_llm_call_id :: string
  lc_model_id :: string
  lc_input_tokens :: "int option"
  lc_output_tokens :: "int option"
  lc_latency_ms :: int
  lc_finish_reason :: "string option"
  lc_configured_max_tokens :: "int option"
  lc_ttft_ms :: "int option"
  lc_first_visible_ms :: "int option"
  lc_reasoning_tokens :: "int option"
  lc_reasoning_unavailable :: "string option"
  lc_visible_tokens :: "int option"
  lc_visible_unavailable :: "string option"
  lc_cost_usd :: "pyfloat option"
  lc_cost_source :: string
  lc_budget_cost_usd :: "pyfloat option"
  lc_budget_basis :: string
  lc_cost_indeterminate :: bool
  lc_error_code :: "string option"
  lc_tool_source :: string
  lc_model_alias :: "string option"
  lc_role :: "string option"
  lc_pricing_version :: "string option"
  lc_result_cost_usd :: "pyfloat option"
  lc_cost_kind :: "string option"
  lc_usage_known :: bool
  lc_fallback_used :: bool
  lc_attribution :: "attribution option"
  lc_provider_status :: "int option"
  lc_reasoning_present :: "bool option"
  lc_reasoning_chars :: "int option"
  lc_output_basis :: "string option"
  lc_planner_outcome :: "string option"

definition opt_float :: "pyfloat option \<Rightarrow> pyval" where
  "opt_float v = (case v of None \<Rightarrow> PNone | Some x \<Rightarrow> PFloat x)"

definition opt_bool :: "bool option \<Rightarrow> pyval" where
  "opt_bool v = (case v of None \<Rightarrow> PNone | Some x \<Rightarrow> PBool x)"

definition to_metadata :: "loop_call \<Rightarrow> pydict" where
  "to_metadata c =
     [(''llm_call_id'', PStr (lc_llm_call_id c)), (''model_id'', PStr (lc_model_id c)), (''input_tokens'', opt_int (lc_input_tokens c)),
      (''output_tokens'', opt_int (lc_output_tokens c)), (''latency_ms'', PInt (lc_latency_ms c)), (''finish_reason'', opt_val (lc_finish_reason c)),
      (''configured_max_tokens'', opt_int (lc_configured_max_tokens c)), (''ttft_ms'', opt_int (lc_ttft_ms c)),
      (''first_visible_answer_ms'', opt_int (lc_first_visible_ms c)), (''reasoning_tokens'', opt_int (lc_reasoning_tokens c)),
      (''reasoning_tokens_unavailable_reason'', opt_val (lc_reasoning_unavailable c)), (''visible_answer_tokens'', opt_int (lc_visible_tokens c)),
      (''visible_answer_tokens_unavailable_reason'', opt_val (lc_visible_unavailable c)), (''cost_usd'', opt_float (lc_cost_usd c)),
      (''cost_source'', PStr (lc_cost_source c)), (''budget_cost_usd'', opt_float (lc_budget_cost_usd c)),
      (''budget_cost_basis'', PStr (lc_budget_basis c)), (''cost_indeterminate'', PBool (lc_cost_indeterminate c)),
      (''error_code'', opt_val (lc_error_code c)), (''tool_source'', PStr (lc_tool_source c)), (''model_alias'', opt_val (lc_model_alias c)),
      (''role'', opt_val (lc_role c)), (''pricing_version'', opt_val (lc_pricing_version c)), (''result_cost_usd'', opt_float (lc_result_cost_usd c)),
      (''cost_kind'', opt_val (lc_cost_kind c)), (''usage_known'', PBool (lc_usage_known c)), (''fallback_used'', PBool (lc_fallback_used c)),
      (''prompt_template_id'', opt_val (map_option pa_template_id (lc_attribution c))),
      (''prompt_template_version'', opt_val (map_option pa_version (lc_attribution c))),
      (''prompt_sha256'', opt_val (map_option pa_sha256 (lc_attribution c)))]
     @ (case lc_provider_status c of None \<Rightarrow> [] | Some n \<Rightarrow> [(''provider_status'', PInt n)])
     @ (case lc_output_basis c of None \<Rightarrow> [] | Some b \<Rightarrow>
          [(''reasoning_present'', opt_bool (lc_reasoning_present c)), (''reasoning_chars'', opt_int (lc_reasoning_chars c)),
           (''output_basis'', PStr b), (''outcome'', opt_val (lc_planner_outcome c))])"

record loop_result =
  lr_answer :: string
  lr_status :: string
  lr_run_id :: string
  lr_conversation_id :: string
  lr_steps :: "run_step list"
  lr_tool_call_id :: "string option"
  lr_query_id :: "string option"
  lr_input_tokens :: int
  lr_output_tokens :: int
  lr_total_tokens :: int
  lr_estimated_cost_usd :: pyfloat
  lr_latency_ms :: int
  lr_failure_code :: "string option"
  lr_llm_calls :: "loop_call list"
  lr_telemetry :: pydict

record run_submission =
  su_prompt :: string
  su_conversation_id :: string
  su_message_id :: string
  su_run_id :: string
  su_next_seq :: int
  su_eval_run_id :: "string option"

text \<open>What leaves a run: the three exceptions its handlers know, and the others.\<close>

record orchestration_error =
  oe_code :: string
  oe_retryable :: bool
  oe_llm_call_id :: "string option"
  oe_message :: string
  oe_details :: "pydict option"
  oe_tool_error :: "pydict option"

datatype uncaught = U_state state_exn | U_tool string | U_llm string | U_python py_exn | U_reduce reduce_exn | U_assert | U_fuel

datatype loop_exn =
    Run_cancelled string string
  | Budget_exceeded string pydict
  | Orchestration orchestration_error
  | Uncaught uncaught

definition oe_text :: "orchestration_error \<Rightarrow> string" where
  "oe_text e = (if oe_message e = [] then oe_code e else oe_message e)"

definition orch :: "string \<Rightarrow> bool \<Rightarrow> string option \<Rightarrow> string \<Rightarrow> loop_exn" where
  "orch c again cid msg = Orchestration \<lparr>oe_code = c, oe_retryable = again, oe_llm_call_id = cid, oe_message = msg,
     oe_details = None, oe_tool_error = None\<rparr>"

definition tool_error_facts :: "mcp_tool_error \<Rightarrow> string option \<Rightarrow> pydict" where
  "tool_error_facts err tool = (''reason'', PStr (me_reason err)) # (case tool of Some t \<Rightarrow> if t \<noteq> [] then [(''tool_name'', PStr t)] else [] | None \<Rightarrow> [])"

definition orch_tool :: "mcp_tool_error \<Rightarrow> string option \<Rightarrow> string option \<Rightarrow> loop_exn" where
  "orch_tool err tool cid = Orchestration \<lparr>oe_code = ''mcp_tool_error'', oe_retryable = me_retryable err, oe_llm_call_id = cid,
     oe_message = me_message err, oe_details = None, oe_tool_error = Some (tool_error_facts err tool)\<rparr>"

definition provider_error_details :: "provider_error \<Rightarrow> pydict option" where
  "provider_error_details e = (case pe_provider_status e of None \<Rightarrow> None
     | Some n \<Rightarrow> Some [(''category'', PStr (pe_code e)), (''provider_status'', PInt n), (''provider_call_id'', opt_val (pe_provider_call_id e)),
         (''attempts'', opt_int (pe_attempts e))])"

definition orch_provider :: "provider_error \<Rightarrow> pydict option \<Rightarrow> string option \<Rightarrow> loop_exn" where
  "orch_provider e details cid = Orchestration \<lparr>oe_code = pe_code e, oe_retryable = pe_retryable e, oe_llm_call_id = cid, oe_message = [],
     oe_details = details, oe_tool_error = None\<rparr>"

section \<open>The environment and the state\<close>

datatype client_kind = Plain_client | Serve_client | LiteLLM_client

datatype conversation_args = No_conversation | Conversation_id string | Conversation_history string string

record llm_client =
  ll_kind :: client_kind
  ll_model_id :: string
  ll_pricing :: "pricing_table option"
  ll_propose :: "nat \<Rightarrow> string \<Rightarrow> jdict \<Rightarrow> conversation_args \<Rightarrow> llm_failure + proposal_result"
  ll_streams :: bool
  ll_answer :: "nat \<Rightarrow> string \<Rightarrow> jdict \<Rightarrow> conversation_args \<Rightarrow> string list \<times> (llm_failure + answer_result)"

record mcp_client =
  mc_schema :: "nat \<Rightarrow> client_exn + jdict"
  mc_call :: "nat \<Rightarrow> transport"

record grounding_report =
  gr_caveat :: "string option"
  gr_ok :: bool
  gr_metadata :: pydict

record 's loop_env =
  le_step :: "'s repo_step"
  le_other :: "nat \<Rightarrow> 's \<Rightarrow> 's"
  le_publisher :: bool
  le_redis :: "nat \<Rightarrow> bool"
  le_polls :: "nat \<Rightarrow> nat"
  le_clock :: "nat \<Rightarrow> pyfloat"
  le_id :: "nat \<Rightarrow> string"
  le_stamp :: "nat \<Rightarrow> string"
  le_llm :: "string + llm_client"
  le_mcp :: "mcp_tool_error + mcp_client"
  le_budgets :: execution_budgets
  le_window :: int
  le_iso :: "string \<Rightarrow> timestamp option"
  le_str :: "json \<Rightarrow> string"
  le_repr :: "string list \<Rightarrow> string"
  le_sha :: "string \<Rightarrow> string"
  le_capture_content :: bool
  le_feedback :: "proposal_validation \<Rightarrow> string"
  le_budget_reason :: "execution_budgets \<Rightarrow> budget_exn \<Rightarrow> string"
  le_scan :: "jdict \<Rightarrow> pydict list"
  le_ground :: "string \<Rightarrow> jdict \<Rightarrow> string \<Rightarrow> grounding_report"
  le_audio :: "string \<Rightarrow> (string \<times> string) option"

datatype act = A_poll bool | A_schema | A_model string string | A_tool string jdict

record 's lstate =
  ls_repo :: 's
  ls_tick :: nat
  ls_events :: "run_event list"
  ls_evt_sequence :: int
  ls_steps :: "run_step list"
  ls_step_seq :: int
  ls_next_seq :: int
  ls_tracker :: budget_tracker
  ls_calls :: "loop_call list"
  ls_signatures :: "string list"
  ls_last_tool_call_id :: "string option"
  ls_last_query_id :: "string option"
  ls_proposal_latency :: "int option"
  ls_tool_latency :: "int option"
  ls_answer_latency :: "int option"
  ls_phase_reached :: bool
  ls_stream_started :: bool
  ls_ttft :: "int option"
  ls_tool_source :: string
  ls_planner_outcome :: string
  ls_selected_tool :: "string option"
  ls_rejected_outcome :: "string option"
  ls_self_hosted :: bool
  ls_forwards :: bool
  ls_configured_model :: string
  ls_trace :: "act list"

text \<open>What stays fixed in one execution.\<close>

record run_ctx =
  rx_prompt :: string
  rx_conv_id :: string
  rx_user_msg_id :: string
  rx_run_id :: string
  rx_run :: run
  rx_start :: pyfloat
  rx_eval :: "string option"
  rx_budgets :: execution_budgets

type_synonym ('s, 'a) loop = "('s lstate, loop_exn, 'a) prog"

section \<open>Primitives\<close>

definition next_tick :: "('s, nat) loop" where
  "next_tick = bnd (gets ls_tick) (\<lambda>t. seq (mods (\<lambda>s. s\<lparr>ls_tick := Suc t\<rparr>)) (ret t))"

definition read_clock :: "'s loop_env \<Rightarrow> ('s, pyfloat) loop" where
  "read_clock env = bnd next_tick (\<lambda>t. ret (le_clock env t))"

definition new_id :: "'s loop_env \<Rightarrow> ('s, string) loop" where
  "new_id env = bnd next_tick (\<lambda>t. ret (le_id env t))"

definition log_act :: "act \<Rightarrow> ('s, unit) loop" where
  "log_act a = mods (\<lambda>s. s\<lparr>ls_trace := ls_trace s @ [a]\<rparr>)"

definition repo_call :: "'s loop_env \<Rightarrow> repo_op \<Rightarrow> ('s, reply) loop" where
  "repo_call env op s =
     (let (r, repo) = le_step env op (le_other env (ls_tick s) (ls_repo s)); s' = s\<lparr>ls_repo := repo, ls_tick := Suc (ls_tick s)\<rparr>
      in (case r of Inl e \<Rightarrow> Inl (Uncaught (U_state e)) | Inr x \<Rightarrow> Inr x, s'))"

definition millis :: "pyfloat \<Rightarrow> pyfloat \<Rightarrow> int" where
  "millis now start = py_trunc ((now - start) * 1000)"

definition is_cancelled :: "'s loop_env \<Rightarrow> string \<Rightarrow> ('s, bool) loop" where
  "is_cancelled env rid =
     bnd next_tick (\<lambda>t.
     bnd (if le_publisher env \<and> le_redis env t then ret True
          else bnd (repo_call env (Get_run rid)) (\<lambda>r.
            ret (case r of R_run (Some run) \<Rightarrow> rn_status run = ''cancel_requested'' \<or> rn_status run = ''cancelled'' | _ \<Rightarrow> False))) (\<lambda>b.
     seq (log_act (A_poll b)) (ret b)))"

definition cancelled_with :: "string \<Rightarrow> loop_exn" where
  "cancelled_with partial = Run_cancelled partial ''cancelled_by_user''"

definition check_cancellation :: "'s loop_env \<Rightarrow> run_ctx \<Rightarrow> string \<Rightarrow> ('s, unit) loop" where
  "check_cancellation env rx partial =
     bnd (is_cancelled env (rx_run_id rx)) (\<lambda>b. if b then throw (cancelled_with partial) else ret ())"

primrec poll_until_done :: "'s loop_env \<Rightarrow> run_ctx \<Rightarrow> nat \<Rightarrow> ('s, unit) loop" where
  "poll_until_done env rx 0 = ret ()"
| "poll_until_done env rx (Suc n) = seq (check_cancellation env rx []) (poll_until_done env rx n)"

definition run_with_cancellation :: "'s loop_env \<Rightarrow> run_ctx \<Rightarrow> act \<Rightarrow> (nat \<Rightarrow> 'r) \<Rightarrow> ('s, 'r) loop" where
  "run_with_cancellation env rx a f =
     bnd next_tick (\<lambda>t. seq (log_act a) (seq (poll_until_done env rx (le_polls env t)) (ret (f t))))"

definition emit_ids ::
  "'s loop_env \<Rightarrow> run_ctx \<Rightarrow> string \<Rightarrow> pydict \<Rightarrow> string option \<Rightarrow> string option \<Rightarrow> string option \<Rightarrow> ('s, unit) loop" where
  "emit_ids env rx etype payload llm tool query =
     (if \<not> le_publisher env then ret ()
      else bnd next_tick (\<lambda>t. mods (\<lambda>s. s\<lparr>ls_events := ls_events s @
        [\<lparr>ev_id = le_id env t, ev_type = etype, ev_run_id = rx_run_id rx, ev_conversation_id = rx_conv_id rx, ev_sequence = ls_evt_sequence s,
          ev_payload = payload, ev_step_id = None, ev_llm_call_id = llm, ev_tool_call_id = tool, ev_query_id = query,
          ev_timestamp = le_stamp env t, ev_eval_run_id = rx_eval rx\<rparr>],
        ls_evt_sequence := ls_evt_sequence s + 1\<rparr>)))"

definition emit_event :: "'s loop_env \<Rightarrow> run_ctx \<Rightarrow> string \<Rightarrow> pydict \<Rightarrow> ('s, unit) loop" where
  "emit_event env rx etype payload = emit_ids env rx etype payload None None None"

text \<open>A step is built from a blank one with its identifier, sequence number, type, status and start time.\<close>

definition blank_step :: "run_ctx \<Rightarrow> string \<Rightarrow> int \<Rightarrow> string \<Rightarrow> string \<Rightarrow> string \<Rightarrow> run_step" where
  "blank_step rx sid n type status stamp =
     \<lparr>st_id = sid, st_run_id = rx_run_id rx, st_sequence = n, st_step_type = type, st_status = status, st_tool_name = None,
      st_llm_call_id = None, st_tool_call_id = None, st_query_id = None, st_input_summary = None, st_output_summary = None,
      st_started_at = stamp, st_completed_at = None, st_duration_ms = None, st_metadata = []\<rparr>"

definition append_step :: "'s loop_env \<Rightarrow> run_ctx \<Rightarrow> string \<Rightarrow> string \<Rightarrow> (run_step \<Rightarrow> run_step) \<Rightarrow> ('s, unit) loop" where
  "append_step env rx type status fill =
     bnd next_tick (\<lambda>t. bnd (gets ls_step_seq) (\<lambda>n.
       let x = fill (blank_step rx (le_id env t) n type status (le_stamp env t))
       in seq (repo_call env (Add_run_step x)) (mods (\<lambda>s. s\<lparr>ls_steps := ls_steps s @ [x]\<rparr>))))"

definition add_step :: "'s loop_env \<Rightarrow> run_ctx \<Rightarrow> string \<Rightarrow> string \<Rightarrow> (run_step \<Rightarrow> run_step) \<Rightarrow> ('s, unit) loop" where
  "add_step env rx type status fill =
     seq (append_step env rx type status fill) (mods (\<lambda>s. s\<lparr>ls_step_seq := ls_step_seq s + 1\<rparr>))"

definition store_message :: "'s loop_env \<Rightarrow> run_ctx \<Rightarrow> string \<Rightarrow> string \<Rightarrow> pydict \<Rightarrow> ('s, unit) loop" where
  "store_message env rx role content meta =
     bnd next_tick (\<lambda>t. bnd (gets ls_next_seq) (\<lambda>n.
       seq (repo_call env (Add_message \<lparr>ms_id = le_id env t, ms_conversation_id = rx_conv_id rx, ms_sequence = n, ms_role = role,
         ms_content = content, ms_created_at = le_stamp env t, ms_metadata = meta\<rparr>)) (ret ())))"

definition budget_details :: "budget_tracker \<Rightarrow> budget_exn \<Rightarrow> pydict" where
  "budget_details t e = (case e of BudgetExceeded limit current \<Rightarrow>
     (''limit'', PStr limit) #
     (if limit = ''timeout_seconds'' then [(''elapsed'', PFloat current)]
      else if limit = ''max_estimated_cost_usd'' then [(''current'', PFloat current), (''cost_indeterminate'', PBool (cost_indeterminate t))]
      else if limit = ''cost_indeterminate'' then [(''current'', PFloat current)]
      else [(''current'', PInt (floor current))]))"

definition with_tracker :: "'s loop_env \<Rightarrow> (pyfloat \<Rightarrow> budget_tracker \<Rightarrow> budget_exn option \<times> budget_tracker) \<Rightarrow> ('s, unit) loop" where
  "with_tracker env op =
     bnd (read_clock env) (\<lambda>now. bnd (gets ls_tracker) (\<lambda>t0.
       let (err, t) = op now t0
       in seq (mods (\<lambda>s. s\<lparr>ls_tracker := t\<rparr>))
            (case err of None \<Rightarrow> ret () | Some e \<Rightarrow> throw (Budget_exceeded (le_budget_reason env (budgets t) e) (budget_details t e)))))"

definition ensure_determinate :: "'s loop_env \<Rightarrow> ('s, unit) loop" where
  "ensure_determinate env = with_tracker env (\<lambda>_ t. (ensure_cost_determinate t, t))"

section \<open>Costs\<close>

record call_cost =
  co_cost_usd :: pyfloat
  co_source :: string
  co_budget_cost_usd :: "pyfloat option"
  co_basis :: string

definition co_indeterminate :: "call_cost \<Rightarrow> bool" where
  "co_indeterminate c \<longleftrightarrow> co_basis c = ''conservative_bound'' \<or> co_basis c = ''unresolvable''"

definition priced_key :: "pricing_table option \<Rightarrow> call_facts option \<Rightarrow> string option \<Rightarrow> (pricing_table \<times> string) option" where
  "priced_key pricing result model =
     (let alias = Option.bind result cf_model_alias;
          mid = (case result of Some f \<Rightarrow> if cf_model_id f \<noteq> [] then Some (cf_model_id f) else model | None \<Rightarrow> model);
          tables = (case pricing of Some t \<Rightarrow> [t] | None \<Rightarrow> []) @ [default_pricing [DEFAULT_MODEL_ID]];
          keys = concat (map (\<lambda>k. case k of Some x \<Rightarrow> if x \<noteq> [] then [x] else [] | None \<Rightarrow> []) [alias, mid])
      in find (\<lambda>(t, k). pt_rates t k \<noteq> None) (concat (map (\<lambda>t. map (Pair t) keys) tables)))"

definition estimate_or_zero :: "pricing_table \<Rightarrow> string \<Rightarrow> int \<Rightarrow> int \<Rightarrow> pyfloat" where
  "estimate_or_zero t k i j = (case estimate t k i j of None \<Rightarrow> 0 | Some x \<Rightarrow> x)"

definition fallback_cost :: "pricing_table option \<Rightarrow> execution_budgets \<Rightarrow> int \<Rightarrow> int \<Rightarrow> call_facts option \<Rightarrow> string option \<Rightarrow> call_cost" where
  "fallback_cost pricing b i j result model =
     (case priced_key pricing result model of
        None \<Rightarrow> \<lparr>co_cost_usd = 0, co_source = ''unpriced_model'', co_budget_cost_usd = None, co_basis = ''unresolvable''\<rparr>
      | Some (t, k) \<Rightarrow>
          let guess = estimate_or_zero t k i j;
              incomplete = (i \<le> 0 \<or> j \<le> 0 \<or> (case result of None \<Rightarrow> False | Some f \<Rightarrow> \<not> cf_usage_known f));
              ceiling = (case Option.bind result cf_configured_max_tokens of Some n \<Rightarrow> if n \<noteq> 0 then n else max_output_tokens b
                         | None \<Rightarrow> max_output_tokens b)
          in if \<not> incomplete
             then \<lparr>co_cost_usd = guess, co_source = ''fallback_estimate'', co_budget_cost_usd = Some guess, co_basis = ''reported''\<rparr>
             else \<lparr>co_cost_usd = guess, co_source = ''estimate_incomplete_usage'',
                   co_budget_cost_usd = Some (max guess (estimate_or_zero t k (max_input_tokens b) ceiling)), co_basis = ''conservative_bound''\<rparr>)"

definition call_cost_of :: "bool \<Rightarrow> pricing_table option \<Rightarrow> execution_budgets \<Rightarrow> int \<Rightarrow> int \<Rightarrow> call_facts option \<Rightarrow> string option \<Rightarrow> call_cost" where
  "call_cost_of self_hosted pricing b i j result model =
     (if self_hosted then \<lparr>co_cost_usd = 0, co_source = ''self_hosted'', co_budget_cost_usd = Some 0, co_basis = ''self_hosted''\<rparr>
      else let billed = (Option.bind result cf_cost_kind = Some ''billed'');
               known = (case result of None \<Rightarrow> True | Some f \<Rightarrow> cf_usage_known f)
      in case Option.bind result cf_cost_usd of
           Some c \<Rightarrow> if billed \<or> known
             then \<lparr>co_cost_usd = c, co_source = (if billed then ''provider_billed'' else ''policy_estimate''), co_budget_cost_usd = Some c,
                   co_basis = ''reported''\<rparr>
             else fallback_cost pricing b i j result model
         | None \<Rightarrow> fallback_cost pricing b i j result model)"

section \<open>Recording model calls\<close>

definition price_call :: "run_ctx \<Rightarrow> llm_client \<Rightarrow> int \<Rightarrow> int \<Rightarrow> call_facts option \<Rightarrow> string option \<Rightarrow> ('s, call_cost) loop" where
  "price_call rx llm i j result model = bnd (gets ls_self_hosted) (\<lambda>sh. ret (call_cost_of sh (ll_pricing llm) (rx_budgets rx) i j result model))"

definition usage_of :: "int \<Rightarrow> int \<Rightarrow> call_cost \<Rightarrow> llm_usage" where
  "usage_of i j c = \<lparr>lu_input = i, lu_output = j, lu_cost = co_cost_usd c, lu_budget_cost = co_budget_cost_usd c,
     lu_indeterminate = co_indeterminate c, lu_unresolvable = (co_budget_cost_usd c = None)\<rparr>"

definition record_call :: "'s loop_env \<Rightarrow> int \<Rightarrow> int \<Rightarrow> call_cost \<Rightarrow> ('s, unit) loop" where
  "record_call env i j c = with_tracker env (\<lambda>now. record_llm_call now (usage_of i j c))"

definition blank_call :: "string \<Rightarrow> string \<Rightarrow> int option \<Rightarrow> int option \<Rightarrow> int \<Rightarrow> call_cost \<Rightarrow> loop_call" where
  "blank_call cid model i j latency c =
     \<lparr>lc_llm_call_id = cid, lc_model_id = model, lc_input_tokens = i, lc_output_tokens = j, lc_latency_ms = latency, lc_finish_reason = None,
      lc_configured_max_tokens = None, lc_ttft_ms = None, lc_first_visible_ms = None, lc_reasoning_tokens = None, lc_reasoning_unavailable = None,
      lc_visible_tokens = None, lc_visible_unavailable = None, lc_cost_usd = Some (co_cost_usd c), lc_cost_source = co_source c,
      lc_budget_cost_usd = co_budget_cost_usd c, lc_budget_basis = co_basis c, lc_cost_indeterminate = co_indeterminate c, lc_error_code = None,
      lc_tool_source = ''model'', lc_model_alias = None, lc_role = None, lc_pricing_version = None, lc_result_cost_usd = None, lc_cost_kind = None,
      lc_usage_known = True, lc_fallback_used = False, lc_attribution = None, lc_provider_status = None, lc_reasoning_present = None,
      lc_reasoning_chars = None, lc_output_basis = None, lc_planner_outcome = None\<rparr>"

definition policy_fields :: "call_facts \<Rightarrow> loop_call \<Rightarrow> loop_call" where
  "policy_fields f x = x\<lparr>lc_model_alias := cf_model_alias f, lc_role := cf_role f, lc_pricing_version := cf_pricing_version f,
     lc_result_cost_usd := cf_cost_usd f, lc_cost_kind := cf_cost_kind f, lc_usage_known := cf_usage_known f,
     lc_fallback_used := cf_fallback_used f, lc_attribution := cf_attribution f\<rparr>"

definition completed_call :: "string \<Rightarrow> call_facts \<Rightarrow> call_cost \<Rightarrow> loop_call" where
  "completed_call cid f c = (policy_fields f (blank_call cid (cf_model_id f) (Some (cf_input_tokens f)) (Some (cf_output_tokens f)) (cf_latency_ms f) c))
     \<lparr>lc_finish_reason := cf_finish_reason f, lc_configured_max_tokens := cf_configured_max_tokens f\<rparr>"

definition append_call :: "loop_call \<Rightarrow> ('s, unit) loop" where
  "append_call x = mods (\<lambda>s. s\<lparr>ls_calls := ls_calls s @ [x]\<rparr>)"

definition or_zero :: "int option \<Rightarrow> int" where
  "or_zero v = (case v of None \<Rightarrow> 0 | Some n \<Rightarrow> n)"

definition record_unknown_usage_failure :: "'s loop_env \<Rightarrow> run_ctx \<Rightarrow> llm_client \<Rightarrow> provider_error \<Rightarrow> string \<Rightarrow> string \<Rightarrow> int \<Rightarrow> ('s, unit) loop" where
  "record_unknown_usage_failure env rx llm err model cid latency =
     bnd (price_call rx llm 0 0 None (Some model)) (\<lambda>c.
     seq (append_call ((blank_call cid model None None latency c)\<lparr>lc_cost_usd := None, lc_error_code := Some (pe_code err),
            lc_model_alias := Some model, lc_role := Some ''planner'', lc_usage_known := False, lc_provider_status := pe_provider_status err,
            lc_attribution := pe_attribution err\<rparr>))
         (handle (record_call env 0 0 c) (\<lambda>e. case e of Budget_exceeded _ _ \<Rightarrow> ret () | _ \<Rightarrow> throw e)))"

definition failed_proposal :: "'s loop_env \<Rightarrow> run_ctx \<Rightarrow> llm_client \<Rightarrow> provider_error \<Rightarrow> string \<Rightarrow> pyfloat \<Rightarrow> bool \<Rightarrow> ('s, unit) loop" where
  "failed_proposal env rx llm err cid start first =
     (case pe_model_id err of
        None \<Rightarrow> ret ()
      | Some model \<Rightarrow>
          if pe_input_tokens err = None
          then bnd (read_clock env) (\<lambda>now. record_unknown_usage_failure env rx llm err model cid (millis now start))
          else if first
          then let i = or_zero (pe_input_tokens err); j = or_zero (pe_output_tokens err)
            in bnd (price_call rx llm i j None (Some model)) (\<lambda>c.
                 append_call ((blank_call cid model (Some i) (Some j) (or_zero (pe_latency_ms err)) c)
                   \<lparr>lc_finish_reason := pe_finish_reason err, lc_error_code := Some (pe_code err), lc_attribution := pe_attribution err\<rparr>))
          else ret ())"

section \<open>The terminal state of a run\<close>

definition OFFERED_TOOLS :: "string list" where
  "OFFERED_TOOLS = [''query_taxi_data'', ''average_trip_metrics'', ''describe_taxi_dataset'', ''list_taxi_dimension_values'',
     ''aggregate_taxi_data'', ''compare_taxi_segments'']"

definition ttft_data :: "'s lstate \<Rightarrow> pydict" where
  "ttft_data s = (case ls_ttft s of
     Some n \<Rightarrow> [(''available'', PBool True), (''latency_ms'', PInt n), (''source'', PStr ''provider_stream'')]
   | None \<Rightarrow> [(''available'', PBool False), (''reason'', PStr (
       if ls_stream_started s then ''provider_stream_returned_no_text_delta''
       else if ls_phase_reached s then ''non_streaming_blocking'' else ''final_answer_not_started''))])"

definition run_telemetry :: "'s lstate \<Rightarrow> int \<Rightarrow> pydict" where
  "run_telemetry s latency =
     [(''end_to_end_latency_ms'', PInt latency), (''proposal_llm_latency_ms'', opt_int (ls_proposal_latency s)),
      (''tool_latency_ms'', opt_int (ls_tool_latency s)), (''final_answer_llm_latency_ms'', opt_int (ls_answer_latency s)),
      (''ttft'', PDict (ttft_data s)), (''tool_source'', PStr (ls_tool_source s)), (''planner_outcome'', PStr (ls_planner_outcome s)),
      (''selected_tool'', opt_val (ls_selected_tool s)), (''rejected_outcome'', opt_val (ls_rejected_outcome s)),
      (''offered_tools'', PList (map PStr OFFERED_TOOLS))]"

definition current_model_id :: "'s lstate \<Rightarrow> string" where
  "current_model_id s = (if ls_calls s = [] then ls_configured_model s else lc_model_id (last (ls_calls s)))"

definition current_cost_source :: "'s lstate \<Rightarrow> string" where
  "current_cost_source s = (if ls_calls s \<noteq> [] then lc_cost_source (last (ls_calls s))
     else if ls_self_hosted s then ''self_hosted'' else ''fallback_estimate'')"

definition eval_meta :: "string option \<Rightarrow> pydict" where
  "eval_meta e = (case e of Some x \<Rightarrow> if x \<noteq> [] then [(''eval_run_id'', PStr x)] else [] | None \<Rightarrow> [])"

definition terminal_run :: "run_ctx \<Rightarrow> string \<Rightarrow> string option \<Rightarrow> pydict \<Rightarrow> pydict \<Rightarrow> pydict \<Rightarrow> string \<Rightarrow> 's lstate \<Rightarrow> run" where
  "terminal_run rx status failure before tel after stamp s =
     \<lparr>rn_id = rx_run_id rx, rn_conversation_id = rx_conv_id rx, rn_message_id = Some (rx_user_msg_id rx), rn_status = status,
      rn_model = Some (current_model_id s), rn_prompt_version = Some ''m9.v1'', rn_started_at = rn_started_at (rx_run rx),
      rn_completed_at = Some stamp, rn_input_tokens = bt_input_tokens (ls_tracker s), rn_output_tokens = bt_output_tokens (ls_tracker s),
      rn_estimated_cost_usd = estimated_cost_usd (ls_tracker s), rn_failure_code = failure,
      rn_metadata = before @ [(''telemetry'', PDict tel)] @ after @ eval_meta (rx_eval rx) @
        [(''cost_source'', PStr (current_cost_source s)), (''llm_calls'', PList (map (\<lambda>c. PDict (to_metadata c)) (ls_calls s)))]\<rparr>"

text \<open>Store the terminal run, then publish the terminal event.\<close>

definition end_run ::
  "'s loop_env \<Rightarrow> run_ctx \<Rightarrow> string \<Rightarrow> string option \<Rightarrow> pydict \<Rightarrow> pydict \<Rightarrow> pydict \<Rightarrow> (pyval \<times> pyval \<times> pyval \<times> pyval \<times> pyval) \<Rightarrow> string option \<Rightarrow> ('s, unit) loop" where
  "end_run env rx status failure before tel after extra cid =
     bnd next_tick (\<lambda>t. bnd (gets (terminal_run rx status failure before tel after (le_stamp env t))) (\<lambda>r.
     seq (repo_call env (Update_run r))
         (case extra of (reason, again, err, perr, terr) \<Rightarrow>
           emit_ids env rx (''run.'' @ status)
             (terminal_run_payload status (rn_input_tokens r) (rn_output_tokens r) (rn_estimated_cost_usd r) failure tel reason again err perr terr)
             cid None None)))"

definition result_of :: "run_ctx \<Rightarrow> string \<Rightarrow> string \<Rightarrow> string option \<Rightarrow> bool \<Rightarrow> int \<Rightarrow> pydict \<Rightarrow> 's lstate \<Rightarrow> loop_result" where
  "result_of rx answer status failure with_tool latency tel s =
     \<lparr>lr_answer = answer, lr_status = status, lr_run_id = rx_run_id rx, lr_conversation_id = rx_conv_id rx, lr_steps = ls_steps s,
      lr_tool_call_id = (if with_tool then ls_last_tool_call_id s else None), lr_query_id = (if with_tool then ls_last_query_id s else None),
      lr_input_tokens = bt_input_tokens (ls_tracker s), lr_output_tokens = bt_output_tokens (ls_tracker s),
      lr_total_tokens = total_tokens (ls_tracker s), lr_estimated_cost_usd = estimated_cost_usd (ls_tracker s), lr_latency_ms = latency,
      lr_failure_code = failure, lr_llm_calls = ls_calls s, lr_telemetry = tel\<rparr>"

abbreviation no_extra :: "pyval \<times> pyval \<times> pyval \<times> pyval \<times> pyval" where
  "no_extra \<equiv> (PNone, PNone, PNone, PNone, PNone)"

definition on_cancelled :: "'s loop_env \<Rightarrow> run_ctx \<Rightarrow> string \<Rightarrow> string \<Rightarrow> ('s, loop_result) loop" where
  "on_cancelled env rx partial reason =
     bnd (read_clock env) (\<lambda>now. let latency = millis now (rx_start rx) in bnd (gets (\<lambda>s. run_telemetry s latency)) (\<lambda>tel.
     seq (if partial = [] then ret () else store_message env rx ''assistant'' (partial @ '' [interrupted]'') [(''interrupted'', PBool True)])
     (seq (end_run env rx ''cancelled'' (Some ''cancelled'') [(''reason'', PStr reason), (''partial_text'', PStr partial)] tel []
             (PStr reason, PNone, PNone, PNone, PNone) None)
          (gets (result_of rx partial ''cancelled'' (Some ''cancelled'') True latency tel)))))"

definition on_budget :: "'s loop_env \<Rightarrow> run_ctx \<Rightarrow> string \<Rightarrow> pydict \<Rightarrow> ('s, loop_result) loop" where
  "on_budget env rx reason details =
     bnd (read_clock env) (\<lambda>now. let latency = millis now (rx_start rx) in bnd (gets (\<lambda>s. run_telemetry s latency)) (\<lambda>tel.
     seq (end_run env rx ''budget_exceeded'' (Some ''budget_exceeded'') [(''reason'', PStr reason), (''details'', PDict details)] tel []
            (PStr reason, PNone, PNone, PNone, PNone) None)
         (gets (result_of rx [] ''budget_exceeded'' (Some ''budget_exceeded'') True latency tel))))"

definition opt_dict :: "pydict option \<Rightarrow> pyval" where
  "opt_dict v = (case v of Some d \<Rightarrow> if d \<noteq> [] then PDict d else PNone | None \<Rightarrow> PNone)"

definition dict_field :: "string \<Rightarrow> pydict option \<Rightarrow> pydict" where
  "dict_field k v = (case opt_dict v of PNone \<Rightarrow> [] | x \<Rightarrow> [(k, x)])"

definition given_id :: "string option \<Rightarrow> string option" where
  "given_id v = (if v = Some [] then None else v)"

definition on_failed :: "'s loop_env \<Rightarrow> run_ctx \<Rightarrow> orchestration_error \<Rightarrow> ('s, 'a) loop" where
  "on_failed env rx e =
     bnd (read_clock env) (\<lambda>now. let latency = millis now (rx_start rx) in bnd (gets (\<lambda>s. run_telemetry s latency)) (\<lambda>tel.
     seq (end_run env rx ''failed'' (Some (oe_code e)) [(''error'', PStr (oe_text e)), (''retryable'', PBool (oe_retryable e))] tel
            (dict_field ''provider_error'' (oe_details e) @ dict_field ''tool_error'' (oe_tool_error e))
            (PNone, PBool (oe_retryable e), PStr (oe_text e), opt_dict (oe_details e), opt_dict (oe_tool_error e)) (given_id (oe_llm_call_id e)))
         (throw (Orchestration e))))"

section \<open>Clients, schema and proposal\<close>

definition setup_clients :: "'s loop_env \<Rightarrow> string \<Rightarrow> ('s, llm_client \<times> mcp_client) loop" where
  "setup_clients env pcid =
     (case le_llm env of
        Inl msg \<Rightarrow> throw (orch ''llm_configuration_error'' False (Some pcid) msg)
      | Inr llm \<Rightarrow> (case le_mcp env of
          Inl err \<Rightarrow> throw (orch_tool err None (Some pcid))
        | Inr mcp \<Rightarrow> seq (mods (\<lambda>s. s\<lparr>ls_forwards := (ll_kind llm \<noteq> Plain_client), ls_self_hosted := (ll_kind llm = Serve_client),
              ls_configured_model := ll_model_id llm\<rparr>)) (ret (llm, mcp))))"

definition load_schema :: "'s loop_env \<Rightarrow> run_ctx \<Rightarrow> mcp_client \<Rightarrow> string \<Rightarrow> ('s, jdict) loop" where
  "load_schema env rx mcp pcid =
     seq (check_cancellation env rx [])
     (seq (emit_event env rx ''context.loading'' [(''resource'', PStr ''dataset://nyc-taxi/schema'')])
     (bnd (run_with_cancellation env rx A_schema (mc_schema mcp)) (\<lambda>r.
        case r of
          Inl (Escaped msg) \<Rightarrow> throw (Uncaught (U_tool msg))
        | Inl (MCPToolError err) \<Rightarrow> throw (orch_tool err (Some ''get_dataset_schema'') (Some pcid))
        | Inr raw \<Rightarrow> (case sanitize_dataset_schema raw of
            Inl err \<Rightarrow> throw (orch_tool err (Some ''get_dataset_schema'') (Some pcid))
          | Inr schema \<Rightarrow> ret schema))))"

definition conversation_kwargs :: "run_ctx \<Rightarrow> llm_client \<Rightarrow> bool \<Rightarrow> conversation_args" where
  "conversation_kwargs rx llm forwards =
     (if \<not> forwards then No_conversation
      else if ll_kind llm = LiteLLM_client then Conversation_id (rx_conv_id rx)
      else Conversation_history (rx_conv_id rx) (rx_user_msg_id rx))"

definition tokens_of :: "call_facts \<Rightarrow> pyval" where
  "tokens_of f = PDict [(''input'', PInt (cf_input_tokens f)), (''output'', PInt (cf_output_tokens f))]"

definition last_call_metadata :: "'s lstate \<Rightarrow> pydict" where
  "last_call_metadata s = to_metadata (last (ls_calls s))"

text \<open>One proposal call: the request, its error paths, its price and its record.\<close>

definition call_planner ::
  "'s loop_env \<Rightarrow> run_ctx \<Rightarrow> llm_client \<Rightarrow> jdict \<Rightarrow> string \<Rightarrow> string \<Rightarrow> string \<Rightarrow> bool \<Rightarrow> ('s, proposal_result \<times> pyfloat) loop" where
  "call_planner env rx llm schema cid phase request first =
     seq (emit_event env rx ''llm.started'' [(''llm_call_id'', PStr cid), (''phase'', PStr phase)])
     (seq (ensure_determinate env)
     (bnd (read_clock env) (\<lambda>start.
      bnd (gets ls_forwards) (\<lambda>fw.
      bnd (run_with_cancellation env rx (A_model phase cid) (\<lambda>t. ll_propose llm t request schema (conversation_kwargs rx llm fw))) (\<lambda>r.
        case r of
          Inr p \<Rightarrow> ret (p, start)
        | Inl (LLM_provider e) \<Rightarrow> seq (failed_proposal env rx llm e cid start first) (throw (orch_provider e (provider_error_details e) (Some cid)))
        | Inl (LLM_config msg) \<Rightarrow> if first then throw (orch ''llm_configuration_error'' False (Some cid) msg) else throw (Uncaught (U_llm msg))
        | Inl (LLM_other msg) \<Rightarrow> throw (Uncaught (U_llm msg)))))))"

definition settle_planner :: "'s loop_env \<Rightarrow> run_ctx \<Rightarrow> llm_client \<Rightarrow> string \<Rightarrow> string \<Rightarrow> int \<Rightarrow> call_facts \<Rightarrow> (loop_call \<Rightarrow> loop_call) \<Rightarrow> ('s, unit) loop" where
  "settle_planner env rx llm cid phase latency f extra =
     bnd (price_call rx llm (cf_input_tokens f) (cf_output_tokens f) (Some f) None) (\<lambda>c.
     seq (record_call env (cf_input_tokens f) (cf_output_tokens f) c)
     (seq (append_call (extra (completed_call cid f c)))
     (emit_ids env rx ''llm.completed'' [(''llm_call_id'', PStr cid), (''phase'', PStr phase), (''latency_ms'', PInt latency), (''tokens'', tokens_of f)]
        (Some cid) None None)))"

definition first_proposal :: "'s loop_env \<Rightarrow> run_ctx \<Rightarrow> llm_client \<Rightarrow> jdict \<Rightarrow> string \<Rightarrow> ('s, proposal_result) loop" where
  "first_proposal env rx llm schema cid =
     bnd (call_planner env rx llm schema cid ''proposal'' (rx_prompt rx) True) (\<lambda>(p, start).
     bnd (read_clock env) (\<lambda>now.
     let latency = millis now start; f = pp_facts p; tp = pp_proposal p in
     seq (mods (\<lambda>s. s\<lparr>ls_proposal_latency := Some latency\<rparr>))
     (seq (settle_planner env rx llm cid ''proposal'' latency f
        (\<lambda>x. x\<lparr>lc_reasoning_tokens := cf_reasoning_tokens f, lc_reasoning_present := pp_reasoning_present p,
            lc_reasoning_chars := pp_reasoning_chars p, lc_output_basis := pp_output_basis p, lc_planner_outcome := Some (tp_outcome tp)\<rparr>))
     (bnd (gets last_call_metadata) (\<lambda>meta.
      seq (add_step env rx ''llm_proposal'' ''completed'' (\<lambda>x. x\<lparr>st_llm_call_id := Some cid,
            st_input_summary := Some (''prompt: '' @ take 80 (rx_prompt rx)),
            st_output_summary := Some (if tp_name tp \<noteq> [] then ''tool: '' @ tp_name tp else ''outcome: '' @ tp_outcome tp),
            st_duration_ms := Some latency,
            st_metadata := fold (\<lambda>(k, v) d. od_set k v d) meta [(''outcome'', PStr (tp_outcome tp)), (''tool_source'', PStr ''model'')]\<rparr>))
     (seq (mods (\<lambda>s. s\<lparr>ls_planner_outcome := tp_outcome tp, ls_selected_tool := (if tp_name tp \<noteq> [] then Some (tp_name tp) else None)\<rparr>))
          (ret p)))))))"

definition catalogue_step :: "'s loop_env \<Rightarrow> run_ctx \<Rightarrow> string \<Rightarrow> ('s, unit) loop" where
  "catalogue_step env rx tool =
     seq (mods (\<lambda>s. s\<lparr>ls_tool_source := ''catalogue'', ls_selected_tool := Some tool\<rparr>))
         (add_step env rx ''llm_proposal'' ''completed'' (\<lambda>x. x\<lparr>st_input_summary := Some (''prompt: '' @ take 80 (rx_prompt rx)),
            st_output_summary := Some (''tool: '' @ tool), st_duration_ms := Some 0,
            st_metadata := [(''tool_source'', PStr ''catalogue''), (''tool_name'', PStr tool)]\<rparr>))"

section \<open>Outcomes without a tool\<close>

definition decline_answer :: "string \<Rightarrow> string option \<Rightarrow> string" where
  "decline_answer outcome reason =
     (if outcome = ''no_tool''
      then ''I could not determine which analysis answers that question. Please rephrase it in terms of the taxi dataset.''
      else if outcome = ''no_visible_output''
      then ''The model did not return a usable response for that question. Please try again or rephrase it.''
      else case given_id reason of Some r \<Rightarrow> r
        | None \<Rightarrow> ''I cannot determine that: the dataset does not contain this information.'')"

definition finish_declined :: "'s loop_env \<Rightarrow> run_ctx \<Rightarrow> string \<Rightarrow> string \<Rightarrow> ('s, loop_result) loop" where
  "finish_declined env rx outcome answer =
     bnd (read_clock env) (\<lambda>now. let latency = millis now (rx_start rx) in
     bnd (gets (\<lambda>s. od_set ''rejected_outcome'' (PStr outcome) (od_set ''planner_outcome'' (PStr outcome)
            (od_set ''tool_source'' (PStr ''model'') (run_telemetry s latency))))) (\<lambda>tel.
     seq (end_run env rx ''completed'' None [] tel [] no_extra None)
         (gets (result_of rx answer ''completed'' None False latency tel))))"

definition decline :: "'s loop_env \<Rightarrow> run_ctx \<Rightarrow> proposal_result \<Rightarrow> ('s, loop_result) loop" where
  "decline env rx p =
     (let outcome = tp_outcome (pp_proposal p); answer = decline_answer outcome (pp_decline_reason p);
          facts = [(''outcome'', PStr outcome), (''reason'', opt_val (pp_decline_reason p)), (''tool_source'', PStr ''model'')] in
      seq (mods (\<lambda>s. s\<lparr>ls_rejected_outcome := Some outcome\<rparr>))
      (seq (emit_event env rx ''run.declined'' facts)
      (seq (add_step env rx ''answer'' ''completed'' (\<lambda>x. x\<lparr>st_input_summary := Some (''question: '' @ take 80 (rx_prompt rx)),
              st_output_summary := Some (''answer: '' @ take 80 answer), st_duration_ms := Some 0, st_metadata := facts\<rparr>))
      (seq (store_message env rx ''assistant'' answer [])
           (finish_declined env rx outcome answer)))))"

section \<open>Validation and the bounded retry\<close>

definition validate :: "'s loop_env \<Rightarrow> string \<Rightarrow> json \<Rightarrow> jdict \<Rightarrow> ('s, proposal_validation) loop" where
  "validate env name arguments schema =
     bnd (gets ls_signatures) (\<lambda>sigs.
       case validate_proposal (le_iso env) name arguments (Some schema) (length sigs) 1 of
         Inl e \<Rightarrow> throw (Uncaught (U_python e)) | Inr v \<Rightarrow> ret v)"

definition summarize_arguments :: "'s loop_env \<Rightarrow> json \<Rightarrow> pydict" where
  "summarize_arguments env arguments =
     (let blob = json_dumps (sort_keys arguments) in
      [(''argument_keys'', PList (case arguments of JObj d \<Rightarrow> map PStr (take 32 (sort (od_keys d))) | _ \<Rightarrow> [])),
       (''arguments_sha256'', PStr (le_sha env blob))]
      @ (if le_capture_content env then [(''arguments'', PStr (take 1000 blob))] else []))"

definition digest16 :: "'s loop_env \<Rightarrow> json \<Rightarrow> string" where
  "digest16 env arguments = take 16 (le_sha env (json_dumps (sort_keys arguments)))"

definition invalid_step :: "'s loop_env \<Rightarrow> run_ctx \<Rightarrow> json \<Rightarrow> proposal_validation \<Rightarrow> nat \<Rightarrow> ('s, unit) loop" where
  "invalid_step env rx arguments v used =
     add_step env rx ''validation_error'' ''failed'' (\<lambda>x. x\<lparr>
       st_input_summary := Some (''arguments keys='' @ le_repr env (case arguments of JObj d \<Rightarrow> take 32 (sort (od_keys d)) | _ \<Rightarrow> [])
         @ '' sha256='' @ digest16 env arguments),
       st_output_summary := Some ''invalid tool arguments'',
       st_metadata := [(''violations'', PList (map (\<lambda>x. PStr (vi_code x)) (violations v))), (''retries_used'', PInt (int used))]
         @ summarize_arguments env arguments\<rparr>)"

definition violation_codes :: "proposal_validation \<Rightarrow> string" where
  "violation_codes v = py_join '','' (map vi_code (violations v))"

definition retry_request :: "'s loop_env \<Rightarrow> run_ctx \<Rightarrow> proposal_validation \<Rightarrow> string" where
  "retry_request env rx v = rx_prompt rx @ [CHR 0x0A, CHR 0x0A] @ ''The previous tool proposal failed deterministic validation:''
     @ [CHR 0x0A] @ le_feedback env v"

definition retry_proposal :: "'s loop_env \<Rightarrow> run_ctx \<Rightarrow> llm_client \<Rightarrow> jdict \<Rightarrow> proposal_validation \<Rightarrow> ('s, proposal_result \<times> string) loop" where
  "retry_proposal env rx llm schema v =
     bnd (new_id env) (\<lambda>cid.
     bnd (call_planner env rx llm schema cid ''proposal_retry'' (retry_request env rx v) False) (\<lambda>(p, start).
     bnd (read_clock env) (\<lambda>now. let f = pp_facts p in
     seq (mods (\<lambda>s. s\<lparr>ls_proposal_latency := Some (or_zero (ls_proposal_latency s) + millis now start)\<rparr>))
     (seq (settle_planner env rx llm cid ''proposal_retry'' (cf_latency_ms f) f id)
     (bnd (gets last_call_metadata) (\<lambda>meta.
      seq (add_step env rx ''llm_proposal'' ''completed'' (\<lambda>x. x\<lparr>st_llm_call_id := Some cid,
            st_input_summary := Some (''prompt: '' @ take 80 (rx_prompt rx) @ '' (validation retry)''),
            st_output_summary := Some (''tool: '' @ tp_name (pp_proposal p)), st_duration_ms := Some (cf_latency_ms f), st_metadata := meta\<rparr>))
          (ret (p, cid))))))))"

primrec retry_loop ::
  "'s loop_env \<Rightarrow> run_ctx \<Rightarrow> llm_client \<Rightarrow> jdict \<Rightarrow> nat \<Rightarrow> nat \<Rightarrow> proposal_result \<Rightarrow> string \<Rightarrow> ('s, (string \<times> jdict) \<times> string) loop" where
  "retry_loop env rx llm schema 0 used p cid = throw (Uncaught U_fuel)"
| "retry_loop env rx llm schema (Suc fuel) used p cid =
     (let tp = pp_proposal p; f = pp_facts p in
      bnd (validate env (tp_name tp) (tp_arguments tp) schema) (\<lambda>v.
      case (if pv_ok v then parse_query_proposal tp else None) of
        Some call \<Rightarrow> ret (call, cid)
      | None \<Rightarrow>
          seq (invalid_step env rx (tp_arguments tp) v used)
          (bnd (read_clock env) (\<lambda>now. bnd (gets ls_tracker) (\<lambda>t.
           if \<not> retry_allowed (pv_recoverable v) now t (cf_input_tokens f) (cf_output_tokens f) used
           then throw (orch ''tool_validation_error'' False (Some cid)
             (''Invalid tool proposal ('' @ violation_codes v @ '') sha256='' @ digest16 env (tp_arguments tp)))
           else bnd (retry_proposal env rx llm schema v) (\<lambda>(p', cid'). retry_loop env rx llm schema fuel (Suc used) p' cid'))))))"

section \<open>The tool call\<close>

fun py_of_json :: "json \<Rightarrow> pyval" where
  "py_of_json JNull = PNone"
| "py_of_json (JBool b) = PBool b"
| "py_of_json (JInt i) = PInt i"
| "py_of_json (JFloat x _) = PFloat x"
| "py_of_json (JStr t) = PStr t"
| "py_of_json (JArr xs) = PList (map py_of_json xs)"
| "py_of_json (JObj d) = PDict (map (\<lambda>(k, v). (k, py_of_json v)) d)"

definition py_args :: "jdict \<Rightarrow> pydict" where
  "py_args d = map (\<lambda>(k, v). (k, py_of_json v)) d"

definition dumps_sorted :: "jdict \<Rightarrow> string" where
  "dumps_sorted d = json_dumps (sort_keys (JObj d))"

text \<open>The dispatch on the tool's name; the first two tools' results are sanitized once more.\<close>

definition call_governed :: "'s loop_env \<Rightarrow> transport \<Rightarrow> string \<Rightarrow> jdict \<Rightarrow> client_exn + jdict" where
  "call_governed env call tool args =
     (let str = le_str env; again = (\<lambda>r. try_bind r (\<lambda>d. mcp_raise (sanitize_query_result d))) in
      if tool = AVERAGE_METRICS_TOOL_NAME then again (client_average_trip_metrics str call (jget args ''region_name''))
      else if tool = EXPECTED_TOOL_NAME
      then (case jget args ''limit'' of
          JInt n \<Rightarrow> again (client_query_taxi_data call (py_str str (jget args ''analysis'')) n)
        | _ \<Rightarrow> Inl (Escaped ''limit''))
      else if tool = ''compare_taxi_segments''
      then client_compare_taxi_segments str call (jget args ''segment_dimension'') (jget args ''measures'') (jget args ''baseline_filters'')
        (jget args ''comparison_filters'') (jget args ''comparison_mode'') (jget_or args ''limit'' (JInt 20))
      else if tool = ''describe_taxi_dataset''
      then client_describe_taxi_dataset str call (jget_or args ''include_column_stats'' (JBool False))
      else if tool = ''list_taxi_dimension_values''
      then client_list_taxi_dimension_values str call (jget args ''dimension'') (jget args ''search'') (jget_or args ''limit'' (JInt 20))
      else if tool = ''aggregate_taxi_data''
      then client_aggregate_taxi_data str call (jget args ''dimensions'') (jget args ''measures'') (jget args ''filters'') (jget args ''order_by'')
        (jget_or args ''limit'' (JInt 20))
      else mcp_raise (mcp_error False (''Unknown governed tool '' @ [CHR 0x27] @ tool @ [CHR 0x27]) ''unknown_tool''))"

definition failed_tool :: "'s loop_env \<Rightarrow> run_ctx \<Rightarrow> string \<Rightarrow> jdict \<Rightarrow> string \<Rightarrow> string option \<Rightarrow> pyfloat \<Rightarrow> mcp_tool_error \<Rightarrow> ('s, 'a) loop" where
  "failed_tool env rx tool args tcid cid start err =
     bnd (read_clock env) (\<lambda>now. let dur = millis now start in
     seq (emit_ids env rx ''tool.failed'' [(''tool_call_id'', PStr tcid), (''tool_name'', PStr tool), (''error'', PStr (me_message err)),
           (''reason'', PStr (me_reason err)), (''duration_ms'', PInt dur)] None (Some tcid) None)
     (seq (add_step env rx ''tool_call'' ''failed'' (\<lambda>x. x\<lparr>st_tool_name := Some tool, st_tool_call_id := Some tcid,
             st_input_summary := Some (dumps_sorted args), st_output_summary := Some (''error: '' @ me_message err), st_duration_ms := Some dur,
             st_metadata := [(''reason'', PStr (me_reason err))]\<rparr>))
          (throw (orch_tool err (Some tool) cid))))"

definition run_tool :: "'s loop_env \<Rightarrow> run_ctx \<Rightarrow> mcp_client \<Rightarrow> string \<Rightarrow> jdict \<Rightarrow> string option \<Rightarrow> ('s, jdict \<times> string \<times> string \<times> int) loop" where
  "run_tool env rx mcp tool args cid =
     seq (check_cancellation env rx [])
     (bnd (new_id env) (\<lambda>tcid.
      seq (mods (\<lambda>s. s\<lparr>ls_last_tool_call_id := Some tcid\<rparr>))
     (seq (emit_event env rx ''tool.started'' [(''tool_call_id'', PStr tcid), (''tool_name'', PStr tool)])
     (bnd (read_clock env) (\<lambda>start.
      bnd (run_with_cancellation env rx (A_tool tool args) (\<lambda>t. call_governed env (mc_call mcp t) tool args)) (\<lambda>r.
        case r of
          Inl (Escaped msg) \<Rightarrow> throw (Uncaught (U_tool msg))
        | Inl (MCPToolError err) \<Rightarrow> failed_tool env rx tool args tcid cid start err
        | Inr res \<Rightarrow> bnd (read_clock env) (\<lambda>now. let dur = millis now start; qid = py_str (le_str env) (jget_or res ''query_id'' (JStr [])) in
            seq (mods (\<lambda>s. s\<lparr>ls_tool_latency := Some dur, ls_last_query_id := Some qid\<rparr>)) (ret (res, qid, tcid, dur)))))))))"

definition observe :: "'s loop_env \<Rightarrow> run_ctx \<Rightarrow> string \<Rightarrow> jdict \<Rightarrow> jdict \<Rightarrow> string \<Rightarrow> string \<Rightarrow> int \<Rightarrow> ('s, unit) loop" where
  "observe env rx tool args res qid tcid dur =
     (let bytes = int (length (json_compact (JObj res))); rows = jget_or res ''row_count'' (JInt 0) in
      seq (with_tracker env (\<lambda>now. record_tool_call now bytes))
      (seq (emit_ids env rx ''tool.completed'' [(''tool_call_id'', PStr tcid), (''query_id'', PStr qid), (''row_count'', py_of_json rows),
              (''duration_ms'', PInt dur)] None (Some tcid) (Some qid))
      (seq (add_step env rx ''tool_call'' ''completed'' (\<lambda>x. x\<lparr>st_tool_name := Some tool, st_tool_call_id := Some tcid, st_query_id := Some qid,
              st_input_summary := Some (dumps_sorted args),
              st_output_summary := Some (''rows='' @ py_str (le_str env) rows @ '', bytes='' @ show_int bytes), st_duration_ms := Some dur\<rparr>))
      (seq (if le_scan env res = [] then ret ()
            else add_step env rx ''observation_scan'' ''completed'' (\<lambda>x. x\<lparr>st_query_id := Some qid,
              st_output_summary := Some ''instruction-like text in tool observation'',
              st_metadata := [(''findings'', PList (map PDict (le_scan env res)))]\<rparr>))
      (seq (store_message env rx ''tool'' (json_compact (sort_keys (JObj res))) [(''tool_name'', PStr tool), (''query_id'', PStr qid)])
           (mods (\<lambda>s. s\<lparr>ls_next_seq := ls_next_seq s + 1\<rparr>)))))))"

section \<open>Context and answer\<close>

definition preview_dict :: "tool_preview \<Rightarrow> pyval" where
  "preview_dict v = PDict [(''query_id'', PStr (tv_query_id v)), (''columns'', py_of_json (tv_columns v)), (''row_count'', py_of_json (tv_row_count v)),
     (''preview_rows'', PList (map py_of_json (tv_preview_rows v))), (''artifact_ref'', PStr (tv_artifact_ref v)),
     (''execution_duration_ms'', py_of_json (tv_duration_ms v))]"

definition remaining_dict :: "remaining_budget \<Rightarrow> pyval" where
  "remaining_dict r = (let b = rem_budgets r in PDict [(''current_iteration'', PInt (rem_current_iteration r)), (''max_iterations'', PInt (max_iterations b)),
     (''remaining_iterations'', PInt (rem_iterations r)), (''remaining_tool_calls'', PInt (rem_tool_calls r)),
     (''remaining_llm_calls'', PInt (rem_llm_calls r)), (''remaining_input_tokens'', PInt (rem_input_tokens r)),
     (''remaining_estimated_cost_usd'', PFloat (rem_cost_usd r)), (''max_tool_calls'', PInt (max_tool_calls b)),
     (''max_llm_calls'', PInt (max_llm_calls b)), (''max_input_tokens'', PInt (max_input_tokens b)),
     (''max_estimated_cost_usd'', PFloat (max_estimated_cost_usd b))])"

definition context_dict :: "working_context \<Rightarrow> pyval" where
  "context_dict w = PDict [(''conversation_summary'', opt_val (wc_summary w)), (''current_user_message'', PStr (wc_current_user_message w)),
     (''recent_messages'', PList (map (\<lambda>m. PDict [(''message_id'', PStr (ms_id m)), (''role'', PStr (ms_role m)), (''content'', PStr (ms_content m)),
        (''sequence'', PInt (ms_sequence m))]) (wc_recent w))),
     (''available_tools'', PList (map PStr (wc_tools w))), (''dataset_schema'', PDict (py_args (wc_schema w))),
     (''recent_tool_observations'', PList (map preview_dict (wc_observations w))), (''assumptions'', PList (map PStr (wc_assumptions w))),
     (''artifacts'', PList (map PStr (wc_artifacts w))), (''failures'', PList (map PStr (wc_failures w))),
     (''remaining_budget'', remaining_dict (wc_remaining w)), (''stored_message_count'', PInt (int (wc_stored_count w))),
     (''included_message_count'', PInt (int (wc_included_count w))), (''schema_size_bytes'', PInt (int (wc_schema_bytes w)))]"

definition reduce_context :: "'s loop_env \<Rightarrow> run_ctx \<Rightarrow> jdict \<Rightarrow> jdict \<Rightarrow> string \<Rightarrow> ('s, unit) loop" where
  "reduce_context env rx schema res qid =
     seq (check_cancellation env rx [])
     (bnd (repo_call env (List_messages (rx_conv_id rx) None)) (\<lambda>r.
      bnd (gets ls_tracker) (\<lambda>t.
        case reduce (le_str env) (le_window env) (rx_prompt rx) (case r of R_messages ms \<Rightarrow> ms | _ \<Rightarrow> []) (Some (rx_user_msg_id rx)) schema [res]
            [] [] [] (Some t) (Some (rx_budgets rx)) of
          Inl e \<Rightarrow> throw (Uncaught (U_reduce e))
        | Inr w \<Rightarrow>
            let rows = py_of_json (jget_or res ''row_count'' (JInt 0)) in
            seq (emit_event env rx ''context.reduced'' (context_reduced_payload (Some qid) rows (context_dict w)))
                (add_step env rx ''context_reduced'' ''completed'' (\<lambda>x. x\<lparr>st_query_id := Some qid,
                   st_output_summary := Some ''persisted working context'',
                   st_metadata := [(''row_count'', rows), (''working_context'', context_dict w)]\<rparr>)))))"

definition apply_grounding :: "'s loop_env \<Rightarrow> run_ctx \<Rightarrow> jdict \<Rightarrow> string \<Rightarrow> string \<Rightarrow> ('s, string) loop" where
  "apply_grounding env rx res qid answer =
     (let report = le_ground env answer res (rx_prompt rx) in
      case gr_caveat report of
        None \<Rightarrow> ret answer
      | Some caveat \<Rightarrow>
          seq (add_step env rx ''grounding_check'' (if gr_ok report then ''completed'' else ''failed'') (\<lambda>x. x\<lparr>st_query_id := Some qid,
                 st_output_summary := Some (take 200 caveat), st_metadata := gr_metadata report\<rparr>))
              (ret (answer @ [CHR 0x0A, CHR 0x0A] @ caveat)))"

definition publish_answer_delta :: "'s loop_env \<Rightarrow> run_ctx \<Rightarrow> string \<Rightarrow> pyfloat \<Rightarrow> string \<times> string \<Rightarrow> ('s, unit) loop" where
  "publish_answer_delta env rx cid start piece =
     (case piece of (delta, so_far) \<Rightarrow>
      bnd (gets ls_ttft) (\<lambda>t.
      seq (if t = None then bnd (read_clock env) (\<lambda>now. mods (\<lambda>s. s\<lparr>ls_ttft := Some (millis now start)\<rparr>)) else ret ())
      (seq (emit_ids env rx ''answer.delta'' [(''delta'', PStr delta)] (Some cid) None None)
           (check_cancellation env rx so_far))))"

text \<open>Each chunk of the stream with the text up to and including it.\<close>

fun with_prefixes :: "string \<Rightarrow> string list \<Rightarrow> (string \<times> string) list" where
  "with_prefixes before [] = []"
| "with_prefixes before (d # ds) = (d, before @ d) # with_prefixes (before @ d) ds"

definition call_answerer :: "'s loop_env \<Rightarrow> run_ctx \<Rightarrow> llm_client \<Rightarrow> jdict \<Rightarrow> string \<Rightarrow> pyfloat \<Rightarrow> ('s, answer_result) loop" where
  "call_answerer env rx llm res cid start =
     seq (emit_event env rx ''llm.started'' [(''llm_call_id'', PStr cid), (''phase'', PStr ''final_answer'')])
     (seq (ensure_determinate env)
     (bnd (gets ls_forwards) (\<lambda>fw.
      seq (mods (\<lambda>s. s\<lparr>ls_stream_started := ll_streams llm\<rparr>))
     (bnd next_tick (\<lambda>t.
      seq (log_act (A_model ''final_answer'' cid))
     (case ll_answer llm t (rx_prompt rx) res (conversation_kwargs rx llm fw) of (deltas, r) \<Rightarrow>
      seq (if ll_streams llm then for_each (with_prefixes [] deltas) (publish_answer_delta env rx cid start) else ret ())
     (case r of
        Inr a \<Rightarrow> ret a
      | Inl (LLM_config msg) \<Rightarrow> throw (orch ''llm_configuration_error'' False (Some cid) msg)
      | Inl (LLM_provider e) \<Rightarrow> throw (orch_provider e None (Some cid))
      | Inl (LLM_other msg) \<Rightarrow> throw (Uncaught (U_llm msg)))))))))"

definition speak :: "'s loop_env \<Rightarrow> run_ctx \<Rightarrow> string \<Rightarrow> string \<Rightarrow> ('s, unit) loop" where
  "speak env rx cid answer = (case le_audio env answer of
     None \<Rightarrow> ret ()
   | Some (audio, voice) \<Rightarrow> emit_ids env rx ''answer.audio'' [(''data'', PStr audio), (''voice_name'', PStr voice), (''format'', PStr ''mp3'')]
       (Some cid) None None)"

definition settle_answer :: "'s loop_env \<Rightarrow> run_ctx \<Rightarrow> llm_client \<Rightarrow> string \<Rightarrow> int \<Rightarrow> answer_result \<Rightarrow> string \<Rightarrow> string \<Rightarrow> ('s, unit) loop" where
  "settle_answer env rx llm cid latency a qid answer =
     (let f = ar_facts a in
      seq (settle_planner env rx llm cid ''final_answer'' latency f
        (\<lambda>x. x\<lparr>lc_ttft_ms := ar_ttft_ms a, lc_first_visible_ms := ar_first_visible_ms a, lc_reasoning_tokens := cf_reasoning_tokens f,
            lc_reasoning_unavailable := ar_reasoning_unavailable a, lc_visible_tokens := ar_visible_tokens a,
            lc_visible_unavailable := ar_visible_unavailable a\<rparr>))
      (bnd (gets last_call_metadata) (\<lambda>meta.
       seq (append_step env rx ''llm_final_answer'' ''completed'' (\<lambda>x. x\<lparr>st_llm_call_id := Some cid,
              st_input_summary := Some (''query_id='' @ qid), st_output_summary := Some (''answer: '' @ take 80 answer),
              st_duration_ms := Some latency, st_metadata := meta\<rparr>))
           (store_message env rx ''assistant'' answer []))))"

definition final_answer :: "'s loop_env \<Rightarrow> run_ctx \<Rightarrow> llm_client \<Rightarrow> jdict \<Rightarrow> string \<Rightarrow> ('s, string) loop" where
  "final_answer env rx llm res qid =
     bnd (new_id env) (\<lambda>cid.
     seq (mods (\<lambda>s. s\<lparr>ls_phase_reached := True\<rparr>))
     (seq (check_cancellation env rx [])
     (bnd (read_clock env) (\<lambda>start.
      bnd (call_answerer env rx llm res cid start) (\<lambda>a.
      bnd (read_clock env) (\<lambda>now. let latency = millis now start in
      seq (mods (\<lambda>s. s\<lparr>ls_answer_latency := Some latency\<rparr>))
     (bnd (apply_grounding env rx res qid (ar_text a)) (\<lambda>answer.
      seq (emit_ids env rx ''answer.completed'' [(''answer'', PStr answer)] (Some cid) None None)
     (seq (speak env rx cid answer)
     (seq (settle_answer env rx llm cid latency a qid answer) (ret answer)))))))))))"

definition complete_run :: "'s loop_env \<Rightarrow> run_ctx \<Rightarrow> string \<Rightarrow> ('s, loop_result) loop" where
  "complete_run env rx answer =
     bnd (read_clock env) (\<lambda>now. bnd (gets (\<lambda>s. run_telemetry s (millis now (rx_start rx)))) (\<lambda>tel.
     seq (end_run env rx ''completed'' None [] tel [] no_extra None)
         (gets (\<lambda>s. result_of rx answer ''completed'' None True (sum_list (map lc_latency_ms (ls_calls s))) tel s))))"

section \<open>The loop\<close>

definition answer_with_tool :: "'s loop_env \<Rightarrow> run_ctx \<Rightarrow> llm_client \<Rightarrow> mcp_client \<Rightarrow> jdict \<Rightarrow> string \<Rightarrow> string \<Rightarrow> jdict \<Rightarrow> string option \<Rightarrow> ('s, loop_result) loop" where
  "answer_with_tool env rx llm mcp schema pcid tool args cid =
     bnd (validate env tool (JObj args) schema) (\<lambda>v.
     if \<not> pv_ok v
     then throw (orch ''tool_validation_error'' False (Some (case given_id cid of Some c \<Rightarrow> c | None \<Rightarrow> pcid)) (''Invalid tool proposal ('' @ violation_codes v @ '')''))
     else seq (emit_event env rx ''tool.requested'' (fold (\<lambda>(k, v) d. od_set k v d) (py_args args) [(''tool_name'', PStr tool)]))
       (let sig = tool @ '':'' @ dumps_sorted args in
        bnd (gets ls_signatures) (\<lambda>sigs.
        if sig \<in> set sigs
        then throw (Budget_exceeded (''Repeated equivalent tool call detected: '' @ sig)
          [(''limit'', PStr ''repeated_tool_call''), (''signature'', PStr sig)])
        else seq (mods (\<lambda>s. s\<lparr>ls_signatures := sigs @ [sig]\<rparr>))
          (bnd (run_tool env rx mcp tool args cid) (\<lambda>(res, qid, tcid, dur).
           seq (observe env rx tool args res qid tcid dur)
           (seq (reduce_context env rx schema res qid)
           (bnd (final_answer env rx llm res qid) (complete_run env rx))))))))"

definition loop_body :: "'s loop_env \<Rightarrow> run_ctx \<Rightarrow> llm_client \<Rightarrow> mcp_client \<Rightarrow> string \<Rightarrow> ('s, loop_result) loop" where
  "loop_body env rx llm mcp pcid =
     seq (with_tracker env record_iteration)
     (bnd (load_schema env rx mcp pcid) (\<lambda>schema.
      seq (check_cancellation env rx [])
     (seq (mods (\<lambda>s. s\<lparr>ls_tool_source := ''model'', ls_planner_outcome := ''tool_call'', ls_selected_tool := None, ls_rejected_outcome := None\<rparr>))
     (case (if requires_multi_step_analysis (rx_prompt rx) then None else lookup (rx_prompt rx)) of
        Some (tool, args) \<Rightarrow> seq (catalogue_step env rx tool) (answer_with_tool env rx llm mcp schema pcid tool args None)
      | None \<Rightarrow>
          bnd (first_proposal env rx llm schema pcid) (\<lambda>p.
          if tp_outcome (pp_proposal p) \<in> set DECLINE_OUTCOMES then decline env rx p
          else bnd (retry_loop env rx llm schema (Suc MAX_VALIDATION_RETRIES) 0 p pcid) (\<lambda>((tool, args), cid).
            answer_with_tool env rx llm mcp schema pcid tool args (Some cid)))))))"

definition guarded_body :: "'s loop_env \<Rightarrow> run_ctx \<Rightarrow> ('s, loop_result) loop" where
  "guarded_body env rx =
     seq (check_cancellation env rx [])
     (bnd (new_id env) (\<lambda>pcid.
      bnd (setup_clients env pcid) (\<lambda>(llm, mcp). loop_body env rx llm mcp pcid)))"

definition handlers :: "'s loop_env \<Rightarrow> run_ctx \<Rightarrow> loop_exn \<Rightarrow> ('s, loop_result) loop" where
  "handlers env rx e = (case e of
     Run_cancelled partial reason \<Rightarrow> on_cancelled env rx partial reason
   | Budget_exceeded reason details \<Rightarrow> on_budget env rx reason details
   | Orchestration err \<Rightarrow> on_failed env rx err
   | Uncaught u \<Rightarrow> throw (Uncaught u))"

definition fresh_state :: "'s loop_env \<Rightarrow> execution_budgets \<Rightarrow> int \<Rightarrow> pyfloat \<Rightarrow> run_event list \<Rightarrow> nat \<Rightarrow> 's \<Rightarrow> 's lstate" where
  "fresh_state env b next_seq start published n repo =
     \<lparr>ls_repo = repo, ls_tick = Suc n, ls_events = published, ls_evt_sequence = 1, ls_steps = [], ls_step_seq = 1, ls_next_seq = next_seq,
      ls_tracker = new_tracker b start, ls_calls = [], ls_signatures = [], ls_last_tool_call_id = None, ls_last_query_id = None,
      ls_proposal_latency = None, ls_tool_latency = None, ls_answer_latency = None, ls_phase_reached = False, ls_stream_started = False,
      ls_ttft = None, ls_tool_source = ''model'', ls_planner_outcome = ''tool_call'', ls_selected_tool = None, ls_rejected_outcome = None,
      ls_self_hosted = False, ls_forwards = False, ls_configured_model = DEFAULT_MODEL_ID, ls_trace = []\<rparr>"

definition run_context :: "'s loop_env \<Rightarrow> run_submission \<Rightarrow> run \<Rightarrow> pyfloat \<Rightarrow> execution_budgets \<Rightarrow> run_ctx" where
  "run_context env su r start b =
     \<lparr>rx_prompt = su_prompt su, rx_conv_id = su_conversation_id su, rx_user_msg_id = su_message_id su, rx_run_id = su_run_id su, rx_run = r,
      rx_start = start, rx_eval = (case map_of (rn_metadata r) ''eval_run_id'' of Some (PStr x) \<Rightarrow> Some x | _ \<Rightarrow> None), rx_budgets = b\<rparr>"

definition execute_loop :: "'s loop_env \<Rightarrow> run_submission \<Rightarrow> ('s, loop_result) loop" where
  "execute_loop env su =
     bnd (read_clock env) (\<lambda>start.
     bnd (repo_call env (Get_run (su_run_id su))) (\<lambda>r.
       case r of
         R_run (Some run) \<Rightarrow> (let rx = run_context env su run start (le_budgets env) in handle (guarded_body env rx) (handlers env rx))
       | _ \<Rightarrow> throw (Uncaught U_assert)))"

definition execute :: "'s loop_env \<Rightarrow> run_submission \<Rightarrow> run_event list \<Rightarrow> nat \<Rightarrow> 's \<Rightarrow> (loop_exn + loop_result) \<times> 's lstate" where
  "execute env su published n repo =
     execute_loop env su (fresh_state env (le_budgets env) (su_next_seq su) (le_clock env n) published n repo)"

section \<open>Submitting and cancelling a run\<close>

definition configured_model_id :: "'s loop_env \<Rightarrow> string" where
  "configured_model_id env = (case le_llm env of Inl _ \<Rightarrow> DEFAULT_MODEL_ID | Inr llm \<Rightarrow> ll_model_id llm)"

definition publish_event :: "'s loop_env \<Rightarrow> string \<Rightarrow> string \<Rightarrow> string \<Rightarrow> int \<Rightarrow> pydict \<Rightarrow> string option \<Rightarrow> ('s, unit) loop" where
  "publish_event env etype rid cid n payload eval =
     (if \<not> le_publisher env then ret ()
      else bnd next_tick (\<lambda>t. mods (\<lambda>s. s\<lparr>ls_events := ls_events s @
        [\<lparr>ev_id = le_id env t, ev_type = etype, ev_run_id = rid, ev_conversation_id = cid, ev_sequence = n, ev_payload = payload,
          ev_step_id = None, ev_llm_call_id = None, ev_tool_call_id = None, ev_query_id = None, ev_timestamp = le_stamp env t,
          ev_eval_run_id = eval\<rparr>]\<rparr>)))"

definition open_conversation :: "'s loop_env \<Rightarrow> string option \<Rightarrow> ('s, string) loop" where
  "open_conversation env conversation_id =
     bnd (case given_id conversation_id of Some c \<Rightarrow> ret c | None \<Rightarrow> new_id env) (\<lambda>cid.
     bnd (repo_call env (Get_conversation cid)) (\<lambda>r.
       case r of
         R_conversation (Some _) \<Rightarrow> ret cid
       | _ \<Rightarrow>
           if conversation_id \<noteq> None
           then throw (orch ''conversation_not_found'' False (Some []) (''Conversation '' @ cid @ '' not found''))
           else bnd next_tick (\<lambda>t. seq (repo_call env (Create_conversation \<lparr>cv_id = cid, cv_created_at = le_stamp env t, cv_updated_at = le_stamp env t,
             cv_title = None, cv_metadata = []\<rparr>)) (ret cid))))"

definition prepare_run :: "'s loop_env \<Rightarrow> string \<Rightarrow> string option \<Rightarrow> string option \<Rightarrow> ('s, run_submission) loop" where
  "prepare_run env prompt conversation_id eval =
     bnd (open_conversation env conversation_id) (\<lambda>cid.
     bnd (repo_call env (List_messages cid None)) (\<lambda>r. let n = int (length (case r of R_messages ms \<Rightarrow> ms | _ \<Rightarrow> [])) + 1 in
     bnd next_tick (\<lambda>t. let mid = le_id env t in
     seq (repo_call env (Add_message \<lparr>ms_id = mid, ms_conversation_id = cid, ms_sequence = n, ms_role = ''user'', ms_content = prompt,
            ms_created_at = le_stamp env t, ms_metadata = []\<rparr>))
     (bnd next_tick (\<lambda>u. let rid = le_id env u in
      seq (repo_call env (Create_run \<lparr>rn_id = rid, rn_conversation_id = cid, rn_message_id = Some mid, rn_status = ''in_progress'',
             rn_model = Some (configured_model_id env), rn_prompt_version = Some ''m9.v1'', rn_started_at = le_stamp env u, rn_completed_at = None,
             rn_input_tokens = 0, rn_output_tokens = 0, rn_estimated_cost_usd = 0, rn_failure_code = None, rn_metadata = eval_meta eval\<rparr>))
     (seq (publish_event env ''run.received'' rid cid 1 [(''prompt_summary'', PStr (take 80 prompt)), (''status'', PStr ''in_progress'')] eval)
          (ret \<lparr>su_prompt = prompt, su_conversation_id = cid, su_message_id = mid, su_run_id = rid, su_next_seq = n + 1, su_eval_run_id = eval\<rparr>)))))))"

definition request_cancellation :: "'s loop_env \<Rightarrow> string \<Rightarrow> ('s, run) loop" where
  "request_cancellation env rid =
     bnd (repo_call env (Get_run rid)) (\<lambda>r.
       case r of
         R_run (Some run) \<Rightarrow>
           if rn_status run \<in> set RUN_TERMINAL_STATUS
           then throw (orch ''run_already_terminal'' False (Some []) (''Run '' @ rid @ '' is already terminal ('' @ rn_status run @ '')''))
           else let asked = run\<lparr>rn_status := ''cancel_requested''\<rparr> in
             seq (repo_call env (Update_run asked))
             (seq (publish_event env ''run.cancel_requested'' (rn_id run) (rn_conversation_id run) 0 [(''status'', PStr ''cancel_requested'')]
                     (case map_of (rn_metadata run) ''eval_run_id'' of Some (PStr x) \<Rightarrow> Some x | _ \<Rightarrow> None))
                  (ret asked))
       | _ \<Rightarrow> throw (orch ''run_not_found'' False (Some []) (''Run '' @ rid @ '' not found'')))"

definition run_prompt :: "'s loop_env \<Rightarrow> string \<Rightarrow> string option \<Rightarrow> 's lstate \<Rightarrow> (loop_exn + loop_result) \<times> 's lstate" where
  "run_prompt env prompt conversation_id s =
     (case prepare_run env prompt conversation_id None s of
        (Inl e, s1) \<Rightarrow> (Inl e, s1)
      | (Inr su, s1) \<Rightarrow> execute env su (ls_events s1) (ls_tick s1) (ls_repo s1))"

end
