(* ===== verification/App_Run.thy ===== *)
theory App_Run
  imports App_Loop
begin

text \<open>
  What every execution of a run does, proved once over the programs of \<open>App_Loop\<close>. The interface \<open>loop_rel\<close> states
  what a relation between states has to satisfy at the primitives of the loop; inside it every part of the loop
  is shown to keep the relation. \<open>loop_calls\<close> adds the model and tool calls, \<open>loop_ends\<close> what holds when the body
  returns. The properties interpret these with the numbering of events and steps, the stored run, the polls for
  cancellation and the validated tool calls.
\<close>

named_theorems loop_defs \<open>definitions of the programs of the loop\<close>

section \<open>The interface\<close>

definition core :: "'s lstate \<Rightarrow> 's \<times> run_event list \<times> int \<times> run_step list \<times> int \<times> act list" where
  "core s = (ls_repo s, ls_events s, ls_evt_sequence s, ls_steps s, ls_step_seq s, ls_trace s)"

fun quiet_op :: "repo_op \<Rightarrow> bool" where
  "quiet_op (Get_run _) = True"
| "quiet_op (Add_message _) = True"
| "quiet_op (List_messages _ _) = True"
| "quiet_op _ = False"

definition keeps_sequence :: "(run_step \<Rightarrow> run_step) \<Rightarrow> bool" where
  "keeps_sequence fill \<longleftrightarrow> (\<forall>x. st_sequence (fill x) = st_sequence x \<and> st_run_id (fill x) = st_run_id x)"

locale loop_rel = exn_order R E
  for R :: "'s lstate \<Rightarrow> 's lstate \<Rightarrow> bool" and E :: "loop_exn \<Rightarrow> 's lstate \<Rightarrow> 's lstate \<Rightarrow> bool" +
  fixes env :: "'s loop_env" and rx :: run_ctx
  assumes same_core: "core t = core s \<Longrightarrow> R s t"
    and checked: "keeps R E (check_cancellation env rx p)"
    and schema_act: "R s (s\<lparr>ls_trace := ls_trace s @ [A_schema]\<rparr>)"
    and repo_quiet: "quiet_op op \<Longrightarrow> R s (s\<lparr>ls_repo := snd (le_step env op (le_other env n (ls_repo s)))\<rparr>)"
    and emitted: "etype \<notin> set RUN_TERMINAL_EVENTS \<Longrightarrow> keeps R E (emit_ids env rx etype payload llm tool query)"
    and stepped: "keeps_sequence fill \<Longrightarrow> keeps R E (add_step env rx type status fill)"
begin

lemma keeps_core: "(\<And>s. core (snd (m s)) = core s) \<Longrightarrow> keeps R E m"
  by (auto simp: keeps_def wp_def split: prod.splits sum.splits intro!: same_core exn) (metis snd_conv)+

lemma keeps_mods_core: "(\<And>s. core (g s) = core s) \<Longrightarrow> keeps R E (mods g)"
  by (rule keeps_mods) (rule same_core)

lemma keeps_tick: "keeps R E next_tick"
  unfolding next_tick_def by (intro keeps_intros keeps_mods_core) (simp add: core_def)

lemma keeps_clock: "keeps R E (read_clock env)"
  unfolding read_clock_def by (intro keeps_intros keeps_tick)

lemma keeps_new_id: "keeps R E (new_id env)"
  unfolding new_id_def by (intro keeps_intros keeps_tick)

lemma keeps_repo: "quiet_op op \<Longrightarrow> keeps R E (repo_call env op)"
proof (unfold keeps_def, rule allI)
  fix s :: "'s lstate"
  assume q: "quiet_op op"
  let ?t = "s\<lparr>ls_repo := snd (le_step env op (le_other env (ls_tick s) (ls_repo s)))\<rparr>"
  have "R s (?t\<lparr>ls_tick := Suc (ls_tick s)\<rparr>)"
    by (rule trans [OF repo_quiet [OF q] same_core]) (simp add: core_def)
  then show "wp (repo_call env op) (\<lambda>_. R s) (\<lambda>e. E e s) s"
    by (auto simp: wp_def repo_call_def Let_def split: prod.splits sum.splits intro: exn)
qed

lemma keeps_emit: "etype \<notin> set RUN_TERMINAL_EVENTS \<Longrightarrow> keeps R E (emit_event env rx etype payload)"
  unfolding emit_event_def by (rule emitted)

lemma keeps_poll: "keeps R E (poll_until_done env rx n)"
  by (induction n) (simp_all add: keeps_ret keeps_seq checked)

lemma keeps_background: "(\<And>s. R s (s\<lparr>ls_trace := ls_trace s @ [a]\<rparr>)) \<Longrightarrow> keeps R E (run_with_cancellation env rx a f)"
  unfolding run_with_cancellation_def log_act_def by (intro keeps_intros keeps_tick keeps_poll keeps_mods) auto

lemma keeps_store_message: "keeps R E (store_message env rx role content meta)"
  unfolding store_message_def by (intro keeps_intros keeps_tick keeps_repo) auto

lemma keeps_with_tracker: "keeps R E (with_tracker env op)"
  unfolding with_tracker_def by (intro keeps_intros keeps_clock keeps_mods_core) (simp add: core_def)

lemma keeps_determinate: "keeps R E (ensure_determinate env)"
  unfolding ensure_determinate_def by (rule keeps_with_tracker)

lemma keeps_price: "keeps R E (price_call rx llm i j result model)"
  unfolding price_call_def by (intro keeps_intros)

lemma keeps_record: "keeps R E (record_call env i j c)"
  unfolding record_call_def by (rule keeps_with_tracker)

lemma keeps_append_call: "keeps R E (append_call x)"
  unfolding append_call_def by (rule keeps_mods_core) (simp add: core_def)

lemma keeps_unknown_usage: "keeps R E (record_unknown_usage_failure env rx llm err model cid latency)"
  unfolding record_unknown_usage_failure_def
  by (intro keeps_bnd keeps_seq keeps_price keeps_append_call keeps_core)
    (simp add: handle_def record_call_def with_tracker_def read_clock_def next_tick_def bnd_def seq_def gets_def mods_def ret_def throw_def Let_def core_def
      split: prod.splits sum.splits option.splits)

lemma keeps_failed_proposal: "keeps R E (failed_proposal env rx llm err cid start first)"
  unfolding failed_proposal_def by (intro keeps_intros keeps_clock keeps_unknown_usage keeps_price keeps_append_call)

lemma keeps_setup: "keeps R E (setup_clients env pcid)"
  unfolding setup_clients_def by (intro keeps_intros keeps_mods_core) (simp add: core_def)

lemma keeps_client: "(\<And>y. keeps R E (f y)) \<Longrightarrow> (\<And>y. keeps R E (g y)) \<Longrightarrow> keeps R E (case x of MCPToolError y \<Rightarrow> f y | Escaped y \<Rightarrow> g y)"
  by (cases x) simp_all

lemma keeps_failure: "(\<And>y. keeps R E (f y)) \<Longrightarrow> (\<And>y. keeps R E (g y)) \<Longrightarrow> (\<And>y. keeps R E (h y)) \<Longrightarrow>
  keeps R E (case x of LLM_config y \<Rightarrow> f y | LLM_provider y \<Rightarrow> g y | LLM_other y \<Rightarrow> h y)"
  by (cases x) simp_all

lemmas loop_intros = keeps_intros keeps_tick keeps_clock keeps_new_id keeps_emit emitted stepped checked keeps_store_message
  keeps_with_tracker keeps_determinate keeps_price keeps_record keeps_append_call keeps_failed_proposal keeps_client keeps_failure keeps_mods_core

lemma keeps_load_schema: "keeps R E (load_schema env rx mcp pcid)"
  unfolding load_schema_def by (intro loop_intros keeps_background schema_act) (simp_all add: RUN_TERMINAL_EVENTS_def)

lemma keeps_settle_planner: "keeps R E (settle_planner env rx llm cid phase latency f extra)"
  unfolding settle_planner_def by (intro loop_intros) (simp_all add: RUN_TERMINAL_EVENTS_def)

lemma keeps_catalogue_step: "keeps R E (catalogue_step env rx tool)"
  unfolding catalogue_step_def by (intro loop_intros) (simp_all add: core_def keeps_sequence_def)

lemma keeps_validate: "keeps R E (validate env name arguments schema)"
  unfolding validate_def by (intro loop_intros)

lemma keeps_invalid_step: "keeps R E (invalid_step env rx arguments v used)"
  unfolding invalid_step_def by (intro loop_intros) (simp add: keeps_sequence_def)

lemma keeps_failed_tool: "keeps R E (failed_tool env rx tool args tcid cid start err)"
  unfolding failed_tool_def by (intro loop_intros) (simp_all add: RUN_TERMINAL_EVENTS_def keeps_sequence_def)

lemma keeps_observe: "keeps R E (observe env rx tool args res qid tcid dur)"
  unfolding observe_def by (intro loop_intros) (simp_all add: RUN_TERMINAL_EVENTS_def keeps_sequence_def core_def)

lemma keeps_reduce_context: "keeps R E (reduce_context env rx schema res qid)"
  unfolding reduce_context_def by (intro loop_intros keeps_repo) (simp_all add: RUN_TERMINAL_EVENTS_def keeps_sequence_def)

lemma keeps_grounding: "keeps R E (apply_grounding env rx res qid answer)"
  unfolding apply_grounding_def by (intro loop_intros) (simp add: keeps_sequence_def)

lemma keeps_delta: "keeps R E (publish_answer_delta env rx cid start piece)"
  unfolding publish_answer_delta_def by (intro loop_intros) (simp_all add: RUN_TERMINAL_EVENTS_def core_def)

lemma keeps_speak: "keeps R E (speak env rx cid answer)"
  unfolding speak_def by (intro loop_intros) (simp_all add: RUN_TERMINAL_EVENTS_def)

end

section \<open>Model and tool calls\<close>

locale loop_calls = loop_rel +
  fixes tool_ok :: "string \<Rightarrow> jdict \<Rightarrow> bool"
  assumes model_act: "R s (s\<lparr>ls_trace := ls_trace s @ [A_model phase cid]\<rparr>)"
    and tool_act: "tool_ok tool args \<Longrightarrow> R s (s\<lparr>ls_trace := ls_trace s @ [A_tool tool args]\<rparr>)"
begin

lemma keeps_call_planner: "keeps R E (call_planner env rx llm schema cid phase request first)"
  unfolding call_planner_def by (intro loop_intros keeps_background model_act) (simp add: RUN_TERMINAL_EVENTS_def)

lemma keeps_first_proposal: "keeps R E (first_proposal env rx llm schema cid)"
  unfolding first_proposal_def
  by (intro loop_intros keeps_call_planner keeps_settle_planner) (simp_all add: core_def keeps_sequence_def)

lemma keeps_retry_proposal: "keeps R E (retry_proposal env rx llm schema v)"
  unfolding retry_proposal_def
  by (intro loop_intros keeps_call_planner keeps_settle_planner) (simp_all add: core_def keeps_sequence_def)

lemma keeps_retry_loop: "keeps R E (retry_loop env rx llm schema fuel used p cid)"
proof (induction fuel arbitrary: used p cid)
  case (Suc fuel)
  show ?case unfolding retry_loop.simps
    by (intro loop_intros keeps_validate keeps_invalid_step keeps_retry_proposal Suc.IH)
qed (simp add: keeps_throw)

lemma keeps_run_tool: "tool_ok tool args \<Longrightarrow> keeps R E (run_tool env rx mcp tool args cid)"
  unfolding run_tool_def
  by (intro loop_intros keeps_background tool_act keeps_failed_tool) (simp_all add: RUN_TERMINAL_EVENTS_def core_def)

lemma keeps_call_answerer: "keeps R E (call_answerer env rx llm res cid start)"
  unfolding call_answerer_def log_act_def
  by (intro loop_intros keeps_delta keeps_mods [OF model_act]) (simp_all add: RUN_TERMINAL_EVENTS_def core_def)

end

section \<open>The end of the body\<close>

locale loop_ends = loop_calls +
  fixes F :: "loop_result \<Rightarrow> 'a lstate \<Rightarrow> 'a lstate \<Rightarrow> bool"
  assumes ends_trans: "R s t \<Longrightarrow> F x t u \<Longrightarrow> F x s u"
    and validated: "le_mcp env = Inr mcp \<Longrightarrow> mc_schema mcp i = Inr raw \<Longrightarrow> sanitize_dataset_schema raw = Inr schema \<Longrightarrow>
      validate_proposal (le_iso env) tool (JObj args) (Some schema) k 1 = Inr v \<Longrightarrow> pv_ok v \<Longrightarrow> tool_ok tool args"
    and declined: "wp (finish_declined env rx why answer) (\<lambda>x. F x s) (\<lambda>e. E e s) s"
    and answered: "wp (seq (settle_answer env rx llm cid latency a qid answer) (complete_run env rx answer)) (\<lambda>x. F x s) (\<lambda>e. E e s) s"
begin

definition ends :: "('a lstate, loop_exn, loop_result) prog \<Rightarrow> bool" where
  "ends m \<longleftrightarrow> (\<forall>s. wp m (\<lambda>x. F x s) (\<lambda>e. E e s) s)"

lemma ends_throw: "ends (throw e)" by (simp add: ends_def exn refl)

lemma ends_bnd:
  assumes "keeps R E m" "\<And>x. ends (f x)"
  shows "ends (bnd m f)"
  unfolding ends_def wp_bnd
proof
  fix s
  from keeps_wp [OF assms(1)] show "wp m (\<lambda>x. wp (f x) (\<lambda>x. F x s) (\<lambda>e. E e s)) (\<lambda>e. E e s) s"
  proof (rule wp_mono)
    fix x t assume "R s t"
    from assms(2) have "wp (f x) (\<lambda>x. F x t) (\<lambda>e. E e t) t" by (simp add: ends_def)
    then show "wp (f x) (\<lambda>x. F x s) (\<lambda>e. E e s) t"
      by (rule wp_mono) (auto intro: ends_trans trans_exn \<open>R s t\<close>)
  qed
qed

lemma ends_seq: "keeps R E m \<Longrightarrow> ends n \<Longrightarrow> ends (seq m n)"
  by (simp add: seq_def ends_bnd)

lemma ends_if: "(b \<Longrightarrow> ends m) \<Longrightarrow> (\<not> b \<Longrightarrow> ends n) \<Longrightarrow> ends (if b then m else n)" by simp

lemma ends_option: "ends m \<Longrightarrow> (\<And>y. ends (f y)) \<Longrightarrow> ends (case x of None \<Rightarrow> m | Some y \<Rightarrow> f y)"
  by (cases x) simp_all

lemma ends_prod: "(\<And>a b. ends (f a b)) \<Longrightarrow> ends (case p of (a, b) \<Rightarrow> f a b)"
  by (cases p) simp

lemma ends_prod2: "(\<And>a b. ends (f a b c)) \<Longrightarrow> ends ((case p of (a, b) \<Rightarrow> f a b) c)"
  by (cases p) simp

lemma ends_let: "(\<And>x. ends (f x)) \<Longrightarrow> ends (let x = v in f x)" by simp

lemmas ends_intros = ends_throw ends_bnd ends_seq ends_if ends_option ends_prod ends_prod2 ends_let

lemma ends_validate:
  assumes "\<And>k v. validate_proposal (le_iso env) name arguments (Some schema) k 1 = Inr v \<Longrightarrow> ends (f v)"
  shows "ends (bnd (validate env name arguments schema) f)"
proof -
  have "ends (bnd (case validate_proposal (le_iso env) name arguments (Some schema) k 1 of
      Inl e \<Rightarrow> throw (Uncaught (U_python e)) | Inr v \<Rightarrow> ret v) f)" for k
    using assms [of k] by (cases "validate_proposal (le_iso env) name arguments (Some schema) k 1") (simp_all add: ends_bnd ends_throw keeps_throw ends_def exn refl)
  from ends_bnd [OF keeps_gets this] show ?thesis by (simp add: validate_def bnd_assoc)
qed

lemma ends_decline: "ends (decline env rx p)"
  unfolding decline_def Let_def
  by (intro ends_seq loop_intros; (simp add: ends_def declined RUN_TERMINAL_EVENTS_def core_def keeps_sequence_def)?)

lemma ends_final: "ends (bnd (final_answer env rx llm res qid) (complete_run env rx))"
proof -
  have tail: "ends (bnd (settle_answer env rx llm cid latency a qid answer) (\<lambda>_. complete_run env rx answer))" for cid latency a answer
    using answered [of llm cid latency a qid answer] by (simp add: ends_def)
  show ?thesis
    unfolding final_answer_def Let_def seq_def bnd_assoc bnd_ret
    by (intro tail ends_bnd loop_intros keeps_call_answerer keeps_grounding keeps_speak)
      (simp_all add: RUN_TERMINAL_EVENTS_def core_def)
qed

lemma ends_answer_with_tool:
  assumes "le_mcp env = Inr mcp" "mc_schema mcp t = Inr raw" "sanitize_dataset_schema raw = Inr schema"
  shows "ends (answer_with_tool env rx llm mcp schema pcid tool args cid)"
  unfolding answer_with_tool_def
proof (rule ends_validate, rule ends_if)
  fix k v
  assume v: "validate_proposal (le_iso env) tool (JObj args) (Some schema) k 1 = Inr v" "\<not> \<not> pv_ok v"
  then have "tool_ok tool args" using validated [OF assms] by simp
  then show "ends (seq (emit_event env rx ''tool.requested'' (fold (\<lambda>(k, v) d. od_set k v d) (py_args args) [(''tool_name'', PStr tool)]))
       (let sig = tool @ '':'' @ dumps_sorted args in
        bnd (gets ls_signatures) (\<lambda>sigs.
        if sig \<in> set sigs
        then throw (Budget_exceeded (''Repeated equivalent tool call detected: '' @ sig)
          [(''limit'', PStr ''repeated_tool_call''), (''signature'', PStr sig)])
        else seq (mods (\<lambda>s. s\<lparr>ls_signatures := sigs @ [sig]\<rparr>))
          (bnd (run_tool env rx mcp tool args cid) (\<lambda>(res, qid, tcid, dur).
           seq (observe env rx tool args res qid tcid dur)
           (seq (reduce_context env rx schema res qid)
           (bnd (final_answer env rx llm res qid) (complete_run env rx))))))))"
    by (intro ends_intros ends_final loop_intros keeps_run_tool keeps_observe keeps_reduce_context)
      (simp_all add: RUN_TERMINAL_EVENTS_def core_def)
qed (rule ends_throw)

lemma ends_load_schema:
  assumes "\<And>t raw schema. mc_schema mcp t = Inr raw \<Longrightarrow> sanitize_dataset_schema raw = Inr schema \<Longrightarrow> ends (f schema)"
  shows "ends (bnd (load_schema env rx mcp pcid) f)"
proof -
  have answer: "ends (bnd (case mc_schema mcp t of
        Inl (Escaped msg) \<Rightarrow> throw (Uncaught (U_tool msg))
      | Inl (MCPToolError err) \<Rightarrow> throw (orch_tool err (Some ''get_dataset_schema'') (Some pcid))
      | Inr raw \<Rightarrow> (case sanitize_dataset_schema raw of
          Inl err \<Rightarrow> throw (orch_tool err (Some ''get_dataset_schema'') (Some pcid))
        | Inr schema \<Rightarrow> ret schema)) f)" for t
    using assms [of t] by (auto simp: ends_def exn refl split: sum.splits client_exn.splits)
  show ?thesis
    unfolding load_schema_def run_with_cancellation_def log_act_def seq_def bnd_assoc bnd_ret
    by (intro answer ends_bnd keeps_emit checked keeps_tick keeps_poll keeps_mods schema_act) (simp_all add: RUN_TERMINAL_EVENTS_def)
qed

lemma ends_body:
  assumes "le_mcp env = Inr mcp"
  shows "ends (loop_body env rx llm mcp pcid)"
  unfolding loop_body_def
  by (rule ends_seq [OF keeps_with_tracker], rule ends_load_schema)
    (intro ends_intros ends_decline ends_answer_with_tool [OF assms] checked keeps_mods_core
      keeps_catalogue_step keeps_first_proposal keeps_retry_loop; simp add: core_def)

lemma ends_setup: "ends (bnd (setup_clients env pcid) (\<lambda>(llm, mcp). loop_body env rx llm mcp pcid))"
proof (cases "le_llm env")
  case (Inr llm)
  show ?thesis
  proof (cases "le_mcp env")
    fix mcp assume m: "le_mcp env = Inr mcp"
    show ?thesis unfolding setup_clients_def
      by (simp add: Inr m seq_def bnd_assoc) (intro ends_bnd keeps_mods_core ends_body [OF m], simp add: core_def)
  qed (simp add: setup_clients_def Inr ends_def exn refl)
qed (simp add: setup_clients_def ends_def exn refl)

lemma ends_guarded: "ends (guarded_body env rx)"
  unfolding guarded_body_def by (intro ends_seq ends_bnd checked keeps_new_id ends_setup)

end

section \<open>Numbering, terminal events and the stored run\<close>

fun numbered :: "int \<Rightarrow> int list \<Rightarrow> bool" where
  "numbered n [] \<longleftrightarrow> True"
| "numbered n (x # xs) \<longleftrightarrow> x = n \<and> numbered (n + 1) xs"

lemma numbered_append [simp]: "numbered n (xs @ ys) \<longleftrightarrow> numbered n xs \<and> numbered (n + int (length xs)) ys"
  by (induction xs arbitrary: n) (auto simp: algebra_simps)

definition events_grow :: "bool \<Rightarrow> string \<Rightarrow> run_event list \<Rightarrow> int \<Rightarrow> run_event list \<Rightarrow> int \<Rightarrow> bool" where
  "events_grow pub rid es n es' n' \<longleftrightarrow> (\<exists>new. es' = es @ new \<and> n' = n + int (length new) \<and> numbered n (map ev_sequence new) \<and>
     (\<forall>e\<in>set new. ev_type e \<notin> set RUN_TERMINAL_EVENTS \<and> ev_run_id e = rid) \<and> (\<not> pub \<longrightarrow> new = []))"

definition steps_grow :: "string \<Rightarrow> run_step list \<Rightarrow> int \<Rightarrow> run_step list \<Rightarrow> int \<Rightarrow> bool" where
  "steps_grow rid ss n ss' n' \<longleftrightarrow> (\<exists>new. ss' = ss @ new \<and> n' = n + int (length new) \<and> numbered n (map st_sequence new) \<and>
     (\<forall>x\<in>set new. st_run_id x = rid))"

lemma events_grow_refl: "events_grow pub rid es n es n"
  by (simp add: events_grow_def)

lemma events_grow_trans: "events_grow pub rid es n es1 n1 \<Longrightarrow> events_grow pub rid es1 n1 es2 n2 \<Longrightarrow> events_grow pub rid es n es2 n2"
  unfolding events_grow_def by (elim exE conjE) (rule exI [where x = "_ @ _"], auto)

lemma steps_grow_refl: "steps_grow rid ss n ss n"
  by (simp add: steps_grow_def)

lemma steps_grow_trans: "steps_grow rid ss n ss1 n1 \<Longrightarrow> steps_grow rid ss1 n1 ss2 n2 \<Longrightarrow> steps_grow rid ss n ss2 n2"
  unfolding steps_grow_def by (elim exE conjE) (rule exI [where x = "_ @ _"], auto)

text \<open>What the loop relies on of the repository, and of the other clients while it runs.\<close>

locale run_store =
  fixes step :: "'s repo_step" and stored :: "string \<Rightarrow> 's \<Rightarrow> run option"
  assumes get_run: "fst (step (Get_run rid) m) = Inr (R_run (stored rid m))"
    and run_kept: "quiet_op op \<or> (\<exists>x. op = Add_run_step x) \<Longrightarrow> stored rid (snd (step op m)) = stored rid m"
    and run_updated: "stored (rn_id r) m \<noteq> None \<Longrightarrow> (\<exists>x. fst (step (Update_run r) m) = Inr x) \<and> stored (rn_id r) (snd (step (Update_run r) m)) = Some r"
begin

lemma update_read: "stored (rn_id r) m \<noteq> None \<Longrightarrow> fst (step (Get_run (rn_id r)) (snd (step (Update_run r) m))) = Inr (R_run (Some r))"
  by (simp add: get_run run_updated)

end

interpretation memory_runs: run_store mem_op mem_get_run
proof
  show "mem_get_run rid (snd (mem_op op m)) = mem_get_run rid m" if "quiet_op op \<or> (\<exists>x. op = Add_run_step x)" for op rid m
    using that by (cases op) (auto simp: map_reply_def mem_defs Let_def)
qed (auto simp: map_reply_def mem_defs)

definition active_run :: "(string \<Rightarrow> 's \<Rightarrow> run option) \<Rightarrow> string \<Rightarrow> 's \<Rightarrow> bool" where
  "active_run stored rid m \<longleftrightarrow> (\<exists>r. stored rid m = Some r \<and> rn_status r \<notin> set RUN_TERMINAL_STATUS)"

definition store_rely :: "(string \<Rightarrow> 's \<Rightarrow> run option) \<Rightarrow> 's loop_env \<Rightarrow> string \<Rightarrow> bool" where
  "store_rely stored env rid \<longleftrightarrow> run_store (le_step env) stored \<and> (\<forall>n m. active_run stored rid m \<longrightarrow> active_run stored rid (le_other env n m))"

lemma active_kept:
  assumes "store_rely stored env rid" "active_run stored rid m" "quiet_op op \<or> (\<exists>x. op = Add_run_step x)"
  shows "active_run stored rid (snd (le_step env op (le_other env n m)))"
proof -
  from assms(1) have s: "run_store (le_step env) stored" and "active_run stored rid (le_other env n m)"
    using assms(2) by (auto simp: store_rely_def)
  with run_store.run_kept [OF s assms(3)] show ?thesis by (simp add: active_run_def)
qed

definition going :: "(string \<Rightarrow> 's \<Rightarrow> run option) \<Rightarrow> 's loop_env \<Rightarrow> run_ctx \<Rightarrow> 's lstate \<Rightarrow> 's lstate \<Rightarrow> bool" where
  "going stored env rx s t \<longleftrightarrow> events_grow (le_publisher env) (rx_run_id rx) (ls_events s) (ls_evt_sequence s) (ls_events t) (ls_evt_sequence t) \<and>
     steps_grow (rx_run_id rx) (ls_steps s) (ls_step_seq s) (ls_steps t) (ls_step_seq t) \<and>
     (store_rely stored env (rx_run_id rx) \<longrightarrow> active_run stored (rx_run_id rx) (ls_repo s) \<longrightarrow> active_run stored (rx_run_id rx) (ls_repo t))"

lemma going_refl: "going stored env rx s s"
  by (simp add: going_def events_grow_refl steps_grow_refl)

lemma going_trans: "going stored env rx s t \<Longrightarrow> going stored env rx t u \<Longrightarrow> going stored env rx s u"
  unfolding going_def by (blast intro: events_grow_trans steps_grow_trans)

lemma going_core: "core t = core s \<Longrightarrow> going stored env rx s t"
  by (auto simp: core_def going_def events_grow_refl steps_grow_refl)

lemma going_trace: "going stored env rx s (s\<lparr>ls_trace := as\<rparr>)"
  by (simp add: going_def events_grow_refl steps_grow_refl)

lemma going_repo: "quiet_op op \<or> (\<exists>x. op = Add_run_step x) \<Longrightarrow> going stored env rx s (s\<lparr>ls_repo := snd (le_step env op (le_other env n (ls_repo s)))\<rparr>)"
  by (auto simp: going_def events_grow_refl steps_grow_refl active_kept)

lemma going_repo_call: "quiet_op op \<or> (\<exists>x. op = Add_run_step x) \<Longrightarrow> wp (repo_call env op) (\<lambda>_ t. going stored env rx s t \<and> ls_steps t = ls_steps s \<and> ls_step_seq t = ls_step_seq s)
    (\<lambda>_. going stored env rx s) s"
  using going_trans [OF going_repo [of op stored env rx s "ls_tick s"] going_core]
  by (auto simp: wp_def repo_call_def Let_def core_def split: prod.splits sum.splits)

interpretation going_order: exn_order "going stored env rx" "\<lambda>_. going stored env rx" for stored env rx
  by unfold_locales (auto intro: going_refl going_trans)

lemma keeps_going_repo: "quiet_op op \<Longrightarrow> keeps (going stored env rx) (\<lambda>_. going stored env rx) (repo_call env op)"
  unfolding keeps_def by (rule allI, rule wp_mono [OF going_repo_call]) auto

lemma keeps_going_core: "(\<And>s. core (g s) = core s) \<Longrightarrow> keeps (going stored env rx) (\<lambda>_. going stored env rx) (mods g)"
  by (rule going_order.keeps_mods) (rule going_core)

lemma keeps_going_tick: "keeps (going stored env rx) (\<lambda>_. going stored env rx) next_tick"
  unfolding next_tick_def by (intro going_order.keeps_intros keeps_going_core) (simp add: core_def)

lemma going_checked: "keeps (going stored env rx) (\<lambda>_. going stored env rx) (check_cancellation env rx p)"
  unfolding check_cancellation_def is_cancelled_def log_act_def
  by (intro going_order.keeps_intros keeps_going_tick keeps_going_repo going_order.keeps_mods going_trace) simp

lemma going_emitted:
  "etype \<notin> set RUN_TERMINAL_EVENTS \<Longrightarrow> keeps (going stored env rx) (\<lambda>_. going stored env rx) (emit_ids env rx etype payload llm tool query)"
  unfolding emit_ids_def
  by (intro going_order.keeps_intros keeps_going_tick going_order.keeps_mods)
    (auto simp: going_def events_grow_def steps_grow_refl)

text \<open>One more step, with the next number; \<open>add_step\<close> then counts it.\<close>

definition one_step :: "(string \<Rightarrow> 's \<Rightarrow> run option) \<Rightarrow> 's loop_env \<Rightarrow> run_ctx \<Rightarrow> 's lstate \<Rightarrow> 's lstate \<Rightarrow> bool" where
  "one_step stored env rx s t \<longleftrightarrow> (\<exists>x. ls_steps t = ls_steps s @ [x] \<and> st_sequence x = ls_step_seq s \<and> st_run_id x = rx_run_id rx) \<and>
     ls_step_seq t = ls_step_seq s \<and> ls_tracker t = ls_tracker s \<and>
     going stored env rx s (t\<lparr>ls_steps := ls_steps s\<rparr>)"

lemma append_step_once:
  assumes "keeps_sequence fill"
  shows "wp (append_step env rx type status fill) (\<lambda>_. one_step stored env rx s) (\<lambda>_. going stored env rx s) s"
proof -
  let ?x = "fill (blank_step rx (le_id env (ls_tick s)) (ls_step_seq s) type status (le_stamp env (ls_tick s)))"
  let ?s = "s\<lparr>ls_tick := Suc (ls_tick s)\<rparr>"
  have next_tick: "going stored env rx s ?s" by (rule going_core) (simp add: core_def)
  have x: "st_sequence ?x = ls_step_seq s" "st_run_id ?x = rx_run_id rx"
    using assms by (simp_all add: keeps_sequence_def blank_step_def)
  let ?t = "?s\<lparr>ls_repo := snd (le_step env (Add_run_step ?x) (le_other env (Suc (ls_tick s)) (ls_repo s))), ls_tick := Suc (Suc (ls_tick s))\<rparr>"
  have "going stored env rx s ?t"
    by (rule going_trans [OF going_repo [of "Add_run_step ?x" stored env rx s "Suc (ls_tick s)"] going_core]) (simp_all add: core_def)
  then show ?thesis
    using x by (auto simp: append_step_def next_tick_def Let_def wp_def bnd_def seq_def gets_def mods_def ret_def repo_call_def one_step_def
        going_def split: prod.splits sum.splits)
qed

lemma one_step_counted: "one_step stored env rx s t \<Longrightarrow> going stored env rx s (t\<lparr>ls_step_seq := ls_step_seq t + 1\<rparr>)"
  by (auto simp: one_step_def going_def steps_grow_def)

lemma going_stepped:
  assumes "keeps_sequence fill"
  shows "keeps (going stored env rx) (\<lambda>_. going stored env rx) (add_step env rx type status fill)"
  unfolding keeps_def add_step_def wp_seq wp_mods
  by (rule allI, rule wp_mono [OF append_step_once [OF assms]]) (auto dest: one_step_counted)

text \<open>The terminal record and event.\<close>

definition closing :: "(string \<Rightarrow> 's \<Rightarrow> run option) \<Rightarrow> 's loop_env \<Rightarrow> run_ctx \<Rightarrow> string \<Rightarrow> string option \<Rightarrow> 's lstate \<Rightarrow> 's lstate \<Rightarrow> bool" where
  "closing stored env rx status failure s t \<longleftrightarrow>
     (\<exists>new. ls_events t = ls_events s @ new \<and> numbered (ls_evt_sequence s) (map ev_sequence new) \<and>
        map ev_type new = (if le_publisher env then [''run.'' @ status] else []) \<and> (\<forall>e\<in>set new. ev_run_id e = rx_run_id rx)) \<and>
     ls_steps t = ls_steps s \<and> ls_tracker t = ls_tracker s \<and> ls_calls t = ls_calls s \<and> ls_trace t = ls_trace s \<and>
     (store_rely stored env (rx_run_id rx) \<longrightarrow> active_run stored (rx_run_id rx) (ls_repo s) \<longrightarrow>
       (\<exists>r. stored (rx_run_id rx) (ls_repo t) = Some r \<and> rn_status r = status \<and> rn_failure_code r = failure \<and>
          rn_input_tokens r = bt_input_tokens (ls_tracker s) \<and> rn_output_tokens r = bt_output_tokens (ls_tracker s) \<and>
          rn_estimated_cost_usd r = estimated_cost_usd (ls_tracker s)))"

definition refused :: "(string \<Rightarrow> 's \<Rightarrow> run option) \<Rightarrow> 's loop_env \<Rightarrow> run_ctx \<Rightarrow> loop_exn \<Rightarrow> 's lstate \<Rightarrow> 's lstate \<Rightarrow> bool" where
  "refused stored env rx e s t \<longleftrightarrow> (\<exists>u. e = Uncaught u) \<and> ls_events t = ls_events s \<and> ls_evt_sequence t = ls_evt_sequence s \<and>
     ls_steps t = ls_steps s \<and> ls_step_seq t = ls_step_seq s \<and> ls_trace t = ls_trace s \<and>
     \<not> (store_rely stored env (rx_run_id rx) \<and> active_run stored (rx_run_id rx) (ls_repo s))"

lemma end_run_closes:
  "wp (end_run env rx status failure before tel after extra cid) (\<lambda>_. closing stored env rx status failure s) (\<lambda>e. refused stored env rx e s) s"
proof -
  let ?r = "terminal_run rx status failure before tel after (le_stamp env (ls_tick s)) (s\<lparr>ls_tick := Suc (ls_tick s)\<rparr>)"
  let ?m = "le_other env (Suc (ls_tick s)) (ls_repo s)"
  have r: "rn_id ?r = rx_run_id rx" "rn_status ?r = status" "rn_failure_code ?r = failure" "rn_input_tokens ?r = bt_input_tokens (ls_tracker s)"
    "rn_output_tokens ?r = bt_output_tokens (ls_tracker s)" "rn_estimated_cost_usd ?r = estimated_cost_usd (ls_tracker s)"
    by (simp_all add: terminal_run_def)
  have upd: "(\<exists>x. fst (le_step env (Update_run ?r) ?m) = Inr x) \<and> stored (rx_run_id rx) (snd (le_step env (Update_run ?r) ?m)) = Some ?r"
    if "store_rely stored env (rx_run_id rx)" "active_run stored (rx_run_id rx) (ls_repo s)"
  proof -
    from that have "run_store (le_step env) stored" "active_run stored (rx_run_id rx) ?m" by (auto simp: store_rely_def)
    with run_store.run_updated [of "le_step env" stored ?r ?m] show ?thesis by (auto simp: active_run_def r(1))
  qed
  obtain x m' where st: "le_step env (Update_run ?r) ?m = (x, m')" by (cases "le_step env (Update_run ?r) ?m")
  show ?thesis
  proof (cases x)
    case (Inl e)
    then show ?thesis using upd st
      by (auto simp: end_run_def next_tick_def repo_call_def refused_def wp_def bnd_def seq_def gets_def mods_def ret_def)
  next
    case (Inr y)
    then show ?thesis using upd st r
      by (auto simp: end_run_def next_tick_def repo_call_def closing_def wp_def bnd_def seq_def gets_def mods_def ret_def emit_ids_def
          split: prod.splits)
  qed
qed

text \<open>What the body leaves when it returns.\<close>

definition grown :: "(string \<Rightarrow> 's \<Rightarrow> run option) \<Rightarrow> 's loop_env \<Rightarrow> run_ctx \<Rightarrow> 's lstate \<Rightarrow> 's lstate \<Rightarrow> bool" where
  "grown stored env rx s t \<longleftrightarrow> events_grow (le_publisher env) (rx_run_id rx) (ls_events s) (ls_evt_sequence s) (ls_events t) (ls_evt_sequence t) \<and>
     (\<exists>n. steps_grow (rx_run_id rx) (ls_steps s) (ls_step_seq s) (ls_steps t) n) \<and>
     (store_rely stored env (rx_run_id rx) \<longrightarrow> active_run stored (rx_run_id rx) (ls_repo s) \<longrightarrow> active_run stored (rx_run_id rx) (ls_repo t))"

lemma going_grown: "going stored env rx s t \<Longrightarrow> grown stored env rx s t"
  by (auto simp: going_def grown_def)

lemma going_grown_trans: "going stored env rx s t \<Longrightarrow> grown stored env rx t u \<Longrightarrow> grown stored env rx s u"
  unfolding going_def grown_def by (blast intro: events_grow_trans steps_grow_trans)

definition left_by :: "(string \<Rightarrow> 's \<Rightarrow> run option) \<Rightarrow> 's loop_env \<Rightarrow> run_ctx \<Rightarrow> loop_exn \<Rightarrow> 's lstate \<Rightarrow> 's lstate \<Rightarrow> bool" where
  "left_by stored env rx e s t \<longleftrightarrow> grown stored env rx s t \<and> (going stored env rx s t \<or> (\<exists>u. e = Uncaught u))"

definition RESULT_STATUS :: "string list" where
  "RESULT_STATUS = [''completed'', ''cancelled'', ''budget_exceeded'']"

definition settled :: "(string \<Rightarrow> 's \<Rightarrow> run option) \<Rightarrow> 's loop_env \<Rightarrow> run_ctx \<Rightarrow> loop_result \<Rightarrow> 's lstate \<Rightarrow> 's lstate \<Rightarrow> bool" where
  "settled stored env rx x s t \<longleftrightarrow> (\<exists>u. grown stored env rx s u \<and> closing stored env rx (lr_status x) (lr_failure_code x) u t) \<and>
     lr_status x \<in> set RESULT_STATUS \<and> lr_steps x = ls_steps t \<and> lr_input_tokens x = bt_input_tokens (ls_tracker t) \<and> lr_output_tokens x = bt_output_tokens (ls_tracker t) \<and>
     lr_estimated_cost_usd x = estimated_cost_usd (ls_tracker t)"

lemma settled_trans: "going stored env rx s t \<Longrightarrow> settled stored env rx x t u \<Longrightarrow> settled stored env rx x s u"
  unfolding settled_def by (blast intro: going_grown_trans)

lemma refused_left: "grown stored env rx s u \<Longrightarrow> refused stored env rx e u t \<Longrightarrow> left_by stored env rx e s t"
  by (auto simp: refused_def left_by_def grown_def)

lemma settles:
  assumes "closing stored env rx status failure u t" "grown stored env rx s u" "status \<in> set RESULT_STATUS"
  shows "settled stored env rx (result_of rx answer status failure b n tel t) s t"
  using assms by (auto simp: settled_def result_of_def)

lemma result_status [simp]: "lr_status (result_of rx answer status failure b n tel t) = status"
  by (simp add: result_of_def)

lemma grown_same:
  assumes "grown stored env rx s u" "core t = core u"
  shows "grown stored env rx s t"
  using assms by (simp add: grown_def core_def)

lemma clock_core: "wp (read_clock env) (\<lambda>_ t. core t = core s \<and> ls_tracker t = ls_tracker s) E s"
  by (simp add: read_clock_def next_tick_def core_def)

lemma finish_settles:
  assumes "grown stored env rx s u"
  shows "wp (finish_declined env rx why answer) (\<lambda>x. settled stored env rx x s) (\<lambda>e. left_by stored env rx e s) u"
    "wp (complete_run env rx answer) (\<lambda>x. settled stored env rx x s) (\<lambda>e. left_by stored env rx e s) u"
proof -
  have end_part: "wp (end_run env rx ''completed'' None [] tel [] no_extra None)
      (\<lambda>_ t. settled stored env rx (result_of rx answer ''completed'' None b (n t) tel t) s t) (\<lambda>e. left_by stored env rx e s) v"
    if "core v = core u" for v tel b n
    by (rule wp_mono [OF end_run_closes]) (auto intro: settles refused_left grown_same [OF assms that] simp: RESULT_STATUS_def)
  show "wp (finish_declined env rx why answer) (\<lambda>x. settled stored env rx x s) (\<lambda>e. left_by stored env rx e s) u"
    unfolding finish_declined_def Let_def wp_bnd wp_gets wp_seq
    by (rule wp_mono [OF clock_core]) (auto intro!: end_part)
  show "wp (complete_run env rx answer) (\<lambda>x. settled stored env rx x s) (\<lambda>e. left_by stored env rx e s) u"
    unfolding complete_run_def Let_def wp_bnd wp_gets wp_seq
    by (rule wp_mono [OF clock_core]) (auto intro!: end_part)
qed

lemma keeps_weaken: "keeps R E m \<Longrightarrow> (\<And>e s t. E e s t \<Longrightarrow> E' e s t) \<Longrightarrow> keeps R E' m"
  unfolding keeps_def by (auto intro: wp_mono)

lemma going_left: "going stored env rx s t \<Longrightarrow> left_by stored env rx e s t"
  by (simp add: left_by_def going_grown)

interpretation going_calls: loop_calls "going stored env rx" "left_by stored env rx" env rx "\<lambda>_ _. True" for stored env rx
proof
  show "left_by stored env rx e s u" if "going stored env rx s t" "left_by stored env rx e t u" for e s t u
    using that by (auto simp: left_by_def intro: going_grown_trans going_trans)
  show "going stored env rx s (s\<lparr>ls_repo := snd (le_step env op (le_other env n (ls_repo s)))\<rparr>)" if "quiet_op op" for s op n
    using that by (simp add: going_repo)
qed (auto intro: going_refl going_trans going_left going_core going_trace keeps_weaken [OF going_checked going_left]
    keeps_weaken [OF going_emitted going_left] keeps_weaken [OF going_stepped going_left])

lemma grown_going: "grown stored env rx s t \<Longrightarrow> going stored env rx t u \<Longrightarrow> ls_steps u = ls_steps t \<Longrightarrow> grown stored env rx s u"
  unfolding going_def grown_def by (metis events_grow_trans)

lemma store_message_quiet:
  "wp (store_message env rx role content meta) (\<lambda>_ t. going stored env rx s t \<and> ls_steps t = ls_steps s)
     (\<lambda>e t. (\<exists>u. e = Uncaught u) \<and> going stored env rx s t \<and> ls_steps t = ls_steps s) s"
proof -
  let ?x = "\<lparr>ms_id = le_id env (ls_tick s), ms_conversation_id = rx_conv_id rx, ms_sequence = ls_next_seq s, ms_role = role,
         ms_content = content, ms_created_at = le_stamp env (ls_tick s), ms_metadata = meta\<rparr>"
  let ?t = "s\<lparr>ls_repo := snd (le_step env (Add_message ?x) (le_other env (Suc (ls_tick s)) (ls_repo s))), ls_tick := Suc (Suc (ls_tick s))\<rparr>"
  have "going stored env rx s ?t"
    by (rule going_trans [OF going_repo [of "Add_message ?x" stored env rx s "Suc (ls_tick s)"] going_core]) (simp_all add: core_def)
  then show ?thesis
    by (auto simp: store_message_def next_tick_def repo_call_def Let_def wp_def bnd_def seq_def gets_def mods_def ret_def split: prod.splits sum.splits)
qed

lemma one_step_grown: "going stored env rx s t \<Longrightarrow> one_step stored env rx t u \<Longrightarrow> grown stored env rx s u"
proof -
  assume s: "going stored env rx s t" and o: "one_step stored env rx t u"
  then have "going stored env rx s (u\<lparr>ls_step_seq := ls_step_seq u + 1\<rparr>)" by (blast intro: going_trans one_step_counted)
  then show ?thesis by (auto simp: going_def grown_def)
qed

lemma answer_settles:
  "wp (seq (settle_answer env rx llm cid latency a qid answer) (complete_run env rx answer))
     (\<lambda>x. settled stored env rx x s) (\<lambda>e. left_by stored env rx e s) s"
proof -
  have message: "wp (store_message env rx ''assistant'' answer []) (\<lambda>_. wp (complete_run env rx answer) (\<lambda>x. settled stored env rx x s) (\<lambda>e. left_by stored env rx e s))
      (\<lambda>e. left_by stored env rx e s) u" if "grown stored env rx s u" for u
    by (rule wp_mono [OF store_message_quiet [of env rx "''assistant''" answer "[]" stored]])
      (auto intro: finish_settles grown_going [OF that] simp: left_by_def)
  have step: "wp (append_step env rx ''llm_final_answer'' ''completed'' fill) (\<lambda>_. wp (store_message env rx ''assistant'' answer [])
        (\<lambda>_. wp (complete_run env rx answer) (\<lambda>x. settled stored env rx x s) (\<lambda>e. left_by stored env rx e s)) (\<lambda>e. left_by stored env rx e s))
      (\<lambda>e. left_by stored env rx e s) t" if "going stored env rx s t" "keeps_sequence fill" for t fill
    by (rule wp_mono [OF append_step_once [OF that(2), where stored = stored]])
      (auto intro: message one_step_grown [OF that(1)] going_left going_trans [OF that(1)])
  show ?thesis
    unfolding settle_answer_def Let_def wp_seq wp_bnd wp_gets
    by (rule wp_mono [OF keeps_wp [OF going_calls.keeps_settle_planner]]) (auto intro!: step simp: keeps_sequence_def)
qed

interpretation going_ends: loop_ends "going stored env rx" "left_by stored env rx" env rx "\<lambda>_ _. True" "settled stored env rx" for stored env rx
  by unfold_locales (auto intro: settled_trans finish_settles going_grown [OF going_refl] answer_settles [unfolded wp_seq])

definition closed_by :: "bool \<Rightarrow> string \<Rightarrow> string \<Rightarrow> run_event list \<Rightarrow> bool" where
  "closed_by pub rid etype es \<longleftrightarrow> numbered 1 (map ev_sequence es) \<and> (\<forall>e\<in>set es. ev_run_id e = rid) \<and>
     (if pub then es \<noteq> [] \<and> ev_type (last es) = etype \<and> (\<forall>e\<in>set (butlast es). ev_type e \<notin> set RUN_TERMINAL_EVENTS) else es = [])"

definition stored_end :: "(string \<Rightarrow> 's \<Rightarrow> run option) \<Rightarrow> string \<Rightarrow> string \<Rightarrow> string option \<Rightarrow> budget_tracker \<Rightarrow> 's \<Rightarrow> bool" where
  "stored_end stored rid status failure t m \<longleftrightarrow> (\<exists>r. stored rid m = Some r \<and> rn_status r = status \<and> rn_failure_code r = failure \<and>
     rn_input_tokens r = bt_input_tokens t \<and> rn_output_tokens r = bt_output_tokens t \<and> rn_estimated_cost_usd r = estimated_cost_usd t)"

definition ended :: "(string \<Rightarrow> 's \<Rightarrow> run option) \<Rightarrow> 's loop_env \<Rightarrow> string \<Rightarrow> string \<Rightarrow> string option \<Rightarrow> run_event list \<Rightarrow> 's lstate \<Rightarrow> bool" where
  "ended stored env rid status failure published s \<longleftrightarrow>
     (\<exists>es. ls_events s = published @ es \<and> closed_by (le_publisher env) rid (''run.'' @ status) es) \<and>
     numbered 1 (map st_sequence (ls_steps s)) \<and> stored_end stored rid status failure (ls_tracker s) (ls_repo s)"

lemma closing_ended:
  assumes "grown stored env rx s u" "closing stored env rx status failure u t" "store_rely stored env (rx_run_id rx)"
    "active_run stored (rx_run_id rx) (ls_repo s)" "ls_evt_sequence s = 1" "ls_step_seq s = 1" "ls_steps s = []"
  shows "ended stored env (rx_run_id rx) status failure (ls_events s) t"
proof -
  from assms(1,5) obtain es where es: "ls_events u = ls_events s @ es" "ls_evt_sequence u = 1 + int (length es)" "numbered 1 (map ev_sequence es)"
    "\<forall>e\<in>set es. ev_type e \<notin> set RUN_TERMINAL_EVENTS \<and> ev_run_id e = rx_run_id rx" "\<not> le_publisher env \<longrightarrow> es = []"
    by (auto simp: grown_def events_grow_def)
  from assms(2) obtain new where new: "ls_events t = ls_events u @ new" "numbered (ls_evt_sequence u) (map ev_sequence new)"
    "map ev_type new = (if le_publisher env then [''run.'' @ status] else [])" "\<forall>e\<in>set new. ev_run_id e = rx_run_id rx"
    by (auto simp: closing_def)
  have "closed_by (le_publisher env) (rx_run_id rx) (''run.'' @ status) (es @ new)"
    using es new by (cases "le_publisher env") (auto simp: closed_by_def butlast_append)
  moreover have "numbered 1 (map st_sequence (ls_steps t))"
    using assms(1,2,6,7) by (auto simp: grown_def steps_grow_def closing_def)
  moreover have "stored_end stored (rx_run_id rx) status failure (ls_tracker t) (ls_repo t)"
    using assms(1-4) by (auto simp: grown_def closing_def stored_end_def)
  ultimately show ?thesis using es(1) new(1) by (auto simp: ended_def)
qed

definition failing :: "(string \<Rightarrow> 's \<Rightarrow> run option) \<Rightarrow> 's loop_env \<Rightarrow> run_ctx \<Rightarrow> loop_exn \<Rightarrow> 's lstate \<Rightarrow> 's lstate \<Rightarrow> bool" where
  "failing stored env rx e s t \<longleftrightarrow> (case e of
     Orchestration err \<Rightarrow> \<exists>u. grown stored env rx s u \<and> closing stored env rx ''failed'' (Some (oe_code err)) u t
   | Uncaught u \<Rightarrow> grown stored env rx s t
   | _ \<Rightarrow> False)"

lemma refused_failing: "grown stored env rx s u \<Longrightarrow> refused stored env rx e u t \<Longrightarrow> failing stored env rx e s t"
  by (auto simp: refused_def failing_def grown_def)

lemma end_run_uncaught:
  assumes "grown stored env rx s u"
  shows "wp (end_run env rx status failure before tel after extra cid) (\<lambda>_ t. \<exists>u. grown stored env rx s u \<and> closing stored env rx status failure u t)
    (\<lambda>e. failing stored env rx e s) u"
  by (rule wp_mono [OF end_run_closes]) (use assms in \<open>auto intro: refused_failing\<close>)

lemma on_failed_ends:
  assumes "going stored env rx s u"
  shows "wp (on_failed env rx e) (\<lambda>_ _. False) (\<lambda>e. failing stored env rx e s) u"
  unfolding on_failed_def Let_def wp_bnd wp_gets wp_seq wp_throw
  by (rule wp_mono [OF clock_core], rule wp_mono [OF end_run_uncaught [OF grown_same [OF going_grown [OF assms]]]])
    (auto simp: failing_def)

text \<open>The handlers: from a state the body left by an exception they know.\<close>

lemma handler_settles:
  assumes "going stored env rx s u"
  shows "wp (on_cancelled env rx partial reason) (\<lambda>x t. settled stored env rx x s t \<and> lr_status x = ''cancelled'') (\<lambda>e. failing stored env rx e s) u"
    "wp (on_budget env rx reason details) (\<lambda>x t. settled stored env rx x s t \<and> lr_status x = ''budget_exceeded'') (\<lambda>e. failing stored env rx e s) u"
proof -
  have end_part: "wp (end_run env rx status failure before tel after extra cid)
      (\<lambda>_ t. settled stored env rx (result_of rx answer status failure b n tel t) s t)
      (\<lambda>e. failing stored env rx e s) v"
    if "grown stored env rx s v" "status \<in> set RESULT_STATUS" for v status failure before tel after extra cid answer b n
    by (rule wp_mono [OF end_run_closes]) (auto intro: settles refused_failing that)
  have g: "grown stored env rx s v" if "core v = core u" for v
    using grown_same [OF going_grown [OF assms] that] .
  have partial_part: "wp (if partial = [] then ret () else store_message env rx role content meta)
      (\<lambda>_ t. grown stored env rx s t) (\<lambda>e. failing stored env rx e s) v" if "core v = core u" for v role content meta
  proof (cases "partial = []")
    case False
    have "wp (store_message env rx role content meta) (\<lambda>_ t. grown stored env rx s t) (\<lambda>e. failing stored env rx e s) v"
      by (rule wp_mono [OF store_message_quiet [where stored = stored]]) (use g [OF that] in \<open>auto intro: grown_going simp: failing_def\<close>)
    with False show ?thesis by simp
  qed (simp add: g [OF that])
  show "wp (on_cancelled env rx partial reason) (\<lambda>x t. settled stored env rx x s t \<and> lr_status x = ''cancelled'') (\<lambda>e. failing stored env rx e s) u"
    unfolding on_cancelled_def Let_def wp_bnd wp_gets wp_seq
    by (rule wp_mono [OF clock_core], rule wp_mono [OF partial_part]) (auto intro!: end_part simp: RESULT_STATUS_def)
  show "wp (on_budget env rx reason details) (\<lambda>x t. settled stored env rx x s t \<and> lr_status x = ''budget_exceeded'') (\<lambda>e. failing stored env rx e s) u"
    unfolding on_budget_def Let_def wp_bnd wp_gets wp_seq
    by (rule wp_mono [OF clock_core]) (auto intro!: end_part g simp: RESULT_STATUS_def)
qed

lemma handlers_end:
  assumes "left_by stored env rx e s u"
  shows "wp (handlers env rx e) (\<lambda>x. settled stored env rx x s) (\<lambda>e. failing stored env rx e s) u"
proof (cases e)
  case (Uncaught x)
  then show ?thesis using assms by (simp add: handlers_def failing_def left_by_def)
next
  case (Run_cancelled partial reason)
  then have "going stored env rx s u" using assms by (simp add: left_by_def)
  with Run_cancelled show ?thesis by (auto simp: handlers_def intro: wp_mono [OF handler_settles(1)])
next
  case (Budget_exceeded reason details)
  then have "going stored env rx s u" using assms by (simp add: left_by_def)
  with Budget_exceeded show ?thesis by (auto simp: handlers_def intro: wp_mono [OF handler_settles(2)])
next
  case (Orchestration err)
  then have "going stored env rx s u" using assms by (simp add: left_by_def)
  with Orchestration show ?thesis by (auto simp: handlers_def intro: wp_mono [OF on_failed_ends])
qed

lemma guarded_settles:
  "wp (handle (guarded_body env rx) (handlers env rx)) (\<lambda>x. settled stored env rx x s) (\<lambda>e. failing stored env rx e s) s"
  unfolding wp_handle using going_ends.ends_guarded [of stored env rx]
  by (auto simp: going_ends.ends_def intro: wp_mono handlers_end)

text \<open>The state after the run has been read: nothing has been published or recorded.\<close>

definition at_start :: "(string \<Rightarrow> 's \<Rightarrow> run option) \<Rightarrow> string \<Rightarrow> run_event list \<Rightarrow> 's lstate \<Rightarrow> bool" where
  "at_start stored rid published s \<longleftrightarrow> ls_events s = published \<and> ls_evt_sequence s = 1 \<and> ls_step_seq s = 1 \<and> ls_steps s = [] \<and> ls_trace s = [] \<and>
     active_run stored rid (ls_repo s)"

definition run_outcome :: "(string \<Rightarrow> 's \<Rightarrow> run option) \<Rightarrow> 's loop_env \<Rightarrow> string \<Rightarrow> run_event list \<Rightarrow> loop_exn + loop_result \<Rightarrow> 's lstate \<Rightarrow> bool" where
  "run_outcome stored env rid published r s \<longleftrightarrow> (case r of
     Inr x \<Rightarrow> lr_status x \<in> set RESULT_STATUS \<and> ended stored env rid (lr_status x) (lr_failure_code x) published s \<and> lr_steps x = ls_steps s \<and>
       lr_input_tokens x = bt_input_tokens (ls_tracker s) \<and> lr_output_tokens x = bt_output_tokens (ls_tracker s) \<and>
       lr_estimated_cost_usd x = estimated_cost_usd (ls_tracker s)
   | Inl (Orchestration e) \<Rightarrow> ended stored env rid ''failed'' (Some (oe_code e)) published s
   | Inl e \<Rightarrow> (\<exists>u. e = Uncaught u) \<and> active_run stored rid (ls_repo s) \<and>
       (\<exists>es. ls_events s = published @ es \<and> (\<forall>e\<in>set es. ev_type e \<notin> set RUN_TERMINAL_EVENTS)))"

lemma settled_outcome:
  assumes "at_start stored (rx_run_id rx) published s" "store_rely stored env (rx_run_id rx)"
  shows "settled stored env rx x s t \<Longrightarrow> run_outcome stored env (rx_run_id rx) published (Inr x) t"
    "failing stored env rx e s t \<Longrightarrow> run_outcome stored env (rx_run_id rx) published (Inl e) t"
proof -
  note e = closing_ended [of stored env rx s _ _ _ t] and a = assms [unfolded at_start_def]
  show "settled stored env rx x s t \<Longrightarrow> run_outcome stored env (rx_run_id rx) published (Inr x) t"
    using e [of _ "lr_status x" "lr_failure_code x"] a by (auto simp: settled_def run_outcome_def)
  show "failing stored env rx e s t \<Longrightarrow> run_outcome stored env (rx_run_id rx) published (Inl e) t"
    using e [of _ "''failed''"] a by (auto simp: failing_def run_outcome_def grown_def events_grow_def split: loop_exn.splits)
qed

lemma execute_outcome:
  assumes rely: "store_rely stored env (su_run_id su)" and act: "active_run stored (su_run_id su) repo"
    and run: "execute env su published n repo = (r, s)"
  shows "run_outcome stored env (su_run_id su) published r s"
proof -
  let ?s0 = "fresh_state env (le_budgets env) (su_next_seq su) (le_clock env n) published n repo"
  let ?m = "le_other env (Suc (Suc n)) repo" and ?op = "Get_run (su_run_id su)"
  let ?s1 = "?s0\<lparr>ls_repo := snd (le_step env ?op ?m), ls_tick := Suc (Suc (Suc n))\<rparr>"
  let ?start = "le_clock env (Suc n)"
  have store: "run_store (le_step env) stored" using rely by (simp add: store_rely_def)
  have "active_run stored (su_run_id su) ?m" using rely act by (simp add: store_rely_def)
  then obtain r0 where r0: "stored (su_run_id su) ?m = Some r0" by (auto simp: active_run_def)
  let ?rx = "run_context env su r0 ?start (le_budgets env)"
  have rid: "rx_run_id ?rx = su_run_id su" by (simp add: run_context_def)
  have "fst (le_step env ?op ?m) = Inr (R_run (Some r0))" using run_store.get_run [OF store] r0 by simp
  then obtain m' where st: "le_step env ?op ?m = (Inr (R_run (Some r0)), m')" by (metis prod.collapse)
  have "execute env su published n repo = handle (guarded_body env ?rx) (handlers env ?rx) ?s1"
    by (simp add: execute_def execute_loop_def read_clock_def next_tick_def repo_call_def bnd_def seq_def gets_def mods_def ret_def Let_def
        fresh_state_def st)
  with run have run': "handle (guarded_body env ?rx) (handlers env ?rx) ?s1 = (r, s)" by simp
  have start: "at_start stored (rx_run_id ?rx) published ?s1"
    using active_kept [OF rely act, of ?op] by (simp add: at_start_def fresh_state_def rid)
  from wp_result [OF guarded_settles [of env ?rx stored ?s1] run'] settled_outcome [OF start] rely show ?thesis
    by (cases r) (simp_all add: rid)
qed

section \<open>A concrete run\<close>

text \<open>A question of the catalogue, whose tool call fails on the server, with and without a request for cancellation.\<close>

definition demo_llm :: llm_client where
  "demo_llm = \<lparr>ll_kind = Plain_client, ll_model_id = ''m'', ll_pricing = None, ll_propose = (\<lambda>_ _ _ _. Inl (LLM_other [])), ll_streams = False,
     ll_answer = (\<lambda>_ _ _ _. ([], Inl (LLM_other [])))\<rparr>"

definition demo_schema :: jdict where
  "demo_schema = [(''columns'', JArr [JStr ''fare'']), (''dataset'', JStr ''taxi''), (''month'', JStr ''2024-01'')]"

definition demo_mcp :: mcp_client where
  "demo_mcp = \<lparr>mc_schema = (\<lambda>_. Inr demo_schema), mc_call = (\<lambda>_ _ _. Inl (ToolError ''down''))\<rparr>"

definition demo_loop :: "mem_repo loop_env" where
  "demo_loop = \<lparr>le_step = mem_op, le_other = (\<lambda>_ m. m), le_publisher = False, le_redis = (\<lambda>_. False), le_polls = (\<lambda>_. 0), le_clock = (\<lambda>_. 0),
     le_id = show_nat, le_stamp = (\<lambda>_. ''t''), le_llm = Inr demo_llm, le_mcp = Inr demo_mcp, le_budgets = default_budgets, le_window = 2,
     le_iso = (\<lambda>_. None), le_str = (\<lambda>_. []), le_repr = (\<lambda>_. []), le_sha = (\<lambda>_. []), le_capture_content = False, le_feedback = (\<lambda>_. []),
     le_budget_reason = (\<lambda>_ _. []), le_scan = (\<lambda>_. []), le_ground = (\<lambda>_ _ _. \<lparr>gr_caveat = None, gr_ok = True, gr_metadata = []\<rparr>),
     le_audio = (\<lambda>_. None)\<rparr>"

definition demo_submission :: run_submission where
  "demo_submission = \<lparr>su_prompt = ''Compare pickup and dropoff borough distributions'', su_conversation_id = ''c'', su_message_id = ''u'', su_run_id = ''r'',
     su_next_seq = 2, su_eval_run_id = None\<rparr>"

definition demo_loop_run :: "string \<Rightarrow> run" where
  "demo_loop_run status = \<lparr>rn_id = ''r'', rn_conversation_id = ''c'', rn_message_id = Some ''u'', rn_status = status, rn_model = None,
     rn_prompt_version = None, rn_started_at = ''t'', rn_completed_at = None, rn_input_tokens = 0, rn_output_tokens = 0,
     rn_estimated_cost_usd = 0, rn_failure_code = None, rn_metadata = []\<rparr>"

definition demo_store :: "string \<Rightarrow> mem_repo" where
  "demo_store status = mem_empty\<lparr>m_runs := [(''r'', demo_loop_run status)]\<rparr>"

text \<open>
  C38. A request for cancellation reads the run and writes it back in two operations: when another client ends the run between
  them, the request succeeds and the stored run is \<open>cancel_requested\<close> again, with what it held when it was read.
\<close>

theorem cancellation_reopens_run:
  assumes "le_step env = mem_op" "m0 = le_other env (ls_tick s) (ls_repo s)" "m1 = le_other env (Suc (ls_tick s)) m0"
    "mem_get_run rid m0 = Some run" "rn_id run = rid" "rn_status run \<notin> set RUN_TERMINAL_STATUS"
    "mem_get_run rid m1 = Some final" "rn_status final \<in> set RUN_TERMINAL_STATUS" "request_cancellation env rid s = (r, s')"
  shows "r = Inr (run\<lparr>rn_status := ''cancel_requested''\<rparr>) \<and> mem_get_run rid (ls_repo s') = Some (run\<lparr>rn_status := ''cancel_requested''\<rparr>)"
  using assms
  by (auto simp: request_cancellation_def repo_call_def bnd_def seq_def ret_def mods_def gets_def next_tick_def publish_event_def map_reply_def mem_defs Let_def
      split: if_splits)

definition ending_loop :: "mem_repo loop_env" where
  "ending_loop = demo_loop\<lparr>le_other := (\<lambda>i m. if i = 1 then m else demo_store ''completed'')\<rparr>"

theorem cancellation_reopens_run_witness:
  "mem_get_run ''r'' (ls_repo (snd (request_cancellation ending_loop ''r'' (fresh_state ending_loop default_budgets 1 0 [] 0 (demo_store ''in_progress'')))))
    = Some (demo_loop_run ''cancel_requested'')"
  using cancellation_reopens_run [of ending_loop _ "fresh_state ending_loop default_budgets 1 0 [] 0 (demo_store ''in_progress'')" _ "''r''"
    "demo_loop_run ''in_progress''" "demo_loop_run ''completed''", OF _ refl refl _ _ _ _ _ surjective_pairing]
  by (simp add: ending_loop_def fresh_state_def demo_loop_def demo_store_def demo_loop_run_def mem_get_run_def RUN_TERMINAL_STATUS_def)



end
