(* ===== verification/App_Trace.thy ===== *)
theory App_Trace
  imports App_Run
begin

text \<open>
  What a run asks of the outside world, from the trace of its polls, model calls and tool calls: a tool is called
  only with arguments that passed the pre-flight check against the dataset's schema, nothing is called once a poll
  has seen a cancellation, and the calls come in one of few orders.
\<close>

section \<open>Checked tool calls and cancellation\<close>

definition tool_checked :: "'s loop_env \<Rightarrow> string \<Rightarrow> jdict \<Rightarrow> bool" where
  "tool_checked env tool args \<longleftrightarrow> (\<exists>mcp i raw schema v. le_mcp env = Inr mcp \<and> mc_schema mcp i = Inr raw \<and> sanitize_dataset_schema raw = Inr schema \<and>
     validate_proposal (le_iso env) tool (JObj args) (Some schema) 0 1 = Inr v \<and> pv_ok v)"

lemma checked_from_zero:
  assumes "validate_proposal pis name args schema k 1 = Inr v" "pv_ok v"
  shows "\<exists>v. validate_proposal pis name args schema 0 1 = Inr v \<and> pv_ok v"
  using assms by (auto simp: validate_proposal_def pv_ok_def Let_def split: if_splits)

definition heard :: "'s loop_env \<Rightarrow> 's lstate \<Rightarrow> 's lstate \<Rightarrow> bool" where
  "heard env s t \<longleftrightarrow> (\<exists>new. ls_trace t = ls_trace s @ new \<and> A_poll True \<notin> set new \<and> (\<forall>tool args. A_tool tool args \<in> set new \<longrightarrow> tool_checked env tool args))"

definition stopped :: "'s loop_env \<Rightarrow> loop_exn \<Rightarrow> 's lstate \<Rightarrow> 's lstate \<Rightarrow> bool" where
  "stopped env e s t \<longleftrightarrow> heard env s t \<or> (\<exists>p r. e = Run_cancelled p r) \<and> (\<exists>u. heard env s u \<and> ls_trace t = ls_trace u @ [A_poll True])"

lemma heard_refl: "heard env s s" by (simp add: heard_def)

lemma heard_trans: "heard env s t \<Longrightarrow> heard env t u \<Longrightarrow> heard env s u"
  unfolding heard_def by (elim exE conjE) (rule exI [where x = "_ @ _"], auto)

lemma heard_same: "ls_trace t = ls_trace s \<Longrightarrow> heard env s t" by (simp add: heard_def)

lemma heard_act: "a \<noteq> A_poll True \<Longrightarrow> (\<And>tool args. a = A_tool tool args \<Longrightarrow> tool_checked env tool args) \<Longrightarrow> heard env s (s\<lparr>ls_trace := ls_trace s @ [a]\<rparr>)"
  by (auto simp: heard_def)

interpretation heard_order: exn_order "heard env" "stopped env" for env
  by unfold_locales (auto simp: stopped_def intro: heard_refl heard_trans)

lemma keeps_trace:
  assumes "\<And>s. ls_trace (snd (m s)) = ls_trace s"
  shows "keeps (heard env) (stopped env) m"
proof (unfold keeps_def, rule allI)
  fix s
  obtain r t where m: "m s = (r, t)" by (cases "m s")
  then have "heard env s t" using assms [of s] by (simp add: heard_same)
  then show "wp m (\<lambda>_. heard env s) (\<lambda>e. stopped env e s) s" by (simp add: wp_def m stopped_def split: sum.splits)
qed

lemma repo_call_trace: "ls_trace (snd (repo_call env op s)) = ls_trace s"
  by (simp add: repo_call_def Let_def split: prod.splits)

lemma is_cancelled_hears:
  "wp (is_cancelled env rid) (\<lambda>b t. ls_trace t = ls_trace s @ [A_poll b]) (\<lambda>_ t. ls_trace t = ls_trace s) s"
  using repo_call_trace [of env "Get_run rid" "s\<lparr>ls_tick := Suc (ls_tick s)\<rparr>"]
  by (auto simp: is_cancelled_def next_tick_def log_act_def wp_def bnd_def seq_def gets_def mods_def ret_def split: prod.splits sum.splits)

lemma heard_after: "ls_trace t = ls_trace s @ [A_poll False] \<Longrightarrow> heard env s t"
  by (simp add: heard_def)

lemma heard_checked: "keeps (heard env) (stopped env) (check_cancellation env rx p)"
  unfolding keeps_def check_cancellation_def wp_bnd
  by (rule allI, rule wp_mono [OF is_cancelled_hears]) (auto simp: cancelled_with_def stopped_def intro: heard_refl heard_same heard_after)

text \<open>Programs that ask nothing leave the trace alone.\<close>

definition still :: "'s lstate \<Rightarrow> 's lstate \<Rightarrow> bool" where
  "still s t \<longleftrightarrow> ls_trace t = ls_trace s"

interpretation still_order: exn_order still "\<lambda>_. still"
  by unfold_locales (auto simp: still_def)

abbreviation silent :: "('s, 'a) loop \<Rightarrow> bool" where
  "silent \<equiv> keeps still (\<lambda>_. still)"

lemma silent_mods: "(\<And>s. ls_trace (g s) = ls_trace s) \<Longrightarrow> silent (mods g)"
  by (rule still_order.keeps_mods) (simp add: still_def)

lemma silent_tick: "silent next_tick"
  unfolding next_tick_def by (intro still_order.keeps_intros silent_mods) simp

lemma silent_clock: "silent (read_clock env)"
  unfolding read_clock_def by (intro still_order.keeps_intros silent_tick)

lemma silent_repo: "silent (repo_call env op)"
  unfolding keeps_def using repo_call_trace [of env op] by (auto simp: wp_def still_def split: prod.splits sum.splits) (metis snd_conv)+

lemma silent_emit: "silent (emit_ids env rx etype payload llm tool query)"
  unfolding emit_ids_def by (intro still_order.keeps_intros silent_tick silent_mods) simp

lemma silent_append_step: "silent (append_step env rx type status fill)"
  unfolding append_step_def by (intro still_order.keeps_intros silent_tick silent_repo silent_mods) simp

lemma silent_add_step: "silent (add_step env rx type status fill)"
  unfolding add_step_def by (intro still_order.keeps_intros silent_append_step silent_mods) simp

lemma silent_store_message: "silent (store_message env rx role content meta)"
  unfolding store_message_def by (intro still_order.keeps_intros silent_tick silent_repo)

lemma silent_with_tracker: "silent (with_tracker env op)"
  unfolding with_tracker_def by (intro still_order.keeps_intros silent_clock silent_mods) simp

lemma silent_end_run: "silent (end_run env rx status failure before tel after extra cid)"
  unfolding end_run_def by (intro still_order.keeps_intros silent_tick silent_repo silent_emit)

lemmas silent_intros = still_order.keeps_intros silent_tick silent_clock silent_repo silent_emit silent_append_step silent_add_step
  silent_store_message silent_with_tracker silent_end_run silent_mods

lemma silent_finish_declined: "silent (finish_declined env rx what answer)"
  unfolding finish_declined_def by (intro silent_intros)

lemma silent_complete_run: "silent (complete_run env rx answer)"
  unfolding complete_run_def by (intro silent_intros)

lemma silent_settle_planner: "silent (settle_planner env rx llm cid phase latency f extra)"
  unfolding settle_planner_def price_call_def record_call_def append_call_def by (intro silent_intros) simp

lemma silent_settle_answer: "silent (settle_answer env rx llm cid latency a qid answer)"
  unfolding settle_answer_def by (intro silent_intros silent_settle_planner)

lemma silent_cancelled: "silent (on_cancelled env rx partial reason)"
  unfolding on_cancelled_def by (intro silent_intros)

lemma silent_budget: "silent (on_budget env rx reason details)"
  unfolding on_budget_def by (intro silent_intros)

lemma silent_failed: "silent (on_failed env rx e)"
  unfolding on_failed_def by (intro silent_intros)

lemma silent_handlers: "silent (handlers env rx e)"
  by (cases e) (simp_all add: handlers_def silent_cancelled silent_budget silent_failed still_order.keeps_throw)

lemma silent_heard: "silent m \<Longrightarrow> keeps (heard env) (stopped env) m"
  unfolding keeps_def by (auto intro: wp_mono simp: still_def stopped_def heard_same)

interpretation heard_ends: loop_ends "heard env" "stopped env" env rx "tool_checked env" "\<lambda>_. heard env" for env rx
proof
  show "tool_checked env tool args"
    if "le_mcp env = Inr mcp" "mc_schema mcp i = Inr raw" "sanitize_dataset_schema raw = Inr schema"
      "validate_proposal (le_iso env) tool (JObj args) (Some schema) k 1 = Inr v" "pv_ok v" for mcp i raw schema tool args k v
    using that checked_from_zero [of "le_iso env" tool "JObj args"] by (fastforce simp: tool_checked_def)
  show "wp (finish_declined env rx what answer) (\<lambda>_. heard env s) (\<lambda>e. stopped env e s) s" for what answer s
    by (rule keeps_wp [OF silent_heard [OF silent_finish_declined]])
  show "wp (seq (settle_answer env rx llm cid latency a qid answer) (complete_run env rx answer)) (\<lambda>_. heard env s) (\<lambda>e. stopped env e s) s"
    for llm cid latency a qid answer s
    by (rule keeps_wp [OF silent_heard [OF still_order.keeps_seq [OF silent_settle_answer silent_complete_run]]])
qed (auto simp: core_def intro: heard_same heard_trans heard_checked heard_act silent_heard silent_emit silent_add_step)

definition stop_seen :: "'s loop_env \<Rightarrow> 's lstate \<Rightarrow> 's lstate \<Rightarrow> bool" where
  "stop_seen env s t \<longleftrightarrow> (\<exists>u. heard env s u \<and> ls_trace t = ls_trace u @ [A_poll True])"

lemma cancelled_only:
  "wp (on_cancelled env rx partial reason) (\<lambda>x _. lr_status x = ''cancelled'') (\<lambda>e _. \<exists>u. e = Uncaught u) s"
proof -
  have end_part: "wp (end_run env rx status failure before tel after extra cid) (\<lambda>_ _. True) (\<lambda>e _. \<exists>u. e = Uncaught u) v"
    for status failure before tel after extra cid v
    by (rule wp_mono [OF end_run_closes [where stored = "\<lambda>_ _. None"]]) (auto simp: refused_def)
  have message: "wp (if partial = [] then ret () else store_message env rx role content meta) (\<lambda>_ _. True) (\<lambda>e _. \<exists>u. e = Uncaught u) v" for role content meta v
    using wp_mono [OF store_message_quiet [of env rx role content meta "\<lambda>_ _. None" v], where Q' = "\<lambda>_ _. True" and E' = "\<lambda>e _. \<exists>u. e = Uncaught u"] by simp
  show ?thesis unfolding on_cancelled_def Let_def wp_bnd wp_gets wp_seq
    by (rule wp_mono [OF clock_core], rule wp_mono [OF message], rule wp_mono [OF end_part]) auto
qed

lemma guarded_hears:
  "wp (handle (guarded_body env rx) (handlers env rx)) (\<lambda>x t. heard env s t \<or> lr_status x = ''cancelled'' \<and> stop_seen env s t)
     (\<lambda>e t. heard env s t \<or> (\<exists>u. e = Uncaught u) \<and> stop_seen env s t) s"
proof -
  have "wp (guarded_body env rx) (\<lambda>_. heard env s) (\<lambda>e. stopped env e s) s"
    using heard_ends.ends_guarded [of env rx] by (simp add: heard_ends.ends_def)
  then show ?thesis unfolding wp_handle
  proof (rule wp_mono)
    fix e u assume st: "stopped env e s u"
    show "wp (handlers env rx e) (\<lambda>x t. heard env s t \<or> lr_status x = ''cancelled'' \<and> stop_seen env s t)
      (\<lambda>e t. heard env s t \<or> (\<exists>u. e = Uncaught u) \<and> stop_seen env s t) u"
    proof (cases "heard env s u")
      case True
      from keeps_wp [OF silent_handlers] show ?thesis
        by (rule wp_mono) (use True in \<open>auto simp: still_def heard_def\<close>)
    next
      case False
      with st obtain p r where e: "e = Run_cancelled p r" and seen: "stop_seen env s u" by (auto simp: stopped_def stop_seen_def)
      from wp_conj [OF cancelled_only [of env rx p r] keeps_wp [OF silent_cancelled]]
      show ?thesis unfolding e handlers_def loop_exn.case
        by (rule wp_mono) (use seen in \<open>auto simp: still_def stop_seen_def\<close>)
    qed
  qed simp
qed

lemma execute_hears:
  assumes "execute env su published n repo = (r, s)"
  obtains s0 where "ls_trace s0 = []" "heard env s0 s \<or> stop_seen env s0 s \<and> (case r of Inr x \<Rightarrow> lr_status x = ''cancelled'' | Inl e \<Rightarrow> \<exists>u. e = Uncaught u)"
proof -
  let ?s0 = "fresh_state env (le_budgets env) (su_next_seq su) (le_clock env n) published n repo"
  have "wp (execute_loop env su) (\<lambda>x t. \<exists>s0. ls_trace s0 = [] \<and> (heard env s0 t \<or> lr_status x = ''cancelled'' \<and> stop_seen env s0 t))
     (\<lambda>e t. \<exists>s0. ls_trace s0 = [] \<and> (heard env s0 t \<or> (\<exists>u. e = Uncaught u) \<and> stop_seen env s0 t)) ?s0"
    unfolding execute_loop_def wp_bnd
  proof (rule wp_mono [OF keeps_wp [OF silent_clock]])
    fix start t1 assume "still ?s0 t1"
    then have t1: "ls_trace t1 = []" by (simp add: still_def fresh_state_def)
    show "wp (repo_call env (Get_run (su_run_id su))) (\<lambda>r. wp (case r of
         R_run (Some run) \<Rightarrow> (let rx = run_context env su run start (le_budgets env) in handle (guarded_body env rx) (handlers env rx))
       | _ \<Rightarrow> throw (Uncaught U_assert)) (\<lambda>x t. \<exists>s0. ls_trace s0 = [] \<and> (heard env s0 t \<or> lr_status x = ''cancelled'' \<and> stop_seen env s0 t))
         (\<lambda>e t. \<exists>s0. ls_trace s0 = [] \<and> (heard env s0 t \<or> (\<exists>u. e = Uncaught u) \<and> stop_seen env s0 t)))
       (\<lambda>e t. \<exists>s0. ls_trace s0 = [] \<and> (heard env s0 t \<or> (\<exists>u. e = Uncaught u) \<and> stop_seen env s0 t)) t1"
    proof (rule wp_mono [OF keeps_wp [OF silent_repo]])
      fix rep t2 assume "still t1 t2"
      then have t2: "ls_trace t2 = []" using t1 by (simp add: still_def)
      show "wp (case rep of
           R_run (Some run) \<Rightarrow> (let rx = run_context env su run start (le_budgets env) in handle (guarded_body env rx) (handlers env rx))
         | _ \<Rightarrow> throw (Uncaught U_assert)) (\<lambda>x t. \<exists>s0. ls_trace s0 = [] \<and> (heard env s0 t \<or> lr_status x = ''cancelled'' \<and> stop_seen env s0 t))
         (\<lambda>e t. \<exists>s0. ls_trace s0 = [] \<and> (heard env s0 t \<or> (\<exists>u. e = Uncaught u) \<and> stop_seen env s0 t)) t2"
        using t2 heard_refl by (auto simp del: wp_handle simp: Let_def split: reply.split option.split intro!: wp_mono [OF guarded_hears])
    qed (use t1 in \<open>auto simp: still_def intro: heard_refl\<close>)
  qed (auto simp: still_def fresh_state_def intro: heard_refl)
  from wp_result [OF this assms [unfolded execute_def]] that show ?thesis by (cases r) auto
qed

text \<open>
  C5. No tool is called unchecked: every tool call of an execution has a tool and arguments that the pre-flight check accepts,
  against a schema the server sent and the application sanitized, as the first governed call of the run.
\<close>

theorem tool_calls_checked:
  assumes "execute env su published n repo = (r, s)" "A_tool tool args \<in> set (ls_trace s)"
  shows "\<exists>mcp i raw schema v. le_mcp env = Inr mcp \<and> mc_schema mcp i = Inr raw \<and> sanitize_dataset_schema raw = Inr schema \<and>
    validate_proposal (le_iso env) tool (JObj args) (Some schema) 0 1 = Inr v \<and> pv_ok v"
proof -
  from execute_hears [OF assms(1)] obtain s0 where "ls_trace s0 = []" "heard env s0 s \<or> stop_seen env s0 s" by metis
  with assms(2) have "tool_checked env tool args" by (auto simp: heard_def stop_seen_def)
  then show ?thesis by (simp add: tool_checked_def)
qed

text \<open>
  C6. Cancellation stops a run: once a poll has seen the request, no model, tool or schema call and no further poll
  follows, and the execution returns a cancelled result (or ends in an exception of the repository while recording it).
\<close>

theorem cancellation_stops_run:
  assumes "execute env su published n repo = (r, s)" "A_poll True \<in> set (ls_trace s)"
  shows "last (ls_trace s) = A_poll True \<and> A_poll True \<notin> set (butlast (ls_trace s)) \<and>
    (case r of Inr x \<Rightarrow> lr_status x = ''cancelled'' | Inl e \<Rightarrow> \<exists>u. e = Uncaught u)"
proof -
  from execute_hears [OF assms(1)] obtain s0 where "ls_trace s0 = []"
    "heard env s0 s \<or> stop_seen env s0 s \<and> (case r of Inr x \<Rightarrow> lr_status x = ''cancelled'' | Inl e \<Rightarrow> \<exists>u. e = Uncaught u)" by metis
  with assms(2) show ?thesis by (auto simp: heard_def stop_seen_def)
qed

section \<open>The order of calls\<close>

fun phase_of :: "act \<Rightarrow> string list" where
  "phase_of (A_model phase _) = [phase]"
| "phase_of (A_tool _ _) = [''tool'']"
| "phase_of _ = []"

definition phases :: "'s lstate \<Rightarrow> string list" where
  "phases s = concat (map phase_of (ls_trace s))"

text \<open>\<open>says A B m\<close>: the calls of \<open>m\<close> are a sequence of \<open>A\<close> when it returns and of \<open>B\<close> when it raises.\<close>

definition says :: "string list set \<Rightarrow> string list set \<Rightarrow> ('s, 'a) loop \<Rightarrow> bool" where
  "says A B m \<longleftrightarrow> (\<forall>s. wp m (\<lambda>_ t. \<exists>l\<in>A. phases t = phases s @ l) (\<lambda>_ t. \<exists>l\<in>B. phases t = phases s @ l) s)"

definition conc :: "string list set \<Rightarrow> string list set \<Rightarrow> string list set" where
  "conc A B = {x @ y | x y. x \<in> A \<and> y \<in> B}"

lemma conc_simps [simp]: "conc {} B = {}" "conc (insert x A) B = (\<lambda>y. x @ y) ` B \<union> conc A B"
  by (auto simp: conc_def)

lemma concI: "x \<in> A \<Longrightarrow> y \<in> B \<Longrightarrow> x @ y \<in> conc A B"
  by (auto simp: conc_def)

lemma says_mono: "says A B m \<Longrightarrow> A \<subseteq> A' \<Longrightarrow> B \<subseteq> B' \<Longrightarrow> says A' B' m"
  unfolding says_def by (blast intro: wp_mono)

lemma says_bnd:
  fixes m :: "('s, 'a) loop" and f :: "'a \<Rightarrow> ('s, 'b) loop"
  assumes "says A B m" "\<And>x. says A' B' (f x)" "conc A A' \<subseteq> C" "B \<union> conc A B' \<subseteq> D"
  shows "says C D (bnd m f)"
  unfolding says_def wp_bnd
proof
  fix s :: "'s lstate"
  from assms(1) have "wp m (\<lambda>_ t. \<exists>l\<in>A. phases t = phases s @ l) (\<lambda>_ t. \<exists>l\<in>B. phases t = phases s @ l) s" by (simp add: says_def)
  then show "wp m (\<lambda>x. wp (f x) (\<lambda>_ t. \<exists>l\<in>C. phases t = phases s @ l) (\<lambda>_ t. \<exists>l\<in>D. phases t = phases s @ l))
      (\<lambda>_ t. \<exists>l\<in>D. phases t = phases s @ l) s"
  proof (rule wp_mono)
    fix x and t :: "'s lstate" assume "\<exists>l\<in>A. phases t = phases s @ l"
    then obtain l where l: "l \<in> A" "phases t = phases s @ l" by blast
    from assms(2) have "wp (f x) (\<lambda>_ u. \<exists>k\<in>A'. phases u = phases t @ k) (\<lambda>_ u. \<exists>k\<in>B'. phases u = phases t @ k) t" by (simp add: says_def)
    then show "wp (f x) (\<lambda>_ t. \<exists>l\<in>C. phases t = phases s @ l) (\<lambda>_ t. \<exists>l\<in>D. phases t = phases s @ l) t"
    proof (rule wp_mono)
      fix y and u :: "'s lstate" assume "\<exists>k\<in>A'. phases u = phases t @ k"
      then obtain k where "k \<in> A'" "phases u = phases t @ k" by blast
      with l assms(3) show "\<exists>l\<in>C. phases u = phases s @ l" by (intro bexI [of _ "l @ k"]) (auto intro: concI)
    next
      fix e and u :: "'s lstate" assume "\<exists>k\<in>B'. phases u = phases t @ k"
      then obtain k where "k \<in> B'" "phases u = phases t @ k" by blast
      with l assms(4) show "\<exists>l\<in>D. phases u = phases s @ l" by (intro bexI [of _ "l @ k"]) (auto intro: concI)
    qed
  qed (use assms(4) in blast)
qed

definition mute :: "'s lstate \<Rightarrow> 's lstate \<Rightarrow> bool" where
  "mute s t \<longleftrightarrow> phases t = phases s"

interpretation mute_order: exn_order mute "\<lambda>_. mute"
  by unfold_locales (auto simp: mute_def)

lemma mute_checked: "keeps mute (\<lambda>_. mute) (check_cancellation env rx p)"
  unfolding keeps_def check_cancellation_def wp_bnd
  by (rule allI, rule wp_mono [OF is_cancelled_hears]) (auto simp: mute_def phases_def)

lemma silent_mute: "silent m \<Longrightarrow> keeps mute (\<lambda>_. mute) m"
  unfolding keeps_def by (auto intro: wp_mono simp: still_def mute_def phases_def)

interpretation mute_rel: loop_rel mute "\<lambda>_. mute" env rx for env rx
  by unfold_locales (auto simp: core_def mute_def phases_def intro: mute_checked silent_mute silent_emit silent_add_step)

lemma says_mute: "keeps mute (\<lambda>_. mute) m \<Longrightarrow> says {[]} {[]} m"
  by (simp add: keeps_def says_def mute_def [abs_def])

lemma says_after: "keeps mute (\<lambda>_. mute) m \<Longrightarrow> (\<And>x. says A B (f x)) \<Longrightarrow> [] \<in> B \<Longrightarrow> says A B (bnd m f)"
  by (rule says_bnd [OF says_mute]) auto

lemma says_seq_after: "keeps mute (\<lambda>_. mute) m \<Longrightarrow> says A B n \<Longrightarrow> [] \<in> B \<Longrightarrow> says A B (seq m n)"
  unfolding seq_def by (rule says_after)

lemma says_throw: "[] \<in> B \<Longrightarrow> says A B (throw e)" by (simp add: says_def)
lemma says_ret: "[] \<in> A \<Longrightarrow> says A B (ret x)" by (simp add: says_def)

lemma says_log: "says {phase_of a} {} (log_act a)"
  by (simp add: says_def log_act_def phases_def)

lemma says_background: "says {phase_of a} {[], phase_of a} (run_with_cancellation env rx a f)"
  unfolding run_with_cancellation_def
  by (rule says_after [OF mute_rel.keeps_tick]; (unfold seq_def)?; (rule says_bnd [OF says_log says_mute])?;
      (intro mute_order.keeps_intros mute_rel.keeps_poll)?; simp)

lemma says_call_planner: "says {[phase]} {[], [phase]} (call_planner env rx llm schema cid phase request first)"
proof -
  have "says {[]} {[]} ((\<lambda>r. case r of Inr p \<Rightarrow> ret (p, start)
        | Inl (LLM_provider e) \<Rightarrow> seq (failed_proposal env rx llm e cid start first) (throw (orch_provider e (provider_error_details e) (Some cid)))
        | Inl (LLM_config msg) \<Rightarrow> if first then throw (orch ''llm_configuration_error'' False (Some cid) msg) else throw (Uncaught (U_llm msg))
        | Inl (LLM_other msg) \<Rightarrow> throw (Uncaught (U_llm msg))) r)" for r :: "llm_failure + proposal_result" and start
    by (intro says_mute mute_rel.loop_intros)
  from says_bnd [OF says_background [of "A_model phase cid" env rx] this, of "{[phase]}" "{[], [phase]}"]
  have tail: "says {[phase]} {[], [phase]} (bnd (run_with_cancellation env rx (A_model phase cid) g) (\<lambda>r. case r of Inr p \<Rightarrow> ret (p, start)
        | Inl (LLM_provider e) \<Rightarrow> seq (failed_proposal env rx llm e cid start first) (throw (orch_provider e (provider_error_details e) (Some cid)))
        | Inl (LLM_config msg) \<Rightarrow> if first then throw (orch ''llm_configuration_error'' False (Some cid) msg) else throw (Uncaught (U_llm msg))
        | Inl (LLM_other msg) \<Rightarrow> throw (Uncaught (U_llm msg))))" for g :: "nat \<Rightarrow> llm_failure + proposal_result" and start by simp
  show ?thesis
    unfolding call_planner_def
    by (intro tail says_seq_after says_after mute_rel.keeps_emit mute_rel.keeps_determinate mute_rel.keeps_clock mute_order.keeps_gets)
      (simp_all add: RUN_TERMINAL_EVENTS_def)
qed

lemma says_first_proposal: "says {[''proposal'']} {[], [''proposal'']} (first_proposal env rx llm schema cid)"
  unfolding first_proposal_def
  by (rule says_bnd [OF says_call_planner says_mute])
    ((intro mute_rel.loop_intros mute_rel.keeps_settle_planner; simp add: core_def keeps_sequence_def)+, simp_all)

lemma says_retry_proposal: "says {[''proposal_retry'']} {[], [''proposal_retry'']} (retry_proposal env rx llm schema v)"
  unfolding retry_proposal_def
  by (rule says_after [OF mute_rel.keeps_new_id], rule says_bnd [OF says_call_planner says_mute])
    ((intro mute_rel.loop_intros mute_rel.keeps_settle_planner; simp add: core_def keeps_sequence_def)+, simp_all)

text \<open>After one retry no second one is allowed: more fuel changes nothing.\<close>

lemma no_second_retry: "\<not> retry_allowed b now t i j (Suc u)"
  by (simp add: retry_allowed_def MAX_VALIDATION_RETRIES_def Let_def)

lemma retry_last: "retry_loop env rx llm schema (Suc fuel) (Suc u) p cid =
  bnd (validate env (tp_name (pp_proposal p)) (tp_arguments (pp_proposal p)) schema) (\<lambda>v.
    case (if pv_ok v then parse_query_proposal (pp_proposal p) else None) of
      Some call \<Rightarrow> ret (call, cid)
    | None \<Rightarrow> seq (invalid_step env rx (tp_arguments (pp_proposal p)) v (Suc u)) (bnd (read_clock env) (\<lambda>now. bnd (gets ls_tracker) (\<lambda>t.
        throw (orch ''tool_validation_error'' False (Some cid)
          (''Invalid tool proposal ('' @ violation_codes v @ '') sha256='' @ digest16 env (tp_arguments (pp_proposal p))))))))"
  by (simp add: no_second_retry Let_def cong: option.case_cong)

lemma retry_fuel: "retry_loop env rx llm schema (Suc (Suc fuel)) 0 p cid = retry_loop env rx llm schema (Suc MAX_VALIDATION_RETRIES) 0 p cid"
  unfolding MAX_VALIDATION_RETRIES_def One_nat_def retry_loop.simps(2) [of env rx llm schema "Suc _"] retry_last ..

lemma says_retry_last: "says {[]} {[]} (retry_loop env rx llm schema (Suc fuel) (Suc u) p cid)"
  unfolding retry_last by (intro says_mute mute_rel.loop_intros mute_rel.keeps_validate mute_rel.keeps_invalid_step)

lemma says_option: "says A B m \<Longrightarrow> (\<And>y. says A B (f y)) \<Longrightarrow> says A B (case x of None \<Rightarrow> m | Some y \<Rightarrow> f y)"
  by (cases x) simp_all

lemma says_prod: "(\<And>a b. says A B (f a b)) \<Longrightarrow> says A B (case p of (a, b) \<Rightarrow> f a b)"
  by (cases p) simp

lemma says_if: "says A B m \<Longrightarrow> says A B n \<Longrightarrow> says A B (if b then m else n)" by simp

lemma says_retry: "says {[], [''proposal_retry'']} {[], [''proposal_retry'']} (retry_loop env rx llm schema (Suc MAX_VALIDATION_RETRIES) 0 p cid)"
proof -
  have again: "says {[], [''proposal_retry'']} {[], [''proposal_retry'']}
      (bnd (retry_proposal env rx llm schema v) (\<lambda>(p', cid'). retry_loop env rx llm schema (Suc 0) (Suc 0) p' cid'))" for v
    by (rule says_bnd [OF says_retry_proposal says_prod [OF says_retry_last]]) simp_all
  show ?thesis unfolding MAX_VALIDATION_RETRIES_def One_nat_def retry_loop.simps(2) [of env rx llm schema "Suc 0"] Let_def
    by (intro again says_after says_seq_after says_option says_if says_ret says_throw mute_rel.keeps_validate mute_rel.keeps_invalid_step
        mute_rel.keeps_clock mute_order.keeps_gets) simp_all
qed

lemma says_background_then: "(\<And>r. keeps mute (\<lambda>_. mute) (f r)) \<Longrightarrow> says {phase_of a} {[], phase_of a} (bnd (run_with_cancellation env rx a g) f)"
  by (rule says_bnd [OF says_background says_mute]) simp_all

lemma says_log_then: "keeps mute (\<lambda>_. mute) m \<Longrightarrow> says {phase_of a} {[], phase_of a} (seq (log_act a) m)"
  unfolding seq_def by (rule says_bnd [OF says_log says_mute]) simp_all

lemma says_run_tool: "says {[''tool'']} {[], [''tool'']} (run_tool env rx mcp tool args cid)"
  unfolding run_tool_def
  by (intro says_seq_after says_after mute_rel.loop_intros says_background_then [of _ "A_tool _ _", unfolded phase_of.simps] mute_rel.keeps_failed_tool)
    (simp_all add: RUN_TERMINAL_EVENTS_def core_def)

lemma says_call_answerer: "says {[''final_answer'']} {[], [''final_answer'']} (call_answerer env rx llm res cid start)"
  unfolding call_answerer_def
  by (intro says_seq_after says_after says_log_then [of _ "A_model _ _", unfolded phase_of.simps] mute_rel.loop_intros mute_rel.keeps_delta)
    (simp_all add: RUN_TERMINAL_EVENTS_def core_def)

lemma says_final_answer: "says {[''final_answer'']} {[], [''final_answer'']} (final_answer env rx llm res qid)"
  unfolding final_answer_def
  by (rule says_after [OF mute_rel.keeps_new_id], intro says_seq_after says_after mute_rel.loop_intros says_bnd [OF says_call_answerer says_mute]
      mute_rel.keeps_grounding mute_rel.keeps_speak silent_mute [OF silent_settle_answer])
    (simp_all add: RUN_TERMINAL_EVENTS_def core_def)

definition full_orders :: "string list set" where
  "full_orders = {[''proposal''], [''tool'', ''final_answer''], [''proposal'', ''tool'', ''final_answer''],
     [''proposal'', ''proposal_retry'', ''tool'', ''final_answer'']}"

definition part_orders :: "string list set" where
  "part_orders = {[], [''proposal''], [''proposal'', ''proposal_retry''], [''tool''], [''proposal'', ''tool''],
     [''proposal'', ''proposal_retry'', ''tool''], [''tool'', ''final_answer''], [''proposal'', ''tool'', ''final_answer''],
     [''proposal'', ''proposal_retry'', ''tool'', ''final_answer'']}"

abbreviation tool_orders :: "string list set" where
  "tool_orders \<equiv> {[], [''tool''], [''tool'', ''final_answer'']}"

lemma says_decline: "says {[]} {[]} (decline env rx p)"
  unfolding decline_def Let_def
  by (intro says_mute mute_rel.loop_intros silent_mute [OF silent_finish_declined])
    (simp_all add: RUN_TERMINAL_EVENTS_def core_def keeps_sequence_def)

lemma says_answer_with_tool: "says {[''tool'', ''final_answer'']} tool_orders (answer_with_tool env rx llm mcp schema pcid tool args cid)"
proof -
  have final: "says {[''final_answer'']} {[], [''final_answer'']} (bnd (final_answer env rx llm res qid) (complete_run env rx))" for res qid
    by (rule says_bnd [OF says_final_answer says_mute [OF silent_mute [OF silent_complete_run]]]) simp_all
  have tool: "says {[''tool'', ''final_answer'']} tool_orders (bnd (run_tool env rx mcp tool args cid) (\<lambda>(res, qid, tcid, dur).
      seq (observe env rx tool args res qid tcid dur) (seq (reduce_context env rx schema res qid)
        (bnd (final_answer env rx llm res qid) (complete_run env rx)))))"
    by (rule says_bnd [OF says_run_tool, where A' = "{[''final_answer'']}" and B' = "{[], [''final_answer'']}"], intro says_prod says_seq_after final mute_rel.keeps_observe mute_rel.keeps_reduce_context) simp_all
  show ?thesis unfolding answer_with_tool_def Let_def
    by (intro says_after says_seq_after says_if says_throw tool mute_rel.keeps_validate mute_rel.keeps_emit mute_order.keeps_gets mute_rel.keeps_mods_core)
      (simp_all add: RUN_TERMINAL_EVENTS_def core_def)
qed

lemma says_body: "says full_orders part_orders (loop_body env rx llm mcp pcid)"
proof -
  note cat = says_seq_after [OF mute_rel.keeps_catalogue_step says_answer_with_tool]
  have retry: "says {[''tool'', ''final_answer''], [''proposal_retry'', ''tool'', ''final_answer'']}
      (tool_orders \<union> Cons ''proposal_retry'' ` tool_orders)
      (bnd (retry_loop env rx llm schema (Suc MAX_VALIDATION_RETRIES) 0 p pcid) (\<lambda>((tool, args), cid). answer_with_tool env rx llm mcp schema pcid tool args (Some cid)))"
    for schema p
    by (rule says_bnd [OF says_retry, where A' = "{[''tool'', ''final_answer'']}" and B' = tool_orders]) (auto split: prod.split intro: says_answer_with_tool)
  have after: "says {[], [''tool'', ''final_answer''], [''proposal_retry'', ''tool'', ''final_answer'']} (tool_orders \<union> Cons ''proposal_retry'' ` tool_orders)
      (if tp_outcome (pp_proposal p) \<in> set DECLINE_OUTCOMES then decline env rx p
       else bnd (retry_loop env rx llm schema (Suc MAX_VALIDATION_RETRIES) 0 p pcid) (\<lambda>((tool, args), cid).
         answer_with_tool env rx llm mcp schema pcid tool args (Some cid)))" for schema p
    by (intro says_if says_mono [OF says_decline] says_mono [OF retry]) auto
  have model: "says full_orders part_orders (bnd (first_proposal env rx llm schema pcid) (\<lambda>p.
      if tp_outcome (pp_proposal p) \<in> set DECLINE_OUTCOMES then decline env rx p
       else bnd (retry_loop env rx llm schema (Suc MAX_VALIDATION_RETRIES) 0 p pcid) (\<lambda>((tool, args), cid).
         answer_with_tool env rx llm mcp schema pcid tool args (Some cid))))" for schema
    by (rule says_bnd [OF says_first_proposal after]) (simp_all add: full_orders_def part_orders_def)
  have catalogue: "says full_orders part_orders (seq (catalogue_step env rx tool) (answer_with_tool env rx llm mcp schema pcid tool args None))" for tool args schema
    by (rule says_mono [OF cat]) (simp_all add: full_orders_def part_orders_def)
  show ?thesis unfolding loop_body_def
    by (intro says_after says_seq_after says_option says_prod model catalogue mute_rel.keeps_with_tracker mute_rel.keeps_load_schema mute_rel.checked
        mute_rel.keeps_mods_core) (simp_all add: part_orders_def core_def)
qed

lemma says_guarded: "says full_orders part_orders (guarded_body env rx)"
  unfolding guarded_body_def
  by (intro says_after says_seq_after says_prod says_body mute_rel.keeps_setup mute_rel.keeps_new_id mute_rel.checked)
    (simp_all add: part_orders_def)

lemma execute_says:
  assumes "execute env su published n repo = (r, s)"
  shows "phases s \<in> part_orders \<and> (\<forall>x. r = Inr x \<longrightarrow> lr_status x = ''completed'' \<longrightarrow> phases s \<in> full_orders)"
proof -
  let ?s0 = "fresh_state env (le_budgets env) (su_next_seq su) (le_clock env n) published n repo"
  have start: "phases ?s0 = []" by (simp add: phases_def fresh_state_def)
  let ?Q = "\<lambda>s0 x t. \<exists>l\<in>part_orders. phases t = phases s0 @ l \<and> (lr_status x = ''completed'' \<longrightarrow> l \<in> full_orders)"
  let ?E = "\<lambda>s0 t. \<exists>l\<in>part_orders. phases t = phases s0 @ l"
  have not_completed: "wp (handlers env rx e) (\<lambda>x _. lr_status x \<noteq> ''completed'') (\<lambda>_ _. True) u" for rx e u
    by (cases e) (simp_all add: handlers_def on_cancelled_def on_budget_def on_failed_def Let_def wp_def bnd_def seq_def gets_def throw_def
        split: prod.splits sum.splits)
  have handled: "wp (handlers env rx e) (\<lambda>x. ?Q s0 x) (\<lambda>_. ?E s0) u" if "?E s0 u" for rx e u and s0 :: "'a lstate"
    by (rule wp_mono [OF wp_conj [OF not_completed keeps_wp [OF silent_mute [OF silent_handlers]]]]) (use that in \<open>auto simp: mute_def\<close>)
  have sub: "full_orders \<subseteq> part_orders" by (auto simp: full_orders_def part_orders_def)
  have body: "wp (handle (guarded_body env rx) (handlers env rx)) (\<lambda>x. ?Q s0 x) (\<lambda>_. ?E s0) s0" for rx and s0 :: "'a lstate"
  proof -
    have "wp (guarded_body env rx) (\<lambda>_ t. \<exists>l\<in>full_orders. phases t = phases s0 @ l) (\<lambda>_. ?E s0) s0"
      using says_guarded [of env rx] by (simp add: says_def)
    then show ?thesis unfolding wp_handle by (rule wp_mono) (use sub handled in blast)+
  qed
  have none: "[] \<in> part_orders" by (simp add: part_orders_def)
  have "wp (execute_loop env su) (\<lambda>x. ?Q ?s0 x) (\<lambda>_. ?E ?s0) ?s0"
    unfolding execute_loop_def wp_bnd
  proof (rule wp_mono [OF keeps_wp [OF silent_mute [OF silent_clock]]])
    fix start t1 assume t1: "mute ?s0 t1"
    show "wp (repo_call env (Get_run (su_run_id su))) (\<lambda>r. wp (case r of
         R_run (Some run) \<Rightarrow> (let rx = run_context env su run start (le_budgets env) in handle (guarded_body env rx) (handlers env rx))
       | _ \<Rightarrow> throw (Uncaught U_assert)) (\<lambda>x. ?Q ?s0 x) (\<lambda>_. ?E ?s0)) (\<lambda>_. ?E ?s0) t1"
    proof (rule wp_mono [OF keeps_wp [OF silent_mute [OF silent_repo]]])
      fix rep t2 assume "mute t1 t2"
      with t1 have t2: "phases t2 = phases ?s0" by (simp add: mute_def)
      show "wp (case rep of
           R_run (Some run) \<Rightarrow> (let rx = run_context env su run start (le_budgets env) in handle (guarded_body env rx) (handlers env rx))
         | _ \<Rightarrow> throw (Uncaught U_assert)) (\<lambda>x. ?Q ?s0 x) (\<lambda>_. ?E ?s0) t2"
        using body [of _ t2] none by (auto simp del: wp_handle simp: Let_def t2 split: reply.split option.split)
    qed (use t1 none in \<open>auto simp: mute_def\<close>)
  qed (use none in \<open>auto simp: mute_def\<close>)
  from wp_result [OF this assms [unfolded execute_def]] show ?thesis
    by (cases r) (auto simp: start)
qed

text \<open>
  C7. A run makes its calls in one of few orders: a model proposal, at most one retry, at most one tool call and one
  final answer, or the tool call of the catalogue and one answer. A completed run has gone through one of these to its
  end; any other ending stops after a part of one.
\<close>

theorem run_call_order:
  assumes "execute env su published n repo = (r, s)"
  shows "phases s \<in> (case r of Inl _ \<Rightarrow> part_orders | Inr x \<Rightarrow> if lr_status x = ''completed'' then full_orders else part_orders)"
  using execute_says [OF assms] by (auto split: sum.split)

section \<open>Two concrete runs\<close>

lemma demo_lookup: "\<not> requires_multi_step_analysis (su_prompt demo_submission)" "lookup (su_prompt demo_submission) = Some (''aggregate_taxi_data'', last_arguments)"
  by code_simp (simp add: demo_submission_def lookup_last [OF raw_last refl])

lemma demo_schema_ok: "sanitize_dataset_schema demo_schema = Inr demo_schema"
  by (simp add: demo_schema_def sanitize_dataset_schema_def jget_def text_within_def texts_within_def)

lemma demo_valid:
  "validate_proposal (\<lambda>_. None) ''aggregate_taxi_data'' (JObj last_arguments) (Some demo_schema) 0 1 = Inr \<lparr>violations = [], pv_outcome = ''tool_call''\<rparr>"
  by code_simp

lemmas program_defs = bnd_def seq_def gets_def mods_def ret_def throw_def handle_def next_tick_def read_clock_def new_id_def log_act_def

lemma demo_cancelled:
  "A_poll True \<in> set (ls_trace (snd (execute demo_loop demo_submission [] 0 (demo_store ''cancel_requested''))))"
  by (simp add: execute_def execute_loop_def repo_call_def program_defs demo_loop_def mem_get_run_def demo_store_def demo_submission_def fresh_state_def
      demo_loop_run_def guarded_body_def check_cancellation_def is_cancelled_def cancelled_with_def handlers_def on_cancelled_def Let_def
      end_run_def map_reply_def mem_update_run_def emit_ids_def run_context_def terminal_run_def)

lemma demo_ids: "su_run_id demo_submission = ''r''" "su_next_seq demo_submission = 2" "su_message_id demo_submission = ''u''"
    "su_conversation_id demo_submission = ''c''"
  by (simp_all add: demo_submission_def)

lemma demo_escapes:
  "call_governed env (\<lambda>_ _. Inl (ToolError ''down'')) ''aggregate_taxi_data'' args = Inl (Escaped ''down'')"
  by (simp add: call_governed_def AVERAGE_METRICS_TOOL_NAME_def EXPECTED_TOOL_NAME_def client_aggregate_taxi_data_def checked_answer_def call_tool_def try_bind_def)

lemma demo_fields:
    "le_step demo_loop = mem_op"
    "le_other demo_loop = (\<lambda>_ m. m)"
    "le_publisher demo_loop = False"
    "le_polls demo_loop = (\<lambda>_. 0)"
    "le_clock demo_loop = (\<lambda>_. 0)"
    "le_llm demo_loop = Inr demo_llm"
    "le_mcp demo_loop = Inr demo_mcp"
    "le_budgets demo_loop = default_budgets"
    "le_iso demo_loop = (\<lambda>_. None)"
  by (simp_all add: demo_loop_def)

lemma demo_tool:
  "A_tool ''aggregate_taxi_data'' last_arguments \<in> set (ls_trace (snd (execute demo_loop demo_submission [] 0 (demo_store ''in_progress''))))"
  by (simp add: execute_def execute_loop_def repo_call_def program_defs demo_fields mem_get_run_def demo_store_def fresh_state_def
      demo_loop_run_def guarded_body_def check_cancellation_def is_cancelled_def handlers_def Let_def map_reply_def emit_ids_def emit_event_def run_context_def
      setup_clients_def demo_llm_def loop_body_def with_tracker_def record_iteration_def new_tracker_def default_budgets_def check_deadline_def elapsed_seconds_def
      load_schema_def run_with_cancellation_def demo_mcp_def demo_schema_ok demo_ids demo_lookup catalogue_step_def add_step_def append_step_def
      answer_with_tool_def validate_def run_tool_def pv_ok_def demo_valid [unfolded One_nat_def] demo_escapes mem_add_run_step_def blank_step_def mem_empty_def od_get_list_def)

theorem tool_calls_checked_witness:
  "\<exists>mcp i raw schema v. le_mcp demo_loop = Inr mcp \<and> mc_schema mcp i = Inr raw \<and> sanitize_dataset_schema raw = Inr schema \<and>
    validate_proposal (le_iso demo_loop) ''aggregate_taxi_data'' (JObj last_arguments) (Some schema) 0 1 = Inr v \<and> pv_ok v"
  using tool_calls_checked [OF surjective_pairing demo_tool] .

theorem cancellation_stops_run_witness:
  "last (ls_trace (snd (execute demo_loop demo_submission [] 0 (demo_store ''cancel_requested'')))) = A_poll True"
  using cancellation_stops_run [OF surjective_pairing demo_cancelled] by simp

theorem run_call_order_witness:
  "phases (snd (execute demo_loop demo_submission [] 0 (demo_store ''in_progress''))) \<in>
    (case fst (execute demo_loop demo_submission [] 0 (demo_store ''in_progress'')) of
       Inl _ \<Rightarrow> part_orders | Inr x \<Rightarrow> if lr_status x = ''completed'' then full_orders else part_orders)"
  using run_call_order [OF surjective_pairing] .

end
