(* ===== verification/App_Regex.thy ===== *)
theory App_Regex
  imports Prelude
begin

text \<open>
  The part of Python's \<open>re\<close> the application uses: backtracking matching with greedy repetition of a character class,
  alternatives, optional parts, groups, word boundaries and one-character look-behind. A pattern gives its matches at a
  position in the order the engine tries them, and \<open>finditer\<close>, \<open>search\<close>, \<open>sub\<close> and \<open>split\<close> take the first of them at the
  leftmost position. The patterns ignore case, so the letters of a literal are compared in lower case.
\<close>

section \<open>Patterns\<close>

datatype rx =
    Eps
  | Sat "char \<Rightarrow> bool"
  | Rep "char \<Rightarrow> bool" nat "nat option"
  | Cat rx rx
  | Alt rx rx
  | Opt rx
  | Grp string rx
  | Edge
  | After "char \<Rightarrow> bool"
  | Not_after "char \<Rightarrow> bool"
  | Text_start
  | Text_end

text \<open>The classes \<open>\w\<close> and \<open>\d\<close> on characters below 256.\<close>

definition is_word :: "char \<Rightarrow> bool" where
  "is_word c \<longleftrightarrow> (let n = of_char c :: nat in
     (48 \<le> n \<and> n \<le> 57) \<or> (65 \<le> n \<and> n \<le> 90) \<or> (97 \<le> n \<and> n \<le> 122) \<or> n = 95 \<or> n \<in> {170, 178, 179, 181, 185, 186, 188, 189, 190} \<or>
     (192 \<le> n \<and> n \<noteq> 215 \<and> n \<noteq> 247))"

definition same_letter :: "char \<Rightarrow> char \<Rightarrow> bool" where
  "same_letter c d \<longleftrightarrow> py_lower_char d = c"

fun lit :: "string \<Rightarrow> rx" where
  "lit [] = Eps"
| "lit (c # cs) = Cat (Sat (same_letter c)) (lit cs)"

fun seq_rx :: "rx list \<Rightarrow> rx" where
  "seq_rx [] = Eps"
| "seq_rx [x] = x"
| "seq_rx (x # y # ys) = Cat x (seq_rx (y # ys))"

fun any_rx :: "rx \<Rightarrow> rx list \<Rightarrow> rx" where
  "any_rx x [] = x"
| "any_rx x (y # ys) = Alt x (any_rx y ys)"

definition words :: "string \<Rightarrow> string list \<Rightarrow> rx" where
  "words w ws = any_rx (lit w) (map lit ws)"

section \<open>Matching\<close>

text \<open>A position is the text before it, newest character first, and the text after it.\<close>

type_synonym cursor = "string \<times> string"
type_synonym groups = "(string \<times> string) list"

definition forward :: "nat \<Rightarrow> cursor \<Rightarrow> cursor" where
  "forward k s = (rev (take k (snd s)) @ fst s, drop k (snd s))"

definition word_edge :: "cursor \<Rightarrow> bool" where
  "word_edge s \<longleftrightarrow> (fst s \<noteq> [] \<and> is_word (hd (fst s))) \<noteq> (snd s \<noteq> [] \<and> is_word (hd (snd s)))"

definition read_between :: "cursor \<Rightarrow> cursor \<Rightarrow> string" where
  "read_between s t = take (length (snd s) - length (snd t)) (snd s)"

definition longest_run :: "(char \<Rightarrow> bool) \<Rightarrow> nat option \<Rightarrow> string \<Rightarrow> nat" where
  "longest_run p hi r = (let n = length (takeWhile p r) in case hi of None \<Rightarrow> n | Some h \<Rightarrow> min n h)"

fun attempts :: "rx \<Rightarrow> cursor \<Rightarrow> (groups \<times> cursor) list" where
  "attempts Eps s = [([], s)]"
| "attempts (Sat p) s = (if snd s \<noteq> [] \<and> p (hd (snd s)) then [([], forward 1 s)] else [])"
| "attempts (Rep p lo hi) s = map (\<lambda>k. ([], forward k s)) (rev [lo..<Suc (longest_run p hi (snd s))])"
| "attempts (Cat x y) s = concat (map (\<lambda>(g, t). map (\<lambda>(h, u). (g @ h, u)) (attempts y t)) (attempts x s))"
| "attempts (Alt x y) s = attempts x s @ attempts y s"
| "attempts (Opt x) s = attempts x s @ [([], s)]"
| "attempts (Grp n x) s = map (\<lambda>(g, t). ((n, read_between s t) # g, t)) (attempts x s)"
| "attempts Edge s = (if word_edge s then [([], s)] else [])"
| "attempts (After p) s = (if fst s \<noteq> [] \<and> p (hd (fst s)) then [([], s)] else [])"
| "attempts (Not_after p) s = (if fst s \<noteq> [] \<and> p (hd (fst s)) then [] else [([], s)])"
| "attempts Text_start s = (if fst s = [] then [([], s)] else [])"
| "attempts Text_end s = (if snd s = [] \<or> snd s = [CHR 0x0A] then [([], s)] else [])"

definition match_at :: "rx \<Rightarrow> cursor \<Rightarrow> (groups \<times> cursor) option" where
  "match_at x s = (case attempts x s of [] \<Rightarrow> None | a # _ \<Rightarrow> Some a)"

text \<open>The leftmost match from a position: the text skipped, the groups, the text matched and the position after it.\<close>

type_synonym found = "string \<times> groups \<times> string"

fun find_from :: "rx \<Rightarrow> string \<Rightarrow> string \<Rightarrow> (found \<times> cursor) option" where
  "find_from x b [] = (case match_at x (b, []) of None \<Rightarrow> None | Some (g, t) \<Rightarrow> Some (([], g, []), t))"
| "find_from x b (c # r) = (case match_at x (b, c # r) of
     Some (g, t) \<Rightarrow> Some (([], g, read_between (b, c # r) t), t)
   | None \<Rightarrow> map_option (\<lambda>((sk, m), t). ((c # sk, m), t)) (find_from x (c # b) r))"

text \<open>All matches, left to right, and the text after the last. Every pattern that is iterated reads something.\<close>

function matches :: "rx \<Rightarrow> cursor \<Rightarrow> found list \<times> string" where
  "matches x s = (case find_from x (fst s) (snd s) of
     None \<Rightarrow> ([], snd s)
   | Some (m, t) \<Rightarrow> if length (snd t) < length (snd s) then (let (ms, rest) = matches x t in (m # ms, rest)) else ([m], snd t))"
  by pat_completeness auto
termination by (relation "measure (\<lambda>(x, s). length (snd s))") auto

declare matches.simps [simp del]

definition finditer :: "rx \<Rightarrow> string \<Rightarrow> found list" where
  "finditer x text = fst (matches x ([], text))"

definition search :: "rx \<Rightarrow> string \<Rightarrow> bool" where
  "search x text \<longleftrightarrow> find_from x [] text \<noteq> None"

definition sub_rx :: "rx \<Rightarrow> string \<Rightarrow> string \<Rightarrow> string" where
  "sub_rx x new text = (let (ms, rest) = matches x ([], text) in concat (map (\<lambda>(sk, _). sk @ new) ms) @ rest)"

definition split_rx :: "rx \<Rightarrow> string \<Rightarrow> string list" where
  "split_rx x text = (let (ms, rest) = matches x ([], text) in map fst ms @ [rest])"

section \<open>What a match reads\<close>

lemma forward_parts: "k \<le> length (snd s) \<Longrightarrow> \<exists>t. length t = k \<and> snd s = t @ snd (forward k s) \<and> fst (forward k s) = rev t @ fst s"
  by (rule exI [of _ "take k (snd s)"]) (simp add: forward_def)

lemma longest_run_le: "longest_run p hi r \<le> length r"
  using length_takeWhile_le [of p r] by (auto simp: longest_run_def Let_def min_def split: option.split)

definition reads :: "cursor \<Rightarrow> string \<Rightarrow> cursor \<Rightarrow> bool" where
  "reads s t u \<longleftrightarrow> snd s = t @ snd u \<and> fst u = rev t @ fst s"

lemma reads_trans: "reads s t u \<Longrightarrow> reads u t' v \<Longrightarrow> reads s (t @ t') v"
  by (simp add: reads_def)

lemma reads_between: "reads s t u \<Longrightarrow> read_between s u = t"
  by (simp add: reads_def read_between_def)

text \<open>The least number of characters a pattern reads.\<close>

primrec min_read :: "rx \<Rightarrow> nat" where
  "min_read Eps = 0"
| "min_read (Sat p) = 1"
| "min_read (Rep p lo hi) = lo"
| "min_read (Cat x y) = min_read x + min_read y"
| "min_read (Alt x y) = min (min_read x) (min_read y)"
| "min_read (Opt x) = 0"
| "min_read (Grp n x) = min_read x"
| "min_read Edge = 0"
| "min_read (After p) = 0"
| "min_read (Not_after p) = 0"
| "min_read Text_start = 0"
| "min_read Text_end = 0"

lemma attempts_read: "(g, u) \<in> set (attempts x s) \<Longrightarrow> \<exists>t. reads s t u \<and> min_read x \<le> length t"
proof (induction x arbitrary: s g u)
  case (Sat p)
  then show ?case using forward_parts [of 1 s] by (cases "snd s") (auto simp: reads_def split: if_splits)
next
  case (Rep p lo hi)
  then obtain k where k: "lo \<le> k" "k < Suc (longest_run p hi (snd s))" "u = forward k s" by (auto simp del: upt_Suc)
  with longest_run_le [of p hi "snd s"] have "k \<le> length (snd s)" by linarith
  with k forward_parts [of k s] show ?case by (auto simp: reads_def)
next
  case (Cat x y)
  then obtain g1 t1 g2 where "(g1, t1) \<in> set (attempts x s)" "(g2, u) \<in> set (attempts y t1)" by auto
  with Cat.IH obtain a b where "reads s a t1" "min_read x \<le> length a" "reads t1 b u" "min_read y \<le> length b" by meson
  then show ?case by (intro exI [of _ "a @ b"]) (auto intro: reads_trans)
next
  case (Alt x y)
  then consider "(g, u) \<in> set (attempts x s)" | "(g, u) \<in> set (attempts y s)" by auto
  then obtain t where "reads s t u" "min_read x \<le> length t \<or> min_read y \<le> length t"
  proof cases
    case 1 from Alt.IH(1) [OF this] that show ?thesis by blast
  next
    case 2 from Alt.IH(2) [OF this] that show ?thesis by blast
  qed
  then show ?case by (auto simp: min_le_iff_disj)
next
  case (Opt x)
  then consider "(g, u) \<in> set (attempts x s)" | "u = s" by auto
  then show ?case
  proof cases
    case 1 from Opt.IH [OF this] show ?thesis by auto
  qed (auto simp: reads_def)
next
  case (Grp n x)
  then obtain g' where "(g', u) \<in> set (attempts x s)" by auto
  from Grp.IH [OF this] show ?case by simp
qed (auto simp: reads_def split: if_splits)

lemma cat_attempt:
  "(g, u) \<in> set (attempts (Cat x y) s) \<longleftrightarrow> (\<exists>a t b. (a, t) \<in> set (attempts x s) \<and> (b, u) \<in> set (attempts y t) \<and> g = a @ b)"
  by auto force

lemma match_at_reads: "match_at x s = Some (g, u) \<Longrightarrow> \<exists>t. reads s t u \<and> min_read x \<le> length t"
  by (auto simp: match_at_def split: list.splits intro!: attempts_read [of g u])

lemma find_from_reads:
  "find_from x b r = Some ((sk, g, m), t) \<Longrightarrow> r = sk @ m @ snd t \<and> fst t = rev (sk @ m) @ b \<and> min_read x \<le> length m"
proof (induction x b r arbitrary: sk rule: find_from.induct)
  case (1 x b)
  then show ?case by (auto simp: reads_def dest!: match_at_reads split: option.splits prod.splits)
next
  case (2 x b c r)
  show ?case
  proof (cases "match_at x (b, c # r)")
    case None
    with "2.prems" obtain sk' where "sk = c # sk'" "find_from x (c # b) r = Some ((sk', g, m), t)" by auto
    with "2.IH" [OF None, of sk'] show ?thesis by simp
  next
    case (Some a)
    obtain g' u where a: "a = (g', u)" by (cases a)
    with Some match_at_reads obtain t' where "reads (b, c # r) t' u" "min_read x \<le> length t'" by blast
    moreover from this have "read_between (b, c # r) u = t'" by (simp add: reads_between)
    moreover from "2.prems" Some a have "sk = []" "m = read_between (b, c # r) u" "t = u" by auto
    ultimately show ?thesis by (auto simp: reads_def)
  qed
qed

lemma matches_whole:
  "matches x s = (ms, rest) \<Longrightarrow> concat (map (\<lambda>(sk, _, m). sk @ m) ms) @ rest = snd s"
proof (induction x s arbitrary: ms rest rule: matches.induct)
  case (1 x s)
  show ?case
  proof (cases "find_from x (fst s) (snd s)")
    case None
    with "1.prems" show ?thesis by (simp add: matches.simps [of x s])
  next
    case (Some a)
    obtain sk g m t where a: "a = ((sk, g, m), t)" by (cases a) auto
    with Some find_from_reads [of x "fst s" "snd s"] have s: "snd s = sk @ m @ snd t" by blast
    obtain ms' rest' where t: "matches x t = (ms', rest')" by (cases "matches x t")
    show ?thesis
      using "1.prems" "1.IH" [OF Some a [symmetric] _ t] Some a s t by (auto simp: matches.simps [of x s] split: if_splits)
  qed
qed

lemma find_from_found:
  "find_from x b r = Some ((sk, g, m), t) \<Longrightarrow> \<exists>s. (g, t) \<in> set (attempts x s) \<and> reads s m t"
proof (induction x b r arbitrary: sk rule: find_from.induct)
  case (1 x b)
  then have "match_at x (b, []) = Some (g, t)" "m = []" by (auto split: option.splits)
  then have "(g, t) \<in> set (attempts x (b, []))" by (auto simp: match_at_def split: list.splits)
  moreover from attempts_read [OF this] \<open>m = []\<close> have "reads (b, []) m t" by (auto simp: reads_def)
  ultimately show ?case by blast
next
  case (2 x b c r)
  show ?case
  proof (cases "match_at x (b, c # r)")
    case None
    with "2.prems" obtain sk' where "find_from x (c # b) r = Some ((sk', g, m), t)" by auto
    with "2.IH" [OF None, of sk'] show ?thesis by simp
  next
    case (Some a)
    with "2.prems" have a: "a = (g, t)" "m = read_between (b, c # r) t" by (auto split: prod.splits)
    with Some have mem: "(g, t) \<in> set (attempts x (b, c # r))" by (auto simp: match_at_def split: list.splits)
    from attempts_read [OF this] a reads_between show ?thesis using mem by fastforce
  qed
qed

lemma matches_found: "(sk, g, m) \<in> set (fst (matches x s)) \<Longrightarrow> \<exists>s' u. (g, u) \<in> set (attempts x s') \<and> reads s' m u"
proof (induction x s arbitrary: sk rule: matches.induct)
  case (1 x s)
  show ?case
  proof (cases "find_from x (fst s) (snd s)")
    case None
    with "1.prems" show ?thesis by (simp add: matches.simps [of x s])
  next
    case (Some a)
    obtain sk' g' m' t where a: "a = ((sk', g', m'), t)" by (cases a) auto
    with "1.prems" Some consider "g = g'" "m = m'" | "length (snd t) < length (snd s)" "(sk, g, m) \<in> set (fst (matches x t))"
      by (auto simp: matches.simps [of x s] split_beta split: if_splits)
    then show ?thesis
    proof cases
      case 1 with find_from_found Some a show ?thesis by blast
    next
      case 2 with "1.IH" [OF Some a [symmetric]] show ?thesis by blast
    qed
  qed
qed

text \<open>Characters at which no match begins are skipped.\<close>

lemma find_skip_text:
  assumes "\<And>u c v. pre = u @ c # v \<Longrightarrow> match_at x (rev u @ b, c # v @ r) = None"
  shows "find_from x b (pre @ r) = map_option (\<lambda>((sk, m), t). ((pre @ sk, m), t)) (find_from x (rev pre @ b) r)"
  using assms
proof (induction pre arbitrary: b)
  case Nil
  show ?case by (simp add: option.map_ident)
next
  case (Cons c pre)
  have "find_from x (c # b) (pre @ r) = map_option (\<lambda>((sk, m), t). ((pre @ sk, m), t)) (find_from x (rev pre @ c # b) r)"
  proof (rule Cons.IH)
    fix u d v assume "pre = u @ d # v"
    with Cons.prems [of "c # u" d v] show "match_at x (rev u @ c # b, d # v @ r) = None" by simp
  qed
  moreover have "match_at x (b, c # pre @ r) = None" using Cons.prems [of "[]" c pre] by simp
  ultimately show ?case by (auto simp: option.map_comp o_def intro!: map_option_cong)
qed

section \<open>The first attempt\<close>

text \<open>Which attempt comes first, part by part: what the engine returns when it need not backtrack.\<close>

lemma first_cat: "match_at x s = Some (g, t) \<Longrightarrow> match_at y t = Some (h, u) \<Longrightarrow> match_at (Cat x y) s = Some (g @ h, u)"
  by (auto simp: match_at_def split: list.splits)

lemma first_sat: "match_at (Sat p) s = (if snd s \<noteq> [] \<and> p (hd (snd s)) then Some ([], forward 1 s) else None)"
  by (simp add: match_at_def)

lemma first_rep: "lo \<le> longest_run p hi (snd s) \<Longrightarrow> match_at (Rep p lo hi) s = Some ([], forward (longest_run p hi (snd s)) s)"
  by (simp add: match_at_def)

lemma first_opt: "match_at (Opt x) s = (case match_at x s of None \<Rightarrow> Some ([], s) | a \<Rightarrow> a)"
  by (simp add: match_at_def split: list.split)

lemma first_grp: "match_at (Grp n x) s = map_option (\<lambda>(g, t). ((n, read_between s t) # g, t)) (match_at x s)"
  by (simp add: match_at_def split: list.split)

lemma no_cat: "attempts x s = [] \<Longrightarrow> match_at (Cat x y) s = None"
  by (simp add: match_at_def)

end
