(* ===== verification/App_Ground.thy ===== *)
theory App_Ground
  imports App_Regex App_Loop
begin

text \<open>
  The deterministic checks of an answer against the tool results it was written from (\<open>validation/grounding.py\<close>) and the
  scan of those results for embedded instructions (\<open>validation/injection.py\<close>). A number that is a value of the evidence
  is never reported, and the numbers that are true of the evidence and reported all the same, or never looked at, are shown.
\<close>

section \<open>Patterns of the grounding check\<close>

abbreviation digit_or_comma :: "char \<Rightarrow> bool" where
  "digit_or_comma c \<equiv> py_isdigit c \<or> c = CHR '',''"

definition NUMBER_SUFFIX :: rx where
  "NUMBER_SUFFIX = Alt (Cat (Rep py_isspace 0 None) (Sat (\<lambda>c. c = CHR ''%'')))
     (Cat (Rep py_isspace 0 None) (Cat (words ''million'' [''thousand'', ''billion'', ''k'', ''m'', ''b'']) Edge))"

definition NUMBER_BODY :: rx where
  "NUMBER_BODY = Cat (Sat py_isdigit) (Cat (Rep digit_or_comma 0 None) (Opt (Cat (Sat (\<lambda>c. c = CHR ''.'')) (Rep py_isdigit 1 None))))"

definition NUMBER :: rx where
  "NUMBER = Cat (Not_after (\<lambda>c. is_word c \<or> c = CHR ''.'')) (Cat (Opt (Grp ''money'' (Sat (\<lambda>c. c = CHR ''$''))))
     (Cat (Grp ''num'' NUMBER_BODY) (Opt (Grp ''suffix'' NUMBER_SUFFIX))))"

definition SCALES :: "(string \<times> pyfloat) list" where
  "SCALES = [(''k'', 1000), (''thousand'', 1000), (''m'', 1000000), (''million'', 1000000), (''b'', 1000000000), (''billion'', 1000000000)]"

definition ascii_alnum :: "char \<Rightarrow> bool" where
  "ascii_alnum c \<longleftrightarrow> (let n = of_char c :: nat in (48 \<le> n \<and> n \<le> 57) \<or> (65 \<le> n \<and> n \<le> 90) \<or> (97 \<le> n \<and> n \<le> 122))"

definition QUERY_ID :: rx where
  "QUERY_ID = seq_rx [lit ''query'', Rep (\<lambda>c. py_isspace c \<or> c = CHR ''_'' \<or> c = CHR ''-'') 0 (Some 1), lit ''id'', Rep (\<lambda>c. \<not> is_word c) 0 (Some 3),
     Grp ''1'' (Cat (Sat ascii_alnum) (Rep (\<lambda>c. ascii_alnum c \<or> c \<in> set ''_.:-'') 2 None))]"

definition optional_s :: rx where
  "optional_s = Rep (same_letter CHR ''s'') 0 (Some 1)"

definition CAUSAL :: rx where
  "CAUSAL = seq_rx [Edge, any_rx (lit ''because'') [lit ''due to'', lit ''caused by'', Cat (lit ''cause'') optional_s, lit ''as a result of'',
     seq_rx [lit ''result'', optional_s, lit '' from''], seq_rx [lit ''lead'', optional_s, lit '' to''], lit ''led to'', lit ''driven by'',
     lit ''thanks to'', lit ''owing to'', lit ''attributable to'', lit ''explained by''], Edge]"

definition HEDGE :: rx where
  "HEDGE = seq_rx [Edge, any_rx (lit ''may'') [lit ''might'', lit ''could'', lit ''possibly'', lit ''perhaps'', lit ''cannot'',
     lit (''can'' @ [CHR 0x27] @ ''t''), lit ''can not'', lit ''unclear'', lit ''unknown'', Cat (lit ''does not '') (words ''show'' [''say'', ''establish'']),
     Cat (lit ''not '') (words ''clear'' [''known'']), lit ''no evidence'', Cat (lit ''suggest'') optional_s], Edge]"

definition SENTENCE_END :: rx where
  "SENTENCE_END = Alt (Cat (After (\<lambda>c. c \<in> set ''.!?'')) (Rep py_isspace 1 None)) (Rep (\<lambda>c. c = CHR 0x0A) 1 None)"

definition IGNORED_TOP_LEVEL :: "string list" where
  "IGNORED_TOP_LEVEL = [''execution_duration_ms'', ''query_id'', ''truncated'']"

definition MAX_DERIVED_ROWS :: nat where
  "MAX_DERIVED_ROWS = 20"

section \<open>Numbers of a text\<close>

record token =
  tk_text :: string
  tk_value :: pyfloat
  tk_tolerance :: pyfloat
  tk_percent :: bool
  tk_must_check :: bool

definition fraction_digits :: "string \<Rightarrow> string" where
  "fraction_digits raw = tl (dropWhile (\<lambda>c. c \<noteq> CHR ''.'') raw)"

text \<open>\<open>float(raw.replace(",", ""))\<close> of digits, commas and at most one point.\<close>

definition number_value :: "string \<Rightarrow> pyfloat" where
  "number_value raw = of_int (read_digits 0 (filter (\<lambda>c. c \<noteq> CHR '','') (takeWhile (\<lambda>c. c \<noteq> CHR ''.'') raw)))
     + of_int (read_digits 0 (fraction_digits raw)) / 10 ^ length (fraction_digits raw)"

definition group_or_empty :: "groups \<Rightarrow> string \<Rightarrow> string" where
  "group_or_empty g n = (case map_of g n of None \<Rightarrow> [] | Some t \<Rightarrow> t)"

definition token_of :: "found \<Rightarrow> token" where
  "token_of m = (case m of (_, g, t) \<Rightarrow>
     let raw = group_or_empty g ''num''; base = number_value raw; suffix = py_lower (py_strip (group_or_empty g ''suffix''));
         percent = (suffix = ''%''); scale = (case map_of SCALES suffix of None \<Rightarrow> 1 | Some x \<Rightarrow> x); decimals = length (fraction_digits raw);
         is_year = (1900 \<le> base \<and> base \<le> 2100 \<and> CHR '','' \<notin> set raw \<and> decimals = 0);
         small_int = (decimals = 0 \<and> scale = 1 \<and> 0 \<le> base \<and> base \<le> 31)
     in \<lparr>tk_text = py_strip t, tk_value = base * scale, tk_tolerance = 1 / 2 / 10 ^ decimals * scale, tk_percent = percent,
         tk_must_check = (group_or_empty g ''money'' \<noteq> [] \<or> percent \<or> \<not> (is_year \<or> small_int))\<rparr>)"

definition tokens :: "string \<Rightarrow> token list" where
  "tokens text = map token_of (finditer NUMBER text)"

section \<open>Numbers of the evidence\<close>

fun numeric_leaves :: "json \<Rightarrow> pyfloat list" where
  "numeric_leaves (JInt i) = [of_int i]"
| "numeric_leaves (JFloat x _) = [x]"
| "numeric_leaves (JObj d) = concat (map (\<lambda>(k, v). if k \<in> set IGNORED_TOP_LEVEL then [] else numeric_leaves v) d)"
| "numeric_leaves (JArr xs) = concat (map numeric_leaves xs)"
| "numeric_leaves _ = []"

fun number_cell :: "json \<Rightarrow> pyfloat option" where
  "number_cell (JInt i) = Some (of_int i)"
| "number_cell (JFloat x _) = Some x"
| "number_cell _ = None"

fun cells_of :: "json \<Rightarrow> json list" where
  "cells_of (JArr xs) = xs"
| "cells_of _ = []"

definition column_values :: "json list \<Rightarrow> nat \<Rightarrow> pyfloat list" where
  "column_values rows col = List.map_filter (\<lambda>r. if col < length (cells_of r) then number_cell (cells_of r ! col) else None) rows"

definition pair_figures :: "pyfloat \<Rightarrow> pyfloat \<Rightarrow> pyfloat list" where
  "pair_figures a b = [a + b, \<bar>a - b\<bar>] @ (if b \<noteq> 0 then [a / b, a / b * 100, (a - b) / b * 100] else [])"

text \<open>Two values of a column are compared unless they are the same object, that is the same row.\<close>

definition column_figures :: "pyfloat list \<Rightarrow> pyfloat list" where
  "column_figures vs =
     (if length vs < 2 then []
      else let total = sum_list vs in [total, total / of_nat (length vs)] @
        concat (map (\<lambda>(i, a). (if total \<noteq> 0 then [a / total * 100] else []) @
          concat (map (\<lambda>(j, b). if i = j then [] else pair_figures a b) (enumerate 0 vs))) (enumerate 0 vs)))"

definition derived :: "jdict \<Rightarrow> pyfloat list" where
  "derived evidence = (case jget evidence ''rows'' of
     JArr all \<Rightarrow>
       (let rows = take MAX_DERIVED_ROWS all; width = foldr (\<lambda>r n. max (length (cells_of r)) n) rows 0
        in concat (map (\<lambda>col. column_figures (column_values rows col)) [0..<width]))
   | _ \<Rightarrow> [])"

definition EPSILON :: pyfloat where
  "EPSILON = 1 / 1000000000"

definition supported :: "token \<Rightarrow> pyfloat list \<Rightarrow> pyfloat list \<Rightarrow> bool" where
  "supported tk direct figures =
     list_ex (\<lambda>target. list_ex (\<lambda>x. \<bar>target - x\<bar> \<le> tk_tolerance tk + EPSILON) (direct @ figures))
       (tk_value tk # (if tk_percent tk then [tk_value tk / 100] else []))"

section \<open>The report\<close>

record ground_report =
  ungrounded_numbers :: "pyfloat list"
  ungrounded_tokens :: "string list"
  unknown_query_ids :: "string list"
  causal_claims :: "string list"

definition report_ok :: "ground_report \<Rightarrow> bool" where
  "report_ok r \<longleftrightarrow> ungrounded_numbers r = [] \<and> unknown_query_ids r = []"

definition report_clean :: "ground_report \<Rightarrow> bool" where
  "report_clean r \<longleftrightarrow> report_ok r \<and> causal_claims r = []"

definition caveat :: "ground_report \<Rightarrow> string option" where
  "caveat r =
     (let parts =
        (if ungrounded_tokens r \<noteq> [] then [''these figures could not be verified against the governed query result and should not be relied on: ''
           @ py_join '', '' (ungrounded_tokens r)] else [])
        @ (if unknown_query_ids r \<noteq> [] then [''cited query id(s) do not match this run'' @ [CHR 0x27] @ ''s evidence: '' @ py_join '', '' (unknown_query_ids r)] else [])
        @ (if causal_claims r \<noteq> [] then [''causal claims are not established by this dataset and are unverified''] else [])
      in if parts = [] then None else Some (''Note: '' @ py_join ''; '' parts @ ''.''))"

definition report_metadata :: "ground_report \<Rightarrow> pydict" where
  "report_metadata r = [(''ungrounded_numbers'', PList (map PFloat (ungrounded_numbers r))), (''ungrounded_tokens'', PList (map PStr (ungrounded_tokens r))),
     (''unknown_query_ids'', PList (map PStr (unknown_query_ids r))), (''causal_claims'', PList (map PStr (causal_claims r)))]"

text \<open>What the orchestration loop reads of a report.\<close>

definition loop_report :: "ground_report \<Rightarrow> grounding_report" where
  "loop_report r = \<lparr>gr_caveat = caveat r, gr_ok = report_ok r, gr_metadata = report_metadata r\<rparr>"

definition py_rstrip :: "string \<Rightarrow> string \<Rightarrow> string" where
  "py_rstrip cs s = rev (dropWhile (\<lambda>c. c \<in> set cs) (rev s))"

text \<open>A list or dictionary as a query identifier cannot be put into the set of known ones.\<close>

definition hashable_id :: "json \<Rightarrow> bool" where
  "hashable_id v \<longleftrightarrow> \<not> is_list v \<and> \<not> is_dict v"

definition reported :: "pyfloat list \<Rightarrow> pyfloat list \<Rightarrow> pyfloat list \<Rightarrow> token \<Rightarrow> bool" where
  "reported direct figures asked tk \<longleftrightarrow>
     tk_must_check tk \<and> \<not> list_ex (\<lambda>a. \<bar>tk_value tk - a\<bar> \<le> tk_tolerance tk + EPSILON) asked \<and> \<not> supported tk direct figures"

definition causal_sentence :: "string \<Rightarrow> bool" where
  "causal_sentence s \<longleftrightarrow> search CAUSAL s \<and> \<not> search HEDGE s"

definition check_answer_grounding_multi :: "string \<Rightarrow> jdict list \<Rightarrow> string \<Rightarrow> py_exn + ground_report" where
  "check_answer_grounding_multi answer evidences question =
     (let direct = concat (map (\<lambda>e. numeric_leaves (JObj e)) evidences); figures = concat (map derived evidences);
          known_ids = map (\<lambda>e. jget e ''query_id'') evidences;
          asked = map tk_value (tokens question);
          bad = filter (reported direct figures asked) (tokens (sub_rx QUERY_ID '' '' answer));
          cited = map (\<lambda>(_, g, _). py_rstrip ''.:,;-'' (group_or_empty g ''1'')) (finditer QUERY_ID answer)
      in if \<not> list_all hashable_id known_ids then Inl (TypeError ''unhashable type'')
         else Inr \<lparr>ungrounded_numbers = map tk_value bad, ungrounded_tokens = map tk_text bad,
           unknown_query_ids = filter (\<lambda>c. JStr c \<notin> set known_ids) cited,
           causal_claims = map (\<lambda>s. take 160 (py_strip s)) (filter causal_sentence (split_rx SENTENCE_END answer))\<rparr>)"

definition check_answer_grounding :: "string \<Rightarrow> jdict option \<Rightarrow> string \<Rightarrow> py_exn + ground_report" where
  "check_answer_grounding answer evidence question =
     check_answer_grounding_multi answer (case evidence of Some e \<Rightarrow> if e \<noteq> [] then [e] else [] | None \<Rightarrow> []) question"

section \<open>The scan of observations\<close>

abbreviation up_to :: "nat \<Rightarrow> rx" where
  "up_to n \<equiv> Rep (\<lambda>_. True) 0 (Some n)"

definition PATTERNS :: "(string \<times> rx) list" where
  "PATTERNS =
     [(''override_instructions'', seq_rx [Edge, words ''ignore'' [''disregard'', ''forget''], Edge, up_to 30, Edge,
         words ''previous'' [''prior'', ''above'', ''earlier'', ''all''], Edge, up_to 30, Edge, words ''instruction'' [''rule'', ''prompt'', ''message''],
         optional_s, Edge]),
      (''role_marker'', seq_rx [Alt Text_start (Sat py_isspace), words ''system'' [''assistant'', ''developer''], Rep py_isspace 0 None,
         Sat (\<lambda>c. c = CHR '':'')]),
      (''role_reassignment'', seq_rx [Edge, lit ''you are now'', Edge]),
      (''tool_invocation'', seq_rx [Edge, words ''call'' [''invoke'', ''execute'', ''run''], Edge, up_to 20, Edge,
         words ''tool'' [''function'', ''aggregate_taxi_data'', ''query_taxi_data'', ''compare_taxi_segments''], Edge]),
      (''prompt_exfiltration'', seq_rx [Edge, lit ''reveal'', Edge, Rep (\<lambda>c. c \<noteq> CHR 0x0A) 0 (Some 30), Edge, lit ''prompt'', Edge]),
      (''markup_injection'', seq_rx [Sat (\<lambda>c. c = CHR ''<''), Rep (\<lambda>c. c = CHR ''/'') 0 (Some 1), Rep py_isspace 0 None,
         any_rx (lit ''tool'') [lit ''system'', Cat (lit ''instruction'') optional_s], Edge])]"

record observation_finding =
  of_row :: nat
  of_column :: string
  of_reason :: string

definition cell_reason :: "json \<Rightarrow> string option" where
  "cell_reason v = (case v of JStr t \<Rightarrow> map_option fst (find (\<lambda>(_, x). search x t) PATTERNS) | _ \<Rightarrow> None)"

definition scan_row :: "(json \<Rightarrow> string) \<Rightarrow> json list \<Rightarrow> nat \<times> json \<Rightarrow> observation_finding list" where
  "scan_row str columns ir = (case ir of (i, row) \<Rightarrow>
     List.map_filter (\<lambda>(col, v). map_option (\<lambda>reason. \<lparr>of_row = i, of_column = (case col of JStr t \<Rightarrow> t | _ \<Rightarrow> str col), of_reason = reason\<rparr>) (cell_reason v))
       (zip columns (cells_of row)))"

definition scan_observation :: "(json \<Rightarrow> string) \<Rightarrow> jdict \<Rightarrow> observation_finding list" where
  "scan_observation str query_result = (case (jget query_result ''columns'', jget query_result ''rows'') of
     (JArr columns, JArr rows) \<Rightarrow> concat (map (scan_row str columns) (enumerate 0 rows))
   | _ \<Rightarrow> [])"

section \<open>A number of the evidence\<close>

lemma lower_code:
  "(of_char (py_lower_char c) :: nat) =
    (let n = of_char c :: nat in if (65 \<le> n \<and> n \<le> 90) \<or> (192 \<le> n \<and> n \<le> 222 \<and> n \<noteq> 215) then n + 32 else n)"
  by (auto simp: py_lower_char_def Let_def)

lemma lower_is_word:
  assumes "same_letter c d" "c \<in> set ''mtkb''"
  shows "is_word d"
proof -
  from assms(2) have "(of_char c :: nat) = 109 \<or> (of_char c :: nat) = 116 \<or> (of_char c :: nat) = 107 \<or> (of_char c :: nat) = 98" by auto
  moreover from assms(1) have "c = py_lower_char d" by (simp add: same_letter_def)
  moreover obtain n where n: "n = (of_char d :: nat)" by simp
  ultimately have "n + 32 = 109 \<or> n + 32 = 116 \<or> n + 32 = 107 \<or> n + 32 = 98 \<or> n = 109 \<or> n = 116 \<or> n = 107 \<or> n = 98"
    using lower_code [of d] by (simp add: Let_def split: if_splits) blast
  then have "(65 \<le> n \<and> n \<le> 90) \<or> (97 \<le> n \<and> n \<le> 122)" by linarith
  then show ?thesis unfolding is_word_def Let_def n by blast
qed

lemma no_words:
  assumes "snd s = [] \<or> \<not> is_word (hd (snd s))"
  shows "attempts (words ''million'' [''thousand'', ''billion'', ''k'', ''m'', ''b'']) s = []"
proof -
  have "snd s = [] \<or> \<not> same_letter c (hd (snd s))" if "c \<in> set ''mtkb''" for c using assms lower_is_word that by blast
  from this [of "CHR ''m''"] this [of "CHR ''t''"] this [of "CHR ''k''"] this [of "CHR ''b''"] show ?thesis
    by (cases "snd s = []") (simp_all add: words_def)
qed

text \<open>What may follow a number so that it stays the number it is.\<close>

definition ends_number :: "string \<Rightarrow> bool" where
  "ends_number post \<longleftrightarrow> post = [] \<or> (\<not> is_word (hd post) \<and> \<not> py_isspace (hd post) \<and> hd post \<notin> set ''%,'')"

definition no_number :: "string \<Rightarrow> bool" where
  "no_number t \<longleftrightarrow> list_all (\<lambda>c. \<not> py_isdigit c \<and> c \<noteq> CHR ''$'') t"

lemma run_of_none: "post = [] \<or> \<not> p (hd post) \<Longrightarrow> longest_run p None post = 0"
  by (cases post) (auto simp: longest_run_def)

lemma no_suffix: "ends_number post \<Longrightarrow> attempts NUMBER_SUFFIX (b, post) = []"
  using no_words [of "(b, post)"] run_of_none [of post py_isspace] by (auto simp: NUMBER_SUFFIX_def ends_number_def forward_def)

lemma no_fraction:
  assumes "no_number post"
  shows "match_at (Cat (Sat (\<lambda>c. c = CHR ''.'')) (Rep py_isdigit 1 None)) (b, post) = None"
proof (cases post)
  case (Cons c r)
  with assms run_of_none [of r py_isdigit] show ?thesis by (cases r) (auto simp: match_at_def forward_def no_number_def)
qed (simp add: match_at_def)

lemma first_body:
  assumes "ds \<noteq> []" "list_all py_isdigit ds" "no_number post" "ends_number post"
  shows "match_at NUMBER_BODY (b, ds @ post) = Some ([], (rev ds @ b, post))"
proof -
  obtain d r where ds: "ds = d # r" using assms(1) by (cases ds) auto
  have run: "longest_run digit_or_comma None (r @ post) = length r"
    using assms ds by (cases post) (auto simp: longest_run_def takeWhile_eq_all_conv [THEN iffD2] takeWhile_append list_all_iff no_number_def ends_number_def)
  have 1: "match_at (Sat py_isdigit) (b, ds @ post) = Some ([], (d # b, r @ post))"
    using assms(2) ds by (simp add: first_sat forward_def)
  have 2: "match_at (Rep digit_or_comma 0 None) (d # b, r @ post) = Some ([], (rev ds @ b, post))"
    using first_rep [of 0 digit_or_comma None "(d # b, r @ post)"] run ds by (simp add: forward_def)
  have 3: "match_at (Opt (Cat (Sat (\<lambda>c. c = CHR ''.'')) (Rep py_isdigit 1 None))) (rev ds @ b, post) = Some ([], (rev ds @ b, post))"
    by (simp add: first_opt no_fraction [OF assms(3)] del: One_nat_def)
  from first_cat [OF 1 first_cat [OF 2 3]] show ?thesis by (simp add: NUMBER_BODY_def)
qed

lemma first_number:
  assumes "ds \<noteq> []" "list_all py_isdigit ds" "no_number post" "ends_number post" "b = [] \<or> \<not> (is_word (hd b) \<or> hd b = CHR ''.'')"
  shows "match_at NUMBER (b, ds @ post) = Some ([(''num'', ds)], (rev ds @ b, post))"
proof -
  have 1: "match_at (Not_after (\<lambda>c. is_word c \<or> c = CHR ''.'')) (b, ds @ post) = Some ([], (b, ds @ post))"
    using assms(5) by (auto simp: match_at_def)
  have 2: "match_at (Opt (Grp ''money'' (Sat (\<lambda>c. c = CHR ''$'')))) (b, ds @ post) = Some ([], (b, ds @ post))"
    using assms(1,2) by (cases ds) (auto simp: first_opt first_grp first_sat py_isdigit_def)
  have 3: "match_at (Grp ''num'' NUMBER_BODY) (b, ds @ post) = Some ([(''num'', ds)], (rev ds @ b, post))"
    using first_body [OF assms(1-4)] by (simp add: first_grp read_between_def)
  have 4: "match_at (Opt (Grp ''suffix'' NUMBER_SUFFIX)) (rev ds @ b, post) = Some ([], (rev ds @ b, post))"
    using no_suffix [OF assms(4)] by (simp add: first_opt first_grp match_at_def)
  from first_cat [OF 1 first_cat [OF 2 first_cat [OF 3 4]]] show ?thesis by (simp add: NUMBER_def)
qed

lemma no_number_here: "\<not> py_isdigit c \<Longrightarrow> c \<noteq> CHR ''$'' \<Longrightarrow> match_at NUMBER (b, c # r) = None"
  by (simp add: match_at_def NUMBER_def NUMBER_BODY_def)

lemma no_number_found: "no_number t \<Longrightarrow> find_from NUMBER b t = None"
proof (induction t arbitrary: b)
  case Nil
  show ?case by (simp add: match_at_def NUMBER_def NUMBER_BODY_def)
qed (simp add: no_number_def no_number_here)

lemma one_number:
  assumes "ds \<noteq> []" "list_all py_isdigit ds" "no_number pre" "no_number post" "ends_number post"
    "pre = [] \<or> \<not> (is_word (last pre) \<or> last pre = CHR ''.'')"
  shows "finditer NUMBER (pre @ ds @ post) = [(pre, [(''num'', ds)], ds)]"
proof -
  have "match_at NUMBER (rev pre, ds @ post) = Some ([(''num'', ds)], (rev ds @ rev pre, post))"
    using first_number [of ds post "rev pre"] assms by (simp add: hd_rev)
  then have "find_from NUMBER (rev pre) (ds @ post) = Some (([], [(''num'', ds)], ds), (rev ds @ rev pre, post))"
    using assms(1) by (cases ds) (simp_all add: read_between_def)
  moreover have "find_from NUMBER [] (pre @ ds @ post) =
      map_option (\<lambda>((sk, m), t). ((pre @ sk, m), t)) (find_from NUMBER (rev pre @ []) (ds @ post))"
    by (rule find_skip_text) (use assms(3) in \<open>auto simp: no_number_def no_number_here\<close>)
  ultimately have "find_from NUMBER [] (pre @ ds @ post) = Some ((pre, [(''num'', ds)], ds), (rev ds @ rev pre, post))" by simp
  then show ?thesis
    using assms(1) no_number_found [OF assms(4), of "rev ds @ rev pre"]
    by (simp add: finditer_def matches.simps [of NUMBER "([], pre @ ds @ post)"] matches.simps [of NUMBER "(rev ds @ rev pre, post)"])
qed

lemma shown_value: "number_value (show_nat n) = of_nat n"
proof -
  have "\<forall>c \<in> set (show_nat n). c \<noteq> CHR ''.'' \<and> c \<noteq> CHR '',''" using show_nat_digits by (fastforce simp: py_isdigit_def)
  then show ?thesis
    by (simp add: number_value_def fraction_digits_def takeWhile_eq_all_conv [THEN iffD2] dropWhile_eq_Nil_conv [THEN iffD2] filter_True)
qed

lemma nothing_cited: "finditer x text = [] \<Longrightarrow> sub_rx x new text = text"
  using matches_whole [of x "([], text)"] by (cases "matches x ([], text)") (simp add: finditer_def sub_rx_def)

lemma restated_passes:
  assumes "e \<in> set evidences" "of_nat n \<in> set (numeric_leaves (JObj e))" "\<forall>e \<in> set evidences. hashable_id (jget e ''query_id'')"
    "answer = pre @ show_nat n @ post" "no_number pre" "no_number post" "ends_number post"
    "pre = [] \<or> \<not> (is_word (last pre) \<or> last pre = CHR ''.'')" "finditer QUERY_ID answer = []"
  shows "\<exists>r. check_answer_grounding_multi answer evidences question = Inr r \<and> report_ok r \<and> ungrounded_tokens r = []"
proof -
  let ?tk = "token_of (pre, [(''num'', show_nat n)], show_nat n)"
  have toks: "tokens (sub_rx QUERY_ID '' '' answer) = [?tk]"
    using one_number [of "show_nat n" pre post] assms show_nat_digits [of _ n] by (simp add: nothing_cited tokens_def list_all_iff)
  have "tk_value ?tk = of_nat n" "0 \<le> tk_tolerance ?tk"
    by (simp_all add: token_of_def group_or_empty_def shown_value Let_def py_strip_def py_lower_def SCALES_def)
  then have "supported ?tk (concat (map (\<lambda>e. numeric_leaves (JObj e)) evidences)) figures" for figures
    using assms(1,2) by (auto simp: supported_def list_ex_iff EPSILON_def intro!: bexI [of _ e] bexI [of _ "of_nat n"] simp del: numeric_leaves.simps)
  with assms(3,9) show ?thesis
    by (simp add: check_answer_grounding_multi_def toks reported_def report_ok_def list_all_iff Let_def del: numeric_leaves.simps)
qed

lemma no_caveat: "report_ok r \<Longrightarrow> ungrounded_tokens r = [] \<Longrightarrow> causal_claims r = [] \<Longrightarrow> caveat r = None"
  by (simp add: report_ok_def caveat_def)

text \<open>The loop passes such an answer on as it is, with no step, when it claims no cause.\<close>

lemma restated_answer_kept:
  assumes "of_nat n \<in> set (numeric_leaves (JObj res))" "hashable_id (jget res ''query_id'')"
    "answer = pre @ show_nat n @ post" "no_number pre" "no_number post" "ends_number post"
    "pre = [] \<or> \<not> (is_word (last pre) \<or> last pre = CHR ''.'')" "finditer QUERY_ID answer = []"
    "filter causal_sentence (split_rx SENTENCE_END answer) = []"
    "\<And>r. check_answer_grounding answer (Some res) (rx_prompt rx) = Inr r \<Longrightarrow> le_ground env answer res (rx_prompt rx) = loop_report r"
  shows "apply_grounding env rx res qid answer = ret answer"
proof -
  from assms(1) have "res \<noteq> []" by auto
  moreover have "\<exists>r. check_answer_grounding_multi answer [res] (rx_prompt rx) = Inr r \<and> report_ok r \<and> ungrounded_tokens r = []"
    by (rule restated_passes [OF _ assms(1) _ assms(3-8)]) (use assms(2) in simp_all)
  ultimately obtain r where r: "check_answer_grounding answer (Some res) (rx_prompt rx) = Inr r" "report_ok r" "ungrounded_tokens r = []"
    by (auto simp: check_answer_grounding_def)
  moreover from this assms(9) have "causal_claims r = []"
    by (auto simp: check_answer_grounding_def check_answer_grounding_multi_def Let_def split: if_splits)
  ultimately show ?thesis by (simp add: apply_grounding_def assms(10) loop_report_def no_caveat)
qed


definition fare_evidence :: jdict where
  "fare_evidence = [(''query_id'', JStr ''q1''), (''rows'', JArr [JArr [JStr ''a'', JInt 1000], JArr [JStr ''b'', JInt 800]])]"

lemma fare_not_cited: "finditer QUERY_ID ''Total: 1000.'' = []"
  by code_simp


text \<open>
  A decrease stated as a percentage is called unverified although the rows give it: the relative changes that are tried
  carry their sign, and the number in the text does not.
\<close>

lemma decrease_called_unverified:
  "map_sum id ungrounded_tokens (check_answer_grounding ''Fell 20%'' (Some fare_evidence) []) = Inr [''20%'']"
  by code_simp

text \<open>A figure from 1900 to 2100 is taken for a year even when a unit makes it millions, and is never looked at.\<close>

lemma scaled_year_unchecked:
  "map_sum id ungrounded_tokens (check_answer_grounding ''2000 million'' (Some fare_evidence) []) = Inr []"
  by code_simp

end
