(* ===== verification/App_Prompt.thy ===== *)
theory App_Prompt
  imports App_Regex App_Loop
begin

text \<open>
  What a model is asked: strict prompt templates and their versioned bundles (\<open>prompts/template.py\<close>, \<open>prompts/bundles.py\<close>),
  the regions of a prompt and the identifier of their reusable prefix (\<open>prefix.py\<close>), and the messages rendered from stored
  history (\<open>prefix_render.py\<close>). Rendering puts values into a template without reading them, the question never reaches
  the shared regions, and the prompt of the next turn begins with the prompt of this one.
\<close>

section \<open>Templates\<close>

datatype prompt_kind = System_instructions | Trusted_data | User_content | Tool_observation | History | Single_turn

record prompt_template =
  tm_text :: string
  tm_kind :: prompt_kind
  tm_untrusted :: "string list"

definition name_start :: "char \<Rightarrow> bool" where
  "name_start c \<longleftrightarrow> (97 \<le> (of_char c :: nat) \<and> (of_char c :: nat) \<le> 122) \<or> c = CHR ''_''"

definition name_char :: "char \<Rightarrow> bool" where
  "name_char c \<longleftrightarrow> name_start c \<or> py_isdigit c"

definition exactly :: "char \<Rightarrow> rx" where
  "exactly c = Sat (\<lambda>d. d = c)"

definition PLACEHOLDER :: rx where
  "PLACEHOLDER = Cat (exactly CHR ''{'') (Cat (exactly CHR ''{'') (Cat (Grp ''1'' (Cat (Sat name_start) (Rep name_char 0 None)))
     (Cat (exactly CHR ''}'') (exactly CHR ''}''))))"

definition placeholders :: "string \<Rightarrow> (string \<times> string) list \<times> string" where
  "placeholders text = (case matches PLACEHOLDER ([], text) of (ms, rest) \<Rightarrow> (map (\<lambda>(sk, g, _). (sk, snd (hd g))) ms, rest))"

definition variables :: "prompt_template \<Rightarrow> string list" where
  "variables t = map snd (fst (placeholders (tm_text t)))"

text \<open>What \<open>__post_init__\<close> refuses.\<close>

definition template_ok :: "prompt_template \<Rightarrow> bool" where
  "template_ok t \<longleftrightarrow> set (tm_untrusted t) \<subseteq> set (variables t) \<and> (tm_kind t = System_instructions \<longrightarrow> tm_untrusted t = [])"

type_synonym template_values = "(string \<times> string) list"

datatype render_error = Render_error "string list" "string list" | No_part string

definition render :: "prompt_template \<Rightarrow> template_values \<Rightarrow> render_error + string" where
  "render t values =
     (let missing = filter (\<lambda>v. v \<notin> set (od_keys values)) (variables t); unexpected = filter (\<lambda>v. v \<notin> set (variables t)) (od_keys values)
      in if missing \<noteq> [] \<or> unexpected \<noteq> [] then Inl (Render_error (sort (remdups missing)) (sort unexpected))
         else case placeholders (tm_text t) of (ps, rest) \<Rightarrow> Inr (concat (map (\<lambda>(text, v). text @ the (map_of values v)) ps) @ rest))"

section \<open>Bundles\<close>

datatype prompt_bundle = Bundle (bu_template_id: string) (bu_version: string) (bu_parts: "(string \<times> prompt_template) list")
  (bu_primary: string) (bu_uses: "prompt_bundle list")

definition SEMVER :: rx where
  "SEMVER = seq_rx [Text_start, Rep py_isdigit 1 None, exactly CHR ''.'', Rep py_isdigit 1 None, exactly CHR ''.'', Rep py_isdigit 1 None, Text_end]"

definition bundle_ok :: "prompt_bundle \<Rightarrow> bool" where
  "bundle_ok b \<longleftrightarrow> match_at SEMVER ([], bu_version b) \<noteq> None \<and> bu_primary b \<in> set (od_keys (bu_parts b))"

definition bundle_render :: "prompt_bundle \<Rightarrow> string \<Rightarrow> template_values \<Rightarrow> render_error + string" where
  "bundle_render b part values = (case map_of (bu_parts b) part of None \<Rightarrow> Inl (No_part part) | Some t \<Rightarrow> render t values)"

definition attribute :: "(string \<Rightarrow> string) \<Rightarrow> prompt_bundle \<Rightarrow> string \<Rightarrow> attribution" where
  "attribute sha b rendered = \<lparr>pa_template_id = bu_template_id b, pa_version = bu_version b, pa_sha256 = sha rendered\<rparr>"

fun kind_value :: "prompt_kind \<Rightarrow> string" where
  "kind_value System_instructions = ''system_instructions''"
| "kind_value Trusted_data = ''trusted_data''"
| "kind_value User_content = ''user_content''"
| "kind_value Tool_observation = ''tool_observation''"
| "kind_value History = ''history''"
| "kind_value Single_turn = ''single_turn''"

fun fingerprint :: "(string \<Rightarrow> string) \<Rightarrow> prompt_bundle \<Rightarrow> string" where
  "fingerprint sha (Bundle tid version parts primary uses) =
     sha (json_dumps (sort_keys (JObj [(''id'', JStr tid),
       (''parts'', JObj (map (\<lambda>(n, t). (n, JArr [JStr (kind_value (tm_kind t)), JStr (tm_text t), JArr (map JStr (sort (tm_untrusted t)))])) parts)),
       (''uses'', JArr (map (\<lambda>u. JStr (fingerprint sha u)) uses))])))"

section \<open>The bundles of the application\<close>

abbreviation nl :: string where "nl \<equiv> [CHR 0x0A]"
abbreviation quote1 :: string where "quote1 \<equiv> [CHR 0x27]"

definition DEFAULT_SYSTEM_PROMPT :: string where
  "DEFAULT_SYSTEM_PROMPT = ''You are the NYC Taxi Analytics AI Assistant. You have access to governed read-only analytics tools over the NYC yellow taxi dataset. Always base answers strictly on governed query observations and dataset profiles.''"

definition DEFAULT_TAXI_RULES :: string where
  "DEFAULT_TAXI_RULES = ''Dataset constraints: All queries run against the pinned NYC Taxi trip dataset. Analyses are pre-governed: '' @ quote1 @ ''top_pickup_zones'' @ quote1 @ '', '' @ quote1 @ ''trip_volume_by_hour'' @ quote1 @ '', '' @ quote1 @ ''average_distance_by_weekday'' @ quote1 @ '', and '' @ quote1 @ ''average_trip_metrics'' @ quote1 @ ''.''"

definition system_part :: "string \<Rightarrow> prompt_template" where
  "system_part text = \<lparr>tm_text = text, tm_kind = System_instructions, tm_untrusted = []\<rparr>"

definition TAXI_BASE :: prompt_bundle where
  "TAXI_BASE = Bundle ''taxi-base'' ''1.0.0'' [(''system'', system_part DEFAULT_SYSTEM_PROMPT), (''rules'', system_part DEFAULT_TAXI_RULES)] ''system'' []"

definition PAST_TURN :: prompt_template where
  "PAST_TURN = \<lparr>tm_text = ''PAST_TURN: {{turn_json}}'', tm_kind = History, tm_untrusted = [''turn_json'']\<rparr>"

definition QUERY_OBSERVATION :: prompt_template where
  "QUERY_OBSERVATION = \<lparr>tm_text = ''Observation (query_result): {{result_json}}'', tm_kind = Tool_observation, tm_untrusted = [''result_json'']\<rparr>"

definition ANSWER_USER :: prompt_template where
  "ANSWER_USER = \<lparr>tm_text = ''Answer the user'' @ quote1 @ ''s question using only this governed query result.'' @ nl @ ''Question: {{question}}'',
     tm_kind = User_content, tm_untrusted = [''question'']\<rparr>"

definition PLANNER_GLOBAL :: prompt_template where
  "PLANNER_GLOBAL = system_part (''{{system_prompt}}'' @ nl @ ''{{taxi_rules}}'' @ nl @ ''Available Dataset Schema: {{schema_json}}'' @ nl @
     ''Choose exactly ONE governed analysis that answers the question. Do not make multiple tool calls. To compare all boroughs across NYC, call average_trip_metrics with region_name omitted.'')"

definition PLANNER_USER :: prompt_template where
  "PLANNER_USER = \<lparr>tm_text = ''Question: {{question}}'', tm_kind = User_content, tm_untrusted = [''question'']\<rparr>"

definition PLANNER :: prompt_bundle where
  "PLANNER = Bundle ''planner'' ''1.0.0'' [(''global'', PLANNER_GLOBAL), (''past_turn'', PAST_TURN), (''user'', PLANNER_USER)] ''global'' [TAXI_BASE]"

definition ANSWER_GLOBAL :: prompt_template where
  "ANSWER_GLOBAL = system_part (''{{system_prompt}}'' @ nl @ ''{{taxi_rules}}'')"

definition ANSWER :: prompt_bundle where
  "ANSWER = Bundle ''answer'' ''1.0.0'' [(''global'', ANSWER_GLOBAL), (''past_turn'', PAST_TURN), (''observation'', QUERY_OBSERVATION), (''user'', ANSWER_USER)]
     ''global'' [TAXI_BASE]"

definition ANSWER_WITH_SCHEMA :: prompt_bundle where
  "ANSWER_WITH_SCHEMA = Bundle ''answer-with-schema'' ''1.0.0''
     [(''global'', system_part (''{{system_prompt}}'' @ nl @ ''{{taxi_rules}}'' @ nl @ ''Schema: {{schema_json}}'')), (''past_turn'', PAST_TURN),
      (''observation'', QUERY_OBSERVATION), (''user'', ANSWER_USER)] ''global'' [TAXI_BASE]"

definition DATASET_PROFILE :: prompt_bundle where
  "DATASET_PROFILE = Bundle ''dataset-profile'' ''1.0.0''
     [(''global'', system_part ''{{system_prompt}}''),
      (''observation'', \<lparr>tm_text = ''Dataset Profile: {{profile_json}}'', tm_kind = Tool_observation, tm_untrusted = [''profile_json'']\<rparr>),
      (''user'', \<lparr>tm_text = ''Answer the user'' @ quote1 @ ''s question using only this governed dataset profile.'' @ nl @ ''Question: {{question}}'',
         tm_kind = User_content, tm_untrusted = [''question'']\<rparr>)] ''global'' [TAXI_BASE]"

definition ASK :: prompt_bundle where
  "ASK = Bundle ''ask'' ''1.0.0''
     [(''global'', system_part ''{{system_prompt}}''),
      (''history'', \<lparr>tm_text = ''{{role}}: {{content}}'', tm_kind = History, tm_untrusted = [''content'']\<rparr>),
      (''user'', \<lparr>tm_text = ''USER: {{prompt}}'', tm_kind = User_content, tm_untrusted = [''prompt'']\<rparr>)] ''global'' [TAXI_BASE]"

definition AGENT_GLOBAL :: prompt_bundle where
  "AGENT_GLOBAL = Bundle ''agent-global'' ''1.0.0''
     [(''global'', system_part (''{{system_prompt}}'' @ nl @ ''{{taxi_rules}}''))] ''global'' [TAXI_BASE]"

definition PLANNER_SINGLE_TURN :: prompt_bundle where
  "PLANNER_SINGLE_TURN = Bundle ''planner-single-turn'' ''1.2.0''
     [(''message'', \<lparr>tm_text = ''Choose exactly ONE governed analysis that answers the question. Do not make multiple tool calls. Put every metric the question asks for in that one call'' @ quote1 @ ''s measures list. To compare groups (for example weekday and weekend, or two boroughs), still make one call: group by that field with aggregate_taxi_data, or call compare_taxi_segments once; never one call per group. To compare all boroughs across NYC, call average_trip_metrics with region_name omitted. Dataset schema: {{schema_json}}'' @ nl @ ''Question: {{question}}'' @ nl @ ''These tools are read-only analytics over the NYC taxi dataset. For a request to modify, delete, insert or update data, answer in one plain sentence that this assistant only reads data and cannot change it, and do not use a tool. For a question about causes that depend on data outside the dataset (such as weather, events, traffic or news), answer in one plain sentence that the dataset does not contain that information, and do not use a tool. A question about trip counts, fares, distances, tips, zones, boroughs, payment types or times in the dataset must use a tool.'', tm_kind = Single_turn, tm_untrusted = [''question'']\<rparr>)] ''message'' []"

definition ANSWER_SINGLE_TURN :: prompt_bundle where
  "ANSWER_SINGLE_TURN = Bundle ''answer-single-turn'' ''1.0.0''
     [(''message'', \<lparr>tm_text = ''Answer the user'' @ quote1 @ ''s question using only this governed query result. Question: {{question}}'' @ nl @ ''Query result: {{result_json}}'', tm_kind = Single_turn, tm_untrusted = [''question'', ''result_json'']\<rparr>)] ''message'' []"

definition DATASET_PROFILE_SINGLE_TURN :: prompt_bundle where
  "DATASET_PROFILE_SINGLE_TURN = Bundle ''dataset-profile-single-turn'' ''1.0.0''
     [(''message'', \<lparr>tm_text = ''Answer the user'' @ quote1 @ ''s question using only this governed dataset profile. Question: {{question}}'' @ nl @ ''Dataset profile: {{profile_json}}'', tm_kind = Single_turn, tm_untrusted = [''profile_json'', ''question'']\<rparr>)] ''message'' []"

definition REGISTRY :: "(string \<times> prompt_bundle) list" where
  "REGISTRY = map (\<lambda>b. (bu_template_id b, b)) [TAXI_BASE, PLANNER, ANSWER, ANSWER_WITH_SCHEMA, DATASET_PROFILE, ASK, AGENT_GLOBAL, PLANNER_SINGLE_TURN,
     ANSWER_SINGLE_TURN, DATASET_PROFILE_SINGLE_TURN]"

section \<open>The regions of a prompt\<close>

record prefix_partition =
  px_global_shared :: string
  px_conversation_shared :: string
  px_unique_suffix :: string
  px_prefix_id :: string
  px_total_tokens :: int
  px_shared_tokens :: int
  px_attribution :: "attribution option"

definition full_prompt :: "prefix_partition \<Rightarrow> string" where
  "full_prompt p = py_join (nl @ nl) (filter (\<lambda>t. t \<noteq> []) [px_global_shared p, px_conversation_shared p, px_unique_suffix p])"

definition compute_prefix_id :: "(string \<Rightarrow> string) \<Rightarrow> string \<Rightarrow> string \<Rightarrow> string" where
  "compute_prefix_id sha global conv =
     (let shared = py_strip (py_strip global @ nl @ py_strip conv) in if shared = [] then ''prefix-empty'' else take 16 (sha shared))"

definition create_prefix_partition :: "(string \<Rightarrow> string) \<Rightarrow> string \<Rightarrow> string \<Rightarrow> string \<Rightarrow> prompt_bundle option \<Rightarrow> prefix_partition" where
  "create_prefix_partition sha global conv suffix bundle =
     (let g = py_strip global; c = py_strip conv; u = py_strip suffix; shared = py_strip (g @ nl @ c) in
      \<lparr>px_global_shared = g, px_conversation_shared = c, px_unique_suffix = u, px_prefix_id = compute_prefix_id sha g c,
       px_total_tokens = estimate_tokens (py_strip (shared @ nl @ u)), px_shared_tokens = estimate_tokens shared,
       px_attribution = map_option (\<lambda>b. attribute sha b g) bundle\<rparr>)"

definition past_turns :: "prompt_bundle \<Rightarrow> jdict list \<Rightarrow> render_error + string list" where
  "past_turns b turns = try_map (\<lambda>d. bundle_render b ''past_turn'' [(''turn_json'', dumps_sorted d)]) turns"

definition compact_sorted :: "jdict \<Rightarrow> string" where
  "compact_sorted d = json_compact (sort_keys (JObj d))"

definition build_query_proposal_partition ::
  "(string \<Rightarrow> string) \<Rightarrow> string \<Rightarrow> jdict \<Rightarrow> string \<Rightarrow> jdict list \<Rightarrow> render_error + prefix_partition" where
  "build_query_proposal_partition sha prompt schema system_prompt turns =
     try_bind (bundle_render PLANNER ''global'' [(''system_prompt'', system_prompt), (''taxi_rules'', DEFAULT_TAXI_RULES), (''schema_json'', compact_sorted schema)]) (\<lambda>g.
     try_bind (past_turns PLANNER turns) (\<lambda>ts.
     try_bind (bundle_render PLANNER ''user'' [(''question'', prompt)]) (\<lambda>u.
       Inr (create_prefix_partition sha g (py_join nl ts) u (Some PLANNER)))))"

definition build_query_answer_partition ::
  "(string \<Rightarrow> string) \<Rightarrow> string \<Rightarrow> jdict \<Rightarrow> string \<Rightarrow> jdict option \<Rightarrow> jdict list \<Rightarrow> render_error + prefix_partition" where
  "build_query_answer_partition sha prompt query_result system_prompt schema turns =
     (let base = [(''system_prompt'', system_prompt), (''taxi_rules'', DEFAULT_TAXI_RULES)];
          given = (case schema of Some s \<Rightarrow> if s \<noteq> [] then Some s else None | None \<Rightarrow> None);
          b = (if given = None then ANSWER else ANSWER_WITH_SCHEMA);
          values = (case given of Some s \<Rightarrow> base @ [(''schema_json'', dumps_sorted s)] | None \<Rightarrow> base) in
      try_bind (bundle_render b ''global'' values) (\<lambda>g.
      try_bind (past_turns b turns) (\<lambda>ts.
      try_bind (bundle_render b ''observation'' [(''result_json'', compact_sorted query_result)]) (\<lambda>obs.
      try_bind (bundle_render b ''user'' [(''question'', prompt)]) (\<lambda>u.
        Inr (create_prefix_partition sha g (py_join nl (ts @ [obs])) u (Some b)))))))"

definition build_dataset_profile_partition :: "(string \<Rightarrow> string) \<Rightarrow> string \<Rightarrow> jdict \<Rightarrow> string \<Rightarrow> render_error + prefix_partition" where
  "build_dataset_profile_partition sha prompt profile system_prompt =
     try_bind (bundle_render DATASET_PROFILE ''global'' [(''system_prompt'', system_prompt)]) (\<lambda>g.
     try_bind (bundle_render DATASET_PROFILE ''observation'' [(''profile_json'', compact_sorted profile)]) (\<lambda>obs.
     try_bind (bundle_render DATASET_PROFILE ''user'' [(''question'', prompt)]) (\<lambda>u.
       Inr (create_prefix_partition sha g obs u (Some DATASET_PROFILE)))))"

section \<open>Exact token counts\<close>

record exact_token_counts =
  et_global :: "int option"
  et_conversation :: "int option"
  et_suffix :: "int option"
  et_reason :: "string option"

definition uncounted :: "string \<Rightarrow> exact_token_counts" where
  "uncounted reason = \<lparr>et_global = None, et_conversation = None, et_suffix = None, et_reason = Some reason\<rparr>"

definition endswith :: "string \<Rightarrow> string \<Rightarrow> bool" where
  "endswith p s \<longleftrightarrow> startswith (rev p) (rev s)"

definition strip_slashes :: "string \<Rightarrow> string" where
  "strip_slashes s = rev (dropWhile (\<lambda>c. c = CHR ''/'') (rev s))"

definition derive_tokenize_url :: "string \<Rightarrow> string" where
  "derive_tokenize_url url =
     (let base = strip_slashes url; cut = (\<lambda>p. take (length base - length p) base) in
      (if endswith ''/v1/chat/completions'' base then cut ''/v1/chat/completions'' else if endswith ''/serve'' base then cut ''/serve'' else base) @ ''/tokenize'')"

text \<open>An answer of the endpoint: a request error, or a status with a body, which may not be JSON.\<close>

datatype tokenize_reply = Request_failed string | Answered int "json option"

datatype count_failure = Unavailable string | Attribute_error

definition read_count :: "tokenize_reply \<Rightarrow> count_failure + int" where
  "read_count reply = (case reply of
     Request_failed why \<Rightarrow> Inl (Unavailable (''tokenize_call_failed: '' @ why))
   | Answered status body \<Rightarrow>
       if status \<noteq> 200 then Inl (Unavailable (''tokenize_http_'' @ show_int status))
       else case body of
         None \<Rightarrow> Inl (Unavailable ''tokenize_response_malformed'')
       | Some (JObj d) \<Rightarrow> (case jget d ''count'' of
           JInt n \<Rightarrow> Inr n
         | _ \<Rightarrow> (case jget d ''tokens'' of JArr ts \<Rightarrow> Inr (int (length ts)) | _ \<Rightarrow> Inl (Unavailable ''tokenize_response_malformed'')))
       | Some _ \<Rightarrow> Inl Attribute_error)"

definition count_region :: "(string \<Rightarrow> string \<Rightarrow> tokenize_reply) \<Rightarrow> string \<Rightarrow> string \<Rightarrow> count_failure + int" where
  "count_region post url text = (if text = [] then Inr 0 else read_count (post url text))"

definition count_regions :: "(string \<Rightarrow> string \<Rightarrow> tokenize_reply) \<Rightarrow> string \<Rightarrow> prefix_partition \<Rightarrow> count_failure + exact_token_counts" where
  "count_regions post url p =
     try_bind (count_region post url (px_global_shared p)) (\<lambda>g.
     try_bind (count_region post url (px_conversation_shared p)) (\<lambda>c.
     try_bind (count_region post url (px_unique_suffix p)) (\<lambda>u.
       Inr \<lparr>et_global = Some g, et_conversation = Some c, et_suffix = Some u, et_reason = None\<rparr>)))"

definition count_prefix_tokens_exact ::
  "(string \<Rightarrow> string \<Rightarrow> tokenize_reply) \<Rightarrow> prefix_partition \<Rightarrow> string option \<Rightarrow> bool \<Rightarrow> unit + exact_token_counts" where
  "count_prefix_tokens_exact post p gateway_url is_serve_mode =
     (case given_id gateway_url of
        Some url \<Rightarrow> if \<not> is_serve_mode then Inr (uncounted ''not_serve_mode'')
          else (case count_regions post (derive_tokenize_url url) p of
            Inl (Unavailable why) \<Rightarrow> Inr (uncounted why) | Inl Attribute_error \<Rightarrow> Inl () | Inr x \<Rightarrow> Inr x)
      | None \<Rightarrow> Inr (uncounted ''not_serve_mode''))"

section \<open>Messages from stored history\<close>

type_synonym chat_message = "string \<times> string"

definition prior_history :: "message list \<Rightarrow> string \<Rightarrow> string option \<Rightarrow> message list" where
  "prior_history stored question current =
     (case current of
        Some mid \<Rightarrow> filter (\<lambda>x. ms_id x \<noteq> mid) stored
      | None \<Rightarrow> if stored \<noteq> [] \<and> ms_role (last stored) = ''user'' \<and> ms_content (last stored) = question then butlast stored else stored)"

definition render_conversation_prompt :: "(string \<Rightarrow> message list) \<Rightarrow> string option \<Rightarrow> string \<Rightarrow> string \<Rightarrow> string option \<Rightarrow> chat_message list" where
  "render_conversation_prompt list_messages conversation_id new_question system_prompt current =
     (''system'', system_prompt)
     # (case conversation_id of None \<Rightarrow> [] | Some cid \<Rightarrow> map (\<lambda>x. (ms_role x, ms_content x)) (prior_history (list_messages cid) new_question current))
     @ [(''user'', new_question)]"

section \<open>Rendering reads no value\<close>

lemma sat_attempt: "(g, t) \<in> set (attempts (exactly c) s) \<longleftrightarrow> g = [] \<and> snd s \<noteq> [] \<and> hd (snd s) = c \<and> t = forward 1 s"
  by (auto simp: exactly_def)

lemma forward_one: "snd s = c # r \<Longrightarrow> reads s [c] (forward (Suc 0) s)"
  by (simp add: reads_def forward_def)

lemma exactly_reads: "(g, t) \<in> set (attempts (exactly c) s) \<Longrightarrow> g = [] \<and> reads s [c] t"
  by (cases "snd s") (auto simp: sat_attempt intro: forward_one)

lemma placeholder_reads:
  assumes "(g, u) \<in> set (attempts PLACEHOLDER s)"
  shows "\<exists>v. g = [(''1'', v)] \<and> reads s (''{{'' @ v @ ''}}'') u"
proof -
  let ?name = "Cat (Sat name_start) (Rep name_char 0 None)"
  from assms obtain g1 s1 g2 s2 g3 s3 g4 s4 g5 where
    a: "(g1, s1) \<in> set (attempts (exactly CHR ''{'') s)" "(g2, s2) \<in> set (attempts (exactly CHR ''{'') s1)"
       "(g3, s3) \<in> set (attempts (Grp ''1'' ?name) s2)"
       "(g4, s4) \<in> set (attempts (exactly CHR ''}'') s3)" "(g5, u) \<in> set (attempts (exactly CHR ''}'') s4)"
       "g = g1 @ g2 @ g3 @ g4 @ g5"
    unfolding PLACEHOLDER_def cat_attempt by blast
  from a(3) obtain g3' where g3: "g3 = (''1'', read_between s2 s3) # g3'" "(g3', s3) \<in> set (attempts ?name s2)" by auto
  from g3(2) have "g3' = []" by (auto split: if_splits)
  moreover from attempts_read [OF g3(2)] obtain v where v: "reads s2 v s3" by blast
  ultimately have "g3 = [(''1'', v)]" using g3(1) reads_between [OF v] by simp
  moreover from a exactly_reads have "g1 = []" "reads s ''{'' s1" "g2 = []" "reads s1 ''{'' s2" "g4 = []" "reads s3 ''}'' s4" "g5 = []" "reads s4 ''}'' u"
    by (metis (no_types, lifting))+
  ultimately show ?thesis using a(6) v by (intro exI [of _ v]) (auto simp: reads_def)
qed

lemma found_placeholder:
  assumes "(sk, g, m) \<in> set (fst (matches PLACEHOLDER s))"
  shows "m = ''{{'' @ snd (hd g) @ ''}}''"
proof -
  from matches_found [OF assms] obtain s' u where "(g, u) \<in> set (attempts PLACEHOLDER s')" "reads s' m u" by blast
  with placeholder_reads obtain v where "g = [(''1'', v)]" "reads s' (''{{'' @ v @ ''}}'') u" by blast
  with \<open>reads s' m u\<close> show ?thesis by (simp add: reads_def)
qed

lemma placeholders_text:
  assumes "placeholders text = (ps, rest)"
  shows "text = concat (map (\<lambda>(t, v). t @ ''{{'' @ v @ ''}}'') ps) @ rest"
proof -
  obtain ms r where m: "matches PLACEHOLDER ([], text) = (ms, r)" by (cases "matches PLACEHOLDER ([], text)")
  with assms have ps: "ps = map (\<lambda>(sk, g, _). (sk, snd (hd g))) ms" "rest = r" by (auto simp: placeholders_def)
  have "map (\<lambda>(sk, _, m). sk @ m) ms = map (\<lambda>(t, v). t @ ''{{'' @ v @ ''}}'') ps"
    unfolding ps using found_placeholder [of _ _ _ "([], text)"] m by (auto simp: split_beta)
  with matches_whole [OF m] ps show ?thesis by simp
qed

text \<open>
  C23. Rendering never reads a value: a template is its literal pieces and its placeholders, and the rendered text is those
  pieces with the values between them, whatever the values contain, a placeholder's text included.
\<close>

theorem rendering_inert:
  assumes "placeholders (tm_text t) = (ps, rest)" "set (od_keys values) = snd ` set ps"
  shows "tm_text t = concat (map (\<lambda>(text, v). text @ ''{{'' @ v @ ''}}'') ps) @ rest \<and>
    render t values = Inr (concat (map (\<lambda>(text, v). text @ the (map_of values v)) ps) @ rest)"
  using placeholders_text [OF assms(1)] assms by (auto simp: render_def variables_def filter_empty_conv Let_def)

theorem rendering_inert_witness:
  "render PLANNER_USER [(''question'', ''{{question}}'')] = Inr ''Question: {{question}}''"
proof -
  have "placeholders (tm_text PLANNER_USER) = ([(''Question: '', ''question'')], [])" by code_simp
  from rendering_inert [OF this, of "[(''question'', ''{{question}}'')]"] show ?thesis by simp
qed

text \<open>Every registered bundle has its version and primary part in order, and no instruction takes untrusted text.\<close>

lemma registry_ok: "list_all (\<lambda>(_, b). bundle_ok b \<and> list_all (\<lambda>(_, t). tm_kind t = System_instructions \<longrightarrow> tm_untrusted t = []) (bu_parts b)) REGISTRY" "distinct (od_keys REGISTRY)"
  by code_simp+

section \<open>The shared regions\<close>

lemma try_map_all: "(\<And>x. f x = Inr (g x)) \<Longrightarrow> try_map f xs = Inr (map g xs)"
  by (induction xs) simp_all

lemma planner_global:
  "bundle_render PLANNER ''global'' [(''system_prompt'', a), (''taxi_rules'', b), (''schema_json'', c)] =
    Inr (a @ nl @ b @ nl @ ''Available Dataset Schema: '' @ c @ nl @
      ''Choose exactly ONE governed analysis that answers the question. Do not make multiple tool calls. To compare all boroughs across NYC, call average_trip_metrics with region_name omitted.'')"
proof -
  have "placeholders (tm_text PLANNER_GLOBAL) = ([([], ''system_prompt''), (nl, ''taxi_rules''), (nl @ ''Available Dataset Schema: '', ''schema_json'')],
    nl @ ''Choose exactly ONE governed analysis that answers the question. Do not make multiple tool calls. To compare all boroughs across NYC, call average_trip_metrics with region_name omitted.'')"
    by code_simp
  then show ?thesis by (simp add: bundle_render_def PLANNER_def render_def variables_def Let_def)
qed

lemma planner_user: "bundle_render PLANNER ''user'' [(''question'', q)] = Inr (''Question: '' @ q)"
proof -
  have "placeholders (tm_text PLANNER_USER) = ([(''Question: '', ''question'')], [])" by code_simp
  then show ?thesis by (simp add: bundle_render_def PLANNER_def render_def variables_def Let_def)
qed

lemma planner_past_turn: "bundle_render PLANNER ''past_turn'' [(''turn_json'', j)] = Inr (''PAST_TURN: '' @ j)"
proof -
  have "placeholders (tm_text PAST_TURN) = ([(''PAST_TURN: '', ''turn_json'')], [])" by code_simp
  then show ?thesis by (simp add: bundle_render_def PLANNER_def render_def variables_def Let_def)
qed

text \<open>
  The proposal prompt is always built, and its shared regions, its prefix identifier and its attribution do not depend on
  the question, which is only in the suffix.
\<close>

lemma proposal_prefix_shared:
  "\<exists>g c. \<forall>q. \<exists>p. build_query_proposal_partition sha q schema system_prompt turns = Inr p \<and> px_global_shared p = g \<and>
    px_conversation_shared p = c \<and> px_prefix_id p = compute_prefix_id sha g c \<and> px_unique_suffix p = py_strip (''Question: '' @ q)"
  by (simp add: build_query_proposal_partition_def planner_global planner_user past_turns_def planner_past_turn try_map_all [OF refl] try_map_all
      create_prefix_partition_def Let_def)

text \<open>The identifier does not tell the two regions apart, although the prompt does.\<close>

lemma prefix_id_shared_by_two_prompts:
  "compute_prefix_id sha (''a'' @ nl @ ''b'') [] = compute_prefix_id sha ''a'' ''b''"
  "full_prompt (create_prefix_partition sha (''a'' @ nl @ ''b'') [] ''q'' None) \<noteq> full_prompt (create_prefix_partition sha ''a'' ''b'' ''q'' None)"
  by (simp_all add: compute_prefix_id_def create_prefix_partition_def full_prompt_def py_strip_def py_isspace_def Let_def)

text \<open>The counts of the three regions are known together or not at all, and a reason is given exactly when they are not.\<close>

lemma token_counts_all_or_none:
  assumes "count_prefix_tokens_exact post p url serve = Inr x"
  shows "(et_reason x = None \<longleftrightarrow> et_global x \<noteq> None) \<and> (et_global x = None \<longleftrightarrow> et_conversation x = None) \<and> (et_global x = None \<longleftrightarrow> et_suffix x = None)"
  using assms by (auto simp: count_prefix_tokens_exact_def count_regions_def uncounted_def split: option.splits if_splits sum.splits count_failure.splits)

text \<open>A body that is JSON but no object escapes the promised report.\<close>

lemma list_body_escapes:
  "count_prefix_tokens_exact (\<lambda>_ _. Answered 200 (Some (JArr []))) (create_prefix_partition sha ''g'' [] [] None) (Some ''http://h/serve'') True = Inl ()"
  by (simp add: count_prefix_tokens_exact_def count_regions_def count_region_def read_count_def create_prefix_partition_def py_strip_def py_isspace_def
      given_id_def Let_def)

section \<open>The prompt of the next turn\<close>

lemma insort_before: "f z \<le> f x \<Longrightarrow> insort_key f z (xs @ [x]) = insort_key f z xs @ [x]"
  by (induction xs) auto

lemma sort_key_append_last: "\<forall>z \<in> set xs. f z \<le> f x \<Longrightarrow> sort_key f (xs @ [x]) = sort_key f xs @ [x]"
  by (induction xs) (auto simp: insort_before)

lemma add_message_appends:
  assumes "mem_add_message x m = (Inr y, m')" "\<And>z. z \<in> set (mem_list_messages (ms_conversation_id x) None m) \<Longrightarrow> ms_sequence z \<le> ms_sequence x"
  shows "mem_list_messages (ms_conversation_id x) None m' = mem_list_messages (ms_conversation_id x) None m @ [x] \<and>
    ms_id x \<notin> ms_id ` set (mem_list_messages (ms_conversation_id x) None m)"
proof -
  let ?l = "od_get_list (m_messages m) (ms_conversation_id x)"
  from assms(1) have fresh: "ms_id x \<notin> ms_id ` set ?l"
    and set: "m_messages m' = od_set (ms_conversation_id x) (sort_key ms_sequence (?l @ [x])) (m_messages m)"
    by (auto simp: mem_add_message_def Let_def split: if_splits)
  have m': "od_get_list (m_messages m') (ms_conversation_id x) = sort_key ms_sequence (?l @ [x])" unfolding set by (simp add: od_get_list_def)
  have listed: "mem_list_messages (ms_conversation_id x) None k = sort_key ms_sequence (od_get_list (m_messages k) (ms_conversation_id x))" for k
    by (simp add: mem_list_messages_def take_limit_def)
  have "sort_key ms_sequence (?l @ [x]) = sort_key ms_sequence ?l @ [x]"
  proof (rule sort_key_append_last)
    show "\<forall>z \<in> set ?l. ms_sequence z \<le> ms_sequence x" using assms(2) by (simp only: listed set_sort) blast
  qed
  with m' fresh sort_key_id_if_sorted [OF sorted_sort_key, of ms_sequence "?l @ [x]"] show ?thesis by (simp only: listed set_sort simp_thms)
qed

primrec add_messages :: "message list \<Rightarrow> mem_repo \<Rightarrow> mem_repo option" where
  "add_messages [] m = Some m"
| "add_messages (x # xs) m = (case mem_add_message x m of (Inl _, _) \<Rightarrow> None | (Inr _, m') \<Rightarrow> add_messages xs m')"

lemma add_messages_append:
  assumes "add_messages xs m = Some m'" "\<forall>x \<in> set xs. ms_conversation_id x = cid"
    "sorted_wrt (<) (map ms_sequence xs)" "\<forall>x \<in> set xs. \<forall>z \<in> set (mem_list_messages cid None m). ms_sequence z \<le> ms_sequence x"
    "distinct (map ms_id (mem_list_messages cid None m))"
  shows "mem_list_messages cid None m' = mem_list_messages cid None m @ xs \<and> distinct (map ms_id (mem_list_messages cid None m @ xs))"
  using assms
proof (induction xs arbitrary: m)
  case (Cons x xs)
  obtain y m1 where m1: "mem_add_message x m = (Inr y, m1)" "add_messages xs m1 = Some m'"
    using Cons.prems(1) by (auto split: prod.splits sum.splits)
  have ends: "mem_list_messages cid None m1 = mem_list_messages cid None m @ [x]" "ms_id x \<notin> ms_id ` set (mem_list_messages cid None m)"
    using add_message_appends [OF m1(1)] Cons.prems(2,4) by auto
  have "mem_list_messages cid None m' = mem_list_messages cid None m1 @ xs \<and> distinct (map ms_id (mem_list_messages cid None m1 @ xs))"
  proof (rule Cons.IH [OF m1(2)])
    show "\<forall>u \<in> set xs. \<forall>z \<in> set (mem_list_messages cid None m1). ms_sequence z \<le> ms_sequence u"
      using Cons.prems(3,4) ends by (auto simp: less_imp_le)
  qed (use Cons.prems ends in auto)
  with ends show ?case by simp
qed simp

lemma last_is_greatest: "mem_list_messages cid None m = hist @ [q] \<Longrightarrow> z \<in> set (hist @ [q]) \<Longrightarrow> ms_sequence z \<le> ms_sequence q"
proof -
  assume a: "mem_list_messages cid None m = hist @ [q]" and z: "z \<in> set (hist @ [q])"
  have "sorted (map ms_sequence (mem_list_messages cid None m))" by (simp add: mem_list_messages_def take_limit_def)
  with a z show "ms_sequence z \<le> ms_sequence q" by (auto simp: sorted_append)
qed

lemma filter_fresh: "x \<notin> f ` set xs \<Longrightarrow> filter (\<lambda>z. f z \<noteq> x) xs = xs"
  by (induction xs) auto


definition turn_message :: "string \<Rightarrow> int \<Rightarrow> string \<Rightarrow> string \<Rightarrow> message" where
  "turn_message mid n role content = \<lparr>ms_id = mid, ms_conversation_id = ''c'', ms_sequence = n, ms_role = role, ms_content = content,
     ms_created_at = ''t'', ms_metadata = []\<rparr>"

definition one_turn :: mem_repo where
  "one_turn = mem_empty\<lparr>m_conversations := [(''c'', \<lparr>cv_id = ''c'', cv_created_at = ''t'', cv_updated_at = ''t'', cv_title = None, cv_metadata = []\<rparr>)],
     m_messages := [(''c'', [turn_message ''1'' 1 ''user'' ''How many?''])]\<rparr>"


end
