(* ===== verification/App_Routes.thy ===== *)
theory App_Routes
  imports App_Regex App_Run
begin

text \<open>
  The routes in front of the orchestration loop (\<open>routers/runs.py\<close>, \<open>routers/ask.py\<close>, \<open>routers/conversations.py\<close>): request
  validation, the status codes of every failure, and the answers. An accepted run is durable before the client hears of it.
  The web framework turns an exception that no handler names into status 500.
\<close>

section \<open>Requests\<close>

definition full_match :: "rx \<Rightarrow> string \<Rightarrow> bool" where
  "full_match x text \<longleftrightarrow> list_ex (\<lambda>(_, u). snd u = []) (attempts x ([], text))"

definition eval_id_char :: "char \<Rightarrow> bool" where
  "eval_id_char c \<longleftrightarrow> (let n = of_char c :: nat in (48 \<le> n \<and> n \<le> 57) \<or> (65 \<le> n \<and> n \<le> 90) \<or> (97 \<le> n \<and> n \<le> 122)) \<or> c \<in> set ''._:-''"

definition EVAL_RUN_ID_PATTERN :: rx where
  "EVAL_RUN_ID_PATTERN = seq_rx [Text_start, Rep eval_id_char 1 (Some 64), Text_end]"

record run_request =
  rq_prompt :: string
  rq_conversation_id :: "string option"
  rq_eval_run_id :: "string option"

definition prompt_ok :: "string \<Rightarrow> bool" where
  "prompt_ok p \<longleftrightarrow> 1 \<le> length p \<and> length p \<le> 4000 \<and> py_strip p \<noteq> []"

definition request_ok :: "run_request \<Rightarrow> bool" where
  "request_ok q \<longleftrightarrow> prompt_ok (rq_prompt q) \<and> (case rq_eval_run_id q of None \<Rightarrow> True | Some e \<Rightarrow> full_match EVAL_RUN_ID_PATTERN e)"

section \<open>Answers\<close>

datatype 'a http_answer = Http_error int pydict | Http_ok int 'a

record run_accepted =
  ac_conversation_id :: string
  ac_message_id :: string
  ac_run_id :: string
  ac_events_url :: string

definition accepted_of :: "run_submission \<Rightarrow> run_accepted" where
  "accepted_of su = \<lparr>ac_conversation_id = su_conversation_id su, ac_message_id = su_message_id su, ac_run_id = su_run_id su,
     ac_events_url = ''/api/runs/'' @ su_run_id su @ ''/events''\<rparr>"

definition effective_eval_id :: "run_request \<Rightarrow> string option \<Rightarrow> unit + string option" where
  "effective_eval_id q header = (case (rq_eval_run_id q, header) of
     (None, Some h) \<Rightarrow> if full_match EVAL_RUN_ID_PATTERN h then Inr (Some h) else Inl ()
   | (e, _) \<Rightarrow> Inr e)"

text \<open>\<open>POST /api/runs\<close>: the submission, which is executed after the answer, comes with it.\<close>

definition create_run :: "'s loop_env \<Rightarrow> run_request \<Rightarrow> string option \<Rightarrow> 's lstate \<Rightarrow> run_accepted http_answer \<times> run_submission option \<times> 's lstate" where
  "create_run env q header s =
     (if \<not> request_ok q then (Http_error 422 [], None, s)
      else case effective_eval_id q header of
        Inl _ \<Rightarrow> (Http_error 422 [], None, s)
      | Inr e \<Rightarrow> (case prepare_run env (rq_prompt q) (rq_conversation_id q) (given_id e) s of
          (Inr su, s') \<Rightarrow> (Http_ok 202 (accepted_of su), Some su, s')
        | (Inl (Orchestration x), s') \<Rightarrow>
            (Http_error (if oe_code x = ''conversation_not_found'' then 404 else 503) [(''code'', PStr (oe_code x)), (''retryable'', PBool (oe_retryable x))], None, s')
        | (Inl _, s') \<Rightarrow> (Http_error 500 [], None, s')))"

text \<open>\<open>POST /api/runs/{run_id}/cancel\<close>.\<close>

definition cancel_run :: "'s loop_env \<Rightarrow> string \<Rightarrow> 's lstate \<Rightarrow> (string \<times> string) http_answer \<times> 's lstate" where
  "cancel_run env rid s = (case request_cancellation env rid s of
     (Inr r, s') \<Rightarrow> (Http_ok 202 (rn_id r, rn_status r), s')
   | (Inl (Orchestration x), s') \<Rightarrow>
       (Http_error (if oe_code x = ''run_not_found'' then 404 else if oe_code x = ''run_already_terminal'' then 409 else 500)
          [(''code'', PStr (oe_code x)), (''message'', PStr (oe_text x))], s')
   | (Inl _, s') \<Rightarrow> (Http_error 500 [], s'))"

definition ask_status :: "orchestration_error \<Rightarrow> int" where
  "ask_status x =
     (if oe_code x = ''llm_configuration_error'' then 503
      else if oe_code x = ''bedrock_budget_exhausted'' then 429
      else if oe_code x = ''tool_validation_error'' then 422
      else if oe_code x = ''conversation_not_found'' then 404
      else if oe_retryable x then 503 else 502)"

record usage_metadata =
  us_input :: int
  us_output :: int
  us_total :: int

record call_metadata =
  cm_llm_call_id :: string
  cm_model_id :: string
  cm_usage :: usage_metadata
  cm_latency_ms :: int

record ask_response =
  as_answer :: string
  as_tool_call_id :: "string option"
  as_query_id :: "string option"
  as_llm_calls :: "call_metadata list"
  as_usage :: usage_metadata
  as_latency_ms :: int
  as_conversation_id :: string
  as_run_id :: string

text \<open>A call with unknown token counts cannot be summed.\<close>

definition call_metadata_of :: "loop_call \<Rightarrow> call_metadata option" where
  "call_metadata_of c = (case (lc_input_tokens c, lc_output_tokens c) of
     (Some i, Some j) \<Rightarrow> Some \<lparr>cm_llm_call_id = lc_llm_call_id c, cm_model_id = lc_model_id c,
       cm_usage = \<lparr>us_input = i, us_output = j, us_total = i + j\<rparr>, cm_latency_ms = lc_latency_ms c\<rparr>
   | _ \<Rightarrow> None)"

fun all_some :: "'a option list \<Rightarrow> 'a list option" where
  "all_some [] = Some []"
| "all_some (None # xs) = None"
| "all_some (Some x # xs) = map_option (Cons x) (all_some xs)"

definition response_from_result :: "loop_result \<Rightarrow> ask_response option" where
  "response_from_result r = map_option (\<lambda>cs. \<lparr>as_answer = lr_answer r, as_tool_call_id = lr_tool_call_id r, as_query_id = lr_query_id r, as_llm_calls = cs,
     as_usage = \<lparr>us_input = lr_input_tokens r, us_output = lr_output_tokens r, us_total = lr_total_tokens r\<rparr>, as_latency_ms = lr_latency_ms r,
     as_conversation_id = lr_conversation_id r, as_run_id = lr_run_id r\<rparr>) (all_some (map call_metadata_of (lr_llm_calls r)))"

text \<open>
  \<open>POST /api/ask\<close>. An exception the loop does not know is answered as an invalid proposal when it is a \<open>ValueError\<close>, which
  the argument \<open>value_error\<close> tells.
\<close>

definition ask :: "(uncaught \<Rightarrow> bool) \<Rightarrow> 's loop_env \<Rightarrow> string \<Rightarrow> string option \<Rightarrow> 's lstate \<Rightarrow> ask_response http_answer \<times> 's lstate" where
  "ask value_error env prompt conversation_id s =
     (if \<not> prompt_ok prompt then (Http_error 422 [], s)
      else case run_prompt env prompt conversation_id s of
        (Inr r, s') \<Rightarrow> (case response_from_result r of Some a \<Rightarrow> Http_ok 200 a | None \<Rightarrow> Http_error 500 [], s')
      | (Inl (Orchestration x), s') \<Rightarrow> (Http_error (ask_status x)
          [(''code'', PStr (oe_code x)), (''llm_call_id'', opt_val (oe_llm_call_id x)), (''retryable'', PBool (oe_retryable x))], s')
      | (Inl (Uncaught u), s') \<Rightarrow> (if value_error u
          then Http_error 422 [(''code'', PStr ''tool_validation_error''), (''llm_call_id'', PStr []), (''retryable'', PBool False)] else Http_error 500 [], s')
      | (Inl _, s') \<Rightarrow> (Http_error 500 [], s'))"

section \<open>Reading a conversation back\<close>

record message_response =
  mr_message_id :: string
  mr_sequence :: int
  mr_role :: string
  mr_content :: string
  mr_created_at :: string

definition message_response_of :: "message \<Rightarrow> message_response" where
  "message_response_of m = \<lparr>mr_message_id = ms_id m, mr_sequence = ms_sequence m, mr_role = ms_role m, mr_content = ms_content m, mr_created_at = ms_created_at m\<rparr>"

record step_response =
  sr_step_id :: string
  sr_sequence :: int
  sr_step_type :: string
  sr_status :: string
  sr_llm_call_id :: "string option"
  sr_tool_call_id :: "string option"
  sr_query_id :: "string option"

definition step_response_of :: "run_step \<Rightarrow> step_response" where
  "step_response_of x = \<lparr>sr_step_id = st_id x, sr_sequence = st_sequence x, sr_step_type = st_step_type x, sr_status = st_status x,
     sr_llm_call_id = st_llm_call_id x, sr_tool_call_id = st_tool_call_id x, sr_query_id = st_query_id x\<rparr>"

record run_response =
  rr_run_id :: string
  rr_message_id :: "string option"
  rr_status :: string
  rr_started_at :: string
  rr_completed_at :: "string option"
  rr_input_tokens :: int
  rr_output_tokens :: int
  rr_cost :: pyfloat
  rr_steps :: "step_response list"

definition run_response_of :: "run \<Rightarrow> run_step list \<Rightarrow> run_response" where
  "run_response_of r steps = \<lparr>rr_run_id = rn_id r, rr_message_id = rn_message_id r, rr_status = rn_status r, rr_started_at = rn_started_at r,
     rr_completed_at = rn_completed_at r, rr_input_tokens = rn_input_tokens r, rr_output_tokens = rn_output_tokens r,
     rr_cost = rn_estimated_cost_usd r, rr_steps = map step_response_of steps\<rparr>"

record reloaded_conversation =
  rc_conversation :: conversation
  rc_messages :: "message_response list"
  rc_runs :: "run_response list"

text \<open>\<open>GET /api/conversations/{conversation_id}\<close>: tool messages are history for the models and are not sent to the page.\<close>

definition reload_conversation :: "string \<Rightarrow> mem_repo \<Rightarrow> reloaded_conversation http_answer" where
  "reload_conversation cid m = (case mem_get_conversation cid m of
     None \<Rightarrow> Http_error 404 []
   | Some c \<Rightarrow> Http_ok 200 \<lparr>rc_conversation = c,
       rc_messages = map message_response_of (filter (\<lambda>x. ms_role x \<noteq> ''tool'') (mem_list_messages cid None m)),
       rc_runs = map (\<lambda>r. run_response_of r (mem_list_run_steps (rn_id r) m)) (mem_list_runs cid m)\<rparr>)"

section \<open>An accepted run is stored\<close>

lemma wp_repoI:
  assumes "le_step env = mem_op" "\<And>i m. le_other env i m = m"
    "\<And>r m. mem_op op (ls_repo s) = (Inr r, m) \<Longrightarrow> Q r (s\<lparr>ls_repo := m, ls_tick := Suc (ls_tick s)\<rparr>)" "\<And>e t. E e t"
  shows "wp (repo_call env op) Q E s"
  using assms by (auto simp: wp_def repo_call_def Let_def split: prod.split sum.split)

lemma wp_publishI: "(\<And>t. ls_repo t = ls_repo s \<Longrightarrow> Q () t) \<Longrightarrow> wp (publish_event env etype rid cid n payload eval) Q E s"
  unfolding publish_event_def next_tick_def by (auto simp del: lstate.unfold_congs)

definition message_stored :: "string \<Rightarrow> string \<Rightarrow> string \<Rightarrow> string \<Rightarrow> mem_repo \<Rightarrow> bool" where
  "message_stored cid mid role content m \<longleftrightarrow> (\<exists>x \<in> set (mem_list_messages cid None m). ms_id x = mid \<and> ms_role x = role \<and> ms_content x = content)"

lemma added_message_stored:
  assumes "mem_op (Add_message x) m = (Inr r, m')"
  shows "message_stored (ms_conversation_id x) (ms_id x) (ms_role x) (ms_content x) m'"
proof -
  let ?l = "od_get_list (m_messages m) (ms_conversation_id x)"
  from assms have stored: "m_messages m' = od_set (ms_conversation_id x) (sort_key ms_sequence (?l @ [x])) (m_messages m)"
    by (auto simp: mem_add_message_def map_reply_def Let_def split: if_splits)
  have "od_get_list (m_messages m') (ms_conversation_id x) = sort_key ms_sequence (?l @ [x])" unfolding stored by (simp add: od_get_list_def)
  then have "x \<in> set (mem_list_messages (ms_conversation_id x) None m')" by (simp add: mem_list_messages_def take_limit_def)
  then show ?thesis by (auto simp: message_stored_def)
qed

lemma created_run_stored:
  "mem_op (Create_run r) m = (Inr y, m') \<Longrightarrow> mem_get_run (rn_id r) m' = Some r \<and> (\<forall>cid mid role content. message_stored cid mid role content m' = message_stored cid mid role content m)"
  by (auto simp: message_stored_def mem_defs map_reply_def split: if_splits)

definition run_stored :: "string \<Rightarrow> run_submission \<Rightarrow> mem_repo \<Rightarrow> bool" where
  "run_stored prompt su m \<longleftrightarrow>
     (\<exists>run. mem_get_run (su_run_id su) m = Some run \<and> rn_status run = ''in_progress'' \<and> rn_conversation_id run = su_conversation_id su \<and>
        rn_message_id run = Some (su_message_id su)) \<and>
     message_stored (su_conversation_id su) (su_message_id su) ''user'' prompt m"

lemma wp_true: "wp m (\<lambda>_ _. True) (\<lambda>_ _. True) s"
  by (simp add: wp_def split: prod.split sum.split)

lemma prepare_run_stores:
  assumes "le_step env = mem_op" "\<And>i m. le_other env i m = m"
  shows "wp (prepare_run env prompt conversation_id eval) (\<lambda>su t. run_stored prompt su (ls_repo t)) (\<lambda>_ _. True) s"
  by (simp only: prepare_run_def wp_bnd, rule wp_mono [OF wp_true])
    (auto intro!: wp_repoI [OF assms] wp_publishI simp: Let_def next_tick_def run_stored_def dest!: added_message_stored created_run_stored)


definition ask_borough :: run_request where
  "ask_borough = \<lparr>rq_prompt = ''Which borough?'', rq_conversation_id = None, rq_eval_run_id = None\<rparr>"


end
