(* ===== verification/Spec2Isabelle.thy ===== *)
theory Spec2Isabelle
  imports Gw_System Kv_Evidence App_Refine Mcp_Server App_Stream App_Trace App_Ground App_Prompt App_Routes
begin

text \<open>
  A verification library for the analytics proof of concept: a chat application that answers questions
  about a month of taxi trips by planning governed queries with language models, a gateway in front of
  self-hosted inference workers, and the transfer of key-value caches between those workers.

  \<^bold>\<open>How the program is put together.\<close> A question reaches the application (\<open>services/app\<close>). A model proposes
  a tool call; \<open>validation/proposal.py\<close> checks it before it crosses to the tool server (\<open>services/mcp\<close>), which
  validates again (\<open>dataset_spike/query_spec.py\<close>), compiles one parametrised query (\<open>query_compiler.py\<close>) and runs
  it in a worker process (\<open>analytics.py\<close>). Every model call is governed (\<open>model_policy\<close>, \<open>llm.py\<close>): the policy
  chooses the model, the run's ledger reserves and settles its cost, and a monthly allowance bounds what is
  spent at the provider. Conversations, runs, steps and jobs are kept by a state repository (\<open>state\<close>), in
  memory or in one DynamoDB table. Model calls to self-hosted workers go through the gateway
  (\<open>services/gateway\<close>): guard, tenant quota, admission, placement, the per-worker dispatch queue, the proxied
  request, and the overflow to a provider; its hop policy tells a worker when to load a prefix's cache from
  another worker. The workers' side is \<open>infra/inference/kv_transfer\<close>: prefix identities, a directory of beliefs
  about who holds which prefix, the runtime hooks around LMCache, and the validator of recorded evidence.

  \<^bold>\<open>Conventions.\<close> Floats are rational numbers (\<open>pyfloat\<close>), and a float in JSON carries the text \<open>repr\<close> prints.
  Errors are values of a sum type, one constructor per exception the callers tell apart. Dictionaries are
  association lists in insertion order (\<open>odict\<close>), or maps where order does not matter. The environment is an
  argument. A coroutine is split at each \<open>await\<close> into operations on the shared state, and the transition
  relations interleave them in every order. Clocks, random numbers, hash functions, botocore, DuckDB, vLLM,
  LMCache and the workers' answers are arguments of the definitions that use them.

  \<^bold>\<open>Theories.\<close>
  \<^item> \<open>Prelude\<close>, \<open>Json\<close>: results with \<open>try_bind\<close>, ordered dictionaries, Python's text and number functions,
    reachability, and three interfaces: \<open>once_release\<close> (a resource released at most once), \<open>inv_system\<close> (an
    invariant of a transition system) and \<open>capped_budget\<close> (a conditional reservation under a cap).
  \<^item> \<open>Gw_Guard\<close> (\<open>guard.py\<close>): the token estimate and the exact set of accepted payloads; no header lowers it.
  \<^item> \<open>Gw_Workers\<close> (\<open>workers.py\<close>): worker snapshots, scrapes, the warm gate and its probes as a transition
    system; only workers that are healthy and warm are offered, and no probe across a fault warms a worker.
  \<^item> \<open>Gw_Admission\<close> (\<open>admission.py\<close>): the complete decision table of shedding.
  \<^item> \<open>Gw_Tenants\<close> (\<open>tenants.py\<close>): the sliding token window and concurrency of a tenant, as a transition system
    whose every state is within the budget.
  \<^item> \<open>Gw_Placement\<close> (\<open>placement.py\<close>): every policy; eligibility, and when a prefix leaves its owner.
  \<^item> \<open>Gw_Queue\<close> (\<open>queueing.py\<close>): dispatch queues with acquire split at its await; slots and waiters within their
    bounds, no slot idle while somebody waits, each slot owned by exactly one party; and the run in which a
    timeout that meets a grant loses the slot.
  \<^item> \<open>Gw_Overflow\<close> (\<open>overflow.py\<close>, \<open>upstream.py\<close>), \<open>Gw_Hop\<close> (\<open>hop.py\<close>): when a request overflows, and when a
    remote prefix is loaded.
  \<^item> \<open>Gw_Serve\<close>, \<open>Gw_System\<close> (\<open>main.py\<close>): the request handler as operations between its awaits and all
    interleavings of any number of requests; worker loads are exact in every state and nothing leaks when all
    requests have ended.
  \<^item> \<open>Qry_Spec\<close>, \<open>Qry_Compiler\<close>, \<open>Qry_Analytics\<close> (\<open>query_spec.py\<close>, \<open>query_compiler.py\<close>, \<open>analytics.py\<close>):
    validators that accept exactly well-formed specifications (with a round trip), SQL texts that contain no
    caller value and one placeholder per parameter, a complete order, and answers within the byte bound that
    are marked truncated unless they are whole.
  \<^item> \<open>Kv_Identity\<close>, \<open>Kv_Contract\<close>, \<open>Kv_Directory\<close>, \<open>Kv_Runtime\<close>, \<open>Kv_Evidence\<close> (\<open>kv_transfer\<close>): identities that
    coincide only for equal inputs, a bounded directory whose queries refine an abstract map of beliefs, loads
    that are reported consumed only when they were, and a validator that accepts what the runtime emits.
  \<^item> \<open>App_Budget\<close> (\<open>model_policy/budget.py\<close>, \<open>orchestration/budgets.py\<close>, \<open>validation/retry.py\<close>,
    \<open>bedrock_budget.py\<close>), \<open>App_Policy\<close> (\<open>model_policy\<close>, the governed calls of \<open>llm.py\<close>): the caps of runs and
    months hold in every state, every reservation is settled on every path, and every request a governed call
    sends is one the policy allows.
  \<^item> \<open>App_State\<close>, \<open>App_Dynamo\<close>, \<open>App_Refine\<close> (\<open>state\<close>): the in-memory repository as the specification, the single
    table as the implementation, and the simulation between them, with the runs outside its client discipline
    where the two differ.
  \<^item> \<open>App_Proposal\<close> (\<open>validation/proposal.py\<close>): the pre-flight check, and which errors of the server's own
    validation a proposal without violations can still meet. \<open>App_Parse\<close> (\<open>orchestration/loop.py\<close>): the parsers that
    turn a proposal into a call; a proposal without violations becomes the call it asks for. \<open>App_Catalogue\<close>
    (\<open>query_catalogue.py\<close>): the fixed questions and their calls, every one of which passes the pre-flight check.
  \<^item> \<open>Mcp_Client\<close> (\<open>mcp_client.py\<close>), \<open>Mcp_Server\<close> (\<open>mcp_server/server.py\<close>): the adapters and sanitizers of the
    application over an abstract transport, and the server's tools as such a transport; the sanitizers accept
    exactly the bounded envelopes, so what the server answers reaches the application unchanged, with the one
    label that does not.
  \<^item> \<open>App_Stream\<close> (\<open>llm.py\<close>): reasoning separated from visible text; the streaming splitter agrees with the whole
    text however it is cut (interface \<open>resumable\<close>).
  \<^item> \<open>App_Context\<close> (\<open>orchestration/reducer.py\<close>): the working context of a call accounts for the stored history.
  \<^item> \<open>App_Events\<close> (\<open>events\<close>, \<open>routers/events.py\<close>): events survive the stream; a subscriber sees each event once and
    nothing after the terminal one.
  \<^item> \<open>App_Monad\<close>, \<open>App_Loop\<close> (\<open>orchestration/loop.py\<close>, the manual strategy): programs over a state with exceptions, and
    the orchestration loop written in them statement by statement: submission, the polls for cancellation, catalogue,
    planner, bounded retry, tool call, context, answer and the handlers, over any repository, with what other clients do
    to it between two operations as an argument. \<open>App_Run\<close>: every execution settles its run in the store and in the
    event stream, or ends in an exception the loop does not know; and the request for cancellation that reopens a run.
    \<open>App_Trace\<close>: which calls an execution makes, in which order, all checked, and none after a seen cancellation. The
    proofs go through the loop once, in locales over the relation to keep (\<open>loop_rel\<close>, \<open>loop_calls\<close>, \<open>loop_ends\<close>, over
    \<open>exn_order\<close>), and once per relation only where it differs; \<open>run_store\<close> is what they need of a repository.
  \<^item> \<open>App_Routes\<close> (\<open>routers/runs.py\<close>, \<open>routers/ask.py\<close>, \<open>routers/conversations.py\<close>): the routes in front of the loop;
    an accepted run is stored before the client hears of it.
  \<^item> \<open>App_Regex\<close>: the backtracking matcher of Python's \<open>re\<close> as far as the application uses it, what a match reads, and which
    attempt comes first. \<open>App_Ground\<close> (\<open>validation/grounding.py\<close>, \<open>validation/injection.py\<close>): the check of an answer's
    figures against the evidence, which the loop takes as an argument; a figure of the evidence always passes, and the
    true or unchecked figures it gets wrong. \<open>App_Prompt\<close> (\<open>prompts\<close>, \<open>prefix.py\<close>, \<open>prefix_render.py\<close>): templates
    whose values are never read, shared regions without the question, and a prompt that grows from turn to turn.
  \<^item> \<open>App_Jobs\<close> (\<open>jobs\<close>, \<open>worker.py\<close>, \<open>routers/jobs.py\<close>): a job message settles its job over any job store (interface
    \<open>job_store\<close>); the batches and mirror writes that lose work.

  \<^bold>\<open>Loops and bounds.\<close> One definition uses fuel: the retry loop of the orchestration has
  \<open>MAX_VALIDATION_RETRIES + 1\<close> rounds, and \<open>retry_fuel\<close> shows that more of them change nothing, because the last round is
  refused its retry. The orchestration's outer loop returns or raises in its first round and is no recursion. A call that
  is polled for cancellation is polled a finite number of times, which is an argument. The other loops that are not
  structural recursions have termination proofs by a measure: the matches of a pattern (text left), the queue's \<open>pump\<close> (waiters), the directory's \<open>evict_oldest\<close> (entries), the envelope's
  \<open>shrink\<close> (rows), \<open>py_split\<close> and the digit loops (length of the text). The conversion of a float to decimals
  looks at 400 places, more than any double has; characters are those below 256.

  \<^bold>\<open>Not modelled.\<close> Logging, tracing and metrics; HTTP frameworks and wire formats; reading of configuration
  where it is only float parsing; the provider adapters and prompt assembly of \<open>llm.py\<close>; the crewai and
  deep agents strategies of the orchestration (their agents run in third-party frameworks that call back into the loop), the
  status route, voice and capture of the application; Redis itself;
  deployment files, dashboards, notebooks, benchmarks and evaluation tooling.
\<close>

end
